(* ===== verification/Frank_Prelude.thy ===== *)
theory Frank_Prelude
  imports Main "HOL-Library.Char_ord"
begin

text \<open>
  What the components share: calls that may raise and change state, Python's truthiness and
  \<open>or\<close> on optional strings, \<open>str\<close> of an integer, stripping, prefix tests and substring
  search, and JSON values. Nothing in this theory models code of the repository by itself;
  it is the part of the Python language and its standard library that the models use.
\<close>

section \<open>Calls that raise and change state\<close>

text \<open>
  A call is a function from a state to a result and a new state. The result is \<open>Inl e\<close>
  when the call raises \<open>e\<close>. State changes made before the exception stay, as in Python.
\<close>

type_synonym ('s, 'e, 'a) io = "'s \<Rightarrow> ('e + 'a) \<times> 's"

definition io_return :: "'a \<Rightarrow> ('s, 'e, 'a) io" where
  "io_return x = (\<lambda>s. (Inr x, s))"

definition io_raise :: "'e \<Rightarrow> ('s, 'e, 'a) io" where
  "io_raise e = (\<lambda>s. (Inl e, s))"

definition io_bind :: "('s, 'e, 'a) io \<Rightarrow> ('a \<Rightarrow> ('s, 'e, 'b) io) \<Rightarrow> ('s, 'e, 'b) io" where
  "io_bind m f = (\<lambda>s. case m s of (Inl e, s') \<Rightarrow> (Inl e, s') | (Inr x, s') \<Rightarrow> f x s')"

text \<open>\<open>try: m except e: h e\<close>\<close>

definition io_catch :: "('s, 'e, 'a) io \<Rightarrow> ('e \<Rightarrow> ('s, 'f, 'a) io) \<Rightarrow> ('s, 'f, 'a) io" where
  "io_catch m h = (\<lambda>s. case m s of (Inl e, s') \<Rightarrow> h e s' | (Inr x, s') \<Rightarrow> (Inr x, s'))"

text \<open>An exception of a called layer re-raised under the caller's error type.\<close>

definition io_lift :: "('e \<Rightarrow> 'f) \<Rightarrow> ('s, 'e, 'a) io \<Rightarrow> ('s, 'f, 'a) io" where
  "io_lift g m = io_catch m (\<lambda>e. io_raise (g e))"

lemma io_return_apply [simp]: "io_return x s = (Inr x, s)"
  by (simp add: io_return_def)

lemma io_raise_apply [simp]: "io_raise e s = (Inl e, s)"
  by (simp add: io_raise_def)

lemma io_bind_Inr: "m s = (Inr x, s') \<Longrightarrow> io_bind m f s = f x s'"
  by (simp add: io_bind_def)

lemma io_bind_Inl: "m s = (Inl e, s') \<Longrightarrow> io_bind m f s = (Inl e, s')"
  by (simp add: io_bind_def)

lemma io_bind_eq_Inr:
  "io_bind m f s = (Inr y, s'') \<longleftrightarrow> (\<exists>x s'. m s = (Inr x, s') \<and> f x s' = (Inr y, s''))"
  by (auto simp: io_bind_def split: prod.splits sum.splits)

lemma io_catch_Inr: "m s = (Inr x, s') \<Longrightarrow> io_catch m h s = (Inr x, s')"
  by (simp add: io_catch_def)

lemma io_catch_Inl: "m s = (Inl e, s') \<Longrightarrow> io_catch m h s = h e s'"
  by (simp add: io_catch_def)

lemma io_lift_Inr: "m s = (Inr x, s') \<Longrightarrow> io_lift g m s = (Inr x, s')"
  by (simp add: io_lift_def io_catch_Inr)

lemma io_lift_Inl: "m s = (Inl e, s') \<Longrightarrow> io_lift g m s = (Inl (g e), s')"
  by (simp add: io_lift_def io_catch_Inl)

lemma io_lift_eq_Inr [simp]: "io_lift g m s = (Inr x, s') \<longleftrightarrow> m s = (Inr x, s')"
  by (auto simp: io_lift_def io_catch_def split: prod.splits sum.splits)

subsection \<open>Frames\<close>

text \<open>A call leaves an observation \<open>f\<close> of the state alone, whether it returns or raises.\<close>

definition keeps :: "('s \<Rightarrow> 'x) \<Rightarrow> ('s, 'e, 'a) io \<Rightarrow> bool" where
  "keeps f m \<longleftrightarrow> (\<forall>s res s'. m s = (res, s') \<longrightarrow> f s' = f s)"

named_theorems keeps_rules "frames of composed calls"

lemma keepsD: "keeps f m \<Longrightarrow> m s = (res, s') \<Longrightarrow> f s' = f s"
  by (auto simp: keeps_def)

lemma keeps_return [keeps_rules]: "keeps f (io_return x)"
  by (simp add: keeps_def)

lemma keeps_Pair [keeps_rules]: "keeps f (Pair r)"
  by (simp add: keeps_def)

lemma keeps_raise [keeps_rules]: "keeps f (io_raise e)"
  by (simp add: keeps_def)

lemma keeps_bind [keeps_rules]: "keeps f m \<Longrightarrow> (\<And>x. keeps f (g x)) \<Longrightarrow> keeps f (io_bind m g)"
  unfolding keeps_def io_bind_def by (auto split: prod.splits sum.splits)

lemma keeps_catch [keeps_rules]: "keeps f m \<Longrightarrow> (\<And>e. keeps f (h e)) \<Longrightarrow> keeps f (io_catch m h)"
  unfolding keeps_def io_catch_def by (auto split: prod.splits sum.splits)

lemma keeps_lift [keeps_rules]: "keeps f m \<Longrightarrow> keeps f (io_lift g m)"
  unfolding io_lift_def by (intro keeps_catch keeps_raise)

lemma keeps_if [keeps_rules]: "keeps f m \<Longrightarrow> keeps f n \<Longrightarrow> keeps f (if b then m else n)"
  by simp

section \<open>Truthiness and \<open>or\<close>\<close>

fun truthy_str :: "string option \<Rightarrow> bool" where
  "truthy_str None = False"
| "truthy_str (Some s) = (s \<noteq> [])"

text \<open>\<open>a or b\<close> for an optional string \<open>a\<close>\<close>

definition or_str :: "string option \<Rightarrow> string \<Rightarrow> string" where
  "or_str a b = (case a of None \<Rightarrow> b | Some s \<Rightarrow> if s = [] then b else s)"

text \<open>\<open>x if x else None\<close>\<close>

definition or_null :: "string option \<Rightarrow> string option" where
  "or_null x = (if truthy_str x then x else None)"

definition none_if_empty :: "string \<Rightarrow> string option" where
  "none_if_empty s = (if s = [] then None else Some s)"

lemma or_str_simps [simp]:
  "or_str None b = b" "or_str (Some []) b = b" "s \<noteq> [] \<Longrightarrow> or_str (Some s) b = s"
  by (auto simp: or_str_def)

section \<open>Decimal text of integers\<close>

definition digit_char :: "nat \<Rightarrow> char" where
  "digit_char n = char_of (48 + n)"

fun str_nat :: "nat \<Rightarrow> string" where
  "str_nat n = (if n < 10 then [digit_char n] else str_nat (n div 10) @ [digit_char (n mod 10)])"

declare str_nat.simps [simp del]

definition str_int :: "int \<Rightarrow> string" where
  "str_int i = (if i < 0 then CHR ''-'' # str_nat (nat (- i)) else str_nat (nat i))"

definition nat_of_str :: "string \<Rightarrow> nat" where
  "nat_of_str s = foldl (\<lambda>n c. 10 * n + (of_char c - 48)) 0 s"

lemma of_digit_char: "n < 10 \<Longrightarrow> of_char (digit_char n) = 48 + n"
  by (simp add: digit_char_def)

lemma digit_char_not_minus: "n < 10 \<Longrightarrow> digit_char n \<noteq> CHR ''-''"
proof
  assume "n < 10" and "digit_char n = CHR ''-''"
  then have "of_char (CHR ''-'') = 48 + n" using of_digit_char by metis
  then show False by simp
qed

lemma nat_of_str_snoc: "nat_of_str (s @ [c]) = 10 * nat_of_str s + (of_char c - 48)"
  by (simp add: nat_of_str_def)

lemma nat_of_str_nat [simp]: "nat_of_str (str_nat n) = n"
proof (induction n rule: str_nat.induct)
  case (1 n)
  show ?case
  proof (cases "n < 10")
    case True
    then show ?thesis by (subst str_nat.simps) (simp add: nat_of_str_def of_digit_char)
  next
    case False
    with 1 have "nat_of_str (str_nat (n div 10)) = n div 10" by blast
    with False show ?thesis
      by (subst str_nat.simps) (simp add: nat_of_str_snoc of_digit_char)
  qed
qed

lemma str_nat_inj: "str_nat m = str_nat n \<longleftrightarrow> m = n"
  by (metis nat_of_str_nat)

lemma str_nat_no_minus: "hd (str_nat n) \<noteq> CHR ''-''" and str_nat_nonempty [simp]: "str_nat n \<noteq> []"
proof (induction n rule: str_nat.induct)
  case (1 n)
  {
    case 1
    with "1.IH" show ?case
      by (subst str_nat.simps) (auto simp: digit_char_not_minus hd_append)
  next
    case 2
    show ?case by (subst str_nat.simps) auto
  }
qed

lemma str_int_inj [simp]: "str_int i = str_int j \<longleftrightarrow> i = j"
proof (cases "i < 0"; cases "j < 0")
  assume "\<not> i < 0" "\<not> j < 0"
  then show ?thesis by (auto simp: str_int_def str_nat_inj)
next
  assume i: "i < 0" "\<not> j < 0"
  then show ?thesis
    by (auto simp: str_int_def) (metis list.sel(1) str_nat_no_minus)
next
  assume i: "\<not> i < 0" "j < 0"
  then show ?thesis
    by (auto simp: str_int_def) (metis list.sel(1) str_nat_no_minus)
next
  assume "i < 0" "j < 0"
  then show ?thesis by (auto simp: str_int_def str_nat_inj)
qed

section \<open>Strings as lists: strip, prefix, substring search\<close>

text \<open>
  These are polymorphic in the character type: identifiers and phone numbers are \<open>string\<close>
  (code points below 256), free text is a list of Unicode code points.
\<close>

definition lstrip_by :: "('c \<Rightarrow> bool) \<Rightarrow> 'c list \<Rightarrow> 'c list" where
  "lstrip_by p s = dropWhile p s"

definition rstrip_by :: "('c \<Rightarrow> bool) \<Rightarrow> 'c list \<Rightarrow> 'c list" where
  "rstrip_by p s = rev (dropWhile p (rev s))"

definition strip_by :: "('c \<Rightarrow> bool) \<Rightarrow> 'c list \<Rightarrow> 'c list" where
  "strip_by p s = rstrip_by p (lstrip_by p s)"

fun starts_with :: "'c list \<Rightarrow> 'c list \<Rightarrow> bool" where
  "starts_with [] s = True"
| "starts_with (c # cs) [] = False"
| "starts_with (c # cs) (d # ds) = (c = d \<and> starts_with cs ds)"

fun contains_str :: "'c list \<Rightarrow> 'c list \<Rightarrow> bool" where
  "contains_str sub [] = (sub = [])"
| "contains_str sub (c # s) = (starts_with sub (c # s) \<or> contains_str sub s)"

fun join_str :: "'c list \<Rightarrow> 'c list list \<Rightarrow> 'c list" where
  "join_str sep [] = []"
| "join_str sep [x] = x"
| "join_str sep (x # y # ys) = x @ sep @ join_str sep (y # ys)"

lemma starts_with_iff: "starts_with p s \<longleftrightarrow> (\<exists>t. s = p @ t)"
  by (induction p s rule: starts_with.induct) auto

lemma starts_with_append [simp]: "starts_with p (p @ s)"
  by (auto simp: starts_with_iff)

lemma starts_with_length: "starts_with p s \<Longrightarrow> length p \<le> length s"
  by (auto simp: starts_with_iff)

lemma length_lstrip_by: "length (lstrip_by p s) \<le> length s"
  by (simp add: lstrip_by_def length_dropWhile_le)

lemma length_rstrip_by: "length (rstrip_by p s) \<le> length s"
  unfolding rstrip_by_def by (metis length_dropWhile_le length_rev)

lemma length_strip_by: "length (strip_by p s) \<le> length s"
  unfolding strip_by_def by (meson le_trans length_lstrip_by length_rstrip_by)

lemma rstrip_by_snoc [simp]:
  "rstrip_by p (s @ [c]) = (if p c then rstrip_by p s else s @ [c])"
  by (simp add: rstrip_by_def)

lemma rstrip_by_Nil [simp]: "rstrip_by p [] = []"
  by (simp add: rstrip_by_def)

lemma rstrip_by_last: "rstrip_by p s \<noteq> [] \<Longrightarrow> \<not> p (last (rstrip_by p s))"
  by (induction s rule: rev_induct) auto

lemma rstrip_by_prefix: "\<exists>t. s = rstrip_by p s @ t \<and> (\<forall>c \<in> set t. p c)"
proof (induction s rule: rev_induct)
  case Nil
  then show ?case by simp
next
  case (snoc c s)
  then obtain t where "s = rstrip_by p s @ t" "\<forall>c \<in> set t. p c" by blast
  then show ?case
    by (cases "p c") (auto intro!: exI [of _ "t @ [c]"])
qed

lemma rstrip_by_Nil_iff: "rstrip_by p s = [] \<longleftrightarrow> (\<forall>c \<in> set s. p c)"
  by (induction s rule: rev_induct) auto

lemma lstrip_by_hd: "lstrip_by p s \<noteq> [] \<Longrightarrow> \<not> p (hd (lstrip_by p s))"
  by (simp add: lstrip_by_def hd_dropWhile)

text \<open>A string is stripped when neither end is a blank.\<close>

definition stripped :: "('c \<Rightarrow> bool) \<Rightarrow> 'c list \<Rightarrow> bool" where
  "stripped p s \<longleftrightarrow> s = [] \<or> (\<not> p (hd s) \<and> \<not> p (last s))"

lemma stripped_strip_by: "stripped p (strip_by p s)"
proof (cases "strip_by p s = []")
  case True
  then show ?thesis by (simp add: stripped_def)
next
  case False
  obtain t where t: "lstrip_by p s = strip_by p s @ t"
    using rstrip_by_prefix [of "lstrip_by p s" p] by (auto simp: strip_by_def)
  with False have "hd (strip_by p s) = hd (lstrip_by p s)" by (metis hd_append2)
  moreover have "lstrip_by p s \<noteq> []" using t False by auto
  then have "\<not> p (hd (lstrip_by p s))" by (rule lstrip_by_hd)
  moreover have "\<not> p (last (strip_by p s))"
    using False unfolding strip_by_def by (rule rstrip_by_last)
  ultimately show ?thesis by (simp add: stripped_def)
qed

lemma stripped_idem: "stripped p s \<Longrightarrow> strip_by p s = s"
proof (cases s rule: rev_cases)
  case Nil
  then show ?thesis by (simp add: strip_by_def lstrip_by_def)
next
  case (snoc t c)
  assume "stripped p s"
  with snoc have "\<not> p (hd s)" "\<not> p c" by (auto simp: stripped_def)
  moreover have "lstrip_by p s = s"
    using \<open>\<not> p (hd s)\<close> snoc unfolding lstrip_by_def by (cases s) fastforce+
  ultimately show ?thesis using snoc by (simp add: strip_by_def)
qed

text \<open>Latin-1 whitespace, as \<open>str.strip()\<close> and \<open>\s\<close> see it below code point 256\<close>

definition py_space :: "char \<Rightarrow> bool" where
  "py_space c = (let n = (of_char c :: nat) in
     (9 \<le> n \<and> n \<le> 13) \<or> (28 \<le> n \<and> n \<le> 32) \<or> n = 133 \<or> n = 160)"

definition py_strip :: "string \<Rightarrow> string" where
  "py_strip s = strip_by py_space s"

text \<open>The words of a text: what is left of it between separators\<close>

function words_by :: "('x \<Rightarrow> bool) \<Rightarrow> 'x list \<Rightarrow> 'x list list" where
  "words_by p s = (let t = dropWhile p s in
     if t = [] then [] else takeWhile (\<lambda>c. \<not> p c) t # words_by p (dropWhile (\<lambda>c. \<not> p c) t))"
  by pat_completeness auto
termination
proof (relation "measure (\<lambda>(p, s). length s)")
  fix p :: "'x \<Rightarrow> bool" and s t
  assume t: "t = dropWhile p s" "t \<noteq> []"
  then have "\<not> p (hd t)" by (metis hd_dropWhile)
  then have "length (dropWhile (\<lambda>c. \<not> p c) t) < length t"
    using t(2) by (cases t) (auto simp: length_dropWhile_le less_Suc_eq_le)
  also have "length t \<le> length s" using t(1) by (simp add: length_dropWhile_le)
  finally show "((p, dropWhile (\<lambda>c. \<not> p c) t), (p, s)) \<in> measure (\<lambda>(p, s). length s)" by simp
qed simp

declare words_by.simps [simp del]

lemma find_Some_in: "find P xs = Some x \<Longrightarrow> x \<in> set xs \<and> P x"
  by (induction xs) (auto split: if_splits)

text \<open>Each run of characters is replaced by one: \<open>re.sub("[...]+", d, s)\<close>.\<close>

fun sub_runs :: "('x \<Rightarrow> bool) \<Rightarrow> 'x \<Rightarrow> 'x list \<Rightarrow> 'x list" where
  "sub_runs p d [] = []"
| "sub_runs p d [c] = (if p c then [d] else [c])"
| "sub_runs p d (c # c' # cs) =
     (if p c then (if p c' then sub_runs p d (c' # cs) else d # sub_runs p d (c' # cs)) else c # sub_runs p d (c' # cs))"

text \<open>For the evaluation of stripping on literals\<close>

lemmas strip_eval = py_strip_def strip_by_def lstrip_by_def rstrip_by_def py_space_def

definition is_digit :: "char \<Rightarrow> bool" where
  "is_digit c = (let n = (of_char c :: nat) in 48 \<le> n \<and> n \<le> 57)"

definition is_letter :: "char \<Rightarrow> bool" where
  "is_letter c = (let n = (of_char c :: nat) in (65 \<le> n \<and> n \<le> 90) \<or> (97 \<le> n \<and> n \<le> 122))"

text \<open>\<open>\w\<close> below code point 256\<close>

definition is_word_char :: "char \<Rightarrow> bool" where
  "is_word_char c = (let n = (of_char c :: nat) in is_letter c \<or> is_digit c \<or> n = 95
     \<or> n \<in> {170, 178, 179, 181, 185, 186, 188, 189, 190} \<or> (192 \<le> n \<and> n \<noteq> 215 \<and> n \<noteq> 247))"

text \<open>\<open>str.lower()\<close> below code point 256\<close>

definition lower_char :: "char \<Rightarrow> char" where
  "lower_char c = (let n = (of_char c :: nat) in
     if (65 \<le> n \<and> n \<le> 90) \<or> (192 \<le> n \<and> n \<le> 222 \<and> n \<noteq> 215) then char_of (n + 32) else c)"

definition py_lower :: "string \<Rightarrow> string" where
  "py_lower s = map lower_char s"

section \<open>JSON values\<close>

text \<open>
  \<open>JTime t\<close> is the ISO-8601 text of the instant \<open>t\<close> (microseconds): the code only writes it
  with \<open>isoformat\<close> and reads it back with \<open>fromisoformat\<close>.
\<close>

datatype json =
    JNull
  | JBool bool
  | JInt int
  | JStr string
  | JTime int
  | JList "json list"
  | JObj "(string \<times> json) list"

type_synonym dict = "(string \<times> json) list"

fun json_truthy :: "json option \<Rightarrow> bool" where
  "json_truthy None = False"
| "json_truthy (Some JNull) = False"
| "json_truthy (Some (JBool b)) = b"
| "json_truthy (Some (JInt n)) = (n \<noteq> 0)"
| "json_truthy (Some (JStr s)) = (s \<noteq> [])"
| "json_truthy (Some (JTime t)) = True"
| "json_truthy (Some (JList xs)) = (xs \<noteq> [])"
| "json_truthy (Some (JObj d)) = (d \<noteq> [])"

text \<open>\<open>d.get(k)\<close> for a key that holds text or null\<close>

definition get_str :: "dict \<Rightarrow> string \<Rightarrow> string option" where
  "get_str d k = (case map_of d k of Some (JStr s) \<Rightarrow> Some s | _ \<Rightarrow> None)"

definition json_opt_str :: "string option \<Rightarrow> json" where
  "json_opt_str x = (case x of None \<Rightarrow> JNull | Some s \<Rightarrow> JStr s)"

end
