(* ===== verification/Table_Store.thy ===== *)
theory Table_Store
  imports Frank_Prelude
begin

text \<open>
  The database client. The repository talks to Postgres through the Supabase client
  (\<open>self.client.table(t).select/update/insert/upsert/delete(...).execute()\<close>), which is not
  under src/: the operations are a parameter of the models that use them, the record
  \<open>table_api\<close>, and the locale \<open>table_store\<close> states what the documentation of the client
  promises about them. A call may fail (\<open>Inl\<close>), and a failed write may or may not have been
  applied. \<open>mem_api\<close> is an in-memory table that meets the contract; the witnesses run on it.
\<close>

section \<open>The interface\<close>

record ('db, 'row) table_api =
  tb_select :: "('row \<Rightarrow> bool) \<Rightarrow> ('db, string, 'row list) io"
  tb_select_top :: "('row \<Rightarrow> bool) \<Rightarrow> ('row \<Rightarrow> int) \<Rightarrow> nat \<Rightarrow> ('db, string, 'row list) io"
    \<comment> \<open>\<open>select(...).order(key, desc=True).limit(n)\<close>\<close>
  tb_update :: "('row \<Rightarrow> bool) \<Rightarrow> ('row \<Rightarrow> 'row) \<Rightarrow> ('db, string, 'row list) io"
  tb_insert :: "(string \<Rightarrow> 'row) \<Rightarrow> ('db, string, 'row list) io"
    \<comment> \<open>the row as a function of the primary key the database generates\<close>
  tb_upsert :: "('row \<Rightarrow> 'row) \<Rightarrow> 'row \<Rightarrow> ('db, string, 'row list) io"
    \<comment> \<open>\<open>upsert(row, on_conflict=key)\<close>: change the row that has the key of \<open>row\<close>, or insert it\<close>
  tb_delete :: "string \<Rightarrow> ('db, string, 'row list) io"

text \<open>What an update, an upsert and a delete do to a table, a map from primary keys to rows.\<close>

definition upd_rows :: "('row \<Rightarrow> bool) \<Rightarrow> ('row \<Rightarrow> 'row) \<Rightarrow> (string \<rightharpoonup> 'row) \<Rightarrow> (string \<rightharpoonup> 'row)" where
  "upd_rows P f m = (\<lambda>k. map_option (\<lambda>r. if P r then f r else r) (m k))"

definition matching :: "('row \<Rightarrow> bool) \<Rightarrow> (string \<rightharpoonup> 'row) \<Rightarrow> 'row set" where
  "matching P m = {r. r \<in> ran m \<and> P r}"

definition ups_row :: "('row \<Rightarrow> string) \<Rightarrow> ('row \<Rightarrow> 'row) \<Rightarrow> 'row \<Rightarrow> (string \<rightharpoonup> 'row) \<Rightarrow> (string \<rightharpoonup> 'row)" where
  "ups_row key f r m = (case m (key r) of None \<Rightarrow> m(key r \<mapsto> r) | Some q \<Rightarrow> m(key r \<mapsto> f q))"

lemma upd_rows_None [simp]: "upd_rows P f m k = None \<longleftrightarrow> m k = None"
  by (simp add: upd_rows_def)

lemma dom_upd_rows [simp]: "dom (upd_rows P f m) = dom m"
  by (auto simp: dom_def)

lemma upd_rows_noop: "(\<And>k r. m k = Some r \<Longrightarrow> \<not> P r) \<Longrightarrow> upd_rows P f m = m"
  by (rule ext) (auto simp: upd_rows_def map_option_case split: option.splits)

lemma distinct_singleton_list: "distinct xs \<Longrightarrow> set xs = {x} \<Longrightarrow> xs = [x]"
proof (cases xs)
  case (Cons y ys)
  assume "distinct xs" "set xs = {x}"
  with Cons have y: "y = x" and "x \<notin> set ys" "set ys \<subseteq> {x}" by auto
  then have "ys = []" by (cases ys) auto
  with Cons y show ?thesis by simp
qed simp

text \<open>The contract. \<open>tbl d\<close> is the content of the table in the database state \<open>d\<close>.\<close>

locale table_store =
  fixes api :: "('db, 'row) table_api"
    and tbl :: "'db \<Rightarrow> string \<rightharpoonup> 'row"
    and key :: "'row \<Rightarrow> string"
  assumes keyed: "tbl d k = Some r \<Longrightarrow> key r = k"
    and select_frame: "tb_select api P d = (res, d') \<Longrightarrow> tbl d' = tbl d"
    and select_ok: "tb_select api P d = (Inr rs, d') \<Longrightarrow> distinct rs \<and> set rs = matching P (tbl d)"
    and select_top_frame: "tb_select_top api P g n d = (res, d') \<Longrightarrow> tbl d' = tbl d"
    and select_top_ok: "tb_select_top api P g n d = (Inr rs, d') \<Longrightarrow>
      \<exists>xs. distinct xs \<and> set xs = matching P (tbl d) \<and> sorted_wrt (\<lambda>a b. g b \<le> g a) xs \<and> rs = take n xs"
    and update_ok: "tb_update api P f d = (Inr rs, d') \<Longrightarrow> (\<And>r. key (f r) = key r) \<Longrightarrow>
      tbl d' = upd_rows P f (tbl d) \<and> set rs = f ` matching P (tbl d)"
    and update_err: "tb_update api P f d = (Inl e, d') \<Longrightarrow> (\<And>r. key (f r) = key r) \<Longrightarrow>
      tbl d' = tbl d \<or> tbl d' = upd_rows P f (tbl d)"
    and insert_ok: "tb_insert api mk d = (Inr rs, d') \<Longrightarrow> (\<And>k. key (mk k) = k) \<Longrightarrow>
      \<exists>k. tbl d k = None \<and> rs = [mk k] \<and> tbl d' = (tbl d)(k \<mapsto> mk k)"
    and insert_err: "tb_insert api mk d = (Inl e, d') \<Longrightarrow> (\<And>k. key (mk k) = k) \<Longrightarrow>
      tbl d' = tbl d \<or> (\<exists>k. tbl d k = None \<and> tbl d' = (tbl d)(k \<mapsto> mk k))"
    and upsert_ok: "tb_upsert api f r d = (Inr rs, d') \<Longrightarrow> (\<And>q. key q = key r \<Longrightarrow> key (f q) = key r) \<Longrightarrow>
      tbl d' = ups_row key f r (tbl d)"
    and upsert_err: "tb_upsert api f r d = (Inl e, d') \<Longrightarrow> (\<And>q. key q = key r \<Longrightarrow> key (f q) = key r) \<Longrightarrow>
      tbl d' = tbl d \<or> tbl d' = ups_row key f r (tbl d)"
    and delete_ok: "tb_delete api k d = (Inr rs, d') \<Longrightarrow> tbl d' = (tbl d)(k := None)"
    and delete_err: "tb_delete api k d = (Inl e, d') \<Longrightarrow> tbl d' = tbl d \<or> tbl d' = (tbl d)(k := None)"
begin

lemma matching_key: "matching (\<lambda>r. key r = k \<and> P r) (tbl d)
    = (case tbl d k of None \<Rightarrow> {} | Some r \<Rightarrow> if P r then {r} else {})"
proof (intro equalityI subsetI)
  fix r
  assume "r \<in> matching (\<lambda>r. key r = k \<and> P r) (tbl d)"
  then obtain j where j: "tbl d j = Some r" and "key r = k" "P r"
    by (auto simp: matching_def ran_def)
  with keyed [OF j] show "r \<in> (case tbl d k of None \<Rightarrow> {} | Some r \<Rightarrow> if P r then {r} else {})"
    by simp
next
  fix r
  assume "r \<in> (case tbl d k of None \<Rightarrow> {} | Some r \<Rightarrow> if P r then {r} else {})"
  then have "tbl d k = Some r" "P r" by (auto split: option.splits if_splits)
  then show "r \<in> matching (\<lambda>r. key r = k \<and> P r) (tbl d)"
    using keyed by (auto simp: matching_def ran_def)
qed

text \<open>Selecting by primary key returns the row, or nothing.\<close>

lemma select_key:
  assumes "tb_select api (\<lambda>r. key r = k) d = (Inr rs, d')"
  shows "rs = (case tbl d k of None \<Rightarrow> [] | Some r \<Rightarrow> [r])"
proof -
  have m: "matching (\<lambda>r. key r = k) (tbl d) = (case tbl d k of None \<Rightarrow> {} | Some r \<Rightarrow> {r})"
    using matching_key [of k "\<lambda>_. True" d] by (simp split: option.splits)
  show ?thesis
  proof (cases "tbl d k")
    case None
    with select_ok [OF assms] m show ?thesis by simp
  next
    case (Some r)
    with select_ok [OF assms] m have "distinct rs" "set rs = {r}" by simp_all
    then have "rs = [r]" by (rule distinct_singleton_list)
    with Some show ?thesis by simp
  qed
qed

text \<open>
  Updating by primary key under a further condition: one row changes when the condition
  holds of it, and then the answer is the changed row; otherwise nothing changes and the
  answer is empty.
\<close>

lemma update_key_ok:
  assumes upd: "tb_update api (\<lambda>r. key r = k \<and> P r) f d = (Inr rs, d')"
    and f: "\<And>r. key (f r) = key r"
  shows "(case tbl d k of
      Some r \<Rightarrow> if P r then set rs = {f r} \<and> tbl d' = (tbl d)(k \<mapsto> f r) else rs = [] \<and> tbl d' = tbl d
    | None \<Rightarrow> rs = [] \<and> tbl d' = tbl d)"
proof -
  have rs: "set rs = f ` (case tbl d k of None \<Rightarrow> {} | Some r \<Rightarrow> if P r then {r} else {})"
    using update_ok [OF upd f] by (simp add: matching_key)
  have tb: "tbl d' = upd_rows (\<lambda>r. key r = k \<and> P r) f (tbl d)"
    using update_ok [OF upd f] by simp
  show ?thesis
  proof (cases "tbl d k")
    case None
    then have "upd_rows (\<lambda>r. key r = k \<and> P r) f (tbl d) = tbl d"
      using keyed by (intro upd_rows_noop) fastforce
    with None rs tb show ?thesis by simp
  next
    case (Some r)
    show ?thesis
    proof (cases "P r")
      case True
      have "upd_rows (\<lambda>r. key r = k \<and> P r) f (tbl d) = (tbl d)(k \<mapsto> f r)"
        using Some True keyed
        by (intro ext) (auto simp: upd_rows_def map_option_case split: option.splits)
      with Some True rs tb show ?thesis by simp
    next
      case False
      with Some have "upd_rows (\<lambda>r. key r = k \<and> P r) f (tbl d) = tbl d"
        using keyed by (intro upd_rows_noop) fastforce
      with Some False rs tb show ?thesis by simp
    qed
  qed
qed

lemma update_key_err:
  assumes upd: "tb_update api (\<lambda>r. key r = k \<and> P r) f d = (Inl e, d')"
    and f: "\<And>r. key (f r) = key r"
  shows "tbl d' = tbl d \<or> (\<exists>r. tbl d k = Some r \<and> P r \<and> tbl d' = (tbl d)(k \<mapsto> f r))"
proof (cases "\<exists>r. tbl d k = Some r \<and> P r")
  case True
  then obtain r where r: "tbl d k = Some r" "P r" by blast
  have "upd_rows (\<lambda>r. key r = k \<and> P r) f (tbl d) = (tbl d)(k \<mapsto> f r)"
    using r keyed by (intro ext) (auto simp: upd_rows_def map_option_case split: option.splits)
  with update_err [OF upd f] r show ?thesis by auto
next
  case False
  then have "upd_rows (\<lambda>r. key r = k \<and> P r) f (tbl d) = tbl d"
    using keyed by (intro upd_rows_noop) fastforce
  with update_err [OF upd f] show ?thesis by auto
qed

end

section \<open>An in-memory table\<close>

text \<open>
  A list of rows inside a database state that a getter and an updater reach; where two rows
  have the same primary key, the first counts. A flag makes every call fail before it does
  anything: an outage.
\<close>

record 'row mem_table =
  mt_rows :: "'row list"
  mt_down :: bool

fun visible :: "('row \<Rightarrow> string) \<Rightarrow> 'row list \<Rightarrow> 'row list" where
  "visible key [] = []"
| "visible key (r # rs) = r # filter (\<lambda>q. key q \<noteq> key r) (visible key rs)"

definition fresh_key :: "string list \<Rightarrow> string" where
  "fresh_key ks = CHR ''k'' # concat ks"

definition mem_call :: "('row \<Rightarrow> string) \<Rightarrow> ('db \<Rightarrow> 'row mem_table) \<Rightarrow> ('row mem_table \<Rightarrow> 'db \<Rightarrow> 'db)
    \<Rightarrow> ('row list \<Rightarrow> 'row list \<times> 'row list) \<Rightarrow> ('db, string, 'row list) io" where
  "mem_call key get put f = (\<lambda>d. if mt_down (get d) then (Inl ''down'', d)
     else (case f (visible key (mt_rows (get d))) of (out, rs) \<Rightarrow>
       (Inr out, put ((get d)\<lparr>mt_rows := rs\<rparr>) d)))"

definition mem_api :: "('row \<Rightarrow> string) \<Rightarrow> ('db \<Rightarrow> 'row mem_table) \<Rightarrow> ('row mem_table \<Rightarrow> 'db \<Rightarrow> 'db)
    \<Rightarrow> ('db, 'row) table_api" where
  "mem_api key get put = \<lparr>
     tb_select = (\<lambda>P. mem_call key get put (\<lambda>rs. (filter P rs, rs))),
     tb_select_top = (\<lambda>P g n. mem_call key get put
        (\<lambda>rs. (take n (rev (sort_key g (filter P rs))), rs))),
     tb_update = (\<lambda>P f. mem_call key get put
        (\<lambda>rs. (map f (filter P rs), map (\<lambda>r. if P r then f r else r) rs))),
     tb_insert = (\<lambda>mk. mem_call key get put
        (\<lambda>rs. let r = mk (fresh_key (map key rs)) in ([r], rs @ [r]))),
     tb_upsert = (\<lambda>f r. mem_call key get put (\<lambda>rs.
        if key r \<in> key ` set rs
        then (map f (filter (\<lambda>q. key q = key r) rs), map (\<lambda>q. if key q = key r then f q else q) rs)
        else ([r], rs @ [r]))),
     tb_delete = (\<lambda>k. mem_call key get put
        (\<lambda>rs. (filter (\<lambda>q. key q = k) rs, filter (\<lambda>q. key q \<noteq> k) rs))) \<rparr>"

definition rows_map :: "('row \<Rightarrow> string) \<Rightarrow> 'row list \<Rightarrow> (string \<rightharpoonup> 'row)" where
  "rows_map key rs = map_of (map (\<lambda>r. (key r, r)) rs)"

definition mem_tbl :: "('row \<Rightarrow> string) \<Rightarrow> ('db \<Rightarrow> 'row mem_table) \<Rightarrow> 'db \<Rightarrow> string \<rightharpoonup> 'row" where
  "mem_tbl key get d = rows_map key (mt_rows (get d))"

lemma key_visible: "key ` set (visible key rs) = key ` set rs"
proof (induction rs)
  case (Cons r rs)
  have "key ` set (visible key (r # rs)) = insert (key r) (key ` set (visible key rs))" by auto
  with Cons show ?case by simp
qed simp

lemma distinct_visible: "distinct (map key (visible key rs))"
proof (induction rs)
  case Nil
  then show ?case by simp
next
  case (Cons r rs)
  then have "distinct (map key (filter (\<lambda>q. key q \<noteq> key r) (visible key rs)))"
    by (rule distinct_map_filter)
  then show ?case by auto
qed

lemma visible_id: "distinct (map key rs) \<Longrightarrow> visible key rs = rs"
  by (induction rs) (auto simp: filter_id_conv image_iff)

lemma rows_map_filter_other: "k \<noteq> j \<Longrightarrow> rows_map key (filter (\<lambda>q. key q \<noteq> j) rs) k = rows_map key rs k"
  by (induction rs) (auto simp: rows_map_def)

lemma rows_map_visible: "rows_map key (visible key rs) = rows_map key rs"
proof (induction rs)
  case Nil
  then show ?case by simp
next
  case (Cons r rs)
  show ?case
  proof
    fix k
    show "rows_map key (visible key (r # rs)) k = rows_map key (r # rs) k"
      using Cons rows_map_filter_other [of k "key r" key "visible key rs"]
      by (auto simp: rows_map_def)
  qed
qed

lemma rows_map_Some: "distinct (map key rs) \<Longrightarrow> rows_map key rs k = Some r \<longleftrightarrow> r \<in> set rs \<and> key r = k"
  unfolding rows_map_def by (subst map_of_eq_Some_iff) (auto simp: o_def)

lemma rows_map_key: "rows_map key rs k = Some r \<Longrightarrow> key r = k"
  unfolding rows_map_def by (drule map_of_SomeD) auto

lemma rows_map_None: "rows_map key rs k = None \<longleftrightarrow> k \<notin> key ` set rs"
  by (auto simp: rows_map_def map_of_eq_None_iff image_iff)

lemma rows_map_matching: "distinct (map key rs) \<Longrightarrow> matching P (rows_map key rs) = set (filter P rs)"
  by (auto simp: matching_def ran_def rows_map_Some)

lemma rows_map_update:
  "(\<And>r. key (f r) = key r) \<Longrightarrow>
     rows_map key (map (\<lambda>r. if P r then f r else r) rs) = upd_rows P f (rows_map key rs)"
  by (rule ext, induction rs) (auto simp: rows_map_def upd_rows_def)

lemma rows_map_snoc: "key r \<notin> key ` set rs \<Longrightarrow> rows_map key (rs @ [r]) = (rows_map key rs)(key r \<mapsto> r)"
proof
  fix j
  assume new: "key r \<notin> key ` set rs"
  have "rows_map key (rs @ [r]) j = (case rows_map key rs j of
      None \<Rightarrow> if j = key r then Some r else None | Some q \<Rightarrow> Some q)"
    by (induction rs) (auto simp: rows_map_def)
  then show "rows_map key (rs @ [r]) j = ((rows_map key rs)(key r \<mapsto> r)) j"
    using new rows_map_None [of key rs "key r"] by (auto split: option.splits)
qed

lemma rows_map_delete: "rows_map key (filter (\<lambda>q. key q \<noteq> k) rs) = (rows_map key rs)(k := None)"
  by (rule ext, induction rs) (auto simp: rows_map_def)

lemma rows_map_replace:
  assumes f: "\<And>q. key q = k \<Longrightarrow> key (f q) = k"
  shows "rows_map key (map (\<lambda>q. if key q = k then f q else q) rs)
    = (\<lambda>j. if j = k then map_option f (rows_map key rs k) else rows_map key rs j)"
  by (rule ext, induction rs) (auto simp: rows_map_def f)

lemma length_fresh_key: "k \<in> set ks \<Longrightarrow> length k < length (fresh_key ks)"
  by (induction ks) (auto simp: fresh_key_def)

lemma fresh_key_fresh: "fresh_key ks \<notin> set ks"
  using length_fresh_key by blast

text \<open>
  The in-memory table meets the contract, for every getter and setter that fit together.
\<close>

lemma mem_callE:
  assumes "mem_call key get put f d = (res, d')"
  obtains (down) "mt_down (get d)" "res = Inl ''down''" "d' = d"
  | (up) out rs where "\<not> mt_down (get d)" "f (visible key (mt_rows (get d))) = (out, rs)"
      "res = Inr out" "d' = put ((get d)\<lparr>mt_rows := rs\<rparr>) d"
  using assms unfolding mem_call_def by (auto split: if_splits prod.splits)

lemma visible_matching: "matching P (rows_map key rs) = set (filter P (visible key rs))"
  by (metis distinct_visible rows_map_matching rows_map_visible)

lemma sorted_wrt_rev_sort_key: "sorted_wrt (\<lambda>a b. (g b :: int) \<le> g a) (rev (sort_key g xs))"
proof -
  have "sorted_wrt (\<lambda>a b. g a \<le> g b) (sort_key g xs)"
    using sorted_sort_key [of g xs] by (simp add: sorted_map)
  then show ?thesis by (simp add: sorted_wrt_rev)
qed

lemma mem_store:
  assumes gp: "\<And>t d. get (put t d) = t"
  shows "table_store (mem_api key get put) (mem_tbl key get) key"
proof -
  note defs = mem_api_def mem_tbl_def Let_def
  have dv: "distinct (visible key rs)" for rs
    using distinct_visible distinct_map by blast
  have tbl: "mem_tbl key get (put (t\<lparr>mt_rows := rs\<rparr>) d) = rows_map key rs" for t rs d
    by (simp add: mem_tbl_def gp)
  show ?thesis
  proof (unfold_locales, goal_cases)
    case (1 d k r)
    then show ?case by (simp add: mem_tbl_def rows_map_key)
  next
    case (2 P d res d')
    then show ?case
      by (auto simp: mem_api_def tbl rows_map_visible elim!: mem_callE) (simp_all add: mem_tbl_def)
  next
    case (3 P d rs d')
    then show ?case
      by (auto simp: mem_api_def mem_tbl_def visible_matching dv elim!: mem_callE)
  next
    case (4 P g n d res d')
    then show ?case
      by (auto simp: mem_api_def tbl rows_map_visible elim!: mem_callE) (simp_all add: mem_tbl_def)
  next
    case (5 P g n d rs d')
    then have rs: "rs = take n (rev (sort_key g (filter P (visible key (mt_rows (get d))))))"
      by (auto simp: mem_api_def elim!: mem_callE)
    show ?case
      by (rule exI [of _ "rev (sort_key g (filter P (visible key (mt_rows (get d)))))"])
        (auto simp: rs sorted_wrt_rev_sort_key dv mem_tbl_def visible_matching)
  next
    case (6 P f d rs d')
    then show ?case
      by (auto simp: mem_api_def tbl rows_map_update rows_map_visible elim!: mem_callE)
        (auto simp: mem_tbl_def visible_matching)
  next
    case (7 P f d e d')
    then show ?case by (auto simp: mem_api_def elim!: mem_callE)
  next
    case (8 mk d rs d')
    let ?v = "visible key (mt_rows (get d))"
    let ?k = "fresh_key (map key ?v)"
    have new: "?k \<notin> key ` set ?v" using fresh_key_fresh [of "map key ?v"] by simp
    have rs: "rs = [mk ?k]" and d': "mem_tbl key get d' = rows_map key (?v @ [mk ?k])"
      using 8(1) by (auto simp: defs gp elim!: mem_callE)
    have "mem_tbl key get d' = (mem_tbl key get d)(?k \<mapsto> mk ?k)"
      unfolding d' mem_tbl_def [of key get d]
      using new rows_map_snoc [of key "mk ?k" ?v] 8(2) by (simp add: rows_map_visible)
    moreover have "mem_tbl key get d ?k = None"
      using new by (simp add: mem_tbl_def rows_map_None key_visible)
    ultimately show ?case using rs by blast
  next
    case (9 mk d e d')
    then show ?case by (auto simp: defs elim!: mem_callE)
  next
    case (10 f r d rs d')
    let ?v = "visible key (mt_rows (get d))"
    show ?case
    proof (cases "key r \<in> key ` set ?v")
      case True
      with 10(1) have "mem_tbl key get d' = rows_map key (map (\<lambda>q. if key q = key r then f q else q) ?v)"
        by (auto simp: defs gp elim!: mem_callE)
      moreover obtain q where "rows_map key (mt_rows (get d)) (key r) = Some q"
        using True rows_map_None [of key ?v "key r"] by (auto simp: rows_map_visible)
      ultimately show ?thesis
        using 10(2) rows_map_replace [of key "key r" f ?v]
        by (auto simp: ups_row_def mem_tbl_def rows_map_visible)
    next
      case False
      with 10(1) have "mem_tbl key get d' = rows_map key (?v @ [r])"
        by (auto simp: defs gp elim!: mem_callE)
      with False rows_map_snoc [of key r ?v] rows_map_None [of key ?v "key r"] show ?thesis
        by (simp add: ups_row_def mem_tbl_def rows_map_visible)
    qed
  next
    case (11 f r d e d')
    then show ?case by (auto simp: defs elim!: mem_callE)
  next
    case (12 k d rs d')
    then show ?case
      by (auto simp: mem_api_def tbl rows_map_delete rows_map_visible elim!: mem_callE)
        (simp add: mem_tbl_def)
  next
    case (13 k d e d')
    then show ?case by (auto simp: mem_api_def elim!: mem_callE)
  qed
qed

text \<open>The plain in-memory table: the database state is the table itself.\<close>

interpretation mem: table_store "mem_api key id (\<lambda>t _. t)" "mem_tbl key id" key
  by (rule mem_store) simp

end
