(* ===== verification/Atomic_State.thy ===== *)
theory Atomic_State
  imports Table_Store
begin

text \<open>
  The per-user networking flow of app/agents/state/atomic_state.py: the flow states and their
  table of valid transitions, the frozen state record with its transition methods and its
  (de)serialisation, and \<open>AtomicStateManager\<close>, a cache over the table
  \<open>user_networking_states\<close> with a version check. The two database methods the manager calls
  (\<open>get_networking_state\<close>, \<open>upsert_networking_state\<close> of
  app/database/client/connection_requests.py) are modelled here too, over the client interface
  of \<open>Table_Store\<close>. Timestamps are instants passed in by the caller of the model.
\<close>

section \<open>Flow states\<close>

datatype flow =
    Idle | Matching | PendingInitiatorApproval | PendingTargetResponse
  | ReadyForGroup | GroupCreated | Cancelled | Failed

datatype conn_status =
    CPendingInitiatorApproval | CPendingTargetApproval | CTargetDeclined | CTargetAccepted
  | CGroupCreated | CCancelled | CExpired

fun flow_value :: "flow \<Rightarrow> string" where
  "flow_value Idle = ''idle''"
| "flow_value Matching = ''matching''"
| "flow_value PendingInitiatorApproval = ''pending_initiator_approval''"
| "flow_value PendingTargetResponse = ''pending_target_response''"
| "flow_value ReadyForGroup = ''ready_for_group''"
| "flow_value GroupCreated = ''group_created''"
| "flow_value Cancelled = ''cancelled''"
| "flow_value Failed = ''failed''"

definition all_flows :: "flow list" where
  "all_flows = [Idle, Matching, PendingInitiatorApproval, PendingTargetResponse,
     ReadyForGroup, GroupCreated, Cancelled, Failed]"

text \<open>\<open>NetworkingFlowState(value)\<close>: the member with that value, or a ValueError.\<close>

definition flow_of_value :: "string \<Rightarrow> flow option" where
  "flow_of_value v = List.find (\<lambda>f. flow_value f = v) all_flows"

fun from_connection_status :: "conn_status \<Rightarrow> flow" where
  "from_connection_status CPendingInitiatorApproval = PendingInitiatorApproval"
| "from_connection_status CPendingTargetApproval = PendingTargetResponse"
| "from_connection_status CTargetAccepted = ReadyForGroup"
| "from_connection_status CTargetDeclined = Cancelled"
| "from_connection_status CGroupCreated = GroupCreated"
| "from_connection_status CCancelled = Cancelled"
| "from_connection_status CExpired = Cancelled"

fun to_connection_status :: "flow \<Rightarrow> conn_status option" where
  "to_connection_status PendingInitiatorApproval = Some CPendingInitiatorApproval"
| "to_connection_status PendingTargetResponse = Some CPendingTargetApproval"
| "to_connection_status ReadyForGroup = Some CTargetAccepted"
| "to_connection_status GroupCreated = Some CGroupCreated"
| "to_connection_status Cancelled = Some CCancelled"
| "to_connection_status _ = None"

fun valid_next :: "flow \<Rightarrow> flow list" where
  "valid_next Idle = [Matching]"
| "valid_next Matching = [PendingInitiatorApproval, Failed, Idle]"
| "valid_next PendingInitiatorApproval = [PendingTargetResponse, Cancelled, Matching]"
| "valid_next PendingTargetResponse = [ReadyForGroup, Cancelled, Failed]"
| "valid_next ReadyForGroup = [GroupCreated, Failed]"
| "valid_next GroupCreated = [Idle]"
| "valid_next Cancelled = [Idle]"
| "valid_next Failed = [Idle]"

section \<open>The state and its transitions\<close>

record net_state =
  ns_flow :: flow
  ns_user_id :: "string option"
  ns_request_id :: "string option"
  ns_request_ids :: "string list option"
  ns_initiator_id :: "string option"
  ns_target_ids :: "string list option"
  ns_match_details :: "dict list option"
  ns_group_chat_guid :: "string option"
  ns_connection_purpose :: "string option"
  ns_error_message :: "string option"
  ns_updated_at :: int
  ns_version :: int

datatype flow_error =
    InvalidTransition flow flow
  | BadFlowValue
  | BadTimestamp
  | StoreError string

definition new_state :: "int \<Rightarrow> string option \<Rightarrow> net_state" where
  "new_state now uid = \<lparr>ns_flow = Idle, ns_user_id = uid, ns_request_id = None,
     ns_request_ids = None, ns_initiator_id = None, ns_target_ids = None,
     ns_match_details = None, ns_group_chat_guid = None, ns_connection_purpose = None,
     ns_error_message = None, ns_updated_at = now, ns_version = 0\<rparr>"

definition transition_to :: "int \<Rightarrow> flow \<Rightarrow> (net_state \<Rightarrow> net_state) \<Rightarrow> net_state \<Rightarrow> flow_error + net_state" where
  "transition_to now target updates s =
     (if target \<notin> set (valid_next (ns_flow s)) then Inl (InvalidTransition (ns_flow s) target)
      else Inr (updates (s\<lparr>ns_flow := target, ns_updated_at := now, ns_version := ns_version s + 1\<rparr>)))"

definition start_matching :: "int \<Rightarrow> string \<Rightarrow> net_state \<Rightarrow> flow_error + net_state" where
  "start_matching now uid =
     transition_to now Matching (\<lambda>s. s\<lparr>ns_user_id := Some uid, ns_initiator_id := Some uid\<rparr>)"

definition with_match :: "int \<Rightarrow> string \<Rightarrow> string \<Rightarrow> dict \<Rightarrow> string option \<Rightarrow> net_state \<Rightarrow> flow_error + net_state" where
  "with_match now rid tid details purpose =
     transition_to now PendingInitiatorApproval
       (\<lambda>s. s\<lparr>ns_request_id := Some rid, ns_target_ids := Some [tid],
              ns_match_details := Some [details], ns_connection_purpose := purpose\<rparr>)"

definition with_multi_match :: "int \<Rightarrow> string list \<Rightarrow> string list \<Rightarrow> dict list \<Rightarrow> string option
    \<Rightarrow> net_state \<Rightarrow> flow_error + net_state" where
  "with_multi_match now rids tids details purpose =
     transition_to now PendingInitiatorApproval
       (\<lambda>s. s\<lparr>ns_request_ids := Some rids, ns_target_ids := Some tids,
              ns_match_details := Some details, ns_connection_purpose := purpose\<rparr>)"

definition initiator_confirmed :: "int \<Rightarrow> net_state \<Rightarrow> flow_error + net_state" where
  "initiator_confirmed now = transition_to now PendingTargetResponse id"

definition target_accepted :: "int \<Rightarrow> net_state \<Rightarrow> flow_error + net_state" where
  "target_accepted now = transition_to now ReadyForGroup id"

definition group_created :: "int \<Rightarrow> string \<Rightarrow> net_state \<Rightarrow> flow_error + net_state" where
  "group_created now guid =
     transition_to now GroupCreated (\<lambda>s. s\<lparr>ns_group_chat_guid := Some guid\<rparr>)"

definition cancel_flow :: "int \<Rightarrow> string option \<Rightarrow> net_state \<Rightarrow> flow_error + net_state" where
  "cancel_flow now reason = transition_to now Cancelled (\<lambda>s. s\<lparr>ns_error_message := reason\<rparr>)"

definition fail_flow :: "int \<Rightarrow> string \<Rightarrow> net_state \<Rightarrow> flow_error + net_state" where
  "fail_flow now err = transition_to now Failed (\<lambda>s. s\<lparr>ns_error_message := Some err\<rparr>)"

definition reset_flow :: "int \<Rightarrow> net_state \<Rightarrow> flow_error + net_state" where
  "reset_flow now = transition_to now Idle
     (\<lambda>s. s\<lparr>ns_request_id := None, ns_request_ids := None, ns_target_ids := None,
            ns_match_details := None, ns_group_chat_guid := None,
            ns_connection_purpose := None, ns_error_message := None\<rparr>)"

definition is_terminal :: "net_state \<Rightarrow> bool" where
  "is_terminal s \<longleftrightarrow> ns_flow s \<in> {GroupCreated, Cancelled, Failed}"

definition is_active :: "net_state \<Rightarrow> bool" where
  "is_active s \<longleftrightarrow> ns_flow s \<notin> {Idle, GroupCreated, Cancelled, Failed}"

section \<open>Serialisation\<close>

definition json_strs :: "string list \<Rightarrow> json" where
  "json_strs xs = JList (map JStr xs)"

definition list_or_null :: "('a list \<Rightarrow> json) \<Rightarrow> 'a list option \<Rightarrow> json" where
  "list_or_null f x = (case x of None \<Rightarrow> JNull | Some [] \<Rightarrow> JNull | Some xs \<Rightarrow> f xs)"

definition to_dict :: "net_state \<Rightarrow> dict" where
  "to_dict s = [
     (''flow_state'', JStr (flow_value (ns_flow s))),
     (''user_id'', json_opt_str (ns_user_id s)),
     (''request_id'', json_opt_str (ns_request_id s)),
     (''request_ids'', list_or_null json_strs (ns_request_ids s)),
     (''initiator_id'', json_opt_str (ns_initiator_id s)),
     (''target_ids'', list_or_null json_strs (ns_target_ids s)),
     (''match_details'', list_or_null (\<lambda>ds. JList (map JObj ds)) (ns_match_details s)),
     (''group_chat_guid'', json_opt_str (ns_group_chat_guid s)),
     (''connection_purpose'', json_opt_str (ns_connection_purpose s)),
     (''error_message'', json_opt_str (ns_error_message s)),
     (''updated_at'', JTime (ns_updated_at s)),
     (''version'', JInt (ns_version s))]"

text \<open>\<open>tuple(data[k]) if data.get(k) else None\<close>, for a list of the expected element type\<close>

definition get_tuple :: "(json \<Rightarrow> 'a option) \<Rightarrow> dict \<Rightarrow> string \<Rightarrow> 'a list option" where
  "get_tuple f d k = (case map_of d k of
     Some (JList xs) \<Rightarrow> if xs = [] then None else Some (List.map_filter f xs)
   | _ \<Rightarrow> None)"

definition json_str :: "json \<Rightarrow> string option" where
  "json_str j = (case j of JStr s \<Rightarrow> Some s | _ \<Rightarrow> None)"

definition json_obj :: "json \<Rightarrow> dict option" where
  "json_obj j = (case j of JObj d \<Rightarrow> Some d | _ \<Rightarrow> None)"

definition get_flow :: "dict \<Rightarrow> flow option" where
  "get_flow d = (case map_of d ''flow_state'' of
     None \<Rightarrow> flow_of_value ''idle''
   | Some (JStr v) \<Rightarrow> flow_of_value v
   | Some _ \<Rightarrow> None)"

definition get_updated_at :: "int \<Rightarrow> dict \<Rightarrow> int option" where
  "get_updated_at now d = (case map_of d ''updated_at'' of
     Some (JTime t) \<Rightarrow> Some t
   | j \<Rightarrow> if json_truthy j then None else Some now)"

definition get_version :: "dict \<Rightarrow> int" where
  "get_version d = (case map_of d ''version'' of Some (JInt v) \<Rightarrow> v | _ \<Rightarrow> 0)"

definition from_dict :: "int \<Rightarrow> dict \<Rightarrow> flow_error + net_state" where
  "from_dict now d = (case get_flow d of None \<Rightarrow> Inl BadFlowValue | Some f \<Rightarrow>
     (case get_updated_at now d of None \<Rightarrow> Inl BadTimestamp | Some t \<Rightarrow>
       Inr \<lparr>ns_flow = f, ns_user_id = get_str d ''user_id'',
         ns_request_id = get_str d ''request_id'',
         ns_request_ids = get_tuple json_str d ''request_ids'',
         ns_initiator_id = get_str d ''initiator_id'',
         ns_target_ids = get_tuple json_str d ''target_ids'',
         ns_match_details = get_tuple json_obj d ''match_details'',
         ns_group_chat_guid = get_str d ''group_chat_guid'',
         ns_connection_purpose = get_str d ''connection_purpose'',
         ns_error_message = get_str d ''error_message'',
         ns_updated_at = t, ns_version = get_version d\<rparr>))"

section \<open>The stored state: the database methods\<close>

record state_row =
  sr_user :: string
  sr_data :: dict

definition get_networking_state :: "('db, state_row) table_api \<Rightarrow> string \<Rightarrow> ('db, flow_error, dict option) io" where
  "get_networking_state api uid = io_catch
     (io_bind (tb_select api (\<lambda>r. sr_user r = uid)) (\<lambda>rs.
        io_return (case rs of [] \<Rightarrow> None | r # _ \<Rightarrow> Some (sr_data r))))
     (\<lambda>_. io_return None)"

text \<open>\<open>state_data->>version\<close>: the text of the version field, compared with \<open>str(expected)\<close>\<close>

definition version_text :: "dict \<Rightarrow> string option" where
  "version_text d = (case map_of d ''version'' of
     Some (JInt v) \<Rightarrow> Some (str_int v) | Some (JStr s) \<Rightarrow> Some s | _ \<Rightarrow> None)"

definition upsert_networking_state :: "('db, state_row) table_api \<Rightarrow> string \<Rightarrow> dict \<Rightarrow> int
    \<Rightarrow> ('db, flow_error, bool) io" where
  "upsert_networking_state api uid state expected =
     (if expected > 0 then
        io_bind (io_lift StoreError (tb_update api
            (\<lambda>r. sr_user r = uid \<and> version_text (sr_data r) = Some (str_int expected))
            (\<lambda>r. r\<lparr>sr_data := state\<rparr>)))
          (\<lambda>rs. io_return (rs \<noteq> []))
      else
        io_bind (io_lift StoreError (tb_upsert api (\<lambda>r. r\<lparr>sr_data := state\<rparr>)
            \<lparr>sr_user = uid, sr_data = state\<rparr>))
          (\<lambda>_. io_return True))"

section \<open>The manager\<close>

record 'db mgr =
  mg_db :: 'db
  mg_cache :: "string \<rightharpoonup> net_state"

definition on_db :: "('db, 'e, 'a) io \<Rightarrow> ('db mgr, 'e, 'a) io" where
  "on_db m = (\<lambda>s. case m (mg_db s) of (res, d) \<Rightarrow> (res, s\<lparr>mg_db := d\<rparr>))"

definition put_cache :: "string \<Rightarrow> net_state \<Rightarrow> ('db mgr, 'e, unit) io" where
  "put_cache uid st = (\<lambda>s. (Inr (), s\<lparr>mg_cache := (mg_cache s)(uid \<mapsto> st)\<rparr>))"

definition invalidate_cache :: "string \<Rightarrow> ('db mgr, 'e, unit) io" where
  "invalidate_cache uid = (\<lambda>s. (Inr (), s\<lparr>mg_cache := (mg_cache s)(uid := None)\<rparr>))"

definition clear_cache :: "('db mgr, 'e, unit) io" where
  "clear_cache = (\<lambda>s. (Inr (), s\<lparr>mg_cache := Map.empty\<rparr>))"

text \<open>The state a stored dict stands for; an absent or empty one is a fresh idle state.\<close>

definition decode_stored :: "int \<Rightarrow> string \<Rightarrow> dict option \<Rightarrow> flow_error + net_state" where
  "decode_stored now uid stored = (case stored of
     None \<Rightarrow> Inr (new_state now (Some uid))
   | Some d \<Rightarrow> if d = [] then Inr (new_state now (Some uid)) else from_dict now d)"

definition get_state :: "('db, state_row) table_api \<Rightarrow> int \<Rightarrow> string \<Rightarrow> ('db mgr, flow_error, net_state) io" where
  "get_state api now uid = (\<lambda>s. case mg_cache s uid of
     Some st \<Rightarrow> (Inr st, s)
   | None \<Rightarrow> io_bind (on_db (get_networking_state api uid)) (\<lambda>stored.
       case decode_stored now uid stored of
         Inl e \<Rightarrow> io_raise e
       | Inr st \<Rightarrow> io_bind (put_cache uid st) (\<lambda>_. io_return st)) s)"

text \<open>
  \<open>update_state\<close>, cut at the \<open>await\<close> between the read of the current state and the write:
  another worker can change the row there.
\<close>

definition update_state_read :: "('db, state_row) table_api \<Rightarrow> int \<Rightarrow> string \<Rightarrow> ('db mgr, flow_error, net_state) io" where
  "update_state_read api now uid = io_bind (invalidate_cache uid) (\<lambda>_. get_state api now uid)"

definition update_state_write :: "('db, state_row) table_api \<Rightarrow> string \<Rightarrow> net_state \<Rightarrow> net_state
    \<Rightarrow> ('db mgr, flow_error, bool) io" where
  "update_state_write api uid current st =
     (if ns_version st \<noteq> ns_version current + 1 then io_return False
      else io_catch
        (io_bind (on_db (upsert_networking_state api uid (to_dict st) (ns_version current))) (\<lambda>_.
           io_bind (put_cache uid st) (\<lambda>_. io_return True)))
        (\<lambda>_. io_bind (invalidate_cache uid) (\<lambda>_. io_return False)))"

definition update_state :: "('db, state_row) table_api \<Rightarrow> int \<Rightarrow> string \<Rightarrow> net_state \<Rightarrow> ('db mgr, flow_error, bool) io" where
  "update_state api now uid st =
     io_bind (update_state_read api now uid) (\<lambda>current. update_state_write api uid current st)"

definition force_reset_state :: "('db, state_row) table_api \<Rightarrow> int \<Rightarrow> string \<Rightarrow> ('db mgr, flow_error, net_state) io" where
  "force_reset_state api now uid =
     io_bind (invalidate_cache uid) (\<lambda>_.
       let fresh = new_state now (Some uid) in
       io_catch
         (io_bind (on_db (tb_delete api uid)) (\<lambda>_. io_bind (put_cache uid fresh) (\<lambda>_. io_return fresh)))
         (\<lambda>_. io_return fresh))"

section \<open>Facts about transitions\<close>

lemmas flow_methods = start_matching_def with_match_def with_multi_match_def initiator_confirmed_def
  target_accepted_def group_created_def cancel_flow_def fail_flow_def reset_flow_def

lemma transition_to_Inr:
  "transition_to now f u s = Inr s' \<longleftrightarrow> f \<in> set (valid_next (ns_flow s))
     \<and> s' = u (s\<lparr>ns_flow := f, ns_updated_at := now, ns_version := ns_version s + 1\<rparr>)"
  by (auto simp: transition_to_def)

lemma terminal_iff_only_idle: "valid_next f = [Idle] \<longleftrightarrow> f \<in> {GroupCreated, Cancelled, Failed}"
  by (cases f) auto

lemma flow_of_flow_value [simp]: "flow_of_value (flow_value f) = Some f"
  by (cases f) (simp_all add: flow_of_value_def all_flows_def)

lemma map_filter_roundtrip: "(\<And>x. g (f x) = Some x) \<Longrightarrow> List.map_filter g (map f xs) = xs"
  by (induction xs) (auto simp: List.map_filter_def)

text \<open>The method calls of a flow, and the runs they make from a fresh state.\<close>

datatype flow_op =
    OpStartMatching string
  | OpWithMatch string string dict "string option"
  | OpWithMultiMatch "string list" "string list" "dict list" "string option"
  | OpInitiatorConfirmed
  | OpTargetAccepted
  | OpGroupCreated string
  | OpCancel "string option"
  | OpFail string
  | OpReset

fun apply_op :: "int \<Rightarrow> flow_op \<Rightarrow> net_state \<Rightarrow> flow_error + net_state" where
  "apply_op now (OpStartMatching uid) s = start_matching now uid s"
| "apply_op now (OpWithMatch rid tid d p) s = with_match now rid tid d p s"
| "apply_op now (OpWithMultiMatch rids tids ds p) s = with_multi_match now rids tids ds p s"
| "apply_op now OpInitiatorConfirmed s = initiator_confirmed now s"
| "apply_op now OpTargetAccepted s = target_accepted now s"
| "apply_op now (OpGroupCreated g) s = group_created now g s"
| "apply_op now (OpCancel r) s = cancel_flow now r s"
| "apply_op now (OpFail e) s = fail_flow now e s"
| "apply_op now OpReset s = reset_flow now s"

lemma apply_op_step:
  "apply_op now op s = Inr s' \<Longrightarrow>
     ns_flow s' \<in> set (valid_next (ns_flow s)) \<and> ns_version s' = ns_version s + 1"
  by (cases op) (auto simp: flow_methods transition_to_Inr)

text \<open>\<open>flow_run h s\<close>: a run of method calls reaches \<open>s\<close>, through the flow states \<open>h\<close>.\<close>

inductive flow_run :: "flow list \<Rightarrow> net_state \<Rightarrow> bool" where
  fresh: "flow_run [Idle] (new_state now uid)"
| call: "flow_run h s \<Longrightarrow> apply_op now op s = Inr s' \<Longrightarrow> flow_run (h @ [ns_flow s']) s'"

lemma flow_run_last: "flow_run h s \<Longrightarrow> h \<noteq> [] \<and> last h = ns_flow s"
  by (induction rule: flow_run.induct) (auto simp: new_state_def)

text \<open>What precedes the late states of the flow.\<close>

definition approved_prefix :: "flow list \<Rightarrow> bool" where
  "approved_prefix h \<longleftrightarrow> (case rev h of
     PendingTargetResponse # r \<Rightarrow> \<exists>q. r = PendingInitiatorApproval # q
   | ReadyForGroup # r \<Rightarrow> \<exists>q. r = PendingTargetResponse # PendingInitiatorApproval # q
   | GroupCreated # r \<Rightarrow> \<exists>q. r = ReadyForGroup # PendingTargetResponse # PendingInitiatorApproval # q
   | _ \<Rightarrow> True)"

lemma approved_prefix_step:
  assumes "approved_prefix h" and "h \<noteq> []" and "g \<in> set (valid_next (last h))"
  shows "approved_prefix (h @ [g])"
proof -
  obtain f q where h: "h = q @ [f]" using assms(2) by (metis append_butlast_last_id)
  with assms show ?thesis
    by (cases f) (auto simp: approved_prefix_def)
qed

lemma flow_run_approved: "flow_run h s \<Longrightarrow> approved_prefix h"
proof (induction rule: flow_run.induct)
  case (fresh now uid)
  show ?case by (simp add: approved_prefix_def)
next
  case (call h s now op s')
  with flow_run_last [of h s] apply_op_step [of now op s s'] show ?case
    by (auto intro: approved_prefix_step)
qed

lemma from_to_dict:
  "from_dict now (to_dict s) = Inr (s\<lparr>
     ns_request_ids := (if ns_request_ids s = Some [] then None else ns_request_ids s),
     ns_target_ids := (if ns_target_ids s = Some [] then None else ns_target_ids s),
     ns_match_details := (if ns_match_details s = Some [] then None else ns_match_details s)\<rparr>)"
proof -
  have str: "(case json_opt_str x of JStr v \<Rightarrow> Some v | _ \<Rightarrow> None) = x" for x
    by (simp add: json_opt_str_def split: option.splits)
  have strs: "(case list_or_null json_strs x of
      JList ys \<Rightarrow> if ys = [] then None else Some (List.map_filter json_str ys) | _ \<Rightarrow> None)
      = (if x = Some [] then None else x)" for x
    by (cases x rule: option.exhaust; cases "the x")
      (auto simp: list_or_null_def json_strs_def json_str_def map_filter_roundtrip
        simp flip: list.map(2))
  have objs: "(case list_or_null (\<lambda>ds. JList (map JObj ds)) x of
      JList ys \<Rightarrow> if ys = [] then None else Some (List.map_filter json_obj ys) | _ \<Rightarrow> None)
      = (if x = Some [] then None else x)" for x
    by (cases x rule: option.exhaust; cases "the x")
      (auto simp: list_or_null_def json_obj_def map_filter_roundtrip simp flip: list.map(2))
  show ?thesis
    by (cases s) (simp add: from_dict_def to_dict_def get_flow_def get_updated_at_def get_version_def
        get_str_def get_tuple_def str strs objs)
qed

section \<open>Facts about the stored state\<close>

lemma on_db_eq: "on_db m s = (fst (m (mg_db s)), s\<lparr>mg_db := snd (m (mg_db s))\<rparr>)"
  by (simp add: on_db_def split: prod.splits)

lemma on_db_iff: "on_db m s = (res, s') \<longleftrightarrow> (\<exists>d. m (mg_db s) = (res, d) \<and> s' = s\<lparr>mg_db := d\<rparr>)"
  by (auto simp: on_db_def split: prod.splits)

lemma keeps_on_db [keeps_rules]: "keeps f m \<Longrightarrow> keeps (\<lambda>s. f (mg_db s)) (on_db m)"
  by (auto simp: keeps_def on_db_def split: prod.splits)

lemma keeps_cache_ops [keeps_rules]:
  "keeps (\<lambda>s. f (mg_db s)) (put_cache uid st)" "keeps (\<lambda>s. f (mg_db s)) (invalidate_cache uid)"
  by (simp_all add: keeps_def put_cache_def invalidate_cache_def)

text \<open>An observation that the state table's client leaves alone is left alone by the manager.\<close>

lemma keeps_get_state:
  assumes "\<And>P. keeps f (tb_select api P)"
  shows "keeps (\<lambda>s. f (mg_db s)) (get_state api now uid)"
proof -
  have "keeps f (get_networking_state api uid)"
    unfolding get_networking_state_def by (intro keeps_rules assms)
  then have "keeps (\<lambda>s. f (mg_db s)) (io_bind (on_db (get_networking_state api uid)) (\<lambda>stored.
       case decode_stored now uid stored of Inl e \<Rightarrow> io_raise e
       | Inr st \<Rightarrow> io_bind (put_cache uid st) (\<lambda>_. io_return st)))"
    by (auto intro!: keeps_rules split: sum.splits)
  then show ?thesis
    unfolding get_state_def keeps_def by (auto split: option.splits)
qed

lemma keeps_update_state:
  assumes "\<And>P. keeps f (tb_select api P)" "\<And>P g. keeps f (tb_update api P g)" "\<And>g r. keeps f (tb_upsert api g r)"
  shows "keeps (\<lambda>s. f (mg_db s)) (update_state api now uid st)"
proof -
  have "keeps f (upsert_networking_state api u d v)" for u d v
    unfolding upsert_networking_state_def by (intro keeps_rules assms)
  then show ?thesis
    unfolding update_state_def update_state_read_def update_state_write_def
    by (intro keeps_rules keeps_get_state assms)
qed

lemma version_text_positive: "get_version d > 0 \<Longrightarrow> version_text d = Some (str_int (get_version d))"
  by (auto simp: get_version_def version_text_def split: option.splits json.splits)

lemma decode_version: "decode_stored now uid stored = Inr st \<Longrightarrow>
    ns_version st = (case stored of None \<Rightarrow> 0 | Some d \<Rightarrow> get_version d)"
  by (auto simp: decode_stored_def new_state_def from_dict_def get_version_def
      split: option.splits if_splits)

locale state_store = table_store api tbl sr_user
  for api :: "('db, state_row) table_api" and tbl :: "'db \<Rightarrow> string \<rightharpoonup> state_row"
begin

lemma get_networking_state_cases:
  obtains (read) d' where "get_networking_state api uid d = (Inr (map_option sr_data (tbl d uid)), d')"
      "tbl d' = tbl d"
  | (failed) e d' where "tb_select api (\<lambda>r. sr_user r = uid) d = (Inl e, d')"
      "get_networking_state api uid d = (Inr None, d')" "tbl d' = tbl d"
proof (cases "tb_select api (\<lambda>r. sr_user r = uid) d")
  case (Pair res d')
  have frame: "tbl d' = tbl d" using Pair by (rule select_frame)
  show thesis
  proof (cases res)
    case (Inl e)
    with Pair have "get_networking_state api uid d = (Inr None, d')"
      by (simp add: get_networking_state_def io_bind_def io_catch_def)
    with Pair Inl frame show thesis using failed by simp
  next
    case (Inr rs)
    with Pair have "rs = (case tbl d uid of None \<Rightarrow> [] | Some r \<Rightarrow> [r])"
      by (simp add: select_key)
    with Pair Inr have "get_networking_state api uid d = (Inr (map_option sr_data (tbl d uid)), d')"
      by (simp add: get_networking_state_def io_bind_def io_catch_def split: option.splits)
    with frame show thesis using read by simp
  qed
qed

lemma get_networking_state_ok:
  assumes "tb_select api (\<lambda>r. sr_user r = uid) d = (Inr rs, d')"
  shows "get_networking_state api uid d = (Inr (map_option sr_data (tbl d uid)), d')" "tbl d' = tbl d"
  using get_networking_state_cases [of uid d] assms select_frame [OF assms]
  by (auto simp: get_networking_state_def io_bind_def io_catch_def select_key split: option.splits)

text \<open>The write: conditional on the version, except for version 0.\<close>

lemma upsert_conditional:
  assumes "expected > 0" and "upsert_networking_state api uid state expected d = (Inr b, d')"
  shows "(\<exists>r. tbl d uid = Some r \<and> version_text (sr_data r) = Some (str_int expected))
      \<and> b \<and> tbl d' = (tbl d)(uid \<mapsto> \<lparr>sr_user = uid, sr_data = state\<rparr>)
    \<or> (\<forall>r. tbl d uid = Some r \<longrightarrow> version_text (sr_data r) \<noteq> Some (str_int expected))
      \<and> \<not> b \<and> tbl d' = tbl d"
proof -
  obtain rs where upd: "tb_update api
      (\<lambda>r. sr_user r = uid \<and> version_text (sr_data r) = Some (str_int expected))
      (\<lambda>r. r\<lparr>sr_data := state\<rparr>) d = (Inr rs, d')" and b: "b \<longleftrightarrow> rs \<noteq> []"
    using assms by (auto simp: upsert_networking_state_def io_bind_eq_Inr)
  have row: "r\<lparr>sr_data := state\<rparr> = \<lparr>sr_user = uid, sr_data = state\<rparr>" if "tbl d uid = Some r" for r
    using keyed [OF that] by (cases r) simp
  show ?thesis
    using update_key_ok [OF upd] b row by (auto split: option.splits if_splits)
qed

lemma upsert_unconditional:
  assumes "\<not> expected > 0" and "upsert_networking_state api uid state expected d = (Inr b, d')"
  shows "b \<and> tbl d' = (tbl d)(uid \<mapsto> \<lparr>sr_user = uid, sr_data = state\<rparr>)"
proof -
  obtain rs where ups: "tb_upsert api (\<lambda>r. r\<lparr>sr_data := state\<rparr>) \<lparr>sr_user = uid, sr_data = state\<rparr> d
      = (Inr rs, d')" and b: b
    using assms by (auto simp: upsert_networking_state_def io_bind_eq_Inr)
  have "tbl d' = ups_row sr_user (\<lambda>r. r\<lparr>sr_data := state\<rparr>) \<lparr>sr_user = uid, sr_data = state\<rparr> (tbl d)"
    by (rule upsert_ok [OF ups]) simp
  moreover have "r\<lparr>sr_data := state\<rparr> = \<lparr>sr_user = uid, sr_data = state\<rparr>" if "tbl d uid = Some r" for r
    using keyed [OF that] by (cases r) simp
  ultimately show ?thesis using b by (auto simp: ups_row_def split: option.splits)
qed

text \<open>The read half of an update, from a cleared cache.\<close>

lemma update_state_read_Inr:
  assumes "update_state_read api now uid m = (Inr cur, m')"
  shows "tbl (mg_db m') = tbl (mg_db m)"
    and "ns_version cur = 0 \<or> (\<exists>r. tbl (mg_db m) uid = Some r \<and> ns_version cur = get_version (sr_data r))"
proof -
  obtain stored d' where get: "get_networking_state api uid (mg_db m) = (Inr stored, d')"
    and dec: "decode_stored now uid stored = Inr cur" and m': "mg_db m' = d'"
    using assms
    by (auto simp: update_state_read_def invalidate_cache_def get_state_def io_bind_def put_cache_def
        on_db_def io_raise_def split: prod.splits sum.splits)
  show "tbl (mg_db m') = tbl (mg_db m)"
    using get m' by (cases rule: get_networking_state_cases [of uid "mg_db m"]) auto
  show "ns_version cur = 0 \<or> (\<exists>r. tbl (mg_db m) uid = Some r \<and> ns_version cur = get_version (sr_data r))"
    using get decode_version [OF dec]
    by (cases rule: get_networking_state_cases [of uid "mg_db m"]) (auto split: option.splits)
qed

lemma update_state_write_True:
  assumes "update_state_write api uid cur st m = (Inr True, m')"
  obtains b d' where "ns_version st = ns_version cur + 1"
    "upsert_networking_state api uid (to_dict st) (ns_version cur) (mg_db m) = (Inr b, d')"
    "m' = m\<lparr>mg_db := d', mg_cache := (mg_cache m)(uid \<mapsto> st)\<rparr>"
  using assms
  by (auto simp: update_state_write_def io_catch_def io_bind_def on_db_def put_cache_def
      invalidate_cache_def split: if_splits prod.splits sum.splits)

lemma update_state_durable:
  assumes "update_state api now uid st m = (Inr True, m')"
  shows "tbl (mg_db m') = (tbl (mg_db m))(uid \<mapsto> \<lparr>sr_user = uid, sr_data = to_dict st\<rparr>)
    \<and> mg_cache m' uid = Some st"
proof -
  obtain cur m1 where rd: "update_state_read api now uid m = (Inr cur, m1)"
    and wr: "update_state_write api uid cur st m1 = (Inr True, m')"
    using assms by (auto simp: update_state_def io_bind_eq_Inr)
  note r = update_state_read_Inr [OF rd]
  from wr obtain b d' where up: "upsert_networking_state api uid (to_dict st) (ns_version cur) (mg_db m1)
      = (Inr b, d')" and m': "m' = m1\<lparr>mg_db := d', mg_cache := (mg_cache m1)(uid \<mapsto> st)\<rparr>"
    by (rule update_state_write_True)
  have "tbl d' = (tbl (mg_db m1))(uid \<mapsto> \<lparr>sr_user = uid, sr_data = to_dict st\<rparr>)"
  proof (cases "ns_version cur > 0")
    case True
    with r obtain q where "tbl (mg_db m1) uid = Some q" "ns_version cur = get_version (sr_data q)"
      by auto
    with upsert_conditional [OF True up] version_text_positive [of "sr_data q"] True show ?thesis
      by auto
  next
    case False
    with upsert_unconditional [OF False up] show ?thesis by simp
  qed
  with r(1) m' show ?thesis by simp
qed

lemma update_state_stale:
  assumes sel: "tb_select api (\<lambda>r. sr_user r = uid) (mg_db m) = (Inr rs, d1)"
    and row: "tbl (mg_db m) uid = Some r" and dec: "decode_stored now uid (Some (sr_data r)) = Inr cur"
    and ver: "ns_version st \<noteq> ns_version cur + 1"
  shows "\<exists>m'. update_state api now uid st m = (Inr False, m') \<and> tbl (mg_db m') = tbl (mg_db m)
    \<and> mg_cache m' uid = Some cur"
  using get_networking_state_ok [OF sel] row dec ver
  by (simp add: update_state_def update_state_read_def invalidate_cache_def get_state_def io_bind_def
      on_db_def put_cache_def update_state_write_def)

lemma update_state_read_frame:
  "update_state_read api now uid m = (res, m') \<Longrightarrow> tbl (mg_db m') = tbl (mg_db m)"
proof -
  have "keeps tbl (tb_select api P)" for P using select_frame by (auto simp: keeps_def)
  then have "keeps (\<lambda>s. tbl (mg_db s)) (update_state_read api now uid)"
    unfolding update_state_read_def by (intro keeps_rules keeps_get_state)
  then show "update_state_read api now uid m = (res, m') \<Longrightarrow> ?thesis" by (rule keepsD)
qed

text \<open>An update of a version that fits no possible current one never reaches the table.\<close>

lemma update_state_misfit:
  assumes run: "update_state api now uid st m = (res, m')" and "ns_version st \<noteq> 1"
    and "\<And>r. tbl (mg_db m) uid = Some r \<Longrightarrow> ns_version st \<noteq> get_version (sr_data r) + 1"
  shows "tbl (mg_db m') = tbl (mg_db m) \<and> res \<noteq> Inr True"
proof -
  obtain r1 m1 where rd: "update_state_read api now uid m = (r1, m1)" by fastforce
  note frame = update_state_read_frame [OF rd]
  show ?thesis
  proof (cases r1)
    case (Inl e)
    with run rd frame show ?thesis by (auto simp: update_state_def io_bind_def)
  next
    case (Inr cur)
    have "ns_version st \<noteq> ns_version cur + 1"
      using update_state_read_Inr(2) [OF rd [unfolded Inr]] assms(2,3) by auto
    with run rd Inr frame show ?thesis
      by (auto simp: update_state_def io_bind_def update_state_write_def)
  qed
qed

lemma update_state_lost:
  assumes pos: "ns_version cur > 0" and ver: "ns_version st = ns_version cur + 1"
    and moved: "\<forall>r. tbl (mg_db m) uid = Some r \<longrightarrow> version_text (sr_data r) \<noteq> Some (str_int (ns_version cur))"
    and up: "upsert_networking_state api uid (to_dict st) (ns_version cur) (mg_db m) = (Inr b, d')"
  shows "\<exists>m'. update_state_write api uid cur st m = (Inr True, m') \<and> \<not> b
    \<and> tbl (mg_db m') = tbl (mg_db m) \<and> mg_cache m' uid = Some st"
proof -
  have "\<not> b \<and> tbl d' = tbl (mg_db m)" using upsert_conditional [OF pos up] moved by auto
  with ver up show ?thesis
    by (simp add: update_state_write_def io_catch_def io_bind_def on_db_def put_cache_def)
qed

lemma update_state_after_failed_read:
  assumes sel: "tb_select api (\<lambda>r. sr_user r = uid) (mg_db m) = (Inl e, d1)"
    and ver: "ns_version st = 1"
    and up: "upsert_networking_state api uid (to_dict st) 0 d1 = (Inr b, d2)"
  shows "\<exists>m'. update_state api now uid st m = (Inr True, m')
    \<and> tbl (mg_db m') = (tbl (mg_db m))(uid \<mapsto> \<lparr>sr_user = uid, sr_data = to_dict st\<rparr>)"
proof -
  have "get_networking_state api uid (mg_db m) = (Inr None, d1)"
    using sel by (simp add: get_networking_state_def io_bind_def io_catch_def)
  moreover have "tbl d2 = (tbl d1)(uid \<mapsto> \<lparr>sr_user = uid, sr_data = to_dict st\<rparr>)"
    using upsert_unconditional [OF _ up] by simp
  moreover have "tbl d1 = tbl (mg_db m)" using sel by (rule select_frame)
  ultimately show ?thesis using ver up
    by (simp add: update_state_def update_state_read_def invalidate_cache_def get_state_def io_bind_def
        on_db_def put_cache_def update_state_write_def decode_stored_def new_state_def io_catch_def)
qed

end

section \<open>The in-memory table as a provider\<close>

abbreviation mem_states :: "(state_row mem_table, state_row) table_api" where
  "mem_states \<equiv> mem_api sr_user id (\<lambda>t _. t)"

abbreviation mem_state_tbl :: "state_row mem_table \<Rightarrow> string \<rightharpoonup> state_row" where
  "mem_state_tbl \<equiv> mem_tbl sr_user id"

interpretation mstates: state_store mem_states mem_state_tbl
  by (intro state_store.intro mem.table_store_axioms)

text \<open>A table whose reads time out while its writes go through.\<close>

definition mem_states_no_read :: "(state_row mem_table, state_row) table_api" where
  "mem_states_no_read = mem_states\<lparr>tb_select := (\<lambda>P d. (Inl ''timeout'', d))\<rparr>"

interpretation nrstates: state_store mem_states_no_read mem_state_tbl
proof (intro state_store.intro table_store.intro, goal_cases)
  case (1 d k r)
  then show ?case by (rule mem.keyed)
next
  case (4 P g n d res d')
  then show ?case by (auto simp: mem_states_no_read_def intro: mem.select_top_frame)
next
  case (5 P g n d rs d')
  then show ?case by (auto simp: mem_states_no_read_def intro: mem.select_top_ok)
next
  case (6 P f d rs d')
  then show ?case by (intro mem.update_ok) (auto simp: mem_states_no_read_def)
next
  case (7 P f d e d')
  then show ?case by (intro mem.update_err) (auto simp: mem_states_no_read_def)
next
  case (8 mk d rs d')
  then show ?case by (intro mem.insert_ok) (auto simp: mem_states_no_read_def)
next
  case (9 mk d e d')
  then show ?case by (intro mem.insert_err) (auto simp: mem_states_no_read_def)
next
  case (10 f r d rs d')
  then show ?case by (intro mem.upsert_ok) (auto simp: mem_states_no_read_def)
next
  case (11 f r d e d')
  then show ?case by (intro mem.upsert_err) (auto simp: mem_states_no_read_def)
next
  case (12 k d rs d')
  then show ?case by (intro mem.delete_ok) (auto simp: mem_states_no_read_def)
next
  case (13 k d e d')
  then show ?case by (intro mem.delete_err) (auto simp: mem_states_no_read_def)
qed (auto simp: mem_states_no_read_def)

lemmas mem_eval = mem_api_def mem_call_def mem_tbl_def rows_map_def Let_def

section \<open>Properties\<close>

text \<open>C15: A flow state never loses information by a trip through the database: decoding what
  \<open>to_dict\<close> wrote gives the same state back, except that an empty tuple of ids or match
  details comes back as None.\<close>

theorem from_dict_to_dict:
  "from_dict now (to_dict s) = Inr (s\<lparr>
     ns_request_ids := (if ns_request_ids s = Some [] then None else ns_request_ids s),
     ns_target_ids := (if ns_target_ids s = Some [] then None else ns_target_ids s),
     ns_match_details := (if ns_match_details s = Some [] then None else ns_match_details s)\<rparr>)"
  by (rule from_to_dict)

text \<open>C10: No group without both approvals: a run of flow methods from a fresh state that ends
  in GROUP_CREATED went through PENDING_INITIATOR_APPROVAL, PENDING_TARGET_RESPONSE and
  READY_FOR_GROUP immediately before, in this order.\<close>

theorem group_needs_both_approvals:
  assumes "flow_run h s" and "ns_flow s = GroupCreated"
  shows "\<exists>q. h = q @ [PendingInitiatorApproval, PendingTargetResponse, ReadyForGroup, GroupCreated]"
proof -
  from flow_run_last [OF assms(1)] assms(2) obtain p where h: "h = p @ [GroupCreated]"
    by (metis append_butlast_last_id)
  with flow_run_approved [OF assms(1)] obtain q
    where "rev p = ReadyForGroup # PendingTargetResponse # PendingInitiatorApproval # q"
    by (auto simp: approved_prefix_def)
  then have "p = rev q @ [PendingInitiatorApproval, PendingTargetResponse, ReadyForGroup]"
    by (metis append_Cons append_Nil append_assoc rev.simps(2) rev_rev_ident)
  with h show ?thesis by simp
qed

text \<open>A complete flow: match, confirm, accept, create the group.\<close>

definition done_state :: net_state where
  "done_state = \<lparr>ns_flow = GroupCreated, ns_user_id = Some ''u'', ns_request_id = Some ''r'',
     ns_request_ids = None, ns_initiator_id = Some ''u'', ns_target_ids = Some [''t''],
     ns_match_details = Some [[]], ns_group_chat_guid = Some ''chat1'',
     ns_connection_purpose = None, ns_error_message = None, ns_updated_at = 0, ns_version = 5\<rparr>"

lemma done_state_run: "flow_run [Idle, Matching, PendingInitiatorApproval, PendingTargetResponse,
    ReadyForGroup, GroupCreated] done_state"
proof -
  define s0 where "s0 = new_state 0 None"
  obtain s1 where s1: "apply_op 0 (OpStartMatching ''u'') s0 = Inr s1" and f1: "ns_flow s1 = Matching"
    by (auto simp: s0_def new_state_def flow_methods transition_to_def)
  obtain s2 where s2: "apply_op 0 (OpWithMatch ''r'' ''t'' [] None) s1 = Inr s2"
    and f2: "ns_flow s2 = PendingInitiatorApproval"
    using f1 by (auto simp: flow_methods transition_to_def)
  obtain s3 where s3: "apply_op 0 OpInitiatorConfirmed s2 = Inr s3" and f3: "ns_flow s3 = PendingTargetResponse"
    using f2 by (auto simp: flow_methods transition_to_def)
  obtain s4 where s4: "apply_op 0 OpTargetAccepted s3 = Inr s4" and f4: "ns_flow s4 = ReadyForGroup"
    using f3 by (auto simp: flow_methods transition_to_def)
  have s5: "apply_op 0 (OpGroupCreated ''chat1'') s4 = Inr done_state"
    using s1 s2 s3 s4 f1 f2 f3 f4
    by (auto simp: flow_methods transition_to_def done_state_def s0_def new_state_def)
  have "flow_run [Idle] s0" unfolding s0_def by (rule fresh)
  from call [OF call [OF call [OF call [OF call [OF this s1] s2] s3] s4] s5] show ?thesis
    by (simp add: f1 f2 f3 f4 done_state_def)
qed

theorem group_needs_both_approvals_witness:
  "\<exists>q. [Idle, Matching, PendingInitiatorApproval, PendingTargetResponse, ReadyForGroup, GroupCreated]
     = q @ [PendingInitiatorApproval, PendingTargetResponse, ReadyForGroup, GroupCreated]"
  by (rule group_needs_both_approvals [OF done_state_run]) (simp add: done_state_def)

text \<open>An update that runs undisturbed and returns True is durable: the row of the user
  holds the new state, no other row changed, and the cache agrees with the row.\<close>

theorem update_state_true_is_durable:
  assumes "state_store api tbl" and "update_state api now uid st m = (Inr True, m')"
  shows "tbl (mg_db m') = (tbl (mg_db m))(uid \<mapsto> \<lparr>sr_user = uid, sr_data = to_dict st\<rparr>)
    \<and> mg_cache m' uid = Some st"
  using assms by (rule state_store.update_state_durable)

definition sample_mgr :: "dict \<Rightarrow> state_row mem_table mgr" where
  "sample_mgr d = \<lparr>mg_db = \<lparr>mt_rows = [\<lparr>sr_user = ''u'', sr_data = d\<rparr>], mt_down = False\<rparr>,
     mg_cache = Map.empty\<rparr>"

definition idle_v :: "int \<Rightarrow> net_state" where
  "idle_v v = (new_state 0 (Some ''u''))\<lparr>ns_version := v\<rparr>"

lemmas mgr_eval = update_state_def update_state_read_def update_state_write_def invalidate_cache_def
  get_state_def get_networking_state_def upsert_networking_state_def on_db_def put_cache_def
  io_bind_def io_catch_def io_lift_def io_raise_def sample_mgr_def idle_v_def new_state_def

lemma idle_v_update:
  "update_state mem_states 7 ''u'' (idle_v 4) (sample_mgr (to_dict (idle_v 3))) = (Inr True,
     (sample_mgr (to_dict (idle_v 4)))\<lparr>mg_cache := [''u'' \<mapsto> idle_v 4]\<rparr>)"
proof -
  have "decode_stored 7 ''u'' (Some (to_dict (idle_v 3))) = Inr (idle_v 3)"
    using from_to_dict [of 7 "idle_v 3"]
    by (simp add: decode_stored_def idle_v_def new_state_def) (simp add: to_dict_def)
  moreover have "version_text (to_dict (idle_v 3)) = Some (str_int 3)"
    by (simp add: version_text_def to_dict_def idle_v_def)
  ultimately show ?thesis
    by (simp add: mgr_eval mem_eval)
qed

theorem update_state_true_is_durable_witness:
  "mem_state_tbl (mg_db (snd (update_state mem_states 7 ''u'' (idle_v 4)
     (sample_mgr (to_dict (idle_v 3)))))) ''u'' = Some \<lparr>sr_user = ''u'', sr_data = to_dict (idle_v 4)\<rparr>"
  using update_state_true_is_durable [OF mstates.state_store_axioms idle_v_update]
  by (simp add: idle_v_update)

text \<open>An update computed from a stale state is refused: if the stored state can be read and
  the new state's version is not one more than its version, \<open>update_state\<close> returns False,
  leaves the table as it is and caches what it read.\<close>

theorem update_state_rejects_stale:
  assumes "state_store api tbl"
    and "tb_select api (\<lambda>r. sr_user r = uid) (mg_db m) = (Inr rs, d1)"
    and "tbl (mg_db m) uid = Some r" and "decode_stored now uid (Some (sr_data r)) = Inr cur"
    and "ns_version st \<noteq> ns_version cur + 1"
  shows "\<exists>m'. update_state api now uid st m = (Inr False, m') \<and> tbl (mg_db m') = tbl (mg_db m)
    \<and> mg_cache m' uid = Some cur"
  using assms by (rule state_store.update_state_stale)

theorem update_state_rejects_stale_witness:
  "\<exists>m'. update_state mem_states 7 ''u'' (idle_v 9) (sample_mgr (to_dict (idle_v 3))) = (Inr False, m')
    \<and> mem_state_tbl (mg_db m') = mem_state_tbl (mg_db (sample_mgr (to_dict (idle_v 3))))
    \<and> mg_cache m' ''u'' = Some (idle_v 3)"
proof (rule update_state_rejects_stale [OF mstates.state_store_axioms])
  show "tb_select mem_states (\<lambda>r. sr_user r = ''u'') (mg_db (sample_mgr (to_dict (idle_v 3))))
    = (Inr [\<lparr>sr_user = ''u'', sr_data = to_dict (idle_v 3)\<rparr>], mg_db (sample_mgr (to_dict (idle_v 3))))"
    by (simp add: sample_mgr_def mem_eval)
  show "mem_state_tbl (mg_db (sample_mgr (to_dict (idle_v 3)))) ''u''
    = Some \<lparr>sr_user = ''u'', sr_data = to_dict (idle_v 3)\<rparr>"
    by (simp add: sample_mgr_def mem_eval)
  show "decode_stored 7 ''u'' (Some (sr_data \<lparr>sr_user = ''u'', sr_data = to_dict (idle_v 3)\<rparr>)) = Inr (idle_v 3)"
    using from_to_dict [of 7 "idle_v 3"]
    by (simp add: decode_stored_def idle_v_def new_state_def) (simp add: to_dict_def)
  show "ns_version (idle_v 9) \<noteq> ns_version (idle_v 3) + 1" by (simp add: idle_v_def)
qed

text \<open>The optimistic lock does not hold across the await: if the row moves to another
  version between the read and the write of \<open>update_state\<close>, the conditional SQL update matches
  nothing and \<open>upsert_networking_state\<close> reports False, but \<open>update_state\<close> ignores that answer:
  it returns True and caches the state that was never stored.\<close>

theorem update_state_reports_lost_write:
  assumes "state_store api tbl"
    and "ns_version cur > 0" and "ns_version st = ns_version cur + 1"
    and "\<forall>r. tbl (mg_db m) uid = Some r \<longrightarrow> version_text (sr_data r) \<noteq> Some (str_int (ns_version cur))"
    and "upsert_networking_state api uid (to_dict st) (ns_version cur) (mg_db m) = (Inr b, d')"
  shows "\<exists>m'. update_state_write api uid cur st m = (Inr True, m') \<and> \<not> b
    \<and> tbl (mg_db m') = tbl (mg_db m) \<and> mg_cache m' uid = Some st"
  using assms by (rule state_store.update_state_lost)

theorem update_state_reports_lost_write_witness:
  "\<exists>m'. update_state_write mem_states ''u'' (idle_v 3) (idle_v 4) (sample_mgr (to_dict (idle_v 5))) = (Inr True, m')
    \<and> \<not> False \<and> mem_state_tbl (mg_db m') = mem_state_tbl (mg_db (sample_mgr (to_dict (idle_v 5))))
    \<and> mg_cache m' ''u'' = Some (idle_v 4)"
proof (rule update_state_reports_lost_write [OF mstates.state_store_axioms])
  have v: "version_text (to_dict (idle_v 5)) = Some (str_int 5)"
    by (simp add: version_text_def to_dict_def idle_v_def)
  show "0 < ns_version (idle_v 3)" and "ns_version (idle_v 4) = ns_version (idle_v 3) + 1"
    by (simp_all add: idle_v_def)
  show "\<forall>r. mem_state_tbl (mg_db (sample_mgr (to_dict (idle_v 5)))) ''u'' = Some r \<longrightarrow>
      version_text (sr_data r) \<noteq> Some (str_int (ns_version (idle_v 3)))"
    using v by (simp add: sample_mgr_def mem_eval) (simp add: idle_v_def)
  show "upsert_networking_state mem_states ''u'' (to_dict (idle_v 4)) (ns_version (idle_v 3))
      (mg_db (sample_mgr (to_dict (idle_v 5)))) = (Inr False, mg_db (sample_mgr (to_dict (idle_v 5))))"
    using v by (simp add: upsert_networking_state_def io_bind_def io_lift_def io_catch_def
        sample_mgr_def mem_eval) (simp add: idle_v_def)
qed

text \<open>A failed read erases the lock: \<open>get_networking_state\<close> answers a database error like
  an absent row, so \<open>update_state\<close> takes the current version to be 0 and overwrites the stored
  state, whatever its version, with any state of version 1.\<close>

theorem update_state_overwrites_after_failed_read:
  assumes "state_store api tbl"
    and "tb_select api (\<lambda>r. sr_user r = uid) (mg_db m) = (Inl e, d1)"
    and "ns_version st = 1"
    and "upsert_networking_state api uid (to_dict st) 0 d1 = (Inr b, d2)"
  shows "\<exists>m'. update_state api now uid st m = (Inr True, m')
    \<and> tbl (mg_db m') = (tbl (mg_db m))(uid \<mapsto> \<lparr>sr_user = uid, sr_data = to_dict st\<rparr>)"
  using assms by (rule state_store.update_state_after_failed_read)

theorem update_state_overwrites_after_failed_read_witness:
  "\<exists>m'. update_state mem_states_no_read 7 ''u'' (idle_v 1) (sample_mgr (to_dict (idle_v 5))) = (Inr True, m')
    \<and> mem_state_tbl (mg_db m') = (mem_state_tbl (mg_db (sample_mgr (to_dict (idle_v 5)))))(''u'' \<mapsto>
       \<lparr>sr_user = ''u'', sr_data = to_dict (idle_v 1)\<rparr>)"
proof (rule update_state_overwrites_after_failed_read [OF nrstates.state_store_axioms])
  show "tb_select mem_states_no_read (\<lambda>r. sr_user r = ''u'') (mg_db (sample_mgr (to_dict (idle_v 5))))
      = (Inl ''timeout'', mg_db (sample_mgr (to_dict (idle_v 5))))"
    by (simp add: mem_states_no_read_def)
  show "ns_version (idle_v 1) = 1" by (simp add: idle_v_def)
  show "upsert_networking_state mem_states_no_read ''u'' (to_dict (idle_v 1)) 0
      (mg_db (sample_mgr (to_dict (idle_v 5)))) = (Inr True, mg_db (sample_mgr (to_dict (idle_v 1))))"
    by (simp add: upsert_networking_state_def mem_states_no_read_def io_bind_def io_lift_def
        io_catch_def sample_mgr_def mem_eval)
qed

end
