(* ===== verification/Connection_Requests.thy ===== *)
theory Connection_Requests
  imports Atomic_State "HOL-Library.List_Lexorder"
begin

text \<open>
  The connection requests of app/database/client/connection_requests.py: the request row, the
  table of valid status transitions, the status update with its optimistic lock, the pending
  queries, the exclusion list, the connection lookups and the multi-match readiness check,
  whose SQL body is in migrations/connection_requests_multi_match.sql. The table is reached
  through the client interface of \<open>Table_Store\<close>. Instants are microseconds.
\<close>

section \<open>Statuses and rows\<close>

fun valid_status_next :: "conn_status \<Rightarrow> conn_status list" where
  "valid_status_next CPendingInitiatorApproval = [CPendingTargetApproval, CCancelled]"
| "valid_status_next CPendingTargetApproval = [CTargetAccepted, CTargetDeclined, CCancelled]"
| "valid_status_next CTargetAccepted = [CGroupCreated, CCancelled]"
| "valid_status_next CGroupCreated = []"
| "valid_status_next CTargetDeclined = []"
| "valid_status_next CCancelled = []"
| "valid_status_next CExpired = []"

record conn_req =
  cr_id :: string
  cr_initiator :: string
  cr_target :: string
  cr_match_score :: "int option" \<comment> \<open>carried, never computed with\<close>
  cr_reasons :: "string list"
  cr_introduction :: "string option"
  cr_concern :: "string option"
  cr_status :: conn_status
  cr_excluded :: "string list"
  cr_expires_at :: int
  cr_created_at :: int
  cr_updated_at :: int
  cr_purpose :: "string option"
  cr_signal_group :: "string option"
  cr_is_multi :: bool
  cr_threshold :: int
  cr_group_chat_guid :: "string option"
  cr_multi_chat_guid :: "string option"
  cr_target_notified_at :: "int option"
  cr_target_responded_at :: "int option"
  cr_group_created_at :: "int option"
  cr_decline_reason :: "string option"

datatype conn_error =
    BadRequestId string
  | BadStatusTransition conn_status conn_status
  | StatusConflict string conn_status
  | RequestNotFound string
  | EmptyResult
  | ApiFailure string
  | MissingSignalGroup
  | NotEnoughParticipants
  | TargetUserNotFound string
  | GroupServiceError string

text \<open>
  \<open>uuid.UUID(text)\<close>: after removing \<open>urn:\<close>, \<open>uuid:\<close>, surrounding braces and hyphens there are 32
  hexadecimal digits.
\<close>

fun remove_all :: "nat \<Rightarrow> string \<Rightarrow> string \<Rightarrow> string" where
  "remove_all 0 sub s = s"
| "remove_all (Suc n) sub [] = []"
| "remove_all (Suc n) sub (c # s) =
     (if sub \<noteq> [] \<and> starts_with sub (c # s) then remove_all n sub (drop (length sub) (c # s))
      else c # remove_all n sub s)"

definition is_hex :: "char \<Rightarrow> bool" where
  "is_hex c = (is_digit c \<or> c \<in> set ''abcdefABCDEF'')"

definition valid_uuid :: "string \<Rightarrow> bool" where
  "valid_uuid s = (let t = remove_all (length s) ''uuid:'' (remove_all (length s) ''urn:'' s);
      u = filter (\<lambda>c. c \<noteq> CHR ''-'') (strip_by (\<lambda>c. c \<in> set ''{}'') t)
    in length u = 32 \<and> list_all is_hex u)"

section \<open>Creating and updating requests\<close>

definition three_days :: int where
  "three_days = 3 * 86400 * 1000000"

text \<open>
  The inserted row. Columns the insert leaves out take the defaults of the migrations:
  \<open>is_multi_match\<close> false, \<open>multi_match_threshold\<close> 2, the others null.
\<close>

definition request_row :: "int \<Rightarrow> string \<Rightarrow> string \<Rightarrow> int option \<Rightarrow> string list option \<Rightarrow> string option
    \<Rightarrow> string option \<Rightarrow> string list option \<Rightarrow> string option \<Rightarrow> bool \<Rightarrow> int \<Rightarrow> string option
    \<Rightarrow> string option \<Rightarrow> string \<Rightarrow> conn_req" where
  "request_row now initiator target score reasons intro concern excluded signal_group multi threshold
     purpose chat_guid new_id =
   (let in_group = multi \<and> truthy_str signal_group in
    \<lparr>cr_id = new_id, cr_initiator = initiator, cr_target = target, cr_match_score = score,
     cr_reasons = (case reasons of None \<Rightarrow> [] | Some rs \<Rightarrow> rs),
     cr_introduction = intro, cr_concern = concern, cr_status = CPendingInitiatorApproval,
     cr_excluded = (case excluded of None \<Rightarrow> [] | Some es \<Rightarrow> es),
     cr_expires_at = now + three_days, cr_created_at = now, cr_updated_at = now,
     cr_purpose = (if truthy_str purpose then purpose else None),
     cr_signal_group = (if in_group then signal_group else None),
     cr_is_multi = in_group, cr_threshold = (if in_group then threshold else 2),
     cr_group_chat_guid = (if truthy_str chat_guid then chat_guid else None),
     cr_multi_chat_guid = None, cr_target_notified_at = None, cr_target_responded_at = None,
     cr_group_created_at = None, cr_decline_reason = None\<rparr>)"

definition first_row :: "'e \<Rightarrow> 'row list \<Rightarrow> ('s, 'e, 'row) io" where
  "first_row e rs = (case rs of [] \<Rightarrow> io_raise e | r # _ \<Rightarrow> io_return r)"

definition create_connection_request :: "('db, conn_req) table_api \<Rightarrow> int \<Rightarrow> string \<Rightarrow> string \<Rightarrow> int option
    \<Rightarrow> string list option \<Rightarrow> string option \<Rightarrow> string option \<Rightarrow> string list option \<Rightarrow> string option \<Rightarrow> bool
    \<Rightarrow> int \<Rightarrow> string option \<Rightarrow> string option \<Rightarrow> ('db, conn_error, conn_req) io" where
  "create_connection_request api now initiator target score reasons intro concern excluded signal_group
     multi threshold purpose chat_guid =
   io_bind (io_lift ApiFailure (tb_insert api (request_row now initiator target score reasons intro concern
       excluded signal_group multi threshold purpose chat_guid)))
     (first_row EmptyResult)"

definition update_connection_request_status :: "('db, conn_req) table_api \<Rightarrow> int \<Rightarrow> string \<Rightarrow> conn_status
    \<Rightarrow> (conn_req \<Rightarrow> conn_req) \<Rightarrow> conn_status option \<Rightarrow> ('db, conn_error, conn_req) io" where
  "update_connection_request_status api now rid status additional expected =
   (if \<not> valid_uuid rid then io_raise (BadRequestId rid)
    else if (case expected of None \<Rightarrow> False | Some e \<Rightarrow> status \<notin> set (valid_status_next e))
    then io_raise (BadStatusTransition (the expected) status)
    else io_bind (io_lift ApiFailure (tb_update api
        (\<lambda>r. cr_id r = rid \<and> (case expected of None \<Rightarrow> True | Some e \<Rightarrow> cr_status r = e))
        (\<lambda>r. additional (r\<lparr>cr_status := status, cr_updated_at := now\<rparr>))))
      (first_row (case expected of None \<Rightarrow> RequestNotFound rid | Some e \<Rightarrow> StatusConflict rid e)))"

definition get_connection_request :: "('db, conn_req) table_api \<Rightarrow> string \<Rightarrow> ('db, conn_error, conn_req option) io" where
  "get_connection_request api rid = io_catch
     (io_bind (tb_select api (\<lambda>r. cr_id r = rid)) (\<lambda>rs.
        io_return (case rs of [] \<Rightarrow> None | r # _ \<Rightarrow> Some r)))
     (\<lambda>_. io_return None)"

definition add_excluded_candidate :: "('db, conn_req) table_api \<Rightarrow> int \<Rightarrow> string \<Rightarrow> string
    \<Rightarrow> ('db, conn_error, conn_req) io" where
  "add_excluded_candidate api now rid candidate =
     io_bind (get_connection_request api rid) (\<lambda>found. case found of
       None \<Rightarrow> io_raise (RequestNotFound rid)
     | Some request \<Rightarrow>
        (let excluded = (if candidate \<in> set (cr_excluded request) then cr_excluded request
                         else cr_excluded request @ [candidate]) in
         io_bind (io_lift ApiFailure (tb_update api (\<lambda>r. cr_id r = rid \<and> True)
             (\<lambda>r. r\<lparr>cr_excluded := excluded, cr_updated_at := now\<rparr>)))
           (first_row EmptyResult)))"

definition update_connection_request :: "('db, conn_req) table_api \<Rightarrow> int \<Rightarrow> string \<Rightarrow> (conn_req \<Rightarrow> conn_req)
    \<Rightarrow> ('db, conn_error, conn_req option) io" where
  "update_connection_request api now rid updates = io_catch
     (io_bind (tb_update api (\<lambda>r. cr_id r = rid \<and> True) (\<lambda>r. (updates r)\<lparr>cr_updated_at := now\<rparr>)) (\<lambda>rs.
        io_return (case rs of [] \<Rightarrow> None | r # _ \<Rightarrow> Some r)))
     (\<lambda>_. io_return None)"

section \<open>Queries\<close>

text \<open>\<open>limit or default\<close>, clamped to 1..25\<close>

definition clamp_limit :: "int \<Rightarrow> int \<Rightarrow> nat" where
  "clamp_limit dflt limit = nat (max 1 (min (if limit = 0 then dflt else limit) 25))"

definition newest :: "('db, conn_req) table_api \<Rightarrow> (conn_req \<Rightarrow> bool) \<Rightarrow> nat \<Rightarrow> ('db, conn_error, conn_req list) io" where
  "newest api P n = io_catch (tb_select_top api P cr_created_at n) (\<lambda>_. io_return [])"

definition pending_for_initiator :: "int \<Rightarrow> string \<Rightarrow> conn_req \<Rightarrow> bool" where
  "pending_for_initiator now uid r \<longleftrightarrow> cr_initiator r = uid
     \<and> cr_status r = CPendingInitiatorApproval \<and> now < cr_expires_at r"

definition pending_for_target :: "int \<Rightarrow> string \<Rightarrow> conn_req \<Rightarrow> bool" where
  "pending_for_target now uid r \<longleftrightarrow> cr_target r = uid
     \<and> cr_status r = CPendingTargetApproval \<and> now < cr_expires_at r"

definition awaiting_target :: "int \<Rightarrow> string \<Rightarrow> conn_req \<Rightarrow> bool" where
  "awaiting_target now uid r \<longleftrightarrow> cr_initiator r = uid
     \<and> cr_status r = CPendingTargetApproval \<and> now < cr_expires_at r"

definition get_pending_request_for_user :: "('db, conn_req) table_api \<Rightarrow> int \<Rightarrow> string \<Rightarrow> bool
    \<Rightarrow> ('db, conn_error, conn_req option) io" where
  "get_pending_request_for_user api now uid as_initiator =
     io_bind (newest api (if as_initiator then pending_for_initiator now uid else pending_for_target now uid) 1)
       (\<lambda>rs. io_return (case rs of [] \<Rightarrow> None | r # _ \<Rightarrow> Some r))"

definition get_pending_request_for_target :: "('db, conn_req) table_api \<Rightarrow> int \<Rightarrow> string
    \<Rightarrow> ('db, conn_error, conn_req option) io" where
  "get_pending_request_for_target api now uid =
     io_bind (newest api (pending_for_target now uid) 1)
       (\<lambda>rs. io_return (case rs of [] \<Rightarrow> None | r # _ \<Rightarrow> Some r))"

definition list_pending_requests_for_target :: "('db, conn_req) table_api \<Rightarrow> int \<Rightarrow> string \<Rightarrow> int
    \<Rightarrow> ('db, conn_error, conn_req list) io" where
  "list_pending_requests_for_target api now uid limit =
     newest api (pending_for_target now uid) (clamp_limit 5 limit)"

definition list_pending_requests_for_initiator :: "('db, conn_req) table_api \<Rightarrow> int \<Rightarrow> string \<Rightarrow> int
    \<Rightarrow> ('db, conn_error, conn_req list) io" where
  "list_pending_requests_for_initiator api now uid limit =
     newest api (pending_for_initiator now uid) (clamp_limit 5 limit)"

definition list_requests_awaiting_target_response :: "('db, conn_req) table_api \<Rightarrow> int \<Rightarrow> string \<Rightarrow> int
    \<Rightarrow> ('db, conn_error, conn_req list) io" where
  "list_requests_awaiting_target_response api now uid limit =
     newest api (awaiting_target now uid) (clamp_limit 10 limit)"

text \<open>The rows of \<open>group_chat_participants\<close> the lookup reads.\<close>

record participant_row =
  pr_chat_guid :: string
  pr_user_id :: string

definition active_status :: "conn_status \<Rightarrow> bool" where
  "active_status s \<longleftrightarrow> s \<in> {CPendingInitiatorApproval, CPendingTargetApproval, CTargetAccepted, CGroupCreated}"

definition links :: "string \<Rightarrow> string \<Rightarrow> conn_req \<Rightarrow> bool" where
  "links a b r \<longleftrightarrow> cr_initiator r = a \<and> cr_target r = b \<or> cr_initiator r = b \<and> cr_target r = a"

definition check_existing_connection :: "('db, participant_row) table_api \<Rightarrow> ('db, conn_req) table_api \<Rightarrow> int
    \<Rightarrow> string \<Rightarrow> string \<Rightarrow> ('db, conn_error, bool) io" where
  "check_existing_connection papi api now a b =
     (if \<not> (valid_uuid a \<and> valid_uuid b) then io_return False
      else io_catch
       (io_bind (tb_select papi (\<lambda>p. pr_user_id p = a)) (\<lambda>ra.
         io_bind (if ra = [] then io_return []
                  else tb_select papi (\<lambda>p. pr_user_id p = b \<and> pr_chat_guid p \<in> pr_chat_guid ` set ra)) (\<lambda>rb.
           if rb \<noteq> [] then io_return True
           else io_bind (tb_select api (\<lambda>r. links a b r \<and> active_status (cr_status r) \<and> now < cr_expires_at r))
             (\<lambda>rs. io_return (rs \<noteq> [])))))
       (\<lambda>_. io_return False))"

text \<open>\<open>list(set(...))\<close>: the order of the result is not determined; the model keeps the query's.\<close>

definition get_recent_connection_purposes :: "('db, conn_req) table_api \<Rightarrow> int \<Rightarrow> string \<Rightarrow> int
    \<Rightarrow> ('db, conn_error, string list) io" where
  "get_recent_connection_purposes api now uid days =
     (if \<not> valid_uuid uid then io_return []
      else io_catch
        (io_bind (tb_select api (\<lambda>r. cr_initiator r = uid \<and> now - days * 86400 * 1000000 \<le> cr_created_at r
             \<and> cr_purpose r \<noteq> None))
          (\<lambda>rs. io_return (remdups (List.map_filter (\<lambda>r. if truthy_str (cr_purpose r) then cr_purpose r else None) rs))))
        (\<lambda>_. io_return []))"

record user_row =
  ur_name :: "string option"
  ur_phone :: "string option"

record connection =
  cn_id :: string
  cn_with_id :: string
  cn_with_name :: "string option"
  cn_role_initiator :: bool
  cn_score :: "int option"
  cn_reasons :: "string list"
  cn_chat_guid :: "string option"
  cn_at :: int

definition enrich_connection :: "string \<Rightarrow> user_row option \<Rightarrow> conn_req \<Rightarrow> connection" where
  "enrich_connection uid other r = \<lparr>cn_id = cr_id r,
     cn_with_id = (if cr_initiator r = uid then cr_target r else cr_initiator r),
     cn_with_name = (case other of None \<Rightarrow> Some ''Unknown'' | Some u \<Rightarrow> ur_name u),
     cn_role_initiator = (cr_initiator r = uid), cn_score = cr_match_score r,
     cn_reasons = cr_reasons r, cn_chat_guid = cr_group_chat_guid r, cn_at = cr_updated_at r\<rparr>"

fun enrich_all :: "(string \<Rightarrow> ('db, string, user_row option) io) \<Rightarrow> string \<Rightarrow> conn_req list
    \<Rightarrow> ('db, string, connection list) io" where
  "enrich_all get_user uid [] = io_return []"
| "enrich_all get_user uid (r # rs) =
     io_bind (get_user (if cr_initiator r = uid then cr_target r else cr_initiator r)) (\<lambda>other.
       io_bind (enrich_all get_user uid rs) (\<lambda>cs. io_return (enrich_connection uid other r # cs)))"

definition get_user_connections :: "('db, conn_req) table_api \<Rightarrow> (string \<Rightarrow> ('db, string, user_row option) io)
    \<Rightarrow> string \<Rightarrow> nat \<Rightarrow> ('db, conn_error, connection list) io" where
  "get_user_connections api get_user uid limit =
     (if \<not> valid_uuid uid then io_return []
      else io_catch
        (io_bind (tb_select_top api (\<lambda>r. cr_status r = CGroupCreated \<and> (cr_initiator r = uid \<or> cr_target r = uid))
             cr_updated_at limit)
          (enrich_all get_user uid))
        (\<lambda>_. io_return []))"

definition get_connection_requests_by_chat_guid :: "('db, conn_req) table_api \<Rightarrow> string
    \<Rightarrow> ('db, conn_error, conn_req list) io" where
  "get_connection_requests_by_chat_guid api guid = io_catch
     (io_bind (tb_select api (\<lambda>r. cr_group_chat_guid r = Some guid \<or> cr_multi_chat_guid r = Some guid))
       (\<lambda>rs. io_return (sort_key cr_created_at rs)))
     (\<lambda>_. io_return [])"

section \<open>Multi-match readiness\<close>

record match_ready =
  mx_ready :: bool
  mx_accepted_count :: nat
  mx_threshold :: int
  mx_accepted_ids :: "string list"
  mx_chat_guid :: "string option"

text \<open>
  The body of the SQL function: an aggregate over the rows of the signal group. \<open>MAX\<close> of a text
  column is the greatest value by code points (the collation of the database is not modelled).
\<close>

definition max_text :: "string list \<Rightarrow> string option" where
  "max_text xs = (if xs = [] then None else Some (foldl max (hd xs) xs))"

definition match_ready_rows :: "conn_req list \<Rightarrow> match_ready" where
  "match_ready_rows rs =
     (let accepted = filter (\<lambda>r. cr_status r = CTargetAccepted) rs;
          threshold = (if rs = [] then 2 else foldl max (cr_threshold (hd rs)) (map cr_threshold rs))
      in \<lparr>mx_ready = (threshold \<le> int (length accepted)), mx_accepted_count = length accepted,
          mx_threshold = threshold, mx_accepted_ids = map cr_id accepted,
          mx_chat_guid = max_text (List.map_filter cr_multi_chat_guid rs)\<rparr>)"

definition match_ready_default :: match_ready where
  "match_ready_default = \<lparr>mx_ready = False, mx_accepted_count = 0, mx_threshold = 2,
     mx_accepted_ids = [], mx_chat_guid = None\<rparr>"

definition check_multi_match_ready_v1 :: "('db, conn_req) table_api \<Rightarrow> string \<Rightarrow> ('db, conn_error, match_ready) io" where
  "check_multi_match_ready_v1 api signal_group = io_catch
     (io_bind (tb_select api (\<lambda>r. cr_signal_group r = Some signal_group)) (\<lambda>rs.
        io_return (match_ready_rows rs)))
     (\<lambda>_. io_return match_ready_default)"

section \<open>Facts about status updates\<close>

text \<open>An update that leaves the primary key alone.\<close>

definition keeps_id :: "(conn_req \<Rightarrow> conn_req) \<Rightarrow> bool" where
  "keeps_id f \<longleftrightarrow> (\<forall>r. cr_id (f r) = cr_id r)"

definition set_status :: "int \<Rightarrow> conn_status \<Rightarrow> (conn_req \<Rightarrow> conn_req) \<Rightarrow> conn_req \<Rightarrow> conn_req" where
  "set_status now status f r = f (r\<lparr>cr_status := status, cr_updated_at := now\<rparr>)"

lemma keeps_id_set_status: "keeps_id f \<Longrightarrow> cr_id (set_status now st f r) = cr_id r"
  by (simp add: set_status_def keeps_id_def)

lemma first_row_Inr: "first_row e rs s = (Inr r, s') \<longleftrightarrow> s' = s \<and> (\<exists>qs. rs = r # qs)"
  by (cases rs) (auto simp: first_row_def)

lemma first_row_state: "snd (first_row e rs s) = s"
  by (cases rs) (simp_all add: first_row_def)

lemma valid_uuid_sample: "valid_uuid (replicate 32 CHR ''a'')"
  by code_simp

locale request_store = table_store api tbl cr_id
  for api :: "('db, conn_req) table_api" and tbl :: "'db \<Rightarrow> string \<rightharpoonup> conn_req"
begin

text \<open>A guarded status update that succeeds moved exactly one row, from the expected status.\<close>

lemma guarded_update_Inr:
  assumes "update_connection_request_status api now rid st f (Some e) d = (Inr r, d')" and f: "keeps_id f"
  obtains q where "tbl d rid = Some q" "cr_status q = e" "st \<in> set (valid_status_next e)"
    "r = set_status now st f q" "tbl d' = (tbl d)(rid \<mapsto> r)"
proof -
  obtain rs where upd: "tb_update api (\<lambda>r. cr_id r = rid \<and> cr_status r = e) (set_status now st f) d
      = (Inr (r # rs), d')" and st: "st \<in> set (valid_status_next e)"
    using assms(1)
    by (auto simp: update_connection_request_status_def io_bind_eq_Inr first_row_Inr set_status_def [abs_def]
        split: if_splits)
  from update_key_ok [OF upd keeps_id_set_status [OF f]] show thesis
    using that st by (auto split: option.splits if_splits)
qed

text \<open>One that raises changed at most that row, and only from the expected status.\<close>

lemma guarded_update_Inl:
  assumes "update_connection_request_status api now rid st f (Some e) d = (Inl err, d')" and f: "keeps_id f"
  shows "tbl d' = tbl d \<or> (\<exists>msg. err = ApiFailure msg) \<and> (\<exists>q. tbl d rid = Some q \<and> cr_status q = e
    \<and> st \<in> set (valid_status_next e) \<and> tbl d' = (tbl d)(rid \<mapsto> set_status now st f q))"
proof (cases "valid_uuid rid \<and> st \<in> set (valid_status_next e)")
  case False
  with assms(1) show ?thesis by (auto simp: update_connection_request_status_def split: if_splits)
next
  case True
  note key = keeps_id_set_status [OF f]
  obtain res d1 where upd: "tb_update api (\<lambda>r. cr_id r = rid \<and> cr_status r = e) (set_status now st f) d = (res, d1)"
    by fastforce
  show ?thesis
  proof (cases res)
    case (Inl msg)
    with True upd assms(1) have "d' = d1" "err = ApiFailure msg"
      by (auto simp: update_connection_request_status_def io_bind_def io_lift_def io_catch_def
          set_status_def [abs_def])
    with update_key_err [OF upd [unfolded Inl] key] True show ?thesis by auto
  next
    case (Inr rs)
    with True upd assms(1) have "d' = d1" "rs = []"
      by (auto simp: update_connection_request_status_def io_bind_def io_lift_def io_catch_def
          set_status_def [abs_def] first_row_def split: list.splits)
    with update_key_ok [OF upd [unfolded Inr] key] show ?thesis by (auto split: option.splits if_splits)
  qed
qed

text \<open>The row has left the expected status: the update is refused and changes nothing.\<close>

lemma guarded_update_refused:
  assumes "update_connection_request_status api now rid st f (Some e) d = (res, d')" and f: "keeps_id f"
    and "\<And>q. tbl d rid = Some q \<Longrightarrow> cr_status q \<noteq> e"
  shows "(\<exists>err. res = Inl err) \<and> tbl d' = tbl d"
proof (cases res)
  case (Inl err)
  with guarded_update_Inl [OF _ f] assms show ?thesis by blast
next
  case (Inr r)
  with guarded_update_Inr [OF _ f] assms show ?thesis by blast
qed

lemma newest_sound:
  assumes "newest api P n d = (Inr rs, d')" and "r \<in> set rs"
  shows "\<exists>k. tbl d k = Some r \<and> P r"
proof -
  obtain res d1 where sel: "tb_select_top api P cr_created_at n d = (res, d1)" by fastforce
  show ?thesis
  proof (cases res)
    case (Inl e)
    with sel assms show ?thesis by (simp add: newest_def io_catch_def)
  next
    case (Inr xs)
    with sel assms have "rs = xs" by (simp add: newest_def io_catch_def)
    with select_top_ok [OF sel [unfolded Inr]] assms(2) show ?thesis
      by (auto simp: matching_def ran_def dest: in_set_takeD)
  qed
qed

text \<open>The first answer of a query that went through is the newest of all matching rows.\<close>

lemma newest_first:
  assumes sel: "tb_select_top api P cr_created_at (Suc n) d = (Inr rs, d')"
    and q: "tbl d k = Some q" "P q"
  shows "\<exists>r rs'. rs = r # rs' \<and> cr_created_at q \<le> cr_created_at r \<and> P r \<and> (\<exists>k. tbl d k = Some r)"
proof -
  obtain xs where xs: "set xs = matching P (tbl d)"
      "sorted_wrt (\<lambda>a b. cr_created_at b \<le> cr_created_at a) xs" "rs = take (Suc n) xs"
    using select_top_ok [OF sel] by blast
  have "q \<in> set xs" using q xs(1) by (auto simp: matching_def ran_def)
  then obtain y ys where y: "xs = y # ys" by (cases xs) auto
  with xs have "y \<in> matching P (tbl d)" by auto
  with xs y \<open>q \<in> set xs\<close> show ?thesis by (auto simp: matching_def ran_def)
qed

end

lemma clamp_limit_bounds: "1 \<le> clamp_limit dflt limit \<and> clamp_limit dflt limit \<le> 25"
  by (auto simp: clamp_limit_def)

abbreviation mem_reqs :: "(conn_req mem_table, conn_req) table_api" where
  "mem_reqs \<equiv> mem_api cr_id id (\<lambda>t _. t)"

interpretation mreqs: request_store mem_reqs "mem_tbl cr_id id"
  by (intro request_store.intro mem.table_store_axioms)

end
