(* ===== verification/Handshake.thy ===== *)
theory Handshake
  imports Connection_Requests
begin

text \<open>
  The handshake of app/agents/execution/networking/utils/handshake_manager.py. Each operation
  moves one connection request with the optimistic lock of \<open>Connection_Requests\<close> and then
  tracks the initiator's flow state through the manager of \<open>Atomic_State\<close>; an exception of the
  tracking is logged and dropped. The state is the manager's: the database and the cache.
\<close>

section \<open>Tracking the flow state\<close>

text \<open>\<open>_update_user_state\<close>: read, transition, write; any exception gives False.\<close>

definition update_user_state :: "('db, state_row) table_api \<Rightarrow> int \<Rightarrow> string
    \<Rightarrow> (net_state \<Rightarrow> flow_error + net_state) option \<Rightarrow> ('db mgr, conn_error, bool) io" where
  "update_user_state sapi now uid transition_fn = io_catch
     (io_bind (get_state sapi now uid) (\<lambda>state. case transition_fn of
        None \<Rightarrow> io_return False
      | Some fn \<Rightarrow> (case fn state of Inl e \<Rightarrow> io_raise e | Inr st \<Rightarrow> update_state sapi now uid st)))
     (\<lambda>_. io_return False)"

definition get_user_flow_state :: "('db, state_row) table_api \<Rightarrow> int \<Rightarrow> string \<Rightarrow> ('db mgr, flow_error, net_state) io" where
  "get_user_flow_state sapi now uid = get_state sapi now uid"

text \<open>The \<open>try ... except\<close> blocks of the operations: transition if the flow is where expected.\<close>

definition track_flow :: "('db, state_row) table_api \<Rightarrow> int \<Rightarrow> string \<Rightarrow> (net_state \<Rightarrow> bool)
    \<Rightarrow> (net_state \<Rightarrow> flow_error + net_state) \<Rightarrow> ('db mgr, conn_error, unit) io" where
  "track_flow sapi now initiator guard fn =
     (if initiator = [] then io_return ()
      else io_catch
       (io_bind (get_state sapi now initiator) (\<lambda>state.
          if guard state then (case fn state of Inl e \<Rightarrow> io_raise e
            | Inr st \<Rightarrow> io_bind (update_state sapi now initiator st) (\<lambda>_. io_return ()))
          else io_return ()))
       (\<lambda>_. io_return ()))"

record match_result =
  mr_target_user_id :: string
  mr_target_name :: string
  mr_match_score :: int
  mr_matching_reasons :: "string list"
  mr_llm_introduction :: "string option"
  mr_llm_concern :: "string option"

definition match_details_of :: "match_result \<Rightarrow> dict" where
  "match_details_of m = [(''target_user_id'', JStr (mr_target_user_id m)),
     (''target_name'', JStr (mr_target_name m)), (''match_score'', JInt (mr_match_score m)),
     (''matching_reasons'', json_strs (mr_matching_reasons m))]"

definition opt_list :: "'a list option \<Rightarrow> 'a list" where
  "opt_list x = (case x of None \<Rightarrow> [] | Some xs \<Rightarrow> xs)"

text \<open>A raising call inside the tracking block.\<close>

definition of_result :: "'e + 'a \<Rightarrow> ('s, 'e, 'a) io" where
  "of_result r = (case r of Inl e \<Rightarrow> io_raise e | Inr x \<Rightarrow> io_return x)"

definition track_created :: "('db, state_row) table_api \<Rightarrow> int \<Rightarrow> string \<Rightarrow> string \<Rightarrow> match_result \<Rightarrow> bool
    \<Rightarrow> string option \<Rightarrow> ('db mgr, flow_error, bool) io" where
  "track_created sapi now initiator rid m multi purpose =
     io_bind (get_state sapi now initiator) (\<lambda>state0.
     io_bind (if is_terminal state0
              then io_bind (of_result (reset_flow now state0)) (\<lambda>st.
                   io_bind (update_state sapi now initiator st) (\<lambda>_. get_state sapi now initiator))
              else io_return state0) (\<lambda>state1.
     io_bind (if ns_flow state1 = Idle then of_result (start_matching now initiator state1)
              else io_return state1) (\<lambda>state.
     io_bind (if multi
              then of_result (with_multi_match now (opt_list (ns_request_ids state) @ [rid])
                     (opt_list (ns_target_ids state) @ [mr_target_user_id m])
                     (opt_list (ns_match_details state) @ [match_details_of m]) purpose state)
              else of_result (with_match now rid (mr_target_user_id m) (match_details_of m) purpose state))
       (\<lambda>st. update_state sapi now initiator st))))"

section \<open>The operations\<close>

text \<open>
  The log line at the end slices \<open>signal_group_id\<close> for a multi-match request, which raises a
  TypeError when there is none.
\<close>

definition create_request :: "('db, conn_req) table_api \<Rightarrow> ('db, state_row) table_api \<Rightarrow> int \<Rightarrow> string
    \<Rightarrow> match_result \<Rightarrow> string list option \<Rightarrow> string option \<Rightarrow> bool \<Rightarrow> int \<Rightarrow> string option \<Rightarrow> string option
    \<Rightarrow> ('db mgr, conn_error, conn_req) io" where
  "create_request rapi sapi now initiator m excluded signal_group multi threshold purpose chat_guid =
     io_bind (on_db (create_connection_request rapi now initiator (mr_target_user_id m)
         (Some (mr_match_score m)) (Some (mr_matching_reasons m)) (mr_llm_introduction m)
         (mr_llm_concern m) excluded signal_group multi threshold purpose chat_guid)) (\<lambda>request.
     io_bind (io_catch
         (io_bind (track_created sapi now initiator (cr_id request) m multi purpose) (\<lambda>_. io_return ()))
         (\<lambda>_. io_return ())) (\<lambda>_.
     if multi \<and> signal_group = None then io_raise MissingSignalGroup else io_return request))"

definition get_pending_for_initiator :: "('db, conn_req) table_api \<Rightarrow> int \<Rightarrow> string
    \<Rightarrow> ('db mgr, conn_error, conn_req option) io" where
  "get_pending_for_initiator rapi now uid = io_catch
     (on_db (get_pending_request_for_user rapi now uid True)) (\<lambda>_. io_return None)"

definition get_pending_for_target :: "('db, conn_req) table_api \<Rightarrow> int \<Rightarrow> string
    \<Rightarrow> ('db mgr, conn_error, conn_req option) io" where
  "get_pending_for_target rapi now uid = io_catch
     (on_db (get_pending_request_for_target rapi now uid)) (\<lambda>_. io_return None)"

text \<open>A status move followed by tracking the initiator's flow.\<close>

definition move_and_track :: "('db, conn_req) table_api \<Rightarrow> ('db, state_row) table_api \<Rightarrow> int \<Rightarrow> string
    \<Rightarrow> conn_status \<Rightarrow> (conn_req \<Rightarrow> conn_req) \<Rightarrow> conn_status \<Rightarrow> (net_state \<Rightarrow> bool)
    \<Rightarrow> (net_state \<Rightarrow> flow_error + net_state) \<Rightarrow> ('db mgr, conn_error, conn_req) io" where
  "move_and_track rapi sapi now rid status additional expected guard fn =
     io_bind (on_db (update_connection_request_status rapi now rid status additional (Some expected))) (\<lambda>request.
     io_bind (track_flow sapi now (cr_initiator request) guard fn) (\<lambda>_. io_return request))"

definition initiator_confirms :: "('db, conn_req) table_api \<Rightarrow> ('db, state_row) table_api \<Rightarrow> int \<Rightarrow> string
    \<Rightarrow> ('db mgr, conn_error, conn_req) io" where
  "initiator_confirms rapi sapi now rid = move_and_track rapi sapi now rid CPendingTargetApproval
     (\<lambda>r. r\<lparr>cr_target_notified_at := Some now\<rparr>) CPendingInitiatorApproval
     (\<lambda>s. ns_flow s = PendingInitiatorApproval) (initiator_confirmed now)"

definition initiator_requests_different :: "('db, conn_req) table_api \<Rightarrow> int \<Rightarrow> string \<Rightarrow> string
    \<Rightarrow> ('db mgr, conn_error, conn_req) io" where
  "initiator_requests_different rapi now rid current_target =
     io_bind (on_db (add_excluded_candidate rapi now rid current_target)) (\<lambda>_.
       on_db (update_connection_request_status rapi now rid CCancelled id (Some CPendingInitiatorApproval)))"

definition initiator_cancels :: "('db, conn_req) table_api \<Rightarrow> ('db, state_row) table_api \<Rightarrow> int \<Rightarrow> string
    \<Rightarrow> ('db mgr, conn_error, conn_req) io" where
  "initiator_cancels rapi sapi now rid = move_and_track rapi sapi now rid CCancelled id
     CPendingInitiatorApproval is_active (cancel_flow now (Some ''User cancelled''))"

definition target_accepts :: "('db, conn_req) table_api \<Rightarrow> ('db, state_row) table_api \<Rightarrow> int \<Rightarrow> string
    \<Rightarrow> ('db mgr, conn_error, conn_req) io" where
  "target_accepts rapi sapi now rid = move_and_track rapi sapi now rid CTargetAccepted
     (\<lambda>r. r\<lparr>cr_target_responded_at := Some now\<rparr>) CPendingTargetApproval
     (\<lambda>s. ns_flow s = PendingTargetResponse) (target_accepted now)"

definition target_declines :: "('db, conn_req) table_api \<Rightarrow> ('db, state_row) table_api \<Rightarrow> int \<Rightarrow> string
    \<Rightarrow> string option \<Rightarrow> ('db mgr, conn_error, conn_req) io" where
  "target_declines rapi sapi now rid reason = move_and_track rapi sapi now rid CTargetDeclined
     (\<lambda>r. let r1 = r\<lparr>cr_target_responded_at := Some now\<rparr> in
        if truthy_str reason then r1\<lparr>cr_decline_reason := reason\<rparr> else r1)
     CPendingTargetApproval (\<lambda>s. ns_flow s = PendingTargetResponse)
     (cancel_flow now (Some (if truthy_str reason then ''Target declined: '' @ the reason
                             else ''Target declined'')))"

definition mark_group_created :: "('db, conn_req) table_api \<Rightarrow> ('db, state_row) table_api \<Rightarrow> int \<Rightarrow> string
    \<Rightarrow> string \<Rightarrow> ('db mgr, conn_error, conn_req) io" where
  "mark_group_created rapi sapi now rid guid = move_and_track rapi sapi now rid CGroupCreated
     (\<lambda>r. r\<lparr>cr_group_chat_guid := Some guid, cr_group_created_at := Some now\<rparr>) CTargetAccepted
     (\<lambda>s. ns_flow s = ReadyForGroup) (group_created now guid)"

section \<open>Multi-match operations\<close>

record multi_status =
  ms_is_multi :: bool
  ms_signal_group :: "string option"
  ms_ready :: bool
  ms_accepted_count :: nat
  ms_threshold :: int
  ms_existing_chat :: "string option"
  ms_accepted_ids :: "string list"

definition target_accepts_multi_match :: "('db, conn_req) table_api \<Rightarrow> int \<Rightarrow> string
    \<Rightarrow> ('db mgr, conn_error, conn_req \<times> multi_status) io" where
  "target_accepts_multi_match rapi now rid =
     io_bind (on_db (update_connection_request_status rapi now rid CTargetAccepted
         (\<lambda>r. r\<lparr>cr_target_responded_at := Some now\<rparr>) (Some CPendingTargetApproval))) (\<lambda>request.
     if \<not> cr_is_multi request \<or> \<not> truthy_str (cr_signal_group request)
     then io_return (request, \<lparr>ms_is_multi = False, ms_signal_group = None, ms_ready = True,
            ms_accepted_count = 0, ms_threshold = 0, ms_existing_chat = None, ms_accepted_ids = []\<rparr>)
     else io_bind (on_db (check_multi_match_ready_v1 rapi (the (cr_signal_group request)))) (\<lambda>chk.
       io_return (request, \<lparr>ms_is_multi = True, ms_signal_group = cr_signal_group request,
            ms_ready = mx_ready chk, ms_accepted_count = mx_accepted_count chk,
            ms_threshold = mx_threshold chk, ms_existing_chat = mx_chat_guid chk,
            ms_accepted_ids = mx_accepted_ids chk\<rparr>)))"

record participant =
  pt_user_id :: string
  pt_phone :: "string option"
  pt_name :: "string option"
  pt_is_initiator :: bool
  pt_request_id :: "string option"

record gathering =
  ga_participants :: "participant list"
  ga_initiator :: "string option"
  ga_reasons :: "string list"
  ga_purpose :: "string option"

definition add_reasons :: "string list \<Rightarrow> string list \<Rightarrow> string list" where
  "add_reasons acc rs = foldl (\<lambda>a x. if x \<in> set a then a else a @ [x]) acc rs"

text \<open>
  The first loop of \<open>create_multi_person_group\<close>. \<open>get_user\<close> is \<open>get_user_by_id\<close>; a user row
  always has its name and phone columns, possibly null.
\<close>

fun gather_participants :: "('db, conn_req) table_api \<Rightarrow> (string \<Rightarrow> ('db, conn_error, user_row option) io)
    \<Rightarrow> string list \<Rightarrow> gathering \<Rightarrow> ('db, conn_error, gathering) io" where
  "gather_participants rapi get_user [] g = io_return g"
| "gather_participants rapi get_user (rid # rids) g =
     io_bind (get_connection_request rapi rid) (\<lambda>found. case found of
       None \<Rightarrow> gather_participants rapi get_user rids g
     | Some request \<Rightarrow>
        (let g1 = (if ga_initiator g = None
                   then g\<lparr>ga_initiator := Some (cr_initiator request), ga_purpose := cr_purpose request\<rparr>
                   else g) in
         io_bind (get_user (cr_target request)) (\<lambda>tu.
           let g2 = (case tu of None \<Rightarrow> g1 | Some u \<Rightarrow> g1\<lparr>ga_participants := ga_participants g1 @
                 [\<lparr>pt_user_id = cr_target request, pt_phone = ur_phone u, pt_name = ur_name u,
                   pt_is_initiator = False, pt_request_id = Some rid\<rparr>]\<rparr>) in
           gather_participants rapi get_user rids
             (g2\<lparr>ga_reasons := add_reasons (ga_reasons g2) (cr_reasons request)\<rparr>))))"

definition empty_gathering :: gathering where
  "empty_gathering = \<lparr>ga_participants = [], ga_initiator = None, ga_reasons = [], ga_purpose = None\<rparr>"

text \<open>The second loop: mark every accepted request, stopping at the first exception.\<close>

fun mark_all_created :: "('db, conn_req) table_api \<Rightarrow> int \<Rightarrow> string \<Rightarrow> string list \<Rightarrow> ('db, conn_error, unit) io" where
  "mark_all_created rapi now guid [] = io_return ()"
| "mark_all_created rapi now guid (rid # rids) =
     io_bind (update_connection_request_status rapi now rid CGroupCreated
         (\<lambda>r. r\<lparr>cr_group_chat_guid := Some guid, cr_multi_chat_guid := Some guid, cr_group_created_at := Some now\<rparr>)
         (Some CTargetAccepted))
       (\<lambda>_. mark_all_created rapi now guid rids)"

text \<open>
  \<open>provision\<close> is \<open>GroupChatService().create_multi_person_group\<close> over the participants, the
  reasons and the purpose; it answers the GUID of the new chat.
\<close>

definition create_multi_person_group :: "('db, conn_req) table_api \<Rightarrow> (string \<Rightarrow> ('db, conn_error, user_row option) io)
    \<Rightarrow> (participant list \<Rightarrow> string list \<Rightarrow> string option \<Rightarrow> ('db, conn_error, string) io)
    \<Rightarrow> int \<Rightarrow> string list \<Rightarrow> ('db mgr, conn_error, string \<times> participant list) io" where
  "create_multi_person_group rapi get_user provision now accepted = on_db
     (io_bind (gather_participants rapi get_user accepted empty_gathering) (\<lambda>g.
      io_bind (case ga_initiator g of
          None \<Rightarrow> io_return (ga_participants g)
        | Some uid \<Rightarrow> if uid = [] then io_return (ga_participants g)
            else io_bind (get_user uid) (\<lambda>iu. io_return (case iu of None \<Rightarrow> ga_participants g
              | Some u \<Rightarrow> \<lparr>pt_user_id = uid, pt_phone = ur_phone u, pt_name = ur_name u,
                  pt_is_initiator = True, pt_request_id = None\<rparr> # ga_participants g))) (\<lambda>participants.
      if length participants < 2 then io_raise NotEnoughParticipants
      else io_bind (provision participants (ga_reasons g) (ga_purpose g)) (\<lambda>guid.
        io_bind (mark_all_created rapi now guid accepted) (\<lambda>_. io_return (guid, participants))))))"

text \<open>The names of the members already in the group, each user once, the joiner left out.\<close>

fun member_names :: "(string \<Rightarrow> ('db, conn_error, user_row option) io) \<Rightarrow> string \<Rightarrow> string list \<Rightarrow> string list
    \<Rightarrow> ('db, conn_error, string option list) io" where
  "member_names get_user joiner seen [] = io_return []"
| "member_names get_user joiner seen (uid # uids) =
     (if uid \<noteq> [] \<and> uid \<noteq> joiner \<and> uid \<notin> set seen
      then io_bind (get_user uid) (\<lambda>u. io_bind (member_names get_user joiner (uid # seen) uids) (\<lambda>ns.
             io_return (case u of None \<Rightarrow> ns | Some x \<Rightarrow> ur_name x # ns)))
      else member_names get_user joiner seen uids)"

text \<open>
  \<open>add_participant\<close> is \<open>GroupChatService().add_participant_to_group\<close> over the chat, the user,
  the member names and the request.
\<close>

definition add_late_joiner_to_group :: "('db, conn_req) table_api \<Rightarrow> (string \<Rightarrow> ('db, conn_error, user_row option) io)
    \<Rightarrow> (string \<Rightarrow> string \<Rightarrow> user_row \<Rightarrow> string option list \<Rightarrow> conn_req \<Rightarrow> ('db, conn_error, unit) io)
    \<Rightarrow> int \<Rightarrow> string \<Rightarrow> string \<Rightarrow> ('db mgr, conn_error, string \<times> string \<times> string option) io" where
  "add_late_joiner_to_group rapi get_user add_participant now rid guid = on_db
     (io_bind (get_connection_request rapi rid) (\<lambda>found. case found of
        None \<Rightarrow> io_raise (RequestNotFound rid)
      | Some request \<Rightarrow>
         io_bind (get_user (cr_target request)) (\<lambda>tu. case tu of
           None \<Rightarrow> io_raise (TargetUserNotFound (cr_target request))
         | Some u \<Rightarrow>
            io_bind (if truthy_str (cr_signal_group request)
                then io_bind (io_lift ApiFailure (tb_select rapi
                        (\<lambda>r. cr_signal_group r = cr_signal_group request \<and> cr_status r = CGroupCreated)))
                      (\<lambda>rs. member_names get_user (cr_target request) []
                         (concat (map (\<lambda>r. [cr_initiator r, cr_target r]) rs)))
                else io_return []) (\<lambda>names.
            io_bind (add_participant guid (cr_target request) u names request) (\<lambda>_.
            io_bind (update_connection_request_status rapi now rid CGroupCreated
                (\<lambda>r. r\<lparr>cr_group_chat_guid := Some guid, cr_multi_chat_guid := Some guid,
                       cr_group_created_at := Some now\<rparr>) (Some CTargetAccepted)) (\<lambda>_.
              io_return (guid, cr_target request, ur_name u)))))))"

section \<open>Facts about the operations\<close>

text \<open>Both tables in one database: the calls on one leave the other alone.\<close>

locale handshake_store = reqs: request_store rapi rtbl + states: state_store sapi stbl
  for rapi :: "('db, conn_req) table_api" and rtbl :: "'db \<Rightarrow> string \<rightharpoonup> conn_req"
    and sapi :: "('db, state_row) table_api" and stbl :: "'db \<Rightarrow> string \<rightharpoonup> state_row" +
  assumes states_frame: "keeps rtbl (tb_select sapi SP)" "keeps rtbl (tb_update sapi SP sf)"
      "keeps rtbl (tb_upsert sapi sf sr)" "keeps rtbl (tb_delete sapi sk)"
    and reqs_frame: "keeps stbl (tb_select rapi RP)" "keeps stbl (tb_select_top rapi RP rg n)"
      "keeps stbl (tb_update rapi RP rf)" "keeps stbl (tb_insert rapi mk)"
begin

lemma get_state_frame [keeps_rules]: "keeps (\<lambda>m. rtbl (mg_db m)) (get_state sapi now uid)"
  by (intro keeps_get_state states_frame)

lemma update_state_frame [keeps_rules]: "keeps (\<lambda>m. rtbl (mg_db m)) (update_state sapi now uid st)"
  by (intro keeps_update_state states_frame)

lemma track_flow_frame: "keeps (\<lambda>m. rtbl (mg_db m)) (track_flow sapi now uid guard fn)"
  unfolding track_flow_def by (auto intro!: keeps_rules split: sum.splits)

lemma track_flow_returns: "\<exists>m'. track_flow sapi now uid guard fn m = (Inr (), m')"
  by (auto simp: track_flow_def io_catch_def split: prod.splits sum.splits)

lemma of_result_frame [keeps_rules]: "keeps f (of_result r)"
  by (auto simp: of_result_def split: sum.splits intro: keeps_rules)

lemma track_created_frame: "keeps (\<lambda>m. rtbl (mg_db m)) (track_created sapi now uid rid mt multi purpose)"
  unfolding track_created_def by (intro keeps_rules)

lemma move_and_track_Inr:
  assumes run: "move_and_track rapi sapi now rid st f e guard fn m = (Inr r, m')" and f: "keeps_id f"
  obtains q where "rtbl (mg_db m) rid = Some q" "cr_status q = e" "st \<in> set (valid_status_next e)"
    "r = set_status now st f q" "rtbl (mg_db m') = (rtbl (mg_db m))(rid \<mapsto> r)"
proof -
  obtain d1 m1 where up: "update_connection_request_status rapi now rid st f (Some e) (mg_db m) = (Inr r, d1)"
    and tr: "track_flow sapi now (cr_initiator r) guard fn (m\<lparr>mg_db := d1\<rparr>) = (Inr (), m')"
    using run unfolding move_and_track_def io_bind_eq_Inr on_db_iff by auto
  have "rtbl (mg_db m') = rtbl d1" using keepsD [OF track_flow_frame tr] by simp
  with reqs.guarded_update_Inr [OF up f] that show thesis by metis
qed

lemma move_and_track_Inl:
  assumes run: "move_and_track rapi sapi now rid st f e guard fn m = (Inl err, m')" and f: "keeps_id f"
  shows "rtbl (mg_db m') = rtbl (mg_db m) \<or> (\<exists>msg. err = ApiFailure msg)
    \<and> (\<exists>q. rtbl (mg_db m) rid = Some q \<and> cr_status q = e \<and> st \<in> set (valid_status_next e)
        \<and> rtbl (mg_db m') = (rtbl (mg_db m))(rid \<mapsto> set_status now st f q))"
proof -
  obtain res d1 where up: "update_connection_request_status rapi now rid st f (Some e) (mg_db m) = (res, d1)"
    by fastforce
  have "res = Inl err \<and> mg_db m' = d1"
  proof (cases res)
    case (Inl e')
    with run up show ?thesis by (auto simp: move_and_track_def io_bind_def on_db_eq)
  next
    case (Inr r)
    obtain m1 where "track_flow sapi now (cr_initiator r) guard fn (m\<lparr>mg_db := d1\<rparr>) = (Inr (), m1)"
      using track_flow_returns by blast
    with run up Inr show ?thesis by (auto simp: move_and_track_def io_bind_def on_db_eq)
  qed
  with reqs.guarded_update_Inl [OF _ f] up show ?thesis by blast
qed

end

text \<open>The five operations on one request, with the status each moves from and to.\<close>

datatype hs_op = Confirm | Withdraw | Accept | Decline "string option" | MarkGroup string

fun run_hs :: "('db, conn_req) table_api \<Rightarrow> ('db, state_row) table_api \<Rightarrow> int \<Rightarrow> hs_op \<Rightarrow> string
    \<Rightarrow> ('db mgr, conn_error, conn_req) io" where
  "run_hs rapi sapi now Confirm rid = initiator_confirms rapi sapi now rid"
| "run_hs rapi sapi now Withdraw rid = initiator_cancels rapi sapi now rid"
| "run_hs rapi sapi now Accept rid = target_accepts rapi sapi now rid"
| "run_hs rapi sapi now (Decline reason) rid = target_declines rapi sapi now rid reason"
| "run_hs rapi sapi now (MarkGroup guid) rid = mark_group_created rapi sapi now rid guid"

fun op_from :: "hs_op \<Rightarrow> conn_status" where
  "op_from Confirm = CPendingInitiatorApproval"
| "op_from Withdraw = CPendingInitiatorApproval"
| "op_from Accept = CPendingTargetApproval"
| "op_from (Decline _) = CPendingTargetApproval"
| "op_from (MarkGroup _) = CTargetAccepted"

fun op_to :: "hs_op \<Rightarrow> conn_status" where
  "op_to Confirm = CPendingTargetApproval"
| "op_to Withdraw = CCancelled"
| "op_to Accept = CTargetAccepted"
| "op_to (Decline _) = CTargetDeclined"
| "op_to (MarkGroup _) = CGroupCreated"

fun op_fields :: "int \<Rightarrow> hs_op \<Rightarrow> conn_req \<Rightarrow> conn_req" where
  "op_fields now Confirm r = r\<lparr>cr_target_notified_at := Some now\<rparr>"
| "op_fields now Withdraw r = r"
| "op_fields now Accept r = r\<lparr>cr_target_responded_at := Some now\<rparr>"
| "op_fields now (Decline reason) r = (let r1 = r\<lparr>cr_target_responded_at := Some now\<rparr> in
     if truthy_str reason then r1\<lparr>cr_decline_reason := reason\<rparr> else r1)"
| "op_fields now (MarkGroup guid) r = r\<lparr>cr_group_chat_guid := Some guid, cr_group_created_at := Some now\<rparr>"

definition moved :: "int \<Rightarrow> hs_op \<Rightarrow> conn_req \<Rightarrow> conn_req" where
  "moved now op = set_status now (op_to op) (op_fields now op)"

lemma op_fields_keeps: "keeps_id (op_fields now op)"
  by (cases op) (auto simp: keeps_id_def Let_def)

lemma moved_fields: "cr_id (moved now op q) = cr_id q \<and> cr_status (moved now op q) = op_to op
    \<and> cr_initiator (moved now op q) = cr_initiator q \<and> cr_target (moved now op q) = cr_target q"
  by (cases op) (auto simp: moved_def set_status_def Let_def)

lemma run_hs_move: "\<exists>guard fn. run_hs rapi sapi now op rid
    = move_and_track rapi sapi now rid (op_to op) (op_fields now op) (op_from op) guard fn"
proof (cases op)
  case Confirm
  then show ?thesis unfolding initiator_confirms_def by (auto simp: initiator_confirms_def fun_eq_iff op_fields.simps [abs_def])
next
  case Withdraw
  then show ?thesis by (auto simp: initiator_cancels_def op_fields.simps [abs_def] id_def)
next
  case Accept
  then show ?thesis by (auto simp: target_accepts_def op_fields.simps [abs_def])
next
  case (Decline reason)
  then show ?thesis by (auto simp: target_declines_def op_fields.simps [abs_def])
next
  case (MarkGroup guid)
  then show ?thesis by (auto simp: mark_group_created_def op_fields.simps [abs_def])
qed

section \<open>How requests evolve\<close>

inductive status_path :: "conn_status \<Rightarrow> conn_status \<Rightarrow> bool" where
  path_refl: "status_path a a"
| path_step: "status_path a b \<Longrightarrow> c \<in> set (valid_status_next b) \<Longrightarrow> status_path a c"

lemma path_trans: "status_path b c \<Longrightarrow> status_path a b \<Longrightarrow> status_path a c"
  by (induction rule: status_path.induct) (auto intro: path_step)

lemma path_terminal: "status_path a b \<Longrightarrow> valid_status_next a = [] \<Longrightarrow> b = a"
  by (induction rule: status_path.induct) auto

text \<open>
  A row keeps its key and its two users, its status moves along valid transitions, and once the
  status is terminal the group chat is fixed.
\<close>

definition row_evolves :: "conn_req \<Rightarrow> conn_req \<Rightarrow> bool" where
  "row_evolves q q' \<longleftrightarrow> cr_id q' = cr_id q \<and> cr_initiator q' = cr_initiator q \<and> cr_target q' = cr_target q
     \<and> status_path (cr_status q) (cr_status q')
     \<and> (valid_status_next (cr_status q) = [] \<longrightarrow> cr_group_chat_guid q' = cr_group_chat_guid q)"

definition tbl_evolves :: "(string \<rightharpoonup> conn_req) \<Rightarrow> (string \<rightharpoonup> conn_req) \<Rightarrow> bool" where
  "tbl_evolves t t' \<longleftrightarrow> (\<forall>k q. t k = Some q \<longrightarrow> (\<exists>q'. t' k = Some q' \<and> row_evolves q q'))"

definition evolves :: "('s \<Rightarrow> string \<rightharpoonup> conn_req) \<Rightarrow> ('s, 'e, 'a) io \<Rightarrow> bool" where
  "evolves f m \<longleftrightarrow> (\<forall>s res s'. m s = (res, s') \<longrightarrow> tbl_evolves (f s) (f s'))"

named_theorems evolves_rules "composed calls whose requests evolve"

lemma row_evolves_refl: "row_evolves q q"
  by (simp add: row_evolves_def path_refl)

lemma row_evolves_trans: "row_evolves a b \<Longrightarrow> row_evolves b c \<Longrightarrow> row_evolves a c"
  unfolding row_evolves_def using path_trans path_terminal by metis

lemma tbl_evolves_refl: "tbl_evolves t t"
  by (auto simp: tbl_evolves_def row_evolves_refl)

lemma tbl_evolves_trans: "tbl_evolves a b \<Longrightarrow> tbl_evolves b c \<Longrightarrow> tbl_evolves a c"
  unfolding tbl_evolves_def using row_evolves_trans by blast

lemma tbl_evolves_upd: "t k = Some q \<Longrightarrow> row_evolves q q' \<Longrightarrow> tbl_evolves t (t(k \<mapsto> q'))"
  by (auto simp: tbl_evolves_def row_evolves_refl)

lemma tbl_evolves_new: "t k = None \<Longrightarrow> tbl_evolves t (t(k \<mapsto> q'))"
  by (auto simp: tbl_evolves_def row_evolves_refl)

lemma evolvesD: "evolves f m \<Longrightarrow> m s = (res, s') \<Longrightarrow> tbl_evolves (f s) (f s')"
  by (auto simp: evolves_def)

lemma evolves_keeps: "keeps f m \<Longrightarrow> evolves f m"
  by (auto simp: evolves_def tbl_evolves_refl dest: keepsD)

lemma evolves_Pair [evolves_rules]: "evolves f (Pair r)"
  by (simp add: evolves_keeps keeps_Pair)

lemma evolves_return [evolves_rules]: "evolves f (io_return x)"
  and evolves_raise [evolves_rules]: "evolves f (io_raise e)"
  by (simp_all add: evolves_keeps keeps_return keeps_raise)

lemma evolves_bind [evolves_rules]:
  assumes "evolves f m" and "\<And>x. evolves f (g x)"
  shows "evolves f (io_bind m g)"
  unfolding evolves_def
proof (intro allI impI)
  fix s res s'
  assume run: "io_bind m g s = (res, s')"
  obtain r1 s1 where m: "m s = (r1, s1)" by fastforce
  show "tbl_evolves (f s) (f s')"
  proof (cases r1)
    case (Inl e)
    with run m show ?thesis using evolvesD [OF assms(1) m] by (simp add: io_bind_def)
  next
    case (Inr x)
    with run m have "g x s1 = (res, s')" by (simp add: io_bind_def)
    then show ?thesis using evolvesD [OF assms(1) m] evolvesD [OF assms(2)] tbl_evolves_trans by blast
  qed
qed

lemma evolves_catch [evolves_rules]:
  assumes "evolves f m" and "\<And>e. evolves f (h e)"
  shows "evolves f (io_catch m h)"
  unfolding evolves_def
proof (intro allI impI)
  fix s res s'
  assume run: "io_catch m h s = (res, s')"
  obtain r1 s1 where m: "m s = (r1, s1)" by fastforce
  show "tbl_evolves (f s) (f s')"
  proof (cases r1)
    case (Inr x)
    with run m show ?thesis using evolvesD [OF assms(1) m] by (simp add: io_catch_def)
  next
    case (Inl e)
    with run m have "h e s1 = (res, s')" by (simp add: io_catch_def)
    then show ?thesis using evolvesD [OF assms(1) m] evolvesD [OF assms(2)] tbl_evolves_trans by blast
  qed
qed

lemma evolves_if [evolves_rules]: "evolves f m \<Longrightarrow> evolves f n \<Longrightarrow> evolves f (if b then m else n)"
  by simp

lemma evolves_on_db [evolves_rules]: "evolves f m \<Longrightarrow> evolves (\<lambda>s. f (mg_db s)) (on_db m)"
  by (auto simp: evolves_def on_db_iff)

lemma evolves_first_row [evolves_rules]: "evolves f (first_row e rs)"
  by (auto simp: first_row_def split: list.splits intro: evolves_rules)

lemma set_status_evolves:
  assumes "st \<in> set (valid_status_next (cr_status q))"
    and "\<And>r. cr_id (f r) = cr_id r \<and> cr_initiator (f r) = cr_initiator r \<and> cr_target (f r) = cr_target r
      \<and> cr_status (f r) = cr_status r"
  shows "row_evolves q (set_status now st f q)"
  using assms by (auto simp: row_evolves_def set_status_def intro: path_step path_refl)

text \<open>Field updates the handshake makes beside the status.\<close>

definition side_fields :: "(conn_req \<Rightarrow> conn_req) \<Rightarrow> bool" where
  "side_fields f \<longleftrightarrow> (\<forall>r. cr_id (f r) = cr_id r \<and> cr_initiator (f r) = cr_initiator r
     \<and> cr_target (f r) = cr_target r \<and> cr_status (f r) = cr_status r)"

lemma side_fields_keeps: "side_fields f \<Longrightarrow> keeps_id f"
  by (simp add: side_fields_def keeps_id_def)

lemma side_fields_op: "side_fields (op_fields now op)"
  by (cases op) (auto simp: side_fields_def Let_def)

context request_store
begin

lemma evolves_status_update:
  assumes f: "side_fields f"
  shows "evolves tbl (update_connection_request_status api now rid st f (Some e))"
  unfolding evolves_def
proof (intro allI impI)
  fix d res d'
  assume up: "update_connection_request_status api now rid st f (Some e) d = (res, d')"
  have ev: "row_evolves q (set_status now st f q)"
    if "cr_status q = e" "st \<in> set (valid_status_next e)" for q
    using that f by (intro set_status_evolves) (auto simp: side_fields_def)
  show "tbl_evolves (tbl d) (tbl d')"
  proof (cases res)
    case (Inl err)
    with guarded_update_Inl [OF _ side_fields_keeps [OF f]] up ev show ?thesis
      by (metis tbl_evolves_refl tbl_evolves_upd)
  next
    case (Inr r)
    with guarded_update_Inr [OF _ side_fields_keeps [OF f]] up ev show ?thesis
      by (metis tbl_evolves_upd)
  qed
qed

lemma keeps_get_connection_request [keeps_rules]: "keeps tbl (get_connection_request api rid)"
proof -
  have "keeps tbl (tb_select api P)" for P using select_frame by (auto simp: keeps_def)
  then show ?thesis unfolding get_connection_request_def by (intro keeps_rules)
qed

lemma evolves_exclude: "evolves tbl (add_excluded_candidate api now rid c)"
proof -
  have "evolves tbl (tb_update api (\<lambda>r. cr_id r = rid \<and> True) (\<lambda>r. r\<lparr>cr_excluded := ex, cr_updated_at := now\<rparr>))" for ex
    unfolding evolves_def
  proof (intro allI impI)
    fix d res d'
    assume up: "tb_update api (\<lambda>r. cr_id r = rid \<and> True) (\<lambda>r. r\<lparr>cr_excluded := ex, cr_updated_at := now\<rparr>) d = (res, d')"
    have ev: "row_evolves q (q\<lparr>cr_excluded := ex, cr_updated_at := now\<rparr>)" for q
      by (simp add: row_evolves_def path_refl)
    show "tbl_evolves (tbl d) (tbl d')"
    proof (cases res)
      case (Inl e)
      with update_key_err [of rid "\<lambda>_. True", OF up [unfolded Inl]] show ?thesis
        by (auto intro: tbl_evolves_refl tbl_evolves_upd [OF _ ev])
    next
      case (Inr rs)
      with update_key_ok [of rid "\<lambda>_. True", OF up [unfolded Inr]] show ?thesis
        by (auto intro: tbl_evolves_refl tbl_evolves_upd [OF _ ev] split: option.splits)
    qed
  qed
  then show ?thesis
    unfolding add_excluded_candidate_def io_lift_def
    by (auto intro!: evolves_rules evolves_keeps [OF keeps_get_connection_request] simp: Let_def split: option.splits)
qed

lemma evolves_create: "evolves tbl (create_connection_request api now i t sc rs intro co ex sg mm th pu cg)"
proof -
  let ?mk = "request_row now i t sc rs intro co ex sg mm th pu cg"
  have key: "cr_id (?mk k) = k" for k by (simp add: request_row_def Let_def)
  have "evolves tbl (tb_insert api ?mk)"
    unfolding evolves_def
  proof (intro allI impI)
    fix d res d'
    assume ins: "tb_insert api ?mk d = (res, d')"
    show "tbl_evolves (tbl d) (tbl d')"
    proof (cases res)
      case (Inl e)
      with insert_err [OF ins [unfolded Inl] key] show ?thesis
        by (auto intro: tbl_evolves_refl tbl_evolves_new)
    next
      case (Inr xs)
      with insert_ok [OF ins [unfolded Inr] key] show ?thesis by (auto intro: tbl_evolves_new)
    qed
  qed
  then show ?thesis
    unfolding create_connection_request_def io_lift_def by (intro evolves_rules)
qed

end

text \<open>Every operation of the manager lets the requests evolve.\<close>

context handshake_store
begin

lemma evolves_run_hs: "evolves (\<lambda>m. rtbl (mg_db m)) (run_hs rapi sapi now op rid)"
proof -
  obtain guard fn where eq: "run_hs rapi sapi now op rid
      = move_and_track rapi sapi now rid (op_to op) (op_fields now op) (op_from op) guard fn"
    using run_hs_move by blast
  show ?thesis
    unfolding eq move_and_track_def
    by (intro evolves_rules evolves_keeps [OF track_flow_frame] reqs.evolves_status_update side_fields_op)
qed

lemma evolves_different: "evolves (\<lambda>m. rtbl (mg_db m)) (initiator_requests_different rapi now rid t)"
  unfolding initiator_requests_different_def
  by (intro evolves_rules reqs.evolves_exclude reqs.evolves_status_update) (simp add: side_fields_def)

lemma evolves_create_request:
  "evolves (\<lambda>m. rtbl (mg_db m)) (create_request rapi sapi now i mt ex sg multi th pu cg)"
  unfolding create_request_def
  by (intro evolves_rules reqs.evolves_create evolves_keeps [OF track_created_frame])

lemma reqs_select_frame [keeps_rules]: "keeps rtbl (tb_select rapi P)"
  using reqs.select_frame by (auto simp: keeps_def)

lemma evolves_accept_multi: "evolves (\<lambda>m. rtbl (mg_db m)) (target_accepts_multi_match rapi now rid)"
  unfolding target_accepts_multi_match_def check_multi_match_ready_v1_def
  by (intro evolves_rules reqs.evolves_status_update evolves_keeps [OF reqs_select_frame])
    (simp add: side_fields_def)

lemma gather_frame:
  assumes "\<And>uid. keeps rtbl (get_user uid)"
  shows "keeps rtbl (gather_participants rapi get_user rids g)"
proof (induction rids arbitrary: g)
  case Nil
  then show ?case by (auto intro: keeps_rules)
next
  case (Cons rid rids)
  show ?case
    by (auto simp: Let_def intro!: keeps_rules reqs.keeps_get_connection_request assms Cons split: option.splits)
qed

lemma evolves_mark_all: "evolves rtbl (mark_all_created rapi now guid rids)"
proof (induction rids)
  case Nil
  then show ?case by (auto intro: evolves_rules)
next
  case (Cons rid rids)
  then show ?case
    by (auto intro!: evolves_bind reqs.evolves_status_update simp: side_fields_def)
qed

lemma evolves_multi_group:
  assumes "\<And>uid. keeps rtbl (get_user uid)" and "\<And>ps rs pu. keeps rtbl (provision ps rs pu)"
  shows "evolves (\<lambda>m. rtbl (mg_db m)) (create_multi_person_group rapi get_user provision now rids)"
  unfolding create_multi_person_group_def
  by (auto intro!: evolves_rules evolves_mark_all evolves_keeps [OF gather_frame]
      evolves_keeps [OF assms(1)] evolves_keeps [OF assms(2)] assms split: option.splits)

lemma member_names_frame:
  assumes "\<And>uid. keeps rtbl (get_user uid)"
  shows "keeps rtbl (member_names get_user joiner seen uids)"
  by (induction uids arbitrary: seen) (auto intro!: keeps_rules assms)

lemma evolves_late_joiner:
  assumes "\<And>uid. keeps rtbl (get_user uid)" and "\<And>g u r ns q. keeps rtbl (add_participant g u r ns q)"
  shows "evolves (\<lambda>m. rtbl (mg_db m)) (add_late_joiner_to_group rapi get_user add_participant now rid guid)"
  unfolding add_late_joiner_to_group_def
  by (auto intro!: evolves_rules reqs.evolves_status_update evolves_keeps [OF reqs.keeps_get_connection_request]
      evolves_keeps [OF assms(1)] evolves_keeps [OF assms(2)] evolves_keeps [OF keeps_lift [OF reqs_select_frame]]
      evolves_keeps [OF member_names_frame] assms simp: side_fields_def split: option.splits)

end

text \<open>
  A step of the system: some worker, with whatever cache, runs one operation of the manager at
  some time; other workers run in between, so the database is the only state steps share.
\<close>

inductive hs_step :: "('db, conn_req) table_api \<Rightarrow> (('db \<Rightarrow> string \<rightharpoonup> conn_req)) \<Rightarrow> ('db, state_row) table_api
    \<Rightarrow> 'db \<Rightarrow> 'db \<Rightarrow> bool"
  for rapi rtbl sapi where
  step_op: "run_hs rapi sapi now op rid \<lparr>mg_db = d, mg_cache = c\<rparr> = (res, m') \<Longrightarrow>
     hs_step rapi rtbl sapi d (mg_db m')"
| step_different: "initiator_requests_different rapi now rid t \<lparr>mg_db = d, mg_cache = c\<rparr> = (res, m') \<Longrightarrow>
     hs_step rapi rtbl sapi d (mg_db m')"
| step_create: "create_request rapi sapi now i mt ex sg multi th pu cg \<lparr>mg_db = d, mg_cache = c\<rparr> = (res, m') \<Longrightarrow>
     hs_step rapi rtbl sapi d (mg_db m')"
| step_accept_multi: "target_accepts_multi_match rapi now rid \<lparr>mg_db = d, mg_cache = c\<rparr> = (res2, m') \<Longrightarrow>
     hs_step rapi rtbl sapi d (mg_db m')"
| step_group: "(\<And>uid. keeps rtbl (get_user uid)) \<Longrightarrow> (\<And>ps rs pu. keeps rtbl (provision ps rs pu)) \<Longrightarrow>
     create_multi_person_group rapi get_user provision now rids \<lparr>mg_db = d, mg_cache = c\<rparr> = (res3, m') \<Longrightarrow>
     hs_step rapi rtbl sapi d (mg_db m')"
| step_join: "(\<And>uid. keeps rtbl (get_user uid)) \<Longrightarrow> (\<And>g u r ns q. keeps rtbl (add_participant g u r ns q)) \<Longrightarrow>
     add_late_joiner_to_group rapi get_user add_participant now rid guid \<lparr>mg_db = d, mg_cache = c\<rparr> = (res4, m') \<Longrightarrow>
     hs_step rapi rtbl sapi d (mg_db m')"

inductive hs_run :: "('db, conn_req) table_api \<Rightarrow> (('db \<Rightarrow> string \<rightharpoonup> conn_req)) \<Rightarrow> ('db, state_row) table_api
    \<Rightarrow> 'db \<Rightarrow> 'db \<Rightarrow> bool"
  for rapi rtbl sapi where
  run_none: "hs_run rapi rtbl sapi d d"
| run_step: "hs_run rapi rtbl sapi d d1 \<Longrightarrow> hs_step rapi rtbl sapi d1 d2 \<Longrightarrow> hs_run rapi rtbl sapi d d2"

context handshake_store
begin

lemma step_evolves: "hs_step rapi rtbl sapi d d' \<Longrightarrow> tbl_evolves (rtbl d) (rtbl d')"
proof (induction rule: hs_step.induct)
  case (step_op now op rid d c res m')
  from evolvesD [OF evolves_run_hs this] show ?case by simp
next
  case (step_different now rid t d c res m')
  from evolvesD [OF evolves_different this] show ?case by simp
next
  case (step_create now i mt ex sg multi th pu cg d c res m')
  from evolvesD [OF evolves_create_request this] show ?case by simp
next
  case (step_accept_multi now rid d c res2 m')
  from evolvesD [OF evolves_accept_multi this] show ?case by simp
next
  case (step_group get_user provision now rids d c res3 m')
  from evolvesD [OF evolves_multi_group [OF step_group(1,2)] step_group(3)] show ?case by simp
next
  case (step_join get_user add_participant now rid guid d c res4 m')
  from evolvesD [OF evolves_late_joiner [OF step_join(1,2)] step_join(3)] show ?case by simp
qed

lemma run_evolves: "hs_run rapi rtbl sapi d d' \<Longrightarrow> tbl_evolves (rtbl d) (rtbl d')"
  by (induction rule: hs_run.induct) (auto intro: tbl_evolves_refl tbl_evolves_trans step_evolves)

lemma run_hs_Inr:
  assumes "run_hs rapi sapi now op rid m = (Inr r, m')"
  shows "\<exists>q. rtbl (mg_db m) rid = Some q \<and> cr_status q = op_from op \<and> r = moved now op q
    \<and> rtbl (mg_db m') = (rtbl (mg_db m))(rid \<mapsto> r)"
proof -
  obtain guard fn where eq: "run_hs rapi sapi now op rid
      = move_and_track rapi sapi now rid (op_to op) (op_fields now op) (op_from op) guard fn"
    using run_hs_move by blast
  show ?thesis
    using move_and_track_Inr [OF assms [unfolded eq] op_fields_keeps] unfolding moved_def by metis
qed

lemma run_hs_refused:
  assumes run: "run_hs rapi sapi now op rid m = (res, m')"
    and "\<And>q. rtbl (mg_db m) rid = Some q \<Longrightarrow> cr_status q \<noteq> op_from op"
  shows "(\<exists>e. res = Inl e) \<and> rtbl (mg_db m') = rtbl (mg_db m)"
proof -
  obtain guard fn where eq: "run_hs rapi sapi now op rid
      = move_and_track rapi sapi now rid (op_to op) (op_fields now op) (op_from op) guard fn"
    using run_hs_move by blast
  show ?thesis
  proof (cases res)
    case (Inl e)
    with move_and_track_Inl [OF run [unfolded eq Inl] op_fields_keeps] assms(2) show ?thesis by blast
  next
    case (Inr r)
    with run_hs_Inr [of now op rid m r m'] run assms(2) show ?thesis by blast
  qed
qed

lemma mark_all_Inr:
  assumes "mark_all_created rapi now guid rids d = (Inr u, d')"
  shows "distinct rids \<and> (\<forall>rid \<in> set rids. \<exists>q q'. rtbl d rid = Some q \<and> cr_status q = CTargetAccepted
      \<and> rtbl d' rid = Some q' \<and> cr_status q' = CGroupCreated \<and> cr_group_chat_guid q' = Some guid
      \<and> cr_multi_chat_guid q' = Some guid)
    \<and> (\<forall>k. k \<notin> set rids \<longrightarrow> rtbl d' k = rtbl d k)"
  using assms
proof (induction rids arbitrary: d)
  case Nil
  then show ?case by simp
next
  case (Cons rid rids)
  let ?f = "\<lambda>r. r\<lparr>cr_group_chat_guid := Some guid, cr_multi_chat_guid := Some guid, cr_group_created_at := Some now\<rparr>"
  obtain r d1 where up: "update_connection_request_status rapi now rid CGroupCreated ?f (Some CTargetAccepted) d
      = (Inr r, d1)" and rest: "mark_all_created rapi now guid rids d1 = (Inr u, d')"
    using Cons.prems by (auto simp: io_bind_eq_Inr)
  have "keeps_id ?f" by (simp add: keeps_id_def)
  from reqs.guarded_update_Inr [OF up this] obtain q where q: "rtbl d rid = Some q" "cr_status q = CTargetAccepted"
    "r = set_status now CGroupCreated ?f q" "rtbl d1 = (rtbl d)(rid \<mapsto> r)" by metis
  note IH = Cons.IH [OF rest]
  have new: "rid \<notin> set rids"
    using IH q by (force simp: set_status_def)
  have others: "rtbl d1 k = rtbl d k" if "k \<in> set rids" for k using new that q by auto
  have head: "rtbl d' rid = Some r" using IH new q by simp
  show ?case
  proof (intro conjI ballI allI impI)
    show "distinct (rid # rids)" using IH new by simp
  next
    fix k
    assume "k \<in> set (rid # rids)"
    then show "\<exists>q q'. rtbl d k = Some q \<and> cr_status q = CTargetAccepted \<and> rtbl d' k = Some q'
        \<and> cr_status q' = CGroupCreated \<and> cr_group_chat_guid q' = Some guid \<and> cr_multi_chat_guid q' = Some guid"
      using IH others [of k] head q by (cases "k = rid") (auto simp: set_status_def)
  next
    fix k
    assume "k \<notin> set (rid # rids)"
    then show "rtbl d' k = rtbl d k" using IH q by simp
  qed
qed

lemma multi_group_Inr:
  assumes users: "\<And>uid. keeps rtbl (get_user uid)" and prov: "\<And>ps rs pu. keeps rtbl (provision ps rs pu)"
    and run: "create_multi_person_group rapi get_user provision now rids m = (Inr (guid, ps), m')"
  shows "2 \<le> length ps \<and> distinct rids \<and> (\<forall>rid \<in> set rids. \<exists>q q'. rtbl (mg_db m) rid = Some q
      \<and> cr_status q = CTargetAccepted \<and> rtbl (mg_db m') rid = Some q' \<and> cr_status q' = CGroupCreated
      \<and> cr_group_chat_guid q' = Some guid \<and> cr_multi_chat_guid q' = Some guid)
    \<and> (\<forall>k. k \<notin> set rids \<longrightarrow> rtbl (mg_db m') k = rtbl (mg_db m) k)"
proof -
  obtain g d1 d2 d3 u d4 where ga: "gather_participants rapi get_user rids empty_gathering (mg_db m) = (Inr g, d1)"
    and iu: "(case ga_initiator g of None \<Rightarrow> io_return (ga_participants g)
        | Some uid \<Rightarrow> if uid = [] then io_return (ga_participants g)
            else io_bind (get_user uid) (\<lambda>iu. io_return (case iu of None \<Rightarrow> ga_participants g
              | Some u \<Rightarrow> \<lparr>pt_user_id = uid, pt_phone = ur_phone u, pt_name = ur_name u,
                  pt_is_initiator = True, pt_request_id = None\<rparr> # ga_participants g))) d1 = (Inr ps, d2)"
    and len: "2 \<le> length ps" and pr: "provision ps (ga_reasons g) (ga_purpose g) d2 = (Inr guid, d3)"
    and mk: "mark_all_created rapi now guid rids d3 = (Inr u, d4)" and m': "m' = m\<lparr>mg_db := d4\<rparr>"
    using run unfolding create_multi_person_group_def on_db_iff io_bind_eq_Inr
    by (auto simp: io_bind_eq_Inr split: if_splits)
  have "rtbl d1 = rtbl (mg_db m)" by (rule keepsD [OF gather_frame [OF users] ga])
  moreover have "rtbl d2 = rtbl d1"
    using iu by (rule keepsD [rotated]) (auto intro!: keeps_rules users split: option.splits)
  moreover have "rtbl d3 = rtbl d2" by (rule keepsD [OF prov pr])
  ultimately show ?thesis using mark_all_Inr [OF mk] len m' by simp
qed

end

context handshake_store
begin

text \<open>
  From an idle flow, \<open>create_request\<close> takes two transitions and writes once, so the version it
  writes is two above the stored one.
\<close>

lemma track_created_idle:
  assumes cache: "mg_cache m uid = None"
    and sel: "tb_select sapi (\<lambda>r. sr_user r = uid) (mg_db m) = (Inr rs, d1)"
    and dec: "decode_stored now uid (map_option sr_data (stbl (mg_db m) uid)) = Inr st"
    and idle: "ns_flow st = Idle" and ver: "0 \<le> ns_version st"
    and run: "track_created sapi now uid rid mt multi purpose m = (res, m')"
  shows "stbl (mg_db m') = stbl (mg_db m) \<and> res \<noteq> Inr True"
proof -
  let ?m1 = "m\<lparr>mg_db := d1, mg_cache := (mg_cache m)(uid \<mapsto> st)\<rparr>"
  have get: "get_state sapi now uid m = (Inr st, ?m1)"
    using cache states.get_networking_state_ok [OF sel] dec
    by (simp add: get_state_def io_bind_def on_db_def put_cache_def)
  have d1: "stbl d1 = stbl (mg_db m)" using sel by (rule states.select_frame)
  obtain st1 where st1: "start_matching now uid st = Inr st1" "ns_flow st1 = Matching"
      "ns_version st1 = ns_version st + 1"
    using idle by (simp add: start_matching_def transition_to_def)
  have ex1: "\<exists>s2. with_match now rid t ds p st1 = Inr s2 \<and> ns_version s2 = ns_version st1 + 1"
    and ex2: "\<exists>s2. with_multi_match now rids ts dl p st1 = Inr s2 \<and> ns_version s2 = ns_version st1 + 1"
    for t ds p rids ts dl
    using st1(2) by (simp_all add: with_match_def with_multi_match_def transition_to_def)
  have "track_created sapi now uid rid mt multi purpose m
      = io_bind (if multi
              then of_result (with_multi_match now (opt_list (ns_request_ids st1) @ [rid])
                     (opt_list (ns_target_ids st1) @ [mr_target_user_id mt])
                     (opt_list (ns_match_details st1) @ [match_details_of mt]) purpose st1)
              else of_result (with_match now rid (mr_target_user_id mt) (match_details_of mt) purpose st1))
       (\<lambda>s2. update_state sapi now uid s2) ?m1"
    using get idle st1(1) by (simp add: track_created_def io_bind_def is_terminal_def of_result_def)
  note body = this
  have "\<exists>st2. update_state sapi now uid st2 ?m1 = (res, m') \<and> ns_version st2 = ns_version st1 + 1"
  proof (cases multi)
    case True
    obtain s2 where "with_multi_match now (opt_list (ns_request_ids st1) @ [rid])
        (opt_list (ns_target_ids st1) @ [mr_target_user_id mt])
        (opt_list (ns_match_details st1) @ [match_details_of mt]) purpose st1 = Inr s2"
      "ns_version s2 = ns_version st1 + 1" using ex2 by blast
    with body run True show ?thesis by (auto simp: of_result_def io_bind_def)
  next
    case False
    obtain s2 where "with_match now rid (mr_target_user_id mt) (match_details_of mt) purpose st1 = Inr s2"
      "ns_version s2 = ns_version st1 + 1" using ex1 by blast
    with body run False show ?thesis by (auto simp: of_result_def io_bind_def)
  qed
  then obtain st2 where upd: "update_state sapi now uid st2 ?m1 = (res, m')"
    and v2: "ns_version st2 = ns_version st1 + 1" by blast
  have st2: "ns_version st2 = ns_version st + 2" using v2 st1(3) by simp
  have "ns_version st = (case stbl (mg_db m) uid of None \<Rightarrow> 0 | Some r \<Rightarrow> get_version (sr_data r))"
    using decode_version [OF dec] by (simp split: option.splits)
  then have "\<And>r. stbl (mg_db ?m1) uid = Some r \<Longrightarrow> ns_version st2 \<noteq> get_version (sr_data r) + 1"
    using st2 d1 by auto
  with states.update_state_misfit [OF upd] st2 ver d1 show ?thesis by simp
qed

end

section \<open>An in-memory database with both tables\<close>

record world =
  w_reqs :: "conn_req mem_table"
  w_states :: "state_row mem_table"

abbreviation w_rapi :: "(world, conn_req) table_api" where
  "w_rapi \<equiv> mem_api cr_id w_reqs (\<lambda>t w. w\<lparr>w_reqs := t\<rparr>)"

abbreviation w_sapi :: "(world, state_row) table_api" where
  "w_sapi \<equiv> mem_api sr_user w_states (\<lambda>t w. w\<lparr>w_states := t\<rparr>)"

abbreviation w_rtbl :: "world \<Rightarrow> string \<rightharpoonup> conn_req" where
  "w_rtbl \<equiv> mem_tbl cr_id w_reqs"

abbreviation w_stbl :: "world \<Rightarrow> string \<rightharpoonup> state_row" where
  "w_stbl \<equiv> mem_tbl sr_user w_states"

interpretation hw: handshake_store w_rapi w_rtbl w_sapi w_stbl
proof -
  have "request_store w_rapi w_rtbl" by (intro request_store.intro mem_store) simp
  moreover have "state_store w_sapi w_stbl" by (intro state_store.intro mem_store) simp
  moreover have "handshake_store_axioms w_rapi w_rtbl w_sapi w_stbl"
    by unfold_locales
      (auto simp: keeps_def mem_api_def mem_call_def mem_tbl_def split: if_splits prod.splits)
  ultimately show "handshake_store w_rapi w_rtbl w_sapi w_stbl"
    by (rule handshake_store.intro)
qed

definition sample_id :: string where
  "sample_id = replicate 32 CHR ''a''"

definition sample_req :: "conn_status \<Rightarrow> conn_req" where
  "sample_req st = (request_row 0 ''u'' ''t'' None None None None None None False 1 None None sample_id)
     \<lparr>cr_status := st\<rparr>"

definition sample_world :: "conn_status \<Rightarrow> world mgr" where
  "sample_world st = \<lparr>mg_db = \<lparr>w_reqs = \<lparr>mt_rows = [sample_req st], mt_down = False\<rparr>,
     w_states = \<lparr>mt_rows = [], mt_down = False\<rparr>\<rparr>, mg_cache = Map.empty\<rparr>"

lemma valid_sample_id [simp]: "valid_uuid sample_id"
  by (simp add: sample_id_def valid_uuid_sample)

lemmas hs_eval = run_hs.simps initiator_confirms_def initiator_cancels_def target_accepts_def
  target_declines_def mark_group_created_def move_and_track_def track_flow_def
  update_connection_request_status_def first_row_def sample_world_def sample_req_def request_row_def

section \<open>Properties\<close>

text \<open>A successful handshake operation (confirm, cancel, accept, decline, mark the group)
  found the request in exactly the status it expects, stored the request it returns in the
  status it leads to, with the fields of that operation, and changed no other request.\<close>

theorem handshake_op_moves_one_request:
  assumes "handshake_store rapi rtbl sapi stbl" and "run_hs rapi sapi now op rid m = (Inr r, m')"
  shows "\<exists>q. rtbl (mg_db m) rid = Some q \<and> cr_status q = op_from op
    \<and> r = op_fields now op (q\<lparr>cr_status := op_to op, cr_updated_at := now\<rparr>)
    \<and> rtbl (mg_db m') = (rtbl (mg_db m))(rid \<mapsto> r)"
  using handshake_store.run_hs_Inr [OF assms] by (simp add: moved_def set_status_def)

lemma sample_accept: "run_hs w_rapi w_sapi 9 Accept sample_id (sample_world CPendingTargetApproval) =
    (Inr ((sample_req CTargetAccepted)\<lparr>cr_updated_at := 9, cr_target_responded_at := Some 9\<rparr>),
     (sample_world CTargetAccepted)\<lparr>mg_db := (mg_db (sample_world CTargetAccepted))\<lparr>w_reqs :=
        \<lparr>mt_rows = [(sample_req CTargetAccepted)\<lparr>cr_updated_at := 9, cr_target_responded_at := Some 9\<rparr>],
         mt_down = False\<rparr>\<rparr>, mg_cache := [''u'' \<mapsto> new_state 9 (Some ''u'')]\<rparr>)"
  by (simp add: hs_eval mem_eval io_bind_def io_lift_def io_catch_def on_db_def get_state_def
      get_networking_state_def put_cache_def decode_stored_def new_state_def)

theorem handshake_op_moves_one_request_witness:
  "\<exists>q. w_rtbl (mg_db (sample_world CPendingTargetApproval)) sample_id = Some q
    \<and> cr_status q = CPendingTargetApproval"
  using handshake_op_moves_one_request [OF hw.handshake_store_axioms sample_accept]
  by (metis op_from.simps(3))

text \<open>C5: No double answer: once an operation on a request has succeeded, a second one that
  expects the same status (a double tap, a webhook retry, an accept racing a decline) raises,
  and leaves every request as the first one stored it, in whatever worker it runs.\<close>

theorem second_answer_is_refused:
  assumes "handshake_store rapi rtbl sapi stbl"
    and "run_hs rapi sapi now op rid m = (Inr r, m1)"
    and "op_from op' = op_from op"
    and "run_hs rapi sapi now' op' rid \<lparr>mg_db = mg_db m1, mg_cache = c\<rparr> = (res, m2)"
  shows "(\<exists>e. res = Inl e) \<and> rtbl (mg_db m2) = rtbl (mg_db m1) \<and> rtbl (mg_db m2) rid = Some r"
proof -
  obtain q where q: "r = moved now op q" "rtbl (mg_db m1) rid = Some r"
    using handshake_store.run_hs_Inr [OF assms(1,2)] by auto
  have "cr_status r \<noteq> op_from op'" using q assms(3) by (cases op) (auto simp: moved_fields)
  with handshake_store.run_hs_refused [OF assms(1,4)] q show ?thesis by auto
qed

theorem second_answer_is_refused_witness:
  "(\<exists>e. fst (run_hs w_rapi w_sapi 11 (Decline None) sample_id
      \<lparr>mg_db = mg_db (snd (run_hs w_rapi w_sapi 9 Accept sample_id (sample_world CPendingTargetApproval))),
       mg_cache = Map.empty\<rparr>) = Inl e)"
  using second_answer_is_refused [OF hw.handshake_store_axioms sample_accept _ prod.collapse [symmetric],
      of "Decline None" 11 Map.empty]
  by (simp add: sample_accept del: run_hs.simps)



text \<open>C9: A multi-person group that \<open>create_multi_person_group\<close> reports as created has at least two
  participants, and every accepted request, each listed once, went from TARGET_ACCEPTED to
  GROUP_CREATED with the GUID of that chat; no other request changed.\<close>

theorem multi_person_group_marks_all:
  assumes "handshake_store rapi rtbl sapi stbl"
    and "\<And>uid. keeps rtbl (get_user uid)" and "\<And>ps rs pu. keeps rtbl (provision ps rs pu)"
    and "create_multi_person_group rapi get_user provision now rids m = (Inr (guid, ps), m')"
  shows "2 \<le> length ps \<and> distinct rids \<and> (\<forall>rid \<in> set rids. \<exists>q q'. rtbl (mg_db m) rid = Some q
      \<and> cr_status q = CTargetAccepted \<and> rtbl (mg_db m') rid = Some q' \<and> cr_status q' = CGroupCreated
      \<and> cr_group_chat_guid q' = Some guid \<and> cr_multi_chat_guid q' = Some guid)
    \<and> (\<forall>k. k \<notin> set rids \<longrightarrow> rtbl (mg_db m') k = rtbl (mg_db m) k)"
  using assms by (rule handshake_store.multi_group_Inr)

definition sample_user :: "string \<Rightarrow> (world, conn_error, user_row option) io" where
  "sample_user uid = io_return (Some \<lparr>ur_name = Some uid, ur_phone = Some ''+15551234567''\<rparr>)"

definition sample_provision :: "participant list \<Rightarrow> string list \<Rightarrow> string option \<Rightarrow> (world, conn_error, string) io" where
  "sample_provision ps rs pu = io_return ''chat1''"

theorem multi_person_group_marks_all_witness:
  "\<exists>q'. w_rtbl (mg_db (snd (create_multi_person_group w_rapi sample_user sample_provision 9 [sample_id]
      (sample_world CTargetAccepted)))) sample_id = Some q' \<and> cr_status q' = CGroupCreated"
proof -
  let ?run = "create_multi_person_group w_rapi sample_user sample_provision 9 [sample_id] (sample_world CTargetAccepted)"
  have "\<exists>ps. fst ?run = Inr (''chat1'', ps)"
    by (simp add: create_multi_person_group_def hs_eval mem_eval io_bind_def io_lift_def io_catch_def on_db_def
        get_connection_request_def sample_user_def sample_provision_def empty_gathering_def)
  then obtain ps where "?run = (Inr (''chat1'', ps), snd ?run)" by (metis prod.collapse)
  from multi_person_group_marks_all [OF hw.handshake_store_axioms _ _ this] show ?thesis
    by (auto simp: sample_user_def sample_provision_def keeps_return)
qed

text \<open>The flow of a new request is never recorded: for an initiator whose stored flow is idle,
  the tracking in \<open>create_request\<close> makes two transitions and one update, so the version it offers
  is two above the stored one; \<open>update_state\<close> refuses it and the table stays as it was.\<close>

theorem create_request_never_tracks_idle_user:
  assumes "handshake_store rapi rtbl sapi stbl" and "mg_cache m uid = None"
    and "tb_select sapi (\<lambda>r. sr_user r = uid) (mg_db m) = (Inr rs, d1)"
    and "decode_stored now uid (map_option sr_data (stbl (mg_db m) uid)) = Inr st"
    and "ns_flow st = Idle" and "0 \<le> ns_version st"
    and "track_created sapi now uid rid mt multi purpose m = (res, m')"
  shows "stbl (mg_db m') = stbl (mg_db m) \<and> res \<noteq> Inr True"
  using assms by (rule handshake_store.track_created_idle)

definition sample_match :: match_result where
  "sample_match = \<lparr>mr_target_user_id = ''t'', mr_target_name = ''T'', mr_match_score = 90,
     mr_matching_reasons = [''ai''], mr_llm_introduction = None, mr_llm_concern = None\<rparr>"

theorem create_request_never_tracks_idle_user_witness:
  "w_stbl (mg_db (snd (track_created w_sapi 9 ''u'' ''r'' sample_match False None
      (sample_world CPendingInitiatorApproval)))) = Map.empty"
proof -
  obtain res m' where run: "track_created w_sapi 9 ''u'' ''r'' sample_match False None
      (sample_world CPendingInitiatorApproval) = (res, m')" by fastforce
  have "w_stbl (mg_db m') = w_stbl (mg_db (sample_world CPendingInitiatorApproval)) \<and> res \<noteq> Inr True"
  proof (rule create_request_never_tracks_idle_user [OF hw.handshake_store_axioms _ _ _ _ _ run])
    show "mg_cache (sample_world CPendingInitiatorApproval) ''u'' = None"
      and "tb_select w_sapi (\<lambda>r. sr_user r = ''u'') (mg_db (sample_world CPendingInitiatorApproval))
        = (Inr [], mg_db (sample_world CPendingInitiatorApproval))"
      and "decode_stored 9 ''u'' (map_option sr_data (w_stbl (mg_db (sample_world CPendingInitiatorApproval)) ''u''))
        = Inr (new_state 9 (Some ''u''))"
      by (simp_all add: sample_world_def mem_eval decode_stored_def)
    show "ns_flow (new_state 9 (Some ''u'')) = Idle" and "0 \<le> ns_version (new_state 9 (Some ''u''))"
      by (simp_all add: new_state_def)
  qed
  with run show ?thesis by (simp add: sample_world_def mem_eval)
qed

end
