(* ===== verification/Partition_Tracker.thy ===== *)
theory Partition_Tracker
  imports Frank_Prelude
begin

text \<open>
  The offset bookkeeping of \<open>KafkaInboundConsumer\<close> in app/integrations/kafka_pipeline.py with
  keyed concurrency on (the default): one \<open>_PartitionTracker\<close> per partition, records of the
  partition processed concurrently, commits only up to the first offset that is not completed,
  pausing and resuming by the commit gap, generations against stale tasks after a rebalance,
  and the per-key locks. The Kafka client is not under src/: whether a commit, a pause or a
  resume succeeds is an input of each step.
\<close>

section \<open>The tracker\<close>

record tracker =
  tk_last_committed :: int
  tk_initialized :: bool
  tk_completed :: "int list" \<comment> \<open>a set; the list has no duplicates\<close>
  tk_inflight :: "int list"
  tk_max_seen :: int
  tk_paused :: bool
  tk_generation :: nat

definition new_tracker :: tracker where
  "new_tracker = \<lparr>tk_last_committed = -1, tk_initialized = False, tk_completed = [],
     tk_inflight = [], tk_max_seen = -1, tk_paused = False, tk_generation = 0\<rparr>"

definition set_add :: "int \<Rightarrow> int list \<Rightarrow> int list" where
  "set_add x xs = (if x \<in> set xs then xs else x # xs)"

text \<open>\<open>while candidate in tracker.completed: candidate += 1\<close>\<close>

function first_gap :: "int list \<Rightarrow> int \<Rightarrow> int" where
  "first_gap ds c = (if c \<in> set ds then first_gap ds (c + 1) else c)"
  by pat_completeness auto
termination
proof (relation "measure (\<lambda>(ds, c). card {x \<in> set ds. c \<le> x})", goal_cases)
  case (2 ds c)
  then have "c \<in> {x \<in> set ds. c \<le> x} - {x \<in> set ds. c + 1 \<le> x}" by simp
  moreover have "{x \<in> set ds. c + 1 \<le> x} \<subseteq> {x \<in> set ds. c \<le> x}" by auto
  ultimately have "{x \<in> set ds. c + 1 \<le> x} \<subset> {x \<in> set ds. c \<le> x}" by blast
  then show ?case by (simp add: psubset_card_mono)
qed simp

declare first_gap.simps [simp del]

text \<open>
  \<open>_advance_commit_locked\<close>: the new tracker, and the offset of the commit call it makes, if it
  makes one. \<open>ok\<close> says whether that call succeeds.
\<close>

definition advance_commit :: "bool \<Rightarrow> bool \<Rightarrow> bool \<Rightarrow> tracker \<Rightarrow> tracker \<times> int option" where
  "advance_commit alive assigned ok tr =
     (if \<not> alive \<or> \<not> assigned then (tr, None)
      else let new_last = first_gap (tk_completed tr) (tk_last_committed tr + 1) - 1 in
        if new_last \<le> tk_last_committed tr then (tr, None)
        else if \<not> ok then (tr, Some (new_last + 1))
        else (tr\<lparr>tk_last_committed := new_last,
                 tk_completed := filter (\<lambda>o'. \<not> (tk_last_committed tr + 1 \<le> o' \<and> o' \<le> new_last)) (tk_completed tr)\<rparr>,
              Some (new_last + 1)))"

definition gap_depth :: "tracker \<Rightarrow> int" where
  "gap_depth tr = (if tk_max_seen tr < tk_last_committed tr then 0
     else max 0 (tk_max_seen tr - tk_last_committed tr))"

record flow_cfg =
  fc_max_gap :: int
  fc_resume_at :: int

definition adjust_flow :: "flow_cfg \<Rightarrow> bool \<Rightarrow> bool \<Rightarrow> bool \<Rightarrow> tracker \<Rightarrow> tracker" where
  "adjust_flow cfg alive assigned ok tr =
     (if \<not> alive \<or> \<not> assigned then tr
      else if fc_max_gap cfg < gap_depth tr \<and> \<not> tk_paused tr
      then (if ok then tr\<lparr>tk_paused := True\<rparr> else tr)
      else if tk_paused tr \<and> gap_depth tr \<le> fc_resume_at cfg
      then (if ok then tr\<lparr>tk_paused := False\<rparr> else tr)
      else tr)"

text \<open>The two critical sections of \<open>_handle_record\<close>.\<close>

definition begin_record :: "int \<Rightarrow> tracker \<Rightarrow> tracker \<times> nat" where
  "begin_record off tr =
     (let tr1 = (if tk_initialized tr then tr else tr\<lparr>tk_last_committed := off - 1, tk_initialized := True\<rparr>);
          tr2 = tr1\<lparr>tk_inflight := set_add off (tk_inflight tr1), tk_max_seen := max (tk_max_seen tr1) off\<rparr>
      in (tr2, tk_generation tr2))"

definition finish_record :: "flow_cfg \<Rightarrow> bool \<Rightarrow> bool \<Rightarrow> bool \<Rightarrow> bool \<Rightarrow> int \<Rightarrow> nat \<Rightarrow> bool \<Rightarrow> tracker
    \<Rightarrow> tracker \<times> int option" where
  "finish_record cfg alive assigned commit_ok flow_ok off task_generation handled tr =
     (let tr1 = tr\<lparr>tk_inflight := removeAll off (tk_inflight tr)\<rparr> in
      if task_generation \<noteq> tk_generation tr1 then (tr1, None)
      else let tr2 = (if handled then tr1\<lparr>tk_completed := set_add off (tk_completed tr1)\<rparr> else tr1);
               (tr3, call) = advance_commit alive assigned commit_ok tr2
           in (adjust_flow cfg alive assigned flow_ok tr3, call))"

definition bump_generation :: "tracker \<Rightarrow> tracker" where
  "bump_generation tr = tr\<lparr>tk_generation := tk_generation tr + 1\<rparr>"

definition reassigned :: "tracker \<Rightarrow> tracker" where
  "reassigned tr = tr\<lparr>tk_generation := tk_generation tr + 1, tk_paused := False\<rparr>"

section \<open>All partitions\<close>

type_synonym tp = "string \<times> nat"

record consumer =
  co_alive :: bool
  co_snapshot :: "tp list"
  co_trackers :: "tp \<rightharpoonup> tracker"

definition get_tracker :: "tp \<Rightarrow> (tp \<rightharpoonup> tracker) \<Rightarrow> tracker" where
  "get_tracker tp trs = (case trs tp of None \<Rightarrow> new_tracker | Some tr \<Rightarrow> tr)"

definition reconcile_assignments :: "bool \<Rightarrow> tp list \<Rightarrow> consumer \<Rightarrow> consumer" where
  "reconcile_assignments keyed current co =
     (if \<not> keyed \<or> \<not> co_alive co then co
      else if set current = set (co_snapshot co) then co
      else co\<lparr>co_snapshot := current,
        co_trackers := (\<lambda>tp.
          if tp \<in> set (co_snapshot co) - set current then map_option reassigned (co_trackers co tp)
          else if tp \<in> set current - set (co_snapshot co) then Some (reassigned (get_tracker tp (co_trackers co)))
          else co_trackers co tp)\<rparr>)"

text \<open>
  \<open>_restart_for_auth_error\<close>, when not closing: every generation is bumped, the assignment is
  forgotten, and new clients are started; \<open>current\<close> is the assignment of the new consumer.
\<close>

definition restart_for_auth_error :: "bool \<Rightarrow> bool \<Rightarrow> tp list \<Rightarrow> consumer \<Rightarrow> consumer" where
  "restart_for_auth_error closing keyed current co =
     (if closing then co
      else let co1 = (if keyed then co\<lparr>co_trackers := map_option bump_generation \<circ> co_trackers co\<rparr> else co);
               co2 = co1\<lparr>co_snapshot := [], co_alive := True\<rparr>
           in if keyed then reconcile_assignments keyed current co2 else co2)"

definition drain_partition :: "bool \<Rightarrow> consumer \<Rightarrow> tp \<Rightarrow> consumer \<times> int option" where
  "drain_partition ok co tp = (case co_trackers co tp of
     None \<Rightarrow> (co, None)
   | Some tr \<Rightarrow> (case advance_commit (co_alive co) (tp \<in> set (co_snapshot co)) ok tr of
       (tr', call) \<Rightarrow> (co\<lparr>co_trackers := (co_trackers co)(tp \<mapsto> tr')\<rparr>, call)))"

text \<open>\<open>stop\<close>: the final commits over the tracked partitions, then everything is dropped.\<close>

fun drain_and_finalize :: "(tp \<Rightarrow> bool) \<Rightarrow> tp list \<Rightarrow> consumer \<Rightarrow> consumer \<times> (tp \<times> int) list" where
  "drain_and_finalize ok [] co = (co, [])"
| "drain_and_finalize ok (tp # tps) co = (case drain_partition (ok tp) co tp of
     (co1, call) \<Rightarrow> (case drain_and_finalize ok tps co1 of
       (co2, calls) \<Rightarrow> (co2, (case call of None \<Rightarrow> [] | Some c \<Rightarrow> [(tp, c)]) @ calls)))"

definition stop_consumer :: "(tp \<Rightarrow> bool) \<Rightarrow> bool \<Rightarrow> tp list \<Rightarrow> consumer \<Rightarrow> consumer \<times> (tp \<times> int) list" where
  "stop_consumer ok keyed tps co =
     (let (co1, calls) = (if keyed then drain_and_finalize ok tps co else (co, []))
      in (\<lparr>co_alive = False, co_snapshot = [], co_trackers = Map.empty\<rparr>, calls))"

section \<open>Key locks\<close>

text \<open>Lock objects are numbered; \<open>held\<close> says which are locked.\<close>

record key_locks =
  kl_locks :: "(string \<times> nat) list"
  kl_last_used :: "string \<rightharpoonup> int"
  kl_next :: nat

text \<open>A key in \<open>to_delete\<close>: not used since the cutoff, with a lock that nobody holds.\<close>

definition idle_key :: "int \<Rightarrow> int \<Rightarrow> (nat \<Rightarrow> bool) \<Rightarrow> key_locks \<Rightarrow> string \<Rightarrow> bool" where
  "idle_key now ttl held kl k \<longleftrightarrow> (case kl_last_used kl k of None \<Rightarrow> False | Some t \<Rightarrow> t < now - ttl)
     \<and> (case map_of (kl_locks kl) k of None \<Rightarrow> False | Some l \<Rightarrow> \<not> held l)"

definition evict_idle_key_locks :: "int \<Rightarrow> int \<Rightarrow> (nat \<Rightarrow> bool) \<Rightarrow> key_locks \<Rightarrow> key_locks" where
  "evict_idle_key_locks now ttl held kl =
     kl\<lparr>kl_locks := filter (\<lambda>(k, l). \<not> idle_key now ttl held kl k) (kl_locks kl),
        kl_last_used := (\<lambda>k. if idle_key now ttl held kl k then None else kl_last_used kl k)\<rparr>"

definition get_key_lock :: "int \<Rightarrow> int \<Rightarrow> nat \<Rightarrow> (nat \<Rightarrow> bool) \<Rightarrow> string \<Rightarrow> key_locks \<Rightarrow> nat \<times> key_locks" where
  "get_key_lock now ttl max_locks held key kl =
     (case map_of (kl_locks kl) key of
        Some l \<Rightarrow> (l, kl\<lparr>kl_last_used := (kl_last_used kl)(key \<mapsto> now)\<rparr>)
      | None \<Rightarrow>
         (let kl1 = (if max_locks \<le> length (kl_locks kl) then evict_idle_key_locks now ttl held kl else kl) in
          (kl_next kl1, kl1\<lparr>kl_locks := (key, kl_next kl1) # kl_locks kl1, kl_next := kl_next kl1 + 1,
             kl_last_used := (kl_last_used kl1)(key \<mapsto> now)\<rparr>)))"

text \<open>\<open>tracker.key_last_used[key] = time.time()\<close>, at the end of every task\<close>

definition touch_key :: "int \<Rightarrow> string \<Rightarrow> key_locks \<Rightarrow> key_locks" where
  "touch_key now key kl = kl\<lparr>kl_last_used := (kl_last_used kl)(key \<mapsto> now)\<rparr>"

text \<open>What the tasks of a partition do to its locks: each step at its own time.\<close>

datatype lock_op = Take int string | Touch int string

fun lock_step :: "int \<Rightarrow> nat \<Rightarrow> (nat \<Rightarrow> bool) \<Rightarrow> lock_op \<Rightarrow> key_locks \<Rightarrow> key_locks" where
  "lock_step ttl max_locks held (Take now key) kl = snd (get_key_lock now ttl max_locks held key kl)"
| "lock_step ttl max_locks held (Touch now key) kl = touch_key now key kl"

primrec run_locks :: "int \<Rightarrow> nat \<Rightarrow> ((nat \<Rightarrow> bool) \<times> lock_op) list \<Rightarrow> key_locks \<Rightarrow> key_locks" where
  "run_locks ttl max_locks [] kl = kl"
| "run_locks ttl max_locks (x # xs) kl =
     run_locks ttl max_locks xs (lock_step ttl max_locks (fst x) (snd x) kl)"

definition no_locks :: key_locks where
  "no_locks = \<lparr>kl_locks = [], kl_last_used = Map.empty, kl_next = 0\<rparr>"

section \<open>The steps of one partition\<close>

text \<open>
  What can happen to a partition of a consumer, in any order: a record begins, a task finishes
  (with the generation it read when it began, and whether it counts as handled), the partition
  is revoked or assigned, the consumer goes down and comes up again, the final drain runs.
  \<open>pa_acked\<close> collects the commit calls that succeeded, \<open>pa_handled\<close> the offsets of tasks that
  finished as handled, \<open>pa_base\<close> the offset of the first record.
\<close>

record part =
  pa_tracker :: tracker
  pa_alive :: bool
  pa_assigned :: bool
  pa_acked :: "int list"
  pa_handled :: "int list"
  pa_base :: "int option"

definition acked :: "bool \<Rightarrow> int option \<Rightarrow> int list \<Rightarrow> int list" where
  "acked ok call xs = (case call of None \<Rightarrow> xs | Some c \<Rightarrow> if ok then c # xs else xs)"

definition do_begin :: "int \<Rightarrow> part \<Rightarrow> part" where
  "do_begin off p = p\<lparr>pa_tracker := fst (begin_record off (pa_tracker p)),
     pa_base := (case pa_base p of None \<Rightarrow> Some off | Some b \<Rightarrow> Some b)\<rparr>"

definition do_finish :: "flow_cfg \<Rightarrow> bool \<Rightarrow> bool \<Rightarrow> int \<Rightarrow> nat \<Rightarrow> bool \<Rightarrow> part \<Rightarrow> part" where
  "do_finish cfg commit_ok flow_ok off gen handled p =
     (case finish_record cfg (pa_alive p) (pa_assigned p) commit_ok flow_ok off gen handled (pa_tracker p) of
       (tr, call) \<Rightarrow> p\<lparr>pa_tracker := tr, pa_acked := acked commit_ok call (pa_acked p),
          pa_handled := (if handled then off # pa_handled p else pa_handled p)\<rparr>)"

definition do_drain :: "bool \<Rightarrow> part \<Rightarrow> part" where
  "do_drain commit_ok p = (case advance_commit (pa_alive p) (pa_assigned p) commit_ok (pa_tracker p) of
     (tr, call) \<Rightarrow> p\<lparr>pa_tracker := tr, pa_acked := acked commit_ok call (pa_acked p)\<rparr>)"

definition fresh_part :: part where
  "fresh_part = \<lparr>pa_tracker = new_tracker, pa_alive = True, pa_assigned = False, pa_acked = [],
     pa_handled = [], pa_base = None\<rparr>"

inductive part_step :: "flow_cfg \<Rightarrow> (int \<Rightarrow> bool) \<Rightarrow> part \<Rightarrow> part \<Rightarrow> bool"
  for cfg delivered where
  ps_begin: "delivered off \<Longrightarrow> part_step cfg delivered p (do_begin off p)"
| ps_finish: "off \<in> set (tk_inflight (pa_tracker p)) \<Longrightarrow>
     part_step cfg delivered p (do_finish cfg commit_ok flow_ok off gen handled p)"
| ps_revoke: "part_step cfg delivered p (p\<lparr>pa_tracker := reassigned (pa_tracker p), pa_assigned := False\<rparr>)"
| ps_assign: "part_step cfg delivered p (p\<lparr>pa_tracker := reassigned (pa_tracker p), pa_assigned := True\<rparr>)"
| ps_down: "part_step cfg delivered p (p\<lparr>pa_tracker := bump_generation (pa_tracker p), pa_alive := False, pa_assigned := False\<rparr>)"
| ps_up: "part_step cfg delivered p (p\<lparr>pa_alive := True\<rparr>)"
| ps_drain: "part_step cfg delivered p (do_drain commit_ok p)"

inductive part_run :: "flow_cfg \<Rightarrow> (int \<Rightarrow> bool) \<Rightarrow> part \<Rightarrow> part \<Rightarrow> bool"
  for cfg delivered where
  pr_none: "part_run cfg delivered p p"
| pr_step: "part_run cfg delivered p q \<Longrightarrow> part_step cfg delivered q r \<Longrightarrow> part_run cfg delivered p r"

section \<open>Facts about committing\<close>

lemma first_gap_ge: "c \<le> first_gap ds c"
  and first_gap_notin: "first_gap ds c \<notin> set ds"
  and first_gap_in: "c \<le> k \<Longrightarrow> k < first_gap ds c \<Longrightarrow> k \<in> set ds"
proof (induction ds c rule: first_gap.induct)
  case (1 ds c)
  {
    case 1
    with "1.IH"(1) show ?case by (subst first_gap.simps) force
  next
    case 2
    with "1.IH"(2) show ?case by (subst first_gap.simps) auto
  next
    case 3
    then show ?case
    proof (cases "c \<in> set ds")
      case True
      with 3 "1.IH"(3) show ?thesis
        by (cases "k = c") (auto simp: first_gap.simps [of ds c])
    next
      case False
      with 3 show ?thesis by (simp add: first_gap.simps [of ds c])
    qed
  }
qed

lemma set_set_add [simp]: "set (set_add x xs) = insert x (set xs)"
  by (auto simp: set_add_def)

text \<open>
  The advance in one lemma: a commit call names the first offset not completed, and everything
  between the old position and it was completed.
\<close>

lemma advance_commit_call:
  assumes "advance_commit alive assigned ok tr = (tr', Some c)"
  shows "alive \<and> assigned \<and> tk_last_committed tr + 1 < c \<and> c \<notin> set (tk_completed tr)
    \<and> (\<forall>k. tk_last_committed tr < k \<and> k < c \<longrightarrow> k \<in> set (tk_completed tr))
    \<and> (if ok then tk_last_committed tr' = c - 1 \<and> set (tk_completed tr') = {k \<in> set (tk_completed tr). \<not> (tk_last_committed tr < k \<and> k < c)}
       else tr' = tr)"
proof -
  let ?g = "first_gap (tk_completed tr) (tk_last_committed tr + 1)"
  have c: "c = ?g" and "alive" "assigned" "tk_last_committed tr < ?g - 1"
    using assms by (auto simp: advance_commit_def Let_def split: if_splits)
  moreover have "k \<in> set (tk_completed tr)" if "tk_last_committed tr < k" "k < ?g" for k
    using that by (intro first_gap_in [of "tk_last_committed tr + 1"]) auto
  moreover have "?g \<notin> set (tk_completed tr)" by (rule first_gap_notin)
  ultimately show ?thesis
    using assms by (auto simp: advance_commit_def Let_def split: if_splits)
qed

lemma advance_commit_none: "advance_commit alive assigned ok tr = (tr', None) \<Longrightarrow> tr' = tr"
  by (auto simp: advance_commit_def Let_def split: if_splits)

text \<open>No call although there is a live assigned consumer: the next offset is not completed.\<close>

lemma advance_commit_stuck:
  assumes "advance_commit True True ok tr = (tr', None)"
  shows "tk_last_committed tr + 1 \<notin> set (tk_completed tr)"
proof
  assume "tk_last_committed tr + 1 \<in> set (tk_completed tr)"
  then have "first_gap (tk_completed tr) (tk_last_committed tr + 1)
      = first_gap (tk_completed tr) (tk_last_committed tr + 1 + 1)" by (simp add: first_gap.simps)
  then have "tk_last_committed tr + 2 \<le> first_gap (tk_completed tr) (tk_last_committed tr + 1)"
    using first_gap_ge [of "tk_last_committed tr + 1 + 1" "tk_completed tr"] by simp
  with assms show False by (auto simp: advance_commit_def Let_def split: if_splits)
qed

lemma adjust_flow_frame [simp]:
  "tk_last_committed (adjust_flow cfg al as ok tr) = tk_last_committed tr"
  "tk_completed (adjust_flow cfg al as ok tr) = tk_completed tr"
  "tk_initialized (adjust_flow cfg al as ok tr) = tk_initialized tr"
  "tk_max_seen (adjust_flow cfg al as ok tr) = tk_max_seen tr"
  "tk_inflight (adjust_flow cfg al as ok tr) = tk_inflight tr"
  "tk_generation (adjust_flow cfg al as ok tr) = tk_generation tr"
  by (simp_all add: adjust_flow_def)

lemma advance_commit_frame:
  "advance_commit al as ok tr = (tr', call) \<Longrightarrow> tk_initialized tr' = tk_initialized tr
     \<and> tk_max_seen tr' = tk_max_seen tr \<and> tk_inflight tr' = tk_inflight tr \<and> tk_paused tr' = tk_paused tr"
  by (auto simp: advance_commit_def Let_def split: if_splits)

text \<open>The invariant of a partition: what is committed or completed was handled.\<close>

definition part_inv :: "part \<Rightarrow> bool" where
  "part_inv p \<longleftrightarrow> (let tr = pa_tracker p in
     (case pa_base p of
        None \<Rightarrow> \<not> tk_initialized tr \<and> tk_completed tr = [] \<and> tk_inflight tr = [] \<and> pa_acked p = []
          \<and> tk_last_committed tr = -1
      | Some b \<Rightarrow> tk_initialized tr \<and> b - 1 \<le> tk_last_committed tr
          \<and> (\<forall>k. b \<le> k \<and> k \<le> tk_last_committed tr \<longrightarrow> k \<in> set (pa_handled p))
          \<and> set (tk_completed tr) \<subseteq> set (pa_handled p)
          \<and> (\<forall>c \<in> set (pa_acked p). c \<le> tk_last_committed tr + 1) \<and> sorted_wrt (>) (pa_acked p)))"

lemma part_inv_fresh: "part_inv fresh_part"
  by (simp add: part_inv_def fresh_part_def new_tracker_def)

lemma part_inv_begin: "part_inv p \<Longrightarrow> part_inv (do_begin off p)"
  by (auto simp: part_inv_def do_begin_def begin_record_def Let_def split: option.splits)

text \<open>Advancing keeps the invariant, whatever the outcome of the commit.\<close>

lemma part_inv_advance:
  assumes inv: "part_inv p" and b: "pa_base p = Some b"
    and adv: "advance_commit al as ok (pa_tracker p) = (tr, call)"
  shows "part_inv (p\<lparr>pa_tracker := tr, pa_acked := acked ok call (pa_acked p)\<rparr>)"
proof (cases call)
  case None
  have "tr = pa_tracker p" using advance_commit_none [OF adv [unfolded None]] .
  with None inv show ?thesis by (simp add: acked_def)
next
  case (Some c)
  note call = advance_commit_call [OF adv [unfolded Some]]
  show ?thesis
  proof (cases ok)
    case False
    with call Some inv show ?thesis by (simp add: acked_def)
  next
    case True
    have below: "k \<in> set (pa_handled p)" if "b \<le> k" "k < c" for k
      using inv b call that unfolding part_inv_def Let_def
      by (cases "k \<le> tk_last_committed (pa_tracker p)") force+
    show ?thesis
      using inv b call True Some advance_commit_frame [OF adv] below
      unfolding part_inv_def Let_def acked_def by fastforce
  qed
qed

text \<open>Only the position, the completed set and the initialisation flag matter.\<close>

lemma part_inv_tracker:
  assumes "part_inv (p\<lparr>pa_tracker := tr\<rparr>)" "pa_base p = Some b"
    and "tk_last_committed tr' = tk_last_committed tr" "tk_completed tr' = tk_completed tr"
    "tk_initialized tr' = tk_initialized tr"
  shows "part_inv (p\<lparr>pa_tracker := tr'\<rparr>)"
  using assms by (simp add: part_inv_def)

lemma part_inv_reset:
  "part_inv p \<Longrightarrow> part_inv (p\<lparr>pa_tracker := reassigned (pa_tracker p), pa_assigned := a\<rparr>)"
  "part_inv p \<Longrightarrow> part_inv (p\<lparr>pa_tracker := bump_generation (pa_tracker p), pa_alive := x, pa_assigned := a\<rparr>)"
  "part_inv p \<Longrightarrow> part_inv (p\<lparr>pa_alive := x\<rparr>)"
  by (auto simp: part_inv_def reassigned_def bump_generation_def Let_def split: option.splits)

lemma part_inv_base: "part_inv p \<Longrightarrow> off \<in> set (tk_inflight (pa_tracker p)) \<Longrightarrow> \<exists>b. pa_base p = Some b"
  by (auto simp: part_inv_def Let_def split: option.splits)

lemma part_inv_drain:
  assumes "part_inv p"
  shows "part_inv (do_drain ok p)"
proof (cases "pa_base p")
  case None
  with assms have "first_gap (tk_completed (pa_tracker p)) x = x" for x
    by (simp add: part_inv_def Let_def first_gap.simps)
  then have "do_drain ok p = p" by (simp add: do_drain_def advance_commit_def acked_def)
  with assms show ?thesis by simp
next
  case (Some b)
  with assms show ?thesis unfolding do_drain_def by (auto intro: part_inv_advance split: prod.split)
qed

lemma part_inv_mark:
  assumes "part_inv p" "pa_base p = Some b" "set done_set = insert off (set (tk_completed (pa_tracker p)))"
  shows "part_inv (p\<lparr>pa_tracker := pa_tracker p\<lparr>tk_inflight := fl, tk_completed := done_set\<rparr>,
      pa_handled := off # pa_handled p\<rparr>)"
    and "part_inv (p\<lparr>pa_tracker := pa_tracker p\<lparr>tk_inflight := fl\<rparr>\<rparr>)"
    and "part_inv (p\<lparr>pa_tracker := pa_tracker p\<lparr>tk_inflight := fl\<rparr>, pa_handled := off # pa_handled p\<rparr>)"
  using assms by (auto simp: part_inv_def Let_def)

lemma part_inv_finish:
  assumes inv: "part_inv p" and fl: "off \<in> set (tk_inflight (pa_tracker p))"
  shows "part_inv (do_finish cfg ok flow_ok off gen handled p)"
proof -
  obtain b where b: "pa_base p = Some b" using part_inv_base [OF inv fl] by blast
  let ?fl = "removeAll off (tk_inflight (pa_tracker p))"
  define q where "q = p\<lparr>pa_tracker := (if handled
      then (pa_tracker p)\<lparr>tk_inflight := ?fl, tk_completed := set_add off (tk_completed (pa_tracker p))\<rparr>
      else (pa_tracker p)\<lparr>tk_inflight := ?fl\<rparr>),
    pa_handled := (if handled then off # pa_handled p else pa_handled p)\<rparr>"
  have q: "part_inv q" and qb: "pa_base q = Some b"
    using part_inv_mark [OF inv b, of "set_add off (tk_completed (pa_tracker p))" off ?fl] b
    by (auto simp: q_def)
  show ?thesis
  proof (cases "gen = tk_generation (pa_tracker p)")
    case False
    with part_inv_mark [OF inv b, of "set_add off (tk_completed (pa_tracker p))" off ?fl] show ?thesis
      by (auto simp: do_finish_def finish_record_def acked_def Let_def)
  next
    case True
    obtain tr call where adv: "advance_commit (pa_alive p) (pa_assigned p) ok (pa_tracker q) = (tr, call)"
      by (meson surj_pair)
    have "part_inv (q\<lparr>pa_tracker := tr, pa_acked := acked ok call (pa_acked q)\<rparr>)"
      by (rule part_inv_advance [OF q qb]) (use adv in \<open>simp add: q_def\<close>)
    moreover have "do_finish cfg ok flow_ok off gen handled p
        = q\<lparr>pa_tracker := adjust_flow cfg (pa_alive p) (pa_assigned p) flow_ok tr,
            pa_acked := acked ok call (pa_acked q)\<rparr>"
      using True adv by (auto simp: do_finish_def finish_record_def q_def Let_def split: prod.split)
    ultimately show ?thesis using qb by (simp add: part_inv_def)
  qed
qed

lemma part_inv_step: "part_step cfg delivered p q \<Longrightarrow> part_inv p \<Longrightarrow> part_inv q"
  by (induction rule: part_step.induct)
    (auto intro: part_inv_begin part_inv_finish part_inv_drain part_inv_reset)

lemma part_inv_run: "part_run cfg delivered p q \<Longrightarrow> part_inv p \<Longrightarrow> part_inv q"
  by (induction rule: part_run.induct) (auto intro: part_inv_step)

section \<open>Facts about generations\<close>

lemma advance_commit_generation: "tk_generation (fst (advance_commit al as ok tr)) = tk_generation tr"
  by (auto simp: advance_commit_def Let_def)

lemma finish_generation: "tk_generation (fst (finish_record cfg al as ok fo off gen handled tr)) = tk_generation tr"
  using advance_commit_generation [of al as ok "tr\<lparr>tk_inflight := removeAll off (tk_inflight tr),
      tk_completed := set_add off (tk_completed tr)\<rparr>"]
    advance_commit_generation [of al as ok "tr\<lparr>tk_inflight := removeAll off (tk_inflight tr)\<rparr>"]
  by (auto simp: finish_record_def Let_def split: prod.split)

lemma part_step_generation:
  "part_step cfg delivered p q \<Longrightarrow> tk_generation (pa_tracker p) \<le> tk_generation (pa_tracker q)"
proof (induction rule: part_step.induct)
  case (ps_finish off p commit_ok flow_ok gen handled)
  then show ?case
    using finish_generation [of cfg "pa_alive p" "pa_assigned p" commit_ok flow_ok off gen handled "pa_tracker p"]
    by (auto simp: do_finish_def split: prod.split)
next
  case (ps_drain p commit_ok)
  show ?case
    using advance_commit_generation [of "pa_alive p" "pa_assigned p" commit_ok "pa_tracker p"]
    by (auto simp: do_drain_def split: prod.split)
qed (simp_all add: do_begin_def begin_record_def Let_def reassigned_def bump_generation_def)

lemma part_run_generation:
  "part_run cfg delivered p q \<Longrightarrow> tk_generation (pa_tracker p) \<le> tk_generation (pa_tracker q)"
  by (induction rule: part_run.induct) (auto dest: part_step_generation)

section \<open>Facts about a position that nothing can move\<close>

text \<open>
  The next offset is neither completed nor being processed, and no record at or below it will
  be delivered.
\<close>

definition stalled_at :: "int \<Rightarrow> part \<Rightarrow> bool" where
  "stalled_at n p \<longleftrightarrow> (let tr = pa_tracker p in tk_initialized tr \<and> tk_last_committed tr = n
     \<and> n + 1 \<notin> set (tk_completed tr) \<and> n + 1 \<notin> set (tk_inflight tr))"

lemma advance_commit_gap:
  "tk_last_committed tr + 1 \<notin> set (tk_completed tr) \<Longrightarrow> advance_commit al as ok tr = (tr, None)"
  by (simp add: advance_commit_def first_gap.simps)

lemma stalled_finish:
  assumes "stalled_at n p" "off \<in> set (tk_inflight (pa_tracker p))"
  shows "stalled_at n (do_finish cfg ok fo off gen handled p) \<and> pa_acked (do_finish cfg ok fo off gen handled p) = pa_acked p
    \<and> tk_max_seen (pa_tracker (do_finish cfg ok fo off gen handled p)) = tk_max_seen (pa_tracker p)"
proof -
  have "off \<noteq> n + 1" using assms by (auto simp: stalled_at_def Let_def)
  with assms show ?thesis
    by (auto simp: stalled_at_def do_finish_def finish_record_def acked_def advance_commit_gap Let_def)
qed

lemma stalled_step:
  "part_step cfg (\<lambda>off. n + 1 < off) p q \<Longrightarrow> stalled_at n p \<Longrightarrow>
   stalled_at n q \<and> pa_acked q = pa_acked p \<and> tk_max_seen (pa_tracker p) \<le> tk_max_seen (pa_tracker q)"
proof (induction rule: part_step.induct)
  case (ps_finish off p)
  with stalled_finish show ?case by simp
next
  case (ps_drain p commit_ok)
  then show ?case by (simp add: stalled_at_def do_drain_def advance_commit_gap acked_def Let_def)
qed (auto simp: stalled_at_def do_begin_def begin_record_def Let_def reassigned_def bump_generation_def)

lemma stalled_run:
  "part_run cfg (\<lambda>off. n + 1 < off) p q \<Longrightarrow> stalled_at n p \<Longrightarrow>
   stalled_at n q \<and> pa_acked q = pa_acked p \<and> tk_max_seen (pa_tracker p) \<le> tk_max_seen (pa_tracker q)"
  by (induction rule: part_run.induct) (use stalled_step order_trans in \<open>fastforce+\<close>)

section \<open>Facts about key locks\<close>

definition locks_ok :: "key_locks \<Rightarrow> bool" where
  "locks_ok kl \<longleftrightarrow> distinct (map fst (kl_locks kl)) \<and> distinct (map snd (kl_locks kl))
     \<and> (\<forall>l \<in> snd ` set (kl_locks kl). l < kl_next kl)"

lemma map_of_filter_keep:
  "map_of xs k = Some l \<Longrightarrow> \<not> dead k \<Longrightarrow> map_of (filter (\<lambda>(k, l). \<not> dead k) xs) k = Some l"
  by (induction xs) auto

lemma evict_keeps:
  assumes "map_of (kl_locks kl) k = Some l"
    and "held l \<or> (case kl_last_used kl k of None \<Rightarrow> True | Some t \<Rightarrow> now - ttl \<le> t)"
  shows "map_of (kl_locks (evict_idle_key_locks now ttl held kl)) k = Some l"
proof -
  have "\<not> idle_key now ttl held kl k" using assms by (auto simp: idle_key_def split: option.splits)
  then show ?thesis using assms(1) by (simp add: evict_idle_key_locks_def map_of_filter_keep)
qed

lemma evict_ok: "locks_ok kl \<Longrightarrow> locks_ok (evict_idle_key_locks now ttl held kl)"
  by (auto simp: locks_ok_def evict_idle_key_locks_def distinct_map_filter)

lemma evict_next [simp]: "kl_next (evict_idle_key_locks now ttl held kl) = kl_next kl"
  by (simp add: evict_idle_key_locks_def)

lemma evict_subset: "set (kl_locks (evict_idle_key_locks now ttl held kl)) \<subseteq> set (kl_locks kl)"
  by (auto simp: evict_idle_key_locks_def)

lemma get_key_lock_ok: "locks_ok kl \<Longrightarrow> locks_ok (snd (get_key_lock now ttl m held key kl))"
proof (cases "map_of (kl_locks kl) key")
  case None
  assume ok: "locks_ok kl"
  let ?kl = "if m \<le> length (kl_locks kl) then evict_idle_key_locks now ttl held kl else kl"
  have "locks_ok ?kl" using ok evict_ok by simp
  moreover have "key \<notin> fst ` set (kl_locks ?kl)"
    using None evict_subset [of now ttl held kl] by (auto simp: map_of_eq_None_iff)
  moreover have "kl_next ?kl \<notin> snd ` set (kl_locks ?kl)"
    using \<open>locks_ok ?kl\<close> unfolding locks_ok_def by blast
  ultimately show ?thesis using None
    by (auto simp: get_key_lock_def Let_def locks_ok_def less_Suc_eq)
next
  case (Some l)
  then show "locks_ok kl \<Longrightarrow> ?thesis" by (simp add: get_key_lock_def locks_ok_def)
qed

lemma lock_step_ok: "locks_ok kl \<Longrightarrow> locks_ok (lock_step ttl m held op kl)"
  by (cases op) (simp_all add: get_key_lock_ok, simp add: touch_key_def locks_ok_def)

lemma run_locks_ok: "locks_ok kl \<Longrightarrow> locks_ok (run_locks ttl m ops kl)"
  by (induction ops arbitrary: kl) (simp_all add: lock_step_ok)

lemma lock_step_keeps:
  assumes "map_of (kl_locks kl) k = Some l" "held l"
  shows "map_of (kl_locks (lock_step ttl m held op kl)) k = Some l"
proof (cases op)
  case (Take now key)
  with assms evict_keeps [of kl k l held now ttl] show ?thesis
    by (auto simp: get_key_lock_def Let_def split: option.split)
next
  case (Touch now key)
  with assms show ?thesis by (simp add: touch_key_def)
qed

lemma run_locks_keeps:
  "map_of (kl_locks kl) k = Some l \<Longrightarrow> \<forall>x \<in> set ops. fst x l \<Longrightarrow>
   map_of (kl_locks (run_locks ttl m ops kl)) k = Some l"
  by (induction ops arbitrary: kl) (simp_all add: lock_step_keeps)

section \<open>Properties\<close>

text \<open>C1: At least once. Whatever the order in which records begin, finish, fail, the partition is
revoked and assigned, the consumer goes down and comes up, and commits fail: every offset below
a commit that succeeded, from the first record on, belongs to a record that was handled. The
successful commits of one tracker only go forward.\<close>

theorem commits_are_at_least_once:
  assumes run: "part_run cfg delivered fresh_part p" and b: "pa_base p = Some b"
  shows "(\<forall>c \<in> set (pa_acked p). {b..<c} \<subseteq> set (pa_handled p)) \<and> sorted_wrt (>) (pa_acked p)"
proof -
  have "part_inv p" by (rule part_inv_run [OF run part_inv_fresh])
  with b have le: "\<And>c. c \<in> set (pa_acked p) \<Longrightarrow> c \<le> tk_last_committed (pa_tracker p) + 1"
    and handled: "\<And>k. b \<le> k \<Longrightarrow> k \<le> tk_last_committed (pa_tracker p) \<Longrightarrow> k \<in> set (pa_handled p)"
    and "sorted_wrt (>) (pa_acked p)"
    by (simp_all add: part_inv_def Let_def)
  moreover have "k \<in> set (pa_handled p)" if "c \<in> set (pa_acked p)" "b \<le> k" "k < c" for c k
    using le [OF that(1)] handled [OF that(2)] that(3) by simp
  ultimately show ?thesis by auto
qed

text \<open>A run: records 5 and 6 begin, 6 finishes first.\<close>

definition example_cfg :: flow_cfg where
  "example_cfg = \<lparr>fc_max_gap = 500, fc_resume_at = 200\<rparr>"

definition example_begun :: part where
  "example_begun = do_begin 6 (do_begin 5 (fresh_part\<lparr>pa_tracker := reassigned (pa_tracker fresh_part), pa_assigned := True\<rparr>))"

definition example_half :: part where
  "example_half = do_finish example_cfg True True 6 1 True example_begun"

definition example_done :: part where
  "example_done = do_finish example_cfg True True 5 1 True example_half"

lemmas part_eval = example_cfg_def example_begun_def example_half_def example_done_def
  do_begin_def do_finish_def begin_record_def finish_record_def advance_commit_def adjust_flow_def gap_depth_def
  reassigned_def fresh_part_def new_tracker_def acked_def set_add_def first_gap.simps

lemma example_begun_run: "part_run example_cfg (\<lambda>_. True) fresh_part example_begun"
  unfolding example_begun_def
  by (rule pr_step [OF pr_step [OF pr_step [OF pr_none ps_assign] ps_begin] ps_begin]) simp_all

lemma example_done_run: "part_run example_cfg (\<lambda>_. True) fresh_part example_done"
  unfolding example_done_def example_half_def
  by (rule pr_step [OF pr_step [OF example_begun_run ps_finish] ps_finish]) (simp_all add: part_eval)

lemma example_done_eval:
  "pa_base example_done = Some 5 \<and> pa_acked example_done = [7] \<and> pa_handled example_done = [5, 6]
   \<and> pa_acked example_half = []"
  by (simp add: part_eval)

lemma commits_are_at_least_once_witness: "7 \<in> set (pa_acked example_done) \<and> {5..<7} \<subseteq> set (pa_handled example_done)"
  using commits_are_at_least_once [OF example_done_run, of 5] example_done_eval by simp



text \<open>A task that was running when its partition was reassigned changes nothing but the set of
running offsets when it finishes, however much later: it completes no offset and commits none.\<close>

theorem stale_task_is_dropped:
  assumes run: "part_run cfg delivered (p\<lparr>pa_tracker := reassigned (pa_tracker p), pa_assigned := assigned\<rparr>) q"
    and gen: "gen \<le> tk_generation (pa_tracker p)"
  shows "finish_record cfg alive asg ok flow_ok off gen handled (pa_tracker q)
    = ((pa_tracker q)\<lparr>tk_inflight := removeAll off (tk_inflight (pa_tracker q))\<rparr>, None)"
proof -
  have "gen < tk_generation (pa_tracker q)"
    using part_run_generation [OF run] gen by (simp add: reassigned_def)
  then show ?thesis by (simp add: finish_record_def)
qed

lemma stale_task_is_dropped_witness:
  "snd (finish_record example_cfg True True True True 5 1 True (reassigned (pa_tracker example_half))) = None"
proof -
  have "1 \<le> tk_generation (pa_tracker example_half)" by (simp add: part_eval)
  from stale_task_is_dropped [OF pr_none this, of example_cfg True True True True 5 True]
  show ?thesis by simp
qed

text \<open>A defect after a rebalance. A partition that comes back keeps its old position
(\<open>_reconcile_assignments\<close> only renews the generation). If in the meantime another consumer has
committed further, so that no record at or below the next expected offset is delivered again,
then in every run the position stays where it was and no commit succeeds any more; and a
partition that the gap has paused is not resumed by any task that finishes while the gap stays
above the watermark, which it does because the position no longer moves.\<close>

theorem returned_partition_commits_nothing:
  assumes run: "part_run cfg (\<lambda>off. tk_last_committed (pa_tracker p) + 1 < off) p q"
    and init: "tk_initialized (pa_tracker p)"
    and "tk_last_committed (pa_tracker p) + 1 \<notin> set (tk_completed (pa_tracker p)) \<union> set (tk_inflight (pa_tracker p))"
  shows "tk_last_committed (pa_tracker q) = tk_last_committed (pa_tracker p) \<and> pa_acked q = pa_acked p
    \<and> (fc_resume_at cfg < tk_max_seen (pa_tracker p) - tk_last_committed (pa_tracker p)
       \<longrightarrow> tk_paused (pa_tracker q) \<and> off \<in> set (tk_inflight (pa_tracker q))
       \<longrightarrow> tk_paused (pa_tracker (do_finish cfg ok flow_ok off gen handled q)))"
proof -
  let ?n = "tk_last_committed (pa_tracker p)"
  have st: "stalled_at ?n q" and ack: "pa_acked q = pa_acked p"
    and seen: "tk_max_seen (pa_tracker p) \<le> tk_max_seen (pa_tracker q)"
    using stalled_run [OF run] assms(2,3) by (auto simp: stalled_at_def Let_def)
  have "tk_paused (pa_tracker (do_finish cfg ok flow_ok off gen handled q))"
    if gap: "fc_resume_at cfg < tk_max_seen (pa_tracker p) - ?n" and paused: "tk_paused (pa_tracker q)"
      and off: "off \<in> set (tk_inflight (pa_tracker q))"
  proof -
    have "off \<noteq> ?n + 1" using st off by (auto simp: stalled_at_def Let_def)
    moreover from st have "tk_last_committed (pa_tracker q) = ?n" by (simp add: stalled_at_def Let_def)
    ultimately show ?thesis using st gap paused seen
      by (auto simp: do_finish_def finish_record_def stalled_at_def advance_commit_gap adjust_flow_def gap_depth_def Let_def)
  qed
  with st ack show ?thesis by (simp add: stalled_at_def Let_def)
qed

text \<open>Records 5 and 6 are committed; the partition comes back and record 900 is the first one delivered.\<close>

definition example_returned :: part where
  "example_returned = example_done\<lparr>pa_tracker := reassigned (pa_tracker example_done), pa_assigned := True\<rparr>"

definition example_lost :: part where
  "example_lost = do_finish example_cfg True True 900 2 True (do_begin 900 example_returned)"

lemma returned_partition_commits_nothing_witness:
  "tk_last_committed (pa_tracker example_lost) = 6 \<and> pa_acked example_lost = [7]
   \<and> 900 \<in> set (pa_handled example_lost) \<and> tk_paused (pa_tracker example_lost)"
proof -
  have pos: "tk_last_committed (pa_tracker example_returned) = 6"
    "tk_initialized (pa_tracker example_returned)"
    "7 \<notin> set (tk_completed (pa_tracker example_returned)) \<union> set (tk_inflight (pa_tracker example_returned))"
    "pa_acked example_returned = [7]" "900 \<in> set (pa_handled example_lost)" "tk_paused (pa_tracker example_lost)"
    by (simp_all add: example_returned_def example_lost_def part_eval)
  have "part_run example_cfg (\<lambda>off. tk_last_committed (pa_tracker example_returned) + 1 < off) example_returned example_lost"
    unfolding example_lost_def
    by (rule pr_step [OF pr_step [OF pr_none ps_begin] ps_finish])
      (simp_all add: example_returned_def part_eval)
  from returned_partition_commits_nothing [OF this pos(2)] pos show ?thesis by simp
qed

text \<open>The keys of a partition are serialised by their locks: in any sequence of requests for
locks and evictions different keys have different locks, and a key whose lock is held all along
gets the same lock again, whatever was evicted meanwhile.\<close>

theorem held_lock_survives_eviction:
  assumes "map_of (kl_locks (run_locks ttl m before no_locks)) k = Some l"
    and "\<forall>x \<in> set ops. fst x l"
  shows "fst (get_key_lock now ttl m held k (run_locks ttl m ops (run_locks ttl m before no_locks))) = l
    \<and> (\<forall>k' l'. map_of (kl_locks (run_locks ttl m ops (run_locks ttl m before no_locks))) k' = Some l' \<and> l' = l \<longrightarrow> k' = k)"
proof -
  let ?kl = "run_locks ttl m ops (run_locks ttl m before no_locks)"
  have "locks_ok no_locks" by (simp add: locks_ok_def no_locks_def)
  then have ok: "locks_ok ?kl" by (intro run_locks_ok)
  have got: "map_of (kl_locks ?kl) k = Some l" by (rule run_locks_keeps [OF assms])
  have inj: "inj_on snd (set (kl_locks ?kl))" using ok unfolding locks_ok_def distinct_map by blast
  have "k' = k" if "map_of (kl_locks ?kl) k' = Some l" for k'
    using inj_onD [OF inj _ map_of_SomeD [OF that] map_of_SomeD [OF got]] by simp
  moreover have "fst (get_key_lock now ttl m held k ?kl) = l" using got by (simp add: get_key_lock_def)
  ultimately show ?thesis by blast
qed

lemma held_lock_survives_eviction_witness:
  "fst (get_key_lock 5000 600 1 (\<lambda>_. False) ''a''
     (run_locks 600 1 [(\<lambda>l. l = 0, Take 2000 ''b''), (\<lambda>l. l = 0, Take 4000 ''c'')]
        (run_locks 600 1 [(\<lambda>_. False, Take 0 ''a'')] no_locks))) = 0"
proof -
  have "map_of (kl_locks (run_locks 600 1 [(\<lambda>_. False, Take 0 ''a'')] no_locks)) ''a'' = Some 0"
    by (simp add: get_key_lock_def no_locks_def Let_def)
  from held_lock_survives_eviction [OF this, of "[(\<lambda>l. l = 0, Take 2000 ''b''), (\<lambda>l. l = 0, Take 4000 ''c'')]"]
  show ?thesis by simp
qed

end
