(* ===== verification/Redis_Guard.thy ===== *)
theory Redis_Guard
  imports Frank_Prelude
begin

text \<open>
  The Redis client of app/utils/redis_client.py: idempotency keys, cached values, the rate limit
  counter, the chat GUID cache, the circuit breaker and the two decorators. The Redis server is
  not under src/: its commands are the record \<open>redis_api\<close>, and the locale \<open>redis_server\<close> states
  what their documentation promises about the keys and their deadlines. \<open>mem_redis\<close> is a server
  in memory that meets the contract.
\<close>

section \<open>The interface\<close>

text \<open>
  A stored text: \<open>RCount n\<close> is the decimal text of \<open>n\<close>, which \<open>INCR\<close> reads and writes, and
  \<open>RJson j\<close> the text that \<open>json.dumps(j)\<close> gives and \<open>json.loads\<close> reads back.
\<close>

datatype rval = RText string | RCount int | RJson json

record 's redis_api =
  rd_set_nx :: "string \<Rightarrow> rval \<Rightarrow> int \<Rightarrow> ('s, string, bool) io" \<comment> \<open>\<open>set(key, value, nx=True, ex=ttl) is True\<close>\<close>
  rd_setex :: "string \<Rightarrow> int \<Rightarrow> rval \<Rightarrow> ('s, string, unit) io"
  rd_get :: "string \<Rightarrow> ('s, string, rval option) io"
  rd_delete :: "string \<Rightarrow> ('s, string, nat) io"
  rd_incr_expire :: "string \<Rightarrow> int \<Rightarrow> ('s, string, int) io" \<comment> \<open>the pipeline \<open>INCR; EXPIRE\<close>\<close>

type_synonym store = "string \<rightharpoonup> rval \<times> int"

text \<open>The value of a key at an instant: a key is gone once its deadline has come.\<close>

definition live :: "store \<Rightarrow> int \<Rightarrow> string \<Rightarrow> rval option" where
  "live m now k = (case m k of None \<Rightarrow> None | Some (v, t) \<Rightarrow> if now < t then Some v else None)"

lemma live_upd: "live (m(k \<mapsto> (v, t))) now k' = (if k' = k then (if now < t then Some v else None) else live m now k')"
  by (simp add: live_def)

lemma live_del: "live (m(k := None)) now k' = (if k' = k then None else live m now k')"
  by (simp add: live_def)

lemma live_cong: "m k = m' k \<Longrightarrow> live m now k = live m' now k"
  by (simp add: live_def)

text \<open>
  \<open>data s\<close> holds the keys with their deadlines, \<open>clock s\<close> the server's time, and \<open>pass\<close> lets time
  go by between commands. A command that fails may have been applied to its own key, but a
  failed \<open>SET NX\<close> leaves a live key alone.
\<close>

locale redis_server =
  fixes api :: "'s redis_api"
    and data :: "'s \<Rightarrow> store"
    and clock :: "'s \<Rightarrow> int"
    and pass :: "int \<Rightarrow> 's \<Rightarrow> 's"
  assumes pass_clock: "0 \<le> d \<Longrightarrow> clock (pass d s) = clock s + d"
    and pass_data: "data (pass d s) = data s"
    and set_nx_ok: "rd_set_nx api k v ttl s = (Inr b, s') \<Longrightarrow>
      clock s' = clock s \<and> b = (live (data s) (clock s) k = None)
      \<and> data s' = (if b then (data s)(k \<mapsto> (v, clock s + ttl)) else data s)"
    and set_nx_err: "rd_set_nx api k v ttl s = (Inl e, s') \<Longrightarrow>
      clock s' = clock s \<and> (\<forall>k'. k' \<noteq> k \<or> live (data s) (clock s) k \<noteq> None \<longrightarrow> data s' k' = data s k')"
    and setex_ok: "rd_setex api k ttl v s = (Inr u, s') \<Longrightarrow>
      clock s' = clock s \<and> data s' = (data s)(k \<mapsto> (v, clock s + ttl))"
    and setex_err: "rd_setex api k ttl v s = (Inl e, s') \<Longrightarrow>
      clock s' = clock s \<and> (\<forall>k'. k' \<noteq> k \<longrightarrow> data s' k' = data s k')"
    and get_frame: "rd_get api k s = (res, s') \<Longrightarrow> clock s' = clock s \<and> data s' = data s"
    and get_ok: "rd_get api k s = (Inr x, s') \<Longrightarrow> x = live (data s) (clock s) k"
    and delete_ok: "rd_delete api k s = (Inr count, s') \<Longrightarrow>
      clock s' = clock s \<and> count = (if live (data s) (clock s) k = None then 0 else 1) \<and> live (data s') (clock s') k = None
      \<and> (\<forall>k'. k' \<noteq> k \<longrightarrow> data s' k' = data s k')"
    and delete_err: "rd_delete api k s = (Inl e, s') \<Longrightarrow>
      clock s' = clock s \<and> (\<forall>k'. k' \<noteq> k \<longrightarrow> data s' k' = data s k')"
    and incr_ok: "rd_incr_expire api k w s = (Inr n, s') \<Longrightarrow>
      clock s' = clock s \<and> (live (data s) (clock s) k = None \<longrightarrow> n = 1)
      \<and> (\<forall>m. live (data s) (clock s) k = Some (RCount m) \<longrightarrow> n = m + 1)
      \<and> (0 < w \<longrightarrow> data s' k = Some (RCount n, clock s + w)) \<and> (\<forall>k'. k' \<noteq> k \<longrightarrow> data s' k' = data s k')"
    and incr_err: "rd_incr_expire api k w s = (Inl e, s') \<Longrightarrow>
      clock s' = clock s \<and> (\<forall>k'. k' \<noteq> k \<longrightarrow> data s' k' = data s k')"

section \<open>The client\<close>

record redis_settings =
  rs_idempotency_ttl :: int
  rs_cache_ttl :: int
  rs_rate_limit_window :: int

definition default_redis_settings :: redis_settings where
  "default_redis_settings = \<lparr>rs_idempotency_ttl = 86400, rs_cache_ttl = 300, rs_rate_limit_window = 60\<rparr>"

text \<open>\<open>ttl or settings.x\<close>\<close>

definition or_int :: "int option \<Rightarrow> int \<Rightarrow> int" where
  "or_int a b = (case a of None \<Rightarrow> b | Some n \<Rightarrow> if n = 0 then b else n)"

definition check_idempotency :: "'s redis_api \<Rightarrow> redis_settings \<Rightarrow> string \<Rightarrow> int option \<Rightarrow> ('s, string, bool) io" where
  "check_idempotency api cfg key ttl =
     io_catch (rd_set_nx api key (RText ''processed'') (or_int ttl (rs_idempotency_ttl cfg)))
       (\<lambda>_. io_return True)"

definition mark_processed :: "'s redis_api \<Rightarrow> redis_settings \<Rightarrow> string \<Rightarrow> int option \<Rightarrow> ('s, string, bool) io" where
  "mark_processed api cfg key ttl =
     io_catch (io_bind (rd_setex api key (or_int ttl (rs_idempotency_ttl cfg)) (RText ''processed'')) (\<lambda>_. io_return True))
       (\<lambda>_. io_return False)"

text \<open>\<open>json.loads\<close> of a stored text; \<open>parse\<close> is what it makes of a text that \<open>json.dumps\<close> has not
  written.\<close>

fun loads :: "(string \<Rightarrow> json option) \<Rightarrow> rval \<Rightarrow> json option" where
  "loads parse (RJson j) = Some j"
| "loads parse (RCount n) = Some (JInt n)"
| "loads parse (RText s) = (if s = [] then None else parse s)"

definition get_cached :: "(string \<Rightarrow> json option) \<Rightarrow> 's redis_api \<Rightarrow> string \<Rightarrow> ('s, string, json option) io" where
  "get_cached parse api key =
     io_catch (io_bind (rd_get api key) (\<lambda>v. case v of
          None \<Rightarrow> io_return None
        | Some x \<Rightarrow> (if x = RText [] then io_return None else
            (case loads parse x of None \<Rightarrow> io_raise ''JSONDecodeError'' | Some j \<Rightarrow> io_return (Some j)))))
       (\<lambda>_. io_return None)"

definition set_cached :: "'s redis_api \<Rightarrow> redis_settings \<Rightarrow> string \<Rightarrow> json \<Rightarrow> int option \<Rightarrow> ('s, string, bool) io" where
  "set_cached api cfg key value ttl =
     io_catch (io_bind (rd_setex api key (or_int ttl (rs_cache_ttl cfg)) (RJson value)) (\<lambda>_. io_return True))
       (\<lambda>_. io_return False)"

definition invalidate_cached :: "'s redis_api \<Rightarrow> string \<Rightarrow> ('s, string, bool) io" where
  "invalidate_cached api key =
     io_catch (io_bind (rd_delete api key) (\<lambda>n. io_return (n \<noteq> 0))) (\<lambda>_. io_return False)"

definition check_rate_limit :: "'s redis_api \<Rightarrow> redis_settings \<Rightarrow> string \<Rightarrow> int \<Rightarrow> int option \<Rightarrow> ('s, string, bool \<times> int) io" where
  "check_rate_limit api cfg key max_requests window =
     io_catch (io_bind (rd_incr_expire api key (or_int window (rs_rate_limit_window cfg)))
         (\<lambda>n. io_return (n \<le> max_requests, n)))
       (\<lambda>_. io_return (True, 0))"

definition get_subscription_status :: "(string \<Rightarrow> json option) \<Rightarrow> 's redis_api \<Rightarrow> string \<Rightarrow> ('s, string, json option) io" where
  "get_subscription_status parse api user_id = get_cached parse api (''subscription:'' @ user_id)"

definition cache_subscription_status :: "'s redis_api \<Rightarrow> redis_settings \<Rightarrow> string \<Rightarrow> json \<Rightarrow> int option \<Rightarrow> ('s, string, bool) io" where
  "cache_subscription_status api cfg user_id value ttl = set_cached api cfg (''subscription:'' @ user_id) value ttl"

definition invalidate_subscription_cache :: "'s redis_api \<Rightarrow> string \<Rightarrow> ('s, string, bool) io" where
  "invalidate_subscription_cache api user_id = invalidate_cached api (''subscription:'' @ user_id)"

definition cache_chat_guid :: "'s redis_api \<Rightarrow> string \<Rightarrow> string \<Rightarrow> int \<Rightarrow> ('s, string, bool) io" where
  "cache_chat_guid api phone guid ttl =
     io_catch (io_bind (rd_setex api (''chat_guid:'' @ phone) ttl (RText guid)) (\<lambda>_. io_return True))
       (\<lambda>_. io_return False)"

definition get_cached_chat_guid :: "'s redis_api \<Rightarrow> string \<Rightarrow> ('s, string, rval option) io" where
  "get_cached_chat_guid api phone =
     io_catch (io_bind (rd_get api (''chat_guid:'' @ phone))
         (\<lambda>v. io_return (if v = Some (RText []) then None else v)))
       (\<lambda>_. io_return None)"

text \<open>\<open>get_circuit_breaker_status\<close> is the one method that lets a Redis error through.\<close>

definition get_circuit_breaker_status :: "'s redis_api \<Rightarrow> string \<Rightarrow> ('s, string, rval option) io" where
  "get_circuit_breaker_status api service = rd_get api (''circuit_breaker:'' @ service)"

definition open_circuit_breaker :: "'s redis_api \<Rightarrow> string \<Rightarrow> int \<Rightarrow> ('s, string, bool) io" where
  "open_circuit_breaker api service ttl =
     io_catch (io_bind (rd_setex api (''circuit_breaker:'' @ service) ttl (RText ''open'')) (\<lambda>_. io_return True))
       (\<lambda>_. io_return False)"

definition close_circuit_breaker :: "'s redis_api \<Rightarrow> string \<Rightarrow> ('s, string, bool) io" where
  "close_circuit_breaker api service =
     io_catch (io_bind (rd_delete api (''circuit_breaker:'' @ service)) (\<lambda>n. io_return (n \<noteq> 0))) (\<lambda>_. io_return False)"

text \<open>The decorators, around a call \<open>func\<close>.\<close>

datatype 'a outcome = Duplicate_skipped | Outcome 'a

definition with_idempotency :: "'s redis_api \<Rightarrow> redis_settings \<Rightarrow> string \<Rightarrow> string \<Rightarrow> ('s, string, 'a) io \<Rightarrow> ('s, string, 'a outcome) io" where
  "with_idempotency api cfg prefix event_id func =
     io_bind (check_idempotency api cfg (prefix @ '':'' @ event_id) None) (\<lambda>is_new.
       if \<not> is_new then io_return Duplicate_skipped
       else io_bind func (\<lambda>r. io_return (Outcome r)))"

definition with_rate_limit :: "'s redis_api \<Rightarrow> redis_settings \<Rightarrow> string \<Rightarrow> string \<Rightarrow> int \<Rightarrow> int \<Rightarrow> ('s, string, 'a) io \<Rightarrow> ('s, string, 'a) io" where
  "with_rate_limit api cfg prefix name max_requests window func =
     io_bind (check_rate_limit api cfg (prefix @ '':'' @ name) max_requests (Some window)) (\<lambda>(allowed, n).
       if \<not> allowed then io_raise (''Rate limit exceeded: '' @ str_int n @ ''/'' @ str_int max_requests
         @ '' in '' @ str_int window @ ''s'')
       else func)"

section \<open>What other work does to the keys\<close>

text \<open>Calls of the client, and the time between them.\<close>

datatype cmd =
    Check string "int option"
  | Mark string "int option"
  | Cache string json "int option"
  | Read string
  | Drop string
  | Count string int "int option"
  | Pass int

fun exec :: "'s redis_api \<Rightarrow> redis_settings \<Rightarrow> (int \<Rightarrow> 's \<Rightarrow> 's) \<Rightarrow> cmd \<Rightarrow> 's \<Rightarrow> 's" where
  "exec api cfg pass (Check k t) s = snd (check_idempotency api cfg k t s)"
| "exec api cfg pass (Mark k t) s = snd (mark_processed api cfg k t s)"
| "exec api cfg pass (Cache k v t) s = snd (set_cached api cfg k v t s)"
| "exec api cfg pass (Read k) s = snd (get_cached (\<lambda>_. None) api k s)"
| "exec api cfg pass (Drop k) s = snd (invalidate_cached api k s)"
| "exec api cfg pass (Count k m w) s = snd (check_rate_limit api cfg k m w s)"
| "exec api cfg pass (Pass d) s = pass d s"

fun exec_all :: "'s redis_api \<Rightarrow> redis_settings \<Rightarrow> (int \<Rightarrow> 's \<Rightarrow> 's) \<Rightarrow> cmd list \<Rightarrow> 's \<Rightarrow> 's" where
  "exec_all api cfg pass [] s = s"
| "exec_all api cfg pass (c # cs) s = exec_all api cfg pass cs (exec api cfg pass c s)"

text \<open>A command that does not write \<open>key\<close> except by checking it, and does not turn back time.\<close>

fun spares :: "string \<Rightarrow> cmd \<Rightarrow> bool" where
  "spares key (Check k t) = True"
| "spares key (Mark k t) = (k \<noteq> key)"
| "spares key (Cache k v t) = (k \<noteq> key)"
| "spares key (Read k) = True"
| "spares key (Drop k) = (k \<noteq> key)"
| "spares key (Count k m w) = (k \<noteq> key)"
| "spares key (Pass d) = (0 \<le> d)"

fun duration :: "cmd list \<Rightarrow> int" where
  "duration [] = 0"
| "duration (Pass d # cs) = d + duration cs"
| "duration (c # cs) = duration cs"

lemma duration_nonneg: "\<forall>c \<in> set cs. spares key c \<Longrightarrow> 0 \<le> duration cs"
  by (induction cs rule: duration.induct) auto

lemmas client_defs = check_idempotency_def mark_processed_def get_cached_def set_cached_def
  invalidate_cached_def check_rate_limit_def io_catch_def io_bind_def

context redis_server begin

lemma check_answer:
  assumes "rd_set_nx api k (RText ''processed'') (or_int ttl (rs_idempotency_ttl cfg)) s = (Inr b, s')"
  shows "check_idempotency api cfg k ttl s = (Inr b, s')"
  using assms by (simp add: check_idempotency_def io_catch_Inr)

text \<open>A live key stays what it is under commands that spare it, while its deadline has not come.\<close>

lemma get_keeps: "get_cached parse api k s = (res, s') \<Longrightarrow> data s' = data s \<and> clock s' = clock s"
  by (auto simp: get_cached_def io_catch_def io_bind_def dest!: get_frame split: prod.splits sum.splits option.splits if_splits)

lemma check_spares:
  assumes "live (data s) (clock s) key \<noteq> None" "check_idempotency api cfg k t s = (res, s')"
  shows "data s' key = data s key \<and> clock s' = clock s"
proof -
  obtain a where "rd_set_nx api k (RText ''processed'') (or_int t (rs_idempotency_ttl cfg)) s = (a, s')"
    using assms(2) by (auto simp: check_idempotency_def io_catch_def split: prod.splits sum.splits)
  then show ?thesis using assms(1) by (cases a) (auto dest!: set_nx_ok set_nx_err)
qed

lemma setex_spares: "rd_setex api k t v s = (res, s') \<Longrightarrow> k \<noteq> key \<Longrightarrow> data s' key = data s key \<and> clock s' = clock s"
  by (cases res) (auto dest!: setex_ok setex_err)

lemma delete_spares: "rd_delete api k s = (res, s') \<Longrightarrow> k \<noteq> key \<Longrightarrow> data s' key = data s key \<and> clock s' = clock s"
  by (cases res) (auto dest!: delete_ok delete_err)

lemma incr_spares: "rd_incr_expire api k w s = (res, s') \<Longrightarrow> k \<noteq> key \<Longrightarrow> data s' key = data s key \<and> clock s' = clock s"
  by (cases res) (auto dest!: incr_ok incr_err)

lemma exec_spares:
  assumes "live (data s) (clock s) key \<noteq> None" "spares key c"
  shows "data (exec api cfg pass c s) key = data s key
    \<and> clock (exec api cfg pass c s) = clock s + duration [c]"
proof (cases c)
  case (Check k t)
  then show ?thesis using check_spares [OF assms(1)] by (metis add.right_neutral duration.simps(1,3) exec.simps(1) prod.collapse)
next
  case (Read k)
  then show ?thesis using get_keeps by (metis add.right_neutral duration.simps(1,6) exec.simps(4) prod.collapse)
next
  case (Mark k t)
  then show ?thesis using assms(2) setex_spares
    by (auto simp: mark_processed_def io_catch_def io_bind_def split: prod.split sum.split)
next
  case (Cache k v t)
  then show ?thesis using assms(2) setex_spares
    by (auto simp: set_cached_def io_catch_def io_bind_def split: prod.split sum.split)
next
  case (Drop k)
  then show ?thesis using assms(2) delete_spares
    by (auto simp: invalidate_cached_def io_catch_def io_bind_def split: prod.split sum.split)
next
  case (Count k m w)
  then show ?thesis using assms(2) incr_spares
    by (auto simp: check_rate_limit_def io_catch_def io_bind_def split: prod.split sum.split)
next
  case (Pass d)
  then show ?thesis using assms(2) by (simp add: pass_clock pass_data)
qed

lemma duration_Cons: "duration (c # cs) = duration [c] + duration cs"
  by (cases c) simp_all

lemma exec_all_spares:
  assumes "data s key = Some (v, t)" "\<forall>c \<in> set cs. spares key c" "clock s + duration cs < t"
  shows "data (exec_all api cfg pass cs s) key = Some (v, t)
    \<and> clock (exec_all api cfg pass cs s) = clock s + duration cs"
  using assms
proof (induction cs arbitrary: s)
  case (Cons c cs)
  have "0 \<le> duration [c]" "0 \<le> duration cs"
    using Cons.prems(2) duration_nonneg [of "[c]" key] duration_nonneg [of cs key] by auto
  with Cons.prems(3) duration_Cons [of c cs] have "clock s < t" by linarith
  with Cons.prems(1) have "live (data s) (clock s) key \<noteq> None" by (simp add: live_def)
  from exec_spares [OF this, of c cfg] Cons.prems
  have step: "data (exec api cfg pass c s) key = Some (v, t)"
    "clock (exec api cfg pass c s) = clock s + duration [c]" by auto
  with Cons.IH [of "exec api cfg pass c s"] Cons.prems duration_Cons [of c cs] show ?case by simp
qed simp

lemma check_duplicate:
  assumes "data s key = Some (v, t)" "clock s < t"
    and "fst (rd_set_nx api key (RText ''processed'') (or_int ttl (rs_idempotency_ttl cfg)) s) = Inr b"
  shows "fst (check_idempotency api cfg key ttl s) = Inr False"
proof -
  obtain s' where nx: "rd_set_nx api key (RText ''processed'') (or_int ttl (rs_idempotency_ttl cfg)) s = (Inr b, s')"
    using assms(3) by (metis prod.collapse)
  with set_nx_ok [OF nx] assms(1,2) have "\<not> b" by (simp add: live_def)
  with check_answer [OF nx] show ?thesis by simp
qed

text \<open>The cache: what is set is read back until the deadline.\<close>

lemma cache_read_back:
  assumes set: "set_cached api cfg key v ttl s = (Inr True, s1)"
    and cs: "\<forall>c \<in> set cs. spares key c" "duration cs < or_int ttl (rs_cache_ttl cfg)"
    and get: "rd_get api key (exec_all api cfg pass cs s1) = (Inr x, s3)"
  shows "get_cached parse api key (exec_all api cfg pass cs s1) = (Inr (Some v), s3)"
proof -
  let ?t = "or_int ttl (rs_cache_ttl cfg)"
  have "rd_setex api key ?t (RJson v) s = (Inr (), s1)"
    using set by (auto simp: set_cached_def io_catch_def io_bind_def split: prod.splits sum.splits)
  from setex_ok [OF this] have "clock s1 = clock s" and d: "data s1 key = Some (RJson v, clock s1 + ?t)" by auto
  from exec_all_spares [OF d, of cs cfg] cs
  have "live (data (exec_all api cfg pass cs s1)) (clock (exec_all api cfg pass cs s1)) key = Some (RJson v)"
    by (simp add: live_def)
  with get_ok [OF get] get show ?thesis
    by (simp add: get_cached_def io_catch_def io_bind_def)
qed

lemma cache_gone:
  assumes "invalidate_cached api key s = (Inr True, s1)" "rd_get api key s1 = (Inr x, s2)"
  shows "get_cached parse api key s1 = (Inr None, s2)"
proof -
  obtain n where del: "rd_delete api key s = (Inr n, s1)"
    using assms(1) by (auto simp: invalidate_cached_def io_catch_def io_bind_def split: prod.splits sum.splits)
  from delete_ok [OF del] get_ok [OF assms(2)] have "x = None" by auto
  with assms(2) show ?thesis
    by (simp add: get_cached_def io_catch_def io_bind_def)
qed

text \<open>The counter of a key that is hit again before each window ends.\<close>

lemma count_continues:
  assumes up: "rd_incr_expire api key w (pass d s) = (Inr n, s')" and d: "0 \<le> d" "d < w"
    and st: "data s key = Some (RCount c, clock s + w)"
  shows "n = c + 1 \<and> data s' key = Some (RCount (c + 1), clock s' + w)"
  using incr_ok [OF up] st d by (auto simp: pass_data pass_clock live_def split: if_splits)

lemma count_starts:
  assumes "rd_incr_expire api key w s = (Inr n, s')" "0 < w" "live (data s) (clock s) key = None"
  shows "n = 1 \<and> data s' key = Some (RCount 1, clock s' + w)"
  using incr_ok [OF assms(1)] assms(2,3) by auto

end

section \<open>Hits on a rate limit\<close>

text \<open>Calls of \<open>check_rate_limit\<close>, each a given time after the one before.\<close>

fun hits :: "'s redis_api \<Rightarrow> redis_settings \<Rightarrow> (int \<Rightarrow> 's \<Rightarrow> 's) \<Rightarrow> string \<Rightarrow> int \<Rightarrow> int option \<Rightarrow> int list \<Rightarrow> 's
    \<Rightarrow> (string + bool \<times> int) list" where
  "hits api cfg pass key m w [] s = []"
| "hits api cfg pass key m w (d # ds) s =
     (case check_rate_limit api cfg key m w (pass d s) of (r, s1) \<Rightarrow> r # hits api cfg pass key m w ds s1)"

text \<open>Redis answers every one of these hits.\<close>

fun answered :: "'s redis_api \<Rightarrow> (int \<Rightarrow> 's \<Rightarrow> 's) \<Rightarrow> string \<Rightarrow> int \<Rightarrow> int list \<Rightarrow> 's \<Rightarrow> bool" where
  "answered api pass key w [] s = True"
| "answered api pass key w (d # ds) s = (case rd_incr_expire api key w (pass d s) of
     (Inl e, s1) \<Rightarrow> False | (Inr n, s1) \<Rightarrow> answered api pass key w ds s1)"

lemma answered_Cons:
  assumes "answered api pass key w (d # ds) s"
  obtains n s1 where "rd_incr_expire api key w (pass d s) = (Inr n, s1)" "answered api pass key w ds s1"
  using assms by (auto split: prod.splits sum.splits)

text \<open>The answers of \<open>n\<close> hits that find the counter at \<open>c\<close>\<close>

primrec counted :: "int \<Rightarrow> int \<Rightarrow> nat \<Rightarrow> (string + bool \<times> int) list" where
  "counted m c 0 = []"
| "counted m c (Suc n) = Inr (c + 1 \<le> m, c + 1) # counted m (c + 1) n"

lemma length_counted [simp]: "length (counted m c n) = n"
  by (induction n arbitrary: c) simp_all

lemma nth_counted: "i < n \<Longrightarrow> counted m c n ! i = Inr (c + 1 + int i \<le> m, c + 1 + int i)"
  by (induction n arbitrary: c i) (auto simp: nth_Cons algebra_simps split: nat.split)

lemma hits_count:
  assumes "redis_server api data clock pass"
    and "answered api pass key (or_int w (rs_rate_limit_window cfg)) ds s"
    and "data s key = Some (RCount c, clock s + or_int w (rs_rate_limit_window cfg))"
    and "\<forall>d \<in> set ds. 0 \<le> d \<and> d < or_int w (rs_rate_limit_window cfg)"
  shows "hits api cfg pass key m w ds s = counted m c (length ds)"
  using assms(2-4)
proof (induction ds arbitrary: s c)
  case (Cons d ds)
  from Cons.prems(1) obtain n s' where n: "rd_incr_expire api key (or_int w (rs_rate_limit_window cfg)) (pass d s) = (Inr n, s')"
    and ans: "answered api pass key (or_int w (rs_rate_limit_window cfg)) ds s'"
    by (rule answered_Cons)
  from redis_server.count_continues [OF assms(1) n] Cons.prems
  have "n = c + 1" and st: "data s' key = Some (RCount (c + 1), clock s' + or_int w (rs_rate_limit_window cfg))" by auto
  moreover from Cons.IH [OF ans st] Cons.prems(3)
  have "hits api cfg pass key m w ds s' = counted m (c + 1) (length ds)" by simp
  ultimately show ?case using n by (simp add: check_rate_limit_def io_catch_def io_bind_def)
qed simp

section \<open>A server in memory\<close>

record mem_server =
  ms_clock :: int
  ms_data :: store
  ms_up :: bool

definition mem_cmd :: "('z mem_server_scheme \<Rightarrow> 'a \<times> store) \<Rightarrow> ('z mem_server_scheme, string, 'a) io" where
  "mem_cmd f s = (if ms_up s then (case f s of (x, m) \<Rightarrow> (Inr x, s\<lparr>ms_data := m\<rparr>)) else (Inl ''ConnectionError'', s))"

definition mem_live :: "'z mem_server_scheme \<Rightarrow> string \<Rightarrow> rval option" where
  "mem_live s = live (ms_data s) (ms_clock s)"

definition mem_redis :: "'z mem_server_scheme redis_api" where
  "mem_redis = \<lparr>
     rd_set_nx = (\<lambda>k v ttl. mem_cmd (\<lambda>s. if mem_live s k = None then (True, (ms_data s)(k \<mapsto> (v, ms_clock s + ttl))) else (False, ms_data s))),
     rd_setex = (\<lambda>k ttl v. mem_cmd (\<lambda>s. ((), (ms_data s)(k \<mapsto> (v, ms_clock s + ttl))))),
     rd_get = (\<lambda>k. mem_cmd (\<lambda>s. (mem_live s k, ms_data s))),
     rd_delete = (\<lambda>k. mem_cmd (\<lambda>s. (if mem_live s k = None then 0 else 1, (ms_data s)(k := None)))),
     rd_incr_expire = (\<lambda>k w. mem_cmd (\<lambda>s.
       let n = (case mem_live s k of Some (RCount m) \<Rightarrow> m + 1 | _ \<Rightarrow> 1)
       in (n, (ms_data s)(k \<mapsto> (RCount n, ms_clock s + w))))) \<rparr>"

definition mem_pass :: "int \<Rightarrow> 'z mem_server_scheme \<Rightarrow> 'z mem_server_scheme" where
  "mem_pass d s = s\<lparr>ms_clock := ms_clock s + d\<rparr>"

definition empty_server :: mem_server where
  "empty_server = \<lparr>ms_clock = 0, ms_data = Map.empty, ms_up = True\<rparr>"

lemmas mem_redis_eval = mem_redis_def mem_cmd_def mem_live_def mem_pass_def empty_server_def live_def or_int_def

lemma mem_redis_server: "redis_server mem_redis ms_data ms_clock mem_pass"
proof (unfold_locales, goal_cases)
  case (9 k s count s')
  then show ?case by (auto simp: mem_redis_def mem_cmd_def mem_live_def live_def split: if_splits)
qed (auto simp: mem_redis_def mem_cmd_def mem_live_def mem_pass_def Let_def split: if_splits)

interpretation rmem: redis_server mem_redis ms_data ms_clock mem_pass
  by (rule mem_redis_server)

section \<open>Properties\<close>

text \<open>Idempotency keys. Once Redis has answered a check of a key with "new", a check before the
TTL has passed that Redis answers is a duplicate, whatever other calls ran in between (checks of
the same key included, also failing ones), as long as none of them marks, caches, counts or
drops that very key.\<close>

theorem second_check_is_duplicate:
  assumes server: "redis_server api data clock pass"
    and first: "rd_set_nx api key (RText ''processed'') (or_int ttl (rs_idempotency_ttl cfg)) s = (Inr True, s1)"
    and between: "\<forall>c \<in> set cs. spares key c" "duration cs < or_int ttl (rs_idempotency_ttl cfg)"
    and answers: "fst (rd_set_nx api key (RText ''processed'') (or_int ttl2 (rs_idempotency_ttl cfg)) (exec_all api cfg pass cs s1)) = Inr b"
  shows "check_idempotency api cfg key ttl s = (Inr True, s1)
    \<and> fst (check_idempotency api cfg key ttl2 (exec_all api cfg pass cs s1)) = Inr False"
proof -
  from redis_server.set_nx_ok [OF server first]
  have d: "data s1 key = Some (RText ''processed'', clock s1 + or_int ttl (rs_idempotency_ttl cfg))" by simp
  from redis_server.exec_all_spares [OF server d between(1), of cfg] between(2)
  have "data (exec_all api cfg pass cs s1) key = Some (RText ''processed'', clock s1 + or_int ttl (rs_idempotency_ttl cfg))"
    and "clock (exec_all api cfg pass cs s1) < clock s1 + or_int ttl (rs_idempotency_ttl cfg)" by auto
  from redis_server.check_duplicate [OF server this answers] redis_server.check_answer [OF server first]
  show ?thesis by simp
qed

lemma second_check_is_duplicate_witness:
  "fst (check_idempotency mem_redis default_redis_settings ''k'' None empty_server) = Inr True
   \<and> fst (check_idempotency mem_redis default_redis_settings ''k'' None
      (exec_all mem_redis default_redis_settings mem_pass [Pass 100, Check ''k'' (Some 5), Count ''r'' 3 None]
        (snd (rd_set_nx mem_redis ''k'' (RText ''processed'') 86400 empty_server)))) = Inr False"
proof -
  let ?s1 = "snd (rd_set_nx mem_redis ''k'' (RText ''processed'') 86400 empty_server)"
  have ttl: "or_int None (rs_idempotency_ttl default_redis_settings) = 86400"
    by (simp add: or_int_def default_redis_settings_def)
  have first: "rd_set_nx mem_redis ''k'' (RText ''processed'') (or_int None (rs_idempotency_ttl default_redis_settings))
      empty_server = (Inr True, ?s1)"
    unfolding ttl by (simp add: mem_redis_eval)
  show ?thesis
    using second_check_is_duplicate [OF mem_redis_server first,
        of "[Pass 100, Check ''k'' (Some 5), Count ''r'' 3 None]" None False]
    by (simp add: ttl mem_redis_eval check_idempotency_def check_rate_limit_def io_catch_def io_bind_def default_redis_settings_def)
qed

text \<open>The rate limit counts for ever under steady traffic. \<open>check_rate_limit\<close> renews the expiry
on every hit, so the window never slides: hits that each come less than a window after the
previous one are numbered 1, 2, 3, ... and every one after the first \<open>max_requests\<close> is refused,
however slow the traffic is compared to the limit.\<close>

theorem rate_limit_never_slides:
  assumes server: "redis_server api data clock pass"
    and fresh: "live (data s) (clock s) key = None"
    and gaps: "\<forall>d \<in> set ds. 0 \<le> d \<and> d < or_int w (rs_rate_limit_window cfg)"
    and answers: "answered api pass key (or_int w (rs_rate_limit_window cfg)) (0 # ds) s"
    and w: "0 < or_int w (rs_rate_limit_window cfg)" and i: "i \<le> length ds"
  shows "hits api cfg pass key m w (0 # ds) s ! i = Inr (int i + 1 \<le> m, int i + 1)"
proof -
  from answers obtain n s1 where n: "rd_incr_expire api key (or_int w (rs_rate_limit_window cfg)) (pass 0 s) = (Inr n, s1)"
    and ans: "answered api pass key (or_int w (rs_rate_limit_window cfg)) ds s1"
    by (rule answered_Cons)
  have "live (data (pass 0 s)) (clock (pass 0 s)) key = None"
    using fresh redis_server.pass_clock [OF server, of 0] redis_server.pass_data [OF server] by simp
  from redis_server.count_starts [OF server n w this]
  have "n = 1" and st: "data s1 key = Some (RCount 1, clock s1 + or_int w (rs_rate_limit_window cfg))" by auto
  with hits_count [OF server ans st gaps] n
  have "hits api cfg pass key m w (0 # ds) s = counted m 0 (Suc (length ds))"
    by (simp add: check_rate_limit_def io_catch_def io_bind_def)
  then show ?thesis using nth_counted [of i "Suc (length ds)" m 0] i by (simp add: algebra_simps)
qed

text \<open>A limit of 2 per 60 seconds, one hit every 50 seconds: the third is refused.\<close>

lemma rate_limit_never_slides_witness:
  "hits mem_redis default_redis_settings mem_pass ''k'' 2 None [0, 50, 50, 50] empty_server ! 2 = Inr (False, 3)"
proof -
  have w: "or_int None (rs_rate_limit_window default_redis_settings) = 60"
    by (simp add: or_int_def default_redis_settings_def)
  have ans: "answered mem_redis mem_pass ''k'' (or_int None (rs_rate_limit_window default_redis_settings))
      [0, 50, 50, 50] empty_server"
    unfolding w by (simp add: mem_redis_eval Let_def)
  show ?thesis
    using rate_limit_never_slides [OF mem_redis_server _ _ ans, of 2 2]
    by (simp add: w) (simp add: mem_redis_eval)
qed

text \<open>The cache. A value that \<open>set_cached\<close> stored is what \<open>get_cached\<close> answers until its TTL
has passed, if nothing else writes its key; right after \<open>invalidate_cached\<close> reported a deletion
the key is a miss.\<close>

theorem cache_answers_what_was_set:
  assumes server: "redis_server api data clock pass"
    and set: "set_cached api cfg key v ttl s = (Inr True, s1)"
    and between: "\<forall>c \<in> set cs. spares key c" "duration cs < or_int ttl (rs_cache_ttl cfg)"
    and get: "rd_get api key (exec_all api cfg pass cs s1) = (Inr x, s2)"
    and drop: "invalidate_cached api key s2 = (Inr True, s3)" "rd_get api key s3 = (Inr y, s4)"
  shows "get_cached parse api key (exec_all api cfg pass cs s1) = (Inr (Some v), s2)
    \<and> get_cached parse api key s3 = (Inr None, s4)"
  using redis_server.cache_read_back [OF server set between get] redis_server.cache_gone [OF server drop] by simp

lemma cache_answers_what_was_set_witness:
  "fst (get_cached (\<lambda>_. None) mem_redis ''k'' (exec_all mem_redis default_redis_settings mem_pass [Pass 299, Drop ''j'']
     (snd (set_cached mem_redis default_redis_settings ''k'' (JInt 7) None empty_server)))) = Inr (Some (JInt 7))"
proof -
  define s1 where "s1 = snd (set_cached mem_redis default_redis_settings ''k'' (JInt 7) None empty_server)"
  define s2 where "s2 = exec_all mem_redis default_redis_settings mem_pass [Pass 299, Drop ''j''] s1"
  define s3 where "s3 = snd (invalidate_cached mem_redis ''k'' s2)"
  have set: "set_cached mem_redis default_redis_settings ''k'' (JInt 7) None empty_server = (Inr True, s1)"
    by (simp add: s1_def set_cached_def io_catch_def io_bind_def mem_redis_eval)
  have get: "rd_get mem_redis ''k'' s2 = (Inr (Some (RJson (JInt 7))), s2)"
    and drop: "invalidate_cached mem_redis ''k'' s2 = (Inr True, s3)"
    and get2: "rd_get mem_redis ''k'' s3 = (Inr None, s3)"
    by (simp_all add: s1_def s2_def s3_def set_cached_def invalidate_cached_def io_catch_def io_bind_def mem_redis_eval default_redis_settings_def)
  show ?thesis
    using cache_answers_what_was_set [OF mem_redis_server set, of "[Pass 299, Drop ''j'']", folded s2_def, OF _ _ get drop get2]
    by (simp add: or_int_def default_redis_settings_def s1_def s2_def)
qed

end
