(* ===== verification/Kafka_Events.thy ===== *)
theory Kafka_Events
  imports Redis_Guard "HOL-Library.Transitive_Closure_Table"
begin

text \<open>
  Events on the Kafka pipeline: how app/integrations/kafka_pipeline.py builds, keys, decodes,
  retries and parks them, and how app/main.py consumes them (\<open>_handle_kafka_event\<close>) behind an
  idempotency key in Redis. The Kafka client, the processing of a message and the sleep are
  parameters (\<open>kafka_api\<close>); Redis is the interface of Redis_Guard.
\<close>

section \<open>Python values\<close>

text \<open>\<open>d[k] = v\<close> keeps the place of a key that is there.\<close>

fun dict_put :: "string \<Rightarrow> json \<Rightarrow> dict \<Rightarrow> dict" where
  "dict_put k v [] = [(k, v)]"
| "dict_put k v ((k', v') # d) = (if k' = k then (k, v) # d else (k', v') # dict_put k v d)"

definition dict_setdefault :: "string \<Rightarrow> json \<Rightarrow> dict \<Rightarrow> dict" where
  "dict_setdefault k v d = (if map_of d k = None then dict_put k v d else d)"

lemma map_of_dict_put [simp]: "map_of (dict_put k v d) = (map_of d)(k \<mapsto> v)"
  by (induction d) (auto simp: fun_upd_def fun_eq_iff)

lemma get_str_put [simp]: "get_str (dict_put k v d) k' = (if k' = k then (case v of JStr s \<Rightarrow> Some s | _ \<Rightarrow> None) else get_str d k')"
  by (simp add: get_str_def split: json.split)

text \<open>
  An exception object with its class, the names of its class and base classes, its text and its
  links; an exception is an object in a graph of such objects, which may have cycles.
\<close>

record exc_obj =
  xo_class :: string
  xo_mro :: "string list"
  xo_text :: string
  xo_cause :: "nat option"
  xo_context :: "nat option"

record exc =
  ex_heap :: "exc_obj list"
  ex_id :: nat

definition ex_obj :: "exc \<Rightarrow> exc_obj" where
  "ex_obj e = ex_heap e ! ex_id e"

definition simple_exc :: "string \<Rightarrow> string list \<Rightarrow> string \<Rightarrow> exc" where
  "simple_exc c bases t = \<lparr>ex_heap = [\<lparr>xo_class = c, xo_mro = c # bases, xo_text = t, xo_cause = None, xo_context = None\<rparr>], ex_id = 0\<rparr>"

text \<open>\<open>int(x or 0)\<close> for the value of a key: of text as Python reads a decimal integer.\<close>

fun parse_digits :: "nat \<Rightarrow> string \<Rightarrow> nat option" where
  "parse_digits acc [] = Some acc"
| "parse_digits acc (c # cs) =
     (if is_digit c then parse_digits (10 * acc + (of_char c - 48)) cs
      else if c = CHR ''_'' then (case cs of [] \<Rightarrow> None | d # _ \<Rightarrow> if is_digit d then parse_digits acc cs else None)
      else None)"

definition parse_nat :: "string \<Rightarrow> nat option" where
  "parse_nat s = (case s of [] \<Rightarrow> None | c # _ \<Rightarrow> if is_digit c then parse_digits 0 s else None)"

definition parse_int :: "string \<Rightarrow> int option" where
  "parse_int s = (case py_strip s of [] \<Rightarrow> None
     | c # cs \<Rightarrow> if c = CHR ''-'' then map_option (\<lambda>n. - int n) (parse_nat cs)
                else if c = CHR ''+'' then map_option int (parse_nat cs)
                else map_option int (parse_nat (c # cs)))"

fun int_or_0 :: "json option \<Rightarrow> exc + int" where
  "int_or_0 None = Inr 0"
| "int_or_0 (Some JNull) = Inr 0"
| "int_or_0 (Some (JBool b)) = Inr (if b then 1 else 0)"
| "int_or_0 (Some (JInt n)) = Inr n"
| "int_or_0 (Some (JStr s)) = (if s = [] then Inr 0 else (case parse_int s of
     None \<Rightarrow> Inl (simple_exc ''ValueError'' [''Exception''] ''invalid literal for int()'') | Some n \<Rightarrow> Inr n))"
| "int_or_0 (Some (JTime t)) = Inl (simple_exc ''ValueError'' [''Exception''] ''invalid literal for int()'')"
| "int_or_0 (Some (JList xs)) = (if xs = [] then Inr 0 else Inl (simple_exc ''TypeError'' [''Exception''] ''int() argument''))"
| "int_or_0 (Some (JObj d)) = (if d = [] then Inr 0 else Inl (simple_exc ''TypeError'' [''Exception''] ''int() argument''))"

section \<open>Errors\<close>

text \<open>\<open>_iter_exception_chain\<close>: follow the cause, else the context, until an object comes back.\<close>

definition next_exc :: "exc_obj \<Rightarrow> nat option" where
  "next_exc x = (case xo_cause x of Some j \<Rightarrow> Some j | None \<Rightarrow> xo_context x)"

function exc_chain :: "exc_obj list \<Rightarrow> nat list \<Rightarrow> nat option \<Rightarrow> exc_obj list" where
  "exc_chain h seen None = []"
| "exc_chain h seen (Some i) =
     (if i \<in> set seen \<or> length h \<le> i then [] else h ! i # exc_chain h (i # seen) (next_exc (h ! i)))"
  by pat_completeness auto
termination
proof (relation "measure (\<lambda>(h, seen, i). card ({..<length h} - set seen))", goal_cases)
  case (2 h seen i)
  then have i: "i \<in> {..<length h} - set seen" by simp
  have "{..<length h} - set (i # seen) = ({..<length h} - set seen) - {i}" by auto
  with i have "{..<length h} - set (i # seen) \<subset> {..<length h} - set seen" by blast
  then show ?case by (simp add: psubset_card_mono)
qed simp

definition sasl_text :: "exc_obj \<Rightarrow> bool" where
  "sasl_text x \<longleftrightarrow> xo_class x \<in> {''SaslAuthenticationFailedError'', ''SaslAuthenticationFailed''}
     \<or> contains_str ''SaslAuthenticationFailed'' (xo_text x)
     \<or> contains_str ''Access denied'' (xo_text x) \<and> contains_str ''Sasl'' (xo_text x)"

definition is_sasl_auth_error :: "exc \<Rightarrow> bool" where
  "is_sasl_auth_error e \<longleftrightarrow> (\<exists>x \<in> set (exc_chain (ex_heap e) [] (Some (ex_id e))). sasl_text x)"

definition isinstance :: "exc \<Rightarrow> string list \<Rightarrow> bool" where
  "isinstance e classes \<longleftrightarrow> (\<exists>c \<in> set classes. c \<in> set (xo_mro (ex_obj e)))"

definition is_retryable_error :: "exc \<Rightarrow> bool" where
  "is_retryable_error e =
     (if isinstance e [''TimeoutError'', ''ConnectionError'', ''OSError''] then True
      else if isinstance e [''ValueError''] then False
      else True)"

section \<open>Settings and topics\<close>

record kafka_settings =
  ks_app_env :: string
  ks_max_attempts :: int
  ks_inbound :: string
  ks_retry_30s :: string
  ks_retry_2m :: string
  ks_retry_10m :: string
  ks_dlq :: string
  ks_latency_test_run :: string
  ks_idempotency_ttl :: int
  ks_redis :: redis_settings

definition default_kafka_settings :: kafka_settings where
  "default_kafka_settings = \<lparr>ks_app_env = ''development'', ks_max_attempts = 6,
     ks_inbound = ''photon.inbound.v1'', ks_retry_30s = ''photon.inbound.retry.30s'',
     ks_retry_2m = ''photon.inbound.retry.2m'', ks_retry_10m = ''photon.inbound.retry.10m'',
     ks_dlq = ''photon.inbound.dlq.v1'', ks_latency_test_run = '''', ks_idempotency_ttl = 86400,
     ks_redis = default_redis_settings\<rparr>"

definition consumer_topics :: "kafka_settings \<Rightarrow> string list" where
  "consumer_topics ks = [ks_inbound ks, ks_retry_30s ks, ks_retry_2m ks, ks_retry_10m ks]"

definition required_topics :: "kafka_settings \<Rightarrow> string list" where
  "required_topics ks = [ks_inbound ks, ks_retry_30s ks, ks_retry_2m ks, ks_retry_10m ks, ks_dlq ks]"

definition retry_index :: "int \<Rightarrow> nat" where
  "retry_index attempt = nat (min (max 1 attempt - 1) 2)"

definition retry_delay_seconds :: "int \<Rightarrow> int" where
  "retry_delay_seconds attempt = [30, 120, 600] ! retry_index attempt"

definition retry_topic :: "kafka_settings \<Rightarrow> int \<Rightarrow> string" where
  "retry_topic ks attempt = [ks_retry_30s ks, ks_retry_2m ks, ks_retry_10m ks] ! retry_index attempt"

text \<open>
  \<open>ensure_kafka_topics\<close>: the flag \<open>_TOPIC_BOOTSTRAP_DONE\<close> goes in and comes out. \<open>create\<close> is
  \<open>create_topics\<close>, where \<open>TopicAlreadyExistsError\<close> is ignored.
\<close>

definition ensure_kafka_topics :: "kafka_settings \<Rightarrow> ('s, exc, string list) io \<Rightarrow> (string list \<Rightarrow> ('s, exc, unit) io)
    \<Rightarrow> bool \<Rightarrow> ('s, exc, bool) io" where
  "ensure_kafka_topics ks list_topics create finished =
     (if finished then io_return True
      else io_bind list_topics (\<lambda>existing.
        let to_create = filter (\<lambda>n. n \<notin> set existing) (required_topics ks) in
        io_bind (if to_create = [] then io_return ()
                 else io_catch (create to_create) (\<lambda>e.
                   if isinstance e [''TopicAlreadyExistsError''] then io_return () else io_raise e)) (\<lambda>_.
        io_bind list_topics (\<lambda>existing_after.
          if filter (\<lambda>n. n \<notin> set existing_after) (required_topics ks) = [] then io_return True
          else io_raise (simple_exc ''RuntimeError'' [''Exception''] ''Kafka topics missing after bootstrap'')))))"

section \<open>Building events\<close>

record photon_payload =
  pp_message_id :: "string option"
  pp_chat_guid :: "string option"
  pp_from_number :: "string option"
  pp_to_number :: "string option"
  pp_content :: "string option"
  pp_media_url :: "string option"
  pp_timestamp :: json
  pp_is_location_share :: "json option"
  pp_attempt :: "json option"
  pp_trace_id :: "string option"
  pp_raw_payload :: "json option"

text \<open>\<open>sha16\<close> stands for the first 16 hex digits of SHA-256, whatever they are.\<close>

definition fallback_event_id :: "(string \<Rightarrow> string) \<Rightarrow> photon_payload \<Rightarrow> string" where
  "fallback_event_id sha16 p = sha16 (join_str ''|''
     [or_str (pp_from_number p) ''unknown'', or_str (pp_chat_guid p) '''',
      or_str (pp_content p) '''', or_str (pp_media_url p) ''''])"

definition build_idempotency_key :: "kafka_settings \<Rightarrow> (string \<Rightarrow> string) \<Rightarrow> photon_payload \<Rightarrow> string \<Rightarrow> string" where
  "build_idempotency_key ks sha16 p message_id =
     (let env_prefix = (if ks_app_env ks = ''development'' then ''dev_'' else '''');
          mid = py_strip message_id
      in if mid \<noteq> [] \<and> \<not> starts_with ''photon_hash:'' mid then env_prefix @ ''photon_msg:'' @ mid
         else if starts_with ''photon_hash:'' mid then env_prefix @ ''photon_msg_hash:'' @ drop 12 mid
         else env_prefix @ ''photon_msg_hash:'' @ fallback_event_id sha16 p)"

definition event_id_of :: "(string \<Rightarrow> string) \<Rightarrow> photon_payload \<Rightarrow> string" where
  "event_id_of sha16 p = (let mid = py_strip (or_str (pp_message_id p) '''')
     in if mid \<noteq> [] then mid else ''photon_hash:'' @ fallback_event_id sha16 p)"

definition partition_key_of :: "(string \<Rightarrow> string) \<Rightarrow> photon_payload \<Rightarrow> string" where
  "partition_key_of sha16 p = or_str (pp_chat_guid p) (or_str (pp_from_number p) (event_id_of sha16 p))"

definition is_group_chat :: "string option \<Rightarrow> bool" where
  "is_group_chat guid = (case guid of None \<Rightarrow> False
     | Some g \<Rightarrow> g \<noteq> [] \<and> (contains_str '';+;'' g \<or> starts_with ''chat'' g))"

definition build_kafka_event :: "kafka_settings \<Rightarrow> (string \<Rightarrow> string) \<Rightarrow> int \<Rightarrow> string \<Rightarrow> photon_payload \<Rightarrow> exc + dict" where
  "build_kafka_event ks sha16 now fresh_trace p =
     (let message_id = py_strip (or_str (pp_message_id p) '''');
          event_id = event_id_of sha16 p;
          test_run = py_strip (ks_latency_test_run ks)
      in case int_or_0 (pp_attempt p) of Inl e \<Rightarrow> Inl e | Inr attempt \<Rightarrow> Inr (
       [(''schema_version'', JInt 1),
        (''event_id'', JStr event_id),
        (''idempotency_key'', JStr (build_idempotency_key ks sha16 p (if message_id \<noteq> [] then message_id else event_id))),
        (''source'', JStr ''photon''),
        (''received_at'', JTime now),
        (''payload_timestamp'', pp_timestamp p),
        (''from_number'', json_opt_str (pp_from_number p)),
        (''to_number'', json_opt_str (pp_to_number p)),
        (''content'', json_opt_str (pp_content p)),
        (''media_url'', json_opt_str (pp_media_url p)),
        (''message_id'', json_opt_str (none_if_empty message_id)),
        (''chat_guid'', json_opt_str (pp_chat_guid p)),
        (''is_group'', JBool (is_group_chat (pp_chat_guid p))),
        (''is_location_share'', JBool (json_truthy (pp_is_location_share p))),
        (''attempt'', JInt attempt),
        (''trace_id'', JStr (or_str (pp_trace_id p) fresh_trace)),
        (''partition_key'', JStr (partition_key_of sha16 p))]
       @ (if test_run \<noteq> [] then [(''test_run'', JStr test_run)] else [])
       @ (case pp_raw_payload p of None \<Rightarrow> [] | Some r \<Rightarrow> if r = JNull then [] else [(''raw_payload'', r)])))"

text \<open>The key of the Kafka message, and the key of the per-key lock in the consumer.\<close>

definition message_key :: "string option \<Rightarrow> dict \<Rightarrow> string" where
  "message_key key ev = or_str key (or_str (get_str ev ''partition_key'') (or_str (get_str ev ''event_id'') ''''))"

definition derive_lock_key :: "dict option \<Rightarrow> string \<Rightarrow> nat \<Rightarrow> int \<Rightarrow> string" where
  "derive_lock_key ev topic pnum offset =
     (let fallback = ''offset:'' @ topic @ '':'' @ str_nat pnum @ '':'' @ str_int offset in
      case ev of None \<Rightarrow> fallback | Some d \<Rightarrow>
        if d = [] then fallback else
        (let key = py_strip (or_str (get_str d ''partition_key'') (or_str (get_str d ''chat_guid'')
               (or_str (get_str d ''from_number'') (or_str (get_str d ''event_id'') ''''))))
         in if key \<noteq> [] then key else fallback))"

text \<open>\<open>parse\<close> stands for decoding and \<open>json.loads\<close>, which may fail.\<close>

definition decode_event :: "('raw \<Rightarrow> json option) \<Rightarrow> string \<Rightarrow> 'raw \<Rightarrow> dict option" where
  "decode_event parse topic value = (case parse value of
     Some (JObj d) \<Rightarrow> Some (dict_setdefault ''source_topic'' (JStr topic) d)
   | _ \<Rightarrow> None)"

section \<open>Sending, retrying and parking\<close>

record 's kafka_api =
  ka_send :: "string \<Rightarrow> dict \<Rightarrow> string \<Rightarrow> ('s, exc, unit) io" \<comment> \<open>\<open>send_and_wait\<close>: topic, event, key\<close>
  ka_restart :: "('s, exc, unit) io" \<comment> \<open>\<open>_restart_for_auth_error\<close>\<close>
  ka_has_producer :: "'s \<Rightarrow> bool"
  ka_sleep :: "int \<Rightarrow> ('s, exc, unit) io"
  ka_now :: "'s \<Rightarrow> int"
  ka_commit :: "int \<Rightarrow> ('s, exc, unit) io" \<comment> \<open>\<open>commit({tp: n})\<close>\<close>

definition runtime_error :: "string \<Rightarrow> exc" where
  "runtime_error t = simple_exc ''RuntimeError'' [''Exception''] t"

text \<open>Both producers: on an authentication error restart the client and send once more.\<close>

definition send_once_more :: "'s kafka_api \<Rightarrow> string \<Rightarrow> dict \<Rightarrow> string \<Rightarrow> ('s, exc, unit) io" where
  "send_once_more api topic ev key =
     io_catch (ka_send api topic ev key) (\<lambda>e.
       if is_sasl_auth_error e
       then io_bind (ka_restart api) (\<lambda>_ s. if \<not> ka_has_producer api s then (Inl e, s) else ka_send api topic ev key s)
       else io_raise e)"

definition send_event :: "'s kafka_api \<Rightarrow> string \<Rightarrow> dict \<Rightarrow> string option \<Rightarrow> ('s, exc, unit) io" where
  "send_event api topic ev key s =
     (if \<not> ka_has_producer api s then (Inl (runtime_error ''Kafka producer not started''), s)
      else send_once_more api topic ev (message_key key ev) s)"

definition send_with_auth_retry :: "'s kafka_api \<Rightarrow> string \<Rightarrow> dict \<Rightarrow> ('s, exc, unit) io" where
  "send_with_auth_retry api topic ev s =
     (if \<not> ka_has_producer api s then (Inl (runtime_error ''Kafka retry producer not started''), s)
      else send_once_more api topic ev (message_key None ev) s)"

text \<open>What \<open>_handle_failure\<close> sends where: the event of the next attempt, or the dead letter.\<close>

definition max_attempts :: "kafka_settings \<Rightarrow> int" where
  "max_attempts ks = (if ks_max_attempts ks = 0 then 6 else ks_max_attempts ks)"

definition note_error :: "int \<Rightarrow> exc \<Rightarrow> dict \<Rightarrow> dict" where
  "note_error now e ev = dict_put ''last_error_at'' (JTime now)
     (dict_put ''last_error'' (JStr (xo_class (ex_obj e) @ '':'' @ take 240 (xo_text (ex_obj e)))) ev)"

definition after_failure :: "kafka_settings \<Rightarrow> int \<Rightarrow> exc \<Rightarrow> int \<Rightarrow> dict \<Rightarrow> string \<times> dict" where
  "after_failure ks now e attempt ev =
     (let ev1 = note_error now e ev in
      if is_retryable_error e \<and> attempt < max_attempts ks
      then (let next_attempt = attempt + 1 in
        (retry_topic ks next_attempt,
         dict_put ''retry_from_topic'' (case map_of ev1 ''source_topic'' of None \<Rightarrow> JNull | Some t \<Rightarrow> t)
           (dict_put ''retry_after_seconds'' (JInt (retry_delay_seconds next_attempt))
             (dict_put ''attempt'' (JInt next_attempt) ev1))))
      else (ks_dlq ks, dict_put ''retry_after_seconds'' (JInt 0) (dict_put ''attempt'' (JInt (attempt + 1)) ev1)))"

definition handle_failure :: "kafka_settings \<Rightarrow> 's kafka_api \<Rightarrow> dict \<Rightarrow> exc \<Rightarrow> ('s, exc, bool) io" where
  "handle_failure ks api ev e s =
     (if \<not> ka_has_producer api s then (Inr False, s)
      else case int_or_0 (map_of ev ''attempt'') of Inl e' \<Rightarrow> (Inl e', s)
      | Inr attempt \<Rightarrow> (case after_failure ks (ka_now api s) e attempt ev of (topic, ev') \<Rightarrow>
          io_bind (send_with_auth_retry api topic ev') (\<lambda>_. io_return True) s))"

text \<open>
  The guarded part of \<open>_handle_record\<close>, the same in both modes: wait, run the handler, fall back
  to \<open>_handle_failure\<close>. Python's \<open>int()\<close> and the sleep are outside the inner \<open>try\<close>.
\<close>

definition deliver :: "kafka_settings \<Rightarrow> 's kafka_api \<Rightarrow> (dict \<Rightarrow> ('s, exc, unit) io) \<Rightarrow> dict \<Rightarrow> ('s, exc, bool) io" where
  "deliver ks api handler ev =
     (case int_or_0 (map_of ev ''retry_after_seconds'') of Inl e \<Rightarrow> io_raise e
      | Inr retry_after \<Rightarrow>
        io_bind (if 0 < retry_after then ka_sleep api retry_after else io_return ()) (\<lambda>_.
          io_catch (io_bind (handler ev) (\<lambda>_. io_return True)) (\<lambda>e. handle_failure ks api ev e)))"

text \<open>\<open>_handle_record\<close> with keyed concurrency off: the commit of the record follows at once.\<close>

definition handle_record_serial :: "'s kafka_api \<Rightarrow> (dict \<Rightarrow> ('s, exc, bool) io) \<Rightarrow> int \<times> dict option \<Rightarrow> ('s, exc, unit) io" where
  "handle_record_serial api deliver_event r = (case r of (offset, ev) \<Rightarrow> (case ev of
       None \<Rightarrow> ka_commit api (offset + 1)
     | Some d \<Rightarrow> io_bind (deliver_event d) (\<lambda>handled.
         if handled then ka_commit api (offset + 1) else io_return ())))"

text \<open>Tasks of the partition one after the other; an exception ends its task only.\<close>

fun serial_records :: "'s kafka_api \<Rightarrow> (dict \<Rightarrow> ('s, exc, bool) io) \<Rightarrow> (int \<times> dict option) list \<Rightarrow> 's \<Rightarrow> 's" where
  "serial_records api deliver_event [] s = s"
| "serial_records api deliver_event (r # rs) s =
     serial_records api deliver_event rs (snd (handle_record_serial api deliver_event r s))"

section \<open>Consuming\<close>

text \<open>The payload of \<open>_handle_kafka_event\<close>; JSON values are passed through as they are.\<close>

definition get_json :: "dict \<Rightarrow> string \<Rightarrow> json" where
  "get_json d k = (case map_of d k of None \<Rightarrow> JNull | Some v \<Rightarrow> v)"

definition or_json :: "json \<Rightarrow> json \<Rightarrow> json" where
  "or_json a b = (if json_truthy (Some a) then a else b)"

definition event_key_of :: "dict \<Rightarrow> string" where
  "event_key_of ev = py_strip (or_str (get_str ev ''event_id'') (or_str (get_str ev ''message_id'') ''''))"

definition dedupe_key_of :: "dict \<Rightarrow> string" where
  "dedupe_key_of ev = py_strip (or_str (get_str ev ''idempotency_key'') '''')"

definition consumed_payload :: "dict \<Rightarrow> dict" where
  "consumed_payload ev = [
     (''from_number'', get_json ev ''from_number''),
     (''to_number'', get_json ev ''to_number''),
     (''content'', get_json ev ''content''),
     (''message_id'', or_json (get_json ev ''message_id'') (JStr (event_key_of ev))),
     (''timestamp'', or_json (get_json ev ''payload_timestamp'') (get_json ev ''received_at'')),
     (''chat_guid'', get_json ev ''chat_guid''),
     (''is_outbound'', JBool False),
     (''status'', JStr ''received''),
     (''media_url'', get_json ev ''media_url''),
     (''is_location_share'', JBool (json_truthy (map_of ev ''is_location_share'')))]"

definition dedupe_ttl :: "kafka_settings \<Rightarrow> int" where
  "dedupe_ttl ks = (if ks_idempotency_ttl ks = 0 then rs_idempotency_ttl (ks_redis ks) else ks_idempotency_ttl ks)"

definition handle_kafka_event :: "kafka_settings \<Rightarrow> 's redis_api \<Rightarrow> (dict \<Rightarrow> ('s, exc, unit) io) \<Rightarrow> dict \<Rightarrow> ('s, exc, unit) io" where
  "handle_kafka_event ks redis process ev =
     (if event_key_of ev = [] \<or> dedupe_key_of ev = [] then io_return ()
      else io_bind (io_lift runtime_error (check_idempotency redis (ks_redis ks) (dedupe_key_of ev) (Some (dedupe_ttl ks))))
        (\<lambda>is_new. if \<not> is_new then io_return () else process (consumed_payload ev)))"

section \<open>Facts about the exception chain\<close>

definition exc_links :: "exc_obj list \<Rightarrow> nat \<Rightarrow> nat \<Rightarrow> bool" where
  "exc_links h i j \<longleftrightarrow> i < length h \<and> next_exc (h ! i) = Some j"

lemma exc_chain_sound: "x \<in> set (exc_chain h seen i) \<Longrightarrow> i = Some k \<Longrightarrow> \<exists>j < length h. (exc_links h)\<^sup>*\<^sup>* k j \<and> x = h ! j"
proof (induction h seen i arbitrary: k rule: exc_chain.induct)
  case (2 h seen i)
  from "2.prems" have i: "\<not> (i \<in> set seen \<or> length h \<le> i)" "k = i"
    and x: "x = h ! i \<or> x \<in> set (exc_chain h (i # seen) (next_exc (h ! i)))" by (auto split: if_splits)
  show ?case
  proof (cases "x = h ! i")
    case True
    with i show ?thesis by (intro exI [of _ i]) auto
  next
    case False
    with x have x': "x \<in> set (exc_chain h (i # seen) (next_exc (h ! i)))" by simp
    then obtain j where j: "next_exc (h ! i) = Some j" by (cases "next_exc (h ! i)") auto
    from i j have "exc_links h i j" by (simp add: exc_links_def)
    moreover obtain m where m: "m < length h" "(exc_links h)\<^sup>*\<^sup>* j m" "x = h ! m"
      using "2.IH" [OF i(1) x' j] by blast
    ultimately have "(exc_links h)\<^sup>*\<^sup>* i m" by (simp add: converse_rtranclp_into_rtranclp)
    with m i(2) show ?thesis by blast
  qed
qed simp

lemma exc_chain_complete:
  "rtrancl_path (exc_links h) i ps j \<Longrightarrow> distinct (i # ps) \<Longrightarrow> set (i # ps) \<inter> set seen = {} \<Longrightarrow> j < length h \<Longrightarrow>
   h ! j \<in> set (exc_chain h seen (Some i))"
proof (induction arbitrary: seen rule: rtrancl_path.induct)
  case (base i)
  then show ?case by simp
next
  case (step i k ps j)
  then have "h ! j \<in> set (exc_chain h (i # seen) (Some k))" by auto
  moreover have "i \<notin> set seen" "i < length h" "next_exc (h ! i) = Some k" using step by (auto simp: exc_links_def)
  ultimately show ?case by simp
qed

lemma exc_chain_set:
  "set (exc_chain h [] (Some i)) = {h ! j | j. j < length h \<and> (exc_links h)\<^sup>*\<^sup>* i j}"
proof (intro equalityI subsetI)
  fix x assume "x \<in> set (exc_chain h [] (Some i))"
  with exc_chain_sound [of x h "[]" "Some i" i] show "x \<in> {h ! j | j. j < length h \<and> (exc_links h)\<^sup>*\<^sup>* i j}" by auto
next
  fix x assume "x \<in> {h ! j | j. j < length h \<and> (exc_links h)\<^sup>*\<^sup>* i j}"
  then obtain j ps where j: "j < length h" "x = h ! j" "rtrancl_path (exc_links h) i ps j"
    by (auto simp: rtranclp_eq_rtrancl_path)
  obtain qs where "rtrancl_path (exc_links h) i qs j" "distinct (i # qs)"
    by (rule rtrancl_path_distinct [OF j(3)])
  with exc_chain_complete [of h i qs j "[]"] j show "x \<in> set (exc_chain h [] (Some i))" by simp
qed

section \<open>Facts about keys\<close>

lemma py_strip_stripped: "stripped py_space s \<Longrightarrow> py_strip s = s"
  by (simp add: py_strip_def stripped_idem)

lemma stripped_py_strip [simp]: "stripped py_space (py_strip s)"
  by (simp add: py_strip_def stripped_strip_by)

lemma py_strip_idem [simp]: "py_strip (py_strip s) = py_strip s"
  by (simp add: py_strip_stripped)

lemma stripped_append:
  "a \<noteq> [] \<Longrightarrow> \<not> py_space (hd a) \<Longrightarrow> b \<noteq> [] \<longrightarrow> \<not> py_space (last b) \<Longrightarrow> \<not> py_space (last a) \<Longrightarrow> stripped py_space (a @ b)"
  by (auto simp: stripped_def last_append)

lemma stripped_last: "stripped p s \<Longrightarrow> s \<noteq> [] \<Longrightarrow> \<not> p (last s)"
  by (auto simp: stripped_def)

text \<open>The hex digits of a hash are not blank.\<close>

definition blank_free :: "(string \<Rightarrow> string) \<Rightarrow> bool" where
  "blank_free sha16 \<longleftrightarrow> (\<forall>x. \<forall>c \<in> set (sha16 x). \<not> py_space c)"

lemma event_id_stripped:
  assumes "blank_free sha16"
  shows "stripped py_space (event_id_of sha16 p)" "event_id_of sha16 p \<noteq> []"
proof -
  have "fallback_event_id sha16 p \<noteq> [] \<Longrightarrow> \<not> py_space (last (fallback_event_id sha16 p))"
    using assms unfolding blank_free_def fallback_event_id_def by (meson last_in_set)
  then have "stripped py_space (''photon_hash:'' @ fallback_event_id sha16 p)"
    by (intro stripped_append) (simp_all add: py_space_def)
  then show "stripped py_space (event_id_of sha16 p)"
    unfolding event_id_of_def Let_def by (auto split: if_split)
  show "event_id_of sha16 p \<noteq> []" by (simp add: event_id_of_def Let_def)
qed

text \<open>The idempotency key as a function of the event id.\<close>

definition key_for :: "kafka_settings \<Rightarrow> string \<Rightarrow> string" where
  "key_for ks eid = (if ks_app_env ks = ''development'' then ''dev_'' else '''') @
     (if starts_with ''photon_hash:'' eid then ''photon_msg_hash:'' @ drop 12 eid else ''photon_msg:'' @ eid)"

lemma key_for_inj: "key_for ks a = key_for ks b \<longleftrightarrow> a = b"
proof
  assume eq: "key_for ks a = key_for ks b"
  have start: "starts_with ''photon_hash:'' x \<Longrightarrow> x = ''photon_hash:'' @ drop 12 x" for x
    by (auto simp: starts_with_iff)
  from eq show "a = b"
    by (cases "starts_with ''photon_hash:'' a"; cases "starts_with ''photon_hash:'' b")
      (use start [of a] start [of b] in \<open>auto simp: key_for_def\<close>)
qed simp

lemma idempotency_key_is_key_for:
  assumes "blank_free sha16"
  shows "build_idempotency_key ks sha16 p (event_id_of sha16 p) = key_for ks (event_id_of sha16 p)"
  using event_id_stripped [OF assms, of p]
  by (simp add: build_idempotency_key_def key_for_def py_strip_stripped Let_def)

lemma key_for_stripped:
  assumes "stripped py_space eid" "eid \<noteq> []"
  shows "stripped py_space (key_for ks eid)" "key_for ks eid \<noteq> []"
proof -
  have pre: "stripped py_space (q @ r)"
    if "q \<in> {''photon_msg_hash:'', ''photon_msg:'', ''dev_photon_msg_hash:'', ''dev_photon_msg:''}"
      "r \<noteq> [] \<longrightarrow> \<not> py_space (last r)" for q r
    using that by (intro stripped_append) (auto simp: py_space_def)
  have "drop 12 eid \<noteq> [] \<longrightarrow> \<not> py_space (last (drop 12 eid))" "\<not> py_space (last eid)"
    using stripped_last [OF assms] by (auto simp: last_drop)
  then show "stripped py_space (key_for ks eid)"
    using pre [of "''photon_msg_hash:''" "drop 12 eid"] pre [of "''dev_photon_msg_hash:''" "drop 12 eid"]
      pre [of "''photon_msg:''" eid] pre [of "''dev_photon_msg:''" eid] by (simp add: key_for_def)
  show "key_for ks eid \<noteq> []" by (simp add: key_for_def)
qed

lemma build_kafka_event_form:
  assumes "build_kafka_event ks sha16 now tr p = Inr ev" "blank_free sha16"
  obtains n b c rest where "int_or_0 (pp_attempt p) = Inr n"
    "ev = (''schema_version'', JInt 1) # (''event_id'', JStr (event_id_of sha16 p))
       # (''idempotency_key'', JStr (key_for ks (event_id_of sha16 p))) # b
       @ (''attempt'', JInt n) # c # (''partition_key'', JStr (partition_key_of sha16 p)) # rest"
    "{''event_id'', ''idempotency_key'', ''attempt'', ''retry_after_seconds'', ''partition_key''} \<inter> fst ` set b = {}"
    "fst c = ''trace_id''" "''retry_after_seconds'' \<notin> fst ` set rest"
proof -
  let ?id = "py_strip (or_str (pp_message_id p) '''')"
  have id: "(if ?id \<noteq> [] then ?id else event_id_of sha16 p) = event_id_of sha16 p"
    by (simp add: event_id_of_def Let_def)
  obtain n where n: "int_or_0 (pp_attempt p) = Inr n"
    using assms(1) by (cases "int_or_0 (pp_attempt p)") (simp_all add: build_kafka_event_def Let_def)
  let ?b = "[(''source'', JStr ''photon''), (''received_at'', JTime now), (''payload_timestamp'', pp_timestamp p),
      (''from_number'', json_opt_str (pp_from_number p)), (''to_number'', json_opt_str (pp_to_number p)),
      (''content'', json_opt_str (pp_content p)), (''media_url'', json_opt_str (pp_media_url p)),
      (''message_id'', json_opt_str (none_if_empty ?id)), (''chat_guid'', json_opt_str (pp_chat_guid p)),
      (''is_group'', JBool (is_group_chat (pp_chat_guid p))),
      (''is_location_share'', JBool (json_truthy (pp_is_location_share p)))]"
  let ?rest = "(if py_strip (ks_latency_test_run ks) \<noteq> [] then [(''test_run'', JStr (py_strip (ks_latency_test_run ks)))] else [])
       @ (case pp_raw_payload p of None \<Rightarrow> [] | Some r \<Rightarrow> if r = JNull then [] else [(''raw_payload'', r)])"
  show thesis
  proof (rule that [of n ?b "(''trace_id'', JStr (or_str (pp_trace_id p) tr))" ?rest])
    show "ev = (''schema_version'', JInt 1) # (''event_id'', JStr (event_id_of sha16 p))
       # (''idempotency_key'', JStr (key_for ks (event_id_of sha16 p))) # ?b
       @ (''attempt'', JInt n) # (''trace_id'', JStr (or_str (pp_trace_id p) tr))
       # (''partition_key'', JStr (partition_key_of sha16 p)) # ?rest"
      using assms(1) n
      unfolding build_kafka_event_def Let_def id idempotency_key_is_key_for [OF assms(2)] by simp
  qed (use n in \<open>auto split: if_splits option.splits\<close>)
qed

lemma build_kafka_event_keys:
  assumes "build_kafka_event ks sha16 now tr p = Inr ev" "blank_free sha16"
  shows "get_str ev ''event_id'' = Some (event_id_of sha16 p)"
    and "get_str ev ''idempotency_key'' = Some (key_for ks (event_id_of sha16 p))"
    and "get_str ev ''partition_key'' = Some (partition_key_of sha16 p)"
    and "\<exists>n. map_of ev ''attempt'' = Some (JInt n) \<and> int_or_0 (pp_attempt p) = Inr n"
    and "map_of ev ''retry_after_seconds'' = None" and "ev \<noteq> []"
proof -
  obtain n b c rest where n: "int_or_0 (pp_attempt p) = Inr n"
    and ev: "ev = (''schema_version'', JInt 1) # (''event_id'', JStr (event_id_of sha16 p))
       # (''idempotency_key'', JStr (key_for ks (event_id_of sha16 p))) # b
       @ (''attempt'', JInt n) # c # (''partition_key'', JStr (partition_key_of sha16 p)) # rest"
    and b: "{''event_id'', ''idempotency_key'', ''attempt'', ''retry_after_seconds'', ''partition_key''} \<inter> fst ` set b = {}"
    and c: "fst c = ''trace_id''" and rest: "''retry_after_seconds'' \<notin> fst ` set rest"
    by (rule build_kafka_event_form [OF assms])
  have "map_of b ''attempt'' = None" "map_of b ''partition_key'' = None" "map_of b ''retry_after_seconds'' = None"
    "map_of rest ''retry_after_seconds'' = None"
    using b rest by (auto simp: map_of_eq_None_iff)
  with n c show "get_str ev ''event_id'' = Some (event_id_of sha16 p)"
    "get_str ev ''idempotency_key'' = Some (key_for ks (event_id_of sha16 p))"
    "get_str ev ''partition_key'' = Some (partition_key_of sha16 p)"
    "\<exists>n. map_of ev ''attempt'' = Some (JInt n) \<and> int_or_0 (pp_attempt p) = Inr n"
    "map_of ev ''retry_after_seconds'' = None" "ev \<noteq> []"
    unfolding ev get_str_def by (cases c; simp add: map_add_def)+
qed

lemma event_keys:
  assumes "build_kafka_event ks sha16 now tr p = Inr ev" "blank_free sha16"
  shows "event_key_of ev = event_id_of sha16 p" "dedupe_key_of ev = key_for ks (event_id_of sha16 p)"
    "event_key_of ev \<noteq> []" "dedupe_key_of ev \<noteq> []"
  using event_id_stripped [OF assms(2), of p] key_for_stripped [of "event_id_of sha16 p" ks]
  by (simp_all add: event_key_of_def dedupe_key_of_def build_kafka_event_keys [OF assms] py_strip_stripped)

text \<open>A failure changes no key of the event.\<close>

lemma after_failure_keeps:
  assumes "k \<notin> {''last_error'', ''last_error_at'', ''attempt'', ''retry_after_seconds'', ''retry_from_topic''}"
  shows "map_of (snd (after_failure ks now e n ev)) k = map_of ev k"
  using assms by (simp add: after_failure_def note_error_def Let_def)

lemma after_failure_keys:
  "event_key_of (snd (after_failure ks now e n ev)) = event_key_of ev"
  "dedupe_key_of (snd (after_failure ks now e n ev)) = dedupe_key_of ev"
  "message_key None (snd (after_failure ks now e n ev)) = message_key None ev"
  by (simp_all add: event_key_of_def dedupe_key_of_def message_key_def get_str_def after_failure_keeps)

lemma after_failure_attempt:
  "map_of (snd (after_failure ks now e n ev)) ''attempt'' = Some (JInt (n + 1))"
  by (simp add: after_failure_def note_error_def Let_def)

lemma dict_put_nonempty [simp]: "dict_put k v d \<noteq> []"
  by (cases d) (auto split: if_splits)

lemma after_failure_lock_key:
  assumes "ev \<noteq> []"
  shows "derive_lock_key (Some (snd (after_failure ks now e n ev))) t i off = derive_lock_key (Some ev) t i off"
proof -
  have "snd (after_failure ks now e n ev) \<noteq> []" by (simp add: after_failure_def note_error_def Let_def)
  with assms show ?thesis by (simp add: derive_lock_key_def get_str_def after_failure_keeps Let_def)
qed

section \<open>Facts about the retry ladder\<close>

text \<open>The events an always failing message becomes: \<open>es n\<close> is the error of its \<open>n\<close>-th delivery,
\<open>now n\<close> the time of it.\<close>

definition attempt_of :: "dict \<Rightarrow> int" where
  "attempt_of ev = (case int_or_0 (map_of ev ''attempt'') of Inl e \<Rightarrow> 0 | Inr n \<Rightarrow> n)"

primrec failed :: "kafka_settings \<Rightarrow> (nat \<Rightarrow> int) \<Rightarrow> (nat \<Rightarrow> exc) \<Rightarrow> dict \<Rightarrow> nat \<Rightarrow> string \<times> dict" where
  "failed ks now es ev 0 = (ks_inbound ks, ev)"
| "failed ks now es ev (Suc n) =
     after_failure ks (now n) (es n) (attempt_of (snd (failed ks now es ev n))) (snd (failed ks now es ev n))"

lemma failed_attempt: "attempt_of ev = 0 \<Longrightarrow> attempt_of (snd (failed ks now es ev n)) = int n"
  by (induction n) (simp_all add: attempt_of_def after_failure_attempt)

lemma failed_keys:
  "event_key_of (snd (failed ks now es ev n)) = event_key_of ev"
  "dedupe_key_of (snd (failed ks now es ev n)) = dedupe_key_of ev"
  "message_key None (snd (failed ks now es ev n)) = message_key None ev"
  by (induction n) (simp_all add: after_failure_keys)

lemma failed_retry:
  assumes "attempt_of ev = 0" "is_retryable_error (es n)" "int n < max_attempts ks"
  shows "fst (failed ks now es ev (Suc n)) = retry_topic ks (int n + 1)
    \<and> map_of (snd (failed ks now es ev (Suc n))) ''retry_after_seconds'' = Some (JInt (retry_delay_seconds (int n + 1)))"
  using assms by (simp add: failed_attempt after_failure_def Let_def)

lemma failed_dead:
  assumes "attempt_of ev = 0" "\<not> is_retryable_error (es n) \<or> max_attempts ks \<le> int n"
  shows "fst (failed ks now es ev (Suc n)) = ks_dlq ks"
  using assms by (auto simp: failed_attempt after_failure_def Let_def)

lemma retry_delay_cases:
  "retry_delay_seconds n = (if n \<le> 1 then 30 else if n = 2 then 120 else 600)"
  "retry_topic ks n = (if n \<le> 1 then ks_retry_30s ks else if n = 2 then ks_retry_2m ks else ks_retry_10m ks)"
proof -
  have "retry_index n = (if n \<le> 1 then 0 else if n = 2 then 1 else 2)"
    unfolding retry_index_def by (auto simp: max_def min_def)
  then show "retry_delay_seconds n = (if n \<le> 1 then 30 else if n = 2 then 120 else 600)"
    "retry_topic ks n = (if n \<le> 1 then ks_retry_30s ks else if n = 2 then ks_retry_2m ks else ks_retry_10m ks)"
    by (simp_all add: retry_delay_seconds_def retry_topic_def numeral_2_eq_2)
qed

section \<open>Facts about consuming\<close>

text \<open>An event whose key is a duplicate returns at once, whatever the processing would do.\<close>

lemma handle_duplicate:
  assumes "fst (check_idempotency redis (ks_redis ks) (dedupe_key_of ev) (Some (dedupe_ttl ks)) s) = Inr False"
  shows "\<exists>s'. \<forall>process. handle_kafka_event ks redis process ev s = (Inr (), s')"
proof -
  obtain s' where "check_idempotency redis (ks_redis ks) (dedupe_key_of ev) (Some (dedupe_ttl ks)) s = (Inr False, s')"
    using assms by (metis prod.collapse)
  then have "handle_kafka_event ks redis process ev s
      = (Inr (), if event_key_of ev = [] \<or> dedupe_key_of ev = [] then s else s')" for process
    by (simp add: handle_kafka_event_def io_bind_def io_lift_def io_catch_def)
  then show ?thesis by blast
qed

lemma handle_new:
  assumes "check_idempotency redis (ks_redis ks) (dedupe_key_of ev) (Some (dedupe_ttl ks)) s = (Inr True, s')"
    and "event_key_of ev \<noteq> []" "dedupe_key_of ev \<noteq> []"
  shows "handle_kafka_event ks redis process ev s = process (consumed_payload ev) s'"
  using assms by (simp add: handle_kafka_event_def io_bind_def io_lift_def io_catch_def)

lemma deliver_handled:
  assumes "int_or_0 (map_of ev ''retry_after_seconds'') = Inr d"
    and "(if 0 < d then ka_sleep api d else io_return ()) s = (Inr (), s1)" "handler ev s1 = (Inr (), s2)"
  shows "deliver ks api handler ev s = (Inr True, s2)"
  using assms by (simp add: deliver_def io_bind_def io_catch_def)

lemma deliver_failed:
  assumes "map_of ev ''retry_after_seconds'' = None" "handler ev s = (Inl e, s2)" "ka_has_producer api s2"
    and "int_or_0 (map_of ev ''attempt'') = Inr n"
    and "ka_send api (fst (after_failure ks (ka_now api s2) e n ev)) (snd (after_failure ks (ka_now api s2) e n ev))
          (message_key None ev) s2 = (Inr (), s3)"
  shows "deliver ks api handler ev s = (Inr True, s3)"
proof -
  obtain topic ev' where af: "after_failure ks (ka_now api s2) e n ev = (topic, ev')" by (meson surj_pair)
  have "message_key None ev' = message_key None ev" using after_failure_keys(3) [of ks "ka_now api s2" e n ev] af by simp
  with assms(3,5) af have "send_with_auth_retry api topic ev' s2 = (Inr (), s3)"
    by (simp add: send_with_auth_retry_def send_once_more_def io_catch_def)
  with assms(3,4) af have "handle_failure ks api ev e s2 = (Inr True, s3)"
    by (simp add: handle_failure_def io_bind_def)
  with assms(1,2) show ?thesis by (simp add: deliver_def io_bind_def io_catch_def)
qed

text \<open>\<open>dedupe_ttl\<close> is what the check uses.\<close>

lemma or_int_dedupe [simp]: "or_int (Some (dedupe_ttl ks)) (rs_idempotency_ttl (ks_redis ks)) = dedupe_ttl ks"
  by (simp add: or_int_def dedupe_ttl_def)

lemma seen_key_is_duplicate:
  assumes server: "redis_server redis data clock pass"
    and "data s (dedupe_key_of ev) = Some (v, t)" "clock s < t"
    and "fst (rd_set_nx redis (dedupe_key_of ev) (RText ''processed'') (dedupe_ttl ks) s) = Inr b"
  shows "fst (check_idempotency redis (ks_redis ks) (dedupe_key_of ev) (Some (dedupe_ttl ks)) s) = Inr False"
  by (rule redis_server.check_duplicate [OF server assms(2,3)]) (use assms(4) in simp)

section \<open>A world to run on\<close>

record kworld = mem_server +
  kw_sent :: "(string \<times> dict \<times> string) list"
  kw_committed :: "int list"
  kw_processed :: "dict list"
  kw_producer :: bool

definition world_kafka :: "kworld kafka_api" where
  "world_kafka = \<lparr>
     ka_send = (\<lambda>topic ev key s. (Inr (), s\<lparr>kw_sent := (topic, ev, key) # kw_sent s\<rparr>)),
     ka_restart = io_return (),
     ka_has_producer = kw_producer,
     ka_sleep = (\<lambda>d s. (Inr (), mem_pass d s)),
     ka_now = ms_clock,
     ka_commit = (\<lambda>n s. (Inr (), s\<lparr>kw_committed := n # kw_committed s\<rparr>)) \<rparr>"

definition empty_kworld :: kworld where
  "empty_kworld = \<lparr>ms_clock = 0, ms_data = Map.empty, ms_up = True, kw_sent = [], kw_committed = [],
     kw_processed = [], kw_producer = True\<rparr>"

definition example_payload :: photon_payload where
  "example_payload = \<lparr>pp_message_id = Some ''m1'', pp_chat_guid = Some ''any;-;+1555'', pp_from_number = Some ''+1555'',
     pp_to_number = None, pp_content = Some ''hi'', pp_media_url = None, pp_timestamp = JNull,
     pp_is_location_share = None, pp_attempt = None, pp_trace_id = None, pp_raw_payload = None\<rparr>"

definition example_event :: dict where
  "example_event = (case build_kafka_event default_kafka_settings (\<lambda>_. ''0'') 0 ''t'' example_payload of
     Inr ev \<Rightarrow> ev | Inl e \<Rightarrow> [])"

lemma example_built: "build_kafka_event default_kafka_settings (\<lambda>_. ''0'') 0 ''t'' example_payload = Inr example_event"
  by (simp add: example_event_def build_kafka_event_def example_payload_def Let_def)

lemma example_blank_free: "blank_free (\<lambda>_. ''0'')"
  by (simp add: blank_free_def py_space_def)

lemma example_id: "event_id_of (\<lambda>_. ''0'') example_payload = ''m1''"
  by (simp add: event_id_of_def example_payload_def py_strip_def strip_by_def lstrip_by_def rstrip_by_def py_space_def Let_def)

lemma example_key: "dedupe_key_of example_event = ''dev_photon_msg:m1''"
  using event_keys(2) [OF example_built example_blank_free] example_id
  by (simp add: key_for_def default_kafka_settings_def)

definition timeout_exc :: exc where
  "timeout_exc = simple_exc ''TimeoutError'' [''OSError'', ''Exception''] ''timed out''"

lemma timeout_retryable: "is_retryable_error timeout_exc"
  by (simp add: is_retryable_error_def isinstance_def timeout_exc_def simple_exc_def ex_obj_def)

section \<open>Properties\<close>

text \<open>C3: A failed message is lost. \<open>_handle_kafka_event\<close> sets the idempotency key of an event before
it processes it and never clears it, and \<open>_handle_failure\<close> publishes the retry with the same key. So
when processing fails with a retryable error, the failed delivery counts as handled and the retry is
published; but when the retry is delivered within the TTL (24 hours, the longest retry delay is
10 minutes), it too counts as handled, and the processing is not called, whatever it would do.\<close>

theorem failed_message_is_never_retried:
  fixes redis :: "'s redis_api" and api :: "'s kafka_api"
  assumes server: "redis_server redis data clock pass"
    and built: "build_kafka_event ks sha16 now tr p = Inr ev" "blank_free sha16" "int_or_0 (pp_attempt p) = Inr n"
    and accepted: "rd_set_nx redis (dedupe_key_of ev) (RText ''processed'') (dedupe_ttl ks) s = (Inr True, s1)"
    and fails: "process (consumed_payload ev) s1 = (Inl e, s2)" "is_retryable_error e" "n < max_attempts ks"
    and retry: "after_failure ks (ka_now api s2) e n ev = (topic, ev')"
    and sent: "ka_has_producer api s2" "ka_send api topic ev' (message_key None ev) s2 = (Inr (), s3)"
    and again: "ka_sleep api (retry_delay_seconds (n + 1)) s4 = (Inr (), s5)"
      "data s5 (dedupe_key_of ev) = data s1 (dedupe_key_of ev)" "clock s5 < clock s1 + dedupe_ttl ks"
      "fst (rd_set_nx redis (dedupe_key_of ev) (RText ''processed'') (dedupe_ttl ks) s5) = Inr b"
  shows "deliver ks api (handle_kafka_event ks redis process) ev s = (Inr True, s3)
    \<and> (\<exists>s6. \<forall>process'. deliver ks api (handle_kafka_event ks redis process') ev' s4 = (Inr True, s6))"
proof
  note keys = event_keys [OF built(1,2)] build_kafka_event_keys [OF built(1,2)]
  have att: "int_or_0 (map_of ev ''attempt'') = Inr n" using keys(8) built(3) by auto
  have "check_idempotency redis (ks_redis ks) (dedupe_key_of ev) (Some (dedupe_ttl ks)) s = (Inr True, s1)"
    by (rule redis_server.check_answer [OF server]) (use accepted in simp)
  from handle_new [OF this keys(3,4)] fails(1)
  have "handle_kafka_event ks redis process ev s = (Inl e, s2)" by simp
  with deliver_failed [of ev "handle_kafka_event ks redis process" s e s2 api n ks s3] keys(9) att sent retry
  show "deliver ks api (handle_kafka_event ks redis process) ev s = (Inr True, s3)" by simp
  have ev': "ev' = snd (after_failure ks (ka_now api s2) e n ev)" using retry by simp
  then have key: "dedupe_key_of ev' = dedupe_key_of ev" by (simp add: after_failure_keys)
  have delay: "map_of ev' ''retry_after_seconds'' = Some (JInt (retry_delay_seconds (n + 1)))"
    using fails(2,3) by (simp add: ev' after_failure_def Let_def)
  from redis_server.set_nx_ok [OF server accepted] again(2)
  have "data s5 (dedupe_key_of ev') = Some (RText ''processed'', clock s1 + dedupe_ttl ks)"
    by (simp add: key)
  from seen_key_is_duplicate [OF server this] again(3,4) key
  have "fst (check_idempotency redis (ks_redis ks) (dedupe_key_of ev') (Some (dedupe_ttl ks)) s5) = Inr False" by simp
  from handle_duplicate [OF this] obtain s6 where
    s6: "\<And>process'. handle_kafka_event ks redis process' ev' s5 = (Inr (), s6)" by blast
  have "0 < retry_delay_seconds (n + 1)" by (simp add: retry_delay_cases)
  with delay again(1) s6 show "\<exists>s6. \<forall>process'. deliver ks api (handle_kafka_event ks redis process') ev' s4 = (Inr True, s6)"
    by (intro exI allI) (rule deliver_handled, auto)
qed

text \<open>A message whose processing times out.\<close>

definition fail_once :: "dict \<Rightarrow> (kworld, exc, unit) io" where
  "fail_once pl s = (Inl timeout_exc, s)"

definition example_seen :: kworld where
  "example_seen = empty_kworld\<lparr>ms_data := [''dev_photon_msg:m1'' \<mapsto> (RText ''processed'', 86400)]\<rparr>"

definition example_retry :: "string \<times> dict" where
  "example_retry = after_failure default_kafka_settings 0 timeout_exc 0 example_event"

lemma example_ttl: "dedupe_ttl default_kafka_settings = 86400"
  by (simp add: dedupe_ttl_def default_kafka_settings_def default_redis_settings_def)

lemma example_accepted:
  "rd_set_nx mem_redis (dedupe_key_of example_event) (RText ''processed'') (dedupe_ttl default_kafka_settings) empty_kworld
     = (Inr True, example_seen)"
  unfolding example_key example_ttl
  by (simp add: mem_redis_def mem_cmd_def mem_live_def live_def empty_kworld_def example_seen_def)

lemma failed_message_is_never_retried_witness:
  "\<exists>s3 s6. deliver default_kafka_settings world_kafka (handle_kafka_event default_kafka_settings mem_redis fail_once)
       example_event empty_kworld = (Inr True, s3) \<and> kw_sent s3 \<noteq> [] \<and>
     (\<forall>process'. deliver default_kafka_settings world_kafka (handle_kafka_event default_kafka_settings mem_redis process')
        (snd example_retry) s3 = (Inr True, s6))"
proof -
  let ?s3 = "example_seen\<lparr>kw_sent := [(fst example_retry, snd example_retry, message_key None example_event)]\<rparr>"
  have max: "0 < max_attempts default_kafka_settings" by (simp add: max_attempts_def default_kafka_settings_def)
  have att: "int_or_0 (pp_attempt example_payload) = Inr 0" by (simp add: example_payload_def)
  have retry: "after_failure default_kafka_settings (ka_now world_kafka example_seen) timeout_exc 0 example_event
      = (fst example_retry, snd example_retry)"
    by (simp add: example_retry_def world_kafka_def example_seen_def empty_kworld_def)
  have delay: "retry_delay_seconds 1 = 30" by (simp add: retry_delay_cases)
  note concrete = failed_message_is_never_retried [where redis = mem_redis and data = ms_data and clock = ms_clock
      and pass = mem_pass and api = world_kafka and process = fail_once and s = empty_kworld and ?s2.0 = example_seen
      and ?s3.0 = ?s3 and ?s4.0 = ?s3 and ?s5.0 = "mem_pass 30 ?s3" and b = False,
      OF mem_redis_server example_built example_blank_free att example_accepted _ timeout_retryable max retry]
  have "deliver default_kafka_settings world_kafka (handle_kafka_event default_kafka_settings mem_redis fail_once)
       example_event empty_kworld = (Inr True, ?s3)
     \<and> (\<exists>s6. \<forall>process'. deliver default_kafka_settings world_kafka (handle_kafka_event default_kafka_settings mem_redis process')
        (snd example_retry) ?s3 = (Inr True, s6))"
    by (rule concrete) (simp_all add: fail_once_def world_kafka_def delay example_ttl example_key mem_redis_def mem_cmd_def
        mem_live_def mem_pass_def live_def example_seen_def empty_kworld_def)
  moreover have "kw_sent ?s3 \<noteq> []" by simp
  ultimately show ?thesis by blast
qed

text \<open>At-least-once becomes exactly once. When an event was processed (or its processing was at
least begun) and Kafka delivers the same record again within the TTL, the second delivery counts as
handled and the processing is not called.\<close>

theorem redelivered_event_is_skipped:
  assumes server: "redis_server redis data clock pass"
    and built: "build_kafka_event ks sha16 now tr p = Inr ev" "blank_free sha16"
    and accepted: "rd_set_nx redis (dedupe_key_of ev) (RText ''processed'') (dedupe_ttl ks) s = (Inr True, s1)"
    and processed: "process (consumed_payload ev) s1 = (Inr (), s2)"
    and again: "data s3 (dedupe_key_of ev) = data s1 (dedupe_key_of ev)" "clock s3 < clock s1 + dedupe_ttl ks"
      "fst (rd_set_nx redis (dedupe_key_of ev) (RText ''processed'') (dedupe_ttl ks) s3) = Inr b"
  shows "deliver ks api (handle_kafka_event ks redis process) ev s = (Inr True, s2)
    \<and> (\<exists>s4. \<forall>process'. deliver ks api (handle_kafka_event ks redis process') ev s3 = (Inr True, s4))"
proof
  note keys = event_keys [OF built] build_kafka_event_keys [OF built]
  have "check_idempotency redis (ks_redis ks) (dedupe_key_of ev) (Some (dedupe_ttl ks)) s = (Inr True, s1)"
    by (rule redis_server.check_answer [OF server]) (use accepted in simp)
  from handle_new [OF this keys(3,4)] processed
  have first: "handle_kafka_event ks redis process ev s = (Inr (), s2)" by simp
  show "deliver ks api (handle_kafka_event ks redis process) ev s = (Inr True, s2)"
    by (rule deliver_handled [of ev 0]) (use keys(9) first in simp_all)
  from redis_server.set_nx_ok [OF server accepted] again(1)
  have "data s3 (dedupe_key_of ev) = Some (RText ''processed'', clock s1 + dedupe_ttl ks)" by simp
  from handle_duplicate [OF seen_key_is_duplicate [OF server this again(2,3)]] obtain s4 where
    s4: "\<And>process'. handle_kafka_event ks redis process' ev s3 = (Inr (), s4)" by blast
  show "\<exists>s4. \<forall>process'. deliver ks api (handle_kafka_event ks redis process') ev s3 = (Inr True, s4)"
    by (intro exI allI, rule deliver_handled [of ev 0]) (use keys(9) s4 in simp_all)
qed

lemma redelivered_event_is_skipped_witness:
  "\<exists>s4. \<forall>process'. deliver default_kafka_settings world_kafka (handle_kafka_event default_kafka_settings mem_redis process')
     example_event (example_seen\<lparr>ms_clock := 5\<rparr>) = (Inr True, s4)"
proof -
  note concrete = redelivered_event_is_skipped [where redis = mem_redis and data = ms_data and clock = ms_clock
      and pass = mem_pass and api = world_kafka and process = "\<lambda>pl. io_return ()" and s = empty_kworld
      and ?s2.0 = example_seen and ?s3.0 = "example_seen\<lparr>ms_clock := 5\<rparr>" and b = False,
      OF mem_redis_server example_built example_blank_free example_accepted]
  show ?thesis
    by (rule conjunct2 [OF concrete]) (simp_all add: example_ttl example_key mem_redis_def mem_cmd_def
        mem_live_def live_def example_seen_def empty_kworld_def)
qed

text \<open>Two inbound payloads get the same idempotency key exactly when they have the same event id:
a message with an id of its own is never taken for one identified by its content, the prefix of the
environment included.\<close>

theorem idempotency_key_iff_event_id:
  assumes "build_kafka_event ks sha16 now1 tr1 p = Inr ev1" "build_kafka_event ks sha16 now2 tr2 q = Inr ev2"
    and "blank_free sha16"
  shows "dedupe_key_of ev1 = dedupe_key_of ev2 \<longleftrightarrow> event_key_of ev1 = event_key_of ev2"
  using assms by (simp add: event_keys key_for_inj)

lemma idempotency_key_iff_event_id_witness:
  "dedupe_key_of example_event = dedupe_key_of example_event \<longleftrightarrow> event_key_of example_event = event_key_of example_event"
  by (rule idempotency_key_iff_event_id [OF example_built example_built example_blank_free])

text \<open>Order within a conversation. All events of one conversation (the same chat GUID, or the same
number where there is no GUID) carry the same Kafka key and take the same lock, wherever their records
are, and a retry keeps both.\<close>

theorem conversation_has_one_key:
  assumes built: "build_kafka_event ks sha16 now1 tr1 p = Inr ev1" "build_kafka_event ks sha16 now2 tr2 q = Inr ev2"
    "blank_free sha16"
    and conv: "or_str (pp_chat_guid p) (or_str (pp_from_number p) '''') = c"
      "or_str (pp_chat_guid q) (or_str (pp_from_number q) '''') = c" "py_strip c \<noteq> []"
  shows "message_key None ev1 = c \<and> message_key None ev2 = c
    \<and> derive_lock_key (Some ev1) t i o1 = py_strip c \<and> derive_lock_key (Some ev2) t' j o2 = py_strip c
    \<and> message_key None (snd (after_failure ks now3 e n ev1)) = c
    \<and> derive_lock_key (Some (snd (after_failure ks now3 e n ev1))) t' j o2 = py_strip c"
proof -
  have "c \<noteq> []" using conv(3) by (auto simp: py_strip_def strip_by_def lstrip_by_def)
  have key: "partition_key_of sha16 x = c" if "or_str (pp_chat_guid x) (or_str (pp_from_number x) '''') = c" for x
    using that \<open>c \<noteq> []\<close> by (auto simp: partition_key_of_def or_str_def split: option.splits if_splits)
  have "message_key None ev = c" "derive_lock_key (Some ev) t i off = py_strip c"
    if "build_kafka_event ks sha16 now tr x = Inr ev" "or_str (pp_chat_guid x) (or_str (pp_from_number x) '''') = c"
    for ev x now tr t i off
    using build_kafka_event_keys [OF that(1) built(3)] key [OF that(2)] conv(3) \<open>c \<noteq> []\<close>
    by (auto simp: message_key_def derive_lock_key_def Let_def)
  note both = this [OF built(1) conv(1)] this [OF built(2) conv(2)]
  with build_kafka_event_keys(6) [OF built(1,3)] show ?thesis
    by (simp add: after_failure_keys after_failure_lock_key)
qed

lemma conversation_has_one_key_witness:
  "derive_lock_key (Some example_event) ''photon.inbound.v1'' 3 17 = py_strip ''any;-;+1555''"
proof -
  have "or_str (pp_chat_guid example_payload) (or_str (pp_from_number example_payload) '''') = ''any;-;+1555''"
    by (simp add: example_payload_def)
  moreover have "py_strip ''any;-;+1555'' \<noteq> []"
    by (simp add: py_strip_def strip_by_def lstrip_by_def rstrip_by_def py_space_def)
  ultimately show ?thesis
    using conversation_has_one_key [OF example_built example_built example_blank_free] by blast
qed



text \<open>With keyed concurrency off a record that was not handled is lost as soon as the next one of
its partition is: the commit of the next record covers it, so the broker does not deliver it again.
Nothing is committed for it in between.\<close>

theorem serial_commit_covers_unhandled:
  assumes "deliver_event ev s = (res, s1)" "res = Inr False \<or> isl res"
    and "deliver_event ev' s1 = (Inr True, s2)"
  shows "serial_records api deliver_event [(n, Some ev), (n + 1, Some ev')] s = snd (ka_commit api (n + 2) s2)"
  using assms by (auto simp: handle_record_serial_def io_bind_def isl_def add.commute [of 2])

lemma serial_commit_covers_unhandled_witness:
  "kw_committed (serial_records world_kafka
     (\<lambda>ev. if ev = [] then io_return True else deliver default_kafka_settings world_kafka (\<lambda>_. io_raise timeout_exc) ev)
     [(7, Some [(''attempt'', JInt 0)]), (8, Some [])] (empty_kworld\<lparr>kw_producer := False\<rparr>)) = [9]"
proof -
  let ?d = "\<lambda>ev. if ev = [] then io_return True else deliver default_kafka_settings world_kafka (\<lambda>_. io_raise timeout_exc) ev"
  let ?s = "empty_kworld\<lparr>kw_producer := False\<rparr>"
  have "?d [(''attempt'', JInt 0)] ?s = (Inr False, ?s)" "?d [] ?s = (Inr True, ?s)"
    by (simp_all add: deliver_def io_bind_def io_catch_def handle_failure_def world_kafka_def)
  from serial_commit_covers_unhandled [where deliver_event = ?d and api = world_kafka and n = 7, OF this(1) _ this(2)]
  show ?thesis by (simp add: world_kafka_def empty_kworld_def)
qed

text \<open>The walk along the causes of an exception ends on every object graph, also a cyclic one, and
finds an authentication error exactly when one is linked to the exception, through causes or contexts.\<close>

theorem sasl_error_iff_linked:
  "is_sasl_auth_error e \<longleftrightarrow> (\<exists>j < length (ex_heap e). (exc_links (ex_heap e))\<^sup>*\<^sup>* (ex_id e) j \<and> sasl_text (ex_heap e ! j))"
  unfolding is_sasl_auth_error_def exc_chain_set by blast

text \<open>The topic bootstrap. When \<open>ensure_kafka_topics\<close> returns without having been done before, a
listing made after any creation names every required topic, the dead letter topic included, and
the flag it leaves is set.\<close>

theorem ensure_topics_sound:
  assumes "ensure_kafka_topics ks list_topics create False s = (Inr flag, s')"
  shows "flag \<and> (\<exists>s1 topics. list_topics s1 = (Inr topics, s') \<and> set (required_topics ks) \<subseteq> set topics)"
proof -
  from assms obtain s1 topics where "list_topics s1 = (Inr topics, s')" "flag"
      "filter (\<lambda>n. n \<notin> set topics) (required_topics ks) = []"
    unfolding ensure_kafka_topics_def by (auto simp: io_bind_eq_Inr Let_def split: if_splits)
  then show ?thesis by (auto simp: filter_empty_conv)
qed

lemma ensure_topics_sound_witness:
  "fst (ensure_kafka_topics default_kafka_settings (\<lambda>ts. (Inr ts, ts)) (\<lambda>new ts. (Inr (), new @ ts)) False ([] :: string list)) = Inr True"
proof -
  let ?all = "required_topics default_kafka_settings"
  have "ensure_kafka_topics default_kafka_settings (\<lambda>ts. (Inr ts, ts)) (\<lambda>new ts. (Inr (), new @ ts)) False ([] :: string list)
      = (Inr True, ?all)"
    by (simp add: ensure_kafka_topics_def io_bind_def io_catch_def Let_def required_topics_def default_kafka_settings_def)
  with ensure_topics_sound [OF this] show ?thesis by simp
qed

end
