(* ===== verification/Coalescer.thy ===== *)
theory Coalescer
  imports Kafka_Events "HOL-Library.Sublist"
begin

text \<open>
  The message coalescer, app/services/message_coalescer.py, with the cancellation token of
  app/services/cancellation.py. All methods run under the lock of the conversation, so a
  conversation is a state machine: a message is queued, the debounce timer fires, the processing
  task ends. Times are in milliseconds. How a task that is cancelled ends (it may have finished or
  failed meanwhile) is an input of the step.
\<close>

section \<open>Cancellation token\<close>

record cancel_token =
  ct_cancelled :: bool
  ct_reason :: "string option"

definition new_token :: cancel_token where
  "new_token = \<lparr>ct_cancelled = False, ct_reason = None\<rparr>"

definition token_cancel :: "string \<Rightarrow> cancel_token \<Rightarrow> cancel_token" where
  "token_cancel reason ct = \<lparr>ct_cancelled = True, ct_reason = Some reason\<rparr>"

definition token_reset :: "cancel_token \<Rightarrow> cancel_token" where
  "token_reset ct = \<lparr>ct_cancelled = False, ct_reason = None\<rparr>"

definition check_or_raise :: "cancel_token \<Rightarrow> string + unit" where
  "check_or_raise ct = (if ct_cancelled ct then Inl (or_str (ct_reason ct) ''Operation cancelled'') else Inr ())"

section \<open>Conversations\<close>

record pending_message =
  pm_content :: string
  pm_timestamp :: int
  pm_message_id :: string
  pm_from_number :: string
  pm_chat_guid :: "string option"
  pm_media_url :: "string option"
  pm_is_location_share :: bool
  pm_raw_payload :: dict

datatype task = Running | Ended

record conv =
  cv_pending :: "pending_message list"
  cv_in_flight :: "pending_message list"
  cv_active :: "task option"
  cv_timer :: "int option" \<comment> \<open>when the debounce task wakes up, while it is not done\<close>
  cv_token :: cancel_token
  cv_first_at :: int

record coalescer_cfg =
  cc_debounce_ms :: int
  cc_max_window_ms :: int

definition default_coalescer_cfg :: coalescer_cfg where
  "default_coalescer_cfg = \<lparr>cc_debounce_ms = 1500, cc_max_window_ms = 10000\<rparr>"

definition new_conv :: "int \<Rightarrow> conv" where
  "new_conv now = \<lparr>cv_pending = [], cv_in_flight = [], cv_active = None, cv_timer = None,
     cv_token = new_token, cv_first_at = now\<rparr>"

definition build_conversation_key :: "dict \<Rightarrow> string" where
  "build_conversation_key payload =
     (let chat_guid = or_str (get_str payload ''chat_guid'') '''';
          from_number = or_str (get_str payload ''from_number'') ''''
      in if chat_guid \<noteq> [] \<and> contains_str '';+;'' chat_guid then ''group:'' @ chat_guid else ''dm:'' @ from_number)"

definition pending_of :: "int \<Rightarrow> dict \<Rightarrow> pending_message" where
  "pending_of now payload = \<lparr>
     pm_content = or_str (get_str payload ''content'') '''',
     pm_timestamp = now,
     pm_message_id = or_str (get_str payload ''message_id'') '''',
     pm_from_number = or_str (get_str payload ''from_number'') '''',
     pm_chat_guid = get_str payload ''chat_guid'',
     pm_media_url = get_str payload ''media_url'',
     pm_is_location_share = json_truthy (map_of payload ''is_location_share''),
     pm_raw_payload = payload\<rparr>"

text \<open>\<open>_combine_messages\<close>: the parts, then the text\<close>

fun combine_parts :: "string set \<Rightarrow> pending_message list \<Rightarrow> string list" where
  "combine_parts seen [] = []"
| "combine_parts seen (m # ms) =
     (let content = py_strip (pm_content m) in
      if content \<noteq> [] \<and> content \<notin> seen then content # combine_parts (insert content seen) ms
      else combine_parts seen ms)"

definition combine_messages :: "pending_message list \<Rightarrow> string" where
  "combine_messages ms = join_str [CHR 0x0A] (combine_parts {} (sort_key pm_timestamp ms))"

definition first_media :: "pending_message list \<Rightarrow> string option" where
  "first_media ms = (case filter (\<lambda>m. truthy_str (pm_media_url m)) ms of [] \<Rightarrow> None | m # _ \<Rightarrow> pm_media_url m)"

definition combined_payload :: "pending_message list \<Rightarrow> dict" where
  "combined_payload ms =
     (let p1 = dict_put ''content'' (JStr (combine_messages ms)) (pm_raw_payload (hd ms));
          p2 = dict_put ''_coalesced_count'' (JInt (int (length ms))) p1;
          p3 = dict_put ''_coalesced_message_ids'' (JList (map (\<lambda>m. JStr (pm_message_id m)) ms)) p2
      in case first_media ms of None \<Rightarrow> p3 | Some u \<Rightarrow> dict_put ''media_url'' (JStr u) p3)"

text \<open>\<open>_process_now\<close>: the new state, and the payload the new task hands to the callback.\<close>

definition process_now :: "int \<Rightarrow> conv \<Rightarrow> conv \<times> dict option" where
  "process_now now cv =
     (if cv_pending cv = [] then (cv, None)
      else (cv\<lparr>cv_in_flight := cv_pending cv, cv_pending := [], cv_first_at := now,
               cv_token := token_reset (cv_token cv), cv_active := Some Running\<rparr>,
            Some (combined_payload (cv_pending cv))))"

text \<open>\<open>_start_debounce_timer\<close>; the old timer is cancelled in every case.\<close>

definition wait_ms :: "coalescer_cfg \<Rightarrow> int \<Rightarrow> conv \<Rightarrow> int" where
  "wait_ms cfg now cv = min (cc_debounce_ms cfg) (max 0 (cc_max_window_ms cfg - (now - cv_first_at cv)))"

definition start_debounce_timer :: "coalescer_cfg \<Rightarrow> int \<Rightarrow> conv \<Rightarrow> conv \<times> dict option" where
  "start_debounce_timer cfg now cv =
     (let cv1 = cv\<lparr>cv_timer := None\<rparr> in
      if wait_ms cfg now cv1 \<le> 0 then process_now now cv1
      else (cv1\<lparr>cv_timer := Some (now + wait_ms cfg now cv1)\<rparr>, None))"

text \<open>How a running task ends when it is cancelled: it ends as cancelled, or it had finished or failed
in its own way, in which case it has cleared the messages in flight.\<close>

datatype ending = As_cancelled | By_itself

definition cancel_active :: "ending \<Rightarrow> conv \<Rightarrow> conv" where
  "cancel_active how cv =
     (if cv_active cv = Some Running
      then (let flight = (case how of As_cancelled \<Rightarrow> cv_in_flight cv | By_itself \<Rightarrow> []) in
        cv\<lparr>cv_token := token_cancel ''New message received'' (cv_token cv),
           cv_pending := flight @ cv_pending cv, cv_in_flight := [], cv_active := None\<rparr>)
      else cv)"

text \<open>\<open>_enqueue_message_locked\<close>; \<open>now\<close> is read on entry, \<open>later\<close> when the timer is set.\<close>

definition enqueue_locked :: "coalescer_cfg \<Rightarrow> int \<Rightarrow> int \<Rightarrow> ending \<Rightarrow> dict \<Rightarrow> conv \<Rightarrow> conv \<times> dict option" where
  "enqueue_locked cfg now later how payload cv =
     (let m = pending_of now payload;
          cv1 = cancel_active how cv;
          cv2 = (if cv_pending cv1 = [] \<and> cv_active cv1 = None then cv1\<lparr>cv_first_at := now\<rparr> else cv1);
          cv3 = cv2\<lparr>cv_pending := cv_pending cv2 @ [m]\<rparr>
      in if pm_is_location_share m then process_now later cv3 else start_debounce_timer cfg later cv3)"

text \<open>\<open>_debounce_wait\<close> after the sleep, and the end of a processing task.\<close>

definition timer_fires :: "int \<Rightarrow> conv \<Rightarrow> conv \<times> dict option" where
  "timer_fires now cv = process_now now (cv\<lparr>cv_timer := None\<rparr>)"

definition task_ends :: "conv \<Rightarrow> conv" where
  "task_ends cv = cv\<lparr>cv_in_flight := [], cv_active := Some Ended\<rparr>"

section \<open>All conversations\<close>

type_synonym coalescer = "string \<rightharpoonup> conv"

definition conv_of :: "coalescer \<Rightarrow> int \<Rightarrow> string \<Rightarrow> conv" where
  "conv_of co now key = (case co key of None \<Rightarrow> new_conv now | Some cv \<Rightarrow> cv)"

definition enqueue_message :: "coalescer_cfg \<Rightarrow> int \<Rightarrow> int \<Rightarrow> ending \<Rightarrow> dict \<Rightarrow> coalescer \<Rightarrow> coalescer \<times> dict option" where
  "enqueue_message cfg now later how payload co =
     (let key = build_conversation_key payload in
      case enqueue_locked cfg now later how payload (conv_of co now key) of
        (cv, out) \<Rightarrow> (co(key \<mapsto> cv), out))"

text \<open>\<open>shutdown\<close>: all tasks are cancelled and the conversations forgotten.\<close>

definition shutdown_coalescer :: "coalescer \<Rightarrow> coalescer" where
  "shutdown_coalescer co = Map.empty"

section \<open>Runs of one conversation\<close>

text \<open>
  Beside the state: the messages that arrived, in order, and those whose processing is over
  (finished or failed), in the order of processing.
\<close>

record crun =
  cr_conv :: conv
  cr_arrived :: "pending_message list"
  cr_over :: "pending_message list"

inductive conv_step :: "coalescer_cfg \<Rightarrow> crun \<Rightarrow> crun \<Rightarrow> bool"
  for cfg where
  cs_message: "now \<le> later \<Longrightarrow> conv_step cfg r
     (r\<lparr>cr_conv := fst (enqueue_locked cfg now later how payload (cr_conv r)),
        cr_arrived := cr_arrived r @ [pending_of now payload],
        cr_over := (if cv_active (cr_conv r) = Some Running \<and> how = By_itself
          then cr_over r @ cv_in_flight (cr_conv r) else cr_over r)\<rparr>)"
| cs_timer: "cv_timer (cr_conv r) = Some t \<Longrightarrow> t \<le> now \<Longrightarrow> conv_step cfg r (r\<lparr>cr_conv := fst (timer_fires now (cr_conv r))\<rparr>)"
| cs_end: "cv_active (cr_conv r) = Some Running \<Longrightarrow>
     conv_step cfg r (r\<lparr>cr_conv := task_ends (cr_conv r), cr_over := cr_over r @ cv_in_flight (cr_conv r)\<rparr>)"

inductive conv_run :: "coalescer_cfg \<Rightarrow> crun \<Rightarrow> crun \<Rightarrow> bool"
  for cfg where
  cr_none: "conv_run cfg r r"
| cr_step: "conv_run cfg r q \<Longrightarrow> conv_step cfg q p \<Longrightarrow> conv_run cfg r p"

definition fresh_run :: "int \<Rightarrow> crun" where
  "fresh_run now = \<lparr>cr_conv = new_conv now, cr_arrived = [], cr_over = []\<rparr>"

section \<open>The invariant\<close>

text \<open>
  Nothing waits while something is processed, nothing is in flight while nothing is, and whatever
  waits has a timer that wakes up within the window.
\<close>

definition conv_ok :: "coalescer_cfg \<Rightarrow> conv \<Rightarrow> bool" where
  "conv_ok cfg cv \<longleftrightarrow>
     (cv_active cv = Some Running \<longrightarrow> cv_pending cv = [] \<and> cv_in_flight cv \<noteq> [])
   \<and> (cv_active cv \<noteq> Some Running \<longrightarrow> cv_in_flight cv = [])
   \<and> (cv_pending cv \<noteq> [] \<longrightarrow> (\<exists>t. cv_timer cv = Some t \<and> t \<le> cv_first_at cv + cc_max_window_ms cfg))"

definition run_ok :: "coalescer_cfg \<Rightarrow> crun \<Rightarrow> bool" where
  "run_ok cfg r \<longleftrightarrow> conv_ok cfg (cr_conv r)
     \<and> cr_over r @ cv_in_flight (cr_conv r) @ cv_pending (cr_conv r) = cr_arrived r"

lemmas conv_defs = process_now_def start_debounce_timer_def cancel_active_def timer_fires_def task_ends_def

text \<open>The state after a message was queued, before its timer is set.\<close>

definition queued :: "int \<Rightarrow> ending \<Rightarrow> dict \<Rightarrow> conv \<Rightarrow> conv" where
  "queued now how payload cv =
     (let cv1 = cancel_active how cv;
          cv2 = (if cv_pending cv1 = [] \<and> cv_active cv1 = None then cv1\<lparr>cv_first_at := now\<rparr> else cv1)
      in cv2\<lparr>cv_pending := cv_pending cv2 @ [pending_of now payload]\<rparr>)"

lemma enqueue_queued: "enqueue_locked cfg now later how payload cv =
    (if pm_is_location_share (pending_of now payload) then process_now later (queued now how payload cv)
     else start_debounce_timer cfg later (queued now how payload cv))"
  by (simp add: enqueue_locked_def queued_def Let_def)

lemma queued_facts:
  assumes "conv_ok cfg cv"
  shows "cv_pending (queued now how payload cv) =
      (if cv_active cv = Some Running \<and> how = By_itself then [] else cv_in_flight cv @ cv_pending cv) @ [pending_of now payload]"
    and "cv_in_flight (queued now how payload cv) = []" "cv_active (queued now how payload cv) \<noteq> Some Running"
  using assms by (auto simp: queued_def cancel_active_def conv_ok_def Let_def split: ending.split)

lemma process_now_facts:
  assumes "cv_pending cv \<noteq> []"
  shows "cv_in_flight (fst (process_now now cv)) = cv_pending cv" "cv_pending (fst (process_now now cv)) = []"
    "cv_active (fst (process_now now cv)) = Some Running" "conv_ok cfg (fst (process_now now cv))"
    "snd (process_now now cv) = Some (combined_payload (cv_pending cv))"
  using assms by (simp_all add: process_now_def conv_ok_def)

text \<open>Setting the timer splits the same messages into processed and waiting ones.\<close>

lemma start_debounce_facts:
  assumes "cv_pending cv \<noteq> []" "cv_in_flight cv = []" "cv_active cv \<noteq> Some Running"
  shows "cv_in_flight (fst (start_debounce_timer cfg now cv)) @ cv_pending (fst (start_debounce_timer cfg now cv)) = cv_pending cv"
    and "conv_ok cfg (fst (start_debounce_timer cfg now cv))"
proof -
  have "wait_ms cfg now (cv\<lparr>cv_timer := None\<rparr>) \<le> 0 \<or> now + wait_ms cfg now (cv\<lparr>cv_timer := None\<rparr>) \<le> cv_first_at cv + cc_max_window_ms cfg"
    by (auto simp: wait_ms_def min_def max_def)
  with assms show "conv_ok cfg (fst (start_debounce_timer cfg now cv))"
    by (auto simp: start_debounce_timer_def conv_ok_def process_now_def Let_def)
  show "cv_in_flight (fst (start_debounce_timer cfg now cv)) @ cv_pending (fst (start_debounce_timer cfg now cv)) = cv_pending cv"
    using assms by (simp add: start_debounce_timer_def process_now_def Let_def)
qed

lemma enqueue_ok:
  assumes "conv_ok cfg cv"
  shows "conv_ok cfg (fst (enqueue_locked cfg now later how payload cv))"
    and "cv_in_flight (fst (enqueue_locked cfg now later how payload cv)) @ cv_pending (fst (enqueue_locked cfg now later how payload cv))
      = (if cv_active cv = Some Running \<and> how = By_itself then [] else cv_in_flight cv @ cv_pending cv) @ [pending_of now payload]"
proof -
  let ?q = "queued now how payload cv"
  note q = queued_facts [OF assms, of now how payload]
  have "cv_pending ?q \<noteq> []" using q(1) by simp
  note both = process_now_facts [OF this] start_debounce_facts [OF this q(2,3)]
  show "conv_ok cfg (fst (enqueue_locked cfg now later how payload cv))"
    "cv_in_flight (fst (enqueue_locked cfg now later how payload cv)) @ cv_pending (fst (enqueue_locked cfg now later how payload cv))
      = (if cv_active cv = Some Running \<and> how = By_itself then [] else cv_in_flight cv @ cv_pending cv) @ [pending_of now payload]"
    unfolding q(1) [symmetric] using both by (simp_all add: enqueue_queued)
qed

lemma run_ok_step: "conv_step cfg r q \<Longrightarrow> run_ok cfg r \<Longrightarrow> run_ok cfg q"
proof (induction rule: conv_step.induct)
  case (cs_message now later r how payload)
  then have ok: "conv_ok cfg (cr_conv r)" by (simp add: run_ok_def)
  from enqueue_ok [OF ok, of now later how payload] cs_message ok show ?case
    by (auto simp: run_ok_def conv_ok_def)
next
  case (cs_timer r t now)
  then show ?case by (auto simp: run_ok_def conv_ok_def timer_fires_def process_now_def)
next
  case (cs_end r)
  then show ?case by (auto simp: run_ok_def conv_ok_def task_ends_def)
qed

lemma run_ok_run: "conv_run cfg r q \<Longrightarrow> run_ok cfg r \<Longrightarrow> run_ok cfg q"
  by (induction rule: conv_run.induct) (auto intro: run_ok_step)

lemma run_ok_fresh: "run_ok cfg (fresh_run now)"
  by (simp add: run_ok_def fresh_run_def conv_ok_def new_conv_def)

section \<open>Facts about combining\<close>

lemma combine_parts_facts:
  "distinct (combine_parts seen ms) \<and> set (combine_parts seen ms) = (py_strip \<circ> pm_content) ` set ms - insert [] seen
   \<and> subseq (combine_parts seen ms) (map (py_strip \<circ> pm_content) ms)"
proof (induction ms arbitrary: seen)
  case (Cons m ms)
  show ?case
  proof (cases "py_strip (pm_content m) \<noteq> [] \<and> py_strip (pm_content m) \<notin> seen")
    case True
    with Cons [of "insert (py_strip (pm_content m)) seen"] show ?thesis by (auto simp: Let_def)
  next
    case False
    with Cons [of seen] show ?thesis by (auto simp: Let_def)
  qed
qed simp

lemma first_media_cases:
  "first_media ms = None \<and> (\<forall>m \<in> set ms. \<not> truthy_str (pm_media_url m))
   \<or> (\<exists>before m after u. ms = before @ m # after \<and> pm_media_url m = Some u \<and> u \<noteq> []
        \<and> first_media ms = Some u \<and> (\<forall>x \<in> set before. \<not> truthy_str (pm_media_url x)))"
proof (induction ms)
  case (Cons m ms)
  show ?case
  proof (cases "truthy_str (pm_media_url m)")
    case True
    then obtain u where "pm_media_url m = Some u" "u \<noteq> []" by (cases "pm_media_url m") auto
    then show ?thesis by (intro disjI2 exI [of _ "[]"] exI [of _ m] exI [of _ ms] exI [of _ u]) (simp add: first_media_def)
  next
    case False
    then have "first_media (m # ms) = first_media ms" by (simp add: first_media_def)
    with Cons False show ?thesis
      by (elim disjE exE) (simp, metis append_Cons set_ConsD)
  qed
qed (simp add: first_media_def)

section \<open>Properties\<close>

text \<open>C4: The coalescer loses, duplicates and reorders nothing. However messages, timers, ends of
processing and cancellations interleave, the messages of a conversation whose processing is over,
those in flight and those waiting are together the messages that arrived, in their order; nothing
waits while something is processed, and whatever waits has a timer that wakes up within the window.\<close>

theorem coalescer_loses_nothing:
  assumes "conv_run cfg (fresh_run start) r"
  shows "cr_over r @ cv_in_flight (cr_conv r) @ cv_pending (cr_conv r) = cr_arrived r
    \<and> (cv_active (cr_conv r) = Some Running \<longrightarrow> cv_pending (cr_conv r) = [])
    \<and> (cv_pending (cr_conv r) \<noteq> [] \<longrightarrow>
        (\<exists>t. cv_timer (cr_conv r) = Some t \<and> t \<le> cv_first_at (cr_conv r) + cc_max_window_ms cfg))"
proof -
  have "run_ok cfg r" by (rule run_ok_run [OF assms run_ok_fresh])
  then show ?thesis by (auto simp: run_ok_def conv_ok_def)
qed

definition example_text :: "string \<Rightarrow> dict" where
  "example_text t = [(''from_number'', JStr ''+1555''), (''content'', JStr t), (''message_id'', JStr t)]"

text \<open>One message, processed to its end.\<close>

definition example_first :: crun where
  "example_first = (fresh_run 0)\<lparr>cr_conv := fst (enqueue_locked default_coalescer_cfg 0 0 As_cancelled (example_text ''a'') (new_conv 0)),
     cr_arrived := [pending_of 0 (example_text ''a'')]\<rparr>"

definition example_running :: crun where
  "example_running = example_first\<lparr>cr_conv := fst (timer_fires 1500 (cr_conv example_first))\<rparr>"

definition example_ended :: crun where
  "example_ended = example_running\<lparr>cr_conv := task_ends (cr_conv example_running), cr_over := [pending_of 0 (example_text ''a'')]\<rparr>"

lemmas conv_eval = enqueue_locked_def cancel_active_def start_debounce_timer_def wait_ms_def process_now_def timer_fires_def
  task_ends_def new_conv_def fresh_run_def default_coalescer_cfg_def example_first_def example_running_def example_ended_def

lemma example_not_location [simp]: "pm_is_location_share (pending_of now (example_text t)) = False"
  by (simp add: pending_of_def example_text_def)

lemma example_run: "conv_run default_coalescer_cfg (fresh_run 0) example_ended"
proof -
  have 1: "conv_step default_coalescer_cfg (fresh_run 0) example_first"
    using cs_message [of 0 0 default_coalescer_cfg "fresh_run 0" As_cancelled "example_text ''a''"]
    by (simp add: example_first_def fresh_run_def)
  have "cv_timer (cr_conv example_first) = Some 1500" by (simp add: conv_eval)
  then have 2: "conv_step default_coalescer_cfg example_first example_running"
    using cs_timer [of example_first 1500 1500 default_coalescer_cfg] by (simp add: example_running_def)
  have "cv_active (cr_conv example_running) = Some Running" "cr_over example_running = []"
    "cv_in_flight (cr_conv example_running) = [pending_of 0 (example_text ''a'')]" by (simp_all add: conv_eval)
  then have 3: "conv_step default_coalescer_cfg example_running example_ended"
    using cs_end [of example_running default_coalescer_cfg] by (simp add: example_ended_def)
  show ?thesis by (rule cr_step [OF cr_step [OF cr_step [OF cr_none 1] 2] 3])
qed

lemma coalescer_loses_nothing_witness:
  "cr_over example_ended @ cv_in_flight (cr_conv example_ended) @ cv_pending (cr_conv example_ended) = [pending_of 0 (example_text ''a'')]"
  using coalescer_loses_nothing [OF example_run]
  by (simp add: example_ended_def example_running_def example_first_def)

text \<open>A defect: only the first batch of a conversation is debounced as designed. The code forgets to
clear \<open>active_task\<close> when a task ends, so the start of the next batch is not recognised and the window
still counts from the batch before. A message that comes later than one window after that is
processed at once, alone; in a new conversation the same message waits for the debounce time.\<close>

theorem later_batch_is_not_debounced:
  assumes ended: "cv_active cv = Some Ended" "cv_pending cv = []"
    and old: "cc_max_window_ms cfg \<le> later - cv_first_at cv"
    and cfg: "0 < cc_debounce_ms cfg" "0 < cc_max_window_ms cfg"
    and plain: "\<not> pm_is_location_share (pending_of now payload)"
  shows "snd (enqueue_locked cfg now later how payload cv) = Some (combined_payload [pending_of now payload])
    \<and> cv_timer (fst (enqueue_locked cfg now later how payload cv)) = None
    \<and> snd (enqueue_locked cfg now now how payload (new_conv start)) = None
    \<and> cv_timer (fst (enqueue_locked cfg now now how payload (new_conv start)))
        = Some (now + min (cc_debounce_ms cfg) (cc_max_window_ms cfg))"
  using assms
  by (auto simp: enqueue_locked_def cancel_active_def start_debounce_timer_def process_now_def wait_ms_def new_conv_def Let_def)

text \<open>One minute after the first message was processed, a second one comes.\<close>

lemma later_batch_is_not_debounced_witness:
  "snd (enqueue_locked default_coalescer_cfg 60000 60000 As_cancelled (example_text ''b'') (cr_conv example_ended))
     = Some (combined_payload [pending_of 60000 (example_text ''b'')])"
proof -
  have "cv_active (cr_conv example_ended) = Some Ended" "cv_pending (cr_conv example_ended) = []"
    "cv_first_at (cr_conv example_ended) = 1500" by (simp_all add: conv_eval)
  with later_batch_is_not_debounced [of "cr_conv example_ended" default_coalescer_cfg 60000 60000 "example_text ''b''" As_cancelled]
  show ?thesis by (simp add: default_coalescer_cfg_def)
qed

text \<open>The combined text holds every text of the batch once, blanks stripped and empty ones left out,
in the order of the first arrivals, one per line; the payload names all message ids and carries the
first media of the batch.\<close>

theorem combined_payload_content:
  assumes "ms \<noteq> []"
  shows "(\<exists>parts. get_str (combined_payload ms) ''content'' = Some (join_str [CHR 0x0A] parts)
      \<and> distinct parts \<and> set parts = (py_strip \<circ> pm_content) ` set ms - {[]}
      \<and> subseq parts (map (py_strip \<circ> pm_content) (sort_key pm_timestamp ms)))
    \<and> map_of (combined_payload ms) ''_coalesced_message_ids'' = Some (JList (map (\<lambda>m. JStr (pm_message_id m)) ms))
    \<and> (\<forall>u. first_media ms = Some u \<longrightarrow> get_str (combined_payload ms) ''media_url'' = Some u)"
proof -
  have "get_str (combined_payload ms) ''content'' = Some (combine_messages ms)"
    "map_of (combined_payload ms) ''_coalesced_message_ids'' = Some (JList (map (\<lambda>m. JStr (pm_message_id m)) ms))"
    "first_media ms = Some u \<Longrightarrow> get_str (combined_payload ms) ''media_url'' = Some u" for u
    by (simp_all add: combined_payload_def Let_def split: option.split)
  with combine_parts_facts [of "{}" "sort_key pm_timestamp ms"] show ?thesis
    unfolding combine_messages_def by auto
qed

lemma combined_payload_content_witness:
  "map_of (combined_payload [pending_of 0 (example_text ''a'')]) ''_coalesced_message_ids'' = Some (JList [JStr ''a''])
   \<and> combine_messages [pending_of 1 (example_text ''b''), pending_of 0 (example_text ''a''), pending_of 2 (example_text ''b'')]
     = ''a'' @ [CHR 0x0A] @ ''b''"
proof -
  have "[pending_of 0 (example_text ''a'')] \<noteq> []" by simp
  from combined_payload_content [OF this] show ?thesis
    by (simp add: combine_messages_def pending_of_def example_text_def get_str_def
        py_strip_def strip_by_def lstrip_by_def rstrip_by_def py_space_def Let_def)
qed

text \<open>A defect: a group chat whose GUID starts with \<open>chat\<close> (which the event pipeline takes for a group)
has no queue of its own in the coalescer: its messages share the queue of the sender's direct messages,
so texts of both are combined into one.\<close>

theorem chat_guid_shares_dm_queue:
  assumes "get_str payload ''chat_guid'' = Some g" "starts_with ''chat'' g" "\<not> contains_str '';+;'' g"
    and "get_str dm ''chat_guid'' = None \<or> get_str dm ''chat_guid'' = Some h \<and> \<not> contains_str '';+;'' h"
    and "get_str dm ''from_number'' = get_str payload ''from_number''"
  shows "is_group_chat (Some g) \<and> build_conversation_key payload = build_conversation_key dm"
proof -
  have "g \<noteq> []" using assms(2) by auto
  with assms show ?thesis by (auto simp: is_group_chat_def build_conversation_key_def Let_def or_str_def)
qed

lemma chat_guid_shares_dm_queue_witness:
  "build_conversation_key [(''chat_guid'', JStr ''chat42''), (''from_number'', JStr ''+1555'')]
     = build_conversation_key [(''from_number'', JStr ''+1555'')]"
  using chat_guid_shares_dm_queue [of "[(''chat_guid'', JStr ''chat42''), (''from_number'', JStr ''+1555'')]" "''chat42''"
      "[(''from_number'', JStr ''+1555'')]"]
  by (simp add: get_str_def)

end
