(* ===== verification/Phone_Validator.thy ===== *)
theory Phone_Validator
  imports Frank_Prelude
begin

text \<open>
  Phone numbers, app/utils/phone_validator.py. Strings are over Latin-1, where \<open>\d\<close> matches the
  digits 0 to 9 only and \<open>\s\<close> the characters of \<open>py_space\<close>. The regular expressions are written
  out as predicates; none of the cleaned strings contains a newline, so \<open>$\<close> is the end.
\<close>

section \<open>The checks\<close>

text \<open>\<open>re.sub(r'[\s\-\(\)\.]+', '', phone)\<close>\<close>

definition format_char :: "char \<Rightarrow> bool" where
  "format_char c \<longleftrightarrow> py_space c \<or> c \<in> {CHR ''-'', CHR ''('', CHR '')'', CHR ''.''}"

definition cleaned :: "string \<Rightarrow> string" where
  "cleaned phone = filter (\<lambda>c. \<not> format_char c) phone"

definition digit_between :: "nat \<Rightarrow> nat \<Rightarrow> char \<Rightarrow> bool" where
  "digit_between a b c \<longleftrightarrow> 48 + a \<le> (of_char c :: nat) \<and> (of_char c :: nat) \<le> 48 + b"

text \<open>\<open>^[1-9]\d{9,14}$\<close>, \<open>^[2-9]\d{9}$\<close> and \<open>^\+[1-9]\d{9,14}$\<close>\<close>

fun intl_pattern :: "string \<Rightarrow> bool" where
  "intl_pattern [] = False"
| "intl_pattern (c # cs) \<longleftrightarrow> digit_between 1 9 c \<and> list_all is_digit cs \<and> 9 \<le> length cs \<and> length cs \<le> 14"

fun us_pattern :: "string \<Rightarrow> bool" where
  "us_pattern [] = False"
| "us_pattern (c # cs) \<longleftrightarrow> digit_between 2 9 c \<and> list_all is_digit cs \<and> length cs = 9"

fun e164_pattern :: "string \<Rightarrow> bool" where
  "e164_pattern [] = False"
| "e164_pattern (c # cs) \<longleftrightarrow> c = CHR ''+'' \<and> intl_pattern cs"

definition looks_like_url :: "string \<Rightarrow> bool" where
  "looks_like_url phone \<longleftrightarrow> starts_with ''http'' phone \<or> starts_with ''www'' phone"

definition is_valid_phone_number :: "string \<Rightarrow> bool" where
  "is_valid_phone_number phone =
     (if phone = [] then False
      else if CHR ''@'' \<in> set phone \<or> CHR ''.'' \<in> set phone \<and> CHR ''@'' \<notin> set phone then False
      else if looks_like_url phone then False
      else if e164_pattern (cleaned phone) then True
      else if us_pattern (cleaned phone) then True
      else if intl_pattern (cleaned phone) then True
      else False)"

definition normalize_phone_number :: "string \<Rightarrow> string option" where
  "normalize_phone_number phone =
     (if phone = [] then None
      else let c = cleaned phone in
        if starts_with ''+'' c
        then (let c' = (if length c = 11 \<and> digit_between 2 9 (c ! 1) then ''+1'' @ drop 1 c else c)
              in if is_valid_phone_number c' then Some c' else None)
        else if us_pattern c then Some (''+1'' @ c)
        else if starts_with ''1'' c \<and> length c = 11 then Some (''+'' @ c)
        else if intl_pattern c then Some (''+'' @ c)
        else None)"

definition validate_and_normalize :: "string \<Rightarrow> bool \<times> string option \<times> string option" where
  "validate_and_normalize phone =
     (if phone = [] then (False, None, Some ''Phone number is empty'')
      else if CHR ''@'' \<in> set phone then (False, None, Some ''Phone number appears to be an email'')
      else if looks_like_url phone then (False, None, Some ''Phone number appears to be a URL'')
      else (case normalize_phone_number phone of
         None \<Rightarrow> (False, None, Some (''Invalid phone number format: '' @ phone))
       | Some n \<Rightarrow> if is_valid_phone_number n then (True, Some n, None)
                  else (False, None, Some ''Phone number failed final validation'')))"

text \<open>\<open>str.isdigit\<close>, which also accepts the superscripts of Latin-1\<close>

definition all_isdigit :: "string \<Rightarrow> bool" where
  "all_isdigit s \<longleftrightarrow> s \<noteq> [] \<and> list_all (\<lambda>c. is_digit c \<or> (of_char c :: nat) \<in> {178, 179, 185}) s"

definition get_invalid_phone_reason :: "string \<Rightarrow> string" where
  "get_invalid_phone_reason phone =
     (if phone = [] then ''Phone number is empty or None''
      else if CHR ''@'' \<in> set phone then ''Contains '' @ [CHR 0x27] @ ''@'' @ [CHR 0x27] @ '' symbol - appears to be an email address''
      else if looks_like_url phone then ''Starts with http/www - appears to be a URL''
      else let c = cleaned phone in
        if \<not> all_isdigit (filter (\<lambda>x. x \<noteq> CHR ''+'') c)
        then ''Contains non-digit characters (excluding +, spaces, dashes, parentheses)''
        else if starts_with ''+'' c \<and> (length c < 11 \<or> 16 < length c)
        then ''Invalid length: '' @ str_nat (length c - 1) @ '' digits (expected 10-15 with country code)''
        else if \<not> starts_with ''+'' c \<and> (length c < 10 \<or> 15 < length c)
        then ''Invalid length: '' @ str_nat (length c) @ '' digits (expected 10-15)''
        else ''Phone number format not recognized (expected E.164 format like +16463707933)'')"

section \<open>Facts about numbers\<close>

lemma digit_not_format: "is_digit c \<Longrightarrow> \<not> format_char c"
  by (auto simp: is_digit_def format_char_def py_space_def Let_def)

lemma digit_between_digit: "digit_between a b c \<Longrightarrow> b \<le> 9 \<Longrightarrow> is_digit c"
  by (simp add: digit_between_def is_digit_def Let_def)

lemma intl_digits: "intl_pattern s \<Longrightarrow> list_all is_digit s"
  by (cases s) (auto intro: digit_between_digit)

lemma us_intl: "us_pattern s \<Longrightarrow> intl_pattern s \<and> intl_pattern (CHR ''1'' # s)"
  by (cases s) (auto simp: digit_between_def is_digit_def Let_def)

lemma cleaned_digits: "list_all is_digit s \<Longrightarrow> cleaned s = s"
  by (induction s) (auto simp: cleaned_def digit_not_format)

lemma digits_plain:
  assumes "list_all is_digit s"
  shows "CHR ''@'' \<notin> set s" "CHR ''.'' \<notin> set s"
  using assms by (auto simp: list_all_iff is_digit_def)

lemma cleaned_plus: "cleaned (CHR ''+'' # s) = CHR ''+'' # cleaned s"
  by (simp add: cleaned_def format_char_def py_space_def)

lemma cleaned_idem [simp]: "cleaned (cleaned s) = cleaned s"
  by (simp add: cleaned_def)

lemma e164_cases: "e164_pattern s \<longleftrightarrow> (\<exists>d. s = CHR ''+'' # d \<and> intl_pattern d)"
  by (cases s) auto

lemma e164_valid:
  assumes "e164_pattern s"
  shows "is_valid_phone_number s" "cleaned s = s"
proof -
  obtain d where s: "s = CHR ''+'' # d" "intl_pattern d" using assms by (auto simp: e164_cases)
  have "cleaned s = s" using s intl_digits cleaned_digits by (simp add: cleaned_plus)
  then show "cleaned s = s" "is_valid_phone_number s"
    using assms s digits_plain [OF intl_digits [OF s(2)]]
    by (simp_all add: is_valid_phone_number_def looks_like_url_def)
qed

lemma cleaned_plus_starts: "starts_with ''+'' (cleaned s) \<Longrightarrow> \<exists>d. cleaned s = CHR ''+'' # d"
  by (cases "cleaned s") auto

lemma valid_plus: "is_valid_phone_number s \<Longrightarrow> cleaned s = CHR ''+'' # d \<Longrightarrow> e164_pattern (cleaned s)"
  by (auto simp: is_valid_phone_number_def digit_between_def split: if_splits)

text \<open>The shapes a normalized number can have.\<close>

lemma normalize_shapes:
  assumes "normalize_phone_number phone = Some q"
  obtains "e164_pattern q" "\<not> (length q = 11 \<and> digit_between 2 9 (q ! 1))"
  | "q = ''+'' @ cleaned phone" "starts_with ''1'' (cleaned phone)" "length (cleaned phone) = 11"
proof -
  let ?c = "cleaned phone"
  show thesis
  proof (cases "starts_with ''+'' ?c")
    case True
    then obtain d where d: "?c = CHR ''+'' # d" using cleaned_plus_starts by blast
    let ?c' = "if length ?c = 11 \<and> digit_between 2 9 (?c ! 1) then ''+1'' @ drop 1 ?c else ?c"
    have q: "q = ?c'" "is_valid_phone_number ?c'"
      using assms True by (auto simp: normalize_phone_number_def Let_def split: if_splits)
    have "cleaned d = d" using d cleaned_idem [of phone] by (simp add: cleaned_plus)
    then have "cleaned ?c' = ?c'" "\<exists>d'. ?c' = CHR ''+'' # d'"
      using d by (auto simp: cleaned_def format_char_def py_space_def)
    with q valid_plus have "e164_pattern q" by metis
    moreover have "\<not> (length q = 11 \<and> digit_between 2 9 (q ! 1))" using q(1) by (auto split: if_splits)
    ultimately show thesis by (rule that(1))
  next
    case False
    with assms consider "us_pattern ?c" "q = ''+1'' @ ?c" | "\<not> us_pattern ?c" "starts_with ''1'' ?c" "length ?c = 11" "q = ''+'' @ ?c"
      | "\<not> us_pattern ?c" "\<not> (starts_with ''1'' ?c \<and> length ?c = 11)" "intl_pattern ?c" "q = ''+'' @ ?c"
      by (auto simp: normalize_phone_number_def Let_def split: if_splits)
    then show thesis
    proof cases
      case 1
      with us_intl [of ?c] that(1) show thesis by (auto simp: digit_between_def)
    next
      case 2
      with that(2) show thesis by simp
    next
      case 3
      then have "\<not> (length q = 11 \<and> digit_between 2 9 (q ! 1))"
        by (cases ?c) (auto simp: digit_between_def)
      with 3 that(1) show thesis by simp
    qed
  qed
qed

lemma normalize_fixed:
  assumes "e164_pattern q" "\<not> (length q = 11 \<and> digit_between 2 9 (q ! 1))"
  shows "normalize_phone_number q = Some q"
proof -
  obtain d where "q = CHR ''+'' # d" using assms(1) by (auto simp: e164_cases)
  with assms e164_valid [OF assms(1)] show ?thesis
    by (auto simp: normalize_phone_number_def Let_def)
qed

lemma valid_shape:
  assumes "normalize_phone_number phone = Some q" "is_valid_phone_number q"
  shows "e164_pattern q \<and> \<not> (length q = 11 \<and> digit_between 2 9 (q ! 1))"
  using assms(1)
proof (cases rule: normalize_shapes)
  case 2
  then have "cleaned q = CHR ''+'' # cleaned phone" by (simp add: cleaned_plus)
  with valid_plus [OF assms(2) this] 2 show ?thesis by simp
qed simp

section \<open>Properties\<close>


text \<open>A defect: a correct E.164 number of ten digits that is not a North American one (for example
a Danish or Singaporean number, +45 or +65 and eight digits) is taken for a US number without its
country code, and becomes a different, valid number.\<close>

theorem ten_digit_number_is_changed:
  assumes "e164_pattern (CHR ''+'' # d)" "length d = 10" "digit_between 2 9 (hd d)"
  shows "normalize_phone_number (CHR ''+'' # d) = Some (''+1'' @ d)
    \<and> validate_and_normalize (CHR ''+'' # d) = (True, Some (''+1'' @ d), None)"
proof -
  have d: "list_all is_digit d" "intl_pattern d" using assms(1) intl_digits by auto
  have one: "e164_pattern (''+1'' @ d)" using d assms(2) by (simp add: digit_between_def)
  have cl: "cleaned (CHR ''+'' # d) = CHR ''+'' # d" using d by (simp add: cleaned_plus cleaned_digits)
  have "d ! 0 = hd d" using assms(2) by (cases d) auto
  then have norm: "normalize_phone_number (CHR ''+'' # d) = Some (''+1'' @ d)"
    using assms cl e164_valid [OF one] by (simp add: normalize_phone_number_def Let_def)
  then show ?thesis
    using e164_valid [OF one] digits_plain [OF d(1)] by (simp add: validate_and_normalize_def looks_like_url_def)
qed

lemma ten_digit_number_is_changed_witness:
  "normalize_phone_number ''+4532123456'' = Some ''+14532123456''"
  using ten_digit_number_is_changed [of "''4532123456''"]
  by (simp add: digit_between_def is_digit_def)

text \<open>A defect: \<open>normalize_phone_number\<close> checks only the first character and the length of an eleven
character text that starts with 1, so its answer need not be a number.\<close>

theorem normalize_accepts_non_digits:
  assumes "list_all (\<lambda>c. \<not> format_char c) s" "length s = 10"
  shows "normalize_phone_number (CHR ''1'' # s) = Some (''+1'' @ s)"
proof -
  have "cleaned (CHR ''1'' # s) = CHR ''1'' # s"
    using assms(1) by (simp add: cleaned_def format_char_def py_space_def list_all_iff filter_id_conv)
  moreover have "\<not> us_pattern (CHR ''1'' # s)" by (simp add: digit_between_def)
  ultimately show ?thesis using assms(2) by (simp add: normalize_phone_number_def Let_def)
qed

lemma normalize_accepts_non_digits_witness:
  "normalize_phone_number ''1abcdefghij'' = Some ''+1abcdefghij'' \<and> \<not> e164_pattern ''+1abcdefghij''"
  using normalize_accepts_non_digits [of "''abcdefghij''"]
  by (simp add: format_char_def py_space_def is_digit_def)

end
