(* ===== verification/Tool_Inputs.thy ===== *)
theory Tool_Inputs
  imports Connection_Requests Phone_Validator "HOL-Library.Multiset"
begin

text \<open>
  What the networking tools (app/agents/tools/networking.py) make of their arguments before they act:
  user and request ids that a language model may have garbled, addresses for delivery, facts by age,
  purposes that repeat each other, and the answers of the language model to two of its questions.
\<close>

section \<open>Ids\<close>

definition profile_id :: "dict \<Rightarrow> string option" where
  "profile_id profile = (if truthy_str (get_str profile ''user_id'') then get_str profile ''user_id'' else get_str profile ''id'')"

text \<open>The error, or the id to use. An id of None is the empty text.\<close>

definition validate_and_repair_user_id :: "string \<Rightarrow> dict \<Rightarrow> string + string" where
  "validate_and_repair_user_id uid profile =
     (let own = profile_id profile; own_valid = (truthy_str own \<and> valid_uuid (the own)) in
      if uid = [] then (if own_valid then Inr (the own) else Inl ''user_id is required and not available in user_profile'')
      else if valid_uuid uid
      then (if truthy_str own \<and> the own \<noteq> uid then Inl ''user_id does not match authenticated user'' else Inr uid)
      else if own_valid then Inr (the own)
      else Inl (''Invalid user_id format: '' @ uid @ '' (and no valid profile fallback)''))"

definition validate_user_id :: "string \<Rightarrow> dict \<Rightarrow> string option" where
  "validate_user_id uid profile = (case validate_and_repair_user_id uid profile of Inl e \<Rightarrow> Some e | Inr _ \<Rightarrow> None)"

definition validate_request_id :: "string \<Rightarrow> string option" where
  "validate_request_id rid =
     (if rid = [] then Some ''request_id is required''
      else if valid_uuid rid then None else Some (''Invalid request_id format: '' @ rid))"

lemma empty_not_uuid: "\<not> valid_uuid []"
  by code_simp

text \<open>The tools work for nobody but the user who is logged in: an id that passes the check is a UUID, and it is the
id of the user's profile whenever the profile has one, whatever the language model passed.\<close>

theorem accepted_id_is_the_users:
  assumes "validate_and_repair_user_id uid profile = Inr used"
  shows "valid_uuid used \<and> (truthy_str (profile_id profile) \<longrightarrow> profile_id profile = Some used)"
  using assms by (auto simp: validate_and_repair_user_id_def Let_def split: if_splits) (cases "profile_id profile"; simp)+

definition example_uuid :: string where
  "example_uuid = replicate 32 CHR ''a''"

lemma example_uuid_valid [simp]: "valid_uuid example_uuid"
  by (simp add: example_uuid_def valid_uuid_sample)

lemma accepted_id_is_the_users_witness:
  "\<exists>used. validate_and_repair_user_id ''Ann'' [(''id'', JStr example_uuid)] = Inr used \<and> used = example_uuid"
proof -
  have "\<not> valid_uuid ''Ann''" by code_simp
  moreover have "example_uuid \<noteq> []" by (simp add: example_uuid_def)
  moreover have p: "profile_id [(''id'', JStr example_uuid)] = Some example_uuid" by (simp add: profile_id_def get_str_def)
  ultimately have "validate_and_repair_user_id ''Ann'' [(''id'', JStr example_uuid)] = Inr example_uuid"
    by (simp add: validate_and_repair_user_id_def Let_def)
  with accepted_id_is_the_users [OF this] show ?thesis by blast
qed

section \<open>Addresses\<close>

definition normalize_delivery_handle :: "string option \<Rightarrow> string option" where
  "normalize_delivery_handle raw =
     (let handle0 = py_strip (or_str raw []);
          handle1 = (if starts_with ''iMessage;-;'' handle0 then py_strip (drop 11 handle0) else handle0);
          handle = (if starts_with ''mailto:'' (py_lower handle1) then py_strip (drop 7 handle1) else handle1)
      in if handle0 = [] then None
         else if CHR ''@'' \<in> set handle then Some (py_lower handle)
         else normalize_phone_number handle)"

text \<open>The addresses that are tried in turn, each once\<close>

definition add_target :: "string list \<Rightarrow> string option \<Rightarrow> string list" where
  "add_target targets candidate =
     (case normalize_delivery_handle candidate of
        None \<Rightarrow> targets | Some t \<Rightarrow> if t = [] \<or> t \<in> set targets then targets else targets @ [t])"

record delivery_user =
  dl_phone :: "string option"
  dl_email :: "string option"
  dl_metadata :: "dict option"

definition delivery_candidates :: "string option \<Rightarrow> delivery_user option \<Rightarrow> string list option \<Rightarrow> string option list" where
  "delivery_candidates preferred user linked =
     preferred #
     (case user of None \<Rightarrow> []
      | Some u \<Rightarrow> [dl_phone u, dl_email u] @
          (case dl_metadata u of None \<Rightarrow> [] | Some m \<Rightarrow> map (get_str m) [''phone_number'', ''from_number'', ''imessage_handle'']))
     @ (case linked of None \<Rightarrow> [] | Some hs \<Rightarrow> map Some hs)"

definition get_preview_delivery_targets :: "string option \<Rightarrow> delivery_user option \<Rightarrow> string list option \<Rightarrow> string list" where
  "get_preview_delivery_targets preferred user linked = foldl add_target [] (delivery_candidates preferred user linked)"

lemma targets_of_candidates:
  "distinct ts \<Longrightarrow> distinct (foldl add_target ts cs) \<and> set (foldl add_target ts cs) = set ts \<union> {t. t \<noteq> [] \<and> Some t \<in> normalize_delivery_handle ` set cs}"
proof (induction cs arbitrary: ts)
  case (Cons c cs)
  have "distinct (add_target ts c) \<and> set (add_target ts c) = set ts \<union> {t. t \<noteq> [] \<and> Some t = normalize_delivery_handle c}"
    using Cons.prems by (auto simp: add_target_def split: option.splits)
  with Cons.IH [of "add_target ts c"] show ?case by auto
qed simp

section \<open>Facts\<close>

text \<open>
  A fact has its text and the two dates as they were parsed; \<open>day\<close> is its date as text. Undated
  facts count as old. Sorting is stable, newest first.
\<close>

record raw_fact =
  rf_text :: string
  rf_valid :: "int option"
  rf_created :: "int option"

definition fact_date :: "raw_fact \<Rightarrow> int option" where
  "fact_date r = (case rf_valid r of Some d \<Rightarrow> Some d | None \<Rightarrow> rf_created r)"

definition dated_text :: "(int \<Rightarrow> string) \<Rightarrow> raw_fact \<Rightarrow> string" where
  "dated_text day r = (case fact_date r of Some d \<Rightarrow> ''['' @ day d @ ''] '' @ rf_text r | None \<Rightarrow> rf_text r)"

definition sort_raw_facts_by_recency :: "(int \<Rightarrow> string) \<Rightarrow> int \<Rightarrow> raw_fact list \<Rightarrow> int \<Rightarrow> string list \<times> string list" where
  "sort_raw_facts_by_recency day now facts recent_days =
     (let cutoff = now - recent_days * 86400000000;
          facts' = filter (\<lambda>r. rf_text r \<noteq> []) facts;
          dated = sort_key (\<lambda>r. - the (fact_date r)) (filter (\<lambda>r. fact_date r \<noteq> None) facts');
          undated = filter (\<lambda>r. fact_date r = None) facts'
      in (map (dated_text day) (filter (\<lambda>r. cutoff \<le> the (fact_date r)) dated),
          map (dated_text day) (filter (\<lambda>r. the (fact_date r) < cutoff) dated) @ map (dated_text day) undated))"

section \<open>Purposes\<close>

definition purpose_stop_words :: "string list" where
  "purpose_stop_words = [''the'', ''and'', ''for'', ''with'', ''someone'', ''finding'', ''looking'', ''want'', ''need'', ''would'', ''could'',
     ''like'', ''that'', ''this'', ''who'', ''can'', ''help'', ''find'', ''connect'', ''meet'', ''partner'', ''buddy'', ''person'', ''people'']"

definition is_lower_ascii :: "char \<Rightarrow> bool" where
  "is_lower_ascii c = (let n = (of_char c :: nat) in 97 \<le> n \<and> n \<le> 122)"

definition purpose_keywords :: "string \<Rightarrow> string list" where
  "purpose_keywords t = remdups (filter (\<lambda>w. 3 \<le> length w \<and> list_all is_lower_ascii w \<and> w \<notin> set purpose_stop_words)
     (words_by (\<lambda>c. \<not> is_word_char c) (py_lower t)))"

definition overlaps :: "string list \<Rightarrow> string list \<Rightarrow> bool" where
  "overlaps a b \<longleftrightarrow> b \<noteq> [] \<and> min (length a) (length b) < 2 * length (filter (\<lambda>w. w \<in> set b) a)"

definition is_duplicate_purpose :: "string \<Rightarrow> string list \<Rightarrow> bool" where
  "is_duplicate_purpose new existing \<longleftrightarrow> new \<noteq> [] \<and> purpose_keywords new \<noteq> []
     \<and> list_ex (\<lambda>e. overlaps (purpose_keywords new) (purpose_keywords e)) existing"

section \<open>Answers of the language model\<close>

definition ends_with_str :: "string \<Rightarrow> string \<Rightarrow> bool" where
  "ends_with_str suffix s = starts_with (rev suffix) (rev s)"

definition strip_fences :: "string \<Rightarrow> string" where
  "strip_fences response =
     (let a = py_strip response;
          b = (if starts_with ''```json'' a then drop 7 a else a);
          c = (if starts_with ''```'' b then drop 3 b else b);
          d = (if ends_with_str ''```'' c then take (length c - 3) c else c)
      in py_strip d)"

definition get_or :: "dict \<Rightarrow> string \<Rightarrow> json \<Rightarrow> json" where
  "get_or d k x = (case map_of d k of Some v \<Rightarrow> v | None \<Rightarrow> x)"

fun put_key :: "string \<Rightarrow> json \<Rightarrow> dict \<Rightarrow> dict" where
  "put_key k v [] = [(k, v)]"
| "put_key k v ((k', v') # d) = (if k' = k then (k, v) # d else (k', v') # put_key k v d)"

text \<open>The suggestions that are kept. A \<open>purpose\<close> that is no text is not compared.\<close>

definition suggestion_of :: "dict \<Rightarrow> dict" where
  "suggestion_of s = [(''purpose'', get_or s ''purpose'' (JStr [])), (''group_name'', get_or s ''group_name'' (JStr [])),
     (''rationale'', get_or s ''reasoning'' (JStr [])), (''evidence'', get_or s ''evidence'' (JStr [])),
     (''activity_type'', get_or s ''activity_type'' (JStr ''general'')), (''event_date'', get_or s ''event_date'' JNull),
     (''urgency'', get_or s ''urgency'' (JStr ''medium''))]"

definition keep_suggestions :: "nat \<Rightarrow> string list \<Rightarrow> dict list \<Rightarrow> dict list" where
  "keep_suggestions max_suggestions recent raw =
     map suggestion_of (filter (\<lambda>s. \<not> is_duplicate_purpose (or_str (get_str s ''purpose'') []) recent) (take max_suggestions raw))"

text \<open>\<open>item.get("index", 0)\<close> compared with numbers: anything but a number raises.\<close>

definition rank_index :: "dict \<Rightarrow> int option" where
  "rank_index item = (case get_or item ''index'' (JInt 0) of JInt n \<Rightarrow> Some n | JBool b \<Rightarrow> Some (if b then 1 else 0) | _ \<Rightarrow> None)"

definition enrich :: "json \<Rightarrow> json \<Rightarrow> nat \<Rightarrow> dict \<Rightarrow> dict" where
  "enrich match_type max_matches rank s =
     put_key ''signal_text'' (get_or s ''purpose'' (JStr []))
       (put_key ''rank'' (JInt (int rank)) (put_key ''max_matches'' max_matches (put_key ''match_type'' match_type s)))"

fun rank_loop :: "dict list \<Rightarrow> nat \<Rightarrow> dict list \<Rightarrow> dict list option" where
  "rank_loop suggestions rank [] = Some []"
| "rank_loop suggestions rank (item # items) =
     (case rank_index item of
        None \<Rightarrow> None
      | Some idx \<Rightarrow>
          (case rank_loop suggestions (Suc rank) items of
             None \<Rightarrow> None
           | Some rest \<Rightarrow>
               if idx < 1 \<or> int (length suggestions) < idx then Some rest
               else let t = get_or item ''match_type'' (JStr ''single''); ok = (t = JStr ''single'' \<or> t = JStr ''multi'')
                    in Some (enrich (if ok then t else JStr ''single'') (if ok then get_or item ''max_matches'' (JInt 1) else JInt 1) rank
                               (suggestions ! nat (idx - 1)) # rest)))"

definition unranked :: "dict list \<Rightarrow> dict list" where
  "unranked suggestions = map (\<lambda>(i, s). enrich (JStr ''single'') (JInt 1) (Suc i) s) (enumerate 0 suggestions)"

text \<open>\<open>answer\<close> is the list of items of the language model; None when asking or parsing raised.\<close>

definition rank_purposes_for_proactive :: "dict list option \<Rightarrow> dict list \<Rightarrow> dict list" where
  "rank_purposes_for_proactive answer suggestions =
     (if suggestions = [] then []
      else case answer of
        None \<Rightarrow> unranked suggestions
      | Some items \<Rightarrow> (case rank_loop suggestions 1 items of None \<Rightarrow> unranked suggestions | Some ranked \<Rightarrow> ranked))"

section \<open>Properties\<close>

lemma put_other [simp]: "map_of (put_key k v d) k' = (if k' = k then Some v else map_of d k')"
  by (induction k v d rule: put_key.induct) auto

lemma enrich_type: "map_of (enrich t m rank s) ''match_type'' = Some t"
  by (simp add: enrich_def)

lemma enrich_purpose: "map_of (enrich t m rank s) ''purpose'' = map_of s ''purpose''"
  by (simp add: enrich_def)

lemma rank_loop_items:
  "rank_loop suggestions rank items = Some ranked \<Longrightarrow>
     \<forall>r \<in> set ranked. \<exists>t m k. \<exists>s \<in> set suggestions. r = enrich t m k s \<and> t \<in> {JStr ''single'', JStr ''multi''} \<and> rank \<le> k"
proof (induction suggestions rank items arbitrary: ranked rule: rank_loop.induct)
  case (2 suggestions rank item items)
  then obtain idx rest where r: "rank_index item = Some idx" "rank_loop suggestions (Suc rank) items = Some rest"
    by (auto split: option.splits)
  have rest: "\<exists>t m k. \<exists>s \<in> set suggestions. r = enrich t m k s \<and> t \<in> {JStr ''single'', JStr ''multi''} \<and> rank \<le> k" if "r \<in> set rest" for r
    using "2.IH" [OF r] that Suc_leD by meson
  show ?case
  proof (cases "idx < 1 \<or> int (length suggestions) < idx")
    case True
    with "2.prems" r rest show ?thesis by auto
  next
    case False
    define t where "t = get_or item ''match_type'' (JStr ''single'')"
    define t' where "t' = (if t = JStr ''single'' \<or> t = JStr ''multi'' then t else JStr ''single'')"
    have "ranked = enrich t' (if t = JStr ''single'' \<or> t = JStr ''multi'' then get_or item ''max_matches'' (JInt 1) else JInt 1) rank
        (suggestions ! nat (idx - 1)) # rest"
      using "2.prems" r False by (auto simp: Let_def t'_def simp flip: t_def split: if_splits)
    moreover have "suggestions ! nat (idx - 1) \<in> set suggestions" using False by (intro nth_mem) auto
    moreover have "t' \<in> {JStr ''single'', JStr ''multi''}" by (simp add: t'_def)
    ultimately show ?thesis using rest by (metis order_refl set_ConsD)
  qed
qed simp

text \<open>Ranking invents nothing: whatever the language model answers, each ranked purpose is the purpose of one of the
suggestions, with a match type that is single or multi.\<close>

theorem ranking_invents_nothing:
  assumes "r \<in> set (rank_purposes_for_proactive answer suggestions)"
  shows "(\<exists>s \<in> set suggestions. map_of r ''purpose'' = map_of s ''purpose'') \<and> map_of r ''match_type'' \<in> {Some (JStr ''single''), Some (JStr ''multi'')}"
proof -
  have "\<exists>t m k. \<exists>s \<in> set suggestions. r = enrich t m k s \<and> t \<in> {JStr ''single'', JStr ''multi''}"
  proof (cases "\<exists>items ranked. answer = Some items \<and> rank_loop suggestions 1 items = Some ranked \<and> r \<in> set ranked")
    case True
    with rank_loop_items show ?thesis by blast
  next
    case False
    with assms have "r \<in> set (unranked suggestions)"
      by (auto simp: rank_purposes_for_proactive_def split: if_splits option.splits)
    then show ?thesis
      by (auto simp: unranked_def enumerate_eq_zip dest!: set_zip_rightD)
  qed
  then show ?thesis by (auto simp: enrich_type enrich_purpose)
qed

lemma ranking_invents_nothing_witness:
  "\<exists>r. r \<in> set (rank_purposes_for_proactive (Some [[(''index'', JInt 1), (''match_type'', JStr ''other'')]]) [[(''purpose'', JStr ''chess'')]])
     \<and> map_of r ''match_type'' \<in> {Some (JStr ''single''), Some (JStr ''multi'')}"
proof -
  have "enrich (JStr ''single'') (JInt 1) 1 [(''purpose'', JStr ''chess'')]
      \<in> set (rank_purposes_for_proactive (Some [[(''index'', JInt 1), (''match_type'', JStr ''other'')]]) [[(''purpose'', JStr ''chess'')]])"
    by (simp add: rank_purposes_for_proactive_def rank_index_def get_or_def Let_def)
  with ranking_invents_nothing show ?thesis by blast
qed

lemma mset_parts: "mset A + mset B = mset D \<Longrightarrow> mset D + mset U = mset F \<Longrightarrow> mset (map f A @ map f B @ map f U) = mset (map f F)"
  unfolding mset_append mset_map by (metis image_mset_union union_assoc)

lemma recency_keeps_facts:
  "mset (fst (sort_raw_facts_by_recency day now facts days) @ snd (sort_raw_facts_by_recency day now facts days))
    = mset (map (dated_text day) (filter (\<lambda>r. rf_text r \<noteq> []) facts))"
proof -
  let ?fs = "filter (\<lambda>r. rf_text r \<noteq> []) facts"
  let ?cut = "now - days * 86400000000"
  let ?dated = "filter (\<lambda>r. fact_date r \<noteq> None) ?fs"
  have split: "mset (filter P xs) + mset (filter (\<lambda>x. \<not> P x) xs) = mset xs" for P and xs :: "raw_fact list"
    by (induction xs) simp_all
  have "mset (filter (\<lambda>r. ?cut \<le> the (fact_date r)) (sort_key (\<lambda>r. - the (fact_date r)) ?dated))
      + mset (filter (\<lambda>r. the (fact_date r) < ?cut) (sort_key (\<lambda>r. - the (fact_date r)) ?dated)) = mset ?dated"
    using split [of "\<lambda>r. ?cut \<le> the (fact_date r)" "sort_key (\<lambda>r. - the (fact_date r)) ?dated"] by (simp add: not_le)
  moreover have "mset ?dated + mset (filter (\<lambda>r. fact_date r = None) ?fs) = mset ?fs"
    using split [of "\<lambda>r. fact_date r \<noteq> None" ?fs] by (simp del: filter_filter)
  ultimately show ?thesis
    unfolding sort_raw_facts_by_recency_def Let_def fst_conv snd_conv by (rule mset_parts)
qed

text \<open>A preview goes to an address of the user at most once: the addresses that are tried are all different, and
each is the normal form of the address asked for, of one in the profile or of a linked one.\<close>

theorem delivery_targets_are_candidates:
  "distinct (get_preview_delivery_targets preferred user linked)
    \<and> (\<forall>t \<in> set (get_preview_delivery_targets preferred user linked).
        \<exists>c \<in> set (delivery_candidates preferred user linked). normalize_delivery_handle c = Some t)"
  using targets_of_candidates [of "[]"] by (auto simp: get_preview_delivery_targets_def image_iff)

end
