(* ===== verification/Demand_History.thy ===== *)
theory Demand_History
  imports Phone_Validator
begin

text \<open>
  The histories of a user's demands and values, app/utils/demand_value_history.py: JSON arrays of
  entries that are read leniently, appended to, and edited by plans of the language model.
  \<open>pystr\<close> is \<open>str\<close> of a value that is neither text nor falsy.
\<close>

section \<open>Entries\<close>

record hist_entry =
  he_text :: string
  he_at :: "string option"

definition coerce_text :: "(json \<Rightarrow> string) \<Rightarrow> json option \<Rightarrow> string" where
  "coerce_text pystr v = py_strip (if json_truthy v then (case the v of JStr s \<Rightarrow> s | x \<Rightarrow> pystr x) else [])"

fun history_entry :: "(json \<Rightarrow> string) \<Rightarrow> json \<Rightarrow> hist_entry option" where
  "history_entry pystr (JObj d) =
     (let t = coerce_text pystr (map_of d ''text''); c = coerce_text pystr (map_of d ''created_at'')
      in if t = [] then None else Some \<lparr>he_text = t, he_at = none_if_empty c\<rparr>)"
| "history_entry pystr (JStr s) =
     (let t = coerce_text pystr (Some (JStr s)) in if t = [] then None else Some \<lparr>he_text = t, he_at = None\<rparr>)"
| "history_entry pystr _ = None"

definition normalize_history :: "(json \<Rightarrow> string) \<Rightarrow> json \<Rightarrow> hist_entry list" where
  "normalize_history pystr raw = (case raw of JList xs \<Rightarrow> List.map_filter (history_entry pystr) xs | _ \<Rightarrow> [])"

text \<open>The entries as they are stored again\<close>

definition entry_json :: "hist_entry \<Rightarrow> json" where
  "entry_json x = JObj ((''text'', JStr (he_text x)) # (case he_at x of None \<Rightarrow> [] | Some c \<Rightarrow> [(''created_at'', JStr c)]))"

definition history_json :: "hist_entry list \<Rightarrow> json" where
  "history_json xs = JList (map entry_json xs)"

definition latest_text :: "(json \<Rightarrow> string) \<Rightarrow> json \<Rightarrow> string option" where
  "latest_text pystr history =
     (let items = normalize_history pystr history in if items = [] then None else or_null (Some (he_text (last items))))"

definition all_texts :: "(json \<Rightarrow> string) \<Rightarrow> json \<Rightarrow> string list" where
  "all_texts pystr history = filter (\<lambda>t. t \<noteq> []) (map he_text (normalize_history pystr history))"

definition combine_texts :: "(json \<Rightarrow> string) \<Rightarrow> json \<Rightarrow> string \<Rightarrow> string" where
  "combine_texts pystr history separator = join_str separator (all_texts pystr history)"

definition history_text :: "(json \<Rightarrow> string) \<Rightarrow> json \<Rightarrow> string \<Rightarrow> string \<Rightarrow> string" where
  "history_text pystr history separator dflt =
     (let combined = py_strip (combine_texts pystr history separator) in if combined = [] then dflt else combined)"

definition stamped :: "string \<Rightarrow> string option \<Rightarrow> hist_entry" where
  "stamped t created = \<lparr>he_text = t, he_at = (if truthy_str created then Some (py_strip (the created)) else None)\<rparr>"

definition append_history :: "(json \<Rightarrow> string) \<Rightarrow> json \<Rightarrow> string option \<Rightarrow> string option \<Rightarrow> hist_entry list" where
  "append_history pystr history t created =
     (let items = normalize_history pystr history; cleaned = py_strip (or_str t [])
      in if cleaned = [] then items else items @ [stamped cleaned created])"

section \<open>Edits\<close>

text \<open>\<open>int\<close> raises for the superscript digits, of which \<open>isdigit\<close> is true.\<close>

fun coerce_index :: "json option \<Rightarrow> string + nat option" where
  "coerce_index (Some (JInt n)) = Inr (if 0 \<le> n then Some (nat n) else None)"
| "coerce_index (Some (JBool b)) = Inr (Some (if b then 1 else 0))"
| "coerce_index (Some (JStr s)) =
     (if all_isdigit s then (if list_all is_digit s then Inr (Some (nat_of_str s)) else Inl ''ValueError'') else Inr None)"
| "coerce_index _ = Inr None"

definition normalize_action :: "(json \<Rightarrow> string) \<Rightarrow> json option \<Rightarrow> string" where
  "normalize_action pystr v =
     (let action = py_lower (coerce_text pystr v) in if action \<in> {''apply'', ''clear'', ''none''} then action else ''apply'')"

datatype edit = ERemove nat | EReplace nat string | EAppend string

definition op_of :: "(json \<Rightarrow> string) \<Rightarrow> dict \<Rightarrow> string" where
  "op_of pystr raw =
     py_lower (coerce_text pystr (if json_truthy (map_of raw ''op'') then map_of raw ''op'' else map_of raw ''action''))"

record edit_state =
  es_items :: "hist_entry list"
  es_removed :: "nat list"
  es_applied :: "edit list"

text \<open>One edit of the first loop\<close>

fun edit_step :: "(json \<Rightarrow> string) \<Rightarrow> json \<Rightarrow> edit_state \<Rightarrow> string + edit_state" where
  "edit_step pystr (JObj raw) st =
     (let op = op_of pystr raw in
      if op = ''remove'' then (case coerce_index (map_of raw ''index'') of
          Inl e \<Rightarrow> Inl e
        | Inr None \<Rightarrow> Inr st
        | Inr (Some i) \<Rightarrow> Inr (if length (es_items st) \<le> i then st
             else st\<lparr>es_removed := i # es_removed st, es_applied := es_applied st @ [ERemove i]\<rparr>))
      else if op = ''replace'' then (case coerce_index (map_of raw ''index'') of
          Inl e \<Rightarrow> Inl e
        | Inr None \<Rightarrow> Inr st
        | Inr (Some i) \<Rightarrow> (let t = coerce_text pystr (map_of raw ''text'') in
             Inr (if length (es_items st) \<le> i \<or> t = [] \<or> i \<in> set (es_removed st) then st
               else st\<lparr>es_items := (es_items st)[i := \<lparr>he_text = t,
                          he_at = (if truthy_str (he_at (es_items st ! i)) then he_at (es_items st ! i) else None)\<rparr>],
                       es_applied := es_applied st @ [EReplace i t]\<rparr>)))
      else Inr st)"
| "edit_step pystr _ st = Inr st"

fun edit_loop :: "(json \<Rightarrow> string) \<Rightarrow> json list \<Rightarrow> edit_state \<Rightarrow> string + edit_state" where
  "edit_loop pystr [] st = Inr st"
| "edit_loop pystr (raw # raws) st = (case edit_step pystr raw st of Inl e \<Rightarrow> Inl e | Inr st' \<Rightarrow> edit_loop pystr raws st')"

text \<open>The texts of the second loop\<close>

fun appended :: "(json \<Rightarrow> string) \<Rightarrow> json \<Rightarrow> string option" where
  "appended pystr (JObj raw) =
     (if op_of pystr raw \<noteq> ''append'' then None else none_if_empty (coerce_text pystr (map_of raw ''text'')))"
| "appended pystr _ = None"

definition not_removed :: "nat list \<Rightarrow> hist_entry list \<Rightarrow> hist_entry list" where
  "not_removed removed items = map snd (filter (\<lambda>(i, x). i \<notin> set removed) (enumerate 0 items))"

definition edit_json :: "edit \<Rightarrow> json" where
  "edit_json x = (case x of
      ERemove i \<Rightarrow> JObj [(''op'', JStr ''remove''), (''index'', JInt (int i))]
    | EReplace i t \<Rightarrow> JObj [(''op'', JStr ''replace''), (''index'', JInt (int i)), (''text'', JStr t)]
    | EAppend t \<Rightarrow> JObj [(''op'', JStr ''append''), (''text'', JStr t)])"

definition plan_json :: "string \<Rightarrow> edit list \<Rightarrow> dict" where
  "plan_json action edits = [(''action'', JStr action), (''edits'', JList (map edit_json edits))]"

definition apply_value_history_edits ::
  "(json \<Rightarrow> string) \<Rightarrow> json \<Rightarrow> dict \<Rightarrow> string option \<Rightarrow> string option \<Rightarrow> string + (hist_entry list \<times> dict)" where
  "apply_value_history_edits pystr history plan fallback created =
     (let items = normalize_history pystr history;
          action = normalize_action pystr (map_of plan ''action'');
          raws = (case map_of plan ''edits'' of Some (JList xs) \<Rightarrow> xs | _ \<Rightarrow> [])
      in if action = ''clear'' then Inr ([], plan_json ''clear'' [])
         else if action = ''none'' then Inr (items, plan_json ''none'' [])
         else (case edit_loop pystr raws \<lparr>es_items = items, es_removed = [], es_applied = []\<rparr> of
             Inl e \<Rightarrow> Inl e
           | Inr st \<Rightarrow>
              (let texts = List.map_filter (appended pystr) raws;
                   applied = es_applied st @ map EAppend texts
               in if applied = [] \<and> truthy_str fallback
                  then Inr (append_history pystr (history_json items) fallback created,
                            plan_json ''append_fallback'' [EAppend (py_strip (the fallback))])
                  else Inr (not_removed (es_removed st) (es_items st) @ map (\<lambda>t. stamped t created) texts,
                            plan_json ''apply'' applied))))"

section \<open>Clean entries\<close>

definition clean :: "string \<Rightarrow> bool" where
  "clean t \<longleftrightarrow> t \<noteq> [] \<and> stripped py_space t"

definition clean_entry :: "hist_entry \<Rightarrow> bool" where
  "clean_entry x \<longleftrightarrow> clean (he_text x)"

lemma strip_clean: "py_strip t \<noteq> [] \<Longrightarrow> clean (py_strip t)"
  by (simp add: clean_def py_strip_def stripped_strip_by)

lemma clean_strip: "clean t \<Longrightarrow> py_strip t = t"
  by (simp add: clean_def py_strip_def stripped_idem)

lemma py_strip_twice [simp]: "py_strip (py_strip t) = py_strip t"
  by (simp add: py_strip_def stripped_idem stripped_strip_by)

lemma py_strip_Nil [simp]: "py_strip [] = []"
  by (simp add: py_strip_def strip_by_def lstrip_by_def)

lemma coerce_str [simp]: "coerce_text pystr (Some (JStr s)) = py_strip s"
  by (simp add: coerce_text_def)

lemma coerce_none [simp]: "coerce_text pystr None = []"
  by (simp add: coerce_text_def)

lemma coerce_clean: "coerce_text pystr v \<noteq> [] \<Longrightarrow> clean (coerce_text pystr v)"
  unfolding coerce_text_def by (rule strip_clean)

lemma coerce_strip [simp]: "py_strip (coerce_text pystr v) = coerce_text pystr v"
  by (simp add: coerce_text_def)

lemma entry_clean: "history_entry pystr j = Some x \<Longrightarrow> clean_entry x"
  by (cases "(pystr, j)" rule: history_entry.cases)
    (auto simp: Let_def clean_entry_def coerce_clean strip_clean split: if_splits)

lemma normalized_clean: "\<forall>x \<in> set (normalize_history pystr h). clean_entry x"
  by (auto simp: normalize_history_def List.map_filter_def entry_clean split: json.splits)

lemma appended_clean: "appended pystr j = Some t \<Longrightarrow> clean t"
  by (cases "(pystr, j)" rule: appended.cases) (auto simp: none_if_empty_def coerce_clean split: if_splits)

lemma step_clean:
  "edit_step pystr j st = Inr st' \<Longrightarrow> \<forall>x \<in> set (es_items st). clean_entry x \<Longrightarrow> \<forall>x \<in> set (es_items st'). clean_entry x"
  by (cases "(pystr, j, st)" rule: edit_step.cases)
    (auto simp: Let_def clean_entry_def coerce_clean split: if_splits sum.splits option.splits dest!: set_update_subset_insert [THEN subsetD])

lemma loop_clean:
  "edit_loop pystr js st = Inr st' \<Longrightarrow> \<forall>x \<in> set (es_items st). clean_entry x \<Longrightarrow> \<forall>x \<in> set (es_items st'). clean_entry x"
proof (induction js arbitrary: st)
  case (Cons j js)
  then obtain st1 where "edit_step pystr j st = Inr st1" "edit_loop pystr js st1 = Inr st'" by (auto split: sum.splits)
  with Cons.IH [of st1] step_clean [of pystr j st st1] Cons.prems(2) show ?case by blast
qed simp

lemma append_clean: "\<forall>x \<in> set (append_history pystr h t created). clean_entry x"
  using normalized_clean [of pystr h]
  by (auto simp: append_history_def Let_def stamped_def clean_entry_def strip_clean)

text \<open>A history never holds an empty entry: whatever JSON value is stored and whatever edits the language model
asks for, the texts of the edited history are neither empty nor do they begin or end with a blank.\<close>

theorem edited_history_is_clean:
  assumes "apply_value_history_edits pystr history plan fallback created = Inr (items, applied)"
  shows "\<forall>x \<in> set items. he_text x \<noteq> [] \<and> py_strip (he_text x) = he_text x"
proof -
  have "\<forall>x \<in> set items. clean_entry x"
  proof (cases "normalize_action pystr (map_of plan ''action'') \<in> {''clear'', ''none''}")
    case True
    with assms normalized_clean [of pystr history] show ?thesis by (auto simp: apply_value_history_edits_def Let_def split: if_splits)
  next
    case False
    define raws where "raws = (case map_of plan ''edits'' of Some (JList xs) \<Rightarrow> xs | _ \<Rightarrow> [])"
    obtain st where st: "edit_loop pystr raws \<lparr>es_items = normalize_history pystr history, es_removed = [], es_applied = []\<rparr> = Inr st"
      using assms False by (auto simp: apply_value_history_edits_def Let_def raws_def [symmetric] split: sum.splits)
    have "\<forall>x \<in> set (es_items st). clean_entry x"
      using loop_clean [OF st] normalized_clean [of pystr history] by simp
    moreover have "set (not_removed (es_removed st) (es_items st)) \<subseteq> set (es_items st)"
      by (auto simp: not_removed_def enumerate_eq_zip dest: set_zip_rightD)
    moreover have "clean_entry (stamped t created)" if "t \<in> set (List.map_filter (appended pystr) raws)" for t
      using that by (auto simp: stamped_def clean_entry_def List.map_filter_def appended_clean)
    moreover have "items = append_history pystr (history_json (normalize_history pystr history)) fallback created
        \<or> items = not_removed (es_removed st) (es_items st) @ map (\<lambda>t. stamped t created) (List.map_filter (appended pystr) raws)"
      using assms False st by (auto simp: apply_value_history_edits_def Let_def raws_def [symmetric] split: if_splits)
    ultimately show ?thesis using append_clean by (elim disjE) (simp, fastforce)
  qed
  then show ?thesis by (auto simp: clean_entry_def clean_strip) (auto simp: clean_def)
qed

section \<open>The reported plan\<close>

lemma op_literals:
  "py_lower (py_strip ''remove'') = ''remove''" "py_lower (py_strip ''replace'') = ''replace''" "py_lower (py_strip ''append'') = ''append''"
  "py_lower (py_strip ''apply'') = ''apply''" "py_lower (py_strip ''clear'') = ''clear''" "py_lower (py_strip ''none'') = ''none''"
  "py_lower (py_strip ''append_fallback'') = ''append_fallback''"
  by code_simp+

lemma action_literals:
  "normalize_action pystr (Some (JStr ''apply'')) = ''apply''" "normalize_action pystr (Some (JStr ''append_fallback'')) = ''apply''"
  "normalize_action pystr (Some (JStr ''clear'')) = ''clear''" "normalize_action pystr (Some (JStr ''none'')) = ''none''"
  by (simp_all add: normalize_action_def Let_def op_literals)

lemma op_of_edit [simp]:
  "op_of pystr [(''op'', JStr ''remove''), (''index'', JInt i)] = ''remove''"
  "op_of pystr [(''op'', JStr ''replace''), (''index'', JInt i), (''text'', JStr t)] = ''replace''"
  "op_of pystr [(''op'', JStr ''append''), (''text'', JStr t)] = ''append''"
  by (simp_all add: op_of_def op_literals)

text \<open>The recorded edits do again what the loop did.\<close>

lemma step_again:
  assumes "edit_step pystr j st = Inr st'"
  shows "\<exists>new. es_applied st' = es_applied st @ new \<and> (\<forall>x \<in> set new. \<forall>t. x \<noteq> EAppend t)
    \<and> (\<forall>done. edit_loop pystr (map edit_json new) (st\<lparr>es_applied := done\<rparr>) = Inr (st'\<lparr>es_applied := done @ new\<rparr>))"
proof (cases "\<exists>raw. j = JObj raw \<and> (op_of pystr raw = ''remove'' \<or> op_of pystr raw = ''replace'')")
  case False
  with assms have "st' = st" by (cases j) (auto simp: Let_def)
  then show ?thesis by (intro exI [of _ "[]"]) simp
next
  case True
  then obtain raw where j: "j = JObj raw" and op: "op_of pystr raw = ''remove'' \<or> op_of pystr raw = ''replace''" by blast
  obtain oi where oi: "coerce_index (map_of raw ''index'') = Inr oi"
    using assms op by (auto simp: j Let_def split: sum.splits)
  define t where "t = coerce_text pystr (map_of raw ''text'')"
  have t: "py_strip t = t" by (simp add: t_def)
  show ?thesis
  proof (cases oi)
    case None
    with assms op oi have "st' = st" by (auto simp: j Let_def)
    then show ?thesis by (intro exI [of _ "[]"]) simp
  next
    case (Some i)
    show ?thesis
    proof (cases "length (es_items st) \<le> i \<or> op_of pystr raw = ''replace'' \<and> (t = [] \<or> i \<in> set (es_removed st))")
      case True
      with assms op oi Some have "st' = st" by (auto simp: j Let_def t_def split: if_splits)
      then show ?thesis by (intro exI [of _ "[]"]) simp
    next
      case False
      show ?thesis
      proof (cases "op_of pystr raw = ''remove''")
        case True
        with assms oi Some False have "st' = st\<lparr>es_removed := i # es_removed st, es_applied := es_applied st @ [ERemove i]\<rparr>"
          by (simp add: j Let_def)
        with False show ?thesis by (intro exI [of _ "[ERemove i]"]) (simp add: edit_json_def)
      next
        case rep: False
        with op have "op_of pystr raw = ''replace''" by blast
        with assms oi Some False have "st' = st\<lparr>es_items := (es_items st)[i := \<lparr>he_text = t,
              he_at = (if truthy_str (he_at (es_items st ! i)) then he_at (es_items st ! i) else None)\<rparr>],
            es_applied := es_applied st @ [EReplace i t]\<rparr>"
          by (simp add: j Let_def t_def)
        with False \<open>op_of pystr raw = ''replace''\<close> show ?thesis
          by (intro exI [of _ "[EReplace i t]"]) (simp add: edit_json_def t)
      qed
    qed
  qed
qed

lemma edit_loop_append: "edit_loop pystr (xs @ ys) st = (case edit_loop pystr xs st of Inl e \<Rightarrow> Inl e | Inr st' \<Rightarrow> edit_loop pystr ys st')"
  by (induction xs arbitrary: st) (auto split: sum.splits)

lemma loop_again:
  assumes "edit_loop pystr js st = Inr st'"
  shows "\<exists>new. es_applied st' = es_applied st @ new \<and> (\<forall>x \<in> set new. \<forall>t. x \<noteq> EAppend t)
    \<and> (\<forall>done. edit_loop pystr (map edit_json new) (st\<lparr>es_applied := done\<rparr>) = Inr (st'\<lparr>es_applied := done @ new\<rparr>))"
  using assms
proof (induction js arbitrary: st)
  case Nil
  then show ?case by (intro exI [of _ "[]"]) simp
next
  case (Cons j js)
  then obtain st1 where s: "edit_step pystr j st = Inr st1" and l: "edit_loop pystr js st1 = Inr st'" by (auto split: sum.splits)
  from step_again [OF s] obtain n1 where n1: "es_applied st1 = es_applied st @ n1" "\<forall>x \<in> set n1. \<forall>t. x \<noteq> EAppend t"
    "\<forall>done. edit_loop pystr (map edit_json n1) (st\<lparr>es_applied := done\<rparr>) = Inr (st1\<lparr>es_applied := done @ n1\<rparr>)" by blast
  from Cons.IH [OF l] obtain n2 where n2: "es_applied st' = es_applied st1 @ n2" "\<forall>x \<in> set n2. \<forall>t. x \<noteq> EAppend t"
    "\<forall>done. edit_loop pystr (map edit_json n2) (st1\<lparr>es_applied := done\<rparr>) = Inr (st'\<lparr>es_applied := done @ n2\<rparr>)" by blast
  from n1 n2 show ?case by (intro exI [of _ "n1 @ n2"]) (auto simp: edit_loop_append)
qed

lemma loop_appends: "edit_loop pystr (map (\<lambda>t. edit_json (EAppend t)) ts) st = Inr st"
  by (induction ts) (simp_all add: edit_json_def)

lemma appended_edit: "appended pystr (edit_json x) = (case x of EAppend t \<Rightarrow> none_if_empty (py_strip t) | _ \<Rightarrow> None)"
  by (cases x) (simp_all add: edit_json_def)

lemma map_filter_none: "\<forall>x \<in> set xs. f x = None \<Longrightarrow> List.map_filter f xs = []"
  by (induction xs) (simp_all add: List.map_filter_simps)

lemma map_filter_append: "List.map_filter f (xs @ ys) = List.map_filter f xs @ List.map_filter f ys"
  by (simp add: List.map_filter_def)

lemma appended_again: "\<forall>t \<in> set ts. clean t \<Longrightarrow> List.map_filter (appended pystr) (map (\<lambda>t. edit_json (EAppend t)) ts) = ts"
  by (induction ts) (auto simp: List.map_filter_simps appended_edit none_if_empty_def clean_strip clean_def)

lemma normalize_again: "\<forall>x \<in> set xs. clean_entry x \<and> (\<forall>c. he_at x = Some c \<longrightarrow> clean c) \<Longrightarrow> normalize_history pystr (history_json xs) = xs"
proof -
  have e: "history_entry pystr (entry_json x) = Some x" if "clean_entry x" "\<forall>c. he_at x = Some c \<longrightarrow> clean c" for x
    using that clean_strip [of "he_text x"] by (cases x; cases "he_at x")
      (auto simp: entry_json_def Let_def none_if_empty_def clean_strip clean_entry_def, auto simp: clean_def)
  show "\<forall>x \<in> set xs. clean_entry x \<and> (\<forall>c. he_at x = Some c \<longrightarrow> clean c) \<Longrightarrow> normalize_history pystr (history_json xs) = xs"
    by (induction xs) (auto simp: normalize_history_def history_json_def List.map_filter_simps e)
qed

lemma normalized_stamps: "\<forall>x \<in> set (normalize_history pystr h). clean_entry x \<and> (\<forall>c. he_at x = Some c \<longrightarrow> clean c)"
proof -
  have "history_entry pystr j = Some x \<Longrightarrow> he_at x = Some c \<Longrightarrow> clean c" for j x c
    by (cases "(pystr, j)" rule: history_entry.cases) (auto simp: Let_def none_if_empty_def coerce_clean split: if_splits)
  then show ?thesis using entry_clean by (auto simp: normalize_history_def List.map_filter_def split: json.splits)
qed

text \<open>Reading a history that was read and stored again changes nothing.\<close>

lemma normalize_is_idempotent:
  "normalize_history pystr (history_json (normalize_history pystr h)) = normalize_history pystr h"
  by (rule normalize_again [OF normalized_stamps])

text \<open>The plan that is reported is the plan that was carried out: applying it to the same history gives the same
entries again, also when some edits of the original plan were refused and when the fallback was used.\<close>

theorem reported_plan_repeats:
  assumes "apply_value_history_edits pystr history plan fallback created = Inr (items, applied)"
  shows "\<exists>applied'. apply_value_history_edits pystr history applied fallback created = Inr (items, applied')"
proof -
  have act: "map_of (plan_json a xs) ''action'' = Some (JStr a)" for a xs by (simp add: plan_json_def)
  note act = act action_literals
  have edits: "(case map_of (plan_json a xs) ''edits'' of Some (JList ys) \<Rightarrow> ys | _ \<Rightarrow> []) = map edit_json xs" for a xs
    by (simp add: plan_json_def)
  define raws where "raws = (case map_of plan ''edits'' of Some (JList xs) \<Rightarrow> xs | _ \<Rightarrow> [])"
  define st0 where "st0 = \<lparr>es_items = normalize_history pystr history, es_removed = [], es_applied = []\<rparr>"
  show ?thesis
  proof (cases "normalize_action pystr (map_of plan ''action'') \<in> {''clear'', ''none''}")
    case True
    with assms show ?thesis by (auto simp: apply_value_history_edits_def Let_def act split: if_splits)
  next
    case False
    obtain st where st: "edit_loop pystr raws st0 = Inr st"
      using assms False by (auto simp: apply_value_history_edits_def Let_def raws_def [symmetric] st0_def [symmetric] split: sum.splits)
    from loop_again [OF st] obtain new where new: "es_applied st = new" "\<forall>x \<in> set new. \<forall>t. x \<noteq> EAppend t"
      "\<forall>done. edit_loop pystr (map edit_json new) (st0\<lparr>es_applied := done\<rparr>) = Inr (st\<lparr>es_applied := done @ new\<rparr>)"
      by (auto simp: st0_def)
    define ts where "ts = List.map_filter (appended pystr) raws"
    have ts: "\<forall>t \<in> set ts. clean t" by (auto simp: ts_def List.map_filter_def appended_clean)
    have again: "edit_loop pystr (map edit_json (new @ map EAppend us)) st0 = Inr st" for us
      using new(3) [rule_format, of "[]"] loop_appends [of pystr us] new(1) by (simp add: edit_loop_append st0_def comp_def)
    have none: "List.map_filter (appended pystr) (map edit_json new) = []"
      using new(2) by (intro map_filter_none) (auto simp: appended_edit split: edit.splits)
    show ?thesis
    proof (cases "new @ map EAppend ts = [] \<and> truthy_str fallback")
      case True
      let ?t = "py_strip (the fallback)"
      have r: "items = append_history pystr (history_json (normalize_history pystr history)) fallback created"
        and a: "applied = plan_json ''append_fallback'' [EAppend ?t]"
        using assms False st True new(1) by (auto simp: apply_value_history_edits_def Let_def raws_def [symmetric] st0_def [symmetric] ts_def [symmetric])
      have l: "edit_loop pystr [edit_json (EAppend ?t)] st0 = Inr st" using again [of "[?t]"] True by simp
      have st0: "st = st0" using again [of "[]"] True by simp
      have empty: "es_applied st0 = []" "not_removed (es_removed st0) (es_items st0) = normalize_history pystr history"
        by (simp_all add: st0_def not_removed_def enumerate_eq_zip)
      have app: "append_history pystr (history_json (normalize_history pystr history)) fallback created
          = normalize_history pystr history @ map (\<lambda>t. stamped t created) (if ?t = [] then [] else [?t])"
        using True by (cases fallback) (simp_all add: append_history_def Let_def normalize_is_idempotent or_str_def)
      have "apply_value_history_edits pystr history applied fallback created =
          (if ?t = [] then Inr (append_history pystr (history_json (normalize_history pystr history)) fallback created, applied)
           else Inr (normalize_history pystr history @ [stamped ?t created], plan_json ''apply'' [EAppend ?t]))"
        using l True st0 by (simp add: apply_value_history_edits_def Let_def a act edits st0_def [symmetric] List.map_filter_simps appended_edit none_if_empty_def empty)
      then show ?thesis by (simp add: r app)
    next
      case False2: False
      have r: "items = not_removed (es_removed st) (es_items st) @ map (\<lambda>t. stamped t created) ts"
        and a: "applied = plan_json ''apply'' (new @ map EAppend ts)"
        using assms False st False2 new(1) by (auto simp: apply_value_history_edits_def Let_def raws_def [symmetric] st0_def [symmetric] ts_def [symmetric])
      have m: "List.map_filter (appended pystr) (map edit_json (new @ map EAppend ts)) = ts"
        using none appended_again [OF ts] by (simp add: map_filter_append comp_def)
      show ?thesis
        using again [of ts] False2 new(1) m by (auto simp: apply_value_history_edits_def Let_def a act edits st0_def [symmetric] r)
    qed
  qed
qed


section \<open>Examples\<close>

definition example_history :: json where
  "example_history = JList [JStr '' a '', JStr [], JObj [(''text'', JStr ''b''), (''created_at'', JStr ''1'')]]"

definition example_plan :: dict where
  "example_plan = [(''action'', JStr ''apply''), (''edits'', JList [JObj [(''op'', JStr ''remove''), (''index'', JInt 0)],
     JObj [(''op'', JStr ''remove''), (''index'', JInt 7)], JObj [(''op'', JStr ''append''), (''text'', JStr '' c '')]])]"

lemma example_edited: "\<exists>applied. apply_value_history_edits (\<lambda>_. []) example_history example_plan None None
    = Inr ([\<lparr>he_text = ''b'', he_at = Some ''1''\<rparr>, \<lparr>he_text = ''c'', he_at = None\<rparr>], applied)"
proof -
  have "map_sum id fst (apply_value_history_edits (\<lambda>_. []) example_history example_plan None None)
      = Inr [\<lparr>he_text = ''b'', he_at = Some ''1''\<rparr>, \<lparr>he_text = ''c'', he_at = None\<rparr>]" by code_simp
  then show ?thesis by (cases "apply_value_history_edits (\<lambda>_. []) example_history example_plan None None") auto
qed

lemma edited_history_is_clean_witness:
  "\<exists>items applied. apply_value_history_edits (\<lambda>_. []) example_history example_plan None None = Inr (items, applied)
    \<and> length items = 2 \<and> (\<forall>x \<in> set items. he_text x \<noteq> [] \<and> py_strip (he_text x) = he_text x)"
proof -
  obtain applied where a: "apply_value_history_edits (\<lambda>_. []) example_history example_plan None None
    = Inr ([\<lparr>he_text = ''b'', he_at = Some ''1''\<rparr>, \<lparr>he_text = ''c'', he_at = None\<rparr>], applied)" using example_edited ..
  show ?thesis using edited_history_is_clean [OF a] a by auto
qed

lemma reported_plan_repeats_witness:
  "\<exists>applied applied'. apply_value_history_edits (\<lambda>_. []) example_history applied None None
    = Inr ([\<lparr>he_text = ''b'', he_at = Some ''1''\<rparr>, \<lparr>he_text = ''c'', he_at = None\<rparr>], applied')"
  using example_edited reported_plan_repeats by blast

end
