(* ===== verification/Networking_Tools.thy ===== *)
theory Networking_Tools
  imports Handshake Tool_Inputs Demand_History
begin

text \<open>
  The networking tools that the agents call, app/agents/tools/networking.py, over the handshake of
  Handshake. The services a tool calls are the record \<open>services\<close>; each is a call that may raise and
  may change the database. The answers of the language model and the matcher are services too. A tool
  never raises: it answers the text of an error (\<open>Inl\<close>) or the data of a success (\<open>Inr\<close>).
\<close>

section \<open>Services and results\<close>

record tuser =
  tu_id :: string
  tu_name :: "string option"
  tu_phone :: "string option"
  tu_email :: "string option"
  tu_university :: "string option"
  tu_major :: "string option"
  tu_interests :: "string list"
  tu_facts :: dict
  tu_located :: bool
  tu_metadata :: "dict option"

record found =
  fd_success :: bool
  fd_error :: "string option"
  fd_target :: string
  fd_name :: string
  fd_phone :: "string option"
  fd_score :: int
  fd_reasons :: "string list"
  fd_introduction :: "string option"
  fd_concern :: "string option"
  fd_details :: dict

text \<open>What the background task for a preview gets: the user, an address, the matches, the request.\<close>

record preview_task =
  pv_user :: string
  pv_name :: "string option"
  pv_phone :: "string option"
  pv_match :: dict
  pv_request :: "string option"

record 'db services =
  sv_reqs :: "('db, conn_req) table_api"
  sv_states :: "('db, state_row) table_api"
  sv_text :: "conn_error \<Rightarrow> string"
  sv_user :: "string \<Rightarrow> ('db, conn_error, tuser option) io"
  sv_send :: "string \<Rightarrow> string \<Rightarrow> bool \<Rightarrow> ('db, conn_error, unit) io" \<comment> \<open>\<open>send_message\<close>, with \<open>rich_link\<close>\<close>
  sv_attach :: "string \<Rightarrow> ('db, conn_error, unit) io"
  sv_store :: "string \<Rightarrow> string \<Rightarrow> dict \<Rightarrow> ('db, conn_error, unit) io" \<comment> \<open>\<open>store_message\<close> of a bot\<close>
  sv_invitation :: "string \<Rightarrow> string option \<Rightarrow> string list \<Rightarrow> ('db, conn_error, string option) io"
  sv_conversation :: "string \<Rightarrow> ('db, conn_error, dict option) io"
  sv_preview :: "preview_task \<Rightarrow> ('db, conn_error, string option) io" \<comment> \<open>the URL of a new preview\<close>
  sv_preview_base :: "string option" \<comment> \<open>None when previews are not enabled\<close>
  sv_linked :: "string \<Rightarrow> ('db, conn_error, string list) io"
  sv_members :: "string \<Rightarrow> ('db, conn_error, string list) io" \<comment> \<open>the users of \<open>get_group_chat_participants\<close>\<close>
  sv_shared :: "string \<Rightarrow> string \<Rightarrow> ('db, conn_error, string option) io" \<comment> \<open>\<open>get_group_chat_for_users\<close>\<close>
  sv_join :: "string \<Rightarrow> string \<Rightarrow> string \<Rightarrow> string option \<Rightarrow> conn_req \<Rightarrow> string list \<Rightarrow> ('db, conn_error, unit) io"
  sv_late :: "string \<Rightarrow> string \<Rightarrow> user_row \<Rightarrow> string option list \<Rightarrow> conn_req \<Rightarrow> ('db, conn_error, unit) io"
  sv_multi :: "participant list \<Rightarrow> string list \<Rightarrow> string option \<Rightarrow> ('db, conn_error, string) io"
  sv_create :: "tuser \<Rightarrow> tuser \<Rightarrow> string option \<Rightarrow> conn_req \<Rightarrow> ('db, conn_error, string) io"
  sv_profile :: "string \<Rightarrow> dict \<Rightarrow> ('db, conn_error, unit) io" \<comment> \<open>\<open>update_user_profile\<close>\<close>
  sv_image :: bool \<comment> \<open>the image with the instructions is there\<close>
  sv_demands :: "string \<Rightarrow> ('db, conn_error, json option) io" \<comment> \<open>the \<open>demand_history\<close> of a user\<close>
  sv_derive :: "string \<Rightarrow> hist_entry list \<Rightarrow> ('db, conn_error, unit) io" \<comment> \<open>\<open>update_demand_value_derived_fields\<close>\<close>
  sv_interpret :: "string \<Rightarrow> string option"
  sv_match :: "string \<Rightarrow> string list \<Rightarrow> string option \<Rightarrow> ('db, conn_error, found) io"
  sv_matches :: "string \<Rightarrow> string list \<Rightarrow> string \<Rightarrow> int \<Rightarrow> ('db, conn_error, found list) io"
  sv_distance :: "string \<Rightarrow> ('db, conn_error, string option) io"
  sv_clarity :: "string \<Rightarrow> ('db, conn_error, dict) io" \<comment> \<open>the parsed answer on the clarity of a request\<close>
  sv_str :: "json \<Rightarrow> string" \<comment> \<open>\<open>str\<close>\<close>
  sv_iso :: "int \<Rightarrow> string" \<comment> \<open>the ISO text of an instant\<close>

type_synonym ('db, 'a) tool = "('db mgr, string, 'a) io"

text \<open>\<open>try: ... except Exception as e: return ToolResult(success=False, error=f"...{e}")\<close>\<close>

definition tool_try :: "'db services \<Rightarrow> string \<Rightarrow> ('db mgr, conn_error, string + 'a) io \<Rightarrow> ('db, 'a) tool" where
  "tool_try S what m = (\<lambda>s. case m s of (Inl e, s') \<Rightarrow> (Inl (what @ sv_text S e), s') | (Inr r, s') \<Rightarrow> (r, s'))"

definition answer :: "'a \<Rightarrow> ('s, conn_error, string + 'a) io" where
  "answer x = io_return (Inr x)"

definition refuse :: "string \<Rightarrow> ('s, conn_error, string + 'a) io" where
  "refuse e = io_return (Inl e)"

text \<open>\<open>except Exception: pass\<close>\<close>

definition quietly :: "('s, 'e, unit) io \<Rightarrow> ('s, 'f, unit) io" where
  "quietly m = io_catch m (\<lambda>_. io_return ())"

fun status_value :: "conn_status \<Rightarrow> string" where
  "status_value CPendingInitiatorApproval = ''pending_initiator_approval''"
| "status_value CPendingTargetApproval = ''pending_target_approval''"
| "status_value CTargetAccepted = ''target_accepted''"
| "status_value CTargetDeclined = ''target_declined''"
| "status_value CGroupCreated = ''group_created''"
| "status_value CCancelled = ''cancelled''"
| "status_value CExpired = ''expired''"

definition json_time :: "int option \<Rightarrow> json" where
  "json_time t = (case t of None \<Rightarrow> JNull | Some x \<Rightarrow> JTime x)"

definition named :: "tuser option \<Rightarrow> string \<Rightarrow> json" where
  "named u dflt = (case u of None \<Rightarrow> JStr dflt | Some x \<Rightarrow> json_opt_str (tu_name x))"

section \<open>Single steps of the handshake\<close>

definition find_request :: "'db services \<Rightarrow> string \<Rightarrow> ('db mgr, conn_error, conn_req option) io" where
  "find_request S rid = on_db (get_connection_request (sv_reqs S) rid)"

definition tool_create_connection_request :: "'db services \<Rightarrow> int \<Rightarrow> string \<Rightarrow> match_result \<Rightarrow> string list option \<Rightarrow> ('db, dict) tool" where
  "tool_create_connection_request S now initiator m excluded =
     (if \<not> valid_uuid initiator then io_raise (''Invalid initiator_id format: '' @ initiator)
      else if \<not> valid_uuid (mr_target_user_id m) then io_raise (''Invalid target_user_id format: '' @ mr_target_user_id m)
      else tool_try S ''Failed to create connection request: ''
        (io_bind (create_request (sv_reqs S) (sv_states S) now initiator m excluded None False 1 None None) (\<lambda>r.
           answer [(''connection_request_id'', JStr (cr_id r)), (''status'', JStr (status_value (cr_status r)))])))"

text \<open>The id to look for: with a profile the checked id, otherwise any UUID\<close>

definition searched_id :: "string \<Rightarrow> dict option \<Rightarrow> string + string" where
  "searched_id uid profile =
     (case profile of
        Some p \<Rightarrow> if p = [] then (if valid_uuid uid then Inr uid
            else Inl (''Invalid user_id format: '' @ uid @ ''. Please use the user_id from user_profile.''))
          else validate_and_repair_user_id uid p
      | None \<Rightarrow> if valid_uuid uid then Inr uid
          else Inl (''Invalid user_id format: '' @ uid @ ''. Please use the user_id from user_profile.''))"

definition get_pending_connection_request :: "'db services \<Rightarrow> int \<Rightarrow> string \<Rightarrow> bool \<Rightarrow> dict option \<Rightarrow> ('db, conn_req option) tool" where
  "get_pending_connection_request S now uid as_initiator profile =
     (case searched_id uid profile of
        Inl e \<Rightarrow> io_raise e
      | Inr used \<Rightarrow> tool_try S ''Failed to get pending request: ''
          (io_bind (if as_initiator then get_pending_for_initiator (sv_reqs S) now used else get_pending_for_target (sv_reqs S) now used) answer))"

definition confirm_connection_request :: "'db services \<Rightarrow> int \<Rightarrow> string \<Rightarrow> ('db, dict) tool" where
  "confirm_connection_request S now rid =
     tool_try S ''Failed to confirm request: ''
       (io_bind (initiator_confirms (sv_reqs S) (sv_states S) now rid) (\<lambda>r.
          answer [(''request_id'', JStr rid), (''status'', JStr (status_value (cr_status r))),
            (''target_notified_at'', json_time (cr_target_notified_at r))]))"

definition request_different_match :: "'db services \<Rightarrow> int \<Rightarrow> string \<Rightarrow> string \<Rightarrow> ('db, dict) tool" where
  "request_different_match S now rid current_target =
     (case validate_request_id rid of
        Some e \<Rightarrow> io_raise e
      | None \<Rightarrow>
          if \<not> valid_uuid current_target
          then io_raise (''current_target_id must be a UUID, not a name. Received: '' @ [CHR 0x27] @ current_target @ [CHR 0x27]
                 @ ''. Use the target_user_id from the connection request data.'')
          else tool_try S ''Failed to request different match: ''
            (io_bind (find_request S rid) (\<lambda>found.
               case found of
                 Some r \<Rightarrow>
                   if cr_status r \<in> {CCancelled, CTargetDeclined, CExpired}
                   then answer [(''request_id'', JStr rid), (''status'', JStr (status_value (cr_status r))),
                          (''already_cancelled'', JBool True), (''excluded_target'', JStr current_target)]
                   else io_bind (initiator_requests_different (sv_reqs S) now rid current_target) (\<lambda>_.
                          answer [(''request_id'', JStr rid), (''status'', JStr ''cancelled''), (''excluded_target'', JStr current_target)])
               | None \<Rightarrow>
                   io_bind (initiator_requests_different (sv_reqs S) now rid current_target) (\<lambda>_.
                          answer [(''request_id'', JStr rid), (''status'', JStr ''cancelled''), (''excluded_target'', JStr current_target)]))))"

definition cancel_connection_request :: "'db services \<Rightarrow> int \<Rightarrow> string \<Rightarrow> ('db, dict) tool" where
  "cancel_connection_request S now rid =
     tool_try S ''Failed to cancel request: ''
       (io_bind (initiator_cancels (sv_reqs S) (sv_states S) now rid) (\<lambda>_.
          answer [(''request_id'', JStr rid), (''status'', JStr ''cancelled'')]))"

text \<open>The name of the initiator for the answer: ''someone'' without a user\<close>

definition initiator_name_of :: "'db services \<Rightarrow> conn_req \<Rightarrow> ('db mgr, conn_error, json) io" where
  "initiator_name_of S r =
     (if cr_initiator r = [] then io_return (JStr ''someone'')
      else io_bind (on_db (sv_user S (cr_initiator r))) (\<lambda>u. io_return (named u ''someone'')))"

definition already_answered :: "'db services \<Rightarrow> string \<Rightarrow> conn_req \<Rightarrow> ('db mgr, conn_error, string + dict) io" where
  "already_answered S rid r =
     io_bind (initiator_name_of S r) (\<lambda>n.
       answer [(''request_id'', JStr rid), (''status'', JStr (status_value (cr_status r))), (''accepted'', JBool True),
         (''already_accepted'', JBool True), (''ready_for_group'', JBool (cr_status r = CTargetAccepted)),
         (''group_already_created'', JBool (cr_status r = CGroupCreated)), (''initiator_name'', n), (''action_type'', JStr ''target_accepted'')])"

definition multi_json :: "multi_status \<Rightarrow> json" where
  "multi_json m = (if \<not> ms_is_multi m then JObj [(''is_multi_match'', JBool False), (''ready_for_group'', JBool True)]
     else JObj [(''is_multi_match'', JBool True), (''signal_group_id'', json_opt_str (ms_signal_group m)),
       (''ready_for_group'', JBool (ms_ready m)), (''accepted_count'', JInt (int (ms_accepted_count m))),
       (''threshold'', JInt (ms_threshold m)), (''existing_chat_guid'', json_opt_str (ms_existing_chat m)),
       (''accepted_request_ids'', JList (map JStr (ms_accepted_ids m)))])"

definition target_responds :: "'db services \<Rightarrow> int \<Rightarrow> string \<Rightarrow> bool \<Rightarrow> string option \<Rightarrow> ('db, dict) tool" where
  "target_responds S now rid accept reason =
     (case validate_request_id rid of
        Some e \<Rightarrow> io_raise e
      | None \<Rightarrow> tool_try S ''Failed to process response: ''
          (io_bind (find_request S rid) (\<lambda>found.
             if (case found of Some r \<Rightarrow> cr_status r \<in> {CTargetAccepted, CGroupCreated} | None \<Rightarrow> False)
             then already_answered S rid (the found)
             else if (case found of Some r \<Rightarrow> cr_status r = CTargetDeclined | None \<Rightarrow> False)
             then answer [(''request_id'', JStr rid), (''status'', JStr ''target_declined''), (''accepted'', JBool False),
                    (''already_declined'', JBool True)]
             else if accept
             then io_bind (target_accepts_multi_match (sv_reqs S) now rid) (\<lambda>(r, multi).
                    io_bind (initiator_name_of S r) (\<lambda>n.
                      answer [(''request_id'', JStr rid), (''status'', JStr (status_value (cr_status r))), (''accepted'', JBool True),
                        (''is_multi_match'', JBool (ms_is_multi multi)), (''multi_match_status'', multi_json multi),
                        (''ready_for_group'', JBool (ms_ready multi)), (''initiator_name'', n), (''action_type'', JStr ''target_accepted'')]))
             else io_bind (target_declines (sv_reqs S) (sv_states S) now rid reason) (\<lambda>r.
                    answer [(''request_id'', JStr rid), (''status'', JStr (status_value (cr_status r))), (''accepted'', JBool False)]))))"

section \<open>Previews\<close>

definition conversation_url_from_row :: "dict option \<Rightarrow> string \<Rightarrow> string option" where
  "conversation_url_from_row row base =
     (case row of None \<Rightarrow> None
      | Some d \<Rightarrow> let slug = py_strip (or_str (get_str d ''slug'') []) in
          if d = [] \<or> slug = [] then None else Some (base @ ''/c/'' @ slug))"

fun first_conversation :: "'db services \<Rightarrow> string \<Rightarrow> string \<Rightarrow> string list \<Rightarrow> ('db mgr, conn_error, string option) io" where
  "first_conversation S base rid [] = io_return None"
| "first_conversation S base rid (sibling # rest) =
     (if sibling = rid \<or> sibling = [] then first_conversation S base rid rest
      else io_bind (on_db (sv_conversation S sibling)) (\<lambda>row. case conversation_url_from_row row base of
             Some url \<Rightarrow> io_return (Some url) | None \<Rightarrow> first_conversation S base rid rest))"

definition siblings_of :: "'db services \<Rightarrow> string \<Rightarrow> ('db mgr, string, conn_req list) io" where
  "siblings_of S grp = io_bind (on_db (tb_select (sv_reqs S) (\<lambda>r. cr_signal_group r = Some grp))) (\<lambda>rs. io_return (sort_key cr_created_at rs))"

definition lookup_preview_url_for_request :: "'db services \<Rightarrow> string \<Rightarrow> string option \<Rightarrow> string \<Rightarrow> ('db mgr, conn_error, string option) io" where
  "lookup_preview_url_for_request S rid grp base =
     io_bind (on_db (sv_conversation S rid)) (\<lambda>row. case conversation_url_from_row row base of
        Some url \<Rightarrow> io_return (Some url)
      | None \<Rightarrow>
          if \<not> truthy_str grp then io_return None
          else io_bind (io_catch (siblings_of S (the grp)) (\<lambda>_. io_return [])) (\<lambda>rs.
                 first_conversation S base rid (map cr_id rs)))"

text \<open>The other members of the group, each once\<close>

fun additional_matches :: "'db services \<Rightarrow> string list \<Rightarrow> conn_req list \<Rightarrow> ('db mgr, conn_error, json list) io" where
  "additional_matches S seen [] = io_return []"
| "additional_matches S seen (r # rs) =
     (if cr_target r = [] \<or> cr_target r \<in> set seen then additional_matches S seen rs
      else io_bind (on_db (sv_user S (cr_target r))) (\<lambda>u.
           io_bind (additional_matches S (cr_target r # seen) rs) (\<lambda>rest.
             io_return (JObj [(''target_user_id'', JStr (cr_target r)), (''target_name'', named u ''there''),
                (''matching_reasons'', json_strs (cr_reasons r))] # rest))))"

definition create_preview_for_invite :: "'db services \<Rightarrow> conn_req \<Rightarrow> string \<Rightarrow> string \<Rightarrow> tuser \<Rightarrow> ('db mgr, conn_error, string option) io" where
  "create_preview_for_invite S r rid initiator_name target =
     (if cr_initiator r = [] \<or> cr_target r = [] then io_return None
      else io_bind (on_db (sv_user S (cr_initiator r))) (\<lambda>iu. case iu of
          None \<Rightarrow> io_return None
        | Some initiator \<Rightarrow>
            io_bind (if truthy_str (cr_signal_group r)
                then io_bind (io_catch (siblings_of S (the (cr_signal_group r))) (\<lambda>_. io_return [])) (additional_matches S [cr_target r])
                else io_return []) (\<lambda>others.
            io_bind (on_db (sv_preview S \<lparr>pv_user = cr_initiator r,
                pv_name = Some (if initiator_name \<noteq> [] then initiator_name
                   else or_str (tu_name initiator) (''User '' @ take 8 (cr_initiator r))), pv_phone = None,
                pv_match = [(''target_user_id'', JStr (cr_target r)), (''target_name'', named (Some target) ''there''),
                     (''matching_reasons'', json_strs (cr_reasons r)), (''connection_purpose'', JStr (or_str (cr_purpose r) []))]
                   @ (if others = [] then [] else [(''all_matches'', JList others)]),
                pv_request = Some rid\<rparr>)) (\<lambda>url. io_return (or_null url)))))"

text \<open>The lookup and up to three more of them, a second apart\<close>

fun lookup_again :: "'db services \<Rightarrow> nat \<Rightarrow> string \<Rightarrow> string option \<Rightarrow> string \<Rightarrow> ('db mgr, conn_error, string option) io" where
  "lookup_again S 0 rid grp base = io_return None"
| "lookup_again S (Suc n) rid grp base =
     io_bind (lookup_preview_url_for_request S rid grp base) (\<lambda>url. case url of
        Some u \<Rightarrow> io_return (Some u) | None \<Rightarrow> lookup_again S n rid grp base)"

definition get_or_create_preview_url_for_target_invite ::
  "'db services \<Rightarrow> conn_req \<Rightarrow> string \<Rightarrow> string \<Rightarrow> tuser \<Rightarrow> ('db mgr, conn_error, string option) io" where
  "get_or_create_preview_url_for_target_invite S r rid initiator_name target =
     (case sv_preview_base S of
        None \<Rightarrow> io_return None
      | Some b \<Rightarrow>
          (let base = rstrip_by (\<lambda>c. c = CHR ''/'') b in
           io_bind (lookup_again S 4 rid (cr_signal_group r) base) (\<lambda>url. case url of
              Some u \<Rightarrow> io_return (Some u)
            | None \<Rightarrow> io_catch (create_preview_for_invite S r rid initiator_name target) (\<lambda>_. io_return None))))"

text \<open>The addresses in turn until one takes the link\<close>

fun deliver_link :: "'db services \<Rightarrow> string \<Rightarrow> string list \<Rightarrow> ('db mgr, conn_error, bool) io" where
  "deliver_link S url [] = io_return False"
| "deliver_link S url (t # ts) =
     io_catch (io_bind (on_db (sv_send S t url True)) (\<lambda>_. io_return True)) (\<lambda>_. deliver_link S url ts)"

definition delivery_user_of :: "tuser \<Rightarrow> delivery_user" where
  "delivery_user_of u = \<lparr>dl_phone = tu_phone u, dl_email = tu_email u, dl_metadata = tu_metadata u\<rparr>"

definition generate_and_send_conversation_preview :: "'db services \<Rightarrow> preview_task \<Rightarrow> ('db mgr, conn_error, unit) io" where
  "generate_and_send_conversation_preview S task = quietly
     (io_bind (on_db (sv_preview S task)) (\<lambda>url.
        if \<not> truthy_str url then io_return ()
        else io_bind (io_catch (on_db (sv_user S (pv_user task))) (\<lambda>_. io_return None)) (\<lambda>u.
             io_bind (io_catch (io_bind (on_db (sv_linked S (pv_user task))) (\<lambda>hs. io_return (Some hs))) (\<lambda>_. io_return None)) (\<lambda>linked.
             io_bind (deliver_link S (the url) (get_preview_delivery_targets (pv_phone task) (map_option delivery_user_of u) linked)) (\<lambda>sent.
               if sent then on_db (sv_store S (pv_user task) (the url)
                    [(''intent'', JStr ''networking''), (''task'', JStr ''networking''), (''message_part'', JStr ''conversation_preview'')])
               else io_return ())))))"

section \<open>Invitations\<close>

definition already_confirmed :: "string \<Rightarrow> conn_req \<Rightarrow> dict" where
  "already_confirmed rid r =
     [(''request_id'', JStr rid), (''status'', JStr (status_value (cr_status r))), (''already_confirmed'', JBool True)] @
     (if cr_status r = CPendingTargetApproval
      then [(''message'', JStr (''Request already confirmed by initiator. If processing target'' @ [CHR 0x27] @
              ''s acceptance (CASE C), use target_responds(request_id, accept=true) instead.'')),
            (''hint'', JStr ''For CASE C (target accepting invitation), use target_responds() not confirm_and_send_invitation()'')]
      else [(''message'', JStr ''Request was already confirmed and processed'')])"

text \<open>The link as a rich link, or as plain text if that raises\<close>

definition send_invite_link :: "'db services \<Rightarrow> string \<Rightarrow> string \<Rightarrow> ('db mgr, conn_error, bool) io" where
  "send_invite_link S phone url =
     io_catch (io_bind (on_db (sv_send S phone url True)) (\<lambda>_. io_return True)) (\<lambda>_.
       io_catch (io_bind (on_db (sv_send S phone url False)) (\<lambda>_. io_return True)) (\<lambda>_. io_return False))"

definition preview_for_target :: "'db services \<Rightarrow> conn_req \<Rightarrow> string \<Rightarrow> string \<Rightarrow> tuser \<Rightarrow> string \<Rightarrow> ('db mgr, conn_error, unit) io" where
  "preview_for_target S r rid initiator_name target phone =
     io_bind (get_or_create_preview_url_for_target_invite S r rid initiator_name target) (\<lambda>url.
       if \<not> truthy_str url then io_return ()
       else io_bind (send_invite_link S phone (the url)) (\<lambda>sent.
              if sent then quietly (on_db (sv_store S (tu_id target) (the url)
                   [(''intent'', JStr ''networking_invitation_preview''), (''connection_request_id'', JStr rid)]))
              else io_return ()))"

text \<open>The part after the request was found and its target is known\<close>

definition send_invitation :: "'db services \<Rightarrow> int \<Rightarrow> conn_req \<Rightarrow> string \<Rightarrow> string \<Rightarrow> tuser \<Rightarrow> string \<Rightarrow> ('db mgr, conn_error, string + dict) io" where
  "send_invitation S now r rid initiator_name target phone =
     io_bind (initiator_confirms (sv_reqs S) (sv_states S) now rid) (\<lambda>request.
     io_bind (on_db (sv_invitation S initiator_name (tu_name target) (cr_reasons r))) (\<lambda>message.
       if \<not> truthy_str message then refuse ''Request confirmed but failed to generate invitation message''
       else io_bind (on_db (sv_send S phone (the message) False)) (\<lambda>_.
            io_bind (preview_for_target S r rid initiator_name target phone) (\<lambda>_.
            io_bind (quietly (on_db (sv_store S (tu_id target) (the message)
                [(''intent'', JStr ''networking_invitation''), (''connection_request_id'', JStr rid), (''initiator_name'', JStr initiator_name)]))) (\<lambda>_.
              answer [(''request_id'', JStr rid), (''status'', JStr (status_value (cr_status request))), (''invitation_sent'', JBool True),
                (''target_name'', named (Some target) ''there''), (''target_phone'', JStr phone), (''message'', JStr (the message))])))))"

definition confirm_and_send_invitation :: "'db services \<Rightarrow> int \<Rightarrow> string \<Rightarrow> string \<Rightarrow> ('db, dict) tool" where
  "confirm_and_send_invitation S now rid initiator_name =
     (case validate_request_id rid of
        Some e \<Rightarrow> io_raise e
      | None \<Rightarrow> tool_try S ''Failed to confirm and send invitation: ''
          (io_bind (find_request S rid) (\<lambda>found. case found of
             None \<Rightarrow> refuse (''Connection request '' @ rid @ '' not found'')
           | Some r \<Rightarrow>
               if cr_status r \<in> {CPendingTargetApproval, CTargetAccepted, CGroupCreated} then answer (already_confirmed rid r)
               else if cr_target r = [] then refuse ''Connection request missing target_user_id''
               else io_bind (on_db (sv_user S (cr_target r))) (\<lambda>u.
                      if (case u of None \<Rightarrow> True | Some target \<Rightarrow> \<not> truthy_str (tu_phone target))
                      then refuse (''Could not find phone number for target user '' @ cr_target r)
                      else send_invitation S now r rid initiator_name (the u) (the (tu_phone (the u)))))))"

section \<open>Group chats\<close>

text \<open>The names of the members of a chat, the new one left out; a lookup that raises counts as no user.\<close>

fun names_of_members :: "'db services \<Rightarrow> string \<Rightarrow> string list \<Rightarrow> ('db mgr, conn_error, string list) io" where
  "names_of_members S joiner [] = io_return []"
| "names_of_members S joiner (uid # uids) =
     io_bind (io_catch (on_db (sv_user S uid)) (\<lambda>_. io_return None)) (\<lambda>u.
     io_bind (names_of_members S joiner uids) (\<lambda>rest.
       io_return (case u of None \<Rightarrow> rest
         | Some x \<Rightarrow> if truthy_str (tu_name x) \<and> tu_id x \<noteq> joiner then the (tu_name x) # rest else rest)))"

definition get_group_chat_participant_ids :: "'db services \<Rightarrow> string \<Rightarrow> ('db mgr, conn_error, string list) io" where
  "get_group_chat_participant_ids S guid =
     io_catch (io_bind (on_db (sv_members S guid)) (\<lambda>ids. io_return (rev (remdups (rev (filter (\<lambda>i. i \<noteq> []) ids)))))) (\<lambda>_. io_return [])"

text \<open>
  The name \<open>datetime\<close> in \<open>create_group_chat\<close> is local to the function, since an import near its end
  binds it; where it is used before, it is unbound.
\<close>

definition unbound_datetime :: "('s, conn_error, int) io" where
  "unbound_datetime = io_raise (ApiFailure ''cannot access local variable datetime where it is not associated with a value'')"

definition mark_joined :: "'db services \<Rightarrow> int \<Rightarrow> string \<Rightarrow> string \<Rightarrow> ('db mgr, conn_error, unit) io" where
  "mark_joined S now rid guid = quietly
     (io_bind unbound_datetime (\<lambda>created_at.
      io_bind (on_db (update_connection_request_status (sv_reqs S) now rid CGroupCreated
         (\<lambda>r. r\<lparr>cr_group_chat_guid := Some guid, cr_group_created_at := Some created_at\<rparr>) (Some CTargetAccepted))) (\<lambda>_. io_return ())))"

definition join_chat :: "'db services \<Rightarrow> int \<Rightarrow> conn_req \<Rightarrow> string \<Rightarrow> string \<Rightarrow> tuser \<Rightarrow> ('db mgr, conn_error, unit) io" where
  "join_chat S now r rid guid target =
     io_bind (get_group_chat_participant_ids S guid) (\<lambda>ids.
     io_bind (names_of_members S (cr_target r) ids) (\<lambda>names.
     io_bind (on_db (sv_join S guid (cr_target r) (the (tu_phone target)) (tu_name target) r names)) (\<lambda>_.
       mark_joined S now rid guid)))"

definition phoneless :: "tuser option \<Rightarrow> bool" where
  "phoneless u = (case u of None \<Rightarrow> True | Some x \<Rightarrow> \<not> truthy_str (tu_phone x))"

text \<open>A request that belongs to a chat already\<close>

definition join_existing_chat :: "'db services \<Rightarrow> int \<Rightarrow> conn_req \<Rightarrow> string \<Rightarrow> string \<Rightarrow> ('db mgr, conn_error, string + dict) io" where
  "join_existing_chat S now r rid guid =
     (if cr_status r = CGroupCreated
      then answer [(''chat_guid'', JStr guid), (''already_added'', JBool True), (''action_type'', JStr ''participant_added'')]
      else if cr_target r = [] then refuse ''Connection request missing target_user_id''
      else io_bind (on_db (sv_user S (cr_target r))) (\<lambda>u.
             if phoneless u then refuse (''Could not find phone number for target user '' @ cr_target r)
             else io_bind (join_chat S now r rid guid (the u)) (\<lambda>_.
                    answer [(''chat_guid'', JStr guid), (''added_user_id'', JStr (cr_target r)), (''added_user_name'', named u ''friend''),
                      (''action_type'', JStr ''participant_added'')])))"

definition row_user :: "'db services \<Rightarrow> string \<Rightarrow> ('db, conn_error, user_row option) io" where
  "row_user S uid = io_bind (sv_user S uid) (\<lambda>u. io_return (map_option (\<lambda>x. \<lparr>ur_name = tu_name x, ur_phone = tu_phone x\<rparr>) u))"

definition multi_group :: "'db services \<Rightarrow> int \<Rightarrow> string \<Rightarrow> multi_status \<Rightarrow> ('db mgr, conn_error, string + dict) io" where
  "multi_group S now rid m =
     (if truthy_str (ms_existing_chat m)
      then io_bind (add_late_joiner_to_group (sv_reqs S) (row_user S) (sv_late S) now rid (the (ms_existing_chat m))) (\<lambda>(guid, uid, name).
             answer [(''chat_guid'', JStr (the (ms_existing_chat m))), (''added_user_name'', json_opt_str name), (''is_late_joiner'', JBool True)])
      else io_bind (create_multi_person_group (sv_reqs S) (row_user S) (sv_multi S) now
               (if rid \<in> set (ms_accepted_ids m) then ms_accepted_ids m else ms_accepted_ids m @ [rid])) (\<lambda>(guid, participants).
             answer [(''chat_guid'', JStr guid), (''participant_count'', JInt (int (length participants))), (''is_multi_person'', JBool True)]))"

text \<open>Two users who share a chat: None if there is none, or the target cannot be added\<close>

definition safety_check :: "'db services \<Rightarrow> int \<Rightarrow> conn_req \<Rightarrow> string \<Rightarrow> ('db mgr, conn_error, (string + dict) option) io" where
  "safety_check S now r rid = io_catch
     (io_bind (on_db (sv_shared S (cr_initiator r) (cr_target r))) (\<lambda>shared. case shared of
        None \<Rightarrow> io_return None
      | Some guid \<Rightarrow> io_bind (on_db (sv_user S (cr_target r))) (\<lambda>u.
          if phoneless u then io_return None
          else io_bind (join_chat S now r rid guid (the u)) (\<lambda>_.
             io_return (Some (Inr [(''chat_guid'', JStr guid), (''added_user_name'', named u ''friend''),
               (''action_type'', JStr ''participant_added''), (''safety_check'', JBool True)]))))))
     (\<lambda>e. io_return (Some (Inl (''Failed to check for existing group chat: '' @ sv_text S e))))"

text \<open>
  \<open>db.update_user_profile(user_id=..., personal_facts=...)\<close>: the method has a parameter \<open>profile_data\<close>
  and none of this name, so the call raises a TypeError.
\<close>

definition update_profile_facts :: "string \<Rightarrow> dict \<Rightarrow> ('s, conn_error, unit) io" where
  "update_profile_facts uid facts = io_raise (ApiFailure ''update_user_profile() got an unexpected keyword argument personal_facts'')"

definition location_prompt :: "tuser \<Rightarrow> string" where
  "location_prompt u = ''hey '' @ (if truthy_str (tu_name u) then py_lower (the (tu_name u)) else ''quick thing'')
     @ '' - if you share your location with me, i can connect you with people nearby. think study partners at your campus library, coffee chats''
     @ '' with someone in your city working on similar stuff, or grabbing lunch with a founder down the street. in-person connections hit different.''
     @ '' just tap the + on the left of the typing box and send your location''"

definition first_networking :: "'db services \<Rightarrow> int \<Rightarrow> tuser \<Rightarrow> ('db mgr, conn_error, unit) io" where
  "first_networking S now initiator =
     (let facts = tu_facts initiator in
      if json_truthy (map_of facts ''first_networking_completed'') then io_return ()
      else io_bind (update_profile_facts (tu_id initiator) (put_key ''first_networking_completed'' (JTime now) facts)) (\<lambda>_.
           if json_truthy (map_of facts ''location_sharing_prompted'') \<or> tu_located initiator then io_return ()
           else quietly
             (io_bind (on_db (sv_send S (the (tu_phone initiator)) (location_prompt initiator) False)) (\<lambda>_.
              io_bind (if sv_image S then quietly (on_db (sv_attach S (the (tu_phone initiator)))) else io_return ()) (\<lambda>_.
                update_profile_facts (tu_id initiator) (put_key ''location_sharing_prompted'' (JBool True)
                  (put_key ''first_networking_completed'' (JTime now) facts)))))))"

definition single_group :: "'db services \<Rightarrow> int \<Rightarrow> conn_req \<Rightarrow> string \<Rightarrow> ('db mgr, conn_error, string + dict) io" where
  "single_group S now r rid =
     io_bind (on_db (sv_user S (cr_initiator r))) (\<lambda>iu.
       if phoneless iu then refuse (''Could not find phone number for initiator user '' @ cr_initiator r)
       else io_bind (on_db (sv_user S (cr_target r))) (\<lambda>tu.
         if phoneless tu then refuse (''Could not find phone number for target user '' @ cr_target r)
         else
           (let initiator = the iu; target = the tu;
                university = (if truthy_str (tu_university initiator) \<and> tu_university initiator = tu_university target
                              then tu_university initiator else None) in
            io_bind (on_db (sv_create S initiator target university r)) (\<lambda>guid.
            io_bind (mark_group_created (sv_reqs S) (sv_states S) now rid guid) (\<lambda>_.
            io_bind (first_networking S now initiator) (\<lambda>_.
              answer [(''chat_guid'', JStr guid), (''initiator_name'', named iu ''friend''), (''target_name'', named tu ''friend''),
                (''action_type'', JStr ''group_chat_created'')]))))))"

text \<open>\<open>given\<close> is the argument \<open>multi_match_status\<close>: none, the empty dictionary, or a status\<close>

definition multi_status_of :: "'db services \<Rightarrow> conn_req \<Rightarrow> multi_status option option \<Rightarrow> ('db mgr, conn_error, multi_status option) io" where
  "multi_status_of S r given =
     (case given of
        Some m \<Rightarrow> io_return m
      | None \<Rightarrow>
          if cr_is_multi r \<and> truthy_str (cr_signal_group r)
          then io_bind (on_db (check_multi_match_ready_v1 (sv_reqs S) (the (cr_signal_group r)))) (\<lambda>c.
                 io_return (Some \<lparr>ms_is_multi = True, ms_signal_group = cr_signal_group r, ms_ready = mx_ready c,
                   ms_accepted_count = mx_accepted_count c, ms_threshold = mx_threshold c, ms_existing_chat = mx_chat_guid c,
                   ms_accepted_ids = mx_accepted_ids c\<rparr>))
          else io_return None)"

definition tool_create_group_chat :: "'db services \<Rightarrow> int \<Rightarrow> string \<Rightarrow> multi_status option option \<Rightarrow> ('db, dict) tool" where
  "tool_create_group_chat S now rid given =
     (case validate_request_id rid of
        Some e \<Rightarrow> io_raise e
      | None \<Rightarrow> tool_try S ''Failed to create group chat: ''
          (io_bind (find_request S rid) (\<lambda>found. case found of
             None \<Rightarrow> refuse (''Connection request '' @ rid @ '' not found'')
           | Some r \<Rightarrow>
               if truthy_str (cr_group_chat_guid r) then join_existing_chat S now r rid (the (cr_group_chat_guid r))
               else io_bind (multi_status_of S r given) (\<lambda>multi.
                 if cr_is_multi r \<and> multi \<noteq> None then multi_group S now rid (the multi)
                 else io_bind (safety_check S now r rid) (\<lambda>checked. case checked of
                        Some result \<Rightarrow> io_return result
                      | None \<Rightarrow> single_group S now r rid)))))"

section \<open>What tools do to the requests\<close>

text \<open>The services leave the requests alone; only the steps of the handshake change them.\<close>

locale tool_store = handshake_store rapi rtbl sapi stbl
  for rapi :: "('db, conn_req) table_api" and rtbl :: "'db \<Rightarrow> string \<rightharpoonup> conn_req"
    and sapi :: "('db, state_row) table_api" and stbl :: "'db \<Rightarrow> string \<rightharpoonup> state_row" +
  fixes S :: "'db services"
  assumes apis [simp]: "sv_reqs S = rapi" "sv_states S = sapi"
    and user_frame: "keeps rtbl (sv_user S u)"
    and message_frames: "keeps rtbl (sv_send S u t b)" "keeps rtbl (sv_attach S u)" "keeps rtbl (sv_store S u t d)"
    and text_frames: "keeps rtbl (sv_invitation S t n rs)" "keeps rtbl (sv_conversation S u)" "keeps rtbl (sv_preview S p)"
    and chat_frames: "keeps rtbl (sv_members S u)" "keeps rtbl (sv_shared S u t)" "keeps rtbl (sv_linked S u)"
      "keeps rtbl (sv_join S g u t n r names)" "keeps rtbl (sv_late S g u row members r)" "keeps rtbl (sv_multi S ps rs n)"
      "keeps rtbl (sv_create S a c n r)"
    and profile_frames: "keeps rtbl (sv_profile S u d)" "keeps rtbl (sv_demands S u)" "keeps rtbl (sv_derive S u h)"
    and match_frames: "keeps rtbl (sv_match S u us n)" "keeps rtbl (sv_matches S u us t k)" "keeps rtbl (sv_distance S u)"
      "keeps rtbl (sv_clarity S t)"
begin

abbreviation reqs_of :: "'db mgr \<Rightarrow> string \<rightharpoonup> conn_req" where
  "reqs_of m \<equiv> rtbl (mg_db m)"

lemmas service_frames = user_frame message_frames text_frames chat_frames profile_frames match_frames

lemma keeps_db [keeps_rules]: "keeps rtbl m \<Longrightarrow> keeps reqs_of (on_db m)"
  by (auto simp: keeps_def on_db_iff)

lemma keeps_quietly [keeps_rules]: "keeps f m \<Longrightarrow> keeps f (quietly m)"
  unfolding quietly_def by (intro keeps_rules)

lemma keeps_answer [keeps_rules]: "keeps f (answer x)"
  and keeps_refuse [keeps_rules]: "keeps f (refuse e)"
  unfolding answer_def refuse_def by (intro keeps_rules)+

lemma keeps_find [keeps_rules]: "keeps reqs_of (find_request S rid)"
  unfolding find_request_def by (simp add: keeps_db reqs.keeps_get_connection_request)

lemma keeps_initiator_name [keeps_rules]: "keeps reqs_of (initiator_name_of S r)"
  unfolding initiator_name_of_def by (intro keeps_rules service_frames)

lemma keeps_siblings [keeps_rules]: "keeps reqs_of (siblings_of S g)"
  unfolding siblings_of_def by (simp, intro keeps_rules)

lemma keeps_conversations [keeps_rules]: "keeps reqs_of (first_conversation S base rid ids)"
  by (induction ids) (auto intro!: keeps_rules service_frames split: option.splits)

lemma keeps_lookup [keeps_rules]: "keeps reqs_of (lookup_preview_url_for_request S rid g base)"
  unfolding lookup_preview_url_for_request_def by (auto intro!: keeps_rules service_frames split: option.splits)

lemma keeps_again [keeps_rules]: "keeps reqs_of (lookup_again S n rid g base)"
  by (induction n) (auto intro!: keeps_rules split: option.splits)

lemma keeps_additional [keeps_rules]: "keeps reqs_of (additional_matches S seen rs)"
  by (induction rs arbitrary: seen) (auto intro!: keeps_rules service_frames)

lemma keeps_preview [keeps_rules]: "keeps reqs_of (preview_for_target S r rid n target phone)"
  unfolding preview_for_target_def get_or_create_preview_url_for_target_invite_def create_preview_for_invite_def send_invite_link_def
  by (auto simp: Let_def intro!: keeps_rules service_frames split: option.splits)

lemma keeps_deliver [keeps_rules]: "keeps reqs_of (deliver_link S url ts)"
  by (induction ts) (auto intro!: keeps_rules service_frames)

lemma keeps_background: "keeps reqs_of (generate_and_send_conversation_preview S task)"
  unfolding generate_and_send_conversation_preview_def by (auto intro!: keeps_rules service_frames)

lemma keeps_members [keeps_rules]: "keeps reqs_of (names_of_members S joiner ids)"
  by (induction ids) (auto intro!: keeps_rules service_frames split: option.splits)

lemma keeps_unbound: "keeps f (io_bind unbound_datetime g)"
  by (simp add: keeps_def unbound_datetime_def io_bind_def)

lemma keeps_join [keeps_rules]: "keeps reqs_of (join_chat S now r rid guid target)"
  unfolding join_chat_def mark_joined_def get_group_chat_participant_ids_def
  by (intro keeps_rules service_frames keeps_unbound)

lemma keeps_existing [keeps_rules]: "keeps reqs_of (join_existing_chat S now r rid guid)"
  unfolding join_existing_chat_def by (auto intro!: keeps_rules service_frames)

lemma keeps_safety [keeps_rules]: "keeps reqs_of (safety_check S now r rid)"
  unfolding safety_check_def by (auto intro!: keeps_rules service_frames split: option.splits)

lemma keeps_first [keeps_rules]: "keeps reqs_of (first_networking S now u)"
  unfolding first_networking_def update_profile_facts_def by (auto simp: Let_def intro!: keeps_rules service_frames)

lemma keeps_row_user: "keeps rtbl (row_user S u)"
  unfolding row_user_def by (intro keeps_rules service_frames)

end

lemma evolves_tool_try: "evolves f m \<Longrightarrow> evolves f (tool_try S what m)"
  unfolding evolves_def tool_try_def by (auto split: prod.splits sum.splits)

lemma evolves_answer [evolves_rules]: "evolves f (answer x)"
  and evolves_refuse [evolves_rules]: "evolves f (refuse e)"
  unfolding answer_def refuse_def by (intro evolves_rules)+

context tool_store
begin

lemmas frames_evolve = keeps_find [THEN evolves_keeps] keeps_initiator_name [THEN evolves_keeps] keeps_preview [THEN evolves_keeps]
  keeps_existing [THEN evolves_keeps] keeps_safety [THEN evolves_keeps] keeps_first [THEN evolves_keeps]
  service_frames [THEN keeps_db, THEN evolves_keeps]

lemma evolves_op: "evolves reqs_of (initiator_confirms rapi sapi now rid)" "evolves reqs_of (initiator_cancels rapi sapi now rid)"
  "evolves reqs_of (target_declines rapi sapi now rid reason)" "evolves reqs_of (mark_group_created rapi sapi now rid guid)"
  using evolves_run_hs [of now Confirm rid] evolves_run_hs [of now Withdraw rid] evolves_run_hs [of now "Decline reason" rid]
    evolves_run_hs [of now "MarkGroup guid" rid] by simp_all

lemma keeps_pending: "keeps reqs_of (get_pending_for_initiator rapi now u)" "keeps reqs_of (get_pending_for_target rapi now u)"
proof -
  have "keeps rtbl (newest rapi P n)" for P n
    using reqs.select_top_frame unfolding newest_def by (intro keeps_rules) (auto simp: keeps_def)
  then show "keeps reqs_of (get_pending_for_initiator rapi now u)" "keeps reqs_of (get_pending_for_target rapi now u)"
    unfolding get_pending_for_initiator_def get_pending_for_target_def get_pending_request_for_user_def get_pending_request_for_target_def
    by (auto intro!: keeps_rules)
qed

lemmas tools_evolve = evolves_rules evolves_tool_try frames_evolve evolves_op evolves_different evolves_create_request evolves_accept_multi
  keeps_pending [THEN evolves_keeps]

lemma evolves_case_option: "(\<And>x. evolves f (g x)) \<Longrightarrow> evolves f n \<Longrightarrow> evolves f (case y of None \<Rightarrow> n | Some x \<Rightarrow> g x)"
  by (cases y) auto

lemma evolves_case_sum: "(\<And>x. evolves f (g x)) \<Longrightarrow> (\<And>x. evolves f (h x)) \<Longrightarrow> evolves f (case y of Inl x \<Rightarrow> h x | Inr x \<Rightarrow> g x)"
  by (cases y) auto

lemma evolves_case_prod: "(\<And>x y. evolves f (g x y)) \<Longrightarrow> evolves f (case p of (x, y) \<Rightarrow> g x y)"
  by (cases p) auto

lemma evolves_create_tool: "evolves reqs_of (tool_create_connection_request S now i m ex)"
  unfolding tool_create_connection_request_def apis by (intro tools_evolve)

lemma evolves_pending_tool: "evolves reqs_of (get_pending_connection_request S now uid ini profile)"
  unfolding get_pending_connection_request_def apis by (intro tools_evolve evolves_case_sum)

lemma evolves_confirm_tool: "evolves reqs_of (confirm_connection_request S now rid)"
  unfolding confirm_connection_request_def apis by (intro tools_evolve)

lemma evolves_different_tool: "evolves reqs_of (request_different_match S now rid t)"
  unfolding request_different_match_def apis by (intro tools_evolve evolves_case_option)

lemma evolves_cancel_tool: "evolves reqs_of (cancel_connection_request S now rid)"
  unfolding cancel_connection_request_def apis by (intro tools_evolve)

lemma evolves_responds_tool: "evolves reqs_of (target_responds S now rid accept reason)"
  unfolding target_responds_def already_answered_def apis by (intro tools_evolve evolves_case_option evolves_case_prod)

lemma evolves_invitation_tool: "evolves reqs_of (confirm_and_send_invitation S now rid name)"
proof -
  have "evolves reqs_of (quietly (on_db (sv_store S u t d)))" for u t d
    by (intro evolves_keeps keeps_quietly keeps_db service_frames)
  then show ?thesis
    unfolding confirm_and_send_invitation_def send_invitation_def apis by (intro tools_evolve evolves_case_option)
qed

lemma evolves_group_tool: "evolves reqs_of (tool_create_group_chat S now rid given)"
proof -
  have multi: "evolves reqs_of (multi_group S now rid m)" for m
  proof -
    have joined: "evolves reqs_of (add_late_joiner_to_group rapi (row_user S) (sv_late S) now rid g)" for g
      by (rule evolves_late_joiner [OF keeps_row_user chat_frames(5)])
    have grouped: "evolves reqs_of (create_multi_person_group rapi (row_user S) (sv_multi S) now ids)" for ids
      by (rule evolves_multi_group [OF keeps_row_user chat_frames(6)])
    show ?thesis unfolding multi_group_def apis by (intro tools_evolve evolves_case_prod joined grouped)
  qed
  have status: "evolves reqs_of (multi_status_of S r given)" for r
    unfolding multi_status_of_def check_multi_match_ready_v1_def apis
    by (intro tools_evolve evolves_case_option evolves_keeps [OF keeps_db]) (intro keeps_rules reqs_select_frame)
  have single: "evolves reqs_of (single_group S now r rid)" for r
    unfolding single_group_def Let_def apis by (intro tools_evolve)
  show ?thesis
    unfolding tool_create_group_chat_def by (intro tools_evolve evolves_case_option multi status single)
qed

end

end
