(* ===== verification/Matching_Tools.thy ===== *)
theory Matching_Tools
  imports Networking_Tools
begin

text \<open>
  The tools of app/agents/tools/networking.py that look for matches and connections: the check of a
  request's clarity, one match, several matches, and what is known of a user's connections. The
  matcher and the language model are services.
\<close>

section \<open>Whom to leave out\<close>

definition get_users_to_exclude :: "'db services \<Rightarrow> string \<Rightarrow> ('db mgr, 'e, string list) io" where
  "get_users_to_exclude S uid =
     io_catch
       (io_bind (on_db (tb_select (sv_reqs S) (\<lambda>r. cr_initiator r = uid \<and> active_status (cr_status r)))) (\<lambda>as_initiator.
          io_catch
            (io_bind (on_db (tb_select (sv_reqs S) (\<lambda>r. cr_target r = uid \<and> active_status (cr_status r)))) (\<lambda>as_target.
               io_return (remdups (filter (\<lambda>u. u \<noteq> []) (map cr_target as_initiator @ map cr_initiator as_target)))))
            (\<lambda>_. io_return (remdups (filter (\<lambda>u. u \<noteq> []) (map cr_target as_initiator))))))
       (\<lambda>_. io_return [])"

section \<open>Demands\<close>

text \<open>The last three texts of the history as it is stored; anything unexpected raises.\<close>

definition recent_demands :: "json option \<Rightarrow> string + string list" where
  "recent_demands h =
     (if \<not> json_truthy h then Inr []
      else case the h of
        JList xs \<Rightarrow>
          (let last3 = drop (length xs - 3) xs;
               txt_of = (\<lambda>j. case j of JObj d \<Rightarrow> (case map_of d ''text'' of None \<Rightarrow> Some [] | Some (JStr t) \<Rightarrow> Some t | _ \<Rightarrow> None) | _ \<Rightarrow> None)
           in if list_ex (\<lambda>j. txt_of j = None) last3 then Inl ''AttributeError'' else Inr (map (\<lambda>j. py_strip (py_lower (the (txt_of j)))) last3))
      | _ \<Rightarrow> Inl ''TypeError'')"

definition store_demand :: "'db services \<Rightarrow> int \<Rightarrow> string \<Rightarrow> json option \<Rightarrow> string \<Rightarrow> ('db mgr, conn_error, unit) io" where
  "store_demand S now uid h demand =
     (let history = append_history (sv_str S) (case h of Some j \<Rightarrow> j | None \<Rightarrow> JList []) (Some demand) (Some (sv_iso S now)) in
      io_bind (on_db (sv_profile S uid [(''demand_history'', history_json history)])) (\<lambda>_. on_db (sv_derive S uid history)))"

definition persist_demand :: "'db services \<Rightarrow> int \<Rightarrow> string \<Rightarrow> string \<Rightarrow> ('db mgr, conn_error, unit) io" where
  "persist_demand S now uid demand = quietly
     (io_bind (on_db (sv_demands S uid)) (\<lambda>h. case recent_demands h of
        Inl e \<Rightarrow> io_raise (ApiFailure e)
      | Inr recent \<Rightarrow> if py_strip (py_lower demand) \<in> set recent then io_return () else store_demand S now uid h demand))"

definition clarity_answer :: "json \<Rightarrow> json \<Rightarrow> json \<Rightarrow> dict" where
  "clarity_answer is_clear question demand = [(''is_clear'', is_clear), (''clarification_question'', question), (''interpreted_demand'', demand)]"

definition check_networking_clarity :: "'db services \<Rightarrow> int \<Rightarrow> string \<Rightarrow> string \<Rightarrow> dict \<Rightarrow> ('db, dict) tool" where
  "check_networking_clarity S now uid request profile =
     (case validate_and_repair_user_id uid profile of
        Inl e \<Rightarrow> io_raise e
      | Inr used \<Rightarrow>
          io_catch
            (io_bind (on_db (sv_clarity S request)) (\<lambda>result.
               let is_clear = get_or result ''is_clear'' (JBool False);
                   question = get_or result ''clarification_question'' JNull;
                   demand = get_or result ''interpreted_demand'' JNull in
               io_bind (quietly
                 (if json_truthy (Some is_clear) \<and> json_truthy (Some demand)
                  then io_bind (on_db (sv_demands S used)) (\<lambda>h. store_demand S now used h (coerce_text (sv_str S) (Some demand)))
                  else if \<not> json_truthy (Some is_clear) \<and> json_truthy (Some question)
                  then on_db (sv_profile S used [(''networking_clarification'', JObj [(''is_clear'', JBool False), (''checked_at'', JTime now),
                         (''networking_request'', JStr request), (''clarification_question'', question)])])
                  else io_return ())) (\<lambda>_. io_return (clarity_answer is_clear question demand))))
            (\<lambda>_. io_return (clarity_answer (JBool True) JNull (JStr ''Unable to analyze, proceeding with match''))))"

section \<open>Matches\<close>

definition match_of :: "found \<Rightarrow> match_result" where
  "match_of f = \<lparr>mr_target_user_id = fd_target f, mr_target_name = fd_name f, mr_match_score = fd_score f,
     mr_matching_reasons = fd_reasons f, mr_llm_introduction = fd_introduction f, mr_llm_concern = fd_concern f\<rparr>"

text \<open>The distance is added to the reasons when the initiator has a phone number or an address; the target is looked up first.\<close>

definition distance_of :: "'db services \<Rightarrow> dict \<Rightarrow> found \<Rightarrow> ('db mgr, conn_error, string option) io" where
  "distance_of S profile f =
     io_bind (if fd_target f = [] then io_return None else on_db (sv_user S (fd_target f))) (\<lambda>_.
       if truthy_str (get_str profile ''phone_number'') \<or> truthy_str (get_str profile ''email'') then on_db (sv_distance S (fd_target f)) else io_return None)"

definition with_distance :: "found \<Rightarrow> string option \<Rightarrow> found" where
  "with_distance f d = (if truthy_str d then f\<lparr>fd_reasons := fd_reasons f @ [the d]\<rparr> else f)"

definition add_distance :: "'db services \<Rightarrow> dict \<Rightarrow> found \<Rightarrow> ('db mgr, conn_error, found) io" where
  "add_distance S profile f =
     io_catch (io_bind (distance_of S profile f) (\<lambda>d. io_return (with_distance f d))) (\<lambda>_. io_return f)"

definition found_data :: "found \<Rightarrow> dict" where
  "found_data f = [(''target_user_id'', JStr (fd_target f)), (''target_name'', JStr (fd_name f)), (''target_phone'', json_opt_str (fd_phone f)),
     (''match_score'', JInt (fd_score f)), (''matching_reasons'', json_strs (fd_reasons f)),
     (''llm_introduction'', json_opt_str (fd_introduction f)), (''llm_concern'', json_opt_str (fd_concern f))] @ fd_details f"

definition demand_for :: "'db services \<Rightarrow> string option \<Rightarrow> string option" where
  "demand_for S override = (if truthy_str override then Some (or_str (sv_interpret S (the override)) (the override)) else None)"

text \<open>The answer of a match that was found: the request is created if possible, and the preview is started.\<close>

definition present_match :: "'db services \<Rightarrow> int \<Rightarrow> string \<Rightarrow> dict \<Rightarrow> string option \<Rightarrow> found \<Rightarrow> ('db mgr, conn_error, string + (dict \<times> preview_task option)) io" where
  "present_match S now uid profile purpose f =
     io_bind (add_distance S profile f) (\<lambda>f1.
     io_bind (io_catch (io_bind (create_request (sv_reqs S) (sv_states S) now uid (match_of f1) None None False 1 purpose None) (\<lambda>r. io_return (Some (cr_id r))))
         (\<lambda>_. io_return None)) (\<lambda>rid.
       answer (found_data f1 @ [(''connection_request_id'', json_opt_str rid), (''request_id'', json_opt_str rid),
             (''conversation_pending'', JBool (sv_preview_base S \<noteq> None))],
          if sv_preview_base S = None then None
          else Some \<lparr>pv_user = uid, pv_name = get_str profile ''name'', pv_phone = get_str profile ''phone_number'',
                 pv_match = [(''target_user_id'', JStr (fd_target f1)), (''target_name'', JStr (fd_name f1)), (''matching_reasons'', json_strs (fd_reasons f1))]
                   @ fd_details f1 @ [(''connection_purpose'', JStr (or_str purpose []))], pv_request = rid\<rparr>)))"

definition find_match :: "'db services \<Rightarrow> int \<Rightarrow> string \<Rightarrow> dict \<Rightarrow> string list option \<Rightarrow> string option \<Rightarrow> ('db, dict \<times> preview_task option) tool" where
  "find_match S now uid profile excluded override_demand =
     (case validate_and_repair_user_id uid profile of
        Inl e \<Rightarrow> io_raise e
      | Inr used \<Rightarrow> tool_try S ''Match search failed: ''
          (io_bind (get_users_to_exclude S used) (\<lambda>auto_excluded.
             let all_excluded = remdups (opt_list excluded @ auto_excluded); demand = demand_for S override_demand in
             io_bind (case demand of None \<Rightarrow> io_return () | Some d \<Rightarrow> persist_demand S now used d) (\<lambda>_.
             io_bind (on_db (sv_match S used all_excluded demand)) (\<lambda>f.
               if \<not> fd_success f then refuse (or_str (fd_error f) ''No suitable match found'')
               else present_match S now used profile (if truthy_str demand then demand else override_demand) f)))))"

text \<open>An exception of one distance leaves the rest without.\<close>

fun add_distances :: "'db services \<Rightarrow> dict \<Rightarrow> found list \<Rightarrow> ('db mgr, conn_error, found list) io" where
  "add_distances S profile [] = io_return []"
| "add_distances S profile (f # fs) =
     io_bind (io_catch (io_bind (distance_of S profile f) (\<lambda>d. io_return (Some d))) (\<lambda>_. io_return None)) (\<lambda>d. case d of
        None \<Rightarrow> io_return (f # fs)
      | Some x \<Rightarrow> io_bind (add_distances S profile fs) (\<lambda>rest. io_return (with_distance f x # rest)))"

text \<open>A request per match; a match whose request fails keeps none.\<close>

fun create_requests :: "'db services \<Rightarrow> int \<Rightarrow> string \<Rightarrow> string \<Rightarrow> string \<Rightarrow> found list \<Rightarrow> ('db mgr, conn_error, (found \<times> string option) list) io" where
  "create_requests S now uid grp purpose [] = io_return []"
| "create_requests S now uid grp purpose (f # fs) =
     io_bind (io_catch (io_bind (create_request (sv_reqs S) (sv_states S) now uid (match_of f) None (Some grp) True 1 (Some purpose) None)
           (\<lambda>r. io_return (Some (cr_id r)))) (\<lambda>_. io_return None)) (\<lambda>rid.
     io_bind (create_requests S now uid grp purpose fs) (\<lambda>rest. io_return ((f, rid) # rest)))"

definition sanitized_match :: "found \<times> string option \<Rightarrow> json" where
  "sanitized_match x = JObj [(''target_name'', JStr (fd_name (fst x))), (''matching_reasons'', json_strs (fd_reasons (fst x))),
     (''llm_introduction'', json_opt_str (fd_introduction (fst x))), (''connection_request_id'', json_opt_str (snd x))]"

definition multi_preview :: "dict \<Rightarrow> string \<Rightarrow> string \<Rightarrow> found list \<Rightarrow> string \<Rightarrow> preview_task" where
  "multi_preview profile uid purpose fs rid =
     (let core = (\<lambda>f. [(''target_user_id'', JStr (fd_target f)), (''target_name'', JStr (fd_name f)), (''matching_reasons'', json_strs (fd_reasons f))])
      in \<lparr>pv_user = uid, pv_name = get_str profile ''name'', pv_phone = get_str profile ''phone_number'',
          pv_match = core (hd fs) @ [(''connection_purpose'', JStr purpose), (''all_matches'', JList (map (\<lambda>f. JObj (core f)) (tl fs)))],
          pv_request = Some rid\<rparr>)"

text \<open>\<open>grp\<close> is the fresh id that links the requests\<close>

definition find_multi_matches ::
  "'db services \<Rightarrow> int \<Rightarrow> string \<Rightarrow> string \<Rightarrow> dict \<Rightarrow> string \<Rightarrow> int \<Rightarrow> string list option \<Rightarrow> string option \<Rightarrow> ('db, dict \<times> preview_task option) tool" where
  "find_multi_matches S now grp uid profile signal max_matches excluded group_name =
     (case validate_and_repair_user_id uid profile of
        Inl e \<Rightarrow> io_raise e
      | Inr used \<Rightarrow> tool_try S ''Multi-match search failed: ''
          (io_bind (get_users_to_exclude S used) (\<lambda>auto_excluded.
           io_bind (persist_demand S now used (or_str (sv_interpret S signal) signal)) (\<lambda>_.
           io_bind (on_db (sv_matches S used (remdups (opt_list excluded @ auto_excluded)) signal (min max_matches 3))) (\<lambda>batch.
             let ok = filter fd_success batch; purpose = or_str group_name signal in
             io_bind (if truthy_str (get_str profile ''phone_number'') \<or> truthy_str (get_str profile ''email'') then add_distances S profile ok else io_return ok) (\<lambda>fs.
               if fs = [] then refuse ''No suitable matches found''
               else io_bind (create_requests S now used grp purpose fs) (\<lambda>created.
                 let made = filter (\<lambda>x. snd x \<noteq> None) created; ids = map (\<lambda>x. the (snd x)) made in
                 if made = [] then refuse ''Found matches but failed to create connection requests''
                 else answer ([(''matches'', JList (map sanitized_match created)), (''count'', JInt (int (length created))), (''signal_text'', JStr signal),
                      (''connection_requests'', JList (map (\<lambda>x. JObj [(''request_id'', JStr (the (snd x))), (''target_name'', JStr (fd_name (fst x)))]) made)),
                      (''request_ids'', json_strs ids), (''is_multi_match'', JBool True), (''signal_group_id'', JStr grp),
                      (''conversation_pending'', JBool (sv_preview_base S \<noteq> None))],
                    if sv_preview_base S = None then None else Some (multi_preview profile used purpose fs (hd ids))))))))))"

section \<open>Connections\<close>

definition tool_get_user_connections :: "'db services \<Rightarrow> string \<Rightarrow> dict option \<Rightarrow> ('db, connection list) tool" where
  "tool_get_user_connections S uid profile =
     (case searched_id uid profile of
        Inl e \<Rightarrow> io_raise e
      | Inr used \<Rightarrow> tool_try S ''Failed to get connections: ''
          (io_bind (on_db (get_user_connections (sv_reqs S) (\<lambda>u. io_lift (sv_text S) (row_user S u)) used 20)) answer))"

text \<open>A connection as it is shown; what is known of the person is added for a search by name.\<close>

record shown =
  sh_id :: string
  sh_with :: string
  sh_name :: "string option"
  sh_initiator :: bool
  sh_score :: "int option"
  sh_reasons :: "string list"
  sh_purpose :: "string option"
  sh_multi :: bool
  sh_status :: conn_status
  sh_person :: "tuser option"

definition shown_connection :: "connection \<Rightarrow> shown" where
  "shown_connection c = \<lparr>sh_id = cn_id c, sh_with = cn_with_id c, sh_name = cn_with_name c, sh_initiator = cn_role_initiator c,
     sh_score = cn_score c, sh_reasons = cn_reasons c, sh_purpose = None, sh_multi = False, sh_status = CGroupCreated, sh_person = None\<rparr>"

definition shown_request :: "bool \<Rightarrow> tuser option \<Rightarrow> conn_req \<Rightarrow> shown" where
  "shown_request as_initiator u r = \<lparr>sh_id = cr_id r, sh_with = (if as_initiator then cr_target r else cr_initiator r),
     sh_name = (case u of None \<Rightarrow> Some ''Unknown'' | Some x \<Rightarrow> tu_name x), sh_initiator = as_initiator,
     sh_score = cr_match_score r, sh_reasons = cr_reasons r, sh_purpose = cr_purpose r, sh_multi = cr_is_multi r,
     sh_status = cr_status r, sh_person = None\<rparr>"

fun shown_requests :: "'db services \<Rightarrow> bool \<Rightarrow> conn_req list \<Rightarrow> ('db mgr, conn_error, shown list) io" where
  "shown_requests S as_initiator [] = io_return []"
| "shown_requests S as_initiator (r # rs) =
     io_bind (on_db (sv_user S (if as_initiator then cr_target r else cr_initiator r))) (\<lambda>u.
     io_bind (shown_requests S as_initiator rs) (\<lambda>rest. io_return (shown_request as_initiator u r # rest)))"

definition pending_shown :: "'db services \<Rightarrow> int \<Rightarrow> string \<Rightarrow> ('db mgr, conn_error, shown list) io" where
  "pending_shown S now uid =
     io_bind (on_db (list_pending_requests_for_initiator (sv_reqs S) now uid 10)) (\<lambda>mine.
     io_bind (shown_requests S True mine) (\<lambda>a.
     io_bind (on_db (list_requests_awaiting_target_response (sv_reqs S) now uid 10)) (\<lambda>awaiting.
     io_bind (shown_requests S True awaiting) (\<lambda>b.
     io_bind (on_db (list_pending_requests_for_target (sv_reqs S) now uid 10)) (\<lambda>asked.
     io_bind (shown_requests S False asked) (\<lambda>c. io_return (a @ b @ c)))))))"

text \<open>The search by name: a connection without a name raises, since None has no \<open>lower\<close>.\<close>

definition named_like :: "string \<Rightarrow> shown list \<Rightarrow> (conn_error + shown list)" where
  "named_like name cs =
     (if list_ex (\<lambda>c. sh_name c = None) cs then Inl (ApiFailure ''AttributeError'')
      else Inr (filter (\<lambda>c. contains_str (py_lower name) (py_lower (the (sh_name c)))) cs))"

fun with_persons :: "'db services \<Rightarrow> shown list \<Rightarrow> ('db mgr, conn_error, shown list) io" where
  "with_persons S [] = io_return []"
| "with_persons S (c # cs) =
     io_bind (if sh_with c = [] then io_return None else on_db (sv_user S (sh_with c))) (\<lambda>u.
     io_bind (with_persons S cs) (\<lambda>rest. io_return (c\<lparr>sh_person := u\<rparr> # rest)))"

record connection_info =
  ci_query :: string
  ci_connections :: "shown list"
  ci_person :: "tuser option"
  ci_message :: "string option"

definition info_answer :: "'db services \<Rightarrow> string option \<Rightarrow> shown list \<Rightarrow> ('db mgr, conn_error, string + connection_info) io" where
  "info_answer S target_name all_connections =
     (let query = (if truthy_str target_name then ''specific_person'' else ''all'') in
      io_bind (if truthy_str target_name then of_result (named_like (the target_name) all_connections) else io_return all_connections) (\<lambda>cs.
      io_bind (if truthy_str target_name then with_persons S cs else io_return cs) (\<lambda>known.
        answer (if cs = []
          then \<lparr>ci_query = query, ci_connections = [], ci_person = None,
                ci_message = Some (if truthy_str target_name
                  then ''No connections found with name matching '' @ [CHR 0x27] @ the target_name @ [CHR 0x27] else ''No connections found'')\<rparr>
          else \<lparr>ci_query = query, ci_connections = (if length cs = 1 then cs else known),
                ci_person = (if length cs = 1 then sh_person (hd known) else None), ci_message = None\<rparr>))))"

definition get_connection_info :: "'db services \<Rightarrow> int \<Rightarrow> string \<Rightarrow> string option \<Rightarrow> bool \<Rightarrow> ('db, connection_info) tool" where
  "get_connection_info S now uid target_name include_pending =
     (if \<not> valid_uuid uid then io_raise (''Invalid user_id format: '' @ uid)
      else tool_try S ''Failed to get connection info: ''
        (io_bind (on_db (get_user_connections (sv_reqs S) (\<lambda>u. io_lift (sv_text S) (row_user S u)) uid 20)) (\<lambda>completed.
         io_bind (if include_pending then pending_shown S now uid else io_return []) (\<lambda>pending.
           info_answer S target_name (map shown_connection completed @ pending)))))"

section \<open>Any tools in any order\<close>

context tool_store
begin

lemma keeps_exclude [keeps_rules]: "keeps reqs_of (get_users_to_exclude S uid)"
  unfolding get_users_to_exclude_def apis by (intro keeps_rules keeps_db reqs_select_frame)

lemma keeps_store_demand: "keeps reqs_of (store_demand S now uid h d)"
  unfolding store_demand_def Let_def by (intro keeps_rules keeps_db service_frames)

lemma keeps_case_option: "(\<And>x. keeps f (g x)) \<Longrightarrow> keeps f n \<Longrightarrow> keeps f (case y of None \<Rightarrow> n | Some x \<Rightarrow> g x)"
  by (cases y) auto

lemma keeps_case_sum: "(\<And>x. keeps f (g x)) \<Longrightarrow> (\<And>x. keeps f (h x)) \<Longrightarrow> keeps f (case y of Inl x \<Rightarrow> h x | Inr x \<Rightarrow> g x)"
  by (cases y) auto

lemma keeps_persist: "keeps reqs_of (persist_demand S now uid d)"
  unfolding persist_demand_def by (intro keeps_rules keeps_db service_frames keeps_case_sum keeps_store_demand)

lemma keeps_clarity: "keeps reqs_of (check_networking_clarity S now uid request profile)"
  unfolding check_networking_clarity_def Let_def
  by (intro keeps_rules keeps_db service_frames keeps_case_sum keeps_store_demand)

lemma keeps_distance_of: "keeps reqs_of (distance_of S profile x)"
  unfolding distance_of_def by (intro keeps_rules keeps_db service_frames)

lemma keeps_distances: "keeps reqs_of (add_distance S profile x)" "keeps reqs_of (add_distances S profile xs)"
proof -
  show "keeps reqs_of (add_distance S profile x)" unfolding add_distance_def by (intro keeps_rules keeps_distance_of)
  show "keeps reqs_of (add_distances S profile xs)"
    by (induction xs) (auto intro!: keeps_rules keeps_distance_of split: option.splits)
qed

lemma evolves_find_match: "evolves reqs_of (find_match S now uid profile ex demand)"
  unfolding find_match_def present_match_def Let_def apis
  by (intro tools_evolve evolves_case_sum evolves_case_option evolves_keeps [OF keeps_exclude] evolves_keeps [OF keeps_persist]
      evolves_keeps [OF keeps_distances(1)])

lemma evolves_requests: "evolves reqs_of (create_requests S now uid grp purpose fs)"
proof (induction fs)
  case (Cons x fs)
  show ?case unfolding create_requests.simps apis by (intro tools_evolve Cons)
qed (simp add: evolves_rules)

lemma evolves_multi_matches: "evolves reqs_of (find_multi_matches S now grp uid profile t n ex nm)"
  unfolding find_multi_matches_def Let_def
  by (intro tools_evolve evolves_case_sum evolves_requests evolves_keeps [OF keeps_exclude] evolves_keeps [OF keeps_persist]
      evolves_keeps [OF keeps_distances(2)])

lemma keeps_tool_try: "keeps f m \<Longrightarrow> keeps f (tool_try S what m)"
  unfolding keeps_def tool_try_def by (auto split: prod.splits sum.splits)

lemma keeps_newest: "keeps rtbl (newest rapi P n)"
  using reqs.select_top_frame unfolding newest_def by (intro keeps_rules) (auto simp: keeps_def)

lemma keeps_connections: "keeps rtbl (get_user_connections rapi (\<lambda>u. io_lift t (row_user S u)) uid n)"
proof -
  have "keeps rtbl (enrich_all (\<lambda>u. io_lift t (row_user S u)) uid rs)" for rs
    by (induction rs) (auto intro!: keeps_rules keeps_row_user)
  moreover have "keeps rtbl (tb_select_top rapi P g n)" for P g
    using reqs.select_top_frame by (auto simp: keeps_def)
  ultimately show ?thesis unfolding get_user_connections_def by (intro keeps_rules)
qed

lemma keeps_shown: "keeps reqs_of (shown_requests S b rs)"
  by (induction rs) (auto intro!: keeps_rules service_frames)

lemma keeps_pending_shown: "keeps reqs_of (pending_shown S now uid)"
  unfolding pending_shown_def list_pending_requests_for_initiator_def list_requests_awaiting_target_response_def
    list_pending_requests_for_target_def apis
  by (intro keeps_rules keeps_db keeps_newest keeps_shown)

lemma keeps_persons: "keeps reqs_of (with_persons S cs)"
  by (induction cs) (auto intro!: keeps_rules service_frames)

lemma keeps_info: "keeps reqs_of (get_connection_info S now uid nm b)" "keeps reqs_of (tool_get_user_connections S uid profile)"
proof -
  show "keeps reqs_of (get_connection_info S now uid nm b)"
    unfolding get_connection_info_def info_answer_def Let_def apis
    by (intro keeps_rules keeps_db keeps_tool_try keeps_connections keeps_pending_shown keeps_persons of_result_frame)
  show "keeps reqs_of (tool_get_user_connections S uid profile)"
    unfolding tool_get_user_connections_def apis by (intro keeps_rules keeps_db keeps_tool_try keeps_connections keeps_case_sum)
qed

end

text \<open>A tool call by some worker with whatever cache, or a background task\<close>

inductive tool_call :: "'db services \<Rightarrow> 'db mgr \<Rightarrow> 'db mgr \<Rightarrow> bool" for S where
  "tool_call S m (snd (check_networking_clarity S now uid request profile m))"
| "tool_call S m (snd (find_match S now uid profile ex demand m))"
| "tool_call S m (snd (find_multi_matches S now grp uid profile signal n ex nm m))"
| "tool_call S m (snd (tool_create_connection_request S now uid mt ex m))"
| "tool_call S m (snd (get_pending_connection_request S now uid ini prof m))"
| "tool_call S m (snd (confirm_connection_request S now rid m))"
| "tool_call S m (snd (confirm_and_send_invitation S now rid nam m))"
| "tool_call S m (snd (request_different_match S now rid t m))"
| "tool_call S m (snd (cancel_connection_request S now rid m))"
| "tool_call S m (snd (target_responds S now rid accept reason m))"
| "tool_call S m (snd (tool_create_group_chat S now rid given m))"
| "tool_call S m (snd (tool_get_user_connections S uid prof m))"
| "tool_call S m (snd (get_connection_info S now uid nm b m))"
| "tool_call S m (snd (generate_and_send_conversation_preview S task m))"

inductive tool_run :: "'db services \<Rightarrow> 'db \<Rightarrow> 'db \<Rightarrow> bool" for S where
  tool_none: "tool_run S d d"
| tool_step: "tool_run S d d1 \<Longrightarrow> tool_call S \<lparr>mg_db = d1, mg_cache = c\<rparr> m \<Longrightarrow> tool_run S d (mg_db m)"

context tool_store
begin

lemma evolves_snd: "evolves f m \<Longrightarrow> tbl_evolves (f s) (f (snd (m s)))"
  by (cases "m s") (auto simp: evolves_def)

lemma call_evolves: "tool_call S m m' \<Longrightarrow> tbl_evolves (reqs_of m) (reqs_of m')"
  by (induction rule: tool_call.induct)
    (rule evolves_snd [where f = reqs_of] evolves_find_match evolves_multi_matches evolves_create_tool evolves_pending_tool evolves_confirm_tool
      evolves_invitation_tool evolves_different_tool evolves_cancel_tool evolves_responds_tool evolves_group_tool
      evolves_keeps [OF keeps_clarity] evolves_keeps [OF keeps_info(1)] evolves_keeps [OF keeps_info(2)] evolves_keeps [OF keeps_background])+

lemma tool_run_evolves: "tool_run S d d' \<Longrightarrow> tbl_evolves (rtbl d) (rtbl d')"
proof (induction rule: tool_run.induct)
  case (tool_step d d1 c m)
  with call_evolves [OF tool_step.hyps(2)] show ?case by (auto intro: tbl_evolves_trans)
qed (rule tbl_evolves_refl)

lemma exclusion:
  assumes "get_users_to_exclude S uid m = (res, m')"
    and 1: "tb_select rapi (\<lambda>r. cr_initiator r = uid \<and> active_status (cr_status r)) (mg_db m) = (Inr rs, d1)"
    and 2: "tb_select rapi (\<lambda>r. cr_target r = uid \<and> active_status (cr_status r)) d1 = (Inr qs, d2)"
  shows "\<exists>us. res = Inr us \<and> set us = {u. u \<noteq> [] \<and> (\<exists>r \<in> ran (reqs_of m). active_status (cr_status r)
      \<and> (cr_initiator r = uid \<and> cr_target r = u \<or> cr_target r = uid \<and> cr_initiator r = u))}"
proof -
  let ?P = "\<lambda>r. cr_initiator r = uid \<and> active_status (cr_status r)"
  let ?Q = "\<lambda>r. cr_target r = uid \<and> active_status (cr_status r)"

  have "set rs = matching ?P (reqs_of m)" using reqs.select_ok [OF 1] by simp
  moreover have "set qs = matching ?Q (reqs_of m)" using reqs.select_ok [OF 2] reqs.select_frame [OF 1] by simp
  moreover have "res = Inr (remdups (filter (\<lambda>u. u \<noteq> []) (map cr_target rs @ map cr_initiator qs)))"
    using assms(1) 1 2 by (simp add: get_users_to_exclude_def io_bind_def io_catch_def on_db_def)
  ultimately show ?thesis by (auto simp: matching_def)
qed

end

end
