(* ===== verification/Job_Table.thy ===== *)
theory Job_Table
  imports Frank_Prelude
begin

text \<open>
  Job tables in Postgres, as the follow-up, summary and outreach jobs have them: one row per key, a
  status, a time to run, and a claim by a worker. The SQL functions of the tables share their text;
  what differs is a parameter here, and each table's own theory fills it in. A table is a list of
  rows with distinct keys; \<open>now()\<close> is an input. Times are in microseconds, the resolution of both
  the database and Python.
\<close>

section \<open>Rows\<close>

text \<open>\<open>JSkipped\<close> is a status of the outreach jobs only.\<close>

datatype job_status = JQueued | JRunning | JDone | JFailed | JSkipped

record job =
  jb_key :: string
  jb_status :: job_status
  jb_run_after :: int
  jb_attempts :: int
  jb_error :: "string option"
  jb_claimed_by :: "string option"
  jb_claimed_at :: "int option"

text \<open>A job about the newest message of a chat.\<close>

record mjob = job +
  mj_last_at :: int
  mj_last_id :: string

definition find_job :: "string \<Rightarrow> 'a job_scheme list \<Rightarrow> 'a job_scheme option" where
  "find_job key t = find (\<lambda>j. jb_key j = key) t"

definition update_where :: "('a job_scheme \<Rightarrow> bool) \<Rightarrow> ('a job_scheme \<Rightarrow> 'a job_scheme) \<Rightarrow> 'a job_scheme list \<Rightarrow> 'a job_scheme list" where
  "update_where P f t = map (\<lambda>j. if P j then f j else j) t"

definition secs :: "int \<Rightarrow> int" where
  "secs n = 1000000 * n"

text \<open>\<open>x or d\<close> for an integer\<close>

definition or_default :: "int \<Rightarrow> int \<Rightarrow> int" where
  "or_default x d = (if x = 0 then d else x)"

section \<open>Claims\<close>

text \<open>The claim of a worker on the rows that are due, those of the smallest \<open>run_after\<close> first. The rows
another transaction has locked are not seen.\<close>

definition take_claim :: "int \<Rightarrow> string \<Rightarrow> 'a job_scheme \<Rightarrow> 'a job_scheme" where
  "take_claim now worker j = j\<lparr>jb_status := JRunning, jb_claimed_by := Some worker, jb_claimed_at := Some now\<rparr>"

definition claim_rows :: "('a job_scheme \<Rightarrow> bool) \<Rightarrow> int \<Rightarrow> ('a job_scheme \<Rightarrow> bool) \<Rightarrow> string \<Rightarrow> int \<Rightarrow> 'a job_scheme list
    \<Rightarrow> 'a job_scheme list \<times> 'a job_scheme list" where
  "claim_rows due now locked worker limit t =
     (let chosen = map jb_key (take (nat limit) (sort_key jb_run_after (filter (\<lambda>j. due j \<and> \<not> locked j) t)));
          t' = update_where (\<lambda>j. jb_key j \<in> set chosen) (take_claim now worker) t
      in (filter (\<lambda>j. jb_key j \<in> set chosen) t', t'))"

text \<open>The message jobs that are due: queued ones whose time has come, and running ones whose worker has
been silent. (A comparison with a null \<open>claimed_at\<close> is null.)\<close>

definition claimable :: "int \<Rightarrow> int \<Rightarrow> 'a job_scheme \<Rightarrow> bool" where
  "claimable now stale j \<longleftrightarrow>
     (let old = (case jb_claimed_at j of None \<Rightarrow> None | Some c \<Rightarrow> Some (c \<le> now - stale)) in
      jb_status j = JQueued \<and> jb_run_after j \<le> now \<and> (old = None \<or> old = Some True)
    \<or> jb_status j = JRunning \<and> old = Some True)"

definition held_by :: "string \<Rightarrow> string \<Rightarrow> 'a job_scheme \<Rightarrow> bool" where
  "held_by key worker j \<longleftrightarrow> jb_key j = key \<and> jb_claimed_by j = Some worker"

definition release_row :: "'a job_scheme \<Rightarrow> 'a job_scheme" where
  "release_row j = j\<lparr>jb_status := JQueued, jb_claimed_by := None, jb_claimed_at := None\<rparr>"

section \<open>Message jobs\<close>

text \<open>
  Scheduling a message: insert a row, or on conflict update it. \<open>clear\<close> resets the columns that only
  this table has when the message is newer, and \<open>fresh\<close> is a new row.
\<close>

definition reschedule_with :: "('a mjob_scheme \<Rightarrow> 'a mjob_scheme) \<Rightarrow> int \<Rightarrow> string \<Rightarrow> int \<Rightarrow> 'a mjob_scheme \<Rightarrow> 'a mjob_scheme" where
  "reschedule_with clear at event window j =
     (let newer = (mj_last_at j \<le> at);
          status = (if jb_status j = JRunning then JRunning else JQueued)
      in if newer
         then clear (j\<lparr>mj_last_at := at, mj_last_id := event, jb_run_after := at + window, jb_attempts := 0,
                jb_error := None, jb_status := status\<rparr>)
         else j\<lparr>jb_status := status\<rparr>)"

definition schedule_with :: "('a mjob_scheme \<Rightarrow> 'a mjob_scheme) \<Rightarrow> 'a mjob_scheme \<Rightarrow> string \<Rightarrow> int \<Rightarrow> string \<Rightarrow> int
    \<Rightarrow> 'a mjob_scheme list \<Rightarrow> 'a mjob_scheme \<times> 'a mjob_scheme list" where
  "schedule_with clear fresh key at event window t = (case find_job key t of
     None \<Rightarrow> (let j = fresh\<lparr>jb_key := key, jb_status := JQueued, jb_run_after := at + window, jb_attempts := 0, jb_error := None,
                      jb_claimed_by := None, jb_claimed_at := None, mj_last_at := at, mj_last_id := event\<rparr> in (j, t @ [j]))
   | Some j \<Rightarrow> (reschedule_with clear at event window j,
                update_where (\<lambda>x. jb_key x = key) (reschedule_with clear at event window) t))"

text \<open>Completing a job: done if it is still about the expected message (then \<open>fin\<close> fills the table's own
columns), else queued again.\<close>

definition completed_with :: "('a mjob_scheme \<Rightarrow> 'a mjob_scheme) \<Rightarrow> string \<Rightarrow> 'a mjob_scheme \<Rightarrow> 'a mjob_scheme" where
  "completed_with fin expected j =
     (if mj_last_id j = expected
      then fin (j\<lparr>jb_status := JDone, jb_attempts := 0, jb_error := None, jb_claimed_by := None, jb_claimed_at := None\<rparr>)
      else j\<lparr>jb_status := JQueued, jb_claimed_by := None, jb_claimed_at := None\<rparr>)"

definition complete_with :: "('a mjob_scheme \<Rightarrow> 'a mjob_scheme) \<Rightarrow> string \<Rightarrow> string \<Rightarrow> string \<Rightarrow> 'a mjob_scheme list
    \<Rightarrow> 'a mjob_scheme option \<times> 'a mjob_scheme list" where
  "complete_with fin key worker expected t =
     (map_option (completed_with fin expected) (find (held_by key worker) t),
      update_where (held_by key worker) (completed_with fin expected) t)"

definition failed_job :: "int \<Rightarrow> string \<Rightarrow> string \<Rightarrow> int \<Rightarrow> int \<Rightarrow> 'a mjob_scheme \<Rightarrow> 'a mjob_scheme" where
  "failed_job now expected error backoff max_attempts j =
     (if mj_last_id j = expected
      then j\<lparr>jb_attempts := jb_attempts j + 1, jb_error := Some (take 1800 error),
             jb_status := (if max_attempts \<le> jb_attempts j + 1 then JFailed else JQueued),
             jb_run_after := max (jb_run_after j) (now + backoff), jb_claimed_by := None, jb_claimed_at := None\<rparr>
      else j\<lparr>jb_status := JQueued, jb_claimed_by := None, jb_claimed_at := None\<rparr>)"

definition fail_job_sql :: "int \<Rightarrow> string \<Rightarrow> string \<Rightarrow> string \<Rightarrow> string \<Rightarrow> int \<Rightarrow> int \<Rightarrow> 'a mjob_scheme list
    \<Rightarrow> 'a mjob_scheme option \<times> 'a mjob_scheme list" where
  "fail_job_sql now key worker expected error backoff max_attempts t =
     (map_option (failed_job now expected error backoff max_attempts) (find (held_by key worker) t),
      update_where (held_by key worker) (failed_job now expected error backoff max_attempts) t)"

section \<open>The client methods\<close>

text \<open>
  The clamps of the arguments; \<open>dflt\<close> is the default of a table. \<open>up\<close> says whether the database answers;
  an error gives None, False or the empty list. The functions that return a row return a row of
  nulls, \<open>Some None\<close>, when they changed none.
\<close>

definition rpc_schedule :: "('a mjob_scheme \<Rightarrow> 'a mjob_scheme) \<Rightarrow> 'a mjob_scheme \<Rightarrow> int \<Rightarrow> bool \<Rightarrow> string \<Rightarrow> int \<Rightarrow> string \<Rightarrow> int
    \<Rightarrow> 'a mjob_scheme list \<Rightarrow> 'a mjob_scheme option \<times> 'a mjob_scheme list" where
  "rpc_schedule clear fresh dflt up key at event minutes t =
     (if \<not> up then (None, t)
      else (case schedule_with clear fresh key at event (secs (60 * max 1 (or_default minutes dflt))) t of (j, t') \<Rightarrow> (Some j, t')))"

definition rpc_claim :: "int \<Rightarrow> bool \<Rightarrow> int \<Rightarrow> ('a job_scheme \<Rightarrow> bool) \<Rightarrow> string \<Rightarrow> int \<Rightarrow> int \<Rightarrow> 'a job_scheme list
    \<Rightarrow> 'a job_scheme list \<times> 'a job_scheme list" where
  "rpc_claim dflt up now locked worker max_jobs stale_minutes t =
     (if \<not> up then ([], t)
      else claim_rows (claimable now (secs (60 * max 1 (or_default stale_minutes dflt)))) now locked worker
             (max 1 (min (or_default max_jobs 5) 50)) t)"

definition rpc_release :: "bool \<Rightarrow> string \<Rightarrow> string \<Rightarrow> 'a job_scheme list \<Rightarrow> bool \<times> 'a job_scheme list" where
  "rpc_release up key worker t =
     (if \<not> up then (False, t)
      else (find (held_by key worker) t \<noteq> None, update_where (held_by key worker) release_row t))"

definition rpc_complete :: "('a mjob_scheme \<Rightarrow> 'a mjob_scheme) \<Rightarrow> bool \<Rightarrow> string \<Rightarrow> string \<Rightarrow> string \<Rightarrow> 'a mjob_scheme list
    \<Rightarrow> 'a mjob_scheme option option \<times> 'a mjob_scheme list" where
  "rpc_complete fin up key worker expected t =
     (if \<not> up then (None, t) else (case complete_with fin key worker expected t of (row, t') \<Rightarrow> (Some row, t')))"

definition rpc_fail :: "bool \<Rightarrow> int \<Rightarrow> string \<Rightarrow> string \<Rightarrow> string \<Rightarrow> string \<Rightarrow> int \<Rightarrow> int \<Rightarrow> 'a mjob_scheme list
    \<Rightarrow> 'a mjob_scheme option option \<times> 'a mjob_scheme list" where
  "rpc_fail up now key worker expected error backoff max_attempts t =
     (if \<not> up then (None, t)
      else (case fail_job_sql now key worker expected (take 1800 error) (secs (max 5 (or_default backoff 60)))
            (max 1 (or_default max_attempts 6)) t of (row, t') \<Rightarrow> (Some row, t')))"

text \<open>\<open>_compute_backoff_seconds\<close> and \<open>compute_backoff_seconds\<close>: doubled from a base up to a cap.\<close>

definition backoff_from :: "int \<Rightarrow> int \<Rightarrow> int \<Rightarrow> int" where
  "backoff_from base cap attempts = min cap (base * 2 ^ nat (max 0 attempts))"

section \<open>Facts about rows\<close>

lemma keys_update_where [simp]:
  "(\<And>j. jb_key (f j) = jb_key j) \<Longrightarrow> map jb_key (update_where P f t) = map jb_key t"
  by (simp add: update_where_def)

lemma set_update_where: "set (update_where P f t) = (\<lambda>j. if P j then f j else j) ` set t"
  by (simp add: update_where_def)

lemma in_update: "x \<in> set t \<Longrightarrow> P x \<Longrightarrow> f x \<in> set (update_where P f t)"
  by (auto simp: set_update_where)

lemma key_frame [simp]:
  "jb_key (take_claim now worker j) = jb_key j" "jb_key (release_row j) = jb_key j"
  "jb_key (failed_job now e er b m k) = jb_key k"
  by (simp_all add: take_claim_def release_row_def failed_job_def)

lemma backoff_bounds: "0 < base \<Longrightarrow> base \<le> cap \<Longrightarrow> base \<le> backoff_from base cap n \<and> backoff_from base cap n \<le> cap"
  by (simp add: backoff_from_def)

text \<open>A claim takes only rows that are due and not locked, at most as many as asked for, and leaves the
others as they were.\<close>

lemma claim_rows_exclusive:
  assumes "claim_rows due now locked worker limit t = (got, t')" "distinct (map jb_key t)"
  shows "\<forall>j \<in> set got. \<exists>j0 \<in> set t. due j0 \<and> \<not> locked j0 \<and> j = take_claim now worker j0"
    and "length got \<le> nat limit"
    and "\<forall>j0 \<in> set t. \<not> due j0 \<or> locked j0 \<longrightarrow> j0 \<in> set t'"
proof -
  define chosen where "chosen = take (nat limit) (sort_key jb_run_after (filter (\<lambda>j. due j \<and> \<not> locked j) t))"
  have chosen: "j \<in> set t \<and> due j \<and> \<not> locked j" if "j \<in> set chosen" for j
    using that set_take_subset unfolding chosen_def by fastforce
  have t': "t' = update_where (\<lambda>j. jb_key j \<in> jb_key ` set chosen) (take_claim now worker) t"
    and got: "got = filter (\<lambda>j. jb_key j \<in> jb_key ` set chosen) t'"
    using assms(1) by (auto simp: claim_rows_def Let_def chosen_def)
  have inj: "j = k" if "j \<in> set t" "k \<in> set t" "jb_key j = jb_key k" for j k
    using assms(2) that by (simp add: distinct_map inj_on_def)
  have mem: "jb_key j \<in> jb_key ` set chosen \<longleftrightarrow> j \<in> set chosen" if "j \<in> set t" for j
    using that chosen inj by blast
  show "\<forall>j \<in> set got. \<exists>j0 \<in> set t. due j0 \<and> \<not> locked j0 \<and> j = take_claim now worker j0"
    using mem chosen by (auto simp: got t' set_update_where)
  have "map jb_key t' = map jb_key t" unfolding t' by simp
  then have "distinct (map jb_key got)" using assms(2) unfolding got by (simp add: distinct_map_filter)
  moreover have "jb_key ` set got \<subseteq> jb_key ` set chosen" unfolding got by auto
  ultimately have "length got \<le> length chosen"
    by (metis (no_types, lifting) card_mono distinct_card finite_imageI finite_set card_image_le length_map list.set_map order_trans card_length)
  also have "length chosen \<le> nat limit" by (simp add: chosen_def)
  finally show "length got \<le> nat limit" .
  show "\<forall>j0 \<in> set t. \<not> due j0 \<or> locked j0 \<longrightarrow> j0 \<in> set t'"
  proof (intro ballI impI)
    fix j0 assume "j0 \<in> set t" "\<not> due j0 \<or> locked j0"
    then show "j0 \<in> set t'" using mem chosen unfolding t' set_update_where by force
  qed
qed

end
