(* ===== verification/Message_Jobs.thy ===== *)
theory Message_Jobs
  imports Job_Table
begin

text \<open>
  The runs of a table of message jobs, with any workers and any number of messages, and what holds of
  its rows. The locale \<open>message_jobs\<close> asks of a table's own columns that changing them leaves the
  others alone; the tables of the follow-ups and of the summaries meet it.
\<close>

section \<open>Runs\<close>

text \<open>
  \<open>jr_last\<close> is the newest scheduled message of each key (the later call wins among equal times);
  \<open>jr_settled\<close> are the pairs of key and message for which a worker called complete or fail.
\<close>

record 'a jrun =
  jr_table :: "'a mjob_scheme list"
  jr_last :: "string \<rightharpoonup> int \<times> string"
  jr_settled :: "(string \<times> string) set"

definition newest_of :: "int \<Rightarrow> string \<Rightarrow> (int \<times> string) option \<Rightarrow> int \<times> string" where
  "newest_of at event old = (case old of None \<Rightarrow> (at, event) | Some (t, i) \<Rightarrow> if t \<le> at then (at, event) else (t, i))"

text \<open>A function on rows that changes only a table's own columns.\<close>

definition own_columns :: "('a mjob_scheme \<Rightarrow> 'a mjob_scheme) \<Rightarrow> bool" where
  "own_columns f \<longleftrightarrow> (\<forall>j. jb_key (f j) = jb_key j \<and> jb_status (f j) = jb_status j \<and> jb_claimed_by (f j) = jb_claimed_by j
     \<and> mj_last_at (f j) = mj_last_at j \<and> mj_last_id (f j) = mj_last_id j)"

inductive job_step :: "('a mjob_scheme \<Rightarrow> 'a mjob_scheme) \<Rightarrow> 'a mjob_scheme \<Rightarrow> 'a jrun \<Rightarrow> 'a jrun \<Rightarrow> bool"
  for clear fresh where
  js_schedule: "job_step clear fresh r (r\<lparr>jr_table := snd (rpc_schedule clear fresh d True key at event minutes (jr_table r)),
     jr_last := (jr_last r)(key \<mapsto> newest_of at event (jr_last r key))\<rparr>)"
| js_claim: "job_step clear fresh r (r\<lparr>jr_table := snd (rpc_claim d up now locked worker m stale (jr_table r))\<rparr>)"
| js_release: "job_step clear fresh r (r\<lparr>jr_table := snd (rpc_release up key worker (jr_table r))\<rparr>)"
| js_complete: "own_columns fin \<Longrightarrow>
     job_step clear fresh r (r\<lparr>jr_table := snd (rpc_complete fin up key worker expected (jr_table r)),
     jr_settled := insert (key, expected) (jr_settled r)\<rparr>)"
| js_fail: "job_step clear fresh r (r\<lparr>jr_table := snd (rpc_fail up now key worker expected error b m (jr_table r)),
     jr_settled := insert (key, expected) (jr_settled r)\<rparr>)"

inductive job_run :: "('a mjob_scheme \<Rightarrow> 'a mjob_scheme) \<Rightarrow> 'a mjob_scheme \<Rightarrow> 'a jrun \<Rightarrow> 'a jrun \<Rightarrow> bool"
  for clear fresh where
  jr_none: "job_run clear fresh r r"
| jr_step: "job_run clear fresh r q \<Longrightarrow> job_step clear fresh q p \<Longrightarrow> job_run clear fresh r p"

definition empty_jobs :: "'a jrun" where
  "empty_jobs = \<lparr>jr_table = [], jr_last = Map.empty, jr_settled = {}\<rparr>"

lemma job_run_trans: "job_run c f q p \<Longrightarrow> job_run c f r q \<Longrightarrow> job_run c f r p"
  by (induction rule: job_run.induct) (auto intro: jr_step)

text \<open>What holds of each row, and of the keys that have one.\<close>

definition row_ok :: "(string \<rightharpoonup> int \<times> string) \<Rightarrow> (string \<times> string) set \<Rightarrow> 'a mjob_scheme \<Rightarrow> bool" where
  "row_ok newest settled j \<longleftrightarrow> newest (jb_key j) = Some (mj_last_at j, mj_last_id j)
     \<and> jb_status j \<noteq> JSkipped
     \<and> (jb_status j \<in> {JDone, JFailed} \<longrightarrow> (jb_key j, mj_last_id j) \<in> settled)
     \<and> (jb_status j = JRunning \<longleftrightarrow> jb_claimed_by j \<noteq> None)"

definition jobs_ok :: "'a jrun \<Rightarrow> bool" where
  "jobs_ok r \<longleftrightarrow> distinct (map jb_key (jr_table r)) \<and> dom (jr_last r) = jb_key ` set (jr_table r)
     \<and> (\<forall>j \<in> set (jr_table r). row_ok (jr_last r) (jr_settled r) j)"

lemma jobs_ok_empty: "jobs_ok empty_jobs"
  by (simp add: jobs_ok_def empty_jobs_def)

text \<open>A change of rows that keeps each of them right keeps the table right.\<close>

lemma jobs_ok_update:
  assumes "jobs_ok r" "\<And>j. jb_key (f j) = jb_key j"
    and "\<And>j. j \<in> set (jr_table r) \<Longrightarrow> P j \<Longrightarrow> row_ok (jr_last r) (jr_settled r) j \<Longrightarrow> row_ok (jr_last r) s (f j)"
    and "jr_settled r \<subseteq> s"
  shows "jobs_ok (r\<lparr>jr_table := update_where P f (jr_table r), jr_settled := s\<rparr>)"
proof -
  have "jb_key ` set (update_where P f (jr_table r)) = jb_key ` set (jr_table r)"
    using keys_update_where [of f P "jr_table r"] assms(2) by (metis list.set_map)
  moreover have "row_ok (jr_last r) s j" if "row_ok (jr_last r) (jr_settled r) j" for j
    using that assms(4) by (auto simp: row_ok_def)
  ultimately show ?thesis using assms by (auto simp: jobs_ok_def set_update_where)
qed

lemma claim_ok: "jobs_ok r \<Longrightarrow> jobs_ok (r\<lparr>jr_table := snd (rpc_claim d up now locked worker m stale (jr_table r))\<rparr>)"
proof -
  assume ok: "jobs_ok r"
  have "jobs_ok (r\<lparr>jr_table := update_where P (take_claim now worker) (jr_table r), jr_settled := jr_settled r\<rparr>)" for P
    by (rule jobs_ok_update [OF ok]) (auto simp: row_ok_def take_claim_def)
  with ok show ?thesis by (simp add: rpc_claim_def claim_rows_def Let_def)
qed

lemma release_ok: "jobs_ok r \<Longrightarrow> jobs_ok (r\<lparr>jr_table := snd (rpc_release up key worker (jr_table r))\<rparr>)"
proof -
  assume ok: "jobs_ok r"
  have "jobs_ok (r\<lparr>jr_table := update_where (held_by key worker) release_row (jr_table r), jr_settled := jr_settled r\<rparr>)"
    by (rule jobs_ok_update [OF ok]) (auto simp: row_ok_def release_row_def)
  with ok show ?thesis by (simp add: rpc_release_def)
qed

lemma settle_more: "jobs_ok r \<Longrightarrow> jobs_ok (r\<lparr>jr_settled := insert x (jr_settled r)\<rparr>)"
  by (auto simp: jobs_ok_def row_ok_def)

lemma key_completed: "own_columns fin \<Longrightarrow> jb_key (completed_with fin e j) = jb_key j"
  by (simp add: completed_with_def own_columns_def)

lemma complete_ok:
  assumes "jobs_ok r" and fin: "own_columns fin"
  shows "jobs_ok (r\<lparr>jr_table := snd (rpc_complete fin up key worker expected (jr_table r)),
     jr_settled := insert (key, expected) (jr_settled r)\<rparr>)"
proof -
  have "jobs_ok (r\<lparr>jr_table := update_where (held_by key worker) (completed_with fin expected) (jr_table r),
      jr_settled := insert (key, expected) (jr_settled r)\<rparr>)"
    by (rule jobs_ok_update [OF assms(1)]) (use fin in \<open>auto simp: row_ok_def completed_with_def held_by_def own_columns_def\<close>)
  with settle_more [OF assms(1)] show ?thesis by (simp add: rpc_complete_def complete_with_def Let_def)
qed

lemma fail_ok:
  assumes "jobs_ok r"
  shows "jobs_ok (r\<lparr>jr_table := snd (rpc_fail up now key worker expected error b m (jr_table r)),
     jr_settled := insert (key, expected) (jr_settled r)\<rparr>)"
proof -
  have "jobs_ok (r\<lparr>jr_table := update_where (held_by key worker) (failed_job now expected error' b' m') (jr_table r),
      jr_settled := insert (key, expected) (jr_settled r)\<rparr>)" for b' m' error'
    by (rule jobs_ok_update [OF assms]) (auto simp: row_ok_def failed_job_def held_by_def)
  with settle_more [OF assms] show ?thesis by (simp add: rpc_fail_def fail_job_sql_def)
qed

section \<open>Moves of a table\<close>

text \<open>The table moves from \<open>t\<close> to \<open>t'\<close> by steps, whatever its history.\<close>

definition job_moves :: "('a mjob_scheme \<Rightarrow> 'a mjob_scheme) \<Rightarrow> 'a mjob_scheme \<Rightarrow> 'a mjob_scheme list \<Rightarrow> 'a mjob_scheme list \<Rightarrow> bool" where
  "job_moves clear fresh t t' \<longleftrightarrow> (\<forall>r. \<exists>q. job_run clear fresh (r\<lparr>jr_table := t\<rparr>) q \<and> jr_table q = t')"

lemma job_moves_refl: "job_moves c f t t"
  by (auto simp: job_moves_def intro!: exI jr_none)

lemma job_moves_trans: "job_moves c f t u \<Longrightarrow> job_moves c f u v \<Longrightarrow> job_moves c f t v"
proof -
  assume tu: "job_moves c f t u" and uv: "job_moves c f u v"
  show ?thesis unfolding job_moves_def
  proof
    fix r :: "'a jrun"
    obtain q where q: "job_run c f (r\<lparr>jr_table := t\<rparr>) q" "jr_table q = u" using tu by (auto simp: job_moves_def)
    then have "q\<lparr>jr_table := u\<rparr> = q" by auto
    then obtain p where "job_run c f q p" "jr_table p = v" using uv by (metis job_moves_def)
    then show "\<exists>q. job_run c f (r\<lparr>jr_table := t\<rparr>) q \<and> jr_table q = v" using job_run_trans q(1) by blast
  qed
qed

lemma one_move: "(\<And>r. jr_table r = t \<Longrightarrow> \<exists>q. job_step c f r q \<and> jr_table q = t') \<Longrightarrow> job_moves c f t t'"
proof -
  assume step: "\<And>r. jr_table r = t \<Longrightarrow> \<exists>q. job_step c f r q \<and> jr_table q = t'"
  show ?thesis unfolding job_moves_def
  proof
    fix r :: "'a jrun"
    obtain q where "job_step c f (r\<lparr>jr_table := t\<rparr>) q" "jr_table q = t'" using step [of "r\<lparr>jr_table := t\<rparr>"] by auto
    then show "\<exists>q. job_run c f (r\<lparr>jr_table := t\<rparr>) q \<and> jr_table q = t'" using jr_step [OF jr_none] by blast
  qed
qed

lemma schedule_moves: "job_moves c f t (snd (rpc_schedule c f d up key at event minutes t))"
proof (cases up)
  case True
  show ?thesis
    by (rule one_move) (rule exI, rule conjI, rule js_schedule [where d = d and key = key and at = at and event = event and minutes = minutes], simp add: True)
next
  case False
  then show ?thesis by (simp add: rpc_schedule_def job_moves_refl)
qed

lemma claim_moves: "job_moves c f t (snd (rpc_claim d up now locked worker m stale t))"
  by (rule one_move) (rule exI, rule conjI, rule js_claim [where d = d and up = up and now = now and locked = locked and worker = worker and m = m and stale = stale], simp)

lemma release_moves: "job_moves c f t (snd (rpc_release up key worker t))"
  by (rule one_move) (rule exI, rule conjI, rule js_release [where up = up and key = key and worker = worker], simp)

lemma complete_moves: "own_columns fin \<Longrightarrow> job_moves c f t (snd (rpc_complete fin up key worker expected t))"
  by (rule one_move) (rule exI, rule conjI, erule js_complete [where up = up and key = key and worker = worker and expected = expected], simp)

lemma fail_moves: "job_moves c f t (snd (rpc_fail up now key worker expected error b m t))"
  by (rule one_move) (rule exI, rule conjI, rule js_fail [where up = up and now = now and key = key and worker = worker and expected = expected and error = error and b = b and m = m], simp)

lemmas client_moves = schedule_moves claim_moves release_moves complete_moves fail_moves

text \<open>No key loses its row.\<close>

definition keys_stay :: "'a mjob_scheme list \<Rightarrow> 'a mjob_scheme list \<Rightarrow> bool" where
  "keys_stay t t' \<longleftrightarrow> jb_key ` set t \<subseteq> jb_key ` set t'"

lemma keys_stay_update: "(\<And>j. jb_key (f j) = jb_key j) \<Longrightarrow> keys_stay t (update_where P f t)"
  by (metis keys_stay_def keys_update_where list.set_map subset_refl)

lemma keys_stay_refl: "keys_stay t t" and keys_stay_trans: "keys_stay t u \<Longrightarrow> keys_stay u v \<Longrightarrow> keys_stay t v"
  by (auto simp: keys_stay_def)

lemma keys_stay_client:
  "keys_stay t (snd (rpc_claim d up now locked worker m stale t))"
  "keys_stay t (snd (rpc_release up key worker t))"
  "own_columns fin \<Longrightarrow> keys_stay t (snd (rpc_complete fin up key worker expected t))"
  "keys_stay t (snd (rpc_fail up now key worker expected error b m t))"
  by (simp_all add: rpc_claim_def claim_rows_def rpc_release_def rpc_complete_def complete_with_def rpc_fail_def fail_job_sql_def
      Let_def keys_stay_update keys_stay_refl key_completed)

lemma schedule_answers: "\<exists>row t'. rpc_schedule clear fresh d True key at event minutes t = (Some row, t')"
  by (simp add: rpc_schedule_def split_beta)

text \<open>After a message was scheduled, the key's job is about a message as new, and waiting or held.\<close>

lemma scheduled_job:
  assumes "own_columns clear"
  shows "\<exists>j \<in> set (snd (rpc_schedule clear fresh d True key at event minutes t)).
     jb_key j = key \<and> at \<le> mj_last_at j \<and> (jb_status j = JQueued \<or> jb_status j = JRunning)"
proof (cases "find_job key t")
  case None
  then show ?thesis by (auto simp: rpc_schedule_def schedule_with_def Let_def)
next
  case (Some j)
  then have j: "j \<in> set t" "jb_key j = key" by (auto simp: find_job_def dest: find_Some_in)
  let ?r = "reschedule_with clear at event (secs (60 * max 1 (or_default minutes d)))"
  have "?r j \<in> set (update_where (\<lambda>x. jb_key x = key) ?r t)" using in_update [OF j(1), of "\<lambda>x. jb_key x = key"] j(2) by simp
  moreover have "jb_key (?r j) = key \<and> at \<le> mj_last_at (?r j) \<and> (jb_status (?r j) = JQueued \<or> jb_status (?r j) = JRunning)"
    using assms j(2) by (auto simp: reschedule_with_def own_columns_def Let_def)
  ultimately show ?thesis using Some by (auto simp: rpc_schedule_def schedule_with_def)
qed

section \<open>Tables of message jobs\<close>

locale message_jobs =
  fixes clear :: "'a mjob_scheme \<Rightarrow> 'a mjob_scheme" and fresh :: "'a mjob_scheme"
  assumes clear: "own_columns clear"
begin

lemma key_reschedule: "jb_key (reschedule_with clear at event w j) = jb_key j"
  using clear by (simp add: reschedule_with_def own_columns_def Let_def)

lemma row_reschedule:
  assumes "row_ok newest settled x" "jb_key x = key"
  shows "row_ok (newest(key \<mapsto> newest_of at event (newest key))) settled (reschedule_with clear at event w x)"
  using assms clear
  by (cases "mj_last_at x \<le> at") (auto simp: row_ok_def reschedule_with_def newest_of_def own_columns_def Let_def)

lemma schedule_ok:
  assumes ok: "jobs_ok r"
  shows "jobs_ok (r\<lparr>jr_table := snd (rpc_schedule clear fresh d True key at event minutes (jr_table r)),
     jr_last := (jr_last r)(key \<mapsto> newest_of at event (jr_last r key))\<rparr>)"
proof (cases "find_job key (jr_table r)")
  case None
  then have out: "key \<notin> jb_key ` set (jr_table r)" by (auto simp: find_job_def find_None_iff)
  then have "jr_last r key = None" using ok by (auto simp: jobs_ok_def)
  with None ok out show ?thesis
    by (auto simp: rpc_schedule_def schedule_with_def jobs_ok_def row_ok_def newest_of_def Let_def)
next
  case (Some j)
  then have j: "j \<in> set (jr_table r)" "jb_key j = key" by (auto simp: find_job_def find_Some_iff)
  let ?w = "secs (60 * max 1 (or_default minutes d))"
  let ?t = "update_where (\<lambda>x. jb_key x = key) (reschedule_with clear at event ?w) (jr_table r)"
  let ?last = "(jr_last r)(key \<mapsto> newest_of at event (jr_last r key))"
  have "row_ok ?last (jr_settled r) x" if "row_ok (jr_last r) (jr_settled r) x" "jb_key x \<noteq> key" for x
    using that by (simp add: row_ok_def)
  moreover have "\<forall>x \<in> set (jr_table r). row_ok (jr_last r) (jr_settled r) x" using ok by (simp add: jobs_ok_def)
  ultimately have "\<forall>x \<in> set ?t. row_ok ?last (jr_settled r) x" unfolding set_update_where using row_reschedule by auto
  moreover have keys: "map jb_key ?t = map jb_key (jr_table r)" by (simp add: key_reschedule)
  moreover from keys have "jb_key ` set ?t = jb_key ` set (jr_table r)" by (metis list.set_map)
  ultimately show ?thesis using ok Some j
    by (auto simp: rpc_schedule_def schedule_with_def jobs_ok_def insert_absorb)
qed

lemma jobs_ok_step: "job_step clear fresh r q \<Longrightarrow> jobs_ok r \<Longrightarrow> jobs_ok q"
  by (induction rule: job_step.induct) (auto intro: claim_ok release_ok complete_ok fail_ok schedule_ok)

lemma jobs_ok_run: "job_run clear fresh r q \<Longrightarrow> jobs_ok r \<Longrightarrow> jobs_ok q"
  by (induction rule: job_run.induct) (auto intro: jobs_ok_step)

text \<open>A key for which a message was scheduled has one job, about the newest message, which is waiting,
held, or settled for that message.\<close>

lemma newest_kept:
  assumes "job_run clear fresh empty_jobs r" "jr_last r key = Some (at, event)"
  shows "\<exists>j. filter (\<lambda>x. jb_key x = key) (jr_table r) = [j] \<and> mj_last_at j = at \<and> mj_last_id j = event
    \<and> (jb_status j = JQueued \<or> jb_status j = JRunning \<and> jb_claimed_by j \<noteq> None \<or> (key, event) \<in> jr_settled r)"
proof -
  have ok: "jobs_ok r" by (rule jobs_ok_run [OF assms(1) jobs_ok_empty])
  then have dist: "distinct (map jb_key (jr_table r))" and "key \<in> jb_key ` set (jr_table r)"
    using assms(2) by (auto simp: jobs_ok_def)
  then obtain j where j: "j \<in> set (jr_table r)" "jb_key j = key" by auto
  have "filter (\<lambda>x. jb_key x = key) t = [j]" if "distinct (map jb_key t)" "j \<in> set t" for t
    using that j(2) by (induction t) (auto simp: filter_empty_conv, metis image_eqI)
  then have "filter (\<lambda>x. jb_key x = key) (jr_table r) = [j]" using dist j(1) by blast
  moreover have "row_ok (jr_last r) (jr_settled r) j" using ok j(1) by (simp add: jobs_ok_def)
  ultimately show ?thesis using assms(2) j(2)
    by (cases "jb_status j") (auto simp: row_ok_def)
qed

lemma keys_stay_schedule: "keys_stay t (snd (rpc_schedule clear fresh d up key at event minutes t))"
proof -
  have "keys_stay t (t @ [j])" for j by (auto simp: keys_stay_def)
  then show ?thesis
    by (auto simp: rpc_schedule_def schedule_with_def Let_def keys_stay_refl keys_stay_update key_reschedule split: option.splits)
qed

end

end
