(* ===== verification/Followup_Jobs.thy ===== *)
theory Followup_Jobs
  imports Message_Jobs
begin

text \<open>
  The job table of the group chat follow-ups: the SQL functions of
  migrations/group_chat_followup_v1.sql and the client methods of
  app/database/client/group_chat_followup.py. It is a table of message jobs (Message_Jobs), keyed by
  the chat GUID, with two columns of its own for the last nudge.
\<close>

section \<open>The table\<close>

record fjob = mjob +
  fj_nudge_at :: "int option"
  fj_nudge_id :: "string option"

type_synonym job_table = "fjob list"

text \<open>The nudge columns: null in a new row and after a newer message, filled by a completion.\<close>

definition clear_nudge :: "fjob \<Rightarrow> fjob" where
  "clear_nudge j = j\<lparr>fj_nudge_at := None, fj_nudge_id := None\<rparr>"

definition set_nudge :: "int \<Rightarrow> string \<Rightarrow> fjob \<Rightarrow> fjob" where
  "set_nudge sent_at nudge j = j\<lparr>fj_nudge_at := Some sent_at, fj_nudge_id := Some nudge\<rparr>"

definition fresh_fjob :: fjob where
  "fresh_fjob = \<lparr>jb_key = '''', jb_status = JQueued, jb_run_after = 0, jb_attempts = 0, jb_error = None, jb_claimed_by = None,
     jb_claimed_at = None, mj_last_at = 0, mj_last_id = '''', fj_nudge_at = None, fj_nudge_id = None\<rparr>"

section \<open>The client methods\<close>

definition db_schedule :: "bool \<Rightarrow> string \<Rightarrow> int \<Rightarrow> string \<Rightarrow> int \<Rightarrow> job_table \<Rightarrow> fjob option \<times> job_table" where
  "db_schedule up chat at event minutes t = rpc_schedule clear_nudge fresh_fjob 1440 up chat at event minutes t"

definition db_claim :: "bool \<Rightarrow> int \<Rightarrow> (fjob \<Rightarrow> bool) \<Rightarrow> string \<Rightarrow> int \<Rightarrow> int \<Rightarrow> job_table \<Rightarrow> fjob list \<times> job_table" where
  "db_claim up now locked worker max_jobs stale_minutes t = rpc_claim 20 up now locked worker max_jobs stale_minutes t"

definition db_release :: "bool \<Rightarrow> string \<Rightarrow> string \<Rightarrow> job_table \<Rightarrow> bool \<times> job_table" where
  "db_release up chat worker t = rpc_release up chat worker t"

definition db_complete :: "bool \<Rightarrow> string \<Rightarrow> string \<Rightarrow> string \<Rightarrow> int \<Rightarrow> string \<Rightarrow> job_table \<Rightarrow> fjob option option \<times> job_table" where
  "db_complete up chat worker expected sent_at nudge t = rpc_complete (set_nudge sent_at nudge) up chat worker expected t"

definition db_fail :: "bool \<Rightarrow> int \<Rightarrow> string \<Rightarrow> string \<Rightarrow> string \<Rightarrow> string \<Rightarrow> int \<Rightarrow> int \<Rightarrow> job_table \<Rightarrow> fjob option option \<times> job_table" where
  "db_fail up now chat worker expected error backoff max_attempts t =
     rpc_fail up now chat worker expected error backoff max_attempts t"

lemmas db_defs = db_schedule_def db_claim_def db_release_def db_complete_def db_fail_def

lemmas job_eval = db_defs rpc_schedule_def rpc_claim_def rpc_release_def rpc_complete_def rpc_fail_def schedule_with_def
  claim_rows_def complete_with_def find_job_def update_where_def or_default_def claimable_def take_claim_def
  reschedule_with_def completed_with_def held_by_def secs_def fresh_fjob_def clear_nudge_def set_nudge_def Let_def

lemma own_nudge: "own_columns clear_nudge" "own_columns (set_nudge at nudge)"
  by (simp_all add: own_columns_def clear_nudge_def set_nudge_def)

interpretation fjobs: message_jobs clear_nudge fresh_fjob
  by unfold_locales (rule own_nudge)

section \<open>Properties\<close>

text \<open>C7: No message is forgotten. Whatever messages are scheduled and whatever any workers claim,
complete, fail and release, with a failing database or not: a chat for which a message was scheduled
has exactly one job, the job is about the newest message, and unless it is waiting to be run or
held by a worker, a worker has completed or failed it for exactly that message.\<close>

theorem newest_message_is_not_forgotten:
  assumes "job_run clear_nudge fresh_fjob empty_jobs r" "jr_last r chat = Some (at, event)"
  shows "\<exists>j. filter (\<lambda>x. jb_key x = chat) (jr_table r) = [j] \<and> mj_last_at j = at \<and> mj_last_id j = event
    \<and> (jb_status j = JQueued \<or> jb_status j = JRunning \<and> jb_claimed_by j \<noteq> None \<or> (chat, event) \<in> jr_settled r)"
  by (rule fjobs.newest_kept [OF assms])

text \<open>A message is scheduled, claimed, and a second one comes before the first job completes.\<close>

definition example_jobs :: "unit fjob_ext jrun" where
  "example_jobs = (let t1 = snd (db_schedule True ''c'' 0 ''m1'' 1 []);
       t2 = snd (db_claim True 60000000 (\<lambda>_. False) ''w'' 5 20 t1);
       t3 = snd (db_schedule True ''c'' 70 ''m2'' 1 t2);
       t4 = snd (db_complete True ''c'' ''w'' ''m1'' 75 ''n'' t3)
     in \<lparr>jr_table = t4, jr_last = [''c'' \<mapsto> (70, ''m2'')], jr_settled = {(''c'', ''m1'')}\<rparr>)"

lemma example_jobs_run: "job_run clear_nudge fresh_fjob empty_jobs example_jobs"
proof -
  define r1 :: "unit fjob_ext jrun" where "r1 = empty_jobs\<lparr>jr_table := snd (db_schedule True ''c'' 0 ''m1'' 1 []), jr_last := [''c'' \<mapsto> (0, ''m1'')]\<rparr>"
  define r2 where "r2 = r1\<lparr>jr_table := snd (db_claim True 60000000 (\<lambda>_. False) ''w'' 5 20 (jr_table r1))\<rparr>"
  define r3 where "r3 = r2\<lparr>jr_table := snd (db_schedule True ''c'' 70 ''m2'' 1 (jr_table r2)), jr_last := [''c'' \<mapsto> (70, ''m2'')]\<rparr>"
  have 1: "job_step clear_nudge fresh_fjob empty_jobs r1"
    using js_schedule [where clear = clear_nudge and fresh = fresh_fjob and r = empty_jobs and d = 1440 and key = "''c''" and at = 0
        and event = "''m1''" and minutes = 1] by (simp add: r1_def empty_jobs_def newest_of_def db_schedule_def)
  have 2: "job_step clear_nudge fresh_fjob r1 r2" unfolding r2_def db_claim_def by (rule js_claim)
  have 3: "job_step clear_nudge fresh_fjob r2 r3"
    using js_schedule [where clear = clear_nudge and fresh = fresh_fjob and r = r2 and d = 1440 and key = "''c''" and at = 70
        and event = "''m2''" and minutes = 1] by (simp add: r3_def r2_def r1_def newest_of_def db_schedule_def)
  have 4: "job_step clear_nudge fresh_fjob r3 example_jobs"
    using js_complete [OF own_nudge(2), where clear = clear_nudge and fresh = fresh_fjob and r = r3 and up = True and key = "''c''"
        and worker = "''w''" and expected = "''m1''" and at1 = 75 and nudge1 = "''n''"]
    by (simp add: example_jobs_def r3_def r2_def r1_def empty_jobs_def db_complete_def Let_def)
  show ?thesis by (rule jr_step [OF jr_step [OF jr_step [OF jr_step [OF jr_none 1] 2] 3] 4])
qed

lemma newest_message_is_not_forgotten_witness:
  "\<exists>j. jr_table example_jobs = [j] \<and> mj_last_id j = ''m2'' \<and> jb_status j = JQueued"
proof -
  have "jr_last example_jobs ''c'' = Some (70, ''m2'')" by (simp add: example_jobs_def Let_def)
  from newest_message_is_not_forgotten [OF example_jobs_run this] obtain j where
    j: "filter (\<lambda>x. jb_key x = ''c'') (jr_table example_jobs) = [j]" "mj_last_id j = ''m2''" by blast
  have "map jb_key (jr_table example_jobs) = [''c'']" "map jb_status (jr_table example_jobs) = [JQueued]"
    by (simp_all add: example_jobs_def job_eval)
  with j show ?thesis by (cases "jr_table example_jobs") (auto split: if_splits)
qed

text \<open>Claims are exclusive: a claim returns only jobs that were due and free, or whose holder has been
silent for the stale time, at most as many as asked for; each is then held by the claiming worker
with its message unchanged, and every other row stays as it was.\<close>

theorem claim_is_exclusive:
  assumes "db_claim True now locked worker m stale t = (got, t')" "distinct (map jb_key t)" "1 \<le> m"
  shows "(\<forall>j \<in> set got. \<exists>j0 \<in> set t. claimable now (secs (60 * max 1 (or_default stale 20))) j0 \<and> \<not> locked j0 \<and> j = take_claim now worker j0)
    \<and> int (length got) \<le> m
    \<and> (\<forall>j0 \<in> set t. \<not> claimable now (secs (60 * max 1 (or_default stale 20))) j0 \<or> locked j0 \<longrightarrow> j0 \<in> set t')"
proof -
  have "claim_rows (claimable now (secs (60 * max 1 (or_default stale 20)))) now locked worker (max 1 (min (or_default m 5) 50)) t = (got, t')"
    using assms(1) by (simp add: db_claim_def rpc_claim_def)
  note claim = claim_rows_exclusive [OF this assms(2)]
  have "int (length got) \<le> m" using claim(2) assms(3) by (auto simp: or_default_def)
  with claim(1,3) show ?thesis by blast
qed

lemma claim_is_exclusive_witness:
  "set (snd (db_schedule True ''c'' 100 ''m1'' 1 [])) \<subseteq> set (snd (db_claim True 0 (\<lambda>_. False) ''w'' 5 20 (snd (db_schedule True ''c'' 100 ''m1'' 1 []))))"
proof -
  let ?t = "snd (db_schedule True ''c'' 100 ''m1'' 1 [])"
  obtain got t' where claim: "db_claim True 0 (\<lambda>_. False) ''w'' 5 20 ?t = (got, t')" by (meson surj_pair)
  have "distinct (map jb_key ?t)" "\<forall>j0 \<in> set ?t. \<not> claimable 0 (secs (60 * max 1 (or_default 20 20))) j0"
    by (simp_all add: job_eval)
  with claim_is_exclusive [OF claim] claim show ?thesis by auto
qed

end
