(* ===== verification/Chunker.thy ===== *)
theory Chunker
  imports Frank_Prelude
begin

text \<open>
  The message chunker, app/utils/message_chunker.py. Text is a list of Unicode code points.
  The loop is stated over the function that finds the break, whose contract is the locale
  \<open>break_finder\<close>; \<open>find_break_index\<close> meets it.
\<close>

section \<open>Text\<close>

type_synonym ucs = "nat list"

text \<open>A literal as code points\<close>

definition utext :: "string \<Rightarrow> ucs" where
  "utext s = map of_char s"

text \<open>The code points for which \<open>str.isspace\<close> holds, which \<open>str.strip\<close> removes.\<close>

definition uspace :: "nat \<Rightarrow> bool" where
  "uspace c \<longleftrightarrow> (9 \<le> c \<and> c \<le> 13) \<or> (28 \<le> c \<and> c \<le> 32) \<or> c = 133 \<or> c = 160 \<or> c = 5760
     \<or> (8192 \<le> c \<and> c \<le> 8202) \<or> c = 8232 \<or> c = 8233 \<or> c = 8239 \<or> c = 8287 \<or> c = 12288"

definition trim_boundary :: "ucs \<Rightarrow> ucs" where
  "trim_boundary t = strip_by uspace t"

text \<open>\<open>text.rfind(sep, start, end)\<close>\<close>

definition rfind :: "ucs \<Rightarrow> ucs \<Rightarrow> nat \<Rightarrow> nat \<Rightarrow> nat option" where
  "rfind text sep start stop =
     (let is = filter (\<lambda>i. take (length sep) (drop i text) = sep) [start..<min stop (length text) + 1 - length sep]
      in if is = [] then None else Some (last is))"

text \<open>The separators in the order of preference, with what is added to the index: newline 10,
blank 32, full stop 46, exclamation mark 33, ellipsis 8230, semicolon 59, colon 58, comma 44.\<close>

definition separators :: "(ucs \<times> nat) list" where
  "separators =
     [([10, 10], 0), ([10], 0),
      ([46, 10], 1), ([33, 10], 1), ([8230, 10], 1), ([46, 32], 1), ([33, 32], 1), ([8230, 32], 1),
      ([59, 10], 1), ([58, 10], 1), ([44, 10], 1), ([59, 32], 1), ([58, 32], 1), ([44, 32], 1),
      ([32], 0)]"

fun search_window :: "(ucs \<times> nat) list \<Rightarrow> ucs \<Rightarrow> nat \<Rightarrow> nat \<Rightarrow> nat option" where
  "search_window [] text start stop = None"
| "search_window ((sep, add) # seps) text start stop = (case rfind text sep start stop of
     Some i \<Rightarrow> Some (i + add) | None \<Rightarrow> search_window seps text start stop)"

definition find_break_index :: "ucs \<Rightarrow> nat \<Rightarrow> nat" where
  "find_break_index text n =
     (if n = 0 then 0
      else if length text \<le> n then length text
      else (let min_idx = max 0 (min (n * 55 div 100) (n - 1)) in
        case search_window separators text min_idx (n + 1) of Some i \<Rightarrow> i
        | None \<Rightarrow> (case search_window separators text 0 (n + 1) of Some i \<Rightarrow> i | None \<Rightarrow> n)))"

definition ellipsis :: ucs where
  "ellipsis = [8230]"

definition truncate_text :: "ucs \<Rightarrow> nat \<Rightarrow> ucs" where
  "truncate_text text n =
     (if n = 0 then []
      else let s = trim_boundary text in
        if length s \<le> n then s
        else if n \<le> length ellipsis then take n ellipsis
        else (let cut_limit = n - length ellipsis;
                  i = find_break_index s cut_limit;
                  idx = (if i = 0 then cut_limit else i)
              in trim_boundary (rstrip_by uspace (take idx s) @ ellipsis)))"

text \<open>
  One turn of the loop: the piece and the rest. The rest of the fallback is taken from the rest
  already cut, as in the code.
\<close>

definition next_piece :: "(ucs \<Rightarrow> nat \<Rightarrow> nat) \<Rightarrow> nat \<Rightarrow> ucs \<Rightarrow> ucs \<times> ucs" where
  "next_piece brk n remaining =
     (let idx = brk remaining n;
          piece = trim_boundary (take idx remaining);
          rest = trim_boundary (drop idx remaining)
      in if piece = [] then (trim_boundary (take n rest), trim_boundary (drop n rest)) else (piece, rest))"

lemma length_trim: "length (trim_boundary t) \<le> length t"
  by (simp add: trim_boundary_def length_strip_by)

lemma trim_Nil [simp]: "trim_boundary [] = []"
  by (simp add: trim_boundary_def strip_by_def lstrip_by_def)

lemma next_piece_shorter:
  assumes "0 < n" "n < length remaining"
  shows "length (snd (next_piece brk n remaining)) < length remaining"
proof -
  let ?r = "trim_boundary (drop (brk remaining n) remaining)"
  have r: "length ?r \<le> length remaining" "brk remaining n \<noteq> 0 \<Longrightarrow> length ?r < length remaining"
    using length_trim [of "drop (brk remaining n) remaining"] assms by auto
  have "length (trim_boundary (drop n ?r)) \<le> length ?r - n" using length_trim [of "drop n ?r"] by simp
  with r assms show ?thesis
    by (cases "brk remaining n = 0") (auto simp: next_piece_def Let_def)
qed

text \<open>
  The loop; \<open>chunks\<close> are in order. The code enters it for positive limits only, which is what
  makes it end; \<open>n = 0\<close> is there for the totality of the definition.
\<close>

function chunk_loop :: "(ucs \<Rightarrow> nat \<Rightarrow> nat) \<Rightarrow> nat \<Rightarrow> int option \<Rightarrow> ucs list \<Rightarrow> ucs \<Rightarrow> ucs list" where
  "chunk_loop brk n max_chunks chunks remaining =
     (if remaining = [] then chunks
      else if length remaining \<le> n \<or> n = 0 then chunks @ [remaining]
      else let piece = fst (next_piece brk n remaining);
               rest = snd (next_piece brk n remaining)
           in (case max_chunks of
                 Some k \<Rightarrow> if k \<le> int (length chunks + 1)
                   then (if rest \<noteq> [] then chunks @ [truncate_text (piece @ [32] @ rest) n] else chunks @ [piece])
                   else chunk_loop brk n max_chunks (chunks @ [piece]) rest
               | None \<Rightarrow> chunk_loop brk n max_chunks (chunks @ [piece]) rest))"
  by pat_completeness auto
termination
  by (relation "measure (\<lambda>(brk, n, k, cs, r). length r)") (simp_all add: next_piece_shorter)

declare chunk_loop.simps [simp del]

definition chunk_message :: "ucs \<Rightarrow> int \<Rightarrow> int option \<Rightarrow> ucs list" where
  "chunk_message message max_length max_chunks =
     (let text = trim_boundary message; n = nat max_length in
      if text = [] then []
      else if max_length \<le> 0 then [text]
      else if length text \<le> n then [text]
      else if (case max_chunks of None \<Rightarrow> False | Some k \<Rightarrow> k \<le> 1) then [truncate_text text n]
      else if max_chunks = Some 2 then
        (let idx = find_break_index text n;
             left0 = trim_boundary (take idx text);
             right0 = trim_boundary (drop idx text);
             left = (if left0 = [] then trim_boundary (take n text) else left0);
             right = (if left0 = [] then trim_boundary (drop n text) else right0)
         in if right = [] then [left]
            else [left, if n < length right then truncate_text right n else right])
      else filter (\<lambda>c. c \<noteq> []) (chunk_loop find_break_index n max_chunks [] text))"

section \<open>Trimmed text\<close>

definition ink :: "ucs \<Rightarrow> ucs" where
  "ink t = filter (\<lambda>c. \<not> uspace c) t"

lemma ink_append [simp]: "ink (a @ b) = ink a @ ink b" by (simp add: ink_def)
lemma ink_Nil [simp]: "ink [] = []" by (simp add: ink_def)

lemma ink_lstrip: "ink (lstrip_by uspace t) = ink t"
  by (induction t) (simp_all add: lstrip_by_def ink_def)

lemma ink_rstrip: "ink (rstrip_by uspace t) = ink t"
  by (induction t rule: rev_induct) (simp_all add: ink_def)

lemma ink_trim [simp]: "ink (trim_boundary t) = ink t"
  by (simp add: trim_boundary_def strip_by_def ink_lstrip ink_rstrip)

definition trimmed :: "ucs \<Rightarrow> bool" where
  "trimmed t = stripped uspace t"

lemma trimmed_trim [simp]: "trimmed (trim_boundary t)"
  by (simp add: trimmed_def trim_boundary_def stripped_strip_by)

lemma trim_id: "trimmed t \<Longrightarrow> trim_boundary t = t"
  by (simp add: trimmed_def trim_boundary_def stripped_idem)

lemma trimmed_hd: "trimmed t \<Longrightarrow> t \<noteq> [] \<Longrightarrow> \<not> uspace (hd t)"
  by (auto simp: trimmed_def stripped_def)

lemma trim_empty_iff: "trim_boundary t = [] \<longleftrightarrow> ink t = []"
proof
  assume "ink t = []"
  then have "ink (trim_boundary t) = []" by simp
  then show "trim_boundary t = []"
    using trimmed_hd [OF trimmed_trim, of t] by (cases "trim_boundary t") (auto simp: ink_def split: if_splits)
qed (metis ink_Nil ink_trim)

lemma take_trimmed_ink: "trimmed t \<Longrightarrow> t \<noteq> [] \<Longrightarrow> 0 < i \<Longrightarrow> ink (take i t) \<noteq> []"
  using trimmed_hd [of t] by (cases t; cases i) (auto simp: ink_def)

lemma length_trim_take: "length (trim_boundary (take n t)) \<le> n"
  using length_trim [of "take n t"] by simp

section \<open>The break index\<close>

lemma rfind_Some:
  assumes "rfind text sep start stop = Some i"
  shows "i + length sep \<le> stop \<or> sep = []" "i + length sep \<le> length text + 1"
    "take (length sep) (drop i text) = sep"
proof -
  let ?found = "filter (\<lambda>i. take (length sep) (drop i text) = sep) [start..<min stop (length text) + 1 - length sep]"
  have "?found \<noteq> []" "i = last ?found" using assms by (simp_all add: rfind_def Let_def split: if_splits)
  then have "i \<in> set ?found" by (metis last_in_set)
  then show "i + length sep \<le> stop \<or> sep = []" "i + length sep \<le> length text + 1"
    "take (length sep) (drop i text) = sep" by auto
qed

text \<open>Every separator is a blank to be dropped, or ends in one that stays behind the cut.\<close>

definition good_separator :: "ucs \<times> nat \<Rightarrow> bool" where
  "good_separator x = (case x of (sep, add) \<Rightarrow> sep \<noteq> [] \<and> add < length sep \<and> (add = 0 \<longrightarrow> uspace (hd sep)))"

lemma separators_good: "\<forall>x \<in> set separators. good_separator x"
  by (simp add: separators_def good_separator_def uspace_def)

lemma search_window_bounds:
  "search_window seps t start (n + 1) = Some i \<Longrightarrow> \<forall>x \<in> set seps. good_separator x \<Longrightarrow> \<not> uspace (hd t) \<Longrightarrow>
   0 < i \<and> i \<le> n"
proof (induction seps t start "n + 1" rule: search_window.induct)
  case (2 sep add seps t start)
  show ?case
  proof (cases "rfind t sep start (n + 1)")
    case None
    with 2 show ?thesis by simp
  next
    case (Some j)
    have i: "i = j + add" using Some "2.prems"(1) by simp
    have good: "sep \<noteq> []" "add < length sep" "add = 0 \<longrightarrow> uspace (hd sep)"
      using "2.prems"(2) by (auto simp: good_separator_def)
    have "j + length sep \<le> n + 1" using rfind_Some(1) [OF Some] good(1) by simp
    then have "i \<le> n" using i good(2) by linarith
    moreover have "0 < i"
    proof (rule ccontr)
      assume "\<not> 0 < i"
      then have "j = 0" "add = 0" using i by auto
      then have "take (length sep) t = sep" using rfind_Some(3) [OF Some] by simp
      then have "hd t = hd sep" using good(1) by (metis hd_take length_greater_0_conv)
      with good(3) \<open>add = 0\<close> "2.prems"(3) show False by simp
    qed
    ultimately show ?thesis by simp
  qed
qed simp

lemma find_break_bounds:
  assumes "0 < n" "n < length t" "\<not> uspace (hd t)"
  shows "0 < find_break_index t n \<and> find_break_index t n \<le> n"
  using assms search_window_bounds [OF _ separators_good assms(3), of _ n]
  by (auto simp: find_break_index_def Let_def split: option.split)

lemma truncate_length: "length (truncate_text t n) \<le> n"
proof -
  let ?s = "trim_boundary t"
  have len: "length (trim_boundary (rstrip_by uspace (take i ?s) @ ellipsis)) \<le> i + 1" for i
    using length_trim [of "rstrip_by uspace (take i ?s) @ ellipsis"] length_rstrip_by [of uspace "take i ?s"]
    by (simp add: ellipsis_def)
  have brk: "find_break_index ?s (n - 1) \<le> n - 1" if "1 < n" "n < length ?s"
  proof -
    have "?s \<noteq> []" using that by auto
    then have "\<not> uspace (hd ?s)" by (rule trimmed_hd [OF trimmed_trim])
    with find_break_bounds [of "n - 1" ?s] that show ?thesis by simp
  qed
  define k where "k = find_break_index ?s (n - 1)"
  have long: "length (trim_boundary (rstrip_by uspace (take (if k = 0 then n - 1 else k) ?s) @ ellipsis)) \<le> n"
    if "1 < n" "n < length ?s"
  proof -
    from len [of "if k = 0 then n - 1 else k"] brk that show ?thesis by (auto simp: k_def split: if_splits)
  qed
  show ?thesis
  proof (cases "1 < n \<and> n < length ?s")
    case True
    with long show ?thesis by (auto simp: truncate_text_def Let_def k_def ellipsis_def split: if_splits)
  next
    case False
    then show ?thesis by (auto simp: truncate_text_def Let_def ellipsis_def)
  qed
qed

lemma truncate_trimmed: "trimmed (truncate_text t n)"
proof -
  have "trimmed []" "trimmed ellipsis" by (simp_all add: trimmed_def stripped_def ellipsis_def uspace_def)
  moreover have "take n ellipsis = [] \<or> take n ellipsis = ellipsis" by (cases n) (simp_all add: ellipsis_def)
  ultimately show ?thesis by (auto simp: truncate_text_def Let_def)
qed

text \<open>A chunk that can be sent.\<close>

definition fits :: "nat \<Rightarrow> ucs \<Rightarrow> bool" where
  "fits n c \<longleftrightarrow> c \<noteq> [] \<and> length c \<le> n \<and> trimmed c"

section \<open>The interface of the break finder\<close>

locale break_finder =
  fixes brk :: "ucs \<Rightarrow> nat \<Rightarrow> nat"
  assumes brk_bounds: "0 < n \<Longrightarrow> n < length t \<Longrightarrow> \<not> uspace (hd t) \<Longrightarrow> 0 < brk t n \<and> brk t n \<le> n"
begin

lemma next_piece_parts:
  assumes "trimmed t" "0 < n" "n < length t"
  shows "next_piece brk n t = (trim_boundary (take (brk t n) t), trim_boundary (drop (brk t n) t))"
    and "trim_boundary (take (brk t n) t) \<noteq> []"
    and "length (trim_boundary (take (brk t n) t)) \<le> n"
proof -
  have "t \<noteq> []" using assms by auto
  then have b: "0 < brk t n" "brk t n \<le> n" using brk_bounds [OF assms(2,3)] trimmed_hd [OF assms(1)] by auto
  show "trim_boundary (take (brk t n) t) \<noteq> []"
    using take_trimmed_ink [OF assms(1) \<open>t \<noteq> []\<close> b(1)] by (simp add: trim_empty_iff)
  then show "next_piece brk n t = (trim_boundary (take (brk t n) t), trim_boundary (drop (brk t n) t))"
    by (simp add: next_piece_def Let_def)
  show "length (trim_boundary (take (brk t n) t)) \<le> n" using length_trim_take [of "brk t n" t] b(2) by linarith
qed

lemma next_piece_ink:
  assumes "trimmed t" "0 < n" "n < length t"
  shows "ink (fst (next_piece brk n t)) @ ink (snd (next_piece brk n t)) = ink t"
  unfolding next_piece_parts(1) [OF assms] by (simp flip: ink_append)

lemma next_piece_trimmed:
  assumes "trimmed t" "0 < n" "n < length t"
  shows "trimmed (fst (next_piece brk n t))" "trimmed (snd (next_piece brk n t))"
    "fst (next_piece brk n t) \<noteq> []" "length (fst (next_piece brk n t)) \<le> n"
  using next_piece_parts [OF assms] by simp_all

lemma loop_fits:
  assumes "0 < n" "trimmed remaining" "\<forall>c \<in> set chunks. fits n c"
  shows "\<forall>c \<in> set (chunk_loop brk n k chunks remaining). c \<noteq> [] \<longrightarrow> fits n c"
  using assms
proof (induction remaining arbitrary: chunks rule: length_induct)
  case (1 remaining)
  show ?case
  proof (cases "length remaining \<le> n")
    case True
    with "1.prems" show ?thesis by (auto simp: chunk_loop.simps [of brk n k chunks remaining] fits_def)
  next
    case False
    then have long: "n < length remaining" by simp
    let ?p = "fst (next_piece brk n remaining)" and ?r = "snd (next_piece brk n remaining)"
    have p: "fits n ?p" and r: "trimmed ?r"
      using next_piece_trimmed [OF "1.prems"(2,1) long] by (simp_all add: fits_def)
    have "length ?r < length remaining" by (rule next_piece_shorter [OF "1.prems"(1) long])
    moreover have "\<forall>c \<in> set (chunks @ [?p]). fits n c" using "1.prems"(3) p by simp
    ultimately have IH: "\<forall>c \<in> set (chunk_loop brk n k (chunks @ [?p]) ?r). c \<noteq> [] \<longrightarrow> fits n c"
      using "1.IH" "1.prems"(1) r by blast
    show ?thesis
    proof (cases "\<exists>m. k = Some m \<and> m \<le> int (length chunks + 1)")
      case True
      with False p "1.prems"(1,3) truncate_length [of _ n] truncate_trimmed [of _ n] show ?thesis
        by (auto simp: chunk_loop.simps [of brk n k chunks remaining] Let_def fits_def)
    next
      case more: False
      with False "1.prems"(1) have "chunk_loop brk n k chunks remaining = chunk_loop brk n k (chunks @ [?p]) ?r \<or> remaining = []"
        by (auto simp: chunk_loop.simps [of brk n k chunks remaining] Let_def split: option.split)
      with IH long show ?thesis by auto
    qed
  qed
qed

lemma loop_ink:
  assumes "0 < n" "trimmed remaining"
  shows "concat (map ink (chunk_loop brk n None chunks remaining)) = concat (map ink chunks) @ ink remaining"
  using assms
proof (induction remaining arbitrary: chunks rule: length_induct)
  case (1 remaining)
  show ?case
  proof (cases "length remaining \<le> n")
    case True
    then show ?thesis by (simp add: chunk_loop.simps [of brk n None chunks remaining])
  next
    case False
    then have long: "n < length remaining" by simp
    let ?p = "fst (next_piece brk n remaining)" and ?r = "snd (next_piece brk n remaining)"
    have "trimmed ?r" by (rule next_piece_trimmed(2) [OF "1.prems"(2,1) long])
    with "1.IH" next_piece_shorter [OF "1.prems"(1) long] "1.prems"(1)
    have "concat (map ink (chunk_loop brk n None (chunks @ [?p]) ?r)) = concat (map ink (chunks @ [?p])) @ ink ?r" by blast
    with next_piece_ink [OF "1.prems"(2,1) long] long "1.prems"(1) show ?thesis
      by (auto simp: chunk_loop.simps [of brk n None chunks remaining] Let_def)
  qed
qed

lemma loop_count:
  assumes "0 < n" "int (length chunks) < k"
  shows "int (length (chunk_loop brk n (Some k) chunks remaining)) \<le> k"
  using assms
proof (induction remaining arbitrary: chunks rule: length_induct)
  case (1 remaining)
  show ?case
  proof (cases "length remaining \<le> n \<or> k \<le> int (length chunks + 1)")
    case True
    with "1.prems" show ?thesis by (auto simp: chunk_loop.simps [of brk n "Some k" chunks remaining] Let_def)
  next
    case False
    then have long: "n < length remaining" and "int (length (chunks @ [fst (next_piece brk n remaining)])) < k" by auto
    with "1.IH" next_piece_shorter [OF "1.prems"(1) long, of brk] "1.prems"(1)
    have "int (length (chunk_loop brk n (Some k) (chunks @ [fst (next_piece brk n remaining)]) (snd (next_piece brk n remaining)))) \<le> k"
      by blast
    with False "1.prems" show ?thesis by (auto simp: chunk_loop.simps [of brk n "Some k" chunks remaining] Let_def)
  qed
qed

end

interpretation natural: break_finder find_break_index
  by unfold_locales (rule find_break_bounds)

section \<open>Properties\<close>

lemma chunk_fits:
  assumes "0 < max_length" "c \<in> set (chunk_message message max_length max_chunks)"
  shows "c \<noteq> [] \<and> int (length c) \<le> max_length \<and> trim_boundary c = c"
proof -
  let ?n = "nat max_length" and ?t = "trim_boundary message"
  have n: "0 < ?n" using assms(1) by simp
  have tr: "truncate_text x ?n \<noteq> []" if "?n < length (trim_boundary x)" for x
  proof -
    have "trim_boundary (l @ ellipsis) \<noteq> []" for l
      by (simp add: trim_empty_iff ink_def ellipsis_def uspace_def)
    with that n show ?thesis by (auto simp: truncate_text_def Let_def ellipsis_def)
  qed
  have "fits ?n c"
  proof (cases "?n < length ?t")
    case False
    with assms show ?thesis by (auto simp: chunk_message_def fits_def Let_def split: if_splits)
  next
    case long: True
    then have t: "?t \<noteq> []" by auto
    define idx where "idx = find_break_index ?t ?n"
    note parts = natural.next_piece_parts [OF trimmed_trim n long, folded idx_def]
    show ?thesis
    proof (cases "max_chunks = Some 2")
      case True
      with assms long t parts(2) have "c = trim_boundary (take idx ?t) \<or> c = trim_boundary (drop idx ?t) \<and> c \<noteq> [] \<and> length c \<le> ?n
          \<or> c = truncate_text (trim_boundary (drop idx ?t)) ?n \<and> ?n < length (trim_boundary (drop idx ?t))"
        by (auto simp: chunk_message_def Let_def idx_def split: if_splits)
      with parts tr [of "trim_boundary (drop idx ?t)"] truncate_length [of _ ?n] truncate_trimmed [of _ ?n] show ?thesis
        by (auto simp: fits_def trim_id)
    next
      case False
      with assms long t have "c = truncate_text ?t ?n \<or> c \<noteq> [] \<and> c \<in> set (chunk_loop find_break_index ?n max_chunks [] ?t)"
        by (auto simp: chunk_message_def Let_def split: if_splits)
      with natural.loop_fits [OF n trimmed_trim, of "[]"] tr [of ?t] long truncate_length [of _ ?n] truncate_trimmed [of _ ?n]
      show ?thesis by (auto simp: fits_def trim_id)
    qed
  qed
  with assms(1) show ?thesis by (auto simp: fits_def trim_id)
qed

text \<open>C16: Every chunk can be sent: for a positive limit all chunks are not empty, at most \<open>max_length\<close>
code points long and have no blanks at their ends, whatever the text and the maximal number of chunks.\<close>

theorem chunks_fit:
  assumes "0 < max_length" "c \<in> set (chunk_message message max_length max_chunks)"
  shows "c \<noteq> [] \<and> int (length c) \<le> max_length \<and> trim_boundary c = c"
  using assms by (rule chunk_fits)

lemmas chunk_eval = chunk_message_def chunk_loop.simps next_piece_def find_break_index_def separators_def rfind_def
  trim_boundary_def strip_by_def lstrip_by_def rstrip_by_def uspace_def

lemma example_chunks: "chunk_message [72, 46, 32, 89, 111] 3 None = [[72, 46], [89, 111]]"
  by (simp add: chunk_eval)

lemma chunks_fit_witness:
  "[72, 46] \<in> set (chunk_message [72, 46, 32, 89, 111] 3 None) \<and> trim_boundary [72, 46] = [72, 46]"
  using chunks_fit [of 3 "[72, 46]" "[72, 46, 32, 89, 111]" None] by (simp add: example_chunks)

text \<open>Nothing of the text is lost: without a maximal number of chunks, the chunks in their order
hold exactly the characters of the message, up to white space.\<close>

theorem chunks_lose_nothing:
  "concat (map ink (chunk_message message max_length None)) = ink message"
proof -
  let ?t = "trim_boundary message" and ?n = "nat max_length"
  have drop_empty: "concat (map ink (filter (\<lambda>c. c \<noteq> []) cs)) = concat (map ink cs)" for cs
    by (induction cs) auto
  have "concat (map ink (chunk_loop find_break_index ?n None [] ?t)) = ink message" if "0 < ?n"
    using natural.loop_ink [OF that trimmed_trim, of "[]" message] by simp
  then show ?thesis
    by (auto simp: chunk_message_def Let_def drop_empty trim_empty_iff)
qed

text \<open>The number of chunks is bounded: with \<open>max_chunks\<close> at least 1 and a positive limit there are at
most that many, and a message that is not blank gives at least one.\<close>

theorem chunk_count:
  assumes "0 < max_length" "1 \<le> k"
  shows "int (length (chunk_message message max_length (Some k))) \<le> k"
proof -
  have "int (length (filter (\<lambda>c. c \<noteq> []) cs)) \<le> k" if "int (length cs) \<le> k" for cs :: "ucs list"
    using that length_filter_le [of "\<lambda>c. c \<noteq> []" cs] by linarith
  moreover have "int (length (chunk_loop find_break_index (nat max_length) (Some k) [] (trim_boundary message))) \<le> k"
    using natural.loop_count [of "nat max_length" "[]" k] assms by simp
  ultimately show ?thesis using assms by (auto simp: chunk_message_def Let_def)
qed

lemma chunk_count_witness:
  "int (length (chunk_message [72, 105, 46, 32, 89, 111, 117] 2 (Some 2))) \<le> 2"
  by (rule chunk_count) simp_all

end
