(* ===== verification/Followup_Service.thy ===== *)
theory Followup_Service
  imports Followup_Jobs Chunker
begin

text \<open>
  The worker of the group chat follow-ups: app/groupchat/followup/service.py with utils.py and
  context.py. What the worker reads from outside while it processes one job is the record
  \<open>fenv\<close>; the table of Followup_Jobs and the messages sent are its world.
\<close>

section \<open>Helpers\<close>

definition compute_backoff :: "int \<Rightarrow> int" where
  "compute_backoff attempts = backoff_from 30 900 attempts"

text \<open>A message as the raw window returns it; \<open>fm_sent_at\<close> is what \<open>parse_timestamp\<close> makes of its time.\<close>

record fmsg =
  fm_role :: "string option"
  fm_sent_at :: "int option"
  fm_event :: "string option"

fun anchor_loop :: "fmsg list \<Rightarrow> int option \<Rightarrow> string \<Rightarrow> int option \<times> string" where
  "anchor_loop [] best_at best_id = (best_at, best_id)"
| "anchor_loop (m # ms) best_at best_id =
     (if py_lower (or_str (fm_role m) '''') \<noteq> ''user'' then anchor_loop ms best_at best_id
      else (case fm_sent_at m of None \<Rightarrow> anchor_loop ms best_at best_id
        | Some ts \<Rightarrow>
           (if best_at = None \<or> the best_at < ts
            then anchor_loop ms (Some ts) (py_strip (or_str (fm_event m) ''''))
            else anchor_loop ms best_at best_id)))"

definition extract_latest_user_anchor :: "fmsg list \<Rightarrow> int option \<times> string" where
  "extract_latest_user_anchor ms = anchor_loop ms None ''''"

datatype gmode = Active | Quiet | Muted

definition normalize_mode :: "string \<Rightarrow> gmode" where
  "normalize_mode s = (let m = py_lower (py_strip s) in
     if m = ''quiet'' then Quiet else if m = ''muted'' then Muted else Active)"

fun mode_rank :: "gmode \<Rightarrow> nat" where
  "mode_rank Active = 0" | "mode_rank Quiet = 1" | "mode_rank Muted = 2"

instantiation gmode :: linorder
begin

definition less_eq_gmode :: "gmode \<Rightarrow> gmode \<Rightarrow> bool" where
  "less_eq_gmode a b \<longleftrightarrow> mode_rank a \<le> mode_rank b"

definition less_gmode :: "gmode \<Rightarrow> gmode \<Rightarrow> bool" where
  "less_gmode a b \<longleftrightarrow> mode_rank a < mode_rank b"

lemma mode_rank_inj: "mode_rank a = mode_rank b \<Longrightarrow> a = b"
  by (cases a; cases b) simp_all

instance
  by standard (auto simp: less_eq_gmode_def less_gmode_def intro: mode_rank_inj)

end

definition effective_group_mode :: "string list \<Rightarrow> gmode" where
  "effective_group_mode modes =
     foldl (\<lambda>result mode. if result < normalize_mode mode then normalize_mode mode else result) Active modes"

text \<open>\<open>str.split()\<close>: the words between white space.\<close>

definition split_words :: "ucs \<Rightarrow> ucs list" where
  "split_words s = words_by uspace s"

definition is_quote :: "nat \<Rightarrow> bool" where
  "is_quote c \<longleftrightarrow> c = 34 \<or> c = 39"

text \<open>\<open>clean_followup\<close>: one line, without quotes around it, of at most 260 characters.\<close>

definition clean_followup :: "ucs \<Rightarrow> ucs" where
  "clean_followup text =
     (let msg = trim_boundary (join_str [32] (split_words text)) in
      if msg = [] then []
      else let m1 = (if is_quote (hd msg) \<and> is_quote (last msg) \<and> 2 < length msg
                     then trim_boundary (take (length msg - 2) (drop 1 msg)) else msg)
        in if 260 < length m1 then rstrip_by uspace (take 260 m1) else m1)"

definition nudge_event_id :: "(string \<Rightarrow> string) \<Rightarrow> string \<Rightarrow> string" where
  "nudge_event_id sha256 anchor = sha256 (''followup:'' @ anchor)"

section \<open>What is read from outside\<close>

record fparticipant =
  pt_user :: "string option"
  pt_mode :: "string option"

text \<open>A stored summary: its text, the text of its end and what \<open>parse_timestamp\<close> makes of that.\<close>

record fsegment =
  sg_md :: ucs
  sg_end :: ucs
  sg_end_dt :: "int option"

record fprompt =
  fp_chat :: string
  fp_names :: "string list"
  fp_minutes :: int
  fp_last_at :: int
  fp_segments :: "ucs list"

record fcfg =
  fc_enabled :: bool
  fc_minutes :: int
  fc_window_days :: int
  fc_stale_minutes :: int
  fc_max_attempts :: int

definition default_fcfg :: fcfg where
  "default_fcfg = \<lparr>fc_enabled = True, fc_minutes = 10080, fc_window_days = 14, fc_stale_minutes = 20, fc_max_attempts = 6\<rparr>"

text \<open>
  A database read that fails gives the empty answer (no chat, no participants, no messages, no
  summaries), as the client methods do; the look-up of a user may raise. \<open>fe_parse\<close> is
  \<open>parse_timestamp\<close> of a column of the job; \<open>fe_up\<close> tells for each write whether the database
  answers.
\<close>

datatype fcall = CallSchedule | CallRelease | CallComplete | CallFail

record fenv =
  fe_now :: int
  fe_db_now :: int
  fe_parse :: "int \<Rightarrow> int option"
  fe_chat :: bool
  fe_participants :: "fparticipant list"
  fe_user :: "string \<Rightarrow> string + string option"
  fe_messages :: "fmsg list"
  fe_segments :: "fsegment list"
  fe_build :: "fprompt \<Rightarrow> string option"
  fe_llm :: "fprompt \<Rightarrow> string + ucs"
  fe_send :: "ucs \<Rightarrow> string option"
  fe_up :: "fcall \<Rightarrow> bool"

text \<open>The loop of \<open>load_participants\<close>; a look-up that raises ends it with what was collected.\<close>

fun participants_loop :: "(string \<Rightarrow> string + string option) \<Rightarrow> nat \<Rightarrow> fparticipant list \<Rightarrow> string list \<Rightarrow> string list \<Rightarrow> string list \<times> string list" where
  "participants_loop user i [] names modes = (names, modes)"
| "participants_loop user i (p # ps) names modes =
     (let modes' = modes @ [or_str (pt_mode p) ''active''];
          uid = py_strip (or_str (pt_user p) '''');
          anon = ''user '' @ str_nat (i + 1)
      in if uid = [] then participants_loop user (i + 1) ps (names @ [anon]) modes'
         else (case user uid of Inl e \<Rightarrow> (names, modes')
           | Inr name \<Rightarrow> (let n = py_strip (or_str name '''') in
               participants_loop user (i + 1) ps (names @ [if n = [] then anon else n]) modes')))"

definition load_participants :: "fenv \<Rightarrow> bool \<times> string list \<times> string list" where
  "load_participants e =
     (if \<not> fe_chat e then (False, [], [])
      else (True, participants_loop (fe_user e) 0 (fe_participants e) [] []))"

text \<open>\<open>build_summary_segments\<close>: blocks until more than 6000 characters are reached.\<close>

fun segments_loop :: "int \<Rightarrow> fsegment list \<Rightarrow> ucs list \<Rightarrow> nat \<Rightarrow> ucs list" where
  "segments_loop since [] parts tot = parts"
| "segments_loop since (seg # segs) parts tot =
     (let md = trim_boundary (sg_md seg); end_at = trim_boundary (sg_end seg);
          end_dt = (if end_at = [] then None else sg_end_dt seg);
          header = (if end_at = [] then utext ''### segment'' else utext ''### segment_end_at='' @ end_at);
          block = trim_boundary (header @ [10] @ md)
      in if md = [] then segments_loop since segs parts tot
         else if end_dt \<noteq> None \<and> the end_dt < since then segments_loop since segs parts tot
         else if block = [] then segments_loop since segs parts tot
         else if 6000 < tot + length block \<and> parts \<noteq> [] then parts
         else segments_loop since segs (parts @ [block]) (tot + length block))"

definition build_summary_segments :: "int \<Rightarrow> int \<Rightarrow> fsegment list \<Rightarrow> ucs list" where
  "build_summary_segments window_days now segs =
     segments_loop (now - secs (86400 * max 1 (or_default window_days 7))) segs [] 0"

definition resolve_inactivity_minutes :: "fcfg \<Rightarrow> int" where
  "resolve_inactivity_minutes cfg = (if 0 < fc_minutes cfg then fc_minutes cfg else max 1 (24 * 60))"

section \<open>One job\<close>

text \<open>
  What \<open>_process_claimed_job\<close> does in the end, in the order of its tests. (\<open>FNothing\<close>: the row
  has no chat or no message. \<open>FCrash\<close>: an exception leaves the method. The handler around the
  scheduling of a newer message never runs, since the client method catches its own errors.)
\<close>

datatype faction =
    FNothing
  | FFail string
  | FComplete int string
  | FRelease
  | FReschedule int string
  | FNudge ucs
  | FCrash string

definition job_chat :: "fjob \<Rightarrow> string" where
  "job_chat j = py_strip (jb_key j)"

definition job_event :: "fjob \<Rightarrow> string" where
  "job_event j = py_strip (mj_last_id j)"

definition write_nudge :: "fcfg \<Rightarrow> fenv \<Rightarrow> fjob \<Rightarrow> int \<Rightarrow> string list \<Rightarrow> faction" where
  "write_nudge cfg e j last_at names =
     (let segs = build_summary_segments (or_default (fc_window_days cfg) 7) (fe_now e) (fe_segments e);
          prompt = \<lparr>fp_chat = job_chat j, fp_names = names, fp_minutes = resolve_inactivity_minutes cfg,
                    fp_last_at = last_at, fp_segments = segs\<rparr>
      in if segs = [] then FFail ''summary_empty''
         else (case fe_build e prompt of Some err \<Rightarrow> FCrash err
           | None \<Rightarrow> (case fe_llm e prompt of
               Inl err \<Rightarrow> FFail (''llm_failed:'' @ take 240 err)
             | Inr raw \<Rightarrow> (let content = clean_followup raw in
                 if content = [] then FFail ''empty_llm_output''
                 else (case fe_send e content of Some err \<Rightarrow> FFail (''send_failed:'' @ take 240 err)
                   | None \<Rightarrow> FNudge content)))))"

definition decide_due :: "fcfg \<Rightarrow> fenv \<Rightarrow> fjob \<Rightarrow> int \<Rightarrow> faction" where
  "decide_due cfg e j last_at = (case load_participants e of (chat, names, modes) \<Rightarrow>
     if \<not> chat then FComplete (fe_now e) ''skip:chat_missing''
     else if modes \<noteq> [] \<and> effective_group_mode modes = Muted then FComplete (fe_now e) ''skip:muted''
     else (case extract_latest_user_anchor (fe_messages e) of
         (Some latest_at, latest_id) \<Rightarrow>
           if secs 1 < latest_at - last_at
           then FReschedule latest_at (if latest_id = [] then job_event j else latest_id)
           else write_nudge cfg e j last_at names
       | (None, _) \<Rightarrow> write_nudge cfg e j last_at names))"

definition decide :: "fcfg \<Rightarrow> fenv \<Rightarrow> fjob \<Rightarrow> faction" where
  "decide cfg e j =
     (if job_chat j = [] \<or> job_event j = [] then FNothing
      else (case (fe_parse e (mj_last_at j), fe_parse e (jb_run_after j)) of
        (Some last_at, Some run_after) \<Rightarrow>
          (let nudge = Option.bind (fj_nudge_at j) (fe_parse e) in
           if nudge \<noteq> None \<and> last_at \<le> the nudge then FComplete (the nudge) (or_str (fj_nudge_id j) '''')
           else if fe_now e < run_after then FRelease
           else decide_due cfg e j last_at)
      | _ \<Rightarrow> FFail ''missing_job_timestamps''))"

section \<open>Its effects\<close>

record fworld =
  fw_jobs :: job_table
  fw_nudges :: "(string \<times> ucs) list" \<comment> \<open>the messages sent, with their chat\<close>

definition release_job :: "fenv \<Rightarrow> string \<Rightarrow> string \<Rightarrow> fworld \<Rightarrow> fworld" where
  "release_job e worker chat w = w\<lparr>fw_jobs := snd (db_release (fe_up e CallRelease) chat worker (fw_jobs w))\<rparr>"

definition fail_job :: "fcfg \<Rightarrow> fenv \<Rightarrow> string \<Rightarrow> fjob \<Rightarrow> string \<Rightarrow> fworld \<Rightarrow> fworld" where
  "fail_job cfg e worker j error w =
     (case db_fail (fe_up e CallFail) (fe_db_now e) (job_chat j) worker (job_event j) error (compute_backoff (jb_attempts j))
             (or_default (fc_max_attempts cfg) 6) (fw_jobs w) of
        (None, t) \<Rightarrow> release_job e worker (job_chat j) (w\<lparr>fw_jobs := t\<rparr>)
      | (Some _, t) \<Rightarrow> w\<lparr>fw_jobs := t\<rparr>)"

definition complete_claimed :: "fenv \<Rightarrow> string \<Rightarrow> fjob \<Rightarrow> int \<Rightarrow> string \<Rightarrow> fworld \<Rightarrow> fworld" where
  "complete_claimed e worker j at nudge w =
     (case db_complete (fe_up e CallComplete) (job_chat j) worker (job_event j) at nudge (fw_jobs w) of
        (None, t) \<Rightarrow> release_job e worker (job_chat j) (w\<lparr>fw_jobs := t\<rparr>)
      | (Some _, t) \<Rightarrow> w\<lparr>fw_jobs := t\<rparr>)"

text \<open>The result is the exception that leaves the method, if any.\<close>

definition process_claimed_job :: "fcfg \<Rightarrow> (string \<Rightarrow> string) \<Rightarrow> fenv \<Rightarrow> string \<Rightarrow> fjob \<Rightarrow> fworld \<Rightarrow> string option \<times> fworld" where
  "process_claimed_job cfg sha256 e worker j w = (case decide cfg e j of
     FNothing \<Rightarrow> (None, w)
   | FFail err \<Rightarrow> (None, fail_job cfg e worker j err w)
   | FComplete at nudge \<Rightarrow> (None, complete_claimed e worker j at nudge w)
   | FRelease \<Rightarrow> (None, release_job e worker (job_chat j) w)
   | FReschedule at event \<Rightarrow>
       (None, release_job e worker (job_chat j)
          (w\<lparr>fw_jobs := snd (db_schedule (fe_up e CallSchedule) (job_chat j) at event (resolve_inactivity_minutes cfg) (fw_jobs w))\<rparr>))
   | FNudge content \<Rightarrow>
       (None, complete_claimed e worker j (fe_now e) (nudge_event_id sha256 (job_event j))
          (w\<lparr>fw_nudges := fw_nudges w @ [(job_chat j, content)]\<rparr>))
   | FCrash err \<Rightarrow> (Some err, w))"

text \<open>One turn of \<open>run_once\<close> for a claimed job: an exception fails the job.\<close>

definition run_job :: "fcfg \<Rightarrow> (string \<Rightarrow> string) \<Rightarrow> fenv \<Rightarrow> string \<Rightarrow> fjob \<Rightarrow> fworld \<Rightarrow> fworld" where
  "run_job cfg sha256 e worker j w = (case process_claimed_job cfg sha256 e worker j w of
     (None, w') \<Rightarrow> w'
   | (Some err, w') \<Rightarrow> if job_chat j \<noteq> [] \<and> job_event j \<noteq> []
       then fail_job cfg e worker j (''job_crash:'' @ err) w' else w')"

text \<open>\<open>run_once\<close>; \<open>es\<close> gives what is read from outside for each chat.\<close>

definition run_once :: "fcfg \<Rightarrow> (string \<Rightarrow> string) \<Rightarrow> (string \<Rightarrow> fenv) \<Rightarrow> bool \<Rightarrow> int \<Rightarrow> (fjob \<Rightarrow> bool) \<Rightarrow> string \<Rightarrow> int \<Rightarrow> fworld \<Rightarrow> nat \<times> fworld" where
  "run_once cfg sha256 es up now locked worker max_jobs w =
     (if \<not> fc_enabled cfg then (0, w)
      else (case db_claim up now locked worker max_jobs (or_default (fc_stale_minutes cfg) 20) (fw_jobs w) of
        (jobs, t) \<Rightarrow> (length jobs, foldl (\<lambda>w' j. run_job cfg sha256 (es (jb_key j)) worker j w') (w\<lparr>fw_jobs := t\<rparr>) jobs)))"

section \<open>Lemmas of the helpers\<close>

lemma clean_followup_length: "length (clean_followup text) \<le> 260"
proof -
  have "length (rstrip_by uspace (take 260 m)) \<le> 260" for m
    by (rule order.trans [OF length_rstrip_by]) simp
  then show ?thesis by (simp add: clean_followup_def Let_def)
qed

lemma anchor_loop_newest:
  "anchor_loop ms b i = (best, bid) \<Longrightarrow>
     (\<forall>m \<in> set ms. py_lower (or_str (fm_role m) '''') = ''user'' \<longrightarrow> fm_sent_at m \<noteq> None \<longrightarrow>
        best \<noteq> None \<and> the (fm_sent_at m) \<le> the best) \<and> (b \<noteq> None \<longrightarrow> best \<noteq> None \<and> the b \<le> the best)"
proof (induction ms arbitrary: b i)
  case Nil
  then show ?case by auto
next
  case (Cons m ms)
  show ?case
  proof (cases "py_lower (or_str (fm_role m) '''') = ''user'' \<and> fm_sent_at m \<noteq> None \<and> (b = None \<or> the b < the (fm_sent_at m))")
    case True
    then obtain ts where "fm_sent_at m = Some ts" by auto
    with True Cons.prems have "anchor_loop ms (Some ts) (py_strip (or_str (fm_event m) '''')) = (best, bid)" by simp
    from Cons.IH [OF this] True \<open>fm_sent_at m = Some ts\<close> show ?thesis by auto
  next
    case False
    with Cons.prems have "anchor_loop ms b i = (best, bid)" by (auto split: option.splits if_splits)
    from Cons.IH [OF this] False show ?thesis by auto
  qed
qed

lemma anchor_loop_from:
  "anchor_loop ms b i = (Some at, bid) \<Longrightarrow>
     b = Some at \<or> (\<exists>m \<in> set ms. py_lower (or_str (fm_role m) '''') = ''user'' \<and> fm_sent_at m = Some at)"
  by (induction ms b i rule: anchor_loop.induct) (auto split: if_splits option.splits)

lemma anchor_newest:
  assumes "extract_latest_user_anchor ms = (best, bid)" "m \<in> set ms"
    "py_lower (or_str (fm_role m) '''') = ''user''" "fm_sent_at m = Some ts"
  shows "\<exists>latest. best = Some latest \<and> ts \<le> latest"
proof -
  have "anchor_loop ms None '''' = (best, bid)" using assms(1) by (simp add: extract_latest_user_anchor_def)
  from anchor_loop_newest [OF this] assms show ?thesis by force
qed


lemma effective_is_max: "effective_group_mode ms = foldl max Active (map normalize_mode ms)"
  unfolding effective_group_mode_def foldl_map
  by (intro arg_cong2 [where f = "\<lambda>f. foldl f Active"] ext) (auto simp: max_def not_le)

lemma max_Muted: "max a b = Muted \<longleftrightarrow> a = Muted \<or> b = Muted"
  by (cases a; cases b) (simp_all add: max_def less_eq_gmode_def)

lemma foldl_max_Muted: "foldl max a ms = Muted \<longleftrightarrow> a = Muted \<or> Muted \<in> set ms"
  by (induction ms arbitrary: a) (auto simp: max_Muted)

lemma effective_muted: "effective_group_mode ms = Muted \<longleftrightarrow> (\<exists>m \<in> set ms. normalize_mode m = Muted)"
  by (simp add: effective_is_max foldl_max_Muted) (metis (mono_tags, lifting) imageE image_eqI)

lemma participants_loop_modes:
  "(\<And>u err. user u \<noteq> Inl err) \<Longrightarrow>
     snd (participants_loop user i ps names modes) = modes @ map (\<lambda>p. or_str (pt_mode p) ''active'') ps"
proof (induction ps arbitrary: i names modes)
  case (Cons p ps)
  from Cons.prems show ?case
    by (auto simp: Let_def Cons.IH split: sum.splits)
qed simp

section \<open>Lemmas of the effects\<close>

lemma nudges_frame [simp]:
  "fw_nudges (release_job e worker chat w) = fw_nudges w"
  "fw_nudges (fail_job cfg e worker j err w) = fw_nudges w"
  "fw_nudges (complete_claimed e worker j at nudge w) = fw_nudges w"
  by (simp_all add: release_job_def fail_job_def complete_claimed_def split: prod.splits option.splits)

lemma nudge_from_decision:
  assumes "process_claimed_job cfg sha256 e worker j w = (crash, w')" "fw_nudges w' \<noteq> fw_nudges w"
  obtains content where "decide cfg e j = FNudge content" "fw_nudges w' = fw_nudges w @ [(job_chat j, content)]"
  using assms by (auto simp: process_claimed_job_def split: faction.splits)

lemma decide_FNudge:
  assumes "decide cfg e j = FNudge content"
  obtains last_at run_after names where "fe_parse e (mj_last_at j) = Some last_at" "fe_parse e (jb_run_after j) = Some run_after"
    "run_after \<le> fe_now e" "\<not> (\<exists>n. Option.bind (fj_nudge_at j) (fe_parse e) = Some n \<and> last_at \<le> n)"
    "decide_due cfg e j last_at = FNudge content" "write_nudge cfg e j last_at names = FNudge content"
proof -
  obtain last_at run_after where p: "fe_parse e (mj_last_at j) = Some last_at" "fe_parse e (jb_run_after j) = Some run_after"
    using assms by (auto simp: decide_def split: if_splits option.splits)
  with assms have q: "\<not> (\<exists>n. Option.bind (fj_nudge_at j) (fe_parse e) = Some n \<and> last_at \<le> n)"
    "run_after \<le> fe_now e" "decide_due cfg e j last_at = FNudge content"
    by (auto simp: decide_def Let_def split: if_splits)
  then obtain names where "write_nudge cfg e j last_at names = FNudge content"
    by (auto simp: decide_due_def split: prod.splits if_splits option.splits)
  with p q that show ?thesis by blast
qed

lemma write_nudge_content: "write_nudge cfg e j last_at names = FNudge content \<Longrightarrow> content \<noteq> [] \<and> length content \<le> 260"
  using clean_followup_length by (auto simp: write_nudge_def Let_def split: if_splits option.splits sum.splits)

lemma decide_due_FNudge:
  assumes "decide_due cfg e j last_at = FNudge content"
  shows "fe_chat e" "effective_group_mode (snd (participants_loop (fe_user e) 0 (fe_participants e) [] [])) \<noteq> Muted"
    "m \<in> set (fe_messages e) \<Longrightarrow> py_lower (or_str (fm_role m) '''') = ''user'' \<Longrightarrow> fm_sent_at m = Some ts \<Longrightarrow> ts \<le> last_at + secs 1"
proof -
  show chat: "fe_chat e" using assms by (cases "fe_chat e") (simp_all add: decide_due_def load_participants_def)
  obtain names modes where loop: "participants_loop (fe_user e) 0 (fe_participants e) [] [] = (names, modes)" by fastforce
  obtain best bid where anchor: "extract_latest_user_anchor (fe_messages e) = (best, bid)" by fastforce
  have "\<not> (modes \<noteq> [] \<and> effective_group_mode modes = Muted)"
    using assms chat loop by (auto simp: decide_due_def load_participants_def split: if_splits)
  then show "effective_group_mode (snd (participants_loop (fe_user e) 0 (fe_participants e) [] [])) \<noteq> Muted"
    using loop by (auto simp: effective_muted)
  show "ts \<le> last_at + secs 1" if "m \<in> set (fe_messages e)" "py_lower (or_str (fm_role m) '''') = ''user''" "fm_sent_at m = Some ts"
  proof -
    from anchor_newest [OF anchor that] obtain latest where "best = Some latest" "ts \<le> latest" by blast
    with assms chat loop anchor show ?thesis
      by (auto simp: decide_due_def load_participants_def split: if_splits)
  qed
qed

section \<open>Properties of one job\<close>


text \<open>An answer for every question, and a job that is due.\<close>

definition example_fenv :: fenv where
  "example_fenv = \<lparr>fe_now = 100, fe_db_now = 100, fe_parse = Some, fe_chat = True,
     fe_participants = [\<lparr>pt_user = None, pt_mode = Some ''quiet''\<rparr>], fe_user = (\<lambda>_. Inr None),
     fe_messages = [], fe_segments = [\<lparr>sg_md = [104, 105], sg_end = [], sg_end_dt = None\<rparr>],
     fe_build = (\<lambda>_. None), fe_llm = (\<lambda>_. Inr [104, 105]), fe_send = (\<lambda>_. None), fe_up = (\<lambda>_. True)\<rparr>"

definition example_fjob :: fjob where
  "example_fjob = \<lparr>jb_key = ''c'', jb_status = JRunning, jb_run_after = 50, jb_attempts = 0, jb_error = None, jb_claimed_by = Some ''w'',
     jb_claimed_at = Some 90, mj_last_at = 10, mj_last_id = ''m'', fj_nudge_at = None, fj_nudge_id = None\<rparr>"

definition example_fworld :: fworld where
  "example_fworld = \<lparr>fw_jobs = [example_fjob], fw_nudges = []\<rparr>"

lemma example_clean: "clean_followup [104, 105] = [104, 105]"
  by (simp add: clean_followup_def split_words_def words_by.simps trim_boundary_def strip_by_def lstrip_by_def rstrip_by_def uspace_def is_quote_def)


lemma example_segments: "build_summary_segments 14 100 (fe_segments example_fenv) \<noteq> []"
  by (simp add: build_summary_segments_def example_fenv_def trim_boundary_def strip_by_def lstrip_by_def rstrip_by_def
      uspace_def utext_def Let_def)

lemma example_job_ids [simp]: "job_chat example_fjob = ''c''" "job_event example_fjob = ''m''"
  by (simp_all add: job_chat_def job_event_def example_fjob_def strip_eval)

lemma example_decide: "decide default_fcfg (example_fenv\<lparr>fe_up := up\<rparr>) example_fjob = FNudge [104, 105]"
proof -
  have "extract_latest_user_anchor [] = (None, '''')" by (simp add: extract_latest_user_anchor_def)
  moreover have "\<not> (effective_group_mode [''quiet''] = Muted)"
    by (simp add: effective_muted normalize_mode_def strip_eval py_lower_def lower_char_def)
  ultimately have "decide_due default_fcfg (example_fenv\<lparr>fe_up := up\<rparr>) example_fjob 10 = FNudge [104, 105]"
    using example_segments example_clean
    by (simp add: decide_due_def load_participants_def write_nudge_def example_fenv_def default_fcfg_def or_default_def
        strip_eval Let_def)
  then show ?thesis by (simp add: decide_def example_fjob_def example_fenv_def job_chat_def job_event_def strip_eval)
qed


section \<open>The end of a claim\<close>

lemma fail_job_row:
  assumes "x \<in> set (fw_jobs w)" "held_by (job_chat j) worker x" "fe_up e CallFail"
  shows "\<exists>b m. m = max 1 (or_default (or_default (fc_max_attempts cfg) 6) 6)
    \<and> failed_job (fe_db_now e) (job_event j) (take 1800 err) b m x \<in> set (fw_jobs (fail_job cfg e worker j err w))"
proof -
  have "find (held_by (job_chat j) worker) (fw_jobs w) \<noteq> None" using assms(1,2) by (auto simp: find_None_iff)
  with assms show ?thesis
    by (auto simp: fail_job_def db_fail_def rpc_fail_def fail_job_sql_def split: option.splits intro!: in_update)
qed

lemma complete_claimed_row:
  assumes "x \<in> set (fw_jobs w)" "held_by (job_chat j) worker x" "fe_up e CallComplete"
  shows "completed_with (set_nudge at nudge) (job_event j) x \<in> set (fw_jobs (complete_claimed e worker j at nudge w))"
  using assms by (auto simp: complete_claimed_def db_complete_def rpc_complete_def complete_with_def Let_def intro!: in_update)

lemma release_job_row:
  assumes "x \<in> set (fw_jobs w)" "held_by (job_chat j) worker x" "fe_up e CallRelease"
  shows "release_row x \<in> set (fw_jobs (release_job e worker (job_chat j) w))"
  using assms by (auto simp: release_job_def db_release_def rpc_release_def intro!: in_update)

lemma reschedule_row:
  assumes "x \<in> set (fw_jobs w)" "held_by (job_chat j) worker x" "\<forall>c. fe_up e c"
  shows "\<exists>window. release_row (reschedule_with clear_nudge at event window x) \<in> set (fw_jobs (release_job e worker (job_chat j)
    (w\<lparr>fw_jobs := snd (db_schedule (fe_up e CallSchedule) (job_chat j) at event minutes (fw_jobs w))\<rparr>)))"
proof -
  define window where "window = secs (60 * max 1 (or_default minutes 1440))"
  have held: "held_by (job_chat j) worker (reschedule_with clear_nudge at event window x)"
    using assms(2) by (simp add: held_by_def reschedule_with_def clear_nudge_def Let_def)
  have "find_job (job_chat j) (fw_jobs w) \<noteq> None"
    using assms(1,2) by (auto simp: find_job_def find_None_iff held_by_def)
  then have "reschedule_with clear_nudge at event window x \<in> set (snd (db_schedule (fe_up e CallSchedule) (job_chat j) at event minutes (fw_jobs w)))"
    using assms by (auto simp: db_schedule_def rpc_schedule_def schedule_with_def window_def held_by_def intro!: in_update)
  with held assms(3) show ?thesis
    by (intro exI [of _ window] release_job_row) simp_all
qed

text \<open>Every processing ends in one of three changes of the row.\<close>

definition fail_limit :: "fcfg \<Rightarrow> int" where
  "fail_limit cfg = max 1 (or_default (or_default (fc_max_attempts cfg) 6) 6)"

lemma run_job_row:
  assumes x: "x \<in> set (fw_jobs w)" "held_by (job_chat j) worker x" and up: "\<forall>c. fe_up e c"
    and ids: "job_chat j \<noteq> []" "job_event j \<noteq> []"
  obtains (failed) err b where "failed_job (fe_db_now e) (job_event j) err b (fail_limit cfg) x \<in> set (fw_jobs (run_job cfg sha256 e worker j w))"
      "fw_nudges (run_job cfg sha256 e worker j w) = fw_nudges w"
  | (skipped) at nudge where "completed_with (set_nudge at nudge) (job_event j) x \<in> set (fw_jobs (run_job cfg sha256 e worker j w))"
      "nudge \<in> {''skip:chat_missing'', ''skip:muted'', or_str (fj_nudge_id j) ''''}"
      "fw_nudges (run_job cfg sha256 e worker j w) = fw_nudges w"
  | (nudged) "completed_with (set_nudge (fe_now e) (nudge_event_id sha256 (job_event j))) (job_event j) x \<in> set (fw_jobs (run_job cfg sha256 e worker j w))"
      "fw_nudges (run_job cfg sha256 e worker j w) \<noteq> fw_nudges w"
  | (released) "release_row x \<in> set (fw_jobs (run_job cfg sha256 e worker j w))"
      "fw_nudges (run_job cfg sha256 e worker j w) = fw_nudges w"
  | (moved) at event window where "release_row (reschedule_with clear_nudge at event window x) \<in> set (fw_jobs (run_job cfg sha256 e worker j w))"
      "fw_nudges (run_job cfg sha256 e worker j w) = fw_nudges w"
proof (cases "decide cfg e j")
  case FNothing
  then show ?thesis using ids by (auto simp: decide_def decide_due_def write_nudge_def Let_def split: if_splits option.splits sum.splits prod.splits)
next
  case (FFail err)
  then show ?thesis using fail_job_row [OF x, of e cfg err] up
    by (auto simp: run_job_def process_claimed_job_def fail_limit_def intro: failed)
next
  case (FComplete at nudge)
  then have "nudge \<in> {''skip:chat_missing'', ''skip:muted'', or_str (fj_nudge_id j) ''''}"
    by (auto simp: decide_def decide_due_def write_nudge_def Let_def split: if_splits option.splits sum.splits prod.splits)
  then show ?thesis using FComplete complete_claimed_row [OF x, of e at nudge] up
    by (auto simp: run_job_def process_claimed_job_def intro: skipped)
next
  case FRelease
  then show ?thesis using release_job_row [OF x, of e] up by (auto simp: run_job_def process_claimed_job_def intro: released)
next
  case (FReschedule at event)
  then show ?thesis using reschedule_row [OF x up, of at event "resolve_inactivity_minutes cfg"]
    by (auto simp: run_job_def process_claimed_job_def intro: moved)
next
  case (FNudge content)
  let ?w = "w\<lparr>fw_nudges := fw_nudges w @ [(job_chat j, content)]\<rparr>"
  have "x \<in> set (fw_jobs ?w)" using x(1) by simp
  from complete_claimed_row [OF this x(2), of e "fe_now e" "nudge_event_id sha256 (job_event j)"] up FNudge show ?thesis
    by (auto simp: run_job_def process_claimed_job_def intro!: nudged)
next
  case (FCrash err)
  then show ?thesis using fail_job_row [OF x, of e cfg "''job_crash:'' @ err"] up ids
    by (auto simp: run_job_def process_claimed_job_def fail_limit_def intro: failed)
qed



section \<open>The worker runs the table\<close>

text \<open>
  A relation between tables that the five client methods respect: the interface of the table as
  the worker sees it. The worker respects it too.
\<close>

locale job_client =
  fixes moves :: "job_table \<Rightarrow> job_table \<Rightarrow> bool"
  assumes moves_refl: "moves t t"
    and moves_trans: "moves t u \<Longrightarrow> moves u v \<Longrightarrow> moves t v"
    and moves_schedule: "moves t (snd (db_schedule up chat at event minutes t))"
    and moves_claim: "moves t (snd (db_claim up now locked worker m stale t))"
    and moves_release: "moves t (snd (db_release up chat worker t))"
    and moves_complete: "moves t (snd (db_complete up chat worker expected at nudge t))"
    and moves_fail: "moves t (snd (db_fail up now chat worker expected error b m t))"
begin

lemma release_job_moves: "moves (fw_jobs w) (fw_jobs (release_job e worker chat w))"
  by (simp add: release_job_def moves_release)

lemma fail_job_moves: "moves (fw_jobs w) (fw_jobs (fail_job cfg e worker j err w))"
proof (cases "db_fail (fe_up e CallFail) (fe_db_now e) (job_chat j) worker (job_event j) err (compute_backoff (jb_attempts j))
             (or_default (fc_max_attempts cfg) 6) (fw_jobs w)")
  case (Pair out t)
  have "moves (fw_jobs w) t" using moves_fail Pair by (metis snd_conv)
  then show ?thesis using Pair release_job_moves [of "w\<lparr>fw_jobs := t\<rparr>" e worker "job_chat j"]
    by (auto simp: fail_job_def split: option.splits intro: moves_trans)
qed

lemma complete_claimed_moves: "moves (fw_jobs w) (fw_jobs (complete_claimed e worker j at nudge w))"
proof (cases "db_complete (fe_up e CallComplete) (job_chat j) worker (job_event j) at nudge (fw_jobs w)")
  case (Pair out t)
  have "moves (fw_jobs w) t" using moves_complete Pair by (metis snd_conv)
  then show ?thesis using Pair release_job_moves [of "w\<lparr>fw_jobs := t\<rparr>" e worker "job_chat j"]
    by (auto simp: complete_claimed_def split: option.splits intro: moves_trans)
qed

lemma process_moves: "moves (fw_jobs w) (fw_jobs (snd (process_claimed_job cfg sha256 e worker j w)))"
proof (cases "decide cfg e j")
  case (FReschedule at event)
  then show ?thesis
    using moves_trans [OF moves_schedule release_job_moves [where w = "w\<lparr>fw_jobs := t\<rparr>" for t, simplified]]
    by (simp add: process_claimed_job_def)
next
  case (FNudge content)
  then show ?thesis using complete_claimed_moves [of "w\<lparr>fw_nudges := fw_nudges w @ [(job_chat j, content)]\<rparr>"]
    by (simp add: process_claimed_job_def)
qed (simp_all add: process_claimed_job_def moves_refl fail_job_moves complete_claimed_moves release_job_moves)

lemma run_job_moves: "moves (fw_jobs w) (fw_jobs (run_job cfg sha256 e worker j w))"
  using process_moves [of w cfg sha256 e worker j] moves_trans fail_job_moves
  by (fastforce simp: run_job_def split: prod.splits option.splits)

lemma run_once_moves: "moves (fw_jobs w) (fw_jobs (snd (run_once cfg sha256 es up now locked worker max_jobs w)))"
proof -
  obtain jobs t where claim: "db_claim up now locked worker max_jobs (or_default (fc_stale_minutes cfg) 20) (fw_jobs w) = (jobs, t)"
    by fastforce
  have "moves (fw_jobs v) (fw_jobs (foldl (\<lambda>w' j. run_job cfg sha256 (es (jb_key j)) worker j w') v jobs))" for v
    by (induction jobs arbitrary: v) (auto intro: moves_refl moves_trans [OF run_job_moves])
  from this [of "w\<lparr>fw_jobs := t\<rparr>"]
  have "moves t (fw_jobs (foldl (\<lambda>w' j. run_job cfg sha256 (es (jb_key j)) worker j w') (w\<lparr>fw_jobs := t\<rparr>) jobs))" by simp
  moreover have "moves (fw_jobs w) t" using moves_claim claim by (metis snd_conv)
  ultimately show ?thesis using claim by (auto simp: run_once_def intro: moves_trans moves_refl)
qed

end

text \<open>The two readings: the table moves by steps of Message_Jobs, and no chat loses its job.\<close>

interpretation jsteps: job_client "job_moves clear_nudge fresh_fjob"
  by unfold_locales (auto simp: db_defs own_nudge job_moves_refl intro: job_moves_trans client_moves)

interpretation jstay: job_client keys_stay
  by unfold_locales (auto simp: db_defs own_nudge keys_stay_refl fjobs.keys_stay_schedule keys_stay_client intro: keys_stay_trans)


section \<open>A lost completion\<close>

lemma ids_ignore_claim [simp]:
  "job_chat (j\<lparr>jb_status := s, jb_claimed_by := c, jb_claimed_at := ca\<rparr>) = job_chat j"
  "job_event (j\<lparr>jb_status := s, jb_claimed_by := c, jb_claimed_at := ca\<rparr>) = job_event j"
  by (simp_all add: job_chat_def job_event_def)

lemma times_ignore_claim:
  "mj_last_at (j\<lparr>jb_status := s, jb_claimed_by := c, jb_claimed_at := ca\<rparr>) = mj_last_at j"
  "jb_run_after (j\<lparr>jb_status := s, jb_claimed_by := c, jb_claimed_at := ca\<rparr>) = jb_run_after j"
  "fj_nudge_at (j\<lparr>jb_status := s, jb_claimed_by := c, jb_claimed_at := ca\<rparr>) = fj_nudge_at j"
  "fj_nudge_id (j\<lparr>jb_status := s, jb_claimed_by := c, jb_claimed_at := ca\<rparr>) = fj_nudge_id j"
  by simp_all

lemma decide_due_ignores_claim:
  "decide_due cfg e (j\<lparr>jb_status := s, jb_claimed_by := c, jb_claimed_at := ca\<rparr>) at = decide_due cfg e j at"
  by (simp only: decide_due_def write_nudge_def ids_ignore_claim)

lemma decide_ignores_claim: "decide cfg e (j\<lparr>jb_status := s, jb_claimed_by := c, jb_claimed_at := ca\<rparr>) = decide cfg e j"
  by (simp only: decide_def ids_ignore_claim decide_due_ignores_claim times_ignore_claim)

text \<open>A nudge can be sent twice. If the message was sent but the call that completes the job gets no
answer, the job is released: the row is queued with its old time and without the nudge, can be
claimed at once by any worker, and processing it again sends another message.\<close>

theorem lost_completion_sends_again:
  assumes nudge: "decide cfg e j = FNudge content" and lost: "\<not> fe_up e CallComplete" "fe_up e CallRelease"
    and held: "j \<in> set (fw_jobs w)" "held_by (job_chat j) worker j" and due: "jb_run_after j \<le> now"
    and w': "w' = run_job cfg sha256 e worker j w"
  shows "fw_nudges w' = fw_nudges w @ [(job_chat j, content)]
    \<and> (\<exists>y \<in> set (fw_jobs w'). claimable now stale y \<and>
         (\<forall>other v. fw_nudges (run_job cfg sha256 e other (take_claim now other y) v) = fw_nudges v @ [(job_chat j, content)]))"
proof -
  let ?w = "w\<lparr>fw_nudges := fw_nudges w @ [(job_chat j, content)]\<rparr>"
  have run: "run_job cfg sha256 e worker j w = release_job e worker (job_chat j) ?w"
    using nudge lost by (simp add: run_job_def process_claimed_job_def complete_claimed_def db_complete_def rpc_complete_def)
  have "j \<in> set (fw_jobs ?w)" using held(1) by simp
  from release_job_row [OF this held(2) lost(2)] have "release_row j \<in> set (fw_jobs w')" by (simp add: w' run)
  moreover have "claimable now stale (release_row j)" using due by (simp add: claimable_def release_row_def)
  moreover have "decide cfg e (take_claim now other (release_row j)) = FNudge content" for other
    using nudge decide_ignores_claim [where cfg = cfg and e = e and j = j and s = JRunning and c = "Some other" and ca = "Some now"] by (simp add: take_claim_def release_row_def)
  then have "fw_nudges (run_job cfg sha256 e other (take_claim now other (release_row j)) v) = fw_nudges v @ [(job_chat j, content)]" for other v
    by (simp add: run_job_def process_claimed_job_def job_chat_def take_claim_def release_row_def)
  ultimately show ?thesis using run by (auto simp: w')
qed

lemma fj_due: "jb_run_after example_fjob \<le> 100"
  by (simp add: example_fjob_def)

lemma lost_completion_sends_again_witness:
  "let e = example_fenv\<lparr>fe_up := (\<lambda>c. c \<noteq> CallComplete)\<rparr>; w' = run_job default_fcfg id e ''w'' example_fjob example_fworld
   in \<exists>y. fw_nudges (run_job default_fcfg id e ''w2'' y w') = [(''c'', [104, 105]), (''c'', [104, 105])]"
proof -
  let ?e = "example_fenv\<lparr>fe_up := (\<lambda>c. c \<noteq> CallComplete)\<rparr>"
  have "example_fjob \<in> set (fw_jobs example_fworld)" "held_by (job_chat example_fjob) ''w'' example_fjob"
    by (simp_all add: example_fworld_def held_by_def) (simp_all add: example_fjob_def)
  from lost_completion_sends_again [OF example_decide _ _ this, of "\<lambda>c. c \<noteq> CallComplete" 100 _ id 1200, OF _ _ _ refl]
  obtain y where first: "fw_nudges (run_job default_fcfg id ?e ''w'' example_fjob example_fworld) = [(''c'', [104, 105])]"
    and again: "\<And>other v. fw_nudges (run_job default_fcfg id ?e other (take_claim 100 other y) v) = fw_nudges v @ [(''c'', [104, 105])]"
    by (auto simp: example_fworld_def fj_due)
  show ?thesis unfolding Let_def by (rule exI [of _ "take_claim 100 ''w2'' y"]) (simp add: again first)
qed

end
