(* ===== verification/Raw_Memory.thy ===== *)
theory Raw_Memory
  imports Frank_Prelude "HOL-Library.Multiset"
begin

text \<open>
  What the group chats remember: the transcript tails and the stored summaries of
  migrations/group_chat_summary_v1.sql. A row holds its messages as parallel arrays, as the table
  does; the arrays are one list of messages by \<open>messages_of\<close>, and the functions on rows are shown to
  be the evident functions on that list. Times are in microseconds.
\<close>

section \<open>Transcript rows\<close>

record raw_row =
  rr_pruned_before :: "int option"
  rr_last_event_at :: int
  rr_event :: "string list"
  rr_message :: "string list"
  rr_role :: "string list"
  rr_user :: "string option list"
  rr_handle :: "string list"
  rr_sent :: "int list"
  rr_content :: "string list"
  rr_media :: "string list"
  rr_type :: "string list"

text \<open>One message, as the window function returns it.\<close>

record raw_msg =
  rm_event :: string
  rm_message :: string
  rm_role :: string
  rm_user :: "string option"
  rm_handle :: string
  rm_sent :: int
  rm_content :: string
  rm_media :: string
  rm_type :: string

type_synonym raw_table = "string \<rightharpoonup> raw_row"

text \<open>\<open>append_group_chat_raw_message_v1\<close>: insert, or append to each array unless the event is there, and
cut the arrays to the last \<open>keep_n\<close>. (The client never passes a null text.)\<close>

definition array_append :: "bool \<Rightarrow> 'x list \<Rightarrow> 'x \<Rightarrow> 'x list" where
  "array_append known xs x = (if known then xs else xs @ [x])"

definition fresh_raw :: "raw_msg \<Rightarrow> raw_row" where
  "fresh_raw m = \<lparr>rr_pruned_before = None, rr_last_event_at = rm_sent m, rr_event = [rm_event m], rr_message = [rm_message m],
     rr_role = [rm_role m], rr_user = [rm_user m], rr_handle = [rm_handle m], rr_sent = [rm_sent m],
     rr_content = [rm_content m], rr_media = [rm_media m], rr_type = [rm_type m]\<rparr>"

definition upsert_raw :: "raw_msg \<Rightarrow> raw_row \<Rightarrow> raw_row" where
  "upsert_raw m r =
     (let known = (rm_event m \<in> set (rr_event r)) in
      r\<lparr>rr_last_event_at := max (rr_last_event_at r) (rm_sent m),
        rr_event := array_append known (rr_event r) (rm_event m), rr_message := array_append known (rr_message r) (rm_message m),
        rr_role := array_append known (rr_role r) (rm_role m), rr_user := array_append known (rr_user r) (rm_user m),
        rr_handle := array_append known (rr_handle r) (rm_handle m), rr_sent := array_append known (rr_sent r) (rm_sent m),
        rr_content := array_append known (rr_content r) (rm_content m), rr_media := array_append known (rr_media r) (rm_media m),
        rr_type := array_append known (rr_type r) (rm_type m)\<rparr>)"

text \<open>\<open>a[k+1:]\<close> for every array\<close>

definition slice_raw :: "nat \<Rightarrow> raw_row \<Rightarrow> raw_row" where
  "slice_raw k r = r\<lparr>rr_event := drop k (rr_event r), rr_message := drop k (rr_message r), rr_role := drop k (rr_role r),
     rr_user := drop k (rr_user r), rr_handle := drop k (rr_handle r), rr_sent := drop k (rr_sent r),
     rr_content := drop k (rr_content r), rr_media := drop k (rr_media r), rr_type := drop k (rr_type r)\<rparr>"

definition keep_last :: "int \<Rightarrow> nat" where
  "keep_last n = nat (max 1 (min n 4000))"

definition upserted :: "string \<Rightarrow> raw_msg \<Rightarrow> raw_table \<Rightarrow> raw_row" where
  "upserted chat m t = (case t chat of None \<Rightarrow> fresh_raw m | Some r \<Rightarrow> upsert_raw m r)"

definition cut_raw :: "nat \<Rightarrow> raw_row \<Rightarrow> raw_row" where
  "cut_raw bound r = (let n = length (rr_event r) in if bound < n then slice_raw (n - bound) r else r)"

definition append_raw :: "string \<Rightarrow> raw_msg \<Rightarrow> int \<Rightarrow> raw_table \<Rightarrow> raw_row \<times> raw_table" where
  "append_raw chat m keep t = (let out = cut_raw (keep_last keep) (upserted chat m t) in (out, t(chat \<mapsto> out)))"

text \<open>The messages of a row: \<open>unnest\<close> of the arrays. (A shorter array is filled with nulls; the length
check of the table excludes it.)\<close>

definition messages_of :: "raw_row \<Rightarrow> raw_msg list" where
  "messages_of r = map (\<lambda>i. \<lparr>rm_event = rr_event r ! i, rm_message = rr_message r ! i, rm_role = rr_role r ! i,
     rm_user = rr_user r ! i, rm_handle = rr_handle r ! i, rm_sent = rr_sent r ! i, rm_content = rr_content r ! i,
     rm_media = rr_media r ! i, rm_type = rr_type r ! i\<rparr>) [0..<length (rr_event r)]"

definition messages_in :: "raw_table \<Rightarrow> string \<Rightarrow> raw_msg list" where
  "messages_in t chat = (case t chat of None \<Rightarrow> [] | Some r \<Rightarrow> messages_of r)"

text \<open>\<open>get_group_chat_raw_messages_window_v1\<close>: the newest messages of the window (ordered by time and
then by place), in ascending order.\<close>

definition raw_window :: "string \<Rightarrow> int option \<Rightarrow> int option \<Rightarrow> int \<Rightarrow> raw_table \<Rightarrow> raw_msg list" where
  "raw_window chat start_at end_at limit t =
     (let inside = filter (\<lambda>m. (start_at = None \<or> the start_at \<le> rm_sent m) \<and> (end_at = None \<or> rm_sent m < the end_at))
            (messages_in t chat);
          newest = take (nat (max 1 (min limit 1200))) (rev (sort_key rm_sent inside))
      in rev newest)"

text \<open>\<open>prune_group_chat_raw_memory_before_v1\<close>. Positions count from 1.\<close>

fun first_at_or_after :: "int \<Rightarrow> nat \<Rightarrow> int list \<Rightarrow> nat option" where
  "first_at_or_after before i [] = None"
| "first_at_or_after before i (t # ts) = (if before \<le> t then Some i else first_at_or_after before (i + 1) ts)"

definition keep_from :: "int \<Rightarrow> int \<Rightarrow> raw_row \<Rightarrow> int" where
  "keep_from before keep_tail r =
     (let tail = max 0 (min keep_tail 400) in
      case first_at_or_after before 1 (rr_sent r) of
        None \<Rightarrow> max 1 (int (length (rr_event r)) - tail + 1)
      | Some i \<Rightarrow> max 1 (int i - tail))"

definition prune_row :: "int \<Rightarrow> int \<Rightarrow> raw_row \<Rightarrow> raw_row" where
  "prune_row before keep_tail r = (slice_raw (nat (keep_from before keep_tail r - 1)) r)\<lparr>rr_pruned_before := Some before\<rparr>"

definition prune_raw :: "string \<Rightarrow> int \<Rightarrow> int \<Rightarrow> raw_table \<Rightarrow> raw_row option \<times> raw_table" where
  "prune_raw chat before keep_tail t = (case t chat of
     None \<Rightarrow> (None, t)
   | Some r \<Rightarrow> (Some (prune_row before keep_tail r), t(chat \<mapsto> prune_row before keep_tail r)))"

section \<open>Summary rows\<close>

record seg_row =
  sr_last_end :: int
  sr_end_at :: "int list"
  sr_message_at :: "int list"
  sr_event :: "string list"
  sr_md :: "string list"

type_synonym seg_table = "string \<rightharpoonup> seg_row"

text \<open>\<open>append_group_chat_summary_memory_segment_v1\<close>\<close>

definition fresh_segment :: "string \<Rightarrow> int \<Rightarrow> int \<Rightarrow> string \<Rightarrow> seg_row" where
  "fresh_segment event message_at end_at md =
     \<lparr>sr_last_end = end_at, sr_end_at = [end_at], sr_message_at = [message_at], sr_event = [event], sr_md = [md]\<rparr>"

definition extend_segment :: "string \<Rightarrow> int \<Rightarrow> int \<Rightarrow> string \<Rightarrow> seg_row \<Rightarrow> seg_row" where
  "extend_segment event message_at end_at md r =
     (let known = (event \<in> set (sr_event r)) in
      r\<lparr>sr_end_at := array_append known (sr_end_at r) end_at, sr_message_at := array_append known (sr_message_at r) message_at,
        sr_event := array_append known (sr_event r) event, sr_md := array_append known (sr_md r) md,
        sr_last_end := max (sr_last_end r) end_at\<rparr>)"

definition append_segment :: "string \<Rightarrow> string \<Rightarrow> int \<Rightarrow> int \<Rightarrow> string \<Rightarrow> seg_table \<Rightarrow> seg_row \<times> seg_table" where
  "append_segment chat event message_at end_at md t =
     (let out = (case t chat of None \<Rightarrow> fresh_segment event message_at end_at md
        | Some r \<Rightarrow> extend_segment event message_at end_at md r)
      in (out, t(chat \<mapsto> out)))"

section \<open>Well-formed rows\<close>

text \<open>The check constraints of the tables, and that no event is there twice.\<close>

definition raw_ok :: "nat \<Rightarrow> raw_row \<Rightarrow> bool" where
  "raw_ok bound r \<longleftrightarrow> length (rr_event r) \<le> bound \<and> distinct (rr_event r) \<and>
     length (rr_message r) = length (rr_event r) \<and> length (rr_role r) = length (rr_event r) \<and>
     length (rr_user r) = length (rr_event r) \<and> length (rr_handle r) = length (rr_event r) \<and>
     length (rr_sent r) = length (rr_event r) \<and> length (rr_content r) = length (rr_event r) \<and>
     length (rr_media r) = length (rr_event r) \<and> length (rr_type r) = length (rr_event r)"

definition seg_ok :: "seg_row \<Rightarrow> bool" where
  "seg_ok r \<longleftrightarrow> distinct (sr_event r) \<and> sr_event r \<noteq> [] \<and> length (sr_end_at r) = length (sr_event r) \<and>
     length (sr_message_at r) = length (sr_event r) \<and> length (sr_md r) = length (sr_event r) \<and>
     list_all (\<lambda>e. e \<le> sr_last_end r) (sr_end_at r)"

lemma length_array_append [simp]: "length (array_append known xs x) = (if known then length xs else Suc (length xs))"
  by (simp add: array_append_def)

text \<open>The summaries of a row, and that they are only added to.\<close>

definition summaries_of :: "seg_row \<Rightarrow> (string \<times> string) list" where
  "summaries_of r = zip (sr_event r) (sr_md r)"

definition seg_extends :: "seg_row \<Rightarrow> seg_row \<Rightarrow> bool" where
  "seg_extends r r' \<longleftrightarrow> (\<exists>more. summaries_of r' = summaries_of r @ more) \<and> sr_last_end r \<le> sr_last_end r'"

lemma seg_extends_refl: "seg_extends r r"
  by (simp add: seg_extends_def)

lemma seg_extends_trans: "seg_extends r s \<Longrightarrow> seg_extends s u \<Longrightarrow> seg_extends r u"
  unfolding seg_extends_def by auto

lemma seg_ok_fresh: "seg_ok (fresh_segment event at end_at md)"
  by (simp add: seg_ok_def fresh_segment_def)

lemma seg_ok_extend: "seg_ok r \<Longrightarrow> seg_ok (extend_segment event at end_at md r)"
  by (auto simp: seg_ok_def extend_segment_def array_append_def Let_def list_all_iff)

lemma extend_segment_extends: "seg_ok r \<Longrightarrow> seg_extends r (extend_segment event at end_at md r)"
  by (simp add: seg_ok_def seg_extends_def summaries_of_def extend_segment_def array_append_def Let_def)

lemma append_segment_rows:
  assumes "\<forall>c r. t c = Some r \<longrightarrow> seg_ok r"
  shows "snd (append_segment chat event at end_at md t) c = Some r \<Longrightarrow> seg_ok r"
    and "t c = Some s \<Longrightarrow> \<exists>r. snd (append_segment chat event at end_at md t) c = Some r \<and> seg_extends s r"
  using assms by (auto simp: append_segment_def Let_def seg_ok_fresh seg_ok_extend extend_segment_extends seg_extends_refl
      split: option.splits if_splits)

lemma keep_last_bounds [simp]: "1 \<le> keep_last n" "keep_last n \<le> 4000" "0 < keep_last n"
  by (auto simp: keep_last_def)

lemma raw_ok_slice: "raw_ok b r \<Longrightarrow> raw_ok (min b (length (rr_event r) - k)) (slice_raw k r)"
  by (auto simp: raw_ok_def slice_raw_def distinct_drop)

lemma raw_ok_mono: "raw_ok b r \<Longrightarrow> b \<le> c \<Longrightarrow> raw_ok c r"
  by (auto simp: raw_ok_def)

lemma raw_ok_upsert: "raw_ok b r \<Longrightarrow> raw_ok (Suc b) (upsert_raw m r)"
  by (auto simp: raw_ok_def upsert_raw_def Let_def array_append_def)

lemma raw_ok_fresh: "raw_ok 1 (fresh_raw m)"
  by (simp add: raw_ok_def fresh_raw_def)

lemma raw_ok_pruned [simp]: "raw_ok b (r\<lparr>rr_pruned_before := p\<rparr>) = raw_ok b r"
  by (simp add: raw_ok_def)

lemma raw_ok_exact: "raw_ok b r \<Longrightarrow> raw_ok (length (rr_event r)) r"
  by (simp add: raw_ok_def)

lemma raw_ok_upserted: "\<forall>c r. t c = Some r \<longrightarrow> raw_ok 4000 r \<Longrightarrow> raw_ok 4001 (upserted chat m t)"
  using raw_ok_mono [OF raw_ok_fresh] raw_ok_upsert [of 4000] by (auto simp: upserted_def split: option.splits)

lemma raw_ok_cut: "raw_ok b r \<Longrightarrow> raw_ok bound (cut_raw bound r)"
  using raw_ok_mono [OF raw_ok_slice [of b r "length (rr_event r) - bound"], of bound] raw_ok_mono [OF raw_ok_exact [of b r], of bound]
  by (simp add: cut_raw_def Let_def)

lemma append_raw_ok:
  "\<forall>c r. t c = Some r \<longrightarrow> raw_ok 4000 r \<Longrightarrow> append_raw chat m keep t = (out, t')
     \<Longrightarrow> raw_ok (keep_last keep) out \<and> t' = t(chat \<mapsto> out)"
  using raw_ok_cut [OF raw_ok_upserted] by (auto simp: append_raw_def Let_def)

section \<open>The arrays as one list\<close>

text \<open>What the functions are on the list of messages.\<close>

definition append_msg :: "nat \<Rightarrow> raw_msg \<Rightarrow> raw_msg list \<Rightarrow> raw_msg list" where
  "append_msg bound m ms =
     (let ms' = (if rm_event m \<in> rm_event ` set ms then ms else ms @ [m]) in drop (length ms' - bound) ms')"

definition prune_msgs :: "int \<Rightarrow> nat \<Rightarrow> raw_msg list \<Rightarrow> raw_msg list" where
  "prune_msgs before keep_tail ms =
     drop (length (takeWhile (\<lambda>m. rm_sent m < before) ms) - keep_tail) ms"

lemma length_messages_of [simp]: "length (messages_of r) = length (rr_event r)"
  by (simp add: messages_of_def)

lemma events_messages_of [simp]: "map rm_event (messages_of r) = rr_event r"
  by (rule nth_equalityI) (simp_all add: messages_of_def)

lemma event_messages_of: "rm_event ` set (messages_of r) = set (rr_event r)"
  by (metis events_messages_of list.set_map)

lemma messages_of_slice: "raw_ok b r \<Longrightarrow> messages_of (slice_raw k r) = drop k (messages_of r)"
  by (rule nth_equalityI) (auto simp: messages_of_def slice_raw_def raw_ok_def)

lemma messages_of_pruned [simp]: "messages_of (r\<lparr>rr_pruned_before := p\<rparr>) = messages_of r"
  by (simp add: messages_of_def)

lemma messages_of_fresh [simp]: "messages_of (fresh_raw m) = [m]"
  by (simp add: messages_of_def fresh_raw_def)

lemma messages_of_upsert:
  assumes "raw_ok b r"
  shows "messages_of (upsert_raw m r) = (if rm_event m \<in> set (rr_event r) then messages_of r else messages_of r @ [m])"
proof (cases "rm_event m \<in> set (rr_event r)")
  case True
  then show ?thesis by (simp add: upsert_raw_def array_append_def messages_of_def)
next
  case False
  show ?thesis
    by (rule nth_equalityI) (use assms False in \<open>auto simp: upsert_raw_def array_append_def messages_of_def raw_ok_def nth_append less_Suc_eq\<close>)
qed

lemma messages_of_cut: "raw_ok b r \<Longrightarrow> messages_of (cut_raw bound r) = drop (length (messages_of r) - bound) (messages_of r)"
  by (simp add: cut_raw_def messages_of_slice Let_def)

lemma messages_of_upserted:
  assumes "\<forall>c r. t c = Some r \<longrightarrow> raw_ok 4000 r"
  shows "messages_of (upserted chat m t) =
    (if rm_event m \<in> rm_event ` set (messages_in t chat) then messages_in t chat else messages_in t chat @ [m])"
proof (cases "t chat")
  case None
  then show ?thesis by (simp add: upserted_def messages_in_def)
next
  case (Some r)
  then have "raw_ok 4000 r" using assms by blast
  from messages_of_upsert [OF this] Some show ?thesis by (simp add: upserted_def messages_in_def event_messages_of)
qed

lemma append_raw_messages:
  assumes "\<forall>c r. t c = Some r \<longrightarrow> raw_ok 4000 r"
  shows "messages_in (snd (append_raw chat m keep t)) c =
    (if c = chat then append_msg (keep_last keep) m (messages_in t chat) else messages_in t c)"
proof -
  have "messages_of (cut_raw (keep_last keep) (upserted chat m t)) = append_msg (keep_last keep) m (messages_in t chat)"
    unfolding messages_of_cut [OF raw_ok_upserted [OF assms]] messages_of_upserted [OF assms] append_msg_def Let_def ..
  then show ?thesis by (simp add: append_raw_def messages_in_def Let_def)
qed

lemma first_at_or_after_takeWhile:
  "first_at_or_after before i ts =
     (if (\<forall>t \<in> set ts. t < before) then None else Some (i + length (takeWhile (\<lambda>t. t < before) ts)))"
  by (induction ts arbitrary: i) auto

lemma sent_messages_of: "raw_ok b r \<Longrightarrow> map rm_sent (messages_of r) = rr_sent r"
  by (rule nth_equalityI) (auto simp: messages_of_def raw_ok_def)

lemma prune_row_messages:
  assumes "raw_ok b r"
  shows "messages_of (prune_row before keep_tail r) = prune_msgs before (nat (max 0 (min keep_tail 400))) (messages_of r)"
proof -
  let ?k = "length (takeWhile (\<lambda>t. t < before) (rr_sent r))"
  have len: "length (rr_sent r) = length (rr_event r)" using assms by (simp add: raw_ok_def)
  have k: "length (takeWhile (\<lambda>m. rm_sent m < before) (messages_of r)) = ?k"
    using sent_messages_of [OF assms] by (metis (mono_tags, lifting) length_map takeWhile_map comp_def takeWhile_cong)
  have "?k = length (rr_event r)" if "\<forall>t \<in> set (rr_sent r). t < before"
    using that len by (metis takeWhile_eq_all_conv)
  then have "nat (keep_from before keep_tail r - 1) = ?k - nat (max 0 (min keep_tail 400))"
    by (auto simp: keep_from_def first_at_or_after_takeWhile Let_def)
  then show ?thesis using messages_of_slice [OF assms] k by (simp add: prune_row_def prune_msgs_def)
qed

section \<open>Any use of the transcripts\<close>

datatype raw_cmd = RAppend string raw_msg int | RPrune string int int

fun exec_raw :: "raw_cmd \<Rightarrow> raw_table \<Rightarrow> raw_table" where
  "exec_raw (RAppend chat m keep) t = snd (append_raw chat m keep t)"
| "exec_raw (RPrune chat before tail) t = snd (prune_raw chat before tail t)"

fun spec_raw :: "raw_cmd \<Rightarrow> (string \<Rightarrow> raw_msg list) \<Rightarrow> string \<Rightarrow> raw_msg list" where
  "spec_raw (RAppend chat m keep) l = l(chat := append_msg (keep_last keep) m (l chat))"
| "spec_raw (RPrune chat before tail) l = l(chat := prune_msgs before (nat (max 0 (min tail 400))) (l chat))"

definition rows_ok :: "raw_table \<Rightarrow> bool" where
  "rows_ok t \<longleftrightarrow> (\<forall>c r. t c = Some r \<longrightarrow> raw_ok 4000 r)"

lemma exec_raw_ok: "rows_ok t \<Longrightarrow> rows_ok (exec_raw cmd t)"
proof (cases cmd)
  case (RAppend chat m keep)
  assume ok: "rows_ok t"
  obtain out t' where a: "append_raw chat m keep t = (out, t')" by fastforce
  from append_raw_ok [OF _ this] ok have "raw_ok (keep_last keep) out" "t' = t(chat \<mapsto> out)" by (auto simp: rows_ok_def)
  with ok raw_ok_mono [of "keep_last keep" out 4000] show ?thesis by (simp add: RAppend a rows_ok_def)
next
  case (RPrune chat before tail)
  assume ok: "rows_ok t"
  have "raw_ok 4000 (prune_row before tail r)" if "raw_ok 4000 r" for r
    using raw_ok_mono [OF raw_ok_slice [OF that, of "nat (keep_from before tail r - 1)"], of 4000] by (simp add: prune_row_def)
  with ok RPrune show ?thesis by (auto simp: rows_ok_def prune_raw_def split: option.splits)
qed

lemma exec_raw_spec: "rows_ok t \<Longrightarrow> messages_in (exec_raw cmd t) = spec_raw cmd (messages_in t)"
proof (rule ext)
  fix c
  assume ok: "rows_ok t"
  show "messages_in (exec_raw cmd t) c = spec_raw cmd (messages_in t) c"
  proof (cases cmd)
    case (RAppend chat m keep)
    then show ?thesis using append_raw_messages [of t] ok by (simp add: rows_ok_def)
  next
    case (RPrune chat before tail)
    show ?thesis
    proof (cases "t chat")
      case None
      then show ?thesis by (simp add: RPrune prune_raw_def messages_in_def prune_msgs_def)
    next
      case (Some r)
      then have "raw_ok 4000 r" using ok by (simp add: rows_ok_def)
      from prune_row_messages [OF this] Some show ?thesis by (simp add: RPrune prune_raw_def messages_in_def)
    qed
  qed
qed

lemma run_raw_ok: "rows_ok t \<Longrightarrow> rows_ok (fold exec_raw cmds t)"
  by (induction cmds arbitrary: t) (simp_all add: exec_raw_ok)

lemma run_raw_spec: "rows_ok t \<Longrightarrow> messages_in (fold exec_raw cmds t) = fold spec_raw cmds (messages_in t)"
  by (induction cmds arbitrary: t) (simp_all add: exec_raw_ok exec_raw_spec)

lemma run_raw_empty: "messages_in (fold exec_raw cmds Map.empty) = fold spec_raw cmds (\<lambda>_. [])"
proof -
  have "messages_in Map.empty = (\<lambda>_. [])" by (rule ext) (simp add: messages_in_def)
  then show ?thesis using run_raw_spec [of Map.empty cmds] by (simp add: rows_ok_def)
qed

section \<open>Properties\<close>

text \<open>The rows are well-formed. After any appends and prunings of any chats, the nine arrays of a row have
the same length (the check constraint of the table), at most 4000 entries, and no event twice.\<close>

theorem transcript_rows_well_formed:
  "fold exec_raw cmds Map.empty chat = Some r \<Longrightarrow> raw_ok 4000 r"
  using run_raw_ok [of Map.empty cmds] by (simp add: rows_ok_def)

text \<open>C19: The arrays implement a list of messages. Appending adds a message at the end unless its event is
there, and forgets the oldest beyond the bound; pruning forgets messages from the front that were
sent before the boundary, all but the given number before the first that was not; a chat's
transcript is not touched by what is done to others.\<close>

theorem transcripts_refine_lists:
  "messages_in (fold exec_raw cmds Map.empty) = fold spec_raw cmds (\<lambda>_. [])"
  by (rule run_raw_empty)

text \<open>The window function answers the newest messages of the window in ascending order: every answered
message is inside the window, there are as many as asked for if there are enough, and the
messages left out are no newer than those answered.\<close>

theorem window_is_newest:
  "let inside = filter (\<lambda>m. (start_at = None \<or> the start_at \<le> rm_sent m) \<and> (end_at = None \<or> rm_sent m < the end_at)) (messages_in t chat);
       w = raw_window chat start_at end_at limit t
   in sorted (map rm_sent w) \<and> length w = min (length inside) (nat (max 1 (min limit 1200)))
    \<and> (\<exists>older. mset inside = mset older + mset w \<and> list_all (\<lambda>m. list_all (\<lambda>x. rm_sent m \<le> rm_sent x) w) older)"
proof -
  define inside where
    "inside = filter (\<lambda>m. (start_at = None \<or> the start_at \<le> rm_sent m) \<and> (end_at = None \<or> rm_sent m < the end_at)) (messages_in t chat)"
  define s where "s = sort_key rm_sent inside"
  define lim where "lim = nat (max 1 (min limit 1200))"
  let ?k = "length s - lim"
  have w: "raw_window chat start_at end_at limit t = drop ?k s"
    by (simp add: raw_window_def Let_def rev_take s_def inside_def lim_def)
  have sorted: "sorted (map rm_sent s)" by (simp add: s_def)
  have "mset inside = mset (take ?k s) + mset (drop ?k s)"
    by (metis append_take_drop_id mset_append mset_sort s_def)
  moreover have "rm_sent m \<le> rm_sent x" if "m \<in> set (take ?k s)" "x \<in> set (drop ?k s)" for m x
  proof -
    have "sorted (map rm_sent (take ?k s) @ map rm_sent (drop ?k s))" using sorted by (metis append_take_drop_id map_append)
    with that show ?thesis unfolding sorted_append by simp
  qed
  then have older: "list_all (\<lambda>m. list_all (\<lambda>x. rm_sent m \<le> rm_sent x) (drop ?k s)) (take ?k s)" by (simp add: list_all_iff)
  ultimately have "\<exists>older. mset inside = mset older + mset (drop ?k s) \<and> list_all (\<lambda>m. list_all (\<lambda>x. rm_sent m \<le> rm_sent x) (drop ?k s)) older"
    by blast
  moreover have "length (drop ?k s) = min (length inside) lim" by (simp add: s_def)
  moreover have "sorted (map rm_sent (drop ?k s))" using sorted by (metis drop_map sorted_wrt_drop)
  ultimately show ?thesis unfolding Let_def inside_def [symmetric] lim_def [symmetric] w by (intro conjI)
qed

text \<open>Two messages, one of them twice.\<close>

definition example_msg :: "string \<Rightarrow> int \<Rightarrow> raw_msg" where
  "example_msg event at = \<lparr>rm_event = event, rm_message = event, rm_role = ''user'', rm_user = None, rm_handle = '''', rm_sent = at,
     rm_content = ''hi'', rm_media = '''', rm_type = ''user_message''\<rparr>"

lemma transcript_rows_well_formed_witness:
  "\<exists>r. fold exec_raw [RAppend ''c'' (example_msg ''a'' 1) 800, RAppend ''c'' (example_msg ''a'' 1) 800,
      RAppend ''c'' (example_msg ''b'' 2) 800] Map.empty ''c'' = Some r \<and> rr_event r = [''a'', ''b''] \<and> raw_ok 4000 r"
proof -
  let ?cmds = "[RAppend ''c'' (example_msg ''a'' 1) 800, RAppend ''c'' (example_msg ''a'' 1) 800, RAppend ''c'' (example_msg ''b'' 2) 800]"
  have step: "exec_raw (RAppend c m keep) t = t(c \<mapsto> cut_raw (keep_last keep) (upserted c m t))" for c m keep t
    by (simp add: append_raw_def Let_def)
  obtain r where r: "fold exec_raw ?cmds Map.empty ''c'' = Some r" unfolding fold_simps comp_apply step by simp
  have "map rm_event (fold spec_raw ?cmds (\<lambda>_. []) ''c'') = [''a'', ''b'']"
    by (simp add: append_msg_def example_msg_def keep_last_def)
  then have "rr_event r = [''a'', ''b'']"
    unfolding run_raw_empty [symmetric] messages_in_def r by simp
  with r transcript_rows_well_formed [OF r] show ?thesis by blast
qed

end
