(* ===== verification/Summary_Worker.thy ===== *)
theory Summary_Worker
  imports Followup_Service Raw_Memory
begin

text \<open>
  The summaries of group chats: the client methods of app/database/client/group_chat_summary.py over
  the transcripts and summaries of Raw_Memory and a table of message jobs (Message_Jobs), and the
  worker app/groupchat/summary/worker.py. A job is processed in two parts: \<open>sdecide\<close> is what the
  worker makes of what it reads, up to the answer of the language model, and \<open>sperform\<close> what it
  then writes; other workers and messages may come between.
\<close>

section \<open>The job table\<close>

definition fresh_sjob :: mjob where
  "fresh_sjob = \<lparr>jb_key = '''', jb_status = JQueued, jb_run_after = 0, jb_attempts = 0, jb_error = None, jb_claimed_by = None,
     jb_claimed_at = None, mj_last_at = 0, mj_last_id = ''''\<rparr>"

definition sj_schedule :: "bool \<Rightarrow> string \<Rightarrow> int \<Rightarrow> string \<Rightarrow> int \<Rightarrow> mjob list \<Rightarrow> mjob option \<times> mjob list" where
  "sj_schedule up chat at event minutes t = rpc_schedule id fresh_sjob 5 up chat at event minutes t"

definition sj_claim :: "bool \<Rightarrow> int \<Rightarrow> (mjob \<Rightarrow> bool) \<Rightarrow> string \<Rightarrow> int \<Rightarrow> int \<Rightarrow> mjob list \<Rightarrow> mjob list \<times> mjob list" where
  "sj_claim up now locked worker max_jobs stale_minutes t = rpc_claim 20 up now locked worker max_jobs stale_minutes t"

definition sj_release :: "bool \<Rightarrow> string \<Rightarrow> string \<Rightarrow> mjob list \<Rightarrow> bool \<times> mjob list" where
  "sj_release up chat worker t = rpc_release up chat worker t"

definition sj_complete :: "bool \<Rightarrow> string \<Rightarrow> string \<Rightarrow> string \<Rightarrow> mjob list \<Rightarrow> mjob option option \<times> mjob list" where
  "sj_complete up chat worker expected t = rpc_complete id up chat worker expected t"

definition sj_fail :: "bool \<Rightarrow> int \<Rightarrow> string \<Rightarrow> string \<Rightarrow> string \<Rightarrow> string \<Rightarrow> int \<Rightarrow> int \<Rightarrow> mjob list \<Rightarrow> mjob option option \<times> mjob list" where
  "sj_fail up now chat worker expected error backoff max_attempts t =
     rpc_fail up now chat worker expected error backoff max_attempts t"

lemmas sj_defs = sj_schedule_def sj_claim_def sj_release_def sj_complete_def sj_fail_def

lemma own_id: "own_columns id"
  by (simp add: own_columns_def)

interpretation sjobs: message_jobs id fresh_sjob
  by unfold_locales (rule own_id)

section \<open>The client methods\<close>

record sworld =
  sw_raw :: raw_table
  sw_segs :: seg_table
  sw_jobs :: "mjob list"

text \<open>One transaction: the message is appended and the summary scheduled, or neither.\<close>

definition ingest_message :: "bool \<Rightarrow> string \<Rightarrow> raw_msg \<Rightarrow> int \<Rightarrow> int \<Rightarrow> sworld \<Rightarrow> mjob option \<times> sworld" where
  "ingest_message up chat m minutes keep w =
     (if \<not> up then (None, w)
      else (case sj_schedule True chat (rm_sent m) (rm_event m) minutes (sw_jobs w) of (row, t) \<Rightarrow>
        (row, w\<lparr>sw_raw := snd (append_raw chat (m\<lparr>rm_role := ''user'', rm_type := ''user_message''\<rparr>) (max 1 (min (or_default keep 800) 4000)) (sw_raw w)),
                sw_jobs := t\<rparr>)))"

definition append_message :: "bool \<Rightarrow> string \<Rightarrow> raw_msg \<Rightarrow> int \<Rightarrow> sworld \<Rightarrow> raw_row option \<times> sworld" where
  "append_message up chat m keep w =
     (if \<not> up then (None, w)
      else (case append_raw chat m (max 1 (min (or_default keep 800) 4000)) (sw_raw w) of (row, t) \<Rightarrow> (Some row, w\<lparr>sw_raw := t\<rparr>)))"

definition read_window :: "bool \<Rightarrow> string \<Rightarrow> int \<Rightarrow> sworld \<Rightarrow> raw_msg list" where
  "read_window up chat limit w = (if \<not> up then [] else raw_window chat None None (max 1 (min (or_default limit 200) 500)) (sw_raw w))"

definition prune_before :: "bool \<Rightarrow> string \<Rightarrow> int \<Rightarrow> int \<Rightarrow> sworld \<Rightarrow> raw_row option option \<times> sworld" where
  "prune_before up chat before keep_tail w =
     (if \<not> up then (None, w)
      else (case prune_raw chat before (max 0 (min (or_default keep_tail 40) 400)) (sw_raw w) of (row, t) \<Rightarrow> (Some row, w\<lparr>sw_raw := t\<rparr>)))"

definition read_memory :: "bool \<Rightarrow> string \<Rightarrow> sworld \<Rightarrow> seg_row option" where
  "read_memory up chat w = (if \<not> up then None else sw_segs w chat)"

definition store_segment :: "bool \<Rightarrow> string \<Rightarrow> string \<Rightarrow> int \<Rightarrow> int \<Rightarrow> string \<Rightarrow> sworld \<Rightarrow> seg_row option \<times> sworld" where
  "store_segment up chat event message_at end_at md w =
     (if \<not> up then (None, w)
      else (case append_segment chat event message_at end_at (take 20000 md) (sw_segs w) of (row, t) \<Rightarrow> (Some row, w\<lparr>sw_segs := t\<rparr>)))"

section \<open>The transcript\<close>

text \<open>\<open>_format_transcript_lines\<close>; \<open>isotime\<close> is \<open>utc_iso\<close>, and \<open>parse\<close> is \<open>parse_timestamp\<close> of a column.\<close>

definition clip :: "string \<Rightarrow> nat \<Rightarrow> string" where
  "clip s n = (if length s \<le> n then s else take n s)"

definition line_name :: "(string \<rightharpoonup> string) \<Rightarrow> raw_msg \<Rightarrow> string" where
  "line_name names m =
     (let role = py_lower (rm_role m); uid = py_strip (or_str (rm_user m) ''''); name = (if role = ''assistant'' then ''frank'' else ''user'')
      in if role = ''user'' \<and> uid \<noteq> []
         then (case names uid of None \<Rightarrow> name
           | Some n \<Rightarrow> (let s = py_strip (if n = [] then name else n) in if s = [] then name else s))
         else name)"

definition format_line :: "(int \<Rightarrow> int option) \<Rightarrow> (int \<Rightarrow> string) \<Rightarrow> (string \<rightharpoonup> string) \<Rightarrow> raw_msg \<Rightarrow> string" where
  "format_line parse isotime names m =
     (let typ = py_strip (rm_type m);
          label = py_lower (rm_role m) @ '':'' @ line_name names m @ (if typ = [] then [] else '' ('' @ clip typ 32 @ '')'')
      in ''['' @ (case parse (rm_sent m) of None \<Rightarrow> [] | Some ts \<Rightarrow> isotime ts) @ ''] '' @ label @ '': '' @ clip (py_strip (rm_content m)) 360)"

definition has_line :: "raw_msg \<Rightarrow> bool" where
  "has_line m \<longleftrightarrow> py_lower (rm_role m) \<in> {''user'', ''assistant''} \<and> py_strip (rm_content m) \<noteq> []"

definition format_transcript_lines :: "(int \<Rightarrow> int option) \<Rightarrow> (int \<Rightarrow> string) \<Rightarrow> (string \<rightharpoonup> string) \<Rightarrow> raw_msg list \<Rightarrow> string list" where
  "format_transcript_lines parse isotime names ms =
     (let out = map (format_line parse isotime names) (filter has_line ms) in
      if length out \<le> 120 then out else drop (length out - 120) out)"

section \<open>What the worker reads\<close>

record sprompt =
  sp_chat :: string
  sp_names :: "string list"
  sp_start :: "int option"
  sp_end :: int
  sp_lines :: "string list"

datatype scall = SSchedule | SRelease | SComplete | SFailCall | SWindow | SMemory | SAppend | SPrune

text \<open>\<open>se_chat\<close>, \<open>se_participants\<close> and \<open>se_user\<close> are the answers about the participants (nothing if the
read fails; a look-up of a user may raise).\<close>

record senv =
  se_db_now :: int
  se_parse :: "int \<Rightarrow> int option"
  se_iso :: "int \<Rightarrow> string"
  se_chat :: bool
  se_participants :: "string option list"
  se_user :: "string \<Rightarrow> string + string option"
  se_build :: "sprompt \<Rightarrow> string option"
  se_llm :: "sprompt \<Rightarrow> string + string"
  se_up :: "scall \<Rightarrow> bool"

record scfg =
  sc_enabled :: bool
  sc_minutes :: int
  sc_stale_minutes :: int
  sc_max_attempts :: int

definition default_scfg :: scfg where
  "default_scfg = \<lparr>sc_enabled = True, sc_minutes = 120, sc_stale_minutes = 20, sc_max_attempts = 6\<rparr>"

fun names_loop :: "(string \<Rightarrow> string + string option) \<Rightarrow> nat \<Rightarrow> string option list \<Rightarrow> (string \<rightharpoonup> string) \<Rightarrow> string list
    \<Rightarrow> (string \<rightharpoonup> string) \<times> string list" where
  "names_loop user i [] byid names = (byid, names)"
| "names_loop user i (p # ps) byid names =
     (let uid = py_strip (or_str p '''') in
      if uid = [] then names_loop user (i + 1) ps byid names
      else (case user uid of Inl e \<Rightarrow> (byid, names)
        | Inr nm \<Rightarrow> (let n = py_strip (or_str nm ''''); name = (if n = [] then ''user '' @ str_nat (i + 1) else n)
            in names_loop user (i + 1) ps (byid(uid \<mapsto> name)) (names @ [name]))))"

definition resolve_names :: "senv \<Rightarrow> (string \<rightharpoonup> string) \<times> string list" where
  "resolve_names e = (if se_chat e then names_loop (se_user e) 0 (se_participants e) Map.empty [] else (Map.empty, []))"

text \<open>The anchor is read off the messages as in the follow-ups.\<close>

definition as_fmsg :: "(int \<Rightarrow> int option) \<Rightarrow> raw_msg \<Rightarrow> fmsg" where
  "as_fmsg parse m = \<lparr>fm_role = Some (rm_role m), fm_sent_at = parse (rm_sent m), fm_event = Some (rm_event m)\<rparr>"

definition in_segment :: "(int \<Rightarrow> int option) \<Rightarrow> int option \<Rightarrow> int \<Rightarrow> raw_msg \<Rightarrow> bool" where
  "in_segment parse start_at end_at m = (case parse (rm_sent m) of None \<Rightarrow> False
     | Some ts \<Rightarrow> \<not> (start_at \<noteq> None \<and> ts < the start_at) \<and> \<not> end_at \<le> ts)"

definition is_anchor :: "string \<Rightarrow> raw_msg \<Rightarrow> bool" where
  "is_anchor event m \<longleftrightarrow> py_strip (rm_event m) = event \<and> py_lower (rm_role m) = ''user''"

section \<open>One job\<close>

datatype saction =
    SNothing
  | SDoRelease
  | SDoFail string
  | SDoComplete
  | SReschedule int string
  | SStore int int string
  | SCrash string

definition sjob_chat :: "mjob \<Rightarrow> string" where
  "sjob_chat j = py_strip (jb_key j)"

definition sjob_event :: "mjob \<Rightarrow> string" where
  "sjob_event j = py_strip (mj_last_id j)"

definition summarize :: "senv \<Rightarrow> mjob \<Rightarrow> int \<Rightarrow> int option \<Rightarrow> int \<Rightarrow> raw_msg list \<Rightarrow> saction" where
  "summarize e j last_at start_at end_at window_msgs = (case resolve_names e of (byid, names) \<Rightarrow>
     (let ls = format_transcript_lines (se_parse e) (se_iso e) byid window_msgs;
          prompt = \<lparr>sp_chat = sjob_chat j, sp_names = names, sp_start = start_at, sp_end = end_at, sp_lines = ls\<rparr>
      in if ls = [] then SDoFail ''empty_transcript_window''
         else (case se_build e prompt of Some err \<Rightarrow> SCrash err
           | None \<Rightarrow> (case se_llm e prompt of Inl err \<Rightarrow> SDoFail (''llm_failed:'' @ take 240 err)
             | Inr raw \<Rightarrow> (let md = py_strip raw in
                 if md = [] then SDoFail ''empty_llm_output'' else SStore last_at end_at md)))))"

definition sdecide_segment :: "senv \<Rightarrow> sworld \<Rightarrow> mjob \<Rightarrow> raw_msg list \<Rightarrow> int \<Rightarrow> int \<Rightarrow> saction" where
  "sdecide_segment e w j messages last_at run_after =
     (let memory = read_memory (se_up e SMemory) (sjob_chat j) w;
          start_at = Option.bind (map_option sr_last_end memory) (se_parse e);
          existing = (case memory of None \<Rightarrow> [] | Some r \<Rightarrow> sr_event r);
          window_msgs = filter (in_segment (se_parse e) start_at run_after) messages
      in if sjob_event j \<in> set existing then SDoComplete
         else if \<not> list_ex (is_anchor (sjob_event j)) window_msgs then SDoFail ''anchor_not_found_in_raw_window''
         else summarize e j last_at start_at run_after window_msgs)"

definition sdecide :: "scfg \<Rightarrow> senv \<Rightarrow> sworld \<Rightarrow> mjob \<Rightarrow> saction" where
  "sdecide cfg e w j =
     (if sjob_chat j = [] then SNothing
      else if sjob_event j = [] then SDoRelease
      else (case (se_parse e (mj_last_at j), se_parse e (jb_run_after j)) of
        (Some last_at, Some run_after) \<Rightarrow>
          (let messages = read_window (se_up e SWindow) (sjob_chat j) 200 w in
           if messages = [] then SDoFail ''raw_memory_empty''
           else (case extract_latest_user_anchor (map (as_fmsg (se_parse e)) messages) of
               (Some latest_at, latest_id) \<Rightarrow>
                 if secs 1 < latest_at - last_at
                 then SReschedule latest_at (if latest_id = [] then sjob_event j else latest_id)
                 else sdecide_segment e w j messages last_at run_after
             | (None, _) \<Rightarrow> sdecide_segment e w j messages last_at run_after))
      | _ \<Rightarrow> SDoFail ''missing_job_timestamps''))"

definition srelease :: "senv \<Rightarrow> string \<Rightarrow> mjob \<Rightarrow> sworld \<Rightarrow> sworld" where
  "srelease e worker j w = w\<lparr>sw_jobs := snd (sj_release (se_up e SRelease) (sjob_chat j) worker (sw_jobs w))\<rparr>"

definition sfail :: "scfg \<Rightarrow> senv \<Rightarrow> string \<Rightarrow> mjob \<Rightarrow> string \<Rightarrow> sworld \<Rightarrow> sworld" where
  "sfail cfg e worker j error w =
     (case sj_fail (se_up e SFailCall) (se_db_now e) (sjob_chat j) worker (sjob_event j) error (backoff_from 30 600 (jb_attempts j))
             (or_default (sc_max_attempts cfg) 6) (sw_jobs w) of
        (None, t) \<Rightarrow> srelease e worker j (w\<lparr>sw_jobs := t\<rparr>)
      | (Some _, t) \<Rightarrow> w\<lparr>sw_jobs := t\<rparr>)"

definition scomplete :: "senv \<Rightarrow> string \<Rightarrow> mjob \<Rightarrow> sworld \<Rightarrow> sworld" where
  "scomplete e worker j w =
     (case sj_complete (se_up e SComplete) (sjob_chat j) worker (sjob_event j) (sw_jobs w) of
        (None, t) \<Rightarrow> srelease e worker j (w\<lparr>sw_jobs := t\<rparr>)
      | (Some _, t) \<Rightarrow> w\<lparr>sw_jobs := t\<rparr>)"

definition sperform :: "scfg \<Rightarrow> senv \<Rightarrow> string \<Rightarrow> mjob \<Rightarrow> saction \<Rightarrow> sworld \<Rightarrow> sworld" where
  "sperform cfg e worker j act w = (case act of
     SNothing \<Rightarrow> w
   | SDoRelease \<Rightarrow> srelease e worker j w
   | SDoFail err \<Rightarrow> sfail cfg e worker j err w
   | SDoComplete \<Rightarrow> scomplete e worker j w
   | SReschedule at event \<Rightarrow> srelease e worker j
       (w\<lparr>sw_jobs := snd (sj_schedule (se_up e SSchedule) (sjob_chat j) at event (sc_minutes cfg) (sw_jobs w))\<rparr>)
   | SStore last_at end_at md \<Rightarrow>
       (case store_segment (se_up e SAppend) (sjob_chat j) (sjob_event j) last_at end_at md w of
          (None, w1) \<Rightarrow> sfail cfg e worker j ''append_failed:append returned no data'' w1
        | (Some _, w1) \<Rightarrow> scomplete e worker j (snd (prune_before (se_up e SPrune) (sjob_chat j) end_at 40 w1)))
   | SCrash err \<Rightarrow> if sjob_event j \<noteq> [] then sfail cfg e worker j (''job_crash:'' @ err) w else srelease e worker j w)"

text \<open>\<open>run_once\<close>; the jobs are processed one after the other.\<close>

definition srun_once :: "scfg \<Rightarrow> (string \<Rightarrow> senv) \<Rightarrow> bool \<Rightarrow> int \<Rightarrow> (mjob \<Rightarrow> bool) \<Rightarrow> string \<Rightarrow> int \<Rightarrow> sworld \<Rightarrow> nat \<times> sworld" where
  "srun_once cfg es up now locked worker max_jobs w =
     (if \<not> sc_enabled cfg then (0, w)
      else (case sj_claim up now locked worker max_jobs (or_default (sc_stale_minutes cfg) 20) (sw_jobs w) of
        (jobs, t) \<Rightarrow> (length jobs,
          foldl (\<lambda>w' j. let e = es (jb_key j) in sperform cfg e worker j (sdecide cfg e w' j) w') (w\<lparr>sw_jobs := t\<rparr>) jobs)))"

section \<open>What the worker leaves alone\<close>

lemma jobs_only [simp]:
  "sw_raw (srelease e worker j w) = sw_raw w" "sw_segs (srelease e worker j w) = sw_segs w"
  "sw_raw (sfail cfg e worker j err w) = sw_raw w" "sw_segs (sfail cfg e worker j err w) = sw_segs w"
  "sw_raw (scomplete e worker j w) = sw_raw w" "sw_segs (scomplete e worker j w) = sw_segs w"
  by (simp_all add: srelease_def sfail_def scomplete_def split: prod.splits option.splits)

lemma perform_other:
  "(\<And>last_at end_at md. act \<noteq> SStore last_at end_at md) \<Longrightarrow>
     sw_raw (sperform cfg e worker j act w) = sw_raw w \<and> sw_segs (sperform cfg e worker j act w) = sw_segs w"
  by (cases act) (auto simp: sperform_def)

lemma perform_store:
  "sperform cfg e worker j (SStore last_at end_at md) w =
     (if \<not> se_up e SAppend then sfail cfg e worker j ''append_failed:append returned no data'' w
      else scomplete e worker j (snd (prune_before (se_up e SPrune) (sjob_chat j) end_at 40
             (w\<lparr>sw_segs := snd (append_segment (sjob_chat j) (sjob_event j) last_at end_at (take 20000 md) (sw_segs w))\<rparr>))))"
  by (simp add: sperform_def store_segment_def split: prod.splits)

lemma prune_before_segs [simp]: "sw_segs (snd (prune_before up chat b k w)) = sw_segs w"
  by (simp add: prune_before_def split: prod.splits)

lemma prune_before_raw:
  "sw_raw (snd (prune_before up chat b k w)) =
     (if up then snd (prune_raw chat b (max 0 (min (or_default k 40) 400)) (sw_raw w)) else sw_raw w)"
  by (simp add: prune_before_def split: prod.splits)

text \<open>Pruning takes messages from the front, all of them before the boundary.\<close>

lemma prune_msgs_gone:
  obtains gone where "ms = gone @ prune_msgs before k ms" "list_all (\<lambda>m. rm_sent m < before) gone"
proof
  let ?n = "length (takeWhile (\<lambda>m. rm_sent m < before) ms)"
  show "ms = take (?n - k) ms @ prune_msgs before k ms" by (simp add: prune_msgs_def)
  have "take (?n - k) ms = take (?n - k) (takeWhile (\<lambda>m. rm_sent m < before) ms)"
    by (metis (no_types, lifting) diff_le_self min.absorb1 take_take takeWhile_eq_take)
  then show "list_all (\<lambda>m. rm_sent m < before) (take (?n - k) ms)"
    by (metis (no_types, lifting) in_set_takeD list_all_iff set_takeWhileD)
qed

lemma segment_stored:
  "snd (append_segment chat event at end_at md t) chat = Some r \<Longrightarrow> event \<in> set (sr_event r) \<and> end_at \<le> sr_last_end r"
  by (auto simp: append_segment_def fresh_segment_def extend_segment_def array_append_def Let_def split: option.splits)

lemma append_segment_at: "\<exists>r. snd (append_segment chat event at end_at md t) chat = Some r"
  by (simp add: append_segment_def Let_def)

section \<open>Properties\<close>


lemma sort_key_Nil_iff: "sort_key f xs = [] \<longleftrightarrow> xs = []"
  by (metis length_0_conv length_sort)

text \<open>A late message is never summarised. If the newest message of a chat was sent before the end of the
last stored segment (it came late) and has no summary of its own, then the worker finds it outside
the window of the next segment: the job fails, whatever else is read, and so does every retry.\<close>

theorem late_message_is_never_summarised:
  assumes parse: "se_parse e = Some" and up: "se_up e SWindow" "se_up e SMemory"
    and seg: "sw_segs w (sjob_chat j) = Some r" "mj_last_at j < sr_last_end r" "sjob_event j \<notin> set (sr_event r)"
    and ids: "sjob_chat j \<noteq> []" "sjob_event j \<noteq> []"
    and newest: "list_all (\<lambda>m. py_lower (rm_role m) = ''user'' \<longrightarrow> rm_sent m \<le> mj_last_at j) (messages_in (sw_raw w) (sjob_chat j))"
    and some: "messages_in (sw_raw w) (sjob_chat j) \<noteq> []"
  shows "sdecide cfg e w j = SDoFail ''anchor_not_found_in_raw_window''"
proof -
  let ?ms = "read_window True (sjob_chat j) 200 w"
  have sub: "set ?ms \<subseteq> set (messages_in (sw_raw w) (sjob_chat j))" and ne: "?ms \<noteq> []"
    using some by (auto simp: read_window_def raw_window_def or_default_def Let_def sort_key_Nil_iff dest!: in_set_takeD)
  have late: "rm_sent m \<le> mj_last_at j" if "m \<in> set ?ms" "py_lower (rm_role m) = ''user''" for m
    using newest that sub by (auto simp: list_all_iff)
  have no_anchor: "\<not> list_ex (is_anchor (sjob_event j)) (filter (in_segment Some (Some (sr_last_end r)) run_after) ?ms)" for run_after
    using late seg(2) by (fastforce simp: list_ex_iff is_anchor_def in_segment_def)
  obtain best i where anchor: "extract_latest_user_anchor (map (as_fmsg Some) ?ms) = (best, i)" by fastforce
  have "at \<le> mj_last_at j" if "best = Some at" for at
    using anchor_loop_from [of "map (as_fmsg Some) ?ms" None "''''" at i] anchor that late
    by (auto simp: extract_latest_user_anchor_def as_fmsg_def or_str_def split: if_splits)
  then have soon: "best = None \<or> (\<exists>at. best = Some at \<and> \<not> secs 1 < at - mj_last_at j)" by (cases best) (force simp: secs_def)+
  have "sdecide_segment e w j ?ms last_at run_after = SDoFail ''anchor_not_found_in_raw_window''" for last_at run_after
    using seg no_anchor parse up by (simp add: sdecide_segment_def read_memory_def Let_def)
  with soon anchor ne ids parse up show ?thesis by (auto simp: sdecide_def Let_def)
qed

text \<open>A job about the message m of the chat c.\<close>

definition example_senv :: senv where
  "example_senv = \<lparr>se_db_now = 100, se_parse = Some, se_iso = (\<lambda>_. []), se_chat = False, se_participants = [], se_user = (\<lambda>_. Inr None),
     se_build = (\<lambda>_. None), se_llm = (\<lambda>_. Inr ''sum''), se_up = (\<lambda>_. True)\<rparr>"

definition example_sjob :: mjob where
  "example_sjob = \<lparr>jb_key = ''c'', jb_status = JRunning, jb_run_after = 50, jb_attempts = 0, jb_error = None, jb_claimed_by = Some ''w'',
     jb_claimed_at = Some 90, mj_last_at = 10, mj_last_id = ''m''\<rparr>"

lemma example_sjob_ids [simp]: "sjob_chat example_sjob = ''c''" "sjob_event example_sjob = ''m''"
  by (simp_all add: sjob_chat_def sjob_event_def example_sjob_def strip_eval)

lemma example_up [simp]: "se_up example_senv c"
  by (simp add: example_senv_def)

lemma example_last_at: "mj_last_at example_sjob = 10" "jb_run_after example_sjob = 50"
  by (simp_all add: example_sjob_def)

lemma late_message_is_never_summarised_witness:
  "\<exists>w. sdecide default_scfg example_senv w example_sjob = SDoFail ''anchor_not_found_in_raw_window''"
proof -
  define seg where "seg = \<lparr>sr_last_end = 20, sr_end_at = [20], sr_message_at = [5], sr_event = [''old''], sr_md = [''s'']\<rparr>"
  define w where "w = \<lparr>sw_raw = [''c'' \<mapsto> fresh_raw (example_msg ''m'' 10)], sw_segs = [''c'' \<mapsto> seg], sw_jobs = [example_sjob]\<rparr>"
  have "sdecide default_scfg example_senv w example_sjob = SDoFail ''anchor_not_found_in_raw_window''"
    by (rule late_message_is_never_summarised [where r = seg])
      (simp_all add: example_senv_def w_def seg_def messages_in_def example_msg_def example_last_at)
  then show ?thesis by blast
qed

text \<open>A stored summary saw its segment. What is stored is the stripped, not empty answer of the language
model to a prompt of at most 120 transcript lines, which are the last lines of the messages of the
window from the end of the previous segment to the end of this one; the message the job is about
is in that window and has no summary yet, and no user message that was read is more than a second
newer than it.\<close>

theorem stored_summary_saw_its_segment:
  assumes "sdecide cfg e w j = SStore last_at end_at md"
  shows "\<exists>prompt raw names. se_llm e prompt = Inr raw \<and> md = py_strip raw \<and> md \<noteq> [] \<and> sp_end prompt = end_at
    \<and> (let inside = filter (in_segment (se_parse e) (sp_start prompt) end_at) (read_window (se_up e SWindow) (sjob_chat j) 200 w) in
        sp_lines prompt = format_transcript_lines (se_parse e) (se_iso e) names inside \<and> length (sp_lines prompt) \<le> 120
        \<and> list_ex (is_anchor (sjob_event j)) inside)
    \<and> (\<forall>r. read_memory (se_up e SMemory) (sjob_chat j) w = Some r \<longrightarrow> sjob_event j \<notin> set (sr_event r)
          \<and> sp_start prompt = se_parse e (sr_last_end r))
    \<and> (\<forall>m \<in> set (read_window (se_up e SWindow) (sjob_chat j) 200 w). \<forall>ts. py_lower (rm_role m) = ''user'' \<longrightarrow> se_parse e (rm_sent m) = Some ts
          \<longrightarrow> ts \<le> last_at + secs 1)"
proof -
  let ?ms = "read_window (se_up e SWindow) (sjob_chat j) 200 w"
  obtain best i where anchor: "extract_latest_user_anchor (map (as_fmsg (se_parse e)) ?ms) = (best, i)" by fastforce
  obtain la ra where times: "se_parse e (mj_last_at j) = Some la" "se_parse e (jb_run_after j) = Some ra"
    using assms by (auto simp: sdecide_def split: if_splits option.splits)
  with assms anchor have seg: "sdecide_segment e w j ?ms la ra = SStore last_at end_at md"
    and soon: "best = None \<or> (\<exists>at. best = Some at \<and> at \<le> la + secs 1)"
    by (auto simp: sdecide_def Let_def split: if_splits option.splits)
  define memory where "memory = read_memory (se_up e SMemory) (sjob_chat j) w"
  define start_at where "start_at = Option.bind (map_option sr_last_end memory) (se_parse e)"
  define inside where "inside = filter (in_segment (se_parse e) start_at ra) ?ms"
  have "sjob_event j \<notin> set (case memory of None \<Rightarrow> [] | Some r \<Rightarrow> sr_event r)" "list_ex (is_anchor (sjob_event j)) inside"
    and sum: "summarize e j la start_at ra inside = SStore last_at end_at md"
    using seg unfolding sdecide_segment_def Let_def memory_def [symmetric] start_at_def [symmetric] inside_def [symmetric]
    by (auto split: if_splits)
  moreover obtain byid names where names: "resolve_names e = (byid, names)" by fastforce
  define prompt where "prompt = \<lparr>sp_chat = sjob_chat j, sp_names = names, sp_start = start_at, sp_end = ra,
     sp_lines = format_transcript_lines (se_parse e) (se_iso e) byid inside\<rparr>"
  have "\<exists>raw. se_llm e prompt = Inr raw \<and> md = py_strip raw \<and> md \<noteq> []" "la = last_at" "ra = end_at"
    using sum unfolding summarize_def names prod.case Let_def prompt_def [symmetric] by (auto split: if_splits option.splits sum.splits)
  moreover have "length (sp_lines prompt) \<le> 120" by (simp add: prompt_def format_transcript_lines_def Let_def)
  moreover have "ts \<le> last_at + secs 1"
    if "m \<in> set ?ms" "py_lower (rm_role m) = ''user''" "se_parse e (rm_sent m) = Some ts" for m ts
  proof -
    have "as_fmsg (se_parse e) m \<in> set (map (as_fmsg (se_parse e)) ?ms)" using that(1) by simp
    from anchor_newest [OF anchor this] that(2,3) obtain latest where "best = Some latest" "ts \<le> latest"
      by (auto simp: as_fmsg_def or_str_def split: if_splits)
    with soon \<open>la = last_at\<close> show ?thesis by auto
  qed
  ultimately show ?thesis
    by (intro exI [of _ prompt]) (auto simp: prompt_def inside_def memory_def start_at_def Let_def)
qed

lemma stored_summary_saw_its_segment_witness:
  "\<exists>prompt raw. se_llm example_senv prompt = Inr raw \<and> length (sp_lines prompt) \<le> 120"
proof -
  define w where "w = \<lparr>sw_raw = [''c'' \<mapsto> fresh_raw (example_msg ''m'' 10)], sw_segs = Map.empty, sw_jobs = [example_sjob]\<rparr>"
  have win: "read_window True ''c'' 200 w = [example_msg ''m'' 10]"
    by (simp add: w_def read_window_def raw_window_def messages_in_def or_default_def)
  have m: "py_strip (rm_event (example_msg ''m'' 10)) = ''m''" "py_lower (rm_role (example_msg ''m'' 10)) = ''user''"
    "py_strip (rm_content (example_msg ''m'' 10)) = ''hi''" "rm_sent (example_msg ''m'' 10) = 10"
    by (simp_all add: example_msg_def strip_eval py_lower_def lower_char_def)
  then have lined: "has_line (example_msg ''m'' 10)" by (simp add: has_line_def)
  have strip: "py_strip ''sum'' = ''sum''" by (simp add: strip_eval)
  have e: "se_up example_senv c" "se_parse example_senv = Some" "resolve_names example_senv = (Map.empty, [])"
    "se_build example_senv p = None" "se_llm example_senv p = Inr ''sum''" for c p
    by (simp_all add: example_senv_def resolve_names_def)
  have segs: "read_memory True ''c'' w = None" by (simp add: read_memory_def w_def)
  have "summarize example_senv example_sjob 10 None 50 [example_msg ''m'' 10] = SStore 10 50 ''sum''"
    by (simp add: summarize_def e format_transcript_lines_def lined strip)
  then have "sdecide_segment example_senv w example_sjob [example_msg ''m'' 10] 10 50 = SStore 10 50 ''sum''"
    by (simp add: sdecide_segment_def e segs in_segment_def is_anchor_def m)
  moreover have "\<exists>i. extract_latest_user_anchor (map (as_fmsg Some) [example_msg ''m'' 10]) = (Some 10, i)"
    by (simp add: extract_latest_user_anchor_def as_fmsg_def m or_str_def)
  ultimately have "sdecide default_scfg example_senv w example_sjob = SStore 10 50 ''sum''"
    by (auto simp: sdecide_def e win example_last_at secs_def)
  from stored_summary_saw_its_segment [OF this] show ?thesis by (metis (lifting))
qed



section \<open>Long segments\<close>

text \<open>A long segment is summarised in part, and then forgotten. Take a segment of 161 to 200 user messages
(the worker reads at most 200), all of them before its end and in the order they were sent. The
prompt has only the last 120 of them, and once the summary is stored only the last 40 are kept:
the messages before the last 120 are in no summary and in no transcript.\<close>

theorem long_segment_loses_messages:
  assumes ok: "rows_ok (sw_raw w)" and ms: "messages_in (sw_raw w) (sjob_chat j) = ms" "160 < length ms" "length ms \<le> 200"
    and sorted: "sorted (map rm_sent ms)" and user: "list_all has_line ms" and before: "list_all (\<lambda>m. rm_sent m < end_at) ms"
    and up: "se_up e SWindow" "se_up e SAppend" "se_up e SPrune" and parse: "se_parse e = Some"
    and w': "w' = sperform cfg e worker j (SStore last_at end_at md) w"
  shows "format_transcript_lines (se_parse e) (se_iso e) names
           (filter (in_segment (se_parse e) None end_at) (read_window (se_up e SWindow) (sjob_chat j) 200 w))
         = map (format_line (se_parse e) (se_iso e) names) (drop (length ms - 120) ms)
    \<and> messages_in (sw_raw w') (sjob_chat j) = drop (length ms - 40) ms"
proof
  have "sort_key rm_sent ms = ms" using sorted by (simp add: sort_key_id_if_sorted)
  then have win: "read_window (se_up e SWindow) (sjob_chat j) 200 w = ms"
    using ms up by (simp add: read_window_def raw_window_def or_default_def Let_def rev_take)
  have "filter (in_segment (se_parse e) None end_at) ms = ms" "filter has_line ms = ms"
    using before user parse by (auto simp: filter_id_conv in_segment_def list_all_iff)
  then show "format_transcript_lines (se_parse e) (se_iso e) names
      (filter (in_segment (se_parse e) None end_at) (read_window (se_up e SWindow) (sjob_chat j) 200 w))
    = map (format_line (se_parse e) (se_iso e) names) (drop (length ms - 120) ms)"
    using ms(2) by (simp add: win format_transcript_lines_def Let_def drop_map)
  have all: "takeWhile (\<lambda>m. rm_sent m < end_at) ms = ms" using before by (simp add: takeWhile_eq_all_conv list_all_iff)
  have raw: "sw_raw w' = exec_raw (RPrune (sjob_chat j) end_at 40) (sw_raw w)"
    unfolding w' by (simp add: perform_store up prune_before_raw or_default_def)
  have "messages_in (sw_raw w') (sjob_chat j) = prune_msgs end_at 40 ms"
    unfolding raw exec_raw_spec [OF ok] by (simp add: ms(1))
  then show "messages_in (sw_raw w') (sjob_chat j) = drop (length ms - 40) ms"
    unfolding prune_msgs_def all by simp
qed

text \<open>A transcript of 161 messages.\<close>

definition long_row :: raw_row where
  "long_row = \<lparr>rr_pruned_before = None, rr_last_event_at = 10, rr_event = map (\<lambda>i. replicate i CHR ''x'') [0..<161],
     rr_message = replicate 161 [], rr_role = replicate 161 ''user'', rr_user = replicate 161 None, rr_handle = replicate 161 [],
     rr_sent = replicate 161 10, rr_content = replicate 161 ''hi'', rr_media = replicate 161 [], rr_type = replicate 161 ''user_message''\<rparr>"

lemma long_segment_loses_messages_witness:
  "\<exists>w ms. messages_in (sw_raw w) ''c'' = ms \<and> length ms = 161
    \<and> messages_in (sw_raw (sperform default_scfg example_senv ''w'' example_sjob (SStore 10 50 ''sum'') w)) ''c'' = drop 121 ms"
proof -
  define w where "w = \<lparr>sw_raw = [''c'' \<mapsto> long_row], sw_segs = Map.empty, sw_jobs = [example_sjob]\<rparr>"
  define ms where "ms = messages_of long_row"
  have "distinct (map (\<lambda>i. replicate i CHR ''x'') [0..<161])"
    unfolding distinct_map by (auto simp: inj_on_def)
  then have ok: "rows_ok (sw_raw w)" by (simp add: w_def rows_ok_def raw_ok_def long_row_def)
  have len: "length ms = 161" by (simp add: ms_def long_row_def)
  have each: "list_all (\<lambda>m. rm_sent m = 10 \<and> rm_role m = ''user'' \<and> rm_content m = ''hi'') ms"
    by (simp add: ms_def messages_of_def long_row_def list_all_iff)
  then have "map rm_sent ms = replicate 161 10" by (intro replicate_eqI) (auto simp: len list_all_iff)
  then have sorted: "sorted (map rm_sent ms)" by simp
  have lines: "list_all has_line ms"
    using each by (auto simp: list_all_iff has_line_def py_lower_def lower_char_def strip_eval)
  have ms: "messages_in (sw_raw w) (sjob_chat example_sjob) = ms" by (simp add: w_def ms_def messages_in_def)
  have before: "list_all (\<lambda>m. rm_sent m < 50) ms" using each by (simp add: list_all_iff)
  have e: "se_up example_senv c" "se_parse example_senv = Some" for c by (simp_all add: example_senv_def)
  have "160 < length ms" "length ms \<le> 200" by (simp_all add: len)
  from long_segment_loses_messages [OF ok ms this sorted lines before e(1) e(1) e(1) e(2) refl]
  have "messages_in (sw_raw (sperform default_scfg example_senv ''w'' example_sjob (SStore 10 50 ''sum'') w)) ''c'' = drop 121 ms"
    by (simp add: len)
  then show ?thesis using ms len by (intro exI [of _ w] exI [of _ ms]) simp
qed


section \<open>Any number of workers\<close>

text \<open>
  The steps of the system: messages of the chats are ingested, Frank's own messages are appended, a worker
  claims jobs, and a worker carries out a decision (made at any time before, from whatever it read
  then).
\<close>

inductive sum_step :: "sworld \<Rightarrow> sworld \<Rightarrow> bool" where
  ss_ingest: "sum_step w (snd (ingest_message up chat m minutes keep w))"
| ss_append: "sum_step w (snd (append_message up chat m keep w))"
| ss_claim: "sum_step w (w\<lparr>sw_jobs := snd (sj_claim up now locked worker max_jobs stale (sw_jobs w))\<rparr>)"
| ss_perform: "sum_step w (sperform cfg e worker j act w)"

inductive sum_run :: "sworld \<Rightarrow> sworld \<Rightarrow> bool" where
  sr_none: "sum_run w w"
| sr_step: "sum_run w u \<Longrightarrow> sum_step u v \<Longrightarrow> sum_run w v"

definition empty_sworld :: sworld where
  "empty_sworld = \<lparr>sw_raw = Map.empty, sw_segs = Map.empty, sw_jobs = []\<rparr>"

lemma sum_run_trans: "sum_run u v \<Longrightarrow> sum_run w u \<Longrightarrow> sum_run w v"
  by (induction rule: sum_run.induct) (auto intro: sr_step)

text \<open>A turn of \<open>run_once\<close> is such a run.\<close>

lemma perform_all_runs: "sum_run w (foldl (\<lambda>w' j. let e = es (jb_key j) in sperform cfg e worker j (sdecide cfg e w' j) w') w jobs)"
  by (induction jobs rule: rev_induct) (auto simp: Let_def intro: sr_none sr_step ss_perform)

lemma run_once_runs: "sum_run w (snd (srun_once cfg es up now locked worker max_jobs w))"
proof -
  let ?stale = "or_default (sc_stale_minutes cfg) 20"
  have "sum_run w (w\<lparr>sw_jobs := snd (sj_claim up now locked worker max_jobs ?stale (sw_jobs w))\<rparr>)"
    by (rule sr_step [OF sr_none ss_claim])
  from sum_run_trans [OF perform_all_runs this] show ?thesis
    by (auto simp: srun_once_def sr_none split: prod.splits)
qed

text \<open>What holds of a world, and what one keeps of an earlier one.\<close>

definition sworld_ok :: "sworld \<Rightarrow> bool" where
  "sworld_ok w \<longleftrightarrow> rows_ok (sw_raw w) \<and> (\<forall>c r. sw_segs w c = Some r \<longrightarrow> seg_ok r)"

definition keeps_summaries :: "sworld \<Rightarrow> sworld \<Rightarrow> bool" where
  "keeps_summaries w w' \<longleftrightarrow> (\<forall>c r. sw_segs w c = Some r \<longrightarrow>
     (\<exists>r'. sw_segs w' c = Some r' \<and> seg_extends r r'))"

lemma keeps_same: "sw_segs w' = sw_segs w \<Longrightarrow> keeps_summaries w w'"
  by (simp add: keeps_summaries_def seg_extends_refl)

lemma keeps_trans: "keeps_summaries u v \<Longrightarrow> keeps_summaries v w \<Longrightarrow> keeps_summaries u w"
  unfolding keeps_summaries_def by (blast dest: seg_extends_trans)

text \<open>Every step is one of three kinds for the transcripts and the summaries.\<close>

lemma sum_step_data:
  assumes "sum_step w w'"
  shows "(\<exists>cmds. sw_raw w' = fold exec_raw cmds (sw_raw w))"
    and "sw_segs w' = sw_segs w \<or> (\<exists>chat event at end_at md. sw_segs w' = snd (append_segment chat event at end_at md (sw_segs w)))"
proof -
  have perform: "(\<exists>cmds. sw_raw (sperform cfg e worker j act w) = fold exec_raw cmds (sw_raw w))
      \<and> (sw_segs (sperform cfg e worker j act w) = sw_segs w
        \<or> (\<exists>chat event at end_at md. sw_segs (sperform cfg e worker j act w) = snd (append_segment chat event at end_at md (sw_segs w))))"
    for cfg e worker j act
  proof (cases "\<exists>last_at end_at md. act = SStore last_at end_at md \<and> se_up e SAppend")
    case False
    then have "sw_raw (sperform cfg e worker j act w) = sw_raw w \<and> sw_segs (sperform cfg e worker j act w) = sw_segs w"
      using perform_other [of act cfg e worker j w] by (cases act) (auto simp: perform_store)
    then show ?thesis by (metis fold_simps(1))
  next
    case True
    then obtain last_at end_at md where act: "act = SStore last_at end_at md" "se_up e SAppend" by blast
    have "sw_raw (sperform cfg e worker j act w)
        = fold exec_raw (if se_up e SPrune then [RPrune (sjob_chat j) end_at 40] else []) (sw_raw w)"
      by (simp add: act perform_store prune_before_raw or_default_def)
    moreover have "sw_segs (sperform cfg e worker j act w)
        = snd (append_segment (sjob_chat j) (sjob_event j) last_at end_at (take 20000 md) (sw_segs w))"
      by (simp add: act perform_store)
    ultimately show ?thesis by blast
  qed
  have append: "\<exists>cmds. snd (append_raw chat m keep t) = fold exec_raw cmds t" for chat m keep t
    by (rule exI [of _ "[RAppend chat m keep]"]) simp
  then have appended: "append_raw chat m keep t = (out, t') \<Longrightarrow> \<exists>cmds. t' = fold exec_raw cmds t" for chat m keep t out t'
    by (metis snd_conv)
  have none: "\<exists>cmds. t = fold exec_raw cmds t" for t by (rule exI [of _ "[]"]) simp
  show "\<exists>cmds. sw_raw w' = fold exec_raw cmds (sw_raw w)"
    using assms perform
    by cases (auto simp: ingest_message_def append_message_def none split: prod.splits intro: append appended)
  show "sw_segs w' = sw_segs w \<or> (\<exists>chat event at end_at md. sw_segs w' = snd (append_segment chat event at end_at md (sw_segs w)))"
    using assms perform
    by cases (auto simp: ingest_message_def append_message_def split: prod.splits)
qed

lemma append_segment_keeps:
  assumes "\<forall>c r. sw_segs w c = Some r \<longrightarrow> seg_ok r" "sw_segs w' = snd (append_segment chat event at end_at md (sw_segs w))"
  shows "keeps_summaries w w'"
  unfolding keeps_summaries_def assms(2) using append_segment_rows(2) [OF assms(1)] by blast


lemma sum_step_ok:
  assumes "sum_step w w'" "sworld_ok w"
  shows "sworld_ok w' \<and> keeps_summaries w w'"
proof -
  have ok: "\<forall>c r. sw_segs w c = Some r \<longrightarrow> seg_ok r" "rows_ok (sw_raw w)" using assms(2) by (simp_all add: sworld_ok_def)
  have "rows_ok (sw_raw w')" using sum_step_data(1) [OF assms(1)] run_raw_ok [OF ok(2)] by auto
  moreover have "\<forall>c r. sw_segs w' c = Some r \<longrightarrow> seg_ok r"
    using sum_step_data(2) [OF assms(1)] append_segment_rows(1) [OF ok(1)] ok(1) by auto
  moreover have "keeps_summaries w w'"
    using sum_step_data(2) [OF assms(1)] append_segment_keeps [OF ok(1)] keeps_same by blast
  ultimately show ?thesis by (simp add: sworld_ok_def)
qed

lemma sum_run_ok: "sum_run w w' \<Longrightarrow> sworld_ok w \<Longrightarrow> sworld_ok w' \<and> keeps_summaries w w'"
  by (induction rule: sum_run.induct) (auto simp: keeps_same dest: sum_step_ok intro: keeps_trans)

text \<open>Summaries are kept. Whatever messages arrived and whatever any number of workers did before, in any
order, a turn of \<open>run_once\<close> keeps each chat's stored summaries: it only adds to them at the end, and
no message is summarised twice.\<close>

theorem summaries_are_kept:
  assumes "sum_run empty_sworld w" "sw_segs w c = Some r"
  shows "\<exists>r'. sw_segs (snd (srun_once cfg es up now locked worker max_jobs w)) c = Some r' \<and> seg_extends r r' \<and> distinct (sr_event r')"
proof -
  have "sworld_ok w" using sum_run_ok [OF assms(1)] by (simp add: sworld_ok_def empty_sworld_def rows_ok_def)
  then have "sworld_ok (snd (srun_once cfg es up now locked worker max_jobs w))
      \<and> keeps_summaries w (snd (srun_once cfg es up now locked worker max_jobs w))"
    by (rule sum_run_ok [OF run_once_runs])
  then obtain r' where "sw_segs (snd (srun_once cfg es up now locked worker max_jobs w)) c = Some r'" "seg_extends r r'" "seg_ok r'"
    using assms(2) unfolding sworld_ok_def keeps_summaries_def by blast
  then show ?thesis by (auto simp: seg_ok_def)
qed

lemma summaries_are_kept_witness:
  "\<exists>w r r'. sw_segs w ''c'' = Some r \<and> sw_segs (snd (srun_once default_scfg (\<lambda>_. example_senv) True 100 (\<lambda>_. False) ''w'' 5 w)) ''c'' = Some r'
     \<and> seg_extends r r'"
proof -
  define w where "w = sperform default_scfg example_senv ''w'' example_sjob (SStore 10 50 ''sum'') empty_sworld"
  have run: "sum_run empty_sworld w" unfolding w_def by (rule sr_step [OF sr_none ss_perform])
  obtain r where r: "sw_segs w ''c'' = Some r"
    using append_segment_at [of "''c''" "''m''" 10 50 "take 20000 ''sum''" "Map.empty"]
    by (auto simp: w_def perform_store empty_sworld_def example_up)
  from summaries_are_kept [OF run r] r show ?thesis by blast
qed

end
