(* ===== verification/Group_Router.thy ===== *)
theory Group_Router
  imports Summary_Worker
begin

text \<open>
  What happens to a message in a group chat: the router of app/groupchat/runtime/router.py, the recorder
  and the sender of app/groupchat/io, and the handler of app/groupchat/runtime/handlers/
  groupchat_networking.py up to the interaction agent, whose answer is the environment's. The messages
  go to the transcripts and summary jobs of Summary_Worker and to the follow-up jobs of Followup_Jobs.
  SHA-256 is a parameter.
\<close>

section \<open>Handles\<close>

definition is_group_guid :: "string \<Rightarrow> bool" where
  "is_group_guid guid \<longleftrightarrow> guid \<noteq> [] \<and> (contains_str '';+;'' guid \<or> starts_with ''chat'' guid)"

definition digits_last10 :: "string \<Rightarrow> string" where
  "digits_last10 value = (let digits = filter is_digit value in
     if 10 \<le> length digits then drop (length digits - 10) digits else digits)"

definition normalize_handle :: "string option \<Rightarrow> string \<times> string" where
  "normalize_handle handle =
     (let raw = py_strip (or_str handle '''') in
      if raw = [] then ([], []) else if CHR ''@'' \<in> set raw then (py_lower raw, []) else ([], digits_last10 raw))"

definition is_plain :: "char \<Rightarrow> bool" where
  "is_plain c = (let n = (of_char c :: nat) in (97 \<le> n \<and> n \<le> 122) \<or> is_digit c)"

definition last4 :: "string \<Rightarrow> string" where
  "last4 s = drop (length s - 4) s"

definition fallback_sender_name :: "string option \<Rightarrow> string" where
  "fallback_sender_name handle =
     (let h = py_strip (or_str handle '''') in
      if h \<noteq> [] \<and> CHR ''@'' \<in> set h
      then (let local = py_lower (py_strip (takeWhile (\<lambda>c. c \<noteq> CHR ''@'') h));
                local' = py_strip (sub_runs (\<lambda>c. \<not> is_plain c) CHR '' '' local);
                token = py_strip (takeWhile (\<lambda>c. c \<noteq> CHR '' '') local')
            in if token \<noteq> [] then take 18 token else ''there'')
      else if h \<noteq> [] \<and> digits_last10 h \<noteq> [] then last4 (digits_last10 h)
      else ''there'')"

definition mask_handle :: "string option \<Rightarrow> string" where
  "mask_handle value =
     (let raw = py_strip (or_str value '''') in
      if raw = [] then []
      else if CHR ''@'' \<in> set raw
      then (let local = takeWhile (\<lambda>c. c \<noteq> CHR ''@'') raw; domain = tl (dropWhile (\<lambda>c. c \<noteq> CHR ''@'') raw)
            in (if local \<noteq> [] then take 2 local @ ''***'' else ''***'') @ ''@'' @ take 32 domain)
      else if digits_last10 raw \<noteq> [] then ''***'' @ last4 (digits_last10 raw) else ''***'')"

section \<open>Invocations\<close>

text \<open>The router's test: a prefix\<close>

definition looks_like_invocation :: "string \<Rightarrow> bool" where
  "looks_like_invocation t \<longleftrightarrow>
     (let msg = py_lower (py_strip t) in
      msg \<noteq> [] \<and> list_ex (\<lambda>p. starts_with p msg) [''frank'', ''@frank'', ''hey frank'', ''hi frank'', ''yo frank''])"

text \<open>The handler's test: the word anywhere (\<open>\bfrank\b\<close>)\<close>

definition word_at :: "string \<Rightarrow> string \<Rightarrow> nat \<Rightarrow> bool" where
  "word_at w s i \<longleftrightarrow> starts_with w (drop i s) \<and> (i = 0 \<or> \<not> is_word_char (s ! (i - 1)))
     \<and> (i + length w = length s \<or> \<not> is_word_char (s ! (i + length w)))"

definition mentions_frank :: "string \<Rightarrow> bool" where
  "mentions_frank t \<longleftrightarrow>
     (let msg = py_lower (py_strip t) in
      msg \<noteq> [] \<and> (list_ex (word_at ''frank'' msg) [0..<length msg] \<or> contains_str ''@frank'' msg))"

text \<open>\<open>_strip_invocation\<close>: the five patterns in order, the first that changes the text. A prefix pattern takes
a word, a boundary, a colon or comma, and spaces.\<close>

definition skip_word :: "string \<Rightarrow> string \<Rightarrow> string option" where
  "skip_word w s = (if starts_with w (py_lower s) then Some (drop (length w) s) else None)"

definition skip_tail :: "string \<Rightarrow> string option" where
  "skip_tail s =
     (if s \<noteq> [] \<and> is_word_char (hd s) then None
      else Some (lstrip_by py_space (case s of c # cs \<Rightarrow> if c = CHR '':'' \<or> c = CHR '','' then cs else s | [] \<Rightarrow> [])))"

definition skip_greeting :: "string \<Rightarrow> string \<Rightarrow> string option" where
  "skip_greeting greeting s =
     Option.bind (skip_word greeting s) (\<lambda>r. if r = [] \<or> \<not> py_space (hd r) then None
       else Option.bind (skip_word ''frank'' (lstrip_by py_space r)) skip_tail)"

definition is_closing :: "char \<Rightarrow> bool" where
  "is_closing c \<longleftrightarrow> c = CHR ''!'' \<or> c = CHR ''?'' \<or> c = CHR ''.''"

definition drop_suffix :: "string \<Rightarrow> string \<Rightarrow> string option" where
  "drop_suffix w s =
     (let body = rstrip_by is_closing s; n = length body - length w in
      if length w < length body \<and> py_lower (drop n body) = w \<and> py_space (body ! (n - 1))
      then Some (rstrip_by py_space (take n body)) else None)"

definition strip_invocation :: "string \<Rightarrow> string" where
  "strip_invocation t =
     (let msg = py_strip t in
      if msg = [] then msg
      else (case List.map_filter id [Option.bind (skip_word ''@frank'' msg) skip_tail, Option.bind (skip_word ''frank'' msg) skip_tail,
              skip_greeting ''hey'' msg, skip_greeting ''hi'' msg, skip_greeting ''yo'' msg,
              drop_suffix ''@frank'' msg, drop_suffix ''frank'' msg] of
          [] \<Rightarrow> msg | cleaned # _ \<Rightarrow> py_strip cleaned))"

section \<open>Events\<close>

record gwebhook =
  wh_chat :: "string option"
  wh_message :: "string option"
  wh_time :: "string option"
  wh_from :: "string option"
  wh_content :: "string option"
  wh_media :: "string option"

record gevent =
  ge_chat :: string
  ge_id :: string
  ge_message :: "string option"
  ge_time :: "string option"
  ge_handle :: "string option"
  ge_user :: "string option"
  ge_name :: "string option"
  ge_participant :: string
  ge_text :: string
  ge_media :: "string option"

record gmanaged =
  gm_ids :: "string list"
  gm_modes :: "string \<rightharpoonup> string"
  gm_request :: "string option"
  gm_count :: int

definition is_participant :: "gmanaged \<Rightarrow> string option \<Rightarrow> bool" where
  "is_participant m uid = (case uid of None \<Rightarrow> False | Some u \<Rightarrow> u \<in> set (gm_ids m))"

definition get_participant_mode :: "gmanaged \<Rightarrow> string \<Rightarrow> string option" where
  "get_participant_mode m uid = gm_modes m uid"

record guser =
  gu_phone :: "string option"
  gu_name :: "string option"

record gchat =
  gc_request :: "string option"
  gc_count :: "int option"

datatype gcall = GIngest | GFollow | GAppend

text \<open>What the database answers (nothing if a read fails), its clock, and its reading of a time. Reads
repeated while one message is handled answer the same.\<close>

record genv =
  gv_chat :: "gchat option"
  gv_parts :: "(string option \<times> string option) list"
  gv_user :: "string \<Rightarrow> guser option"
  gv_now :: string
  gv_time :: "string \<Rightarrow> int option"
  gv_up :: "gcall \<Rightarrow> bool"
  gv_cfg :: fcfg
  gv_minutes :: int

definition load_managed_context :: "genv \<Rightarrow> gmanaged option" where
  "load_managed_context e = (case gv_chat e of None \<Rightarrow> None
   | Some c \<Rightarrow>
       (let parts = filter (\<lambda>p. truthy_str (fst p)) (gv_parts e); ids = map (\<lambda>p. the (fst p)) parts
        in Some \<lparr>gm_ids = ids,
             gm_modes = foldl (\<lambda>d p. d(the (fst p) \<mapsto> or_str (snd p) ''active'')) Map.empty parts,
             gm_request = (if truthy_str (gc_request c) then gc_request c else None),
             gm_count = (case gc_count c of None \<Rightarrow> int (length ids) | Some n \<Rightarrow> or_default n (int (length ids)))\<rparr>))"

definition router_event_id :: "(string \<Rightarrow> string) \<Rightarrow> gwebhook \<Rightarrow> string" where
  "router_event_id sha256 wh = sha256 (join_str ''|''
     [or_str (wh_chat wh) '''', or_str (wh_message wh) '''', or_str (wh_from wh) '''', or_str (wh_content wh) '''',
      or_str (wh_media wh) '''', or_str (wh_time wh) ''''])"

definition event_of :: "(string \<Rightarrow> string) \<Rightarrow> gwebhook \<Rightarrow> string \<Rightarrow> gevent" where
  "event_of sha256 wh sender =
     (let message = none_if_empty (or_str (wh_message wh) '''') in
      \<lparr>ge_chat = or_str (wh_chat wh) '''', ge_id = (case message of None \<Rightarrow> router_event_id sha256 wh | Some m \<Rightarrow> m),
       ge_message = message, ge_time = none_if_empty (or_str (wh_time wh) ''''),
       ge_handle = none_if_empty (or_str (wh_from wh) ''''), ge_user = none_if_empty sender, ge_name = None,
       ge_participant = ''unknown'', ge_text = or_str (wh_content wh) '''', ge_media = none_if_empty (or_str (wh_media wh) '''')\<rparr>)"

section \<open>Who sent it\<close>

definition same_handle :: "string \<times> string \<Rightarrow> string \<times> string \<Rightarrow> bool" where
  "same_handle a b \<longleftrightarrow> (fst a \<noteq> [] \<and> fst b \<noteq> [] \<and> fst a = fst b) \<or> (snd a \<noteq> [] \<and> snd b \<noteq> [] \<and> snd a = snd b)"

definition user_handle :: "genv \<Rightarrow> string \<Rightarrow> string \<times> string" where
  "user_handle e uid = normalize_handle (case gv_user e uid of None \<Rightarrow> None | Some r \<Rightarrow> gu_phone r)"

definition resolve_sender :: "genv \<Rightarrow> gmanaged option \<Rightarrow> gevent \<Rightarrow> string option" where
  "resolve_sender e managed ev = (case managed of None \<Rightarrow> ge_user ev
   | Some m \<Rightarrow>
       if is_participant m (ge_user ev) then ge_user ev
       else (let h = normalize_handle (ge_handle ev) in
         if h = ([], []) then ge_user ev
         else (case find (\<lambda>pid. same_handle h (user_handle e pid)) (gm_ids m) of None \<Rightarrow> ge_user ev | Some pid \<Rightarrow> Some pid)))"

fun index_of :: "string \<Rightarrow> string list \<Rightarrow> nat" where
  "index_of x [] = 0"
| "index_of x (y # ys) = (if x = y then 0 else Suc (index_of x ys))"

definition participant_label :: "gmanaged option \<Rightarrow> string option \<Rightarrow> string \<Rightarrow> string" where
  "participant_label managed uid old = (case managed of None \<Rightarrow> or_str (Some old) ''unknown''
   | Some m \<Rightarrow> if is_participant m uid then ''participant_'' @ str_nat (index_of (the uid) (gm_ids m)) else ''unknown'')"

definition row_name :: "genv \<Rightarrow> string \<Rightarrow> string" where
  "row_name e uid = py_strip (case gv_user e uid of None \<Rightarrow> [] | Some r \<Rightarrow> or_str (gu_name r) '''')"

definition enrich_event :: "genv \<Rightarrow> gmanaged option \<Rightarrow> gevent \<Rightarrow> gevent" where
  "enrich_event e managed ev =
     (let uid = resolve_sender e managed ev;
          given = py_strip (or_str (ge_name ev) '''');
          name = (if given \<noteq> [] then given else row_name e (or_str uid ''''))
      in ev\<lparr>ge_user := uid, ge_name := Some (if name \<noteq> [] then name else fallback_sender_name (ge_handle ev)),
            ge_participant := participant_label managed uid (ge_participant ev)\<rparr>)"

section \<open>The recorder and the sender\<close>

record gworld =
  gw_sum :: sworld
  gw_follow :: job_table
  gw_sent :: "(string \<times> string) list"

definition best_effort_event_id :: "(string \<Rightarrow> string) \<Rightarrow> gevent \<Rightarrow> string" where
  "best_effort_event_id sha256 ev =
     (if py_strip (ge_id ev) \<noteq> [] then ge_id ev
      else if py_strip (or_str (ge_message ev) '''') \<noteq> [] then the (ge_message ev)
      else sha256 (join_str ''|'' [ge_chat ev, or_str (ge_handle ev) '''', or_str (ge_user ev) '''', ge_text ev, or_str (ge_media ev) '''']))"

definition inbound_content :: "gevent \<Rightarrow> string" where
  "inbound_content ev =
     (let c = py_strip (ge_text ev) in
      if c \<noteq> [] then c else if py_strip (or_str (ge_media ev) '''') \<noteq> [] then ''[attachment]'' else ''[empty]'')"

definition or_strip :: "string option \<Rightarrow> string \<Rightarrow> string" where
  "or_strip x d = (let s = py_strip (or_str x '''') in if s = [] then d else s)"

text \<open>A time the database cannot read makes its function fail, as when it is down.\<close>

definition record_inbound :: "(string \<Rightarrow> string) \<Rightarrow> genv \<Rightarrow> gevent \<Rightarrow> bool \<Rightarrow> gworld \<Rightarrow> bool \<times> gworld" where
  "record_inbound sha256 e ev is_managed w =
     (if py_strip (ge_chat ev) = [] then (False, w)
      else (case gv_time e (or_strip (ge_time ev) (gv_now e)) of
          None \<Rightarrow> (False, w)
        | Some sent_at \<Rightarrow>
            (let event_id = best_effort_event_id sha256 ev;
                 m = \<lparr>rm_event = event_id, rm_message = or_str (ge_message ev) '''', rm_role = ''user'',
                      rm_user = none_if_empty (or_strip (ge_user ev) ''''), rm_handle = or_strip (ge_handle ev) '''', rm_sent = sent_at,
                      rm_content = inbound_content ev, rm_media = or_str (ge_media ev) '''', rm_type = ''user_message''\<rparr>
             in case ingest_message (gv_up e GIngest) (ge_chat ev) m (gv_minutes e) 800 (gw_sum w) of
                 (None, s) \<Rightarrow> (False, w\<lparr>gw_sum := s\<rparr>)
               | (Some _, s) \<Rightarrow>
                   (True, w\<lparr>gw_sum := s, gw_follow :=
                      (if is_managed \<and> fc_enabled (gv_cfg e)
                       then snd (db_schedule (gv_up e GFollow) (ge_chat ev) sent_at event_id (resolve_inactivity_minutes (gv_cfg e)) (gw_follow w))
                       else gw_follow w)\<rparr>))))"

definition record_outbound :: "(string \<Rightarrow> string) \<Rightarrow> genv \<Rightarrow> string \<Rightarrow> string \<Rightarrow> string option \<Rightarrow> string option \<Rightarrow> gworld \<Rightarrow> bool \<times> gworld" where
  "record_outbound sha256 e chat content message_id typ w =
     (if py_strip chat = [] \<or> py_strip content = [] then (False, w)
      else (case gv_time e (gv_now e) of
          None \<Rightarrow> (False, w)
        | Some sent_at \<Rightarrow>
            (let event_id = (if truthy_str message_id then the message_id else sha256 (chat @ ''|'' @ content @ ''|'' @ gv_now e));
                 m = \<lparr>rm_event = event_id, rm_message = or_str message_id '''', rm_role = ''assistant'', rm_user = None, rm_handle = [],
                      rm_sent = sent_at, rm_content = content, rm_media = [], rm_type = or_strip typ ''assistant_message''\<rparr>
             in case append_message (gv_up e GAppend) chat m 800 (gw_sum w) of (out, s) \<Rightarrow> (out \<noteq> None, w\<lparr>gw_sum := s\<rparr>))))"

text \<open>\<open>answer\<close> is what the messaging service answers: an exception, or the id of the message.\<close>

definition send_and_record :: "(string \<Rightarrow> string) \<Rightarrow> genv \<Rightarrow> string + string option \<Rightarrow> string \<Rightarrow> string \<Rightarrow> gworld \<Rightarrow> (string + unit) \<times> gworld" where
  "send_and_record sha256 e answer chat content w = (case answer of
     Inl err \<Rightarrow> (Inl err, w)
   | Inr message_id \<Rightarrow>
       (Inr (), snd (record_outbound sha256 e chat content message_id None (w\<lparr>gw_sent := gw_sent w @ [(chat, content)]\<rparr>))))"

section \<open>The router\<close>

type_synonym ghandler = "gevent \<Rightarrow> gmanaged option \<Rightarrow> gworld \<Rightarrow> (string + bool) \<times> gworld"

fun run_handlers :: "ghandler list \<Rightarrow> gevent \<Rightarrow> gmanaged option \<Rightarrow> gworld \<Rightarrow> bool \<times> gworld" where
  "run_handlers [] ev m w = (False, w)"
| "run_handlers (h # hs) ev m w = (case h ev m w of
     (Inr True, w') \<Rightarrow> (True, w')
   | (_, w') \<Rightarrow> run_handlers hs ev m w')"

definition record_if :: "(string \<Rightarrow> string) \<Rightarrow> genv \<Rightarrow> gmanaged option \<Rightarrow> gevent \<Rightarrow> gworld \<Rightarrow> gworld" where
  "record_if sha256 e managed ev w =
     (if managed \<noteq> None \<or> looks_like_invocation (ge_text ev)
      then snd (record_inbound sha256 e ev (managed \<noteq> None) w) else w)"

definition handle_inbound :: "(string \<Rightarrow> string) \<Rightarrow> ghandler list \<Rightarrow> genv \<Rightarrow> gwebhook \<Rightarrow> string \<Rightarrow> gworld \<Rightarrow> bool \<times> gworld" where
  "handle_inbound sha256 handlers e wh sender w =
     (if \<not> is_group_guid (or_str (wh_chat wh) '''') then (False, w)
      else (let managed = load_managed_context e; ev = enrich_event e managed (event_of sha256 wh sender) in
        case run_handlers handlers ev managed (record_if sha256 e managed ev w) of
          (handled, w') \<Rightarrow> (if managed \<noteq> None then True else handled, w')))"

section \<open>The networking handler\<close>

text \<open>A task of the history. Python's times know whether they have an offset: the text of a time with one
gives an aware time, without one a naive time, and their difference raises.\<close>

datatype ptime = Aware int | Naive int

record ntask =
  nt_name :: string
  nt_waiting :: "string option"
  nt_chat :: "string option"
  nt_created :: "ptime option"

record nenv =
  ne_requests :: "string + string option list"
  ne_tasks :: "string + ntask list"
  ne_utcnow :: int
  ne_user :: "string option"
  ne_agent :: "string \<Rightarrow> string + (string option list) option"
  ne_send :: "nat \<Rightarrow> string + string option"

definition time_diff :: "ptime \<Rightarrow> ptime \<Rightarrow> int option" where
  "time_diff a b = (case (a, b) of (Aware x, Aware y) \<Rightarrow> Some (x - y) | (Naive x, Naive y) \<Rightarrow> Some (x - y) | _ \<Rightarrow> None)"

definition waiting_targets :: "string list" where
  "waiting_targets = [''meeting_time_clarification'', ''meeting_organizer_clarification'', ''meeting_attendee_clarification'', ''calendar_connect'']"

definition has_pending_request :: "nenv \<Rightarrow> string \<Rightarrow> bool" where
  "has_pending_request n chat = (case ne_requests n of Inl err \<Rightarrow> False
   | Inr rs \<Rightarrow> list_ex (\<lambda>r. (case r of None \<Rightarrow> ''None'' | Some g \<Rightarrow> g) = chat) rs)"

definition pending_maintenance :: "int \<Rightarrow> string \<Rightarrow> ntask \<Rightarrow> bool" where
  "pending_maintenance utcnow chat r \<longleftrightarrow>
     nt_name r = ''groupchat_maintenance'' \<and> (case nt_waiting r of None \<Rightarrow> False | Some x \<Rightarrow> x \<in> set waiting_targets) \<and>
     (if truthy_str (nt_chat r) then nt_chat r = Some chat
      else (case nt_created r of None \<Rightarrow> False
        | Some t \<Rightarrow> (case time_diff (Naive utcnow) t of None \<Rightarrow> False | Some d \<Rightarrow> d \<le> secs 7200)))"

definition has_pending_maintenance :: "nenv \<Rightarrow> string \<Rightarrow> bool" where
  "has_pending_maintenance n chat = (case ne_tasks n of Inl err \<Rightarrow> False
   | Inr rs \<Rightarrow> list_ex (pending_maintenance (ne_utcnow n) chat) (take 5 rs))"

fun send_responses :: "(string \<Rightarrow> string) \<Rightarrow> genv \<Rightarrow> nenv \<Rightarrow> string \<Rightarrow> nat \<Rightarrow> string option list \<Rightarrow> bool \<Rightarrow> gworld \<Rightarrow> (string + bool) \<times> gworld" where
  "send_responses sha256 e n chat i [] sent w = (Inr sent, w)"
| "send_responses sha256 e n chat i (r # rs) sent w =
     (let t = py_strip (or_str r '''') in
      if t = [] then send_responses sha256 e n chat (i + 1) rs sent w
      else (case send_and_record sha256 e (ne_send n i) chat t w of
          (Inl err, w') \<Rightarrow> (Inl err, w')
        | (Inr _, w') \<Rightarrow> send_responses sha256 e n chat (i + 1) rs True w'))"

definition wants_reply :: "nenv \<Rightarrow> gevent \<Rightarrow> bool" where
  "wants_reply n ev \<longleftrightarrow> mentions_frank (ge_text ev)
     \<or> truthy_str (ge_user ev) \<and> ge_chat ev \<noteq> [] \<and> (has_pending_request n (ge_chat ev) \<or> has_pending_maintenance n (ge_chat ev))"

text \<open>The agent's answer is its responses, if it succeeded; a single text is a list of one.\<close>

definition networking_handler :: "(string \<Rightarrow> string) \<Rightarrow> genv \<Rightarrow> nenv \<Rightarrow> ghandler" where
  "networking_handler sha256 e n ev managed w =
     (if \<not> wants_reply n ev then (Inr False, w)
      else (let t = (if mentions_frank (ge_text ev) then strip_invocation (ge_text ev) else ge_text ev);
                message = (if t = [] then ''hey'' else t)
            in case ne_user n of Some err \<Rightarrow> (Inl err, w)
               | None \<Rightarrow> (case ne_agent n message of
                     Inl err \<Rightarrow> (Inl err, w)
                   | Inr None \<Rightarrow> (Inr False, w)
                   | Inr (Some responses) \<Rightarrow> send_responses sha256 e n (ge_chat ev) 0 responses False w)))"

section \<open>Unmanaged chats\<close>

text \<open>Nothing is kept of a group chat that is not managed unless Frank is called. A message that does not begin
with a call leaves transcripts, summary jobs and follow-up jobs as they were; only a handler may still
answer it.\<close>

theorem unmanaged_chats_leave_no_trace:
  assumes "load_managed_context e = None" "\<not> looks_like_invocation (or_str (wh_content wh) '''')"
  shows "\<exists>ev. ge_text ev = or_str (wh_content wh) '''' \<and> handle_inbound sha256 handlers e wh sender w
     = (if is_group_guid (or_str (wh_chat wh) '''') then run_handlers handlers ev None w else (False, w))"
  using assms
  by (intro exI [of _ "enrich_event e None (event_of sha256 wh sender)"])
    (auto simp: handle_inbound_def record_if_def enrich_event_def event_of_def Let_def split: prod.splits)

lemma invocation_examples:
  "\<not> looks_like_invocation ''what is on, Frank?''" "mentions_frank ''what is on, Frank?''"
  "strip_invocation ''what is on, Frank?'' = ''what is on,''" "is_group_guid ''chat1''" "py_strip ''a talk'' = ''a talk''"
  "\<not> looks_like_invocation ''hello''"
  by code_simp+

text \<open>An environment of a chat that is not managed\<close>

definition example_genv :: genv where
  "example_genv = \<lparr>gv_chat = None, gv_parts = [], gv_user = (\<lambda>_. None), gv_now = ''0'', gv_time = (\<lambda>_. Some 0),
    gv_up = (\<lambda>_. True), gv_cfg = default_fcfg, gv_minutes = 5\<rparr>"

definition example_webhook :: "string \<Rightarrow> gwebhook" where
  "example_webhook t = \<lparr>wh_chat = Some ''chat1'', wh_message = Some ''m1'', wh_time = None, wh_from = Some ''+15550001111'',
     wh_content = Some t, wh_media = None\<rparr>"

definition example_gworld :: gworld where
  "example_gworld = \<lparr>gw_sum = empty_sworld, gw_follow = [], gw_sent = []\<rparr>"

lemma unmanaged_chats_leave_no_trace_witness: "handle_inbound id [] example_genv (example_webhook ''hello'') ''u'' example_gworld = (False, example_gworld)"
proof -
  have "load_managed_context example_genv = None" by (simp add: example_genv_def load_managed_context_def)
  moreover have "\<not> looks_like_invocation (or_str (wh_content (example_webhook ''hello'')) '''')"
    by (simp add: example_webhook_def invocation_examples)
  ultimately show ?thesis
    using unmanaged_chats_leave_no_trace [of example_genv "example_webhook ''hello''" id "[]" "''u''" example_gworld] by (auto split: if_splits)
qed

text \<open>The two tests for a call of Frank differ: a message that mentions him at its end is answered, by the
handler's test, but in a chat that is not managed it is not recorded, by the router's. All that is kept
of the conversation is Frank's answer.\<close>

theorem answered_but_not_recorded:
  assumes "load_managed_context e = None" "wh_chat wh = Some ''chat1''" "wh_content wh = Some ''what is on, Frank?''"
    and "ne_user n = None" "ne_agent n ''what is on,'' = Inr (Some [Some ''a talk''])" "ne_send n 0 = Inr (Some ''id'')"
  shows "handle_inbound sha256 [networking_handler sha256 e n] e wh sender w
    = (True, snd (record_outbound sha256 e ''chat1'' ''a talk'' (Some ''id'') None (w\<lparr>gw_sent := gw_sent w @ [(''chat1'', ''a talk'')]\<rparr>)))"
proof -
  define ev where "ev = enrich_event e None (event_of sha256 wh sender)"
  have ev: "ge_text ev = ''what is on, Frank?''" "ge_chat ev = ''chat1''"
    using assms by (simp_all add: ev_def enrich_event_def event_of_def Let_def)
  then have "networking_handler sha256 e n ev None w
    = (Inr True, snd (record_outbound sha256 e ''chat1'' ''a talk'' (Some ''id'') None (w\<lparr>gw_sent := gw_sent w @ [(''chat1'', ''a talk'')]\<rparr>)))"
    using assms by (simp add: networking_handler_def wants_reply_def invocation_examples send_and_record_def Let_def)
  then show ?thesis
    using assms ev by (simp add: handle_inbound_def invocation_examples record_if_def Let_def ev_def [symmetric])
qed

lemma answered_but_not_recorded_witness:
  "\<exists>n. handle_inbound id [networking_handler id example_genv n] example_genv (example_webhook ''what is on, Frank?'') ''u'' example_gworld
    = (True, snd (record_outbound id example_genv ''chat1'' ''a talk'' (Some ''id'') None (example_gworld\<lparr>gw_sent := gw_sent example_gworld @ [(''chat1'', ''a talk'')]\<rparr>)))"
proof -
  define n where "n = \<lparr>ne_requests = Inr [], ne_tasks = Inr [], ne_utcnow = 0, ne_user = None, ne_agent = (\<lambda>_. Inr (Some [Some ''a talk''])),
    ne_send = (\<lambda>_. Inr (Some ''id''))\<rparr>"
  show ?thesis
    by (rule exI [of _ n], rule answered_but_not_recorded)
      (simp_all add: n_def example_genv_def load_managed_context_def example_webhook_def)
qed


section \<open>Times with and without an offset\<close>

text \<open>A recent request without a chat is never continued. The history gives the times of tasks with their
offset, the clock is read without one, and their difference raises; so a message that does not
mention Frank is not taken as the continuation of a task that does not name the chat, however
recent it is.\<close>

theorem recent_task_is_never_continued:
  assumes "\<not> mentions_frank (ge_text ev)" "\<not> has_pending_request n (ge_chat ev)"
    and "ne_tasks n = Inr rs" "list_all (\<lambda>r. \<not> truthy_str (nt_chat r) \<and> (\<exists>t. nt_created r = Some (Aware t))) rs"
  shows "networking_handler sha256 e n ev managed w = (Inr False, w)"
proof -
  have "\<not> pending_maintenance (ne_utcnow n) (ge_chat ev) r" if "r \<in> set rs" for r
    using that assms(4) by (auto simp: list_all_iff pending_maintenance_def time_diff_def)
  then have "\<not> has_pending_maintenance n (ge_chat ev)"
    using assms(3) set_take_subset [of 5 rs] by (auto simp: has_pending_maintenance_def list_ex_iff)
  with assms(1,2) show ?thesis by (simp add: networking_handler_def wants_reply_def)
qed

definition example_gevent :: gevent where
  "example_gevent = event_of id (example_webhook ''hello'') ''u''"

lemma example_gevent_fields [simp]: "ge_text example_gevent = ''hello''" "ge_chat example_gevent = ''chat1''"
  by (simp_all add: example_gevent_def event_of_def example_webhook_def Let_def)

lemma hello_mentions: "\<not> mentions_frank ''hello''"
  by code_simp

lemma recent_task_is_never_continued_witness:
  "\<exists>n r. ne_tasks n = Inr [r] \<and> nt_created r = Some (Aware (ne_utcnow n))
     \<and> networking_handler id example_genv n example_gevent None example_gworld = (Inr False, example_gworld)"
proof -
  define r where "r = \<lparr>nt_name = ''groupchat_maintenance'', nt_waiting = Some ''calendar_connect'', nt_chat = None, nt_created = Some (Aware 7)\<rparr>"
  define n where "n = \<lparr>ne_requests = Inr [], ne_tasks = Inr [r], ne_utcnow = 7, ne_user = None, ne_agent = (\<lambda>_. Inr None),
    ne_send = (\<lambda>_. Inr None)\<rparr>"
  have "networking_handler id example_genv n example_gevent None example_gworld = (Inr False, example_gworld)"
    by (rule recent_task_is_never_continued [where rs = "[r]"]) (simp_all add: n_def r_def hello_mentions has_pending_request_def)
  then show ?thesis by (intro exI [of _ n] exI [of _ r]) (simp add: n_def r_def)
qed

section \<open>Managed chats\<close>

lemma index_of_nth: "x \<in> set xs \<Longrightarrow> index_of x xs < length xs \<and> xs ! index_of x xs = x"
  by (induction xs) auto

text \<open>The sender of a message in a managed chat is found out as described. The event keeps the sender's own
user, or names a participant with the same e-mail address or the same last ten digits; the label is
that of the position of a participant, and unknown for anyone else; and the sender has a name.\<close>

theorem sender_is_resolved:
  fixes ev :: gevent
  assumes "ev' = enrich_event e (Some m) ev"
  shows "(ge_user ev' = ge_user ev
      \<or> (\<exists>pid \<in> set (gm_ids m). ge_user ev' = Some pid \<and> same_handle (normalize_handle (ge_handle ev)) (user_handle e pid)))
    \<and> (if is_participant m (ge_user ev')
       then \<exists>i < length (gm_ids m). ge_user ev' = Some (gm_ids m ! i) \<and> ge_participant ev' = ''participant_'' @ str_nat i
       else ge_participant ev' = ''unknown'')
    \<and> ge_name ev' \<noteq> None \<and> ge_text ev' = ge_text ev \<and> ge_id ev' = ge_id ev"
proof -
  have user: "ge_user ev' = resolve_sender e (Some m) ev" and label: "ge_participant ev' = participant_label (Some m) (ge_user ev') (ge_participant ev)"
    and rest: "ge_name ev' \<noteq> None" "ge_text ev' = ge_text ev" "ge_id ev' = ge_id ev"
    by (simp_all add: assms enrich_event_def Let_def)
  have "ge_user ev' = ge_user ev
      \<or> (\<exists>pid \<in> set (gm_ids m). ge_user ev' = Some pid \<and> same_handle (normalize_handle (ge_handle ev)) (user_handle e pid))"
    unfolding user by (auto simp: resolve_sender_def Let_def split: option.splits dest: find_Some_in)
  moreover have "if is_participant m (ge_user ev')
       then \<exists>i < length (gm_ids m). ge_user ev' = Some (gm_ids m ! i) \<and> ge_participant ev' = ''participant_'' @ str_nat i
       else ge_participant ev' = ''unknown''"
    unfolding label using index_of_nth [of "the (ge_user ev')" "gm_ids m"]
    by (auto simp: participant_label_def is_participant_def split: option.splits)
  ultimately show ?thesis using rest by blast
qed

section \<open>Recording\<close>

lemma record_inbound_ok:
  assumes "py_strip (ge_chat ev) \<noteq> []" "gv_time e (or_strip (ge_time ev) (gv_now e)) = Some sent_at" "gv_up e GIngest"
  obtains m where "rm_event m = best_effort_event_id sha ev" "rm_role m = ''user''" "rm_sent m = sent_at" "rm_content m = inbound_content ev"
    and "record_inbound sha e ev managed w = (True, w\<lparr>
      gw_sum := (gw_sum w)\<lparr>sw_raw := snd (append_raw (ge_chat ev) m 800 (sw_raw (gw_sum w))),
        sw_jobs := snd (sj_schedule True (ge_chat ev) sent_at (rm_event m) (gv_minutes e) (sw_jobs (gw_sum w)))\<rparr>,
      gw_follow := (if managed \<and> fc_enabled (gv_cfg e)
        then snd (db_schedule (gv_up e GFollow) (ge_chat ev) sent_at (rm_event m) (resolve_inactivity_minutes (gv_cfg e)) (gw_follow w))
        else gw_follow w)\<rparr>)"
proof
  let ?m = "\<lparr>rm_event = best_effort_event_id sha ev, rm_message = or_str (ge_message ev) '''', rm_role = ''user'',
    rm_user = none_if_empty (or_strip (ge_user ev) ''''), rm_handle = or_strip (ge_handle ev) '''', rm_sent = sent_at,
    rm_content = inbound_content ev, rm_media = or_str (ge_media ev) '''', rm_type = ''user_message''\<rparr>"
  obtain row t where s: "sj_schedule True (ge_chat ev) sent_at (rm_event ?m) (gv_minutes e) (sw_jobs (gw_sum w)) = (Some row, t)"
    unfolding sj_schedule_def using schedule_answers by blast
  show "record_inbound sha e ev managed w = (True, w\<lparr>
      gw_sum := (gw_sum w)\<lparr>sw_raw := snd (append_raw (ge_chat ev) ?m 800 (sw_raw (gw_sum w))),
        sw_jobs := snd (sj_schedule True (ge_chat ev) sent_at (rm_event ?m) (gv_minutes e) (sw_jobs (gw_sum w)))\<rparr>,
      gw_follow := (if managed \<and> fc_enabled (gv_cfg e)
        then snd (db_schedule (gv_up e GFollow) (ge_chat ev) sent_at (rm_event ?m) (resolve_inactivity_minutes (gv_cfg e)) (gw_follow w))
        else gw_follow w)\<rparr>)"
    using s assms by (simp add: record_inbound_def ingest_message_def or_default_def Let_def)
qed simp_all

lemma append_msg_has: "length ms \<le> n \<Longrightarrow> 0 < n \<Longrightarrow> rm_event m \<in> rm_event ` set (append_msg n m ms)"
  by (auto simp: append_msg_def Let_def image_iff drop_Cons' split: if_splits)




lemma sender_is_resolved_witness:
  "\<exists>m ev'. ev' = enrich_event example_genv (Some m) example_gevent \<and> gm_ids m = [''u''] \<and> ge_participant ev' = ''participant_'' @ str_nat 0"
proof -
  define m where "m = \<lparr>gm_ids = [''u''], gm_modes = Map.empty, gm_request = None, gm_count = 1\<rparr>"
  define ev' where "ev' = enrich_event example_genv (Some m) example_gevent"
  have "ge_user example_gevent = Some ''u''" by (simp add: example_gevent_def event_of_def none_if_empty_def Let_def)
  then have "ge_user ev' = Some ''u''" by (simp add: ev'_def enrich_event_def resolve_sender_def is_participant_def m_def Let_def)
  then have "\<exists>i < length (gm_ids m). ge_user ev' = Some (gm_ids m ! i) \<and> ge_participant ev' = ''participant_'' @ str_nat i"
    using sender_is_resolved [OF ev'_def] by (simp add: is_participant_def m_def)
  then show ?thesis using ev'_def by (intro exI [of _ m] exI [of _ ev']) (simp add: m_def)
qed


lemma append_msg_again: "rm_event m = rm_event m' \<Longrightarrow> length ms \<le> n \<Longrightarrow> 0 < n \<Longrightarrow> append_msg n m' (append_msg n m ms) = append_msg n m ms"
  using append_msg_has [of ms n m] by (auto simp: append_msg_def Let_def)

text \<open>A message delivered again is recorded once. Recording an event again right after leaves the transcripts
as they are, whatever else the second delivery says (for example another user or time).\<close>

theorem redelivery_is_recorded_once:
  assumes "best_effort_event_id sha256 ev' = best_effort_event_id sha256 ev" "ge_chat ev' = ge_chat ev" "rows_ok (sw_raw (gw_sum w))"
    and "length (messages_in (sw_raw (gw_sum w)) (ge_chat ev)) \<le> 800" "record_inbound sha256 e ev managed w = (True, w')"
  shows "messages_in (sw_raw (gw_sum (snd (record_inbound sha256 e' ev' managed' w')))) = messages_in (sw_raw (gw_sum w'))"
proof -
  have chat: "py_strip (ge_chat ev) \<noteq> []" and up: "gv_up e GIngest" using assms(5)
    by (auto simp: record_inbound_def ingest_message_def Let_def split: if_splits option.splits)
  obtain sent_at where at: "gv_time e (or_strip (ge_time ev) (gv_now e)) = Some sent_at"
    using assms(5) chat by (auto simp: record_inbound_def split: option.splits)
  obtain m where m: "rm_event m = best_effort_event_id sha256 ev"
    and raw: "sw_raw (gw_sum w') = exec_raw (RAppend (ge_chat ev) m 800) (sw_raw (gw_sum w))"
    by (rule record_inbound_ok [OF chat at up, where sha = sha256 and managed = managed and w = w]) (use assms(5) in auto)
  have ok: "rows_ok (sw_raw (gw_sum w'))" unfolding raw by (rule exec_raw_ok [OF assms(3)])
  have old: "messages_in (sw_raw (gw_sum w')) = spec_raw (RAppend (ge_chat ev) m 800) (messages_in (sw_raw (gw_sum w)))"
    unfolding raw by (rule exec_raw_spec [OF assms(3)])
  let ?w'' = "snd (record_inbound sha256 e' ev' managed' w')"
  show ?thesis
  proof (cases "gv_up e' GIngest \<and> gv_time e' (or_strip (ge_time ev') (gv_now e')) \<noteq> None")
    case False
    then have "sw_raw (gw_sum ?w'') = sw_raw (gw_sum w')"
      by (auto simp: record_inbound_def ingest_message_def Let_def split: option.splits)
    then show ?thesis by simp
  next
    case True
    then obtain at' where up': "gv_up e' GIngest" and at': "gv_time e' (or_strip (ge_time ev') (gv_now e')) = Some at'" by auto
    have chat': "py_strip (ge_chat ev') \<noteq> []" using chat assms(2) by simp
    obtain m' where m': "rm_event m' = best_effort_event_id sha256 ev'"
      and raw': "sw_raw (gw_sum ?w'') = exec_raw (RAppend (ge_chat ev) m' 800) (sw_raw (gw_sum w'))"
      by (rule record_inbound_ok [OF chat' at' up', where sha = sha256 and managed = managed' and w = w']) (auto simp: assms(2))
    have "append_msg (keep_last 800) m' (messages_in (sw_raw (gw_sum w')) (ge_chat ev)) = messages_in (sw_raw (gw_sum w')) (ge_chat ev)"
      unfolding old using append_msg_again [of m m' "messages_in (sw_raw (gw_sum w)) (ge_chat ev)" "keep_last 800"] m m' assms(1,4)
      by (simp add: keep_last_def)
    then show ?thesis unfolding raw' exec_raw_spec [OF ok] by simp
  qed
qed

lemma redelivery_is_recorded_once_witness:
  "\<exists>w'. record_inbound id example_genv example_gevent True \<lparr>gw_sum = empty_sworld, gw_follow = [], gw_sent = []\<rparr> = (True, w')
     \<and> messages_in (sw_raw (gw_sum (snd (record_inbound id example_genv example_gevent True w')))) = messages_in (sw_raw (gw_sum w'))"
proof -
  let ?w = "\<lparr>gw_sum = empty_sworld, gw_follow = [], gw_sent = []\<rparr>"
  have strip: "py_strip ''chat1'' \<noteq> []" by code_simp
  have ok: "py_strip (ge_chat example_gevent) \<noteq> []" "gv_time example_genv (or_strip (ge_time example_gevent) (gv_now example_genv)) = Some 0"
    "gv_up example_genv GIngest" by (simp_all add: strip example_genv_def)
  obtain w' where r: "record_inbound id example_genv example_gevent True ?w = (True, w')"
    by (rule record_inbound_ok [OF ok, where sha = id and managed = True and w = ?w]) auto
  have "rows_ok (sw_raw (gw_sum ?w))" "length (messages_in (sw_raw (gw_sum ?w)) (ge_chat example_gevent)) \<le> 800"
    by (simp_all add: empty_sworld_def rows_ok_def messages_in_def)
  from redelivery_is_recorded_once [OF refl refl this r] r show ?thesis by blast
qed

end
