(* ===== verification/Photon_Client.thy ===== *)
theory Photon_Client
  imports Chunker Phone_Validator
begin

text \<open>
  The client of the iMessage gateway, app/integrations/photon_client.py. A request is a value; the
  server is a parameter that says, for the requests it got before and a new one, whether it carried the
  request out and what the client sees: no answer, a refusal, or a body. So a request can have
  been carried out although its answer was lost. The state is the log of requests, each with
  whether it was carried out. The decorator \<open>retry\<close> of the package tenacity is a parameter too; its
  documented behaviour is the locale \<open>retry_decorator\<close>. Free text is a list of code points.
  Attachments, which a script of another language sends, are not modelled.
\<close>

section \<open>Requests and answers\<close>

datatype prequest =
    PText string ucs "string option" "string option" bool
  | PTyping string bool
  | PRead string bool
  | PReact string string string int
  | PPoll string "string option" "string list"
  | PNewChat "string list" ucs string string
  | PRename string string
  | PShareStatus string
  | PParticipant string string
  | PShareContact string

text \<open>A body is missing, or is JSON, or is not (then reading it raises).\<close>

datatype panswer = PLost string | PRefused nat string | POk "string + json option"

datatype perr = PhotonError string | OtherError string | RetryError perr

type_synonym plog = "(prequest \<times> bool) list"

type_synonym pserver = "plog \<Rightarrow> prequest \<Rightarrow> bool \<times> panswer"

type_synonym 'a pio = "(plog, perr, 'a) io"

definition ask :: "pserver \<Rightarrow> prequest \<Rightarrow> panswer pio" where
  "ask srv r w = (case srv w r of (carried, ans) \<Rightarrow> (Inr ans, w @ [(r, carried)]))"

text \<open>\<open>response.json().get("data") if response.content else None\<close>, after \<open>raise_for_status\<close>\<close>

definition data_of :: "json option \<Rightarrow> perr + json" where
  "data_of body = (case body of
     None \<Rightarrow> Inr JNull
   | Some (JObj d) \<Rightarrow> Inr (case map_of d ''data'' of None \<Rightarrow> JNull | Some v \<Rightarrow> v)
   | Some _ \<Rightarrow> Inl (OtherError ''AttributeError''))"

definition answer_data :: "string \<Rightarrow> panswer \<Rightarrow> perr + json" where
  "answer_data what ans = (case ans of
     PLost e \<Rightarrow> Inl (OtherError e)
   | PRefused code e \<Rightarrow> Inl (PhotonError (what @ e))
   | POk (Inl e) \<Rightarrow> Inl (OtherError e)
   | POk (Inr body) \<Rightarrow> data_of body)"

text \<open>\<open>x.get(k)\<close> of a JSON value, and \<open>x or y\<close>\<close>

definition json_get :: "json \<Rightarrow> string \<Rightarrow> perr + json" where
  "json_get x k = (case x of
     JObj d \<Rightarrow> Inr (case map_of d k of None \<Rightarrow> JNull | Some v \<Rightarrow> v)
   | _ \<Rightarrow> Inl (OtherError ''AttributeError''))"

definition json_or :: "json \<Rightarrow> json \<Rightarrow> json" where
  "json_or x y = (if json_truthy (Some x) then x else y)"

definition io_of :: "perr + 'a \<Rightarrow> 'a pio" where
  "io_of r = (case r of Inl e \<Rightarrow> io_raise e | Inr x \<Rightarrow> io_return x)"

section \<open>Addresses\<close>

definition email_local_char :: "char \<Rightarrow> bool" where
  "email_local_char c \<longleftrightarrow> is_letter c \<or> is_digit c \<or> c \<in> {CHR ''.'', CHR ''_'', CHR ''%'', CHR ''+'', CHR ''-''}"

definition email_host_char :: "char \<Rightarrow> bool" where
  "email_host_char c \<longleftrightarrow> is_letter c \<or> is_digit c \<or> c \<in> {CHR ''.'', CHR ''-''}"

text \<open>The pattern \<open>^[a-zA-Z0-9._%+-]+@[a-zA-Z0-9.-]+\.[a-zA-Z]{2,}$\<close>; \<open>$\<close> also matches before a newline at the end.\<close>

definition is_valid_email :: "string \<Rightarrow> bool" where
  "is_valid_email email \<longleftrightarrow>
     (let s = (if email \<noteq> [] \<and> last email = CHR 0x0A then butlast email else email);
          local = takeWhile (\<lambda>c. c \<noteq> CHR ''@'') s; domain = tl (dropWhile (\<lambda>c. c \<noteq> CHR ''@'') s);
          tld = rev (takeWhile (\<lambda>c. c \<noteq> CHR ''.'') (rev domain)); host = take (length domain - length tld - 1) domain
      in CHR ''@'' \<in> set s \<and> local \<noteq> [] \<and> list_all email_local_char local
         \<and> length tld < length domain \<and> host \<noteq> [] \<and> list_all email_host_char host
         \<and> 2 \<le> length tld \<and> list_all is_letter tld)"

definition build_chat_guid :: "string \<Rightarrow> bool \<Rightarrow> string" where
  "build_chat_guid ident is_email =
     ''iMessage;-;'' @ (if is_email then ident else if starts_with ''+'' ident then ident else ''+'' @ ident)"

definition lowered :: "string \<Rightarrow> string" where
  "lowered s = py_strip (py_lower s)"

definition build_chat_guid_from_number :: "string \<Rightarrow> string option" where
  "build_chat_guid_from_number to_number =
     (if to_number = [] then None
      else if CHR ''@'' \<in> set to_number then Some (build_chat_guid (lowered to_number) True)
      else map_option (\<lambda>n. build_chat_guid n False) (normalize_phone_number to_number))"

text \<open>The check of a recipient, with the texts of its errors\<close>

definition checked_address :: "string \<Rightarrow> string \<Rightarrow> string \<Rightarrow> perr + string" where
  "checked_address invalid failed addr =
     (if CHR ''@'' \<in> set addr
      then if is_valid_email addr then Inr (lowered addr) else Inl (PhotonError (''Invalid email address: '' @ addr))
      else if \<not> is_valid_phone_number addr then Inl (PhotonError (invalid @ get_invalid_phone_reason addr))
      else (case normalize_phone_number addr of
          None \<Rightarrow> Inl (PhotonError failed)
        | Some n \<Rightarrow> if n = [] then Inl (PhotonError failed) else Inr n))"

text \<open>\<open>PhotonClient.__init__\<close>: the base URL\<close>

definition base_url :: "string option \<Rightarrow> string option \<Rightarrow> perr + string" where
  "base_url server_url setting =
     (let url = or_str server_url (or_str setting '''') in
      if url = [] then Inl (PhotonError ''Photon server URL is not configured'')
      else let u = rstrip_by (\<lambda>c. c = CHR ''/'') url in Inr (if starts_with ''http'' u then u else ''https://'' @ u))"

section \<open>Messages\<close>

text \<open>\<open>retry\<close> with \<open>stop_after_attempt(n)\<close>: the call is made again when it raises, at most \<open>n\<close> times in all.\<close>

type_synonym retrier = "nat \<Rightarrow> json pio \<Rightarrow> json pio"

definition send_message_once :: "pserver \<Rightarrow> string \<Rightarrow> ucs \<Rightarrow> string option \<Rightarrow> string option \<Rightarrow> string option \<Rightarrow> bool \<Rightarrow> json pio" where
  "send_message_once srv to_number content chat effect subject rich =
     (if to_number = [] \<or> content = [] then io_raise (PhotonError ''Missing required to_number or content'')
      else io_bind (io_of (checked_address ''Invalid phone number: '' ''Failed to normalize phone number'' to_number)) (\<lambda>normalized.
           io_bind (ask srv (PText (or_str chat (build_chat_guid normalized (CHR ''@'' \<in> set to_number))) content (or_null effect) (or_null subject) rich)) (\<lambda>ans.
           io_bind (io_of (answer_data ''Photon send_message failed: '' ans)) (\<lambda>data.
           io_bind (io_of (json_get (json_or data (JObj [])) ''guid'')) (\<lambda>guid.
           io_return (JObj [(''messageId'', guid), (''data'', data)]))))))"

definition send_message :: "retrier \<Rightarrow> pserver \<Rightarrow> string \<Rightarrow> ucs \<Rightarrow> string option \<Rightarrow> string option \<Rightarrow> string option \<Rightarrow> bool \<Rightarrow> json pio" where
  "send_message retry srv to_number content chat effect subject rich =
     retry 3 (send_message_once srv to_number content chat effect subject rich)"

definition send_message_to_chat :: "retrier \<Rightarrow> pserver \<Rightarrow> string \<Rightarrow> ucs \<Rightarrow> string option \<Rightarrow> string option \<Rightarrow> json pio" where
  "send_message_to_chat retry srv chat content effect subject = retry 3
     (if chat = [] then io_raise (PhotonError ''Missing chat_guid'')
      else if content = [] then io_raise (PhotonError ''Missing content'')
      else io_bind (ask srv (PText chat content (or_null effect) (or_null subject) False)) (\<lambda>ans.
           io_bind (io_of (answer_data ''Photon send_message_to_chat failed: '' ans)) (\<lambda>data.
           io_return (JObj [(''data'', data)]))))"

section \<open>Typing and reading\<close>

text \<open>\<open>cached\<close> is the chat GUID that Redis has for a recipient. Failures are only logged.\<close>

definition typing :: "bool \<Rightarrow> pserver \<Rightarrow> (string \<Rightarrow> string option) \<Rightarrow> string \<Rightarrow> string option \<Rightarrow> unit pio" where
  "typing start srv cached to_number chat =
     (let known = (if truthy_str chat then chat else cached to_number);
          guid = (if truthy_str known then known else build_chat_guid_from_number to_number)
      in if \<not> truthy_str guid then io_return () else io_bind (ask srv (PTyping (the guid) start)) (\<lambda>_. io_return ()))"

definition start_typing :: "pserver \<Rightarrow> (string \<Rightarrow> string option) \<Rightarrow> string \<Rightarrow> string option \<Rightarrow> unit pio" where
  "start_typing = typing True"

definition stop_typing :: "pserver \<Rightarrow> (string \<Rightarrow> string option) \<Rightarrow> string \<Rightarrow> string option \<Rightarrow> unit pio" where
  "stop_typing = typing False"

definition send_typing_indicator :: "pserver \<Rightarrow> (string \<Rightarrow> string option) \<Rightarrow> string \<Rightarrow> string option \<Rightarrow> unit pio" where
  "send_typing_indicator srv cached to_number chat =
     io_bind (start_typing srv cached to_number chat) (\<lambda>_. stop_typing srv cached to_number chat)"

definition mark_chat :: "bool \<Rightarrow> pserver \<Rightarrow> string option \<Rightarrow> unit pio" where
  "mark_chat read srv chat =
     (if \<not> truthy_str chat then io_return () else io_bind (ask srv (PRead (the chat) read)) (\<lambda>_. io_return ()))"

definition mark_chat_read :: "pserver \<Rightarrow> string option \<Rightarrow> unit pio" where
  "mark_chat_read = mark_chat True"

definition mark_chat_unread :: "pserver \<Rightarrow> string option \<Rightarrow> unit pio" where
  "mark_chat_unread = mark_chat False"

definition reactions :: "string list" where
  "reactions = [''love'', ''like'', ''dislike'', ''laugh'', ''emphasize'', ''question'']"

definition send_reaction :: "pserver \<Rightarrow> (string \<Rightarrow> string option) \<Rightarrow> string \<Rightarrow> string option \<Rightarrow> string \<Rightarrow> string option \<Rightarrow> int \<Rightarrow> json pio" where
  "send_reaction srv cached to_number message reaction chat part =
     (if \<not> truthy_str message \<or> reaction \<notin> set reactions then io_return (JObj [])
      else let known = (if truthy_str chat then chat else cached to_number);
               guid = (if truthy_str known then known else build_chat_guid_from_number to_number)
        in if \<not> truthy_str guid then io_return (JObj [])
           else io_bind (ask srv (PReact (the guid) (the message) reaction part)) (\<lambda>ans.
                case answer_data '''' ans of Inl e \<Rightarrow> io_return (JObj [])
                | Inr data \<Rightarrow> io_return (JObj [(''success'', JBool True), (''data'', data)])))"

section \<open>A message in pieces\<close>

text \<open>One result per piece: its index, and the answer or the error.\<close>

fun chunks_loop :: "retrier \<Rightarrow> pserver \<Rightarrow> (string \<Rightarrow> string option) \<Rightarrow> string \<Rightarrow> string \<Rightarrow> bool \<Rightarrow> nat \<Rightarrow> ucs list \<Rightarrow> (nat \<times> (perr + json)) list pio" where
  "chunks_loop retry srv cached to_number guid show_typing i [] w = (Inr [], w)"
| "chunks_loop retry srv cached to_number guid show_typing i (c # cs) w =
     (let w1 = (if show_typing then snd (send_typing_indicator srv cached to_number (Some guid) w) else w) in
      case send_message retry srv to_number c (Some guid) None None False w1 of
        (res, w2) \<Rightarrow> (case chunks_loop retry srv cached to_number guid show_typing (i + 1) cs w2 of
           (Inl e, w3) \<Rightarrow> (Inl e, w3) | (Inr rs, w3) \<Rightarrow> (Inr ((i, res) # rs), w3)))"

definition send_chunked_messages :: "retrier \<Rightarrow> pserver \<Rightarrow> (string \<Rightarrow> string option) \<Rightarrow> string \<Rightarrow> ucs list \<Rightarrow> bool \<Rightarrow> (nat \<times> (perr + json)) list pio" where
  "send_chunked_messages retry srv cached to_number chunks show_typing =
     (if chunks = [] then io_return []
      else (case (if CHR ''@'' \<in> set to_number then Some (lowered to_number) else normalize_phone_number to_number) of
          None \<Rightarrow> io_return []
        | Some n \<Rightarrow> if CHR ''@'' \<notin> set to_number \<and> n = [] then io_return []
            else chunks_loop retry srv cached to_number (build_chat_guid n (CHR ''@'' \<in> set to_number)) show_typing 0 chunks))"

section \<open>Groups\<close>

definition create_poll :: "pserver \<Rightarrow> string \<Rightarrow> string option \<Rightarrow> string option list \<Rightarrow> json pio" where
  "create_poll srv chat title options =
     (if chat = [] then io_raise (PhotonError ''Missing chat_guid'')
      else let cleaned_options = filter (\<lambda>x. x \<noteq> []) (map (\<lambda>x. py_strip (or_str x '''')) options) in
        if length cleaned_options < 2 then io_raise (PhotonError ''Poll must have at least 2 non-empty options'')
        else io_bind (ask srv (PPoll chat (none_if_empty (py_strip (or_str title ''''))) cleaned_options)) (\<lambda>ans.
             case ans of PRefused code e \<Rightarrow> io_raise (PhotonError (if code = 404 then ''Server does not support polls (404 /api/v1/poll/create)''
                                                              else ''Photon create_poll failed: '' @ e))
             | _ \<Rightarrow> io_bind (io_of (answer_data '''' ans)) (\<lambda>data. io_return (JObj [(''data'', data)]))))"

fun checked_addresses :: "string list \<Rightarrow> perr + string list" where
  "checked_addresses [] = Inr []"
| "checked_addresses (a # rest) =
     (case checked_address (''Invalid phone number '' @ a @ '': '') (''Failed to normalize phone number: '' @ a) a of
        Inl e \<Rightarrow> Inl e
      | Inr n \<Rightarrow> (case checked_addresses rest of Inl e \<Rightarrow> Inl e | Inr ns \<Rightarrow> Inr (n # ns)))"

definition guid_of_new_chat :: "json \<Rightarrow> perr + json" where
  "guid_of_new_chat data =
     (if \<not> json_truthy (Some data) then Inr JNull
      else (case data of
        JObj d \<Rightarrow>
          (let get = (\<lambda>k. case map_of d k of None \<Rightarrow> JNull | Some v \<Rightarrow> v);
               guid = json_or (get ''chatGuid'') (get ''guid''); chats = (case map_of d ''chats'' of None \<Rightarrow> JList [] | Some v \<Rightarrow> v)
           in if json_truthy (Some chats) \<and> \<not> json_truthy (Some guid)
              then (case chats of JList (x # _) \<Rightarrow> json_get x ''guid'' | _ \<Rightarrow> Inl (OtherError ''TypeError''))
              else Inr guid)
      | _ \<Rightarrow> Inl (OtherError ''AttributeError'')))"

definition create_group_chat_once :: "pserver \<Rightarrow> string list \<Rightarrow> ucs \<Rightarrow> json pio" where
  "create_group_chat_once srv addresses message =
     (if length addresses < 2 then io_raise (PhotonError ''Group chat requires at least 2 participants'')
      else if message = [] then io_raise (PhotonError ''Initial message is required for group creation'')
      else io_bind (io_of (checked_addresses addresses)) (\<lambda>normalized.
           io_bind (ask srv (PNewChat normalized message ''iMessage'' ''private-api'')) (\<lambda>ans.
           io_bind (io_of (answer_data ''Photon create_group_chat failed: '' ans)) (\<lambda>data.
           io_bind (io_of (guid_of_new_chat data)) (\<lambda>guid.
           io_return (JObj [(''chat_guid'', guid), (''data'', data)]))))))"

definition create_group_chat :: "retrier \<Rightarrow> pserver \<Rightarrow> string list \<Rightarrow> ucs \<Rightarrow> json pio" where
  "create_group_chat retry srv addresses message = retry 3 (create_group_chat_once srv addresses message)"

definition update_chat :: "retrier \<Rightarrow> pserver \<Rightarrow> string \<Rightarrow> string option \<Rightarrow> json pio" where
  "update_chat retry srv chat display_name = retry 3
     (let guid = py_strip chat; name = (case display_name of None \<Rightarrow> [] | Some n \<Rightarrow> py_strip n) in
      if guid = [] then io_raise (PhotonError ''Missing chat GUID'')
      else if name = [] then io_raise (PhotonError ''No valid chat updates provided'')
      else io_bind (ask srv (PRename guid name)) (\<lambda>ans.
           io_bind (io_of (answer_data ''Photon update_chat failed: '' ans)) (\<lambda>data.
           io_return (JObj [(''chat_guid'', JStr guid), (''data'', data)]))))"

definition should_share_contact :: "pserver \<Rightarrow> string \<Rightarrow> bool pio" where
  "should_share_contact srv chat =
     (if chat = [] then io_raise (PhotonError ''Missing chat GUID for should_share_contact check'')
      else io_bind (ask srv (PShareStatus chat)) (\<lambda>ans. io_return (case ans of
             POk (Inr (Some (JObj d))) \<Rightarrow> (case map_of d ''data'' of Some (JObj d') \<Rightarrow> json_truthy (map_of d' ''data'') | v \<Rightarrow> json_truthy v)
           | _ \<Rightarrow> False)))"

definition add_participant :: "retrier \<Rightarrow> pserver \<Rightarrow> string \<Rightarrow> string \<Rightarrow> json pio" where
  "add_participant retry srv chat address = retry 3
     (if chat = [] then io_raise (PhotonError ''Missing chat_guid for add_participant'')
      else if address = [] then io_raise (PhotonError ''Missing address for add_participant'')
      else io_bind (io_of (checked_address ''Invalid phone number: '' ''Failed to normalize phone number'' address)) (\<lambda>normalized.
           io_bind (ask srv (PParticipant chat normalized)) (\<lambda>ans.
           io_bind (io_of (answer_data ''Photon add_participant failed: '' ans)) (\<lambda>data.
           io_return (JObj [(''chat_guid'', JStr chat), (''added_address'', JStr normalized), (''data'', data)])))))"

definition share_contact_card :: "pserver \<Rightarrow> string \<Rightarrow> json pio" where
  "share_contact_card srv chat =
     (if chat = [] then io_raise (PhotonError ''Missing chat GUID for share_contact_card'')
      else io_bind (ask srv (PShareContact chat)) (\<lambda>ans. case ans of
             POk (Inr body) \<Rightarrow> io_return (JObj [(''chat_guid'', JStr chat), (''data'', case body of None \<Rightarrow> JNull | Some b \<Rightarrow> b)])
           | PLost e \<Rightarrow> io_raise (PhotonError (''Photon share_contact_card failed: '' @ e))
           | PRefused code e \<Rightarrow> io_raise (PhotonError (''Photon share_contact_card failed: '' @ e))
           | POk (Inl e) \<Rightarrow> io_raise (PhotonError (''Photon share_contact_card failed: '' @ e))))"

section \<open>Repeated calls\<close>

text \<open>What the documentation of tenacity says of \<open>retry\<close>: a call that returns is not repeated, one that raises is
repeated while attempts are left, and then \<open>RetryError\<close> is raised.\<close>

locale retry_decorator =
  fixes retry :: retrier
  assumes success: "f w = (Inr x, w') \<Longrightarrow> 0 < n \<Longrightarrow> retry n f w = (Inr x, w')"
    and again: "f w = (Inl e, w') \<Longrightarrow> 1 < n \<Longrightarrow> retry n f w = retry (n - 1) f w'"
    and stop: "f w = (Inl e, w') \<Longrightarrow> retry 1 f w = (Inl (RetryError e), w')"
begin

lemma repeats:
  assumes "\<And>w. \<exists>c. snd (f w) = w @ [(r, c)]" "0 < n"
  shows "\<exists>cs. snd (retry n f w) = w @ map (Pair r) cs \<and> cs \<noteq> [] \<and> length cs \<le> n"
  using assms(2)
proof (induction n arbitrary: w)
  case (Suc n)
  obtain c where c: "snd (f w) = w @ [(r, c)]" using assms(1) by blast
  show ?case
  proof (cases "fst (f w)")
    case (Inr x)
    with c have "f w = (Inr x, w @ [(r, c)])" by (simp add: prod_eq_iff)
    then have "retry (Suc n) f w = (Inr x, w @ [(r, c)])" by (simp add: success)
    then show ?thesis by (intro exI [of _ "[c]"]) simp
  next
    case (Inl e)
    with c have f: "f w = (Inl e, w @ [(r, c)])" by (simp add: prod_eq_iff)
    show ?thesis
    proof (cases n)
      case 0
      with stop [where f = f, OF f] show ?thesis by (intro exI [of _ "[c]"]) simp
    next
      case (Suc m)
      then obtain cs where "snd (retry n f (w @ [(r, c)])) = (w @ [(r, c)]) @ map (Pair r) cs" "length cs \<le> n"
        using Suc.IH [of "w @ [(r, c)]"] by auto
      with again [where f = f and n = "Suc n", OF f] Suc show ?thesis by (intro exI [of _ "c # cs"]) simp
    qed
  qed
qed simp

lemma refused:
  assumes "\<And>w. \<exists>e. f w = (Inl e, w)" "0 < n"
  shows "\<exists>e. retry n f w = (Inl (RetryError e), w)"
  using assms(2)
proof (induction n)
  case (Suc n)
  obtain e where f: "f w = (Inl e, w)" using assms(1) by blast
  show ?case
  proof (cases n)
    case 0
    with stop [where f = f, OF f] show ?thesis by auto
  next
    case (Suc m)
    with again [where f = f and n = "Suc n", OF f] Suc.IH show ?thesis by auto
  qed
qed simp

lemma second_try:
  assumes "f w = (Inl e, w1)" "f w1 = (Inr x, w2)" "1 < n"
  shows "retry n f w = (Inr x, w2)"
  using again [where f = f, OF assms(1,3)] success [where f = f and n = "n - 1", OF assms(2)] assms(3) by simp

end

fun retry_attempts :: retrier where
  "retry_attempts 0 f w = f w"
| "retry_attempts (Suc n) f w = (case f w of
     (Inr x, w') \<Rightarrow> (Inr x, w')
   | (Inl e, w') \<Rightarrow> if n = 0 then (Inl (RetryError e), w') else retry_attempts n f w')"

interpretation attempts: retry_decorator retry_attempts
proof
  show "retry_attempts n f w = (Inr x, w')" if "f w = (Inr x, w')" "0 < n" for f w x w' n
    using that by (cases n) simp_all
  show "retry_attempts n f w = retry_attempts (n - 1) f w'" if "f w = (Inl e, w')" "1 < n" for f w e w' n
    using that by (cases n) simp_all
  show "retry_attempts 1 f w = (Inl (RetryError e), w')" if "f w = (Inl e, w')" for f w e w'
    using that by simp
qed

section \<open>Where a message goes\<close>

lemma checked_number:
  assumes "checked_address a b addr = Inr n" "CHR ''@'' \<notin> set addr"
  shows "e164_pattern n"
proof -
  have n: "is_valid_phone_number addr" "normalize_phone_number addr = Some n"
    using assms by (auto simp: checked_address_def split: if_splits option.splits)
  from n(2) show ?thesis
  proof (cases rule: normalize_shapes)
    case 2
    then have "\<not> e164_pattern (cleaned addr)" "\<not> us_pattern (cleaned addr)"
      by (cases "cleaned addr"; auto simp: digit_between_def)+
    with n(1) have "intl_pattern (cleaned addr)" by (auto simp: is_valid_phone_number_def split: if_splits)
    with 2 show ?thesis by simp
  qed
qed

lemma guid_of_number: "e164_pattern n \<Longrightarrow> build_chat_guid n False = ''iMessage;-;'' @ n"
  by (cases n) (auto simp: build_chat_guid_def)

lemma checked_guid:
  assumes "checked_address a b addr = Inr n"
  shows "build_chat_guid n (CHR ''@'' \<in> set addr) = ''iMessage;-;'' @ n
    \<and> (e164_pattern n \<or> is_valid_email addr \<and> n = lowered addr)"
proof (cases "CHR ''@'' \<in> set addr")
  case True
  with assms show ?thesis by (auto simp: checked_address_def build_chat_guid_def split: if_splits)
next
  case False
  with checked_number [OF assms False] guid_of_number show ?thesis by simp
qed

lemma io_of_simps [simp]: "io_of (Inl e) w = (Inl e, w)" "io_of (Inr x) w = (Inr x, w)"
  by (simp_all add: io_of_def)

lemma ask_log: "\<exists>ans c. ask srv r w = (Inr ans, w @ [(r, c)])"
  by (cases "srv w r") (auto simp: ask_def)

lemma snd_io_of [simp]: "snd (io_of r w) = w"
  by (cases r) simp_all

lemma snd_bind_pure: "(\<And>x w. snd (g x w) = w) \<Longrightarrow> snd (io_bind f g w) = snd (f w)"
  by (auto simp: io_bind_def split: prod.splits sum.splits)

lemma snd_bind_of: "(\<And>x. snd (g x w) = w) \<Longrightarrow> snd (io_bind (io_of r) g w) = w"
  by (cases r) (simp_all add: io_bind_def)

lemma send_message_once_log:
  assumes "to_number \<noteq> []" "content \<noteq> []"
    and "checked_address ''Invalid phone number: '' ''Failed to normalize phone number'' to_number = Inr n"
  shows "\<exists>c. snd (send_message_once srv to_number content chat effect subject rich w)
    = w @ [(PText (or_str chat (''iMessage;-;'' @ n)) content (or_null effect) (or_null subject) rich, c)]"
proof -
  let ?r = "PText (or_str chat (build_chat_guid n (CHR ''@'' \<in> set to_number))) content (or_null effect) (or_null subject) rich"
  obtain ans c where a: "ask srv ?r w = (Inr ans, w @ [(?r, c)])" using ask_log by blast
  have "send_message_once srv to_number content chat effect subject rich w
      = io_bind (ask srv ?r) (\<lambda>ans. io_bind (io_of (answer_data ''Photon send_message failed: '' ans)) (\<lambda>data.
          io_bind (io_of (json_get (json_or data (JObj [])) ''guid'')) (\<lambda>guid. io_return (JObj [(''messageId'', guid), (''data'', data)])))) w"
    unfolding send_message_once_def using assms(1,2) by (simp add: assms(3) io_bind_def)
  then have "snd (send_message_once srv to_number content chat effect subject rich w) = w @ [(?r, c)]"
    by (simp add: snd_bind_pure snd_bind_of a)
  then show ?thesis using checked_guid [OF assms(3)] by metis
qed

lemma send_message_once_refuses:
  assumes "to_number = [] \<or> content = [] \<or> (\<forall>n. checked_address ''Invalid phone number: '' ''Failed to normalize phone number'' to_number \<noteq> Inr n)"
  shows "\<exists>e. send_message_once srv to_number content chat effect subject rich w = (Inl e, w)"
  using assms
  by (cases "checked_address ''Invalid phone number: '' ''Failed to normalize phone number'' to_number")
    (auto simp: send_message_once_def io_bind_def)

context retry_decorator
begin

lemma send_log:
  assumes "to_number \<noteq> []" "content \<noteq> []"
    and "checked_address ''Invalid phone number: '' ''Failed to normalize phone number'' to_number = Inr n"
  shows "\<exists>cs. snd (send_message retry srv to_number content chat effect subject rich w)
    = w @ map (Pair (PText (or_str chat (''iMessage;-;'' @ n)) content (or_null effect) (or_null subject) rich)) cs \<and> cs \<noteq> [] \<and> length cs \<le> 3"
  unfolding send_message_def by (rule repeats [OF send_message_once_log [OF assms]]) simp

lemma send_refuses:
  assumes "to_number = [] \<or> content = [] \<or> (\<forall>n. checked_address ''Invalid phone number: '' ''Failed to normalize phone number'' to_number \<noteq> Inr n)"
  shows "\<exists>e. send_message retry srv to_number content chat effect subject rich w = (Inl (RetryError e), w)"
  unfolding send_message_def by (rule refused [OF send_message_once_refuses [OF assms]]) simp

end


definition example_server :: pserver where
  "example_server w r = (True, if w = [] then PLost ''ReadTimeout'' else POk (Inr None))"


text \<open>A lost answer is a second message, or a second group. If the server carries a request out but its answer
does not come back, the request is sent again: a message is delivered twice, a group is created
twice, and the call returns as if it had been done once.\<close>

theorem lost_answer_repeats_request:
  assumes retry: "retry_decorator retry"
    and lost: "\<And>r. srv w r = (True, PLost err)" and ok: "\<And>r. srv (w @ [(r, True)]) r = (True, POk (Inr None))"
    and content: "content \<noteq> []"
    and to_number: "to_number \<noteq> []" "checked_address ''Invalid phone number: '' ''Failed to normalize phone number'' to_number = Inr n"
    and group: "checked_addresses addresses = Inr ns" "1 < length addresses"
  shows "send_message retry srv to_number content None None None False w
      = (Inr (JObj [(''messageId'', JNull), (''data'', JNull)]),
         w @ replicate 2 (PText (''iMessage;-;'' @ n) content None None False, True))
    \<and> create_group_chat retry srv addresses content w
      = (Inr (JObj [(''chat_guid'', JNull), (''data'', JNull)]),
         w @ replicate 2 (PNewChat ns content ''iMessage'' ''private-api'', True))"
proof
  have first: "ask srv r w = (Inr (PLost err), w @ [(r, True)])" for r using lost by (simp add: ask_def)
  have second: "ask srv r (w @ [(r, True)]) = (Inr (POk (Inr None)), w @ replicate 2 (r, True))" for r
    using ok by (simp add: ask_def numeral_2_eq_2)
  let ?r = "PText (''iMessage;-;'' @ n) content None None False"
  let ?f = "send_message_once srv to_number content None None None False"
  have g: "build_chat_guid n (CHR ''@'' \<in> set to_number) = ''iMessage;-;'' @ n" using checked_guid [OF to_number(2)] by blast
  have "?f w = (Inl (OtherError err), w @ [(?r, True)])"
    using to_number(1) content first [of ?r] by (simp add: send_message_once_def to_number(2) io_bind_def or_null_def answer_data_def g)
  moreover have "?f (w @ [(?r, True)]) = (Inr (JObj [(''messageId'', JNull), (''data'', JNull)]), w @ replicate 2 (?r, True))"
    using to_number(1) content second [of ?r]
    by (simp add: send_message_once_def to_number(2) io_bind_def or_null_def answer_data_def data_of_def json_or_def json_get_def g)
  ultimately show "send_message retry srv to_number content None None None False w
      = (Inr (JObj [(''messageId'', JNull), (''data'', JNull)]), w @ replicate 2 (?r, True))"
    unfolding send_message_def by (rule retry_decorator.second_try [OF retry]) simp
  let ?g = "PNewChat ns content ''iMessage'' ''private-api''"
  have "create_group_chat_once srv addresses content w = (Inl (OtherError err), w @ [(?g, True)])"
    using group content first [of ?g] by (simp add: create_group_chat_once_def io_bind_def answer_data_def)
  moreover have "create_group_chat_once srv addresses content (w @ [(?g, True)])
      = (Inr (JObj [(''chat_guid'', JNull), (''data'', JNull)]), w @ replicate 2 (?g, True))"
    using group content second [of ?g]
    by (simp add: create_group_chat_once_def io_bind_def answer_data_def data_of_def guid_of_new_chat_def)
  ultimately show "create_group_chat retry srv addresses content w
      = (Inr (JObj [(''chat_guid'', JNull), (''data'', JNull)]), w @ replicate 2 (?g, True))"
    unfolding create_group_chat_def by (rule retry_decorator.second_try [OF retry]) simp
qed

lemma lost_answer_repeats_request_witness:
  "snd (send_message retry_attempts example_server ''+16463707933'' [104] None None None False [])
      = replicate 2 (PText ''iMessage;-;+16463707933'' [104] None None False, True)
   \<and> snd (create_group_chat retry_attempts example_server [''+16463707933'', ''a@b.co''] [104] [])
      = replicate 2 (PNewChat [''+16463707933'', ''a@b.co''] [104] ''iMessage'' ''private-api'', True)"
proof -
  have to_number: "checked_address ''Invalid phone number: '' ''Failed to normalize phone number'' ''+16463707933'' = Inr ''+16463707933''"
    and group: "checked_addresses [''+16463707933'', ''a@b.co''] = Inr [''+16463707933'', ''a@b.co'']" by code_simp+
  show ?thesis
    using lost_answer_repeats_request [OF attempts.retry_decorator_axioms _ _ _ _ to_number group, of example_server "[]" "''ReadTimeout''" "[104]"]
    by (simp add: example_server_def)
qed

section \<open>Pieces in order\<close>

text \<open>The texts that were posted, with their chats\<close>

definition texts :: "plog \<Rightarrow> (string \<times> ucs) list" where
  "texts w = List.map_filter (\<lambda>(r, carried). case r of PText g c e s l \<Rightarrow> Some (g, c) | _ \<Rightarrow> None) w"

lemma texts_simps [simp]:
  "texts [] = []" "texts (w @ v) = texts w @ texts v" "texts [(PTyping g b, c)] = []"
  "texts (map (Pair (PText g t e s l)) cs) = replicate (length cs) (g, t)"
  by (simp_all add: texts_def List.map_filter_def) (induction cs, simp_all)

lemma texts_typing: "texts (snd (send_typing_indicator srv cached to_number chat w)) = texts w"
proof -
  have "texts (snd (typing start srv cached to_number chat v)) = texts v" for start v
  proof -
    have "\<exists>ans c. ask srv r v = (Inr ans, v @ [(r, c)])" for r by (rule ask_log)
    then have "texts (snd (ask srv (PTyping g start) v)) = texts v" for g by (metis snd_conv texts_simps(2,3) append_Nil2)
    then show ?thesis by (simp add: typing_def Let_def snd_bind_pure)
  qed
  note t = this
  obtain v where v: "start_typing srv cached to_number chat w = (Inr (), v)"
    by (cases "start_typing srv cached to_number chat w" rule: prod.exhaust)
      (auto simp: start_typing_def typing_def Let_def io_bind_def ask_def split: prod.splits if_splits)
  with t [of True w] have "texts v = texts w" by (simp add: start_typing_def)
  with v t [of False v] show ?thesis by (simp add: send_typing_indicator_def stop_typing_def io_bind_def)
qed

context retry_decorator
begin

lemma send_texts:
  assumes "to_number \<noteq> []" "checked_address ''Invalid phone number: '' ''Failed to normalize phone number'' to_number = Inr n" "g \<noteq> []"
  shows "\<exists>k. k \<le> 3 \<and> (0 < k \<longleftrightarrow> content \<noteq> [])
    \<and> texts (snd (send_message retry srv to_number content (Some g) None None False w)) = texts w @ replicate k (g, content)"
proof (cases "content = []")
  case True
  then obtain e where "send_message retry srv to_number content (Some g) None None False w = (Inl (RetryError e), w)"
    using send_refuses by blast
  with True show ?thesis by (intro exI [of _ 0]) simp
next
  case False
  from send_log [OF assms(1) False assms(2), of srv "Some g" None None False w] assms(3)
  obtain cs where "snd (send_message retry srv to_number content (Some g) None None False w) = w @ map (Pair (PText g content (or_null None) (or_null None) False)) cs"
    "cs \<noteq> []" "length cs \<le> 3" by auto
  with False show ?thesis by (intro exI [of _ "length cs"]) simp
qed

lemma loop_texts:
  assumes "to_number \<noteq> []" "checked_address ''Invalid phone number: '' ''Failed to normalize phone number'' to_number = Inr n" "g \<noteq> []"
  shows "\<exists>rs ns. fst (chunks_loop retry srv cached to_number g show_typing i cs w) = Inr rs \<and> map fst rs = [i..<i + length cs]
    \<and> list_all2 (\<lambda>k c. k \<le> 3 \<and> (0 < k \<longleftrightarrow> c \<noteq> [])) ns cs
    \<and> texts (snd (chunks_loop retry srv cached to_number g show_typing i cs w)) = texts w @ concat (map2 (\<lambda>k c. replicate k (g, c)) ns cs)"
proof (induction cs arbitrary: i w)
  case Nil
  then show ?case by (intro exI [of _ "[]"]) simp
next
  case (Cons c cs)
  let ?w1 = "if show_typing then snd (send_typing_indicator srv cached to_number (Some g) w) else w"
  obtain res w2 where send: "send_message retry srv to_number c (Some g) None None False ?w1 = (res, w2)" by fastforce
  obtain k where k: "k \<le> 3" "0 < k \<longleftrightarrow> c \<noteq> []" "texts w2 = texts ?w1 @ replicate k (g, c)"
    using send_texts [OF assms, of c srv ?w1] send by auto
  obtain v w3 where pair: "chunks_loop retry srv cached to_number g show_typing (i + 1) cs w2 = (v, w3)" by fastforce
  from Cons.IH [of "i + 1" w2, unfolded pair fst_conv snd_conv] obtain rs ns
    where v: "v = Inr rs" and rs: "map fst rs = [i + 1..<i + 1 + length cs]"
      and ns: "list_all2 (\<lambda>k c. k \<le> 3 \<and> (0 < k \<longleftrightarrow> c \<noteq> [])) ns cs" "texts w3 = texts w2 @ concat (map2 (\<lambda>k c. replicate k (g, c)) ns cs)"
    by blast
  note loop = pair [unfolded v]
  have w1: "texts ?w1 = texts w" by (simp add: texts_typing)
  have "chunks_loop retry srv cached to_number g show_typing i (c # cs) w = (Inr ((i, res) # rs), w3)"
    using send loop by (simp add: Let_def)
  moreover have "map fst ((i, res) # rs) = [i..<i + length (c # cs)]"
    using rs by (simp add: upt_conv_Cons del: upt_Suc)
  moreover have "list_all2 (\<lambda>k c. k \<le> 3 \<and> (0 < k \<longleftrightarrow> c \<noteq> [])) (k # ns) (c # cs)" using k ns(1) by simp
  moreover have "texts w3 = texts w @ concat (map2 (\<lambda>k c. replicate k (g, c)) (k # ns) (c # cs))"
    unfolding ns(2) k(3) w1 by simp
  ultimately show ?case
    by (intro exI [of _ "(i, res) # rs"] exI [of _ "k # ns"] conjI) (simp_all only: fst_conv snd_conv)
qed

end

text \<open>The pieces of a message arrive in their order. For a valid recipient there is one result per piece,
and the texts posted are the pieces in order, all to the recipient's chat, each up to three times
(and at least once unless it is empty), whatever fails in between.\<close>

theorem pieces_in_order:
  assumes "retry_decorator retry" "to_number \<noteq> []" "checked_address ''Invalid phone number: '' ''Failed to normalize phone number'' to_number = Inr n"
  shows "\<exists>rs ns. fst (send_chunked_messages retry srv cached to_number chunks show_typing w) = Inr rs \<and> map fst rs = [0..<length chunks]
    \<and> list_all2 (\<lambda>k c. k \<le> 3 \<and> (0 < k \<longleftrightarrow> c \<noteq> [])) ns chunks
    \<and> texts (snd (send_chunked_messages retry srv cached to_number chunks show_typing w))
      = texts w @ concat (map2 (\<lambda>k c. replicate k (''iMessage;-;'' @ n, c)) ns chunks)"
proof (cases "chunks = []")
  case True
  then show ?thesis by (intro exI [of _ "[]"]) (simp add: send_chunked_messages_def)
next
  case False
  have n: "(if CHR ''@'' \<in> set to_number then Some (lowered to_number) else normalize_phone_number to_number) = Some n"
    "CHR ''@'' \<notin> set to_number \<longrightarrow> n \<noteq> []"
    using assms(3) by (auto simp: checked_address_def split: if_splits option.splits)
  have g: "build_chat_guid n (CHR ''@'' \<in> set to_number) = ''iMessage;-;'' @ n" using checked_guid [OF assms(3)] by blast
  have "send_chunked_messages retry srv cached to_number chunks show_typing w
      = chunks_loop retry srv cached to_number (''iMessage;-;'' @ n) show_typing 0 chunks w"
    unfolding send_chunked_messages_def n(1) using False n(2) g by auto
  then show ?thesis
    using retry_decorator.loop_texts [OF assms, of "''iMessage;-;'' @ n" srv cached show_typing 0 chunks w]
    by (simp only: add_0 append_is_Nil_conv list.distinct simp_thms)
qed

lemma pieces_in_order_witness:
  "\<exists>a b. 0 < a \<and> 0 < b \<and> texts (snd (send_chunked_messages retry_attempts example_server (\<lambda>_. None) ''+16463707933'' [[104], [105]] True []))
     = replicate a (''iMessage;-;+16463707933'', [104]) @ replicate b (''iMessage;-;+16463707933'', [105])"
proof -
  have to_number: "checked_address ''Invalid phone number: '' ''Failed to normalize phone number'' ''+16463707933'' = Inr ''+16463707933''" by code_simp
  from pieces_in_order [OF attempts.retry_decorator_axioms _ to_number, of example_server "\<lambda>_. None" "[[104], [105]]" True "[]"]
  obtain ns where "list_all2 (\<lambda>k c. k \<le> 3 \<and> (0 < k \<longleftrightarrow> c \<noteq> [])) ns [[104], [105 :: nat]]"
    "texts (snd (send_chunked_messages retry_attempts example_server (\<lambda>_. None) ''+16463707933'' [[104], [105]] True []))
      = concat (map2 (\<lambda>k c. replicate k (''iMessage;-;'' @ ''+16463707933'', c)) ns [[104], [105]])" by auto
  moreover then obtain a b where "ns = [a, b]" "0 < a" "0 < b" by (auto simp: list_all2_Cons2)
  ultimately show ?thesis by (intro exI [of _ a] exI [of _ b]) simp
qed

end
