(* ===== verification/Group_Provision.thy ===== *)
theory Group_Provision
  imports Group_Router Photon_Client
begin

text \<open>
  Creating group chats: the tables of app/database/client/group_chat.py and the service of
  app/groupchat/features/provisioning.py over the messaging client and the recorder. The texts of the
  language model are answers of the environment, and so is whether a call to the database succeeds.
\<close>

section \<open>Tables\<close>

record gc_row =
  gr_guid :: string
  gr_name :: "string option"
  gr_count :: int
  gr_request :: "string option"

record part_row =
  gp_chat :: string
  gp_user :: string
  gp_role :: string
  gp_mode :: string
  gp_request :: "string option"
  gp_joined :: int

record pworld =
  pw_log :: plog
  pw_chats :: "gc_row list"
  pw_parts :: "part_row list"
  pw_rec :: gworld

datatype pcall = PInsertChat | PUpsertPart string | PReadParts string | PReadChats | PCountParts | PSetCount | PDeletePart | PSetMode

text \<open>\<open>pe_text\<close> is \<open>str\<close> of an exception; the other fields are answers.\<close>

record penv =
  pe_retry :: retrier
  pe_srv :: pserver
  pe_sha :: "string \<Rightarrow> string"
  pe_rec :: genv
  pe_up :: "pcall \<Rightarrow> bool"
  pe_now :: int
  pe_text :: "perr \<Rightarrow> string"
  pe_welcome :: "string option"
  pe_multi_welcome :: "string option"
  pe_intro :: "perr + string"

definition create_group_chat_identity :: "bool \<Rightarrow> string \<Rightarrow> int \<Rightarrow> string option \<Rightarrow> string option \<Rightarrow> pworld \<Rightarrow> gc_row option \<times> pworld" where
  "create_group_chat_identity up guid member_count request display_name w =
     (let row = \<lparr>gr_guid = guid, gr_name = display_name, gr_count = member_count, gr_request = request\<rparr>
      in if up then (Some row, w\<lparr>pw_chats := pw_chats w @ [row]\<rparr>) else (None, w))"

text \<open>The upsert on (chat, user) replaces the row of a participant who is there already.\<close>

definition add_group_chat_participant :: "bool \<Rightarrow> int \<Rightarrow> string \<Rightarrow> string \<Rightarrow> string \<Rightarrow> string \<Rightarrow> string option \<Rightarrow> pworld \<Rightarrow> part_row option \<times> pworld" where
  "add_group_chat_participant up now guid uid role mode request w =
     (let row = \<lparr>gp_chat = guid, gp_user = uid, gp_role = role, gp_mode = mode, gp_request = request, gp_joined = now\<rparr>;
          same = (\<lambda>r. gp_chat r = guid \<and> gp_user r = uid)
      in if \<not> up then (None, w)
         else if list_ex same (pw_parts w)
         then (Some row, w\<lparr>pw_parts := map (\<lambda>r. if same r then row else r) (pw_parts w)\<rparr>)
         else (Some row, w\<lparr>pw_parts := pw_parts w @ [row]\<rparr>))"

definition create_group_chat_record :: "(pcall \<Rightarrow> bool) \<Rightarrow> int \<Rightarrow> string \<Rightarrow> string \<Rightarrow> string \<Rightarrow> string option \<Rightarrow> string option \<Rightarrow> pworld \<Rightarrow> gc_row option \<times> pworld" where
  "create_group_chat_record up now guid user_a user_b request display_name w =
     (case create_group_chat_identity (up PInsertChat) guid 2 request display_name w of
        (None, w1) \<Rightarrow> (None, w1)
      | (Some row, w1) \<Rightarrow>
          (Some row, foldl (\<lambda>w uid. snd (add_group_chat_participant (up (PUpsertPart uid)) now guid uid ''member'' ''active'' request w))
                       w1 [user_a, user_b]))"

definition get_group_chat_by_guid :: "bool \<Rightarrow> string \<Rightarrow> pworld \<Rightarrow> gc_row option" where
  "get_group_chat_by_guid up guid w = (if up then find (\<lambda>r. gr_guid r = guid) (pw_chats w) else None)"

definition update_group_chat_member_count :: "(pcall \<Rightarrow> bool) \<Rightarrow> string \<Rightarrow> pworld \<Rightarrow> pworld" where
  "update_group_chat_member_count up guid w =
     (if up PCountParts \<and> up PSetCount
      then w\<lparr>pw_chats := map (\<lambda>r. if gr_guid r = guid then r\<lparr>gr_count := int (length (filter (\<lambda>p. gp_chat p = guid) (pw_parts w)))\<rparr> else r) (pw_chats w)\<rparr>
      else w)"

definition remove_group_chat_participant :: "(pcall \<Rightarrow> bool) \<Rightarrow> string \<Rightarrow> string \<Rightarrow> pworld \<Rightarrow> bool \<times> pworld" where
  "remove_group_chat_participant up guid uid w =
     (let same = (\<lambda>r. gp_chat r = guid \<and> gp_user r = uid) in
      if up PDeletePart \<and> list_ex same (pw_parts w)
      then (True, update_group_chat_member_count up guid (w\<lparr>pw_parts := filter (\<lambda>r. \<not> same r) (pw_parts w)\<rparr>))
      else (False, w))"

definition get_group_chat_participants :: "bool \<Rightarrow> string \<Rightarrow> pworld \<Rightarrow> part_row list" where
  "get_group_chat_participants up guid w = (if up then sort_key gp_joined (filter (\<lambda>r. gp_chat r = guid) (pw_parts w)) else [])"

definition chats_of_user :: "string \<Rightarrow> pworld \<Rightarrow> string list" where
  "chats_of_user uid w = map gp_chat (filter (\<lambda>r. gp_user r = uid) (pw_parts w))"

definition get_user_group_chats :: "(pcall \<Rightarrow> bool) \<Rightarrow> string \<Rightarrow> pworld \<Rightarrow> gc_row list" where
  "get_user_group_chats up uid w =
     (if up (PReadParts uid) \<and> up PReadChats then filter (\<lambda>r. gr_guid r \<in> set (chats_of_user uid w)) (pw_chats w) else [])"

text \<open>The first element of a set is any: \<open>pick\<close> chooses it.\<close>

definition get_group_chat_for_users :: "(string list \<Rightarrow> string) \<Rightarrow> (pcall \<Rightarrow> bool) \<Rightarrow> string \<Rightarrow> string \<Rightarrow> pworld \<Rightarrow> gc_row option" where
  "get_group_chat_for_users pick up user_a user_b w =
     (let shared = remdups (filter (\<lambda>g. g \<in> set (chats_of_user user_b w)) (chats_of_user user_a w)) in
      if \<not> up (PReadParts user_a) \<or> \<not> up (PReadParts user_b) \<or> shared = [] then None
      else get_group_chat_by_guid (up PReadChats) (pick shared) w)"

definition update_participant_mode :: "bool \<Rightarrow> string \<Rightarrow> string \<Rightarrow> string \<Rightarrow> pworld \<Rightarrow> part_row option \<times> pworld" where
  "update_participant_mode up guid uid mode w =
     (let same = (\<lambda>r. gp_chat r = guid \<and> gp_user r = uid);
          parts = map (\<lambda>r. if same r then r\<lparr>gp_mode := mode\<rparr> else r) (pw_parts w)
      in if \<not> up then (None, w) else (find same parts, w\<lparr>pw_parts := parts\<rparr>))"

section \<open>Names\<close>

text \<open>\<open>re.sub("^p\s+", "", s)\<close> for the first of the texts \<open>p\<close> that matches, without regard to case\<close>

definition drop_leading :: "string list \<Rightarrow> string \<Rightarrow> string" where
  "drop_leading alternatives s =
     (case find (\<lambda>p. starts_with p (py_lower s) \<and> length p < length s \<and> py_space (s ! length p)) alternatives of
        None \<Rightarrow> s | Some p \<Rightarrow> lstrip_by py_space (drop (length p) s))"

definition leading_patterns :: "string list list" where
  "leading_patterns =
     [[''user wants to''], [''user is looking to''], [''wants to''], [''want to''], [''looking to''], [''looking for''], [''please''], [''can you''],
      [''find me'', ''find''],
      [''connect me with'', ''connect me to'', ''connect me'', ''connect with'', ''connect to'', ''connect''],
      [''help me network with'', ''help me network''], [''meet with'', ''meet'']]"

text \<open>\<open>^\b(...)\b\s*\<close>\<close>

definition drop_person :: "string \<Rightarrow> string" where
  "drop_person s =
     (case find (\<lambda>p. starts_with p (py_lower s) \<and> (length p = length s \<or> \<not> is_word_char (s ! length p))) [''someone'', ''people'', ''a person''] of
        None \<Rightarrow> s | Some p \<Rightarrow> lstrip_by py_space (drop (length p) s))"

definition name_char :: "char \<Rightarrow> bool" where
  "name_char c \<longleftrightarrow> is_letter c \<or> is_digit c \<or> c = CHR ''&'' \<or> c = CHR ''-''"

definition generic_tokens :: "string list" where
  "generic_tokens = [''find'', ''someone'', ''people'', ''person'', ''connect'', ''connection'', ''connections'', ''network'', ''networking'',
     ''help'', ''meet'', ''with'', ''for'', ''to'', ''me'', ''a'', ''the'', ''new'']"

definition acronym_map :: "(string \<times> string) list" where
  "acronym_map = [(''ai'', ''AI''), (''ml'', ''ML''), (''pm'', ''PM''), (''vc'', ''VC''), (''hft'', ''HFT''), (''ui'', ''UI''), (''ux'', ''UX''),
     (''cs'', ''CS''), (''cis'', ''CIS'')]"

definition upper_ascii :: "char \<Rightarrow> char" where
  "upper_ascii c = (let n = (of_char c :: nat) in if 97 \<le> n \<and> n \<le> 122 then char_of (n - 32) else c)"

definition is_upper_token :: "string \<Rightarrow> bool" where
  "is_upper_token t \<longleftrightarrow> list_ex is_letter t \<and> list_all (\<lambda>c. upper_ascii c = c) t"

definition title_token :: "string \<Rightarrow> string" where
  "title_token token =
     (let lower = py_lower token in case map_of acronym_map lower of
        Some a \<Rightarrow> a
      | None \<Rightarrow> if is_upper_token token \<and> length token \<le> 5 then token
               else (case lower of [] \<Rightarrow> [] | c # cs \<Rightarrow> upper_ascii c # cs))"

definition name_strip :: "char \<Rightarrow> bool" where
  "name_strip c \<longleftrightarrow> c \<in> set ('' .,:;!?'' @ [CHR 0x27, CHR 0x22])"

definition cleaned_purpose :: "string \<Rightarrow> string" where
  "cleaned_purpose purpose =
     (let raw = sub_runs py_space CHR '' '' (py_strip purpose);
          cleaned = drop_leading [''for'', ''with'', ''to''] (drop_person (foldl (\<lambda>s alts. drop_leading alts s) raw leading_patterns))
      in strip_by name_strip (sub_runs py_space CHR '' '' cleaned))"

definition normalize_group_name_from_purpose :: "string \<Rightarrow> string option" where
  "normalize_group_name_from_purpose purpose =
     (let cleaned = cleaned_purpose purpose;
          words = words_by (\<lambda>c. \<not> name_char c) (py_lower cleaned) in
      if cleaned = [] \<or> words = [] \<or> list_all (\<lambda>t. t \<in> set generic_tokens) words then None
      else let title = py_strip (join_str '' '' (map title_token (words_by (\<lambda>c. \<not> name_char c) cleaned))) in
        if title = [] then None
        else Some (if 30 < length title then rstrip_by py_space (take 27 title) @ ''...'' else title))"

definition first_token :: "string \<Rightarrow> string" where
  "first_token name = (case words_by py_space name of [] \<Rightarrow> [] | t # _ \<Rightarrow> t)"

definition build_group_display_name :: "string \<Rightarrow> string \<Rightarrow> string option" where
  "build_group_display_name name_a name_b =
     (let a = first_token name_a; b = first_token name_b; a_full = py_strip name_a; b_full = py_strip name_b in
      if a \<noteq> [] \<and> b \<noteq> [] then
        (if py_lower a = py_lower b \<and> a_full \<noteq> [] \<and> b_full \<noteq> [] \<and> py_lower a_full \<noteq> py_lower b_full
         then Some (a_full @ '' & '' @ b_full) else Some (a @ '' & '' @ b))
      else if a \<noteq> [] then Some a else if b \<noteq> [] then Some b else None)"

definition build_multi_person_display_name :: "string list \<Rightarrow> string option \<Rightarrow> string option" where
  "build_multi_person_display_name names purpose =
     (case (if truthy_str purpose then normalize_group_name_from_purpose (the purpose) else None) of
        Some n \<Rightarrow> Some n
      | None \<Rightarrow> (case filter (\<lambda>t. t \<noteq> []) (map first_token names) of
            [] \<Rightarrow> None
          | [a] \<Rightarrow> Some a
          | firsts \<Rightarrow> Some (join_str '', '' (butlast firsts) @ '' & '' @ last firsts)))"

section \<open>Welcome\<close>

text \<open>\<open>name.split()[0] if name else d\<close>\<close>

definition first_or :: "string \<Rightarrow> string \<Rightarrow> perr + string" where
  "first_or d name = (if name = [] then Inr d else (case words_by py_space name of [] \<Rightarrow> Inl (OtherError ''IndexError'') | t # _ \<Rightarrow> Inr t))"

definition get_welcome_prompt :: "string \<Rightarrow> string \<Rightarrow> string option \<Rightarrow> string list \<Rightarrow> perr + string" where
  "get_welcome_prompt name_a name_b university reasons =
     (case (first_or ''friend'' name_a, first_or ''friend'' name_b) of
        (Inr a, Inr b) \<Rightarrow>
          (let is_distance = (\<lambda>r. contains_str ''miles away'' (py_lower r));
               distance_str = (case rev (filter is_distance reasons) of [] \<Rightarrow> [] | r # _ \<Rightarrow> '' ('' @ r @ '')'');
               context_parts = (if truthy_str university then [''you're both from '' @ the university] else [])
                                 @ take 2 (filter (\<lambda>r. \<not> is_distance r) reasons)
           in Inr (''hey '' @ a @ '' and '' @ b @ ''! excited to introduce you two.''
                   @ (if context_parts = [] then [] else '' '' @ join_str '' '' context_parts)
                   @ distance_str @ ''. introduce yourselves and nerd out''))
      | (Inl e, _) \<Rightarrow> Inl e | (_, Inl e) \<Rightarrow> Inl e)"

definition multi_fallback :: "string list \<Rightarrow> perr + string" where
  "multi_fallback names =
     (if names = [] then Inl (OtherError ''IndexError'')
      else Inr (''hey everyone! connected you all because you have similar interests. ''
        @ (if 1 < length names then join_str '', '' (butlast names) @ '' and '' @ last names else hd names)
        @ '', thought you'd benefit from knowing each other''))"

section \<open>The service\<close>

text \<open>\<open>GroupError\<close> is \<open>GroupChatServiceError\<close>.\<close>

datatype gperr = GroupError string | Unguarded perr

type_synonym 'a gpio = "(pworld, gperr, 'a) io"

definition on_photon :: "'a pio \<Rightarrow> (pworld, perr, 'a) io" where
  "on_photon m w = (case m (pw_log w) of (r, l) \<Rightarrow> (r, w\<lparr>pw_log := l\<rparr>))"

text \<open>What the two \<open>except\<close> clauses make of an exception\<close>

definition service_error :: "penv \<Rightarrow> string \<Rightarrow> perr \<Rightarrow> gperr" where
  "service_error e what err = (case err of
     PhotonError t \<Rightarrow> GroupError (what @ pe_text e err) | _ \<Rightarrow> GroupError (''Unexpected error: '' @ pe_text e err))"

definition guarded :: "penv \<Rightarrow> string \<Rightarrow> (pworld, perr, 'a) io \<Rightarrow> 'a gpio" where
  "guarded e what m = io_lift (service_error e what) m"

text \<open>The GUID of the new chat: a text that is not empty, or the error\<close>

definition guid_of_result :: "json \<Rightarrow> perr + string" where
  "guid_of_result result =
     (case result of
        JObj d \<Rightarrow> (case map_of d ''chat_guid'' of
            Some (JStr guid) \<Rightarrow> if guid = [] then Inl (OtherError ''Photon did not return a chat GUID'') else Inr guid
          | _ \<Rightarrow> Inl (OtherError ''Photon did not return a chat GUID''))
      | _ \<Rightarrow> Inl (OtherError ''Photon did not return a chat GUID''))"

definition new_chat :: "penv \<Rightarrow> string list \<Rightarrow> string \<Rightarrow> (pworld, perr, string) io" where
  "new_chat e addresses message =
     io_bind (on_photon (create_group_chat (pe_retry e) (pe_srv e) addresses (utext message))) (\<lambda>result. \<lambda>w. (guid_of_result result, w))"

definition rename_chat :: "penv \<Rightarrow> string \<Rightarrow> string option \<Rightarrow> pworld \<Rightarrow> pworld" where
  "rename_chat e guid name w = (if truthy_str name then snd (on_photon (update_chat (pe_retry e) (pe_srv e) guid name) w) else w)"

definition record_intro :: "penv \<Rightarrow> string \<Rightarrow> string \<Rightarrow> string \<Rightarrow> pworld \<Rightarrow> pworld" where
  "record_intro e guid message typ w =
     w\<lparr>pw_rec := snd (record_outbound (pe_sha e) (pe_rec e) guid message None (Some typ) (pw_rec w))\<rparr>"

definition create_group :: "penv \<Rightarrow> string \<Rightarrow> string \<Rightarrow> string \<Rightarrow> string \<Rightarrow> string option \<Rightarrow> string option \<Rightarrow> string option \<Rightarrow> string option \<Rightarrow> string list \<Rightarrow> (string \<times> string \<times> gc_row option) gpio" where
  "create_group e phone_a phone_b name_a name_b request user_a user_b university reasons =
     (case (if truthy_str (pe_welcome e) then Inr (the (pe_welcome e)) else get_welcome_prompt name_a name_b university reasons) of
        Inl err \<Rightarrow> io_raise (Unguarded err)
      | Inr welcome \<Rightarrow>
          guarded e ''Failed to create group chat: ''
            (io_bind (new_chat e [phone_a, phone_b] welcome) (\<lambda>guid. \<lambda>w.
               let name = build_group_display_name name_a name_b;
                   w1 = rename_chat e guid name w;
                   (row, w2) = (if truthy_str user_a \<and> truthy_str user_b
                      then create_group_chat_record (pe_up e) (pe_now e) guid (the user_a) (the user_b) request name w1 else (None, w1))
               in (Inr (guid, welcome, row), record_intro e guid welcome ''warm_intro'' w2))))"

record member =
  mb_user :: string
  mb_phone :: "string option"
  mb_name :: "string option"
  mb_initiator :: bool
  mb_request :: "string option"

definition truthy_values :: "string option list \<Rightarrow> string list" where
  "truthy_values xs = map the (filter truthy_str xs)"

definition add_member :: "penv \<Rightarrow> string \<Rightarrow> pworld \<Rightarrow> member \<Rightarrow> pworld" where
  "add_member e guid w p = snd (add_group_chat_participant (pe_up e (PUpsertPart (mb_user p))) (pe_now e) guid (mb_user p)
     (if mb_initiator p then ''initiator'' else ''member'') ''active'' (mb_request p) w)"

definition provision_multi_person_group :: "penv \<Rightarrow> member list \<Rightarrow> string option \<Rightarrow> (string \<times> string) gpio" where
  "provision_multi_person_group e participants purpose =
     (let phones = truthy_values (map mb_phone participants); names = truthy_values (map mb_name participants) in
      if length participants < 2 then io_raise (GroupError ''Need at least 2 participants for group chat'')
      else if length phones < 2 then io_raise (GroupError ''Not enough valid phone numbers'')
      else (case (if truthy_str (pe_multi_welcome e) then Inr (the (pe_multi_welcome e)) else multi_fallback names) of
          Inl err \<Rightarrow> io_raise (Unguarded err)
        | Inr welcome \<Rightarrow>
            guarded e ''Failed to create multi-person group chat: ''
              (io_bind (new_chat e phones welcome) (\<lambda>guid. \<lambda>w.
                 let name = build_multi_person_display_name names purpose;
                     w1 = rename_chat e guid name w;
                     request = Option.bind (find mb_initiator participants) mb_request;
                     w2 = snd (create_group_chat_identity (pe_up e PInsertChat) guid (int (length participants)) request name w1);
                     w3 = foldl (add_member e guid) w2 participants
                 in (Inr (guid, welcome), record_intro e guid welcome ''multi_person_intro'' w3)))))"

text \<open>The id of a sent message: the first of four keys that has a value\<close>

definition sent_id :: "json \<Rightarrow> string option" where
  "sent_id result =
     (case result of JObj d \<Rightarrow> (case map_of d ''data'' of
          Some (JObj data) \<Rightarrow>
            (let values = map (map_of data) [''guid'', ''messageGuid'', ''message_id'', ''id'']
             in (case filter json_truthy values of Some (JStr s) # _ \<Rightarrow> Some s | Some (JInt n) # _ \<Rightarrow> Some (str_int n) | _ \<Rightarrow> None))
        | _ \<Rightarrow> None) | _ \<Rightarrow> None)"

definition group_send :: "penv \<Rightarrow> string \<Rightarrow> string \<Rightarrow> string \<Rightarrow> (pworld, perr, unit) io" where
  "group_send e guid content typ =
     io_bind (on_photon (send_message_to_chat (pe_retry e) (pe_srv e) guid (utext content) None None)) (\<lambda>result. \<lambda>w.
       (Inr (), w\<lparr>pw_rec := snd (record_outbound (pe_sha e) (pe_rec e) guid content (sent_id result) (Some typ) (pw_rec w))\<rparr>))"

definition add_participant_to_group :: "penv \<Rightarrow> string \<Rightarrow> string \<Rightarrow> string \<Rightarrow> string option \<Rightarrow> unit gpio" where
  "add_participant_to_group e guid uid phone request =
     guarded e ''Failed to add participant: ''
       (io_bind (on_photon (add_participant (pe_retry e) (pe_srv e) guid phone)) (\<lambda>_.
        io_bind (case pe_intro e of Inl err \<Rightarrow> io_raise err | Inr t \<Rightarrow> io_return t) (\<lambda>announcement.
        io_bind (group_send e guid announcement ''late_joiner_announcement'') (\<lambda>_. \<lambda>w.
          if list_ex (\<lambda>r. gp_user r = uid) (get_group_chat_participants (pe_up e (PReadParts uid)) guid w) then (Inr (), w)
          else let w1 = snd (add_group_chat_participant (pe_up e (PUpsertPart uid)) (pe_now e) guid uid ''member'' ''active'' request w)
               in (Inr (), update_group_chat_member_count (pe_up e) guid w1)))))"

section \<open>Names fit\<close>

lemma words_by_parts: "t \<in> set (words_by p s) \<Longrightarrow> t \<noteq> [] \<and> (\<forall>c \<in> set t. \<not> p c)"
proof (induction p s rule: words_by.induct)
  case (1 p s)
  let ?t = "dropWhile p s"
  from 1(2) have t: "?t \<noteq> []" "t = takeWhile (\<lambda>c. \<not> p c) ?t \<or> t \<in> set (words_by p (dropWhile (\<lambda>c. \<not> p c) ?t))"
    by (subst (asm) words_by.simps; simp add: Let_def split: if_splits)+
  moreover have "\<not> p (hd ?t)" using t(1) by (rule hd_dropWhile)
  ultimately have "takeWhile (\<lambda>c. \<not> p c) ?t \<noteq> []" by (cases ?t) auto
  moreover have "\<forall>c \<in> set (takeWhile (\<lambda>c. \<not> p c) ?t). \<not> p c" by (auto dest: set_takeWhileD)
  moreover have "t \<noteq> [] \<and> (\<forall>c \<in> set t. \<not> p c)" if "t \<in> set (words_by p (dropWhile (\<lambda>c. \<not> p c) ?t))"
    by (rule 1(1) [OF refl t(1) that])
  ultimately show ?case using t(2) by metis
qed

lemma name_char_nat: "name_char c \<longleftrightarrow> (let n = (of_char c :: nat) in n \<in> {48..57} \<or> n \<in> {65..90} \<or> n \<in> {97..122} \<or> n = 38 \<or> n = 45)"
proof -
  have "c = CHR ''&'' \<longleftrightarrow> (of_char c :: nat) = of_char (CHR ''&'')" "c = CHR ''-'' \<longleftrightarrow> (of_char c :: nat) = of_char (CHR ''-'')"
    by (simp_all only: of_char_eq_iff)
  then show ?thesis by (auto simp: name_char_def is_letter_def is_digit_def Let_def)
qed

lemma title_chars: "list_all name_char t \<Longrightarrow> list_all name_char (title_token t)"
proof -
  have lower: "name_char c \<Longrightarrow> name_char (lower_char c)" and upper: "name_char c \<Longrightarrow> name_char (upper_ascii c)" for c
    by (auto simp: lower_char_def upper_ascii_def Let_def name_char_nat take_bit_eq_mod)
  assume t: "list_all name_char t"
  have "list_all name_char a" if "map_of acronym_map l = Some a" for a l
  proof -
    have "\<forall>a \<in> set (map snd acronym_map). list_all name_char a" unfolding acronym_map_def by code_simp
    with map_of_SomeD [OF that] show ?thesis by force
  qed
  moreover have "list_all name_char (py_lower t)" using t lower by (auto simp: py_lower_def list_all_iff)
  ultimately show ?thesis using t upper by (auto simp: title_token_def Let_def split: option.splits list.splits)
qed

lemma set_join_str: "set (join_str sep xs) \<subseteq> set sep \<union> \<Union> (set (map set xs))"
  by (induction sep xs rule: join_str.induct) auto

lemma set_rstrip: "set (rstrip_by p s) \<subseteq> set s"
  by (auto simp: rstrip_by_def dest: set_dropWhileD)

lemma set_strip: "set (strip_by p s) \<subseteq> set s"
  unfolding strip_by_def using set_rstrip [of p "lstrip_by p s"] by (auto simp: lstrip_by_def dest: set_dropWhileD)

text \<open>The name of a group fits: whatever the purpose says, a name made from it has at least one and at most 30
characters, and these are letters, digits, ampersands, hyphens, spaces and full stops.\<close>

theorem group_name_fits:
  assumes "normalize_group_name_from_purpose purpose = Some name"
  shows "name \<noteq> [] \<and> length name \<le> 30 \<and> list_all (\<lambda>c. name_char c \<or> c = CHR '' '' \<or> c = CHR ''.'') name"
proof -
  define tokens where "tokens = words_by (\<lambda>c. \<not> name_char c) (cleaned_purpose purpose)"
  define title where "title = py_strip (join_str '' '' (map title_token tokens))"
  have name: "title \<noteq> []" "name = (if 30 < length title then rstrip_by py_space (take 27 title) @ ''...'' else title)"
    using assms by (auto simp: normalize_group_name_from_purpose_def Let_def title_def tokens_def split: if_splits)
  have tok: "list_all name_char (title_token t)" if "t \<in> set tokens" for t
    using words_by_parts [of t] that by (intro title_chars) (auto simp: tokens_def list_all_iff)
  have sub: "set title \<subseteq> {CHR '' ''} \<union> (\<Union>t \<in> set tokens. set (title_token t))"
  proof -
    have "set title \<subseteq> set (join_str '' '' (map title_token tokens))" unfolding title_def py_strip_def by (rule set_strip)
    also have "\<dots> \<subseteq> set '' '' \<union> \<Union> (set (map set (map title_token tokens)))" by (rule set_join_str)
    finally show ?thesis by simp
  qed
  have chars: "name_char c \<or> c = CHR '' ''" if "c \<in> set title" for c
    using that sub tok unfolding list_all_iff by blast
  have "set (rstrip_by py_space (take 27 title)) \<subseteq> set title"
    using set_rstrip [of py_space "take 27 title"] set_take_subset [of 27 title] by (rule order_trans)
  then have "c \<in> set title" if "c \<in> set (rstrip_by py_space (take 27 title))" for c using that by blast
  with chars name length_rstrip_by [of py_space "take 27 title"] show ?thesis by (auto simp: list_all_iff split: if_splits)
qed

lemma group_name_example: "normalize_group_name_from_purpose ''user wants to find people for an AI study group near campus'' = Some ''An AI Study Group Near Campus''"
proof -
  note eval = words_by.simps Let_def
  have c: "cleaned_purpose ''user wants to find people for an AI study group near campus'' = ''an AI study group near campus''"
    by code_simp
  show ?thesis unfolding normalize_group_name_from_purpose_def c by code_simp
qed

lemma group_name_fits_witness: "length ''An AI Study Group Near Campus'' \<le> 30"
  using group_name_fits [OF group_name_example] by blast

section \<open>Errors\<close>

context retry_decorator
begin

lemma raises_retry_error: "0 < n \<Longrightarrow> fst (retry n f w) = Inl err \<Longrightarrow> \<exists>x. err = RetryError x"
proof (induction n arbitrary: w)
  case (Suc n)
  obtain res w' where f: "f w = (res, w')" by fastforce
  show ?case
  proof (cases res)
    case (Inr x)
    with f Suc.prems success [of f w x w' "Suc n"] show ?thesis by simp
  next
    case (Inl e)
    show ?thesis
    proof (cases n)
      case 0
      with f Inl Suc.prems stop [of f w e w'] show ?thesis by (intro exI [of _ e]) simp
    next
      case (Suc m)
      with f Inl Suc.prems again [of f w e w' "Suc n"] have "fst (retry n f w') = Inl err" by simp
      with Suc.IH Suc show ?thesis by simp
    qed
  qed
qed simp

end

lemma bind_Inl: "fst (io_bind m g w) = Inl err \<Longrightarrow> fst (m w) = Inl err \<or> (\<exists>x. fst (m w) = Inr x \<and> fst (g x (snd (m w))) = Inl err)"
  by (auto simp: io_bind_def split: prod.splits sum.splits)

lemma fst_on_photon: "fst (on_photon m w) = fst (m (pw_log w))"
  by (simp add: on_photon_def split: prod.splits)

lemma guarded_Inl: "fst (guarded e what m w) = Inl err \<Longrightarrow> \<exists>x. fst (m w) = Inl x \<and> err = service_error e what x"
  by (auto simp: guarded_def io_lift_def io_catch_def split: prod.splits sum.splits)

lemma new_chat_raises:
  assumes "retry_decorator (pe_retry e)" "fst (new_chat e addresses message w) = Inl err"
  shows "(\<exists>x. err = RetryError x) \<or> err = OtherError ''Photon did not return a chat GUID''"
proof -
  have "guid_of_result r = Inl err \<Longrightarrow> err = OtherError ''Photon did not return a chat GUID''" for r
    by (auto simp: guid_of_result_def split: json.splits option.splits if_splits)
  with bind_Inl [OF assms(2) [unfolded new_chat_def]]
  have "fst (create_group_chat (pe_retry e) (pe_srv e) addresses (utext message) (pw_log w)) = Inl err
    \<or> err = OtherError ''Photon did not return a chat GUID''"
    by (auto simp: fst_on_photon)
  then show ?thesis
    using retry_decorator.raises_retry_error [OF assms(1), of 3] unfolding create_group_chat_def by fastforce
qed

text \<open>Photon's errors are never reported as such. The clause for \<open>PhotonClientError\<close> cannot be reached, since the
decorated calls raise \<open>RetryError\<close>: creating a group either fails before anything is sent, or with an
unexpected error, whatever Photon answered.\<close>

theorem photon_errors_are_unexpected:
  assumes "retry_decorator (pe_retry e)"
    and "fst (create_group e phone_a phone_b name_a name_b request user_a user_b university reasons w) = Inl err"
  shows "err = Unguarded (OtherError ''IndexError'') \<or> (\<exists>t. err = GroupError (''Unexpected error: '' @ t))"
proof (cases "if truthy_str (pe_welcome e) then Inr (the (pe_welcome e)) else get_welcome_prompt name_a name_b university reasons")
  case (Inl x)
  then have "x = OtherError ''IndexError''"
    by (auto simp: get_welcome_prompt_def first_or_def Let_def split: if_splits sum.splits list.splits)
  with Inl assms(2) show ?thesis by (simp add: create_group_def)
next
  case (Inr msg)
  obtain x where x: "fst (new_chat e [phone_a, phone_b] msg w) = Inl x" "err = service_error e ''Failed to create group chat: '' x"
    using guarded_Inl [OF assms(2) [unfolded create_group_def Inr sum.case]] by (auto dest!: bind_Inl simp: Let_def split: prod.splits)
  from new_chat_raises [OF assms(1) x(1)] have "err = GroupError (''Unexpected error: '' @ pe_text e x)"
    unfolding x(2) service_error_def by (elim disjE exE) simp_all
  then show ?thesis by blast
qed

section \<open>What is stored\<close>

lemma photon_tables [simp]: "pw_chats (snd (on_photon m w)) = pw_chats w" "pw_parts (snd (on_photon m w)) = pw_parts w"
  by (simp_all add: on_photon_def split: prod.splits)

lemma rename_tables [simp]: "pw_chats (rename_chat e g n w) = pw_chats w" "pw_parts (rename_chat e g n w) = pw_parts w"
  by (simp_all add: rename_chat_def)

lemma intro_tables [simp]: "pw_chats (record_intro e g m t w) = pw_chats w" "pw_parts (record_intro e g m t w) = pw_parts w"
  by (simp_all add: record_intro_def)

lemma new_chat_tables [simp]: "pw_chats (snd (new_chat e addresses message w)) = pw_chats w" "pw_parts (snd (new_chat e addresses message w)) = pw_parts w"
  by (simp_all add: new_chat_def io_bind_def on_photon_def split: prod.splits sum.splits)

text \<open>No user is twice in a chat.\<close>

definition parts_ok :: "pworld \<Rightarrow> bool" where
  "parts_ok w \<longleftrightarrow> distinct (map (\<lambda>r. (gp_chat r, gp_user r)) (pw_parts w))"

lemma parts_ok_cong: "pw_parts w' = pw_parts w \<Longrightarrow> parts_ok w' = parts_ok w"
  by (simp add: parts_ok_def)

lemma add_ok: "parts_ok w \<Longrightarrow> parts_ok (snd (add_group_chat_participant up now g uid role mode request w))"
proof -
  assume ok: "parts_ok w"
  let ?row = "\<lparr>gp_chat = g, gp_user = uid, gp_role = role, gp_mode = mode, gp_request = request, gp_joined = now\<rparr>"
  have m: "map (\<lambda>r. (gp_chat r, gp_user r)) (map (\<lambda>r. if gp_chat r = g \<and> gp_user r = uid then ?row else r) rs) = map (\<lambda>r. (gp_chat r, gp_user r)) rs" for rs
    by (induction rs) auto
  show ?thesis
  proof (cases "up \<and> list_ex (\<lambda>r. gp_chat r = g \<and> gp_user r = uid) (pw_parts w)")
    case True
    then have "pw_parts (snd (add_group_chat_participant up now g uid role mode request w)) = map (\<lambda>r. if gp_chat r = g \<and> gp_user r = uid then ?row else r) (pw_parts w)"
      by (simp add: add_group_chat_participant_def Let_def)
    with ok show ?thesis unfolding parts_ok_def by (simp only: m)
  next
    case False
    with ok show ?thesis by (auto simp: add_group_chat_participant_def parts_ok_def Let_def list_ex_iff)
  qed
qed

lemma distinct_filter_map: "distinct (map f xs) \<Longrightarrow> distinct (map f (filter P xs))"
  by (induction xs) auto

lemma count_parts [simp]: "pw_parts (update_group_chat_member_count up g w) = pw_parts w"
  by (simp add: update_group_chat_member_count_def)

lemma remove_ok: "parts_ok w \<Longrightarrow> parts_ok (snd (remove_group_chat_participant up g uid w))"
  by (auto simp: remove_group_chat_participant_def parts_ok_def Let_def distinct_filter_map)

lemma mode_ok: "parts_ok w \<Longrightarrow> parts_ok (snd (update_participant_mode up g uid mode w))"
proof -
  assume ok: "parts_ok w"
  have m: "map (\<lambda>r. (gp_chat r, gp_user r)) (map (\<lambda>r. if gp_chat r = g \<and> gp_user r = uid then r\<lparr>gp_mode := mode\<rparr> else r) rs) = map (\<lambda>r. (gp_chat r, gp_user r)) rs" for rs
    by (induction rs) auto
  show ?thesis
  proof (cases up)
    case True
    then have "pw_parts (snd (update_participant_mode up g uid mode w)) = map (\<lambda>r. if gp_chat r = g \<and> gp_user r = uid then r\<lparr>gp_mode := mode\<rparr> else r) (pw_parts w)"
      by (simp add: update_participant_mode_def Let_def)
    with ok show ?thesis unfolding parts_ok_def by (simp only: m)
  qed (use ok in \<open>simp add: update_participant_mode_def\<close>)
qed

lemma record_ok: "parts_ok w \<Longrightarrow> parts_ok (snd (create_group_chat_record up now g a b request name w))"
  by (auto simp: create_group_chat_record_def create_group_chat_identity_def Let_def intro!: add_ok) (simp_all add: parts_ok_def)

lemma identity_parts [simp]: "pw_parts (snd (create_group_chat_identity up g n request name w)) = pw_parts w"
  by (simp add: create_group_chat_identity_def Let_def)

lemma identity_ok: "parts_ok (snd (create_group_chat_identity up g n request name w)) = parts_ok w"
  unfolding parts_ok_def by simp

lemma new_chat_ok: "parts_ok w \<Longrightarrow> parts_ok (snd (new_chat e addresses message w))"
  unfolding parts_ok_def by simp

lemma members_ok: "parts_ok w \<Longrightarrow> parts_ok (foldl (add_member e guid) w ps)"
  by (induction ps arbitrary: w) (simp_all add: add_member_def add_ok)

lemma tables_ok: "parts_ok (rename_chat e g n w) = parts_ok w" "parts_ok (record_intro e g m t w) = parts_ok w"
  "parts_ok (update_group_chat_member_count up g w) = parts_ok w" "parts_ok (snd (on_photon p w)) = parts_ok w"
  "parts_ok (snd (group_send e g c t w)) = parts_ok w"
  unfolding parts_ok_def by (simp_all add: group_send_def io_bind_def on_photon_def split: prod.splits sum.splits)

lemma guarded_snd: "snd (guarded e what m w) = snd (m w)"
  by (simp add: guarded_def io_lift_def io_catch_def split: prod.splits sum.splits)

lemma bind_ok: "parts_ok (snd (m w)) \<Longrightarrow> (\<And>x w'. parts_ok w' \<Longrightarrow> parts_ok (snd (g x w'))) \<Longrightarrow> parts_ok (snd (io_bind m g w))"
  by (cases "m w"; cases "fst (m w)") (simp_all add: io_bind_def)

lemma create_ok: "parts_ok w \<Longrightarrow> parts_ok (snd (create_group e pa pb na nb request ua ub uni reasons w))"
  unfolding create_group_def
  by (auto simp: guarded_snd Let_def tables_ok record_ok split: sum.splits prod.splits if_splits intro!: bind_ok new_chat_ok)
    (metis record_ok snd_conv tables_ok(1))+

lemma multi_ok: "parts_ok w \<Longrightarrow> parts_ok (snd (provision_multi_person_group e ps purpose w))"
  unfolding provision_multi_person_group_def
  by (auto simp: guarded_snd Let_def tables_ok identity_ok split: sum.splits intro!: bind_ok new_chat_ok members_ok)

lemma late_ok: "parts_ok w \<Longrightarrow> parts_ok (snd (add_participant_to_group e g uid phone request w))"
  unfolding add_participant_to_group_def
  by (auto simp: guarded_snd Let_def tables_ok add_ok split: sum.splits intro!: bind_ok)

text \<open>Whatever happens to the tables\<close>

inductive group_step :: "pworld \<Rightarrow> pworld \<Rightarrow> bool" where
  two: "group_step w (snd (create_group e pa pb na nb request ua ub uni reasons w))"
| many: "group_step w (snd (provision_multi_person_group e ps purpose w))"
| late: "group_step w (snd (add_participant_to_group e g uid phone request w))"
| leave: "group_step w (snd (remove_group_chat_participant up g uid w))"
| mode: "group_step w (snd (update_participant_mode b g uid m w))"

text \<open>Nobody is twice in a group chat: however groups are created, joined, left and muted, and whichever calls
fail, the participants of the table differ in their chat or their user.\<close>

theorem participants_are_unique:
  assumes "group_step\<^sup>*\<^sup>* w w'" "pw_parts w = []"
  shows "distinct (map (\<lambda>r. (gp_chat r, gp_user r)) (pw_parts w'))"
proof -
  have "parts_ok v'" if "group_step v v'" "parts_ok v" for v v'
    using that by (induction rule: group_step.induct) (auto intro: create_ok multi_ok late_ok remove_ok mode_ok)
  with assms(1) have "parts_ok w'" if "parts_ok w" using that by (induction rule: rtranclp_induct) auto
  with assms(2) show ?thesis by (simp add: parts_ok_def)
qed

lemma added_user:
  "up \<Longrightarrow> \<exists>r \<in> set (pw_parts (snd (add_group_chat_participant up now g uid role mode request w))). gp_chat r = g \<and> gp_user r = uid \<and> gp_mode r = mode"
proof (cases "list_ex (\<lambda>r. gp_chat r = g \<and> gp_user r = uid) (pw_parts w)")
  case True
  assume up
  with True show ?thesis
    by (intro bexI [of _ "\<lparr>gp_chat = g, gp_user = uid, gp_role = role, gp_mode = mode, gp_request = request, gp_joined = now\<rparr>"])
      (auto simp: add_group_chat_participant_def Let_def list_ex_iff image_iff)
qed (simp add: add_group_chat_participant_def Let_def)

lemma kept_user:
  assumes "\<exists>r \<in> set (pw_parts w). gp_chat r = g \<and> gp_user r = uid \<and> gp_mode r = mode"
  shows "\<exists>r \<in> set (pw_parts (snd (add_group_chat_participant up now g uid' role mode request w))). gp_chat r = g \<and> gp_user r = uid \<and> gp_mode r = mode"
proof (cases "up \<and> uid' = uid")
  case True
  then show ?thesis by (simp add: added_user)
next
  case False
  from assms obtain r where "r \<in> set (pw_parts w)" "gp_chat r = g" "gp_user r = uid" "gp_mode r = mode" by blast
  with False show ?thesis
    by (intro bexI [of _ r]) (auto simp: add_group_chat_participant_def Let_def image_iff intro!: bexI [of _ r])
qed

text \<open>A group that was created is stored: if the database answers, a call that returns has added the chat with two
members, and both users are active participants of it.\<close>

theorem created_group_is_stored:
  assumes "fst (create_group e phone_a phone_b name_a name_b request (Some user_a) (Some user_b) university reasons w) = Inr (guid, message, row)"
    and "user_a \<noteq> []" "user_b \<noteq> []" "pe_up e = (\<lambda>_. True)"
  shows "(\<exists>r \<in> set (pw_chats (snd (create_group e phone_a phone_b name_a name_b request (Some user_a) (Some user_b) university reasons w))).
            gr_guid r = guid \<and> gr_count r = 2 \<and> gr_request r = request)
    \<and> (\<forall>uid. uid = user_a \<or> uid = user_b \<longrightarrow>
        (\<exists>r \<in> set (pw_parts (snd (create_group e phone_a phone_b name_a name_b request (Some user_a) (Some user_b) university reasons w))).
            gp_chat r = guid \<and> gp_user r = uid \<and> gp_mode r = ''active''))"
proof (cases "if truthy_str (pe_welcome e) then Inr (the (pe_welcome e)) else get_welcome_prompt name_a name_b university reasons")
  case (Inl x)
  with assms(1) show ?thesis by (simp add: create_group_def)
next
  case (Inr msg)
  obtain g w1 where n: "new_chat e [phone_a, phone_b] msg w = (Inr g, w1)" and g: "g = guid"
    using assms(1) by (auto simp: create_group_def Inr guarded_def io_lift_def io_catch_def io_bind_def Let_def split: prod.splits sum.splits)
  let ?w2 = "rename_chat e guid (build_group_display_name name_a name_b) w1"
  let ?w3 = "snd (create_group_chat_identity True guid 2 request (build_group_display_name name_a name_b) ?w2)"
  let ?w4 = "snd (add_group_chat_participant True (pe_now e) guid user_a ''member'' ''active'' request ?w3)"
  let ?w5 = "snd (add_group_chat_participant True (pe_now e) guid user_b ''member'' ''active'' request ?w4)"
  have r: "snd (create_group e phone_a phone_b name_a name_b request (Some user_a) (Some user_b) university reasons w) = record_intro e guid msg ''warm_intro'' ?w5"
    using assms(2-4) by (simp add: create_group_def Inr guarded_snd io_bind_def n g Let_def create_group_chat_record_def create_group_chat_identity_def)
  have "pw_chats (snd (add_group_chat_participant up now g' uid role mode request v)) = pw_chats v" for up now g' uid role mode v
    by (simp add: add_group_chat_participant_def Let_def)
  then have "\<exists>r \<in> set (pw_chats ?w5). gr_guid r = guid \<and> gr_count r = 2 \<and> gr_request r = request"
    by (simp add: create_group_chat_identity_def Let_def)
  moreover have "\<exists>r \<in> set (pw_parts ?w5). gp_chat r = guid \<and> gp_user r = uid \<and> gp_mode r = ''active''" if "uid = user_a \<or> uid = user_b" for uid
    using that by (elim disjE) (simp_all only: added_user kept_user)
  ultimately show ?thesis unfolding r intro_tables by blast
qed

text \<open>A group can exist that nobody knows of: if the insert fails, the call returns as if all were well; the chat
is there, its two people in it, but not in the table, so that the router does not manage it.\<close>

theorem unrecorded_group_is_reported_created:
  assumes "new_chat e [phone_a, phone_b] message w = (Inr guid, w1)" "pe_welcome e = Some message" "message \<noteq> []"
    and "\<not> pe_up e PInsertChat"
  shows "fst (create_group e phone_a phone_b name_a name_b request user_a user_b university reasons w) = Inr (guid, message, None)
    \<and> pw_chats (snd (create_group e phone_a phone_b name_a name_b request user_a user_b university reasons w)) = pw_chats w
    \<and> pw_parts (snd (create_group e phone_a phone_b name_a name_b request user_a user_b university reasons w)) = pw_parts w"
proof -
  have "pw_chats w1 = pw_chats w" "pw_parts w1 = pw_parts w" using new_chat_tables [of e "[phone_a, phone_b]" message w] assms(1) by simp_all
  then show ?thesis
    using assms by (simp add: create_group_def guarded_def io_lift_def io_catch_def io_bind_def Let_def create_group_chat_record_def create_group_chat_identity_def)
qed

section \<open>Examples\<close>

definition example_penv :: "bool \<Rightarrow> penv" where
  "example_penv up = \<lparr>pe_retry = retry_attempts, pe_srv = (\<lambda>w r. (True, POk (Inr (Some (JObj [(''data'', JObj [(''guid'', JStr ''chat1'')])]))))),
     pe_sha = id, pe_rec = example_genv, pe_up = (\<lambda>_. up), pe_now = 0, pe_text = (\<lambda>_. []), pe_welcome = Some ''hi'', pe_multi_welcome = None,
     pe_intro = Inr ''hey''\<rparr>"

definition example_pworld :: pworld where
  "example_pworld = \<lparr>pw_log = [], pw_chats = [], pw_parts = [], pw_rec = example_gworld\<rparr>"

lemma example_new_chat:
  "new_chat (example_penv up) [''+16463707933'', ''a@b.co''] ''hi'' example_pworld
    = (Inr ''chat1'', example_pworld\<lparr>pw_log := [(PNewChat [''+16463707933'', ''a@b.co''] [104, 105] ''iMessage'' ''private-api'', True)]\<rparr>)"
proof -
  have a: "checked_addresses [''+16463707933'', ''a@b.co''] = Inr [''+16463707933'', ''a@b.co'']" by code_simp
  have u: "utext ''hi'' = [104, 105]" by code_simp
  have g: "guid_of_new_chat (JObj [(''guid'', JStr ''chat1'')]) = Inr (JStr ''chat1'')" by code_simp
  show ?thesis
    by (simp add: new_chat_def io_bind_def on_photon_def create_group_chat_def create_group_chat_once_def example_penv_def example_pworld_def a u g
        numeral_3_eq_3 ask_def answer_data_def data_of_def guid_of_result_def io_of_def del: checked_addresses.simps)
qed

lemma example_create:
  "fst (create_group (example_penv up) ''+16463707933'' ''a@b.co'' ''Ann'' ''Ben'' req (Some (a # ua)) (Some (b # ub)) university reasons example_pworld)
    = Inr (''chat1'', ''hi'', if up then Some \<lparr>gr_guid = ''chat1'', gr_name = Some ''Ann & Ben'', gr_count = 2, gr_request = req\<rparr> else None)"
proof -
  have n: "build_group_display_name ''Ann'' ''Ben'' = Some ''Ann & Ben''" by code_simp
  have w: "truthy_str (pe_welcome (example_penv up))" "the (pe_welcome (example_penv up)) = ''hi''" "pe_up (example_penv up) c = up" for c
    by (simp_all add: example_penv_def)
  show ?thesis
    by (simp add: create_group_def w n guarded_def io_lift_def io_catch_def io_bind_def example_new_chat Let_def create_group_chat_record_def
        create_group_chat_identity_def)
qed

lemmas example_created = example_create [where req = None and a = "CHR ''u''" and ua = "''1''" and b = "CHR ''u''" and ub = "''2''"
  and university = None and reasons = "[]"]

lemma created_group_is_stored_witness:
  "\<exists>r \<in> set (pw_chats (snd (create_group (example_penv True) ''+16463707933'' ''a@b.co'' ''Ann'' ''Ben'' None (Some ''u1'') (Some ''u2'') None [] example_pworld))).
     gr_guid r = ''chat1'' \<and> gr_count r = 2"
proof -
  have up: "pe_up (example_penv True) = (\<lambda>_. True)" by (simp add: example_penv_def)
  from created_group_is_stored [OF example_created [of True] _ _ up] show ?thesis by auto
qed

lemma unrecorded_group_is_reported_created_witness:
  "fst (create_group (example_penv False) ''+16463707933'' ''a@b.co'' ''Ann'' ''Ben'' None (Some ''u1'') (Some ''u2'') None [] example_pworld)
    = Inr (''chat1'', ''hi'', None)"
  using unrecorded_group_is_reported_created [OF example_new_chat [of False], of "''Ann''" "''Ben''" None "Some ''u1''" "Some ''u2''" None "[]"]
  by (simp add: example_penv_def)

lemma participants_are_unique_witness:
  "distinct (map (\<lambda>r. (gp_chat r, gp_user r)) (pw_parts (snd (create_group (example_penv True) ''+16463707933'' ''a@b.co'' ''Ann'' ''Ben'' None
     (Some ''u1'') (Some ''u1'') None [] example_pworld))))"
proof -
  have "group_step\<^sup>*\<^sup>* example_pworld (snd (create_group (example_penv True) ''+16463707933'' ''a@b.co'' ''Ann'' ''Ben'' None
     (Some ''u1'') (Some ''u1'') None [] example_pworld))" by (rule r_into_rtranclp [where r = group_step]) (rule group_step.two)
  then show ?thesis by (rule participants_are_unique) (simp add: example_pworld_def)
qed

lemma photon_errors_are_unexpected_witness:
  "\<exists>t. fst (create_group (example_penv True) ''x'' ''a@b.co'' ''Ann'' ''Ben'' None None None None [] example_pworld)
    = Inl (GroupError (''Unexpected error: '' @ t))"
proof -
  have a: "\<exists>m. checked_addresses [''x'', ''a@b.co''] = Inl (PhotonError m)"
  proof -
    have "\<not> is_valid_phone_number ''x''" by code_simp
    then show ?thesis by (simp add: checked_address_def)
  qed
  then obtain m where "checked_addresses [''x'', ''a@b.co''] = Inl (PhotonError m)" by blast
  then have "fst (new_chat (example_penv True) [''x'', ''a@b.co''] ''hi'' example_pworld) = Inl (RetryError (PhotonError m))"
    by (simp add: new_chat_def io_bind_def on_photon_def create_group_chat_def create_group_chat_once_def example_penv_def utext_def
        numeral_3_eq_3 io_of_def del: checked_addresses.simps split: prod.splits)
  then obtain w1 where n: "new_chat (example_penv True) [''x'', ''a@b.co''] ''hi'' example_pworld = (Inl (RetryError (PhotonError m)), w1)"
    by (cases "new_chat (example_penv True) [''x'', ''a@b.co''] ''hi'' example_pworld") simp
  have w: "truthy_str (pe_welcome (example_penv True))" "the (pe_welcome (example_penv True)) = ''hi''" by (simp_all add: example_penv_def)
  have f: "fst (create_group (example_penv True) ''x'' ''a@b.co'' ''Ann'' ''Ben'' None None None None [] example_pworld)
      = Inl (service_error (example_penv True) ''Failed to create group chat: '' (RetryError (PhotonError m)))"
    by (simp add: create_group_def w guarded_def io_lift_def io_catch_def io_bind_def n)
  have r: "retry_decorator (pe_retry (example_penv True))" by (simp add: example_penv_def attempts.retry_decorator_axioms)
  from photon_errors_are_unexpected [OF r f] f show ?thesis by (auto simp: service_error_def)
qed

end
