(* ===== verification/Tool_World.thy ===== *)
theory Tool_World
  imports Matching_Tools Group_Provision
begin

text \<open>
  The networking tools over one world: the tables of requests and flow states, the users, the group
  chats with their service (Group_Provision) and the messaging client (Photon_Client). The theorems say
  what the tools do to requests and to people, in any world and in this one.
\<close>

section \<open>The world\<close>

record town =
  tn_world :: world
  tn_group :: pworld
  tn_stored :: "(string \<times> string \<times> dict) list"

text \<open>The answers of what is outside: users, the language model, the matcher\<close>

record tenv =
  te_group :: penv
  te_users :: "string \<Rightarrow> tuser option"
  te_invitation :: "string option"
  te_matches :: "found list"

abbreviation t_rapi :: "(town, conn_req) table_api" where
  "t_rapi \<equiv> mem_api cr_id (\<lambda>t. w_reqs (tn_world t)) (\<lambda>x t. t\<lparr>tn_world := (tn_world t)\<lparr>w_reqs := x\<rparr>\<rparr>)"

abbreviation t_sapi :: "(town, state_row) table_api" where
  "t_sapi \<equiv> mem_api sr_user (\<lambda>t. w_states (tn_world t)) (\<lambda>x t. t\<lparr>tn_world := (tn_world t)\<lparr>w_states := x\<rparr>\<rparr>)"

abbreviation t_rtbl :: "town \<Rightarrow> string \<rightharpoonup> conn_req" where
  "t_rtbl \<equiv> mem_tbl cr_id (\<lambda>t. w_reqs (tn_world t))"

abbreviation t_stbl :: "town \<Rightarrow> string \<rightharpoonup> state_row" where
  "t_stbl \<equiv> mem_tbl sr_user (\<lambda>t. w_states (tn_world t))"

text \<open>Calls on the group chats, with their exceptions as those of the handshake\<close>

fun service_exception :: "penv \<Rightarrow> gperr \<Rightarrow> conn_error" where
  "service_exception e (GroupError x) = GroupServiceError x"
| "service_exception e (Unguarded x) = ApiFailure (pe_text e x)"

definition on_group :: "penv \<Rightarrow> 'a gpio \<Rightarrow> (town, conn_error, 'a) io" where
  "on_group e m t = (case m (tn_group t) of (r, g) \<Rightarrow> (map_sum (service_exception e) id r, t\<lparr>tn_group := g\<rparr>))"

definition group_read :: "(pworld \<Rightarrow> 'a) \<Rightarrow> (town, conn_error, 'a) io" where
  "group_read f t = (Inr (f (tn_group t)), t)"

definition town_send :: "tenv \<Rightarrow> string \<Rightarrow> string \<Rightarrow> bool \<Rightarrow> (town, conn_error, unit) io" where
  "town_send e phone content rich =
     on_group (te_group e) (io_lift Unguarded (io_bind (on_photon
       (send_message (pe_retry (te_group e)) (pe_srv (te_group e)) phone (utext content) None None None rich)) (\<lambda>_. io_return ())))"

definition town_members :: "participant list \<Rightarrow> member list" where
  "town_members ps = map (\<lambda>p. \<lparr>mb_user = pt_user_id p, mb_phone = pt_phone p, mb_name = pt_name p, mb_initiator = pt_is_initiator p,
     mb_request = pt_request_id p\<rparr>) ps"

definition town_services :: "tenv \<Rightarrow> town services" where
  "town_services e = \<lparr>sv_reqs = t_rapi, sv_states = t_sapi, sv_text = (\<lambda>x. case x of ApiFailure m \<Rightarrow> m | GroupServiceError m \<Rightarrow> m | _ \<Rightarrow> ''error''),
     sv_user = (\<lambda>u. io_return (te_users e u)), sv_send = town_send e, sv_attach = (\<lambda>_. io_raise (ApiFailure ''attachment'')),
     sv_store = (\<lambda>u t d w. (Inr (), w\<lparr>tn_stored := tn_stored w @ [(u, t, d)]\<rparr>)), sv_invitation = (\<lambda>_ _ _. io_return (te_invitation e)),
     sv_conversation = (\<lambda>_. io_return None), sv_preview = (\<lambda>_. io_return None), sv_preview_base = None, sv_linked = (\<lambda>_. io_return []),
     sv_members = (\<lambda>g. group_read (\<lambda>w. map gp_user (get_group_chat_participants (pe_up (te_group e) (PReadParts g)) g w))),
     sv_shared = (\<lambda>a b. group_read (\<lambda>w. map_option gr_guid (get_group_chat_for_users hd (pe_up (te_group e)) a b w))),
     sv_join = (\<lambda>g u phone nam r members. on_group (te_group e) (add_participant_to_group (te_group e) g u phone (Some (cr_id r)))),
     sv_late = (\<lambda>g u row members r. on_group (te_group e) (add_participant_to_group (te_group e) g u (or_str (ur_phone row) []) (Some (cr_id r)))),
     sv_multi = (\<lambda>ps reasons purpose. io_bind (on_group (te_group e) (provision_multi_person_group (te_group e) (town_members ps) purpose)) (\<lambda>r. io_return (fst r))),
     sv_create = (\<lambda>a b university r. io_bind (on_group (te_group e)
        (create_group (te_group e) (or_str (tu_phone a) []) (or_str (tu_phone b) []) (or_str (tu_name a) []) (or_str (tu_name b) [])
           (Some (cr_id r)) (Some (cr_initiator r)) (Some (cr_target r)) university (cr_reasons r))) (\<lambda>x. io_return (fst x))),
     sv_profile = (\<lambda>_ _. io_return ()), sv_image = False, sv_demands = (\<lambda>_. io_return None), sv_derive = (\<lambda>_ _. io_return ()),
     sv_interpret = (\<lambda>_. None), sv_match = (\<lambda>_ _ _. case te_matches e of [] \<Rightarrow> io_raise (ApiFailure ''no match'') | f # _ \<Rightarrow> io_return f),
     sv_matches = (\<lambda>_ _ _ _. io_return (te_matches e)), sv_distance = (\<lambda>_. io_return None), sv_clarity = (\<lambda>_. io_raise (ApiFailure ''no answer'')),
     sv_str = (\<lambda>_. []), sv_iso = str_int\<rparr>"

lemma on_group_frame: "keeps t_rtbl (on_group e m)"
  by (auto simp: keeps_def on_group_def mem_tbl_def split: prod.splits)

lemma town_send_frame: "keeps t_rtbl (town_send e phone content rich)"
  unfolding town_send_def by (rule on_group_frame)

lemma group_read_frame: "keeps t_rtbl (group_read f)"
  by (simp add: keeps_def group_read_def)

interpretation tw: tool_store t_rapi t_rtbl t_sapi t_stbl "town_services e" for e
proof -
  have "request_store t_rapi t_rtbl" by (intro request_store.intro mem_store) simp
  moreover have "state_store t_sapi t_stbl" by (intro state_store.intro mem_store) simp
  moreover have "handshake_store_axioms t_rapi t_rtbl t_sapi t_stbl"
    by unfold_locales (auto simp: keeps_def mem_api_def mem_call_def mem_tbl_def split: if_splits prod.splits)
  ultimately have h: "handshake_store t_rapi t_rtbl t_sapi t_stbl" by (rule handshake_store.intro)
  have store: "keeps t_rtbl (\<lambda>w. (Inr (), w\<lparr>tn_stored := tn_stored w @ [x]\<rparr>))" for x by (auto simp: keeps_def mem_tbl_def)
  have "tool_store_axioms t_rapi t_rtbl t_sapi (town_services e)"
    by unfold_locales
      (auto simp: town_services_def store intro!: keeps_return keeps_raise keeps_bind on_group_frame town_send_frame group_read_frame split: list.splits)
  with h show "tool_store t_rapi t_rtbl t_sapi t_stbl (town_services e)" by (rule tool_store.intro)
qed

section \<open>Reading and moving requests\<close>

context tool_store
begin

lemma find_cases: "\<exists>q m'. find_request S rid m = (Inr q, m') \<and> reqs_of m' = reqs_of m \<and> (q = None \<or> q = reqs_of m rid)"
proof -
  obtain res d where sel: "tb_select rapi (\<lambda>r. cr_id r = rid) (mg_db m) = (res, d)" by fastforce
  show ?thesis
  proof (cases res)
    case (Inl e)
    with sel show ?thesis
      using reqs.select_frame [OF sel] by (simp add: find_request_def get_connection_request_def on_db_def io_catch_def io_bind_def)
  next
    case (Inr rs)
    have "rs = (case reqs_of m rid of None \<Rightarrow> [] | Some r \<Rightarrow> [r])" using reqs.select_key [OF sel [unfolded Inr]] .
    with sel Inr show ?thesis
      using reqs.select_frame [OF sel]
      by (cases "reqs_of m rid") (simp_all add: find_request_def get_connection_request_def on_db_def io_catch_def io_bind_def)
  qed
qed

lemma find_read:
  assumes "tb_select rapi (\<lambda>r. cr_id r = rid) (mg_db m) = (Inr rs, d)"
  shows "find_request S rid m = (Inr (reqs_of m rid), m\<lparr>mg_db := d\<rparr>)"
proof -
  have "rs = (case reqs_of m rid of None \<Rightarrow> [] | Some r \<Rightarrow> [r])" using reqs.select_key [OF assms] .
  with assms show ?thesis
    by (cases "reqs_of m rid") (simp_all add: find_request_def get_connection_request_def on_db_def io_catch_def io_bind_def)
qed

lemma confirm_Inr:
  assumes "initiator_confirms rapi sapi now rid m = (Inr q, m')"
  shows "valid_uuid rid \<and> cr_status q = CPendingTargetApproval \<and> reqs_of m' rid = Some q"
proof -
  have "run_hs rapi sapi now Confirm rid m = (Inr q, m')" using assms by simp
  from run_hs_Inr [OF this] obtain p where "q = moved now Confirm p" "reqs_of m' = (reqs_of m)(rid \<mapsto> q)" by blast
  moreover have "valid_uuid rid"
    using assms by (auto simp: initiator_confirms_def move_and_track_def io_bind_def on_db_def update_connection_request_status_def
        split: if_splits prod.splits sum.splits)
  ultimately show ?thesis by (simp add: moved_fields)
qed

lemma valid_request: "valid_uuid rid \<Longrightarrow> validate_request_id rid = None"
  using empty_not_uuid by (auto simp: validate_request_id_def)

lemma invitation_lost:
  assumes "find_request S rid m = (Inr (Some r), m1)" "cr_status r = CPendingInitiatorApproval" "cr_target r \<noteq> []"
    and "on_db (sv_user S (cr_target r)) m1 = (Inr (Some target), m2)" "tu_phone target = Some phone" "phone \<noteq> []"
    and confirm: "initiator_confirms rapi sapi now rid m2 = (Inr q, m3)"
    and "on_db (sv_invitation S name (tu_name target) (cr_reasons r)) m3 = (Inr None, m4)"
    and sel: "tb_select rapi (\<lambda>r. cr_id r = rid) (mg_db m4) = (Inr rs, d)"
  shows "confirm_and_send_invitation S now rid name m = (Inl ''Request confirmed but failed to generate invitation message'', m4)
    \<and> confirm_and_send_invitation S now' rid name' m4 = (Inr (already_confirmed rid q), m4\<lparr>mg_db := d\<rparr>)"
proof
  note c = confirm_Inr [OF confirm]
  have v: "validate_request_id rid = None" using c by (simp add: valid_request)
  show "confirm_and_send_invitation S now rid name m = (Inl ''Request confirmed but failed to generate invitation message'', m4)"
    using assms v by (simp add: confirm_and_send_invitation_def tool_try_def io_bind_def send_invitation_def refuse_def)
  have "reqs_of m4 = reqs_of m3" by (rule keepsD [OF keeps_db [OF text_frames(1)] assms(8)])
  then have "find_request S rid m4 = (Inr (Some q), m4\<lparr>mg_db := d\<rparr>)" using find_read [OF sel] c by simp
  with v c show "confirm_and_send_invitation S now' rid name' m4 = (Inr (already_confirmed rid q), m4\<lparr>mg_db := d\<rparr>)"
    by (simp add: confirm_and_send_invitation_def tool_try_def io_bind_def answer_def)
qed

lemma snd_tool_try: "snd (tool_try S what m s) = snd (m s)"
  by (simp add: tool_try_def split: prod.splits sum.splits)

lemma keeps_snd: "keeps f m \<Longrightarrow> f (snd (m s)) = f s"
  by (cases "m s") (auto dest: keepsD)

lemma joined_unmarked:
  assumes "reqs_of m rid = Some r" "truthy_str (cr_group_chat_guid r)"
  shows "reqs_of (snd (tool_create_group_chat S now rid given m)) = reqs_of m"
proof (cases "validate_request_id rid")
  case (Some e)
  then show ?thesis by (simp add: tool_create_group_chat_def)
next
  case None
  obtain q m' where f: "find_request S rid m = (Inr q, m')" "reqs_of m' = reqs_of m" "q = None \<or> q = Some r"
    using find_cases [of rid m] assms(1) by auto
  then show ?thesis
    using None assms(2) keeps_snd [OF keeps_existing, of now r rid "the (cr_group_chat_guid r)" m']
    by (auto simp: tool_create_group_chat_def snd_tool_try io_bind_def refuse_def)
qed

lemma accept_refused:
  assumes "\<And>q. reqs_of m rid = Some q \<Longrightarrow> cr_status q \<noteq> CPendingTargetApproval"
  shows "\<exists>e m'. target_accepts_multi_match rapi now rid m = (Inl e, m') \<and> reqs_of m' = reqs_of m"
    and "\<exists>e m'. target_declines rapi sapi now rid reason m = (Inl e, m') \<and> reqs_of m' = reqs_of m"
proof -
  let ?f = "\<lambda>r. r\<lparr>cr_target_responded_at := Some now\<rparr>"
  have k: "keeps_id ?f" by (simp add: keeps_id_def)
  obtain res d where up: "update_connection_request_status rapi now rid CTargetAccepted ?f (Some CPendingTargetApproval) (mg_db m) = (res, d)"
    by fastforce
  have "\<exists>e. res = Inl e \<and> rtbl d = reqs_of m"
  proof (cases res)
    case (Inl e)
    with reqs.guarded_update_Inl [OF _ k] up assms show ?thesis by blast
  next
    case (Inr r)
    with reqs.guarded_update_Inr [OF _ k] up assms show ?thesis by metis
  qed
  then show "\<exists>e m'. target_accepts_multi_match rapi now rid m = (Inl e, m') \<and> reqs_of m' = reqs_of m"
    using up by (auto simp: target_accepts_multi_match_def io_bind_def on_db_def)
  obtain res2 m2 where r: "run_hs rapi sapi now (Decline reason) rid m = (res2, m2)" by fastforce
  from run_hs_refused [OF r] assms show "\<exists>e m'. target_declines rapi sapi now rid reason m = (Inl e, m') \<and> reqs_of m' = reqs_of m"
    using r by auto
qed

lemma answered_stays:
  assumes "reqs_of m rid = Some q" "cr_status q \<noteq> CPendingTargetApproval"
  shows "reqs_of (snd (target_responds S now rid accept reason m)) = reqs_of m"
proof (cases "validate_request_id rid")
  case (Some e)
  then show ?thesis by (simp add: target_responds_def)
next
  case None
  obtain p m' where f: "find_request S rid m = (Inr p, m')" "reqs_of m' = reqs_of m" using find_cases [of rid m] by auto
  have st: "\<And>x. reqs_of m' rid = Some x \<Longrightarrow> cr_status x \<noteq> CPendingTargetApproval" using f assms by simp
  obtain e1 s1 where a: "target_accepts_multi_match rapi now rid m' = (Inl e1, s1)" "reqs_of s1 = reqs_of m" using accept_refused(1) [OF st] f(2) by metis
  obtain e2 s2 where d: "target_declines rapi sapi now rid reason m' = (Inl e2, s2)" "reqs_of s2 = reqs_of m" using accept_refused(2) [OF st] f(2) by metis
  have al: "keeps reqs_of (already_answered S rid x)" for x unfolding already_answered_def by (intro keeps_rules)
  show ?thesis
    using None f a d keeps_snd [OF al, of _ m']
    by (auto simp: target_responds_def snd_tool_try io_bind_def answer_def split: option.splits)
qed

end

context tool_store
begin

lemma accept_Inr:
  assumes "target_accepts_multi_match rapi now rid m = (Inr x, m')"
  shows "\<exists>q. reqs_of m' rid = Some q \<and> cr_status q = CTargetAccepted"
proof -
  let ?f = "\<lambda>r. r\<lparr>cr_target_responded_at := Some now\<rparr>"
  have k: "keeps_id ?f" by (simp add: keeps_id_def)
  have chk: "keeps reqs_of (on_db (check_multi_match_ready_v1 rapi g))" for g
    unfolding check_multi_match_ready_v1_def by (intro keeps_rules keeps_db reqs_select_frame)
  obtain r d where up: "update_connection_request_status rapi now rid CTargetAccepted ?f (Some CPendingTargetApproval) (mg_db m) = (Inr r, d)"
    and rest: "reqs_of m' = rtbl d"
    using assms by (auto simp: target_accepts_multi_match_def io_bind_eq_Inr on_db_iff split: if_splits dest!: keepsD [OF chk, unfolded on_db_iff, simplified])
  from reqs.guarded_update_Inr [OF up k] obtain q where "r = set_status now CTargetAccepted ?f q" "rtbl d = (reqs_of m)(rid \<mapsto> r)" by metis
  with rest show ?thesis by (simp add: set_status_def)
qed

lemma responded:
  assumes "target_responds S now rid accept reason m = (Inr d, m')"
  shows "\<exists>q. reqs_of m' rid = Some q \<and> cr_status q \<in> {CTargetAccepted, CGroupCreated, CTargetDeclined}"
proof -
  have v: "validate_request_id rid = None" using assms by (cases "validate_request_id rid") (simp_all add: target_responds_def)
  obtain p m1 where f: "find_request S rid m = (Inr p, m1)" "reqs_of m1 = reqs_of m" "p = None \<or> p = reqs_of m rid"
    using find_cases [of rid m] by auto
  have name: "keeps reqs_of (initiator_name_of S x)" "keeps reqs_of (already_answered S rid x)" for x
    unfolding already_answered_def by (intro keeps_rules)+
  show ?thesis
  proof (cases "\<exists>q. p = Some q \<and> cr_status q \<in> {CTargetAccepted, CGroupCreated, CTargetDeclined}")
    case True
    then obtain q where q: "p = Some q" "cr_status q \<in> {CTargetAccepted, CGroupCreated, CTargetDeclined}" by blast
    have f1: "find_request S rid m = (Inr (Some q), m1)" using f q by simp
    have "m' = snd (target_responds S now rid accept reason m)" using assms by simp
    also have "reqs_of \<dots> = reqs_of m1"
      using v f1 q(2) keeps_snd [OF name(2), of q m1] by (auto simp: target_responds_def snd_tool_try io_bind_def answer_def)
    finally have "reqs_of m' rid = Some q" using f q by (metis option.distinct(1))
    with q(2) show ?thesis by blast
  next
    case False
    show ?thesis
    proof (cases accept)
      case True
      obtain r x m2 v where a: "target_accepts_multi_match rapi now rid m1 = (Inr (r, x), m2)" and n: "initiator_name_of S r m2 = (Inr v, m')"
        using assms v f False True
        by (auto simp: target_responds_def tool_try_def io_bind_def answer_def split: prod.splits sum.splits option.splits)
      have "reqs_of m' = reqs_of m2" by (rule keepsD [OF name(1) n])
      with accept_Inr [OF a] show ?thesis by auto
    next
      case F: False
      obtain r where d: "target_declines rapi sapi now rid reason m1 = (Inr r, m')"
        using assms v f False F
        by (auto simp: target_responds_def tool_try_def io_bind_def answer_def split: prod.splits sum.splits option.splits)
      have "run_hs rapi sapi now (Decline reason) rid m1 = (Inr r, m')" using d by simp
      from run_hs_Inr [OF this] show ?thesis by (auto simp: moved_fields)
    qed
  qed
qed

end

lemma multi_status_single: "\<not> cr_is_multi r \<Longrightarrow> multi_status_of S r given m = (Inr (case given of Some x \<Rightarrow> x | None \<Rightarrow> None), m)"
  by (simp add: multi_status_of_def split: option.split)

section \<open>Properties\<close>

text \<open>Whatever tools the agents call, in whatever order, with whatever arguments, and whichever calls to services
and to the database fail, a request keeps its two users, moves only along the valid changes of its status, and stays
as it is once its status is final.\<close>

theorem tools_move_requests_forward:
  assumes "tool_store rapi rtbl sapi stbl S" "tool_run S d d'" "rtbl d rid = Some q"
  shows "\<exists>q'. rtbl d' rid = Some q' \<and> cr_initiator q' = cr_initiator q \<and> cr_target q' = cr_target q
    \<and> status_path (cr_status q) (cr_status q') \<and> (valid_status_next (cr_status q) = [] \<longrightarrow> cr_status q' = cr_status q)"
proof -
  obtain q' where "rtbl d' rid = Some q'" "row_evolves q q'"
    using tool_store.tool_run_evolves [OF assms(1,2)] assms(3) by (auto simp: tbl_evolves_def)
  then show ?thesis using path_terminal by (intro exI [of _ q']) (auto simp: row_evolves_def)
qed

text \<open>The invitation can be lost for good: the request is confirmed before the message is written, so if no message
is generated the tool fails, but the request waits for its target, and every further call answers success (already
confirmed) after reading the request and does nothing else.\<close>

theorem invitation_is_lost:
  assumes "tool_store rapi rtbl sapi stbl S"
    and "find_request S rid m = (Inr (Some r), m1)" "cr_status r = CPendingInitiatorApproval" "cr_target r \<noteq> []"
    and "on_db (sv_user S (cr_target r)) m1 = (Inr (Some target), m2)" "tu_phone target = Some phone" "phone \<noteq> []"
    and "initiator_confirms rapi sapi now rid m2 = (Inr q, m3)"
    and "on_db (sv_invitation S name (tu_name target) (cr_reasons r)) m3 = (Inr None, m4)"
    and "tb_select rapi (\<lambda>r. cr_id r = rid) (mg_db m4) = (Inr rs, d)"
  shows "confirm_and_send_invitation S now rid name m = (Inl ''Request confirmed but failed to generate invitation message'', m4)
    \<and> confirm_and_send_invitation S now' rid name' m4 = (Inr (already_confirmed rid q), m4\<lparr>mg_db := d\<rparr>)"
  by (rule tool_store.invitation_lost [OF assms])

text \<open>A request that belongs to a chat is never marked: the name \<open>datetime\<close> is unbound where the status is updated, so
the update raises before it is made and the exception is dropped; the request stays accepted and whoever calls the
tool again adds and announces the same person again.\<close>

theorem joined_request_is_never_marked:
  assumes "tool_store rapi rtbl sapi stbl S" "rtbl (mg_db m) rid = Some r" "truthy_str (cr_group_chat_guid r)"
  shows "rtbl (mg_db (snd (tool_create_group_chat S now rid given m))) = rtbl (mg_db m)"
  by (rule tool_store.joined_unmarked [OF assms])

text \<open>C27: A second response changes nothing: after a target's answer was processed, neither the same answer nor the
opposite one, at any time and in any worker, changes a request.\<close>

theorem second_response_changes_nothing:
  assumes "tool_store rapi rtbl sapi stbl S" "target_responds S now rid accept reason m = (Inr d, m1)"
  shows "rtbl (mg_db (snd (target_responds S now' rid accept' reason' \<lparr>mg_db = mg_db m1, mg_cache = c\<rparr>))) = rtbl (mg_db m1)"
proof -
  obtain q where "rtbl (mg_db m1) rid = Some q" "cr_status q \<in> {CTargetAccepted, CGroupCreated, CTargetDeclined}"
    using tool_store.responded [OF assms] by blast
  then show ?thesis
    using tool_store.answered_stays [OF assms(1), of "\<lparr>mg_db = mg_db m1, mg_cache = c\<rparr>" rid q] by auto
qed

text \<open>Whom a search leaves out: if the database answers both reads, these are exactly the users who share a request with the
searching user, in either role, that is waiting, accepted or has its group.\<close>

theorem excluded_are_the_connected:
  assumes "tool_store rapi rtbl sapi stbl S" "get_users_to_exclude S uid m = (res, m')"
    and "tb_select rapi (\<lambda>r. cr_initiator r = uid \<and> active_status (cr_status r)) (mg_db m) = (Inr rs, d1)"
    and "tb_select rapi (\<lambda>r. cr_target r = uid \<and> active_status (cr_status r)) d1 = (Inr qs, d2)"
  shows "\<exists>us. res = Inr us \<and> set us = {u. u \<noteq> [] \<and> (\<exists>r \<in> ran (rtbl (mg_db m)). active_status (cr_status r)
      \<and> (cr_initiator r = uid \<and> cr_target r = u \<or> cr_target r = uid \<and> cr_initiator r = u))}"
  by (rule tool_store.exclusion [OF assms])

text \<open>A first group is reported as failed: when the group was created and its request marked, the tool calls
\<open>update_user_profile\<close> with an argument it does not have for every initiator whose facts do not say that they have
networked before, so it answers an error in the state in which all is done; nothing ever stores that fact.\<close>

theorem first_group_is_reported_failed:
  assumes "tool_store rapi rtbl sapi stbl S" "valid_uuid rid"
    and "find_request S rid m = (Inr (Some r), m1)" "\<not> truthy_str (cr_group_chat_guid r)" "\<not> cr_is_multi r"
    and "on_db (sv_shared S (cr_initiator r) (cr_target r)) m1 = (Inr None, m2)"
    and "on_db (sv_user S (cr_initiator r)) m2 = (Inr (Some a), m3)" "truthy_str (tu_phone a)"
    and "on_db (sv_user S (cr_target r)) m3 = (Inr (Some b), m4)" "truthy_str (tu_phone b)"
    and "\<not> json_truthy (map_of (tu_facts a) ''first_networking_completed'')"
    and "\<And>university. on_db (sv_create S a b university r) m4 = (Inr guid, m5)"
    and "mark_group_created rapi sapi now rid guid m5 = (Inr q, m6)"
  shows "\<exists>e. tool_create_group_chat S now rid given m = (Inl e, m6)
    \<and> cr_status q = CGroupCreated \<and> rtbl (mg_db m6) rid = Some q"
proof -
  have "run_hs rapi sapi now (MarkGroup guid) rid m5 = (Inr q, m6)" using assms(13) by simp
  from handshake_store.run_hs_Inr [OF tool_store.axioms(1) [OF assms(1)] this]
  have q: "cr_status q = CGroupCreated \<and> rtbl (mg_db m6) rid = Some q" by (auto simp: moved_fields)
  note a = tool_store.apis [OF assms(1)]
  have s: "single_group S now r rid m2 = (Inl (ApiFailure ''update_user_profile() got an unexpected keyword argument personal_facts''), m6)"
    using assms(7-13) a
    by (simp add: single_group_def phoneless_def io_bind_def Let_def first_networking_def update_profile_facts_def)
  have c: "safety_check S now r rid m1 = (Inr None, m2)" using assms(6) by (simp add: safety_check_def io_catch_def io_bind_def)
  obtain x where ms: "multi_status_of S r given m1 = (Inr x, m1)" using multi_status_single [OF assms(5)] by blast
  have "\<exists>e. tool_create_group_chat S now rid given m = (Inl e, m6)"
    using assms(3,4,5) s c ms tool_store.valid_request [OF assms(1,2)] by (simp add: tool_create_group_chat_def tool_try_def io_bind_def)
  with q show ?thesis by blast
qed

lemma town_mark_refused:
  assumes "\<And>q. t_rtbl (mg_db m) rid = Some q \<Longrightarrow> cr_status q \<noteq> CTargetAccepted"
  shows "\<exists>x m'. mark_group_created t_rapi t_sapi now rid guid m = (Inl x, m') \<and> t_rtbl (mg_db m') = t_rtbl (mg_db m)
    \<and> tn_group (mg_db m') = tn_group (mg_db m)"
proof -
  let ?f = "\<lambda>r. r\<lparr>cr_group_chat_guid := Some guid, cr_group_created_at := Some now\<rparr>"
  have k: "keeps_id ?f" by (simp add: keeps_id_def)
  obtain res d where up: "update_connection_request_status t_rapi now rid CGroupCreated ?f (Some CTargetAccepted) (mg_db m) = (res, d)" by fastforce
  have "keeps tn_group (tb_update t_rapi P f)" for P f by (auto simp: keeps_def mem_api_def mem_call_def split: if_splits prod.splits)
  moreover have "keeps tn_group (first_row x rs)" for x and rs :: "conn_req list" by (auto simp: first_row_def split: list.splits intro: keeps_rules)
  ultimately have "keeps tn_group (update_connection_request_status t_rapi now rid CGroupCreated ?f (Some CTargetAccepted))"
    unfolding update_connection_request_status_def by (intro keeps_rules)
  from keepsD [OF this up] have g: "tn_group d = tn_group (mg_db m)" .
  show ?thesis
  proof (cases res)
    case (Inl x)
    from tw.reqs.guarded_update_Inl [OF up [unfolded Inl] k] assms have "t_rtbl d = t_rtbl (mg_db m)" by blast
    with Inl up g show ?thesis by (simp add: mark_group_created_def move_and_track_def io_bind_def on_db_def)
  next
    case (Inr r)
    from tw.reqs.guarded_update_Inr [OF up [unfolded Inr] k] obtain p where "t_rtbl (mg_db m) rid = Some p" "cr_status p = CTargetAccepted" .
    with assms show ?thesis by blast
  qed
qed

text \<open>A group can be created without consent: the tool creates the chat, with both people in it, before it looks
whether the target accepted; for a request in any other status the chat is there and the tool answers an error, with
the requests as they were.\<close>

theorem group_is_created_without_consent:
  assumes "valid_uuid rid" and "find_request (town_services e) rid m = (Inr (Some r), m1)"
    and "\<not> truthy_str (cr_group_chat_guid r)" "\<not> cr_is_multi r" "cr_status r \<noteq> CTargetAccepted"
    and "te_users e (cr_initiator r) = Some a" "truthy_str (tu_phone a)" "te_users e (cr_target r) = Some b" "truthy_str (tu_phone b)"
    and "get_group_chat_for_users hd (pe_up (te_group e)) (cr_initiator r) (cr_target r) (tn_group (mg_db m1)) = None"
    and "\<And>university. create_group (te_group e) (the (tu_phone a)) (the (tu_phone b)) (or_str (tu_name a) []) (or_str (tu_name b) [])
           (Some (cr_id r)) (Some (cr_initiator r)) (Some (cr_target r)) university (cr_reasons r) (tn_group (mg_db m1)) = (Inr (guid, msg, row), g)"
  shows "\<exists>err. fst (tool_create_group_chat (town_services e) now rid given m) = Inl err
    \<and> tn_group (mg_db (snd (tool_create_group_chat (town_services e) now rid given m))) = g
    \<and> t_rtbl (mg_db (snd (tool_create_group_chat (town_services e) now rid given m))) = t_rtbl (mg_db m)"
proof -
  let ?S = "town_services e"
  have r: "t_rtbl (mg_db m1) = t_rtbl (mg_db m)" "t_rtbl (mg_db m) rid = Some r"
    using tw.find_cases [of e rid m] assms(2) by auto
  let ?m5 = "m1\<lparr>mg_db := (mg_db m1)\<lparr>tn_group := g\<rparr>\<rparr>"
  have t5: "t_rtbl (mg_db ?m5) = t_rtbl (mg_db m)" using r(1) by (simp add: mem_tbl_def)
  have "\<exists>x m'. mark_group_created t_rapi t_sapi now rid guid ?m5 = (Inl x, m') \<and> t_rtbl (mg_db m') = t_rtbl (mg_db ?m5)
    \<and> tn_group (mg_db m') = tn_group (mg_db ?m5)"
    by (rule town_mark_refused) (use r(2) assms(5) t5 in auto)
  then obtain x m6 where m6: "mark_group_created t_rapi t_sapi now rid guid ?m5 = (Inl x, m6)"
    "t_rtbl (mg_db m6) = t_rtbl (mg_db m)" "tn_group (mg_db m6) = g" unfolding t5 by auto
  have u: "on_db (sv_user ?S uid) m1 = (Inr (te_users e uid), m1)" for uid by (simp add: town_services_def on_db_def)
  have c: "on_db (sv_create ?S a b university r) m1 = (Inr guid, ?m5)" for university
  proof -
    have "or_str (tu_phone a) [] = the (tu_phone a)" "or_str (tu_phone b) [] = the (tu_phone b)"
      using assms(7,9) by (cases "tu_phone a"; simp; cases "tu_phone b"; simp)+
    then show ?thesis using assms(11) by (simp add: town_services_def on_db_def io_bind_def on_group_def)
  qed
  have s: "safety_check ?S now r rid m1 = (Inr None, m1)"
    using assms(10) by (simp add: safety_check_def io_catch_def io_bind_def on_db_def town_services_def group_read_def)
  obtain v where ms: "multi_status_of ?S r given m1 = (Inr v, m1)" using multi_status_single [OF assms(4)] by blast
  have g: "single_group ?S now r rid m1 = (Inl x, m6)"
    using u c m6(1) assms(6-9) by (simp add: single_group_def phoneless_def io_bind_def Let_def)
  show ?thesis
    using assms(2-4) g s m6(2,3) ms tw.valid_request [OF assms(1)] by (simp add: tool_create_group_chat_def tool_try_def io_bind_def)
qed


section \<open>Examples\<close>

definition example_tenv :: tenv where
  "example_tenv = \<lparr>te_group = example_penv True,
     te_users = (\<lambda>u. Some \<lparr>tu_id = u, tu_name = Some (if u = ''u'' then ''Ann'' else ''Ben''),
       tu_phone = Some (if u = ''u'' then ''+16463707933'' else ''a@b.co''), tu_email = None, tu_university = None, tu_major = None,
       tu_interests = [], tu_facts = [], tu_located = False, tu_metadata = None\<rparr>),
     te_invitation = None, te_matches = []\<rparr>"

definition example_town :: "conn_status \<Rightarrow> town mgr" where
  "example_town st = \<lparr>mg_db = \<lparr>tn_world = mg_db (sample_world st), tn_group = example_pworld, tn_stored = []\<rparr>, mg_cache = Map.empty\<rparr>"

abbreviation example_services :: "town services" where
  "example_services \<equiv> town_services example_tenv"

lemma example_req [simp]: "cr_id (sample_req st) = sample_id" "cr_status (sample_req st) = st" "cr_initiator (sample_req st) = ''u''"
  "cr_target (sample_req st) = ''t''" "cr_group_chat_guid (sample_req st) = None" "\<not> cr_is_multi (sample_req st)" "cr_reasons (sample_req st) = []"
  by (simp_all add: sample_req_def request_row_def)

lemma example_rows: "t_rtbl (mg_db (example_town st)) = [sample_id \<mapsto> sample_req st]"
  by (simp add: example_town_def sample_world_def mem_eval)

lemma example_select: "tb_select t_rapi P (mg_db (example_town st)) = (Inr (filter P [sample_req st]), mg_db (example_town st))"
  by (simp add: example_town_def sample_world_def mem_eval)

lemma example_find: "find_request example_services sample_id (example_town st) = (Inr (Some (sample_req st)), example_town st)"
  using tw.find_read [OF example_select] example_rows by (simp add: example_town_def)


lemma town_select: "\<not> mt_down (w_reqs (tn_world d)) \<Longrightarrow> \<exists>rs d'. tb_select t_rapi P d = (Inr rs, d')"
  by (simp add: mem_api_def mem_call_def)

text \<open>The steps of the handshake in the example\<close>

lemma example_steps:
  "initiator_confirms t_rapi t_sapi 9 sample_id (example_town CPendingInitiatorApproval)
    = (Inr ((sample_req CPendingTargetApproval)\<lparr>cr_updated_at := 9, cr_target_notified_at := Some 9\<rparr>),
       snd (initiator_confirms t_rapi t_sapi 9 sample_id (example_town CPendingInitiatorApproval)))"
  "w_reqs (tn_world (mg_db (snd (initiator_confirms t_rapi t_sapi 9 sample_id (example_town CPendingInitiatorApproval)))))
    = \<lparr>mt_rows = [(sample_req CPendingTargetApproval)\<lparr>cr_updated_at := 9, cr_target_notified_at := Some 9\<rparr>], mt_down = False\<rparr>"
  by (simp_all add: example_town_def hs_eval mem_eval io_bind_def io_lift_def io_catch_def on_db_def get_state_def
      get_networking_state_def put_cache_def decode_stored_def new_state_def)

lemma tools_move_requests_forward_witness:
  "\<exists>q'. t_rtbl (mg_db (snd (confirm_connection_request example_services 9 sample_id (example_town CPendingInitiatorApproval)))) sample_id = Some q'
    \<and> cr_target q' = ''t'' \<and> status_path CPendingInitiatorApproval (cr_status q')"
proof -
  let ?m = "example_town CPendingInitiatorApproval"
  have m: "\<lparr>mg_db = mg_db x, mg_cache = mg_cache x\<rparr> = x" for x :: "town mgr" by simp
  have "tool_call example_services \<lparr>mg_db = mg_db ?m, mg_cache = mg_cache ?m\<rparr> (snd (confirm_connection_request example_services 9 sample_id ?m))"
    unfolding m by (rule tool_call.intros(6))
  from tool_step [OF tool_none this]
  have "tool_run example_services (mg_db ?m) (mg_db (snd (confirm_connection_request example_services 9 sample_id ?m)))" .
  from tools_move_requests_forward [OF tw.tool_store_axioms this, of sample_id "sample_req CPendingInitiatorApproval"] show ?thesis
    by (auto simp: example_rows)
qed

lemma invitation_is_lost_witness:
  "\<exists>q. fst (confirm_and_send_invitation example_services 9 sample_id ''Ann'' (example_town CPendingInitiatorApproval))
        = Inl ''Request confirmed but failed to generate invitation message''
     \<and> fst (confirm_and_send_invitation example_services 11 sample_id ''Ann''
         (snd (initiator_confirms t_rapi t_sapi 9 sample_id (example_town CPendingInitiatorApproval)))) = Inr (already_confirmed sample_id q)"
proof -
  let ?m = "example_town CPendingInitiatorApproval" and ?m3 = "snd (initiator_confirms t_rapi t_sapi 9 sample_id (example_town CPendingInitiatorApproval))"
  have u: "on_db (sv_user example_services u) m = (Inr (te_users example_tenv u), m)" for u m by (simp add: town_services_def on_db_def)
  have i: "on_db (sv_invitation example_services a b c) m = (Inr None, m)" for a b c m
    by (simp add: town_services_def on_db_def example_tenv_def)
  have "\<not> mt_down (w_reqs (tn_world (mg_db ?m3)))" by (simp add: example_steps(2))
  from town_select [OF this] obtain rs d where sel: "tb_select t_rapi (\<lambda>r. cr_id r = sample_id) (mg_db ?m3) = (Inr rs, d)" by blast
  have st: "cr_status (sample_req CPendingInitiatorApproval) = CPendingInitiatorApproval" "cr_target (sample_req CPendingInitiatorApproval) \<noteq> []" by simp_all
  have ph: "tu_phone (the (te_users example_tenv ''t'')) = Some ''a@b.co''" by (simp add: example_tenv_def)
  have t: "on_db (sv_user example_services (cr_target (sample_req CPendingInitiatorApproval))) ?m = (Inr (Some (the (te_users example_tenv ''t''))), ?m)"
    using u [of "''t''" ?m] by (simp add: example_tenv_def)
  note lost = invitation_is_lost [OF tw.tool_store_axioms example_find st t ph _ example_steps(1) i sel, where name = "''Ann''" and name' = "''Ann''" and now' = 11]
  have n: "''a@b.co'' \<noteq> []" by simp
  show ?thesis
    by (rule exI, rule conjI, subst conjunct1 [OF lost [OF n]], rule fst_conv, subst conjunct2 [OF lost [OF n]], rule fst_conv)
qed

definition joined_req :: conn_req where
  "joined_req = (sample_req CTargetAccepted)\<lparr>cr_group_chat_guid := Some ''g''\<rparr>"

lemma joined_request_is_never_marked_witness:
  "t_rtbl (mg_db (snd (tool_create_group_chat example_services 9 sample_id None
      \<lparr>mg_db = \<lparr>tn_world = \<lparr>w_reqs = \<lparr>mt_rows = [joined_req], mt_down = False\<rparr>,
        w_states = \<lparr>mt_rows = [], mt_down = False\<rparr>\<rparr>, tn_group = example_pworld, tn_stored = []\<rparr>, mg_cache = Map.empty\<rparr>))) sample_id
    = Some joined_req"
  by (subst joined_request_is_never_marked [OF tw.tool_store_axioms, where r = joined_req])
    (simp_all add: mem_tbl_def rows_map_def, simp_all add: joined_req_def)


lemma example_declines:
  "fst (target_declines t_rapi t_sapi 9 sample_id None (example_town CPendingTargetApproval))
    = Inr ((sample_req CTargetDeclined)\<lparr>cr_updated_at := 9, cr_target_responded_at := Some 9\<rparr>)"
  by (simp add: example_town_def hs_eval mem_eval io_bind_def io_lift_def io_catch_def on_db_def get_state_def
      get_networking_state_def put_cache_def decode_stored_def new_state_def)

lemma second_response_changes_nothing_witness:
  "t_rtbl (mg_db (snd (target_responds example_services 9 sample_id True None
      \<lparr>mg_db = mg_db (snd (target_responds example_services 9 sample_id False None (example_town CPendingTargetApproval))), mg_cache = Map.empty\<rparr>))) =
   t_rtbl (mg_db (snd (target_responds example_services 9 sample_id False None (example_town CPendingTargetApproval))))"
proof -
  let ?m = "example_town CPendingTargetApproval"
  have s: "sv_reqs example_services = t_rapi" "sv_states example_services = t_sapi" by (simp_all add: town_services_def)
  obtain r m2 where a: "target_declines t_rapi t_sapi 9 sample_id None ?m = (Inr r, m2)"
    using example_declines by (cases "target_declines t_rapi t_sapi 9 sample_id None ?m") auto
  have "\<exists>d. fst (target_responds example_services 9 sample_id False None ?m) = Inr d"
    using a example_find [of CPendingTargetApproval] by (simp add: target_responds_def tool_try_def io_bind_def answer_def s tw.valid_request)
  then obtain d where "fst (target_responds example_services 9 sample_id False None ?m) = Inr d" by blast
  then have "target_responds example_services 9 sample_id False None ?m = (Inr d, snd (target_responds example_services 9 sample_id False None ?m))"
    by (cases "target_responds example_services 9 sample_id False None ?m") simp
  then show ?thesis by (rule second_response_changes_nothing [OF tw.tool_store_axioms])
qed

lemma excluded_are_the_connected_witness:
  "\<exists>us. fst (get_users_to_exclude example_services ''u'' (example_town CTargetAccepted)) = (Inr us :: conn_error + string list) \<and> set us = {''t''}"
proof -
  let ?m = "example_town CTargetAccepted"
  let ?C = "\<lambda>u r. active_status (cr_status r) \<and> (cr_initiator r = ''u'' \<and> cr_target r = u \<or> cr_target r = ''u'' \<and> cr_initiator r = u)"
  obtain res :: "conn_error + string list" and m' where g: "get_users_to_exclude example_services ''u'' ?m = (res, m')" by fastforce
  from excluded_are_the_connected [OF tw.tool_store_axioms g example_select example_select]
  obtain us where us: "res = Inr us" "set us = {u. u \<noteq> [] \<and> (\<exists>r \<in> ran (t_rtbl (mg_db ?m)). ?C u r)}" by blast
  have "ran (t_rtbl (mg_db ?m)) = {sample_req CTargetAccepted}" unfolding example_rows by simp
  then have "set us = {u. u \<noteq> [] \<and> ?C u (sample_req CTargetAccepted)}" unfolding us(2) by (simp only: bex_simps simp_thms)
  then have "set us = {''t''}" by (simp only: example_req) (auto simp: active_status_def)
  with us(1) g show ?thesis by (intro exI [of _ us]) simp
qed


abbreviation example_group :: "pworld" where
  "example_group \<equiv> snd (create_group (example_penv True) ''+16463707933'' ''a@b.co'' ''Ann'' ''Ben'' (Some sample_id) (Some ''u'') (Some ''t'') None [] example_pworld)"

lemma example_first_group:
  "create_group (example_penv True) ''+16463707933'' ''a@b.co'' ''Ann'' ''Ben'' (Some sample_id) (Some ''u'') (Some ''t'') university [] example_pworld
    = (Inr (''chat1'', ''hi'', Some \<lparr>gr_guid = ''chat1'', gr_name = Some ''Ann & Ben'', gr_count = 2, gr_request = Some sample_id\<rparr>), example_group)"
proof -
  have w: "truthy_str (pe_welcome (example_penv True))" by (simp add: example_penv_def)
  have "create_group (example_penv True) ''+16463707933'' ''a@b.co'' ''Ann'' ''Ben'' (Some sample_id) (Some ''u'') (Some ''t'') university [] example_pworld
    = create_group (example_penv True) ''+16463707933'' ''a@b.co'' ''Ann'' ''Ben'' (Some sample_id) (Some ''u'') (Some ''t'') None [] example_pworld"
    by (simp add: create_group_def w)
  with example_create [of True "Some sample_id" "CHR ''u''" "[]" "CHR ''t''" "[]" None "[]"] show ?thesis
    by (metis prod.collapse)
qed

lemma example_users [simp]:
  "te_users example_tenv ''u'' = Some \<lparr>tu_id = ''u'', tu_name = Some ''Ann'', tu_phone = Some ''+16463707933'', tu_email = None,
     tu_university = None, tu_major = None, tu_interests = [], tu_facts = [], tu_located = False, tu_metadata = None\<rparr>"
  "te_users example_tenv ''t'' = Some \<lparr>tu_id = ''t'', tu_name = Some ''Ben'', tu_phone = Some ''a@b.co'', tu_email = None,
     tu_university = None, tu_major = None, tu_interests = [], tu_facts = [], tu_located = False, tu_metadata = None\<rparr>"
  "te_group example_tenv = example_penv True"
  by (simp_all add: example_tenv_def)

lemma group_is_created_without_consent_witness:
  "\<exists>err. fst (tool_create_group_chat example_services 9 sample_id None (example_town CTargetDeclined)) = Inl err
    \<and> tn_group (mg_db (snd (tool_create_group_chat example_services 9 sample_id None (example_town CTargetDeclined)))) = example_group"
proof -
  let ?m = "example_town CTargetDeclined"
  have g: "tn_group (mg_db ?m) = example_pworld" by (simp add: example_town_def)
  have n: "get_group_chat_for_users hd (pe_up (te_group example_tenv)) (cr_initiator (sample_req CTargetDeclined)) (cr_target (sample_req CTargetDeclined))
      (tn_group (mg_db ?m)) = None"
    by (simp add: g get_group_chat_for_users_def example_pworld_def chats_of_user_def)
  have u: "te_users example_tenv (cr_initiator (sample_req CTargetDeclined)) = Some (the (te_users example_tenv ''u''))"
    "te_users example_tenv (cr_target (sample_req CTargetDeclined)) = Some (the (te_users example_tenv ''t''))" by simp_all
  have h: "\<not> truthy_str (cr_group_chat_guid (sample_req CTargetDeclined))" "\<not> cr_is_multi (sample_req CTargetDeclined)"
    "cr_status (sample_req CTargetDeclined) \<noteq> CTargetAccepted"
    "truthy_str (tu_phone (the (te_users example_tenv ''u'')))" "truthy_str (tu_phone (the (te_users example_tenv ''t'')))" by simp_all
  have c: "create_group (te_group example_tenv) (the (tu_phone (the (te_users example_tenv ''u'')))) (the (tu_phone (the (te_users example_tenv ''t''))))
      (or_str (tu_name (the (te_users example_tenv ''u''))) []) (or_str (tu_name (the (te_users example_tenv ''t''))) [])
      (Some (cr_id (sample_req CTargetDeclined))) (Some (cr_initiator (sample_req CTargetDeclined))) (Some (cr_target (sample_req CTargetDeclined)))
      university (cr_reasons (sample_req CTargetDeclined)) (tn_group (mg_db ?m))
    = (Inr (''chat1'', ''hi'', Some \<lparr>gr_guid = ''chat1'', gr_name = Some ''Ann & Ben'', gr_count = 2, gr_request = Some sample_id\<rparr>), example_group)"
    for university
  proof -
    have a: "te_group example_tenv = example_penv True" by simp
    have b: "the (tu_phone (the (te_users example_tenv ''u''))) = ''+16463707933''" "the (tu_phone (the (te_users example_tenv ''t''))) = ''a@b.co''"
      "or_str (tu_name (the (te_users example_tenv ''u''))) [] = ''Ann''" "or_str (tu_name (the (te_users example_tenv ''t''))) [] = ''Ben''" by simp_all
    show ?thesis unfolding a b g example_req by (rule example_first_group)
  qed
  from group_is_created_without_consent [OF valid_sample_id example_find h(1,2,3) u(1) h(4) u(2) h(5) n c, where given = None and now = 9]
  show ?thesis by blast
qed


lemma example_marks:
  "\<exists>q. fst (mark_group_created t_rapi t_sapi 9 sample_id ''chat1''
     ((example_town CTargetAccepted)\<lparr>mg_db := (mg_db (example_town CTargetAccepted))\<lparr>tn_group := g\<rparr>\<rparr>)) = Inr q"
  by (simp add: example_town_def hs_eval mem_eval io_bind_def io_lift_def io_catch_def on_db_def get_state_def
      get_networking_state_def put_cache_def decode_stored_def new_state_def)

lemma example_creates:
  assumes "tn_group (mg_db m) = example_pworld"
  shows "on_db (sv_create example_services (the (te_users example_tenv ''u'')) (the (te_users example_tenv ''t'')) university (sample_req st)) m
    = (Inr ''chat1'', m\<lparr>mg_db := (mg_db m)\<lparr>tn_group := example_group\<rparr>\<rparr>)"
proof -
  let ?a = "the (te_users example_tenv ''u'')" and ?b = "the (te_users example_tenv ''t'')" and ?r = "sample_req st"
  have e: "te_group example_tenv = example_penv True" by simp
  have b: "or_str (tu_phone ?a) [] = ''+16463707933''" "or_str (tu_phone ?b) [] = ''a@b.co''"
    "or_str (tu_name ?a) [] = ''Ann''" "or_str (tu_name ?b) [] = ''Ben''" by simp_all
  have sv: "sv_create example_services ?a ?b university ?r = io_bind (on_group (te_group example_tenv)
      (create_group (te_group example_tenv) (or_str (tu_phone ?a) []) (or_str (tu_phone ?b) []) (or_str (tu_name ?a) []) (or_str (tu_name ?b) [])
         (Some (cr_id ?r)) (Some (cr_initiator ?r)) (Some (cr_target ?r)) university (cr_reasons ?r))) (\<lambda>x. io_return (fst x))"
    by (simp add: town_services_def)
  have "sv_create example_services ?a ?b university ?r (mg_db m) = (Inr ''chat1'', (mg_db m)\<lparr>tn_group := example_group\<rparr>)"
    unfolding sv io_bind_def on_group_def b e example_req assms example_first_group [of university] by (simp add: io_return_def)
  then show ?thesis by (simp add: on_db_def)
qed

lemma first_group_is_reported_failed_witness:
  "\<exists>e q m6. tool_create_group_chat example_services 9 sample_id None (example_town CTargetAccepted) = (Inl e, m6)
    \<and> cr_status q = CGroupCreated \<and> t_rtbl (mg_db m6) sample_id = Some q"
proof -
  let ?m = "example_town CTargetAccepted" and ?r = "sample_req CTargetAccepted"
  let ?m5 = "?m\<lparr>mg_db := (mg_db ?m)\<lparr>tn_group := example_group\<rparr>\<rparr>"
  let ?a = "the (te_users example_tenv ''u'')" and ?b = "the (te_users example_tenv ''t'')"
  have g: "tn_group (mg_db ?m) = example_pworld" by (simp add: example_town_def)
  have n: "on_db (sv_shared example_services (cr_initiator ?r) (cr_target ?r)) ?m = (Inr None, ?m)"
    by (simp add: town_services_def on_db_def group_read_def g get_group_chat_for_users_def example_pworld_def chats_of_user_def)
  have u: "on_db (sv_user example_services (cr_initiator ?r)) ?m = (Inr (Some ?a), ?m)"
    "on_db (sv_user example_services (cr_target ?r)) ?m = (Inr (Some ?b), ?m)" by (simp_all add: town_services_def on_db_def)
  have h: "\<not> truthy_str (cr_group_chat_guid ?r)" "\<not> cr_is_multi ?r" "truthy_str (tu_phone ?a)" "truthy_str (tu_phone ?b)"
    "\<not> json_truthy (map_of (tu_facts ?a) ''first_networking_completed'')" by simp_all
  note c = example_creates [of ?m, OF g]
  obtain q m6 where q: "mark_group_created t_rapi t_sapi 9 sample_id ''chat1'' ?m5 = (Inr q, m6)"
    using example_marks [of example_group] by (cases "mark_group_created t_rapi t_sapi 9 sample_id ''chat1'' ?m5") auto
  from first_group_is_reported_failed [OF tw.tool_store_axioms valid_sample_id example_find h(1,2) n u(1) h(3) u(2) h(4,5) c q, where given = None]
  show ?thesis by blast
qed

end
