(* ===== verification/Op_Queue.thy ===== *)
theory Op_Queue
  imports Frank_Prelude
begin

text \<open>
  The operation queue of app/agents/queue/async_processor.py. An operation is an object that the
  dictionary \<open>_operations\<close> and the queue both refer to, so the objects live in a store and the
  dictionary and the queue hold their ids. The handlers and the completion callbacks are
  parameters; a callback's errors are swallowed by the code, so a callback only changes the world.
  Times are in milliseconds.
\<close>

section \<open>Operations\<close>

datatype op_status = OpPending | OpProcessing | OpCompleted | OpFailed | OpExpired

fun op_status_value :: "op_status \<Rightarrow> string" where
  "op_status_value OpPending = ''pending''"
| "op_status_value OpProcessing = ''processing''"
| "op_status_value OpCompleted = ''completed''"
| "op_status_value OpFailed = ''failed''"
| "op_status_value OpExpired = ''expired''"

record operation =
  op_id :: string
  op_type :: string
  op_user :: string
  op_payload :: dict
  op_status :: op_status
  op_result :: "dict option"
  op_error :: "string option"
  op_created_at :: int
  op_completed_at :: "int option"
  op_expires_at :: int
  op_on_complete :: bool \<comment> \<open>a callback was given\<close>

definition new_operation :: "int \<Rightarrow> string \<Rightarrow> string \<Rightarrow> string \<Rightarrow> dict \<Rightarrow> bool \<Rightarrow> operation" where
  "new_operation now i ty user payload cb = \<lparr>op_id = i, op_type = ty, op_user = user, op_payload = payload,
     op_status = OpPending, op_result = None, op_error = None, op_created_at = now, op_completed_at = None,
     op_expires_at = now + 3600000, op_on_complete = cb\<rparr>"

definition op_to_dict :: "operation \<Rightarrow> dict" where
  "op_to_dict o' = [
     (''operation_id'', JStr (op_id o')),
     (''operation_type'', JStr (op_type o')),
     (''user_id'', JStr (op_user o')),
     (''status'', JStr (op_status_value (op_status o'))),
     (''result'', case op_result o' of None \<Rightarrow> JNull | Some d \<Rightarrow> JObj d),
     (''error'', json_opt_str (op_error o')),
     (''created_at'', JTime (op_created_at o')),
     (''completed_at'', case op_completed_at o' of None \<Rightarrow> JNull | Some t \<Rightarrow> JTime t)]"

section \<open>The processor\<close>

text \<open>\<open>pc_calls\<close> records the callbacks that were invoked: the operation as it was then.\<close>

record processor =
  pc_objects :: "string \<rightharpoonup> operation"
  pc_operations :: "string list" \<comment> \<open>the keys of \<open>_operations\<close>, in order\<close>
  pc_queue :: "string list"
  pc_handlers :: "string list" \<comment> \<open>the registered types\<close>
  pc_calls :: "operation list"

definition new_processor :: processor where
  "new_processor = \<lparr>pc_objects = Map.empty, pc_operations = [], pc_queue = [], pc_handlers = [], pc_calls = []\<rparr>"

definition register_handler :: "string \<Rightarrow> processor \<Rightarrow> processor" where
  "register_handler ty pc = (if ty \<in> set (pc_handlers pc) then pc else pc\<lparr>pc_handlers := pc_handlers pc @ [ty]\<rparr>)"

text \<open>
  \<open>queue_operation\<close>; \<open>i\<close> is the fresh UUID. The ValueError holds the type and the available types
  that its text names.
\<close>

definition queue_operation :: "int \<Rightarrow> string \<Rightarrow> string \<Rightarrow> string \<Rightarrow> dict \<Rightarrow> bool \<Rightarrow> processor \<Rightarrow> (string \<times> string list + string) \<times> processor" where
  "queue_operation now i ty user payload cb pc =
     (if ty \<notin> set (pc_handlers pc) then (Inl (ty, pc_handlers pc), pc)
      else (Inr i, pc\<lparr>pc_objects := (pc_objects pc)(i \<mapsto> new_operation now i ty user payload cb),
              pc_operations := pc_operations pc @ [i], pc_queue := pc_queue pc @ [i]\<rparr>))"

definition get_operation_status :: "string \<Rightarrow> processor \<Rightarrow> dict" where
  "get_operation_status i pc =
     (if i \<in> set (pc_operations pc)
      then (case pc_objects pc i of Some o' \<Rightarrow> op_to_dict o' | None \<Rightarrow> [])
      else [(''status'', JStr ''not_found''), (''operation_id'', JStr i)])"

definition get_pending_operations_for_user :: "string \<Rightarrow> string option \<Rightarrow> processor \<Rightarrow> dict list" where
  "get_pending_operations_for_user user ty pc =
     map op_to_dict (filter (\<lambda>o'. op_user o' = user \<and> op_status o' \<in> {OpPending, OpProcessing}
         \<and> (truthy_str ty \<longrightarrow> op_type o' = the ty))
       (List.map_filter (pc_objects pc) (pc_operations pc)))"

definition set_object :: "operation \<Rightarrow> processor \<Rightarrow> processor" where
  "set_object o' pc = pc\<lparr>pc_objects := (pc_objects pc)(op_id o' \<mapsto> o')\<rparr>"

definition invoke_callback :: "operation \<Rightarrow> processor \<Rightarrow> processor" where
  "invoke_callback o' pc = (if op_on_complete o' then pc\<lparr>pc_calls := pc_calls pc @ [o']\<rparr> else pc)"

text \<open>
  One turn of the processing loop, in two steps, because other coroutines run while the handler
  does: taking an operation from the queue, and its end. A missing handler ends it at once.
\<close>

definition take_operation :: "int \<Rightarrow> processor \<Rightarrow> string option \<times> processor" where
  "take_operation now pc = (case pc_queue pc of [] \<Rightarrow> (None, pc)
     | i # q \<Rightarrow> (case pc_objects pc i of None \<Rightarrow> (None, pc\<lparr>pc_queue := q\<rparr>)
       | Some o' \<Rightarrow>
         (if op_type o' \<notin> set (pc_handlers pc)
          then (let o1 = o'\<lparr>op_status := OpFailed, op_error := Some (''Unknown operation type: '' @ op_type o'),
                           op_completed_at := Some now\<rparr>
                in (None, invoke_callback o1 (set_object o1 (pc\<lparr>pc_queue := q\<rparr>))))
          else (Some i, set_object (o'\<lparr>op_status := OpProcessing\<rparr>) (pc\<lparr>pc_queue := q\<rparr>)))))"

definition finished :: "int \<Rightarrow> string + dict \<Rightarrow> operation \<Rightarrow> operation" where
  "finished now res o' = (case res of
     Inr d \<Rightarrow> o'\<lparr>op_status := OpCompleted, op_result := Some d, op_completed_at := Some now\<rparr>
   | Inl e \<Rightarrow> o'\<lparr>op_status := OpFailed, op_error := Some e, op_completed_at := Some now\<rparr>)"

definition end_operation :: "int \<Rightarrow> string \<Rightarrow> string + dict \<Rightarrow> processor \<Rightarrow> processor" where
  "end_operation now i res pc = (case pc_objects pc i of None \<Rightarrow> pc
     | Some o' \<Rightarrow> invoke_callback (finished now res o') (set_object (finished now res o') pc))"

definition cleanup_expired :: "int \<Rightarrow> processor \<Rightarrow> processor" where
  "cleanup_expired now pc = pc\<lparr>pc_operations := filter (\<lambda>i. case pc_objects pc i of
     None \<Rightarrow> True | Some o' \<Rightarrow> \<not> op_expires_at o' < now) (pc_operations pc)\<rparr>"

section \<open>Runs\<close>

text \<open>The processor with the operation whose handler is running, and the ids queued so far.\<close>

record qrun =
  qr_pc :: processor
  qr_current :: "string option"
  qr_queued :: "string list"
  qr_ended :: "string list"

inductive q_step :: "qrun \<Rightarrow> qrun \<Rightarrow> bool" where
  qs_queue: "i \<notin> dom (pc_objects (qr_pc r)) \<Longrightarrow> ty \<in> set (pc_handlers (qr_pc r)) \<Longrightarrow>
     q_step r (r\<lparr>qr_pc := snd (queue_operation now i ty user payload cb (qr_pc r)), qr_queued := qr_queued r @ [i]\<rparr>)"
| qs_take: "qr_current r = None \<Longrightarrow> pc_queue (qr_pc r) = i # q \<Longrightarrow> take_operation now (qr_pc r) = (cur, pc) \<Longrightarrow>
     q_step r (r\<lparr>qr_pc := pc, qr_current := cur, qr_ended := (if cur = None then qr_ended r @ [i] else qr_ended r)\<rparr>)"
| qs_end: "qr_current r = Some i \<Longrightarrow>
     q_step r (r\<lparr>qr_pc := end_operation now i res (qr_pc r), qr_current := None, qr_ended := qr_ended r @ [i]\<rparr>)"
| qs_cleanup: "q_step r (r\<lparr>qr_pc := cleanup_expired now (qr_pc r)\<rparr>)"
| qs_register: "q_step r (r\<lparr>qr_pc := register_handler ty (qr_pc r)\<rparr>)"

inductive q_run :: "qrun \<Rightarrow> qrun \<Rightarrow> bool" where
  qr_none: "q_run r r"
| qr_step: "q_run r q \<Longrightarrow> q_step q p \<Longrightarrow> q_run r p"

definition fresh_qrun :: qrun where
  "fresh_qrun = \<lparr>qr_pc = new_processor, qr_current = None, qr_queued = [], qr_ended = []\<rparr>"

section \<open>The invariant\<close>

definition op_ended :: "operation \<Rightarrow> bool" where
  "op_ended o' \<longleftrightarrow> (op_status o' = OpCompleted \<and> op_result o' \<noteq> None \<and> op_error o' = None
     \<or> op_status o' = OpFailed \<and> op_error o' \<noteq> None \<and> op_result o' = None) \<and> op_completed_at o' \<noteq> None"

definition cur_list :: "string option \<Rightarrow> string list" where
  "cur_list c = (case c of None \<Rightarrow> [] | Some i \<Rightarrow> [i])"

definition blank_op :: "operation \<Rightarrow> bool" where
  "blank_op o' \<longleftrightarrow> op_result o' = None \<and> op_error o' = None"

text \<open>The order, the objects, and the callbacks.\<close>

definition q_order :: "qrun \<Rightarrow> bool" where
  "q_order r \<longleftrightarrow> qr_ended r @ cur_list (qr_current r) @ pc_queue (qr_pc r) = qr_queued r \<and> distinct (qr_queued r)
     \<and> dom (pc_objects (qr_pc r)) = set (qr_queued r)"

definition object_ok :: "qrun \<Rightarrow> string \<Rightarrow> operation \<Rightarrow> bool" where
  "object_ok r i o' \<longleftrightarrow> op_id o' = i
     \<and> (i \<in> set (pc_queue (qr_pc r)) \<longrightarrow> op_status o' = OpPending \<and> blank_op o')
     \<and> (qr_current r = Some i \<longrightarrow> op_status o' = OpProcessing \<and> blank_op o')
     \<and> (i \<in> set (qr_ended r) \<longrightarrow> op_ended o')"

definition ended_ops :: "qrun \<Rightarrow> operation list" where
  "ended_ops r = map (\<lambda>i. the (pc_objects (qr_pc r) i)) (qr_ended r)"

definition q_inv :: "qrun \<Rightarrow> bool" where
  "q_inv r \<longleftrightarrow> q_order r \<and> (\<forall>i o'. pc_objects (qr_pc r) i = Some o' \<longrightarrow> object_ok r i o')
     \<and> pc_calls (qr_pc r) = filter op_on_complete (ended_ops r)"

lemma q_inv_fresh: "q_inv fresh_qrun"
  by (simp add: q_inv_def q_order_def ended_ops_def fresh_qrun_def new_processor_def cur_list_def)

lemma q_object: "q_inv r \<Longrightarrow> pc_objects (qr_pc r) i = Some o' \<Longrightarrow> object_ok r i o'"
  and q_order: "q_inv r \<Longrightarrow> q_order r"
  by (simp_all add: q_inv_def)

lemma q_parts:
  assumes "q_inv r"
  shows "set (qr_queued r) = set (qr_ended r) \<union> set (cur_list (qr_current r)) \<union> set (pc_queue (qr_pc r))"
    and "distinct (qr_ended r @ cur_list (qr_current r) @ pc_queue (qr_pc r))"
    and "pc_objects (qr_pc r) i = None \<longleftrightarrow> i \<notin> set (qr_queued r)"
proof -
  have order: "qr_queued r = qr_ended r @ cur_list (qr_current r) @ pc_queue (qr_pc r)" "distinct (qr_queued r)"
    and dom: "dom (pc_objects (qr_pc r)) = set (qr_queued r)"
    using assms by (auto simp: q_inv_def q_order_def)
  then show "set (qr_queued r) = set (qr_ended r) \<union> set (cur_list (qr_current r)) \<union> set (pc_queue (qr_pc r))"
    "distinct (qr_ended r @ cur_list (qr_current r) @ pc_queue (qr_pc r))" by (metis set_append sup_assoc, metis)
  show "pc_objects (qr_pc r) i = None \<longleftrightarrow> i \<notin> set (qr_queued r)" using dom by blast
qed

text \<open>Writing an object that has not ended leaves those that have.\<close>

lemma ended_ops_upd:
  assumes "i \<notin> set (qr_ended r)" "pc_objects pc = (pc_objects (qr_pc r))(i \<mapsto> x)"
  shows "map (\<lambda>j. the (pc_objects pc j)) (qr_ended r) = ended_ops r"
  unfolding ended_ops_def using assms by (intro map_cong) auto

lemma q_inv_queue:
  assumes inv: "q_inv r" and new: "i \<notin> dom (pc_objects (qr_pc r))" and ty: "ty \<in> set (pc_handlers (qr_pc r))"
  shows "q_inv (r\<lparr>qr_pc := snd (queue_operation now i ty user payload cb (qr_pc r)), qr_queued := qr_queued r @ [i]\<rparr>)"
    (is "q_inv ?r")
proof -
  have q: "i \<notin> set (qr_queued r)" using q_parts(3) [OF inv, of i] new by auto
  then have "i \<notin> set (qr_ended r)" "i \<notin> set (cur_list (qr_current r))" "i \<notin> set (pc_queue (qr_pc r))"
    unfolding q_parts(1) [OF inv] by simp_all
  then have out: "i \<notin> set (qr_ended r)" "i \<notin> set (pc_queue (qr_pc r))" "qr_current r \<noteq> Some i"
    by (simp_all add: cur_list_def split: option.splits)
  have pc: "pc_objects (qr_pc ?r) = (pc_objects (qr_pc r))(i \<mapsto> new_operation now i ty user payload cb)"
    "pc_queue (qr_pc ?r) = pc_queue (qr_pc r) @ [i]" "pc_calls (qr_pc ?r) = pc_calls (qr_pc r)"
    using ty by (simp_all add: queue_operation_def)
  have "q_order ?r" using q_order [OF inv] q pc by (auto simp: q_order_def)
  moreover have "object_ok ?r j o'" if "pc_objects (qr_pc ?r) j = Some o'" for j o'
    using that q_object [OF inv] out pc by (auto simp: object_ok_def new_operation_def blank_op_def split: if_splits)
  moreover have "ended_ops ?r = ended_ops r"
    using ended_ops_upd [OF out(1) pc(1)] by (simp add: ended_ops_def)
  ultimately show ?thesis using inv pc(3) by (simp add: q_inv_def)
qed

text \<open>An operation ends: its object is final, the callback sees it, and it leaves the head.\<close>

lemma q_inv_finish:
  assumes inv: "q_inv r" and fin: "op_ended o1" "op_id o1 = i"
    and head: "cur_list (qr_current r) @ pc_queue (qr_pc r) = i # q"
  shows "q_inv (r\<lparr>qr_pc := invoke_callback o1 (set_object o1 ((qr_pc r)\<lparr>pc_queue := q\<rparr>)), qr_current := None,
      qr_ended := qr_ended r @ [i]\<rparr>)" (is "q_inv ?r")
proof -
  have order: "qr_ended r @ i # q = qr_queued r" "distinct (qr_ended r @ i # q)"
    using inv q_parts(2) [OF inv] head by (simp_all add: q_inv_def q_order_def)
  have out: "i \<notin> set (qr_ended r)" "i \<notin> set q" using order(2) by simp_all
  have mem: "i \<in> set (qr_queued r)" using order(1) by (metis in_set_conv_decomp)
  have pc: "pc_objects (qr_pc ?r) = (pc_objects (qr_pc r))(i \<mapsto> o1)" "pc_queue (qr_pc ?r) = q"
    "pc_calls (qr_pc ?r) = pc_calls (qr_pc r) @ (if op_on_complete o1 then [o1] else [])"
    using fin(2) by (simp_all add: invoke_callback_def set_object_def)
  have sub: "set q \<subseteq> set (pc_queue (qr_pc r))" using head by (auto simp: cur_list_def split: option.splits)
  have "q_order ?r" using q_order [OF inv] order mem pc by (auto simp: q_order_def cur_list_def)
  moreover have "object_ok ?r j o'" if "pc_objects (qr_pc ?r) j = Some o'" for j o'
    using that q_object [OF inv] out sub pc fin by (auto simp: object_ok_def split: if_splits)
  moreover have "ended_ops ?r = ended_ops r @ [o1]"
    using ended_ops_upd [OF out(1) pc(1)] pc(1) by (simp add: ended_ops_def)
  ultimately show ?thesis using inv pc(3) by (simp add: q_inv_def)
qed

lemma q_inv_start:
  assumes inv: "q_inv r" and o': "pc_objects (qr_pc r) i = Some o'"
    and cur: "qr_current r = None" "pc_queue (qr_pc r) = i # q"
  shows "q_inv (r\<lparr>qr_pc := set_object (o'\<lparr>op_status := OpProcessing\<rparr>) ((qr_pc r)\<lparr>pc_queue := q\<rparr>), qr_current := Some i\<rparr>)"
    (is "q_inv ?r")
proof -
  have ok: "object_ok r i o'" using inv o' by (simp add: q_inv_def)
  then have id: "op_id o' = i" "blank_op o'" using cur by (simp_all add: object_ok_def)
  have order: "qr_ended r @ i # q = qr_queued r" "distinct (qr_ended r @ i # q)"
    using inv q_parts(2) [OF inv] cur by (simp_all add: q_inv_def q_order_def cur_list_def)
  have out: "i \<notin> set (qr_ended r)" "i \<notin> set q" using order(2) by simp_all
  have mem: "i \<in> set (qr_queued r)" using order(1) by (metis in_set_conv_decomp)
  have pc: "pc_objects (qr_pc ?r) = (pc_objects (qr_pc r))(i \<mapsto> o'\<lparr>op_status := OpProcessing\<rparr>)" "pc_queue (qr_pc ?r) = q"
    "pc_calls (qr_pc ?r) = pc_calls (qr_pc r)"
    using id(1) by (simp_all add: set_object_def)
  have "q_order ?r" using q_order [OF inv] order mem pc by (auto simp: q_order_def cur_list_def)
  moreover have "object_ok ?r j x" if "pc_objects (qr_pc ?r) j = Some x" for j x
    using that q_object [OF inv] out pc cur id by (auto simp: object_ok_def blank_op_def split: if_splits)
  moreover have "ended_ops ?r = ended_ops r"
    using ended_ops_upd [OF out(1) pc(1)] by (simp add: ended_ops_def)
  ultimately show ?thesis using inv pc(3) by (simp add: q_inv_def)
qed

lemma finished_ended: "blank_op o' \<Longrightarrow> op_ended (finished now res o') \<and> op_id (finished now res o') = op_id o'"
  by (cases res) (auto simp: finished_def op_ended_def blank_op_def)

lemma q_inv_end:
  assumes inv: "q_inv r" and cur: "qr_current r = Some i"
  shows "q_inv (r\<lparr>qr_pc := end_operation now i res (qr_pc r), qr_current := None, qr_ended := qr_ended r @ [i]\<rparr>)"
proof -
  have "i \<in> set (qr_queued r)" using q_parts(1) [OF inv] cur by (simp add: cur_list_def)
  then obtain o' where o': "pc_objects (qr_pc r) i = Some o'" using q_parts(3) [OF inv, of i] by auto
  then have "object_ok r i o'" using inv by (simp add: q_inv_def)
  then have o: "op_id o' = i" "blank_op o'" using cur by (simp_all add: object_ok_def)
  have "q_inv (r\<lparr>qr_pc := invoke_callback (finished now res o') (set_object (finished now res o')
      ((qr_pc r)\<lparr>pc_queue := pc_queue (qr_pc r)\<rparr>)), qr_current := None, qr_ended := qr_ended r @ [i]\<rparr>)"
    by (rule q_inv_finish [OF inv]) (use finished_ended [OF o(2)] o(1) cur in \<open>simp_all add: cur_list_def\<close>)
  with o' show ?thesis by (simp add: end_operation_def)
qed

lemma q_inv_take:
  assumes inv: "q_inv r" and cur: "qr_current r = None" "pc_queue (qr_pc r) = i # q"
    and take: "take_operation now (qr_pc r) = (c, pc)"
  shows "q_inv (r\<lparr>qr_pc := pc, qr_current := c, qr_ended := (if c = None then qr_ended r @ [i] else qr_ended r)\<rparr>)"
proof -
  have "i \<in> set (qr_queued r)" using q_parts(1) [OF inv] cur by simp
  then obtain o' where o': "pc_objects (qr_pc r) i = Some o'" using q_parts(3) [OF inv, of i] by auto
  then have "object_ok r i o'" using inv by (simp add: q_inv_def)
  then have id: "op_id o' = i" "blank_op o'" using cur by (simp_all add: object_ok_def)
  show ?thesis
  proof (cases "op_type o' \<in> set (pc_handlers (qr_pc r))")
    case True
    with q_inv_start [OF inv o' cur] take cur o' show ?thesis by (auto simp: take_operation_def)
  next
    case False
    let ?o = "o'\<lparr>op_status := OpFailed, op_error := Some (''Unknown operation type: '' @ op_type o'), op_completed_at := Some now\<rparr>"
    have "op_ended ?o" "op_id ?o = i" using id by (simp_all add: op_ended_def blank_op_def)
    from q_inv_finish [OF inv this, of q] False take cur o' show ?thesis
      by (auto simp: take_operation_def cur_list_def Let_def)
  qed
qed

lemma q_inv_other:
  "q_inv r \<Longrightarrow> q_inv (r\<lparr>qr_pc := cleanup_expired now (qr_pc r)\<rparr>)"
  "q_inv r \<Longrightarrow> q_inv (r\<lparr>qr_pc := register_handler ty (qr_pc r)\<rparr>)"
  by (simp_all add: q_inv_def q_order_def object_ok_def ended_ops_def cleanup_expired_def register_handler_def)

lemma q_inv_step: "q_step r p \<Longrightarrow> q_inv r \<Longrightarrow> q_inv p"
  by (induction rule: q_step.induct) (auto intro: q_inv_queue q_inv_end q_inv_other simp del: if_split_asm dest: q_inv_take)

lemma q_inv_run: "q_run r p \<Longrightarrow> q_inv r \<Longrightarrow> q_inv p"
  by (induction rule: q_run.induct) (auto intro: q_inv_step)

section \<open>Properties\<close>

text \<open>C11: Every operation that was queued runs once, in the order of queueing, whatever handlers and
clean-ups run meanwhile: the operations that have ended, the running one and the waiting ones are
together the queued ones in order, without repetition. An operation that has ended has a result
or an error, never both. The callbacks are called once for each operation that has ended and was
given one, in that order, with the operation in its final state.\<close>

theorem operations_run_once_in_order:
  assumes run: "q_run fresh_qrun r"
  shows "qr_ended r @ (case qr_current r of None \<Rightarrow> [] | Some i \<Rightarrow> [i]) @ pc_queue (qr_pc r) = qr_queued r
    \<and> distinct (qr_queued r)
    \<and> (\<forall>i \<in> set (qr_ended r). \<exists>o'. pc_objects (qr_pc r) i = Some o' \<and> op_ended o')
    \<and> pc_calls (qr_pc r) = filter op_on_complete (map (\<lambda>i. the (pc_objects (qr_pc r) i)) (qr_ended r))"
proof -
  have inv: "q_inv r" by (rule q_inv_run [OF run q_inv_fresh])
  have "\<exists>o'. pc_objects (qr_pc r) i = Some o' \<and> op_ended o'" if i: "i \<in> set (qr_ended r)" for i
  proof -
    have "i \<in> set (qr_queued r)" using i unfolding q_parts(1) [OF inv] by simp
    then obtain o' where "pc_objects (qr_pc r) i = Some o'" using q_parts(3) [OF inv, of i] by auto
    with q_object [OF inv this] i show ?thesis by (simp add: object_ok_def)
  qed
  with inv show ?thesis by (simp add: q_inv_def q_order_def cur_list_def ended_ops_def)
qed

text \<open>One operation is queued and fails.\<close>

definition example_q1 :: qrun where
  "example_q1 = fresh_qrun\<lparr>qr_pc := register_handler ''g'' new_processor\<rparr>"

definition example_q2 :: qrun where
  "example_q2 = example_q1\<lparr>qr_pc := snd (queue_operation 0 ''1'' ''g'' ''u'' [] True (qr_pc example_q1)), qr_queued := [''1'']\<rparr>"

definition example_q3 :: qrun where
  "example_q3 = example_q2\<lparr>qr_pc := snd (take_operation 5 (qr_pc example_q2)), qr_current := Some ''1''\<rparr>"

definition example_q4 :: qrun where
  "example_q4 = example_q3\<lparr>qr_pc := end_operation 9 ''1'' (Inl ''boom'') (qr_pc example_q3), qr_current := None, qr_ended := [''1'']\<rparr>"

lemmas q_eval = example_q1_def example_q2_def example_q3_def example_q4_def fresh_qrun_def new_processor_def
  register_handler_def queue_operation_def new_operation_def take_operation_def end_operation_def set_object_def
  invoke_callback_def finished_def

lemma example_q_run: "q_run fresh_qrun example_q4"
proof -
  have 1: "q_step fresh_qrun example_q1"
    using qs_register [of fresh_qrun "''g''"] by (simp add: example_q1_def fresh_qrun_def)
  have 2: "q_step example_q1 example_q2"
    using qs_queue [of "''1''" example_q1 "''g''" 0 "''u''" "[]" True] by (simp add: q_eval)
  have take: "take_operation 5 (qr_pc example_q2) = (Some ''1'', qr_pc example_q3)"
    "pc_queue (qr_pc example_q2) = [''1'']" "qr_current example_q2 = None" by (simp_all add: q_eval)
  from qs_take [OF take(3,2,1)] have 3: "q_step example_q2 example_q3" by (simp add: example_q3_def)
  have "qr_current example_q3 = Some ''1''" "qr_ended example_q3 = []" by (simp_all add: q_eval)
  with qs_end [of example_q3 "''1''" 9 "Inl ''boom''"] have 4: "q_step example_q3 example_q4" by (simp add: example_q4_def)
  show ?thesis by (rule qr_step [OF qr_step [OF qr_step [OF qr_step [OF qr_none 1] 2] 3] 4])
qed

lemma operations_run_once_in_order_witness:
  "map op_error (pc_calls (qr_pc example_q4)) = [Some ''boom'']"
proof -
  have "qr_ended example_q4 = [''1'']" "map_option op_on_complete (pc_objects (qr_pc example_q4) ''1'') = Some True"
    "map_option op_error (pc_objects (qr_pc example_q4) ''1'') = Some (Some ''boom'')"
    by (simp_all add: q_eval)
  with operations_run_once_in_order [OF example_q_run] show ?thesis by auto
qed

end
