(* ===== verification/Queue_Handlers.thy ===== *)
theory Queue_Handlers
  imports Tool_World Op_Queue
begin

text \<open>
  The handlers of the operation queue (app/agents/queue/handlers.py) and the callbacks that tell users
  how an operation ended (app/agents/queue/callbacks.py), over the services of Networking_Tools and the
  processor of Op_Queue. A handler answers a dictionary; its \<open>notification_message\<close>, which holds characters
  outside \<open>string\<close>, is kept beside it as code points. A payload's fields have the types that the
  handlers document. Invitations that the code sends together are sent one after the other.
\<close>

section \<open>Handlers\<close>

type_synonym handled = "dict \<times> ucs"

datatype handler_error = ValueError string | CallError conn_error

fun handler_error_text :: "'db services \<Rightarrow> handler_error \<Rightarrow> string" where
  "handler_error_text S (ValueError t) = t"
| "handler_error_text S (CallError e) = sv_text S e"

definition called :: "('s, conn_error, 'a) io \<Rightarrow> ('s, handler_error, 'a) io" where
  "called m = io_lift CallError m"

text \<open>What an f-string makes of a name\<close>

definition shown_name :: "string option \<Rightarrow> string" where
  "shown_name n = (case n of None \<Rightarrow> ''None'' | Some s \<Rightarrow> s)"

definition party :: ucs where
  "party = [127881, 32]"

definition check_mark :: ucs where
  "check_mark = [9989, 32]"

text \<open>A dictionary under a key, and the texts of a list\<close>

definition payload_dict :: "dict \<Rightarrow> string \<Rightarrow> dict option" where
  "payload_dict d k = (case map_of d k of Some (JObj x) \<Rightarrow> Some x | _ \<Rightarrow> None)"

fun json_texts :: "json list \<Rightarrow> string list" where
  "json_texts [] = []"
| "json_texts (JStr s # js) = s # json_texts js"
| "json_texts (j # js) = json_texts js"

definition payload_texts :: "dict \<Rightarrow> string \<Rightarrow> string list" where
  "payload_texts d k = (case map_of d k of Some (JList js) \<Rightarrow> json_texts js | _ \<Rightarrow> [])"

section \<open>Group chats\<close>

text \<open>
  The status of several people: the chat that exists and the accepted requests, from the payload or,
  without one there, from the database; None where the code's value is falsy.
\<close>

definition status_for_group :: "'db services \<Rightarrow> conn_req \<Rightarrow> dict option \<Rightarrow> ('db mgr, conn_error, (string option \<times> string list) option) io" where
  "status_for_group S r given =
     (case given of
        Some d \<Rightarrow> io_return (if d = [] then None
          else Some (get_str d ''existing_chat_guid'', payload_texts d ''accepted_request_ids''))
      | None \<Rightarrow>
          if cr_is_multi r \<and> truthy_str (cr_signal_group r)
          then io_bind (on_db (check_multi_match_ready_v1 (sv_reqs S) (the (cr_signal_group r)))) (\<lambda>c.
                 io_return (Some (mx_chat_guid c, mx_accepted_ids c)))
          else io_return None)"

definition queued_late_joiner :: "'db services \<Rightarrow> int \<Rightarrow> string \<Rightarrow> string \<Rightarrow> string \<Rightarrow> ('db mgr, handler_error, handled) io" where
  "queued_late_joiner S now oid rid guid =
     io_bind (called (add_late_joiner_to_group (sv_reqs S) (row_user S) (sv_late S) now rid guid)) (\<lambda>(g, uid, name).
       io_return ([(''chat_guid'', JStr guid), (''added_user_name'', json_opt_str name), (''is_late_joiner'', JBool True),
           (''operation_id'', JStr oid)],
         party @ utext (shown_name name @ '' has joined the group chat!'')))"

definition queued_multi_group :: "'db services \<Rightarrow> int \<Rightarrow> string \<Rightarrow> string \<Rightarrow> string list \<Rightarrow> ('db mgr, handler_error, handled) io" where
  "queued_multi_group S now oid rid accepted =
     io_bind (called (create_multi_person_group (sv_reqs S) (row_user S) (sv_multi S) now
         (if rid \<in> set accepted then accepted else accepted @ [rid]))) (\<lambda>(guid, participants).
       io_return ([(''chat_guid'', JStr guid), (''participant_count'', JInt (int (length participants))), (''is_multi_person'', JBool True),
           (''operation_id'', JStr oid)],
         party @ utext (''Your group chat with '' @ str_nat (length participants) @ '' people is ready! Check your messages.'')))"

definition queued_single_chat :: "'db services \<Rightarrow> int \<Rightarrow> string \<Rightarrow> string \<Rightarrow> conn_req \<Rightarrow> tuser \<Rightarrow> tuser \<Rightarrow> ('db mgr, handler_error, handled) io" where
  "queued_single_chat S now oid rid r initiator target =
     (let university = (if truthy_str (tu_university initiator) \<and> tu_university initiator = tu_university target
                        then tu_university initiator else None) in
      io_bind (called (on_db (sv_create S initiator target university r))) (\<lambda>guid.
      io_bind (called (mark_group_created (sv_reqs S) (sv_states S) now rid guid)) (\<lambda>_.
      io_bind (called (first_networking S now initiator)) (\<lambda>_.
        io_return ([(''chat_guid'', JStr guid), (''initiator_name'', json_opt_str (tu_name initiator)), (''target_name'', json_opt_str (tu_name target)),
            (''action_type'', JStr ''group_chat_created''), (''operation_id'', JStr oid)],
          party @ utext (''Your group chat with '' @ shown_name (tu_name target) @ '' is ready! Check your messages.''))))))"

definition queued_single_group :: "'db services \<Rightarrow> int \<Rightarrow> string \<Rightarrow> string \<Rightarrow> conn_req \<Rightarrow> ('db mgr, handler_error, handled) io" where
  "queued_single_group S now oid rid r =
     io_bind (called (on_db (sv_user S (cr_initiator r)))) (\<lambda>iu.
       if phoneless iu then io_raise (ValueError (''Could not find phone number for initiator user '' @ cr_initiator r))
       else io_bind (called (on_db (sv_user S (cr_target r)))) (\<lambda>tu.
         if phoneless tu then io_raise (ValueError (''Could not find phone number for target user '' @ cr_target r))
         else queued_single_chat S now oid rid r (the iu) (the tu)))"

definition handle_group_chat_creation :: "'db services \<Rightarrow> int \<Rightarrow> operation \<Rightarrow> ('db mgr, handler_error, handled) io" where
  "handle_group_chat_creation S now o' =
     (case or_null (get_str (op_payload o') ''connection_request_id'') of
        None \<Rightarrow> io_raise (ValueError ''connection_request_id is required'')
      | Some rid \<Rightarrow> io_bind (called (find_request S rid)) (\<lambda>found. case found of
          None \<Rightarrow> io_raise (ValueError (''Connection request '' @ rid @ '' not found''))
        | Some r \<Rightarrow> io_bind (called (status_for_group S r (payload_dict (op_payload o') ''multi_match_status''))) (\<lambda>multi.
            if cr_is_multi r \<and> multi \<noteq> None
            then (if truthy_str (fst (the multi)) then queued_late_joiner S now (op_id o') rid (the (fst (the multi)))
                  else queued_multi_group S now (op_id o') rid (snd (the multi)))
            else queued_single_group S now (op_id o') rid r)))"

section \<open>Invitations\<close>

definition not_invited :: "string \<Rightarrow> string \<Rightarrow> dict" where
  "not_invited rid e = [(''request_id'', JStr rid), (''success'', JBool False), (''error'', JStr e)]"

text \<open>A message that is missing is refused by \<open>send_message\<close> as an empty one is.\<close>

definition invite_target :: "'db services \<Rightarrow> string \<Rightarrow> string \<Rightarrow> conn_req \<Rightarrow> tuser \<Rightarrow> ('db mgr, conn_error, dict) io" where
  "invite_target S initiator_name rid r target =
     io_bind (on_db (sv_invitation S initiator_name (tu_name target) (cr_reasons r))) (\<lambda>message.
     io_bind (on_db (sv_send S (the (tu_phone target)) (or_str message []) False)) (\<lambda>_.
     io_bind (on_db (sv_store S (cr_target r) (or_str message [])
         [(''intent'', JStr ''networking_invitation''), (''connection_request_id'', JStr rid), (''initiator_name'', JStr initiator_name)])) (\<lambda>_.
       io_return [(''request_id'', JStr rid), (''success'', JBool True), (''target_name'', json_opt_str (tu_name target))])))"

definition invite_one :: "'db services \<Rightarrow> string \<Rightarrow> string \<Rightarrow> ('db mgr, handler_error, dict) io" where
  "invite_one S initiator_name rid = io_catch
     (io_bind (find_request S rid) (\<lambda>found. case found of
        None \<Rightarrow> io_return (not_invited rid ''not_found'')
      | Some r \<Rightarrow> io_bind (on_db (sv_user S (cr_target r))) (\<lambda>u.
          if phoneless u then io_return (not_invited rid ''no_phone'')
          else invite_target S initiator_name rid r (the u))))
     (\<lambda>e. io_return (not_invited rid (sv_text S e)))"

fun invite_all :: "'db services \<Rightarrow> string \<Rightarrow> string list \<Rightarrow> ('db mgr, handler_error, dict list) io" where
  "invite_all S initiator_name [] = io_return []"
| "invite_all S initiator_name (rid # rids) =
     io_bind (invite_one S initiator_name rid) (\<lambda>d. io_bind (invite_all S initiator_name rids) (\<lambda>ds. io_return (d # ds)))"

definition invited :: "dict \<Rightarrow> bool" where
  "invited d = json_truthy (map_of d ''success'')"

definition invited_names :: "dict list \<Rightarrow> string list" where
  "invited_names ds = List.map_filter (\<lambda>d. or_null (get_str d ''target_name'')) (filter invited ds)"

definition names_text :: "string list \<Rightarrow> string" where
  "names_text ns = join_str '', '' (take 3 ns) @ (if 3 < length ns then '' and '' @ str_nat (length ns - 3) @ '' more'' else [])"

definition invitations_text :: "dict list \<Rightarrow> ucs" where
  "invitations_text ds = check_mark @ utext
     ((if invited_names ds \<noteq> [] then ''Sent invitations to '' @ names_text (invited_names ds)
       else ''Sent '' @ str_nat (length (filter invited ds)) @ '' invitation(s)'')
      @ ''. I'' @ [CHR 0x27] @ ''ll let you know when they respond!'')"

definition handle_multi_match_invitations :: "'db services \<Rightarrow> int \<Rightarrow> operation \<Rightarrow> ('db mgr, handler_error, handled) io" where
  "handle_multi_match_invitations S now o' =
     (let rids = payload_texts (op_payload o') ''request_ids'';
          initiator_name = (case get_str (op_payload o') ''initiator_name'' of None \<Rightarrow> ''someone'' | Some n \<Rightarrow> n) in
      if rids = [] then io_raise (ValueError ''request_ids is required'')
      else io_bind (invite_all S initiator_name rids) (\<lambda>ds.
        io_return ([(''sent_count'', JInt (int (length (filter invited ds)))), (''total_count'', JInt (int (length rids))),
            (''results'', JList (map JObj ds)), (''operation_id'', JStr (op_id o'))],
          invitations_text ds)))"

definition register_all_handlers :: "processor \<Rightarrow> processor" where
  "register_all_handlers pc = register_handler ''multi_match_invitations'' (register_handler ''group_chat_creation'' pc)"

text \<open>The registered handler on an operation, its exception as the text that the processor keeps\<close>

definition run_handler :: "'db services \<Rightarrow> int \<Rightarrow> operation \<Rightarrow> 'db mgr \<Rightarrow> (string + handled) \<times> 'db mgr" where
  "run_handler S now o' m = map_prod (map_sum (handler_error_text S) id) id
     ((if op_type o' = ''group_chat_creation'' then handle_group_chat_creation S now o' else handle_multi_match_invitations S now o') m)"

section \<open>Callbacks\<close>

text \<open>The arguments of the factories: texts that replace those of the result, and whom to tell\<close>

record notice =
  nt_success :: "ucs option"
  nt_failure :: "ucs option"
  nt_use_result :: bool

datatype callback = ToPhone string notice | ToUser string notice

definition failure_text :: ucs where
  "failure_text = utext (''Sorry, something went wrong while processing your request. ''
     @ ''Please try again or let me know if you need help!'')"

definition done_text :: ucs where
  "done_text = check_mark @ utext ''Your request has been processed!''"

definition given_text :: "ucs option \<Rightarrow> bool" where
  "given_text t = (case t of None \<Rightarrow> False | Some x \<Rightarrow> x \<noteq> [])"

definition notice_text :: "notice \<Rightarrow> string option \<Rightarrow> ucs option \<Rightarrow> ucs" where
  "notice_text c err result =
     (if truthy_str err then (if given_text (nt_failure c) then the (nt_failure c) else failure_text)
      else if given_text (nt_success c) then the (nt_success c)
      else if nt_use_result c \<and> given_text result then the result
      else done_text)"

text \<open>
  \<open>make_notification_callback\<close>, whose body \<open>create_user_notification_callback\<close> repeats, and
  \<open>make_db_notification_callback\<close>. \<open>send\<close> is \<open>send_message\<close> for text in code points.
\<close>

definition phone_callback :: "(string \<Rightarrow> ucs \<Rightarrow> ('db mgr, conn_error, unit) io) \<Rightarrow> string \<Rightarrow> notice
    \<Rightarrow> string option \<Rightarrow> ucs option \<Rightarrow> ('db mgr, conn_error, unit) io" where
  "phone_callback send phone c err result = quietly (send phone (notice_text c err result))"

definition user_callback :: "'db services \<Rightarrow> (string \<Rightarrow> ucs \<Rightarrow> ('db mgr, conn_error, unit) io) \<Rightarrow> string \<Rightarrow> notice
    \<Rightarrow> string option \<Rightarrow> ucs option \<Rightarrow> ('db mgr, conn_error, unit) io" where
  "user_callback S send uid c err result =
     io_bind (on_db (sv_user S uid)) (\<lambda>u.
       if phoneless u then io_return () else phone_callback send (the (tu_phone (the u))) c err result)"

fun run_callback :: "'db services \<Rightarrow> (string \<Rightarrow> ucs \<Rightarrow> ('db mgr, conn_error, unit) io) \<Rightarrow> callback
    \<Rightarrow> string option \<Rightarrow> ucs option \<Rightarrow> ('db mgr, conn_error, unit) io" where
  "run_callback S send (ToPhone phone c) err result = phone_callback send phone c err result"
| "run_callback S send (ToUser uid c) err result = user_callback S send uid c err result"

text \<open>\<open>_invoke_callback\<close>, whose exceptions are logged and dropped; then \<open>_process_operation\<close> on the head of the queue\<close>

definition tell :: "'db services \<Rightarrow> (string \<Rightarrow> ucs \<Rightarrow> ('db mgr, conn_error, unit) io) \<Rightarrow> callback \<Rightarrow> operation
    \<Rightarrow> string option \<Rightarrow> ucs option \<Rightarrow> 'db mgr \<Rightarrow> 'db mgr" where
  "tell S send cb o' err result m =
     (if op_on_complete o' then snd ((quietly (run_callback S send cb err result) :: ('db mgr, conn_error, unit) io) m) else m)"

definition handler_notice :: "string + handled \<Rightarrow> ucs option" where
  "handler_notice res = (case res of Inl _ \<Rightarrow> None | Inr (_, t) \<Rightarrow> Some t)"

definition process_operation :: "'db services \<Rightarrow> (string \<Rightarrow> ucs \<Rightarrow> ('db mgr, conn_error, unit) io) \<Rightarrow> (string \<Rightarrow> callback)
    \<Rightarrow> int \<Rightarrow> processor \<Rightarrow> 'db mgr \<Rightarrow> processor \<times> 'db mgr" where
  "process_operation S send cbs now pc m =
     (case pc_queue pc of
        [] \<Rightarrow> (pc, m)
      | i # _ \<Rightarrow>
          (case take_operation now pc of
             (None, pc1) \<Rightarrow> (pc1, case pc_objects pc1 i of None \<Rightarrow> m | Some o' \<Rightarrow> tell S send (cbs i) o' (op_error o') None m)
           | (Some j, pc1) \<Rightarrow>
               (let o' = the (pc_objects pc1 j) in
                case run_handler S now o' m of (res, m1) \<Rightarrow>
                  (let pc2 = end_operation now j (map_sum id fst res) pc1 in
                   (pc2, tell S send (cbs j) o' (op_error (the (pc_objects pc2 j))) (handler_notice res) m1)))))"

section \<open>Facts\<close>

lemma called_eq: "called m s = (map_sum CallError id (fst (m s)), snd (m s))"
  by (cases "m s"; cases "fst (m s)") (simp_all add: called_def io_lift_def io_catch_def io_raise_def)

lemma keeps_called [keeps_rules]: "keeps f m \<Longrightarrow> keeps f (called m)"
  unfolding called_def by (rule keeps_lift)

lemma evolves_called [evolves_rules]: "evolves f m \<Longrightarrow> evolves f (called m)"
  unfolding called_def io_lift_def by (intro evolves_rules)

text \<open>One invitation never raises, and its result names its request.\<close>

lemma request_ids [simp]: "get_str (not_invited rid e) ''request_id'' = Some rid" "get_str ((''request_id'', JStr rid) # d) ''request_id'' = Some rid"
  by (simp_all add: get_str_def not_invited_def)

lemma invite_one_result: "\<exists>d m'. invite_one S name rid m = (Inr d, m') \<and> get_str d ''request_id'' = Some rid"
proof -
  obtain x m' where x: "invite_one S name rid m = (x, m')" by fastforce
  then show ?thesis
    by (auto simp: invite_one_def invite_target_def io_catch_def io_bind_def
        split: prod.splits sum.splits option.splits if_splits)
qed

lemma invite_all_results:
  "\<exists>ds m'. invite_all S name rids m = (Inr ds, m') \<and> map (\<lambda>d. get_str d ''request_id'') ds = map Some rids"
proof (induction rids arbitrary: m)
  case (Cons rid rids)
  obtain d m1 where "invite_one S name rid m = (Inr d, m1)" "get_str d ''request_id'' = Some rid" using invite_one_result by blast
  moreover obtain ds m2 where "invite_all S name rids m1 = (Inr ds, m2)" "map (\<lambda>d. get_str d ''request_id'') ds = map Some rids"
    using Cons.IH by blast
  ultimately show ?case by (simp add: io_bind_def)
qed simp

context tool_store
begin

lemma keeps_invite_one [keeps_rules]: "keeps reqs_of (invite_one S name rid)"
  unfolding invite_one_def invite_target_def by (auto intro!: keeps_rules service_frames split: option.splits)

lemma keeps_invite_all [keeps_rules]: "keeps reqs_of (invite_all S name rids)"
  by (induction rids) (auto intro!: keeps_rules)

lemma keeps_invitations: "keeps reqs_of (handle_multi_match_invitations S now o')"
  unfolding handle_multi_match_invitations_def Let_def by (intro keeps_rules)

lemma keeps_status: "keeps reqs_of (status_for_group S r given)"
  unfolding status_for_group_def check_multi_match_ready_v1_def apis
  by (auto intro!: keeps_rules keeps_db reqs_select_frame split: option.splits)

lemma evolves_group_handler: "evolves reqs_of (handle_group_chat_creation S now o')"
proof -
  have joined: "evolves reqs_of (add_late_joiner_to_group rapi (row_user S) (sv_late S) now rid g)" for rid g
    by (rule evolves_late_joiner [OF keeps_row_user chat_frames(5)])
  have grouped: "evolves reqs_of (create_multi_person_group rapi (row_user S) (sv_multi S) now ids)" for ids
    by (rule evolves_multi_group [OF keeps_row_user chat_frames(6)])
  show ?thesis
    unfolding handle_group_chat_creation_def queued_late_joiner_def queued_multi_group_def queued_single_group_def
      queued_single_chat_def Let_def apis
    by (intro tools_evolve evolves_called evolves_case_option evolves_case_prod joined grouped keeps_status [THEN evolves_keeps])
qed

text \<open>The messages that callbacks send are a service too: they leave the requests alone.\<close>

lemma tell_frame:
  assumes "\<And>p t. keeps reqs_of (send p t)"
  shows "reqs_of (tell S send cb o' err result m) = reqs_of m"
proof (cases cb)
  case (ToPhone p c)
  show ?thesis unfolding tell_def ToPhone run_callback.simps phone_callback_def using assms by (auto intro!: keeps_snd keeps_rules)
next
  case (ToUser u c)
  have "keeps reqs_of (run_callback S send cb err result)"
    unfolding ToUser run_callback.simps user_callback_def phone_callback_def using assms by (intro keeps_rules service_frames)
  then show ?thesis unfolding tell_def by (auto intro!: keeps_snd keeps_rules)
qed

lemma processed_evolves:
  assumes "\<And>p t. keeps reqs_of (send p t)"
  shows "tbl_evolves (reqs_of m) (reqs_of (snd (process_operation S send cbs now pc m)))"
proof -
  have run: "tbl_evolves (reqs_of m) (reqs_of (snd (run_handler S now o' m)))" for o'
    using evolves_snd [OF evolves_group_handler] evolves_snd [OF keeps_invitations [THEN evolves_keeps]]
    by (simp add: run_handler_def)
  show ?thesis
    using run tell_frame [OF assms]
    by (auto simp: process_operation_def Let_def tbl_evolves_refl split: list.splits option.splits prod.splits)
      (metis snd_conv)+
qed

end

section \<open>Properties\<close>

text \<open>The queue moves requests only forward: whatever operation is at its head, with whatever payload, and whatever fails,
a request keeps its two users, and changes its status only along the valid changes.\<close>

theorem queue_moves_requests_forward:
  assumes "tool_store rapi rtbl sapi stbl S" "\<And>p t. keeps (\<lambda>m. rtbl (mg_db m)) (send p t)" "rtbl (mg_db m) rid = Some q"
    and "process_operation S send cbs now pc m = (pc', m')"
  shows "\<exists>q'. rtbl (mg_db m') rid = Some q' \<and> cr_initiator q' = cr_initiator q \<and> cr_target q' = cr_target q
    \<and> status_path (cr_status q) (cr_status q')"
proof -
  from tool_store.processed_evolves [OF assms(1), where send = send, OF assms(2), of m cbs now pc] assms(3,4)
  obtain q' where "rtbl (mg_db m') rid = Some q'" "row_evolves q q'" by (auto simp: tbl_evolves_def)
  then show ?thesis by (auto simp: row_evolves_def)
qed

text \<open>Every request of a list gets one invitation or one reason why not, in the order of the list; no failure of one
keeps the others from being tried, and the counts are those of the results.\<close>

theorem every_invitation_has_a_result:
  assumes "payload_texts (op_payload o') ''request_ids'' = rids" "rids \<noteq> []"
  shows "\<exists>d t ds m'. handle_multi_match_invitations S now o' m = (Inr (d, t), m')
    \<and> map_of d ''results'' = Some (JList (map JObj ds)) \<and> map (\<lambda>x. get_str x ''request_id'') ds = map Some rids
    \<and> map_of d ''sent_count'' = Some (JInt (int (length (filter invited ds))))
    \<and> map_of d ''total_count'' = Some (JInt (int (length rids)))"
proof -
  let ?name = "case get_str (op_payload o') ''initiator_name'' of None \<Rightarrow> ''someone'' | Some n \<Rightarrow> n"
  obtain ds m' where "invite_all S ?name rids m = (Inr ds, m')" "map (\<lambda>x. get_str x ''request_id'') ds = map Some rids"
    using invite_all_results by blast
  note ds = this
  have h: "handle_multi_match_invitations S now o' m =
    (Inr ([(''sent_count'', JInt (int (length (filter invited ds)))), (''total_count'', JInt (int (length rids))),
        (''results'', JList (map JObj ds)), (''operation_id'', JStr (op_id o'))], invitations_text ds), m')"
    using ds assms by (simp add: handle_multi_match_invitations_def Let_def io_bind_def)
  show ?thesis by (rule exI, rule exI, rule exI [of _ ds], rule exI, intro conjI, rule h) (use ds(2) in simp_all)
qed

text \<open>C39: Whoever is invited by the queue cannot answer: the handler sends the invitations and leaves the requests as they were,
so a request that waited for its initiator still does, and every answer of the target is refused.\<close>

theorem queued_invitation_cannot_be_answered:
  assumes "tool_store rapi rtbl sapi stbl S" "handle_multi_match_invitations S now o' m = (res, m')"
    and "rtbl (mg_db m) rid = Some q" "cr_status q = CPendingInitiatorApproval"
  shows "rtbl (mg_db m') = rtbl (mg_db m) \<and> (\<exists>e. fst (target_responds S now' rid accept reason m') = Inl e)"
proof
  show r: "rtbl (mg_db m') = rtbl (mg_db m)" by (rule keepsD [OF tool_store.keeps_invitations [OF assms(1)] assms(2)])
  show "\<exists>e. fst (target_responds S now' rid accept reason m') = Inl e"
  proof (cases "fst (target_responds S now' rid accept reason m')")
    case (Inr d)
    then have "target_responds S now' rid accept reason m' = (Inr d, snd (target_responds S now' rid accept reason m'))"
      by (metis prod.collapse)
    from tool_store.responded [OF assms(1) this]
    obtain p where p: "rtbl (mg_db (snd (target_responds S now' rid accept reason m'))) rid = Some p"
      "cr_status p \<in> {CTargetAccepted, CGroupCreated, CTargetDeclined}" by blast
    have "rtbl (mg_db (snd (target_responds S now' rid accept reason m'))) = rtbl (mg_db m')"
      using tool_store.answered_stays [OF assms(1), of m' rid q] assms(3,4) r by simp
    with p r assms(3,4) show ?thesis by simp
  qed auto
qed

text \<open>C40: A failure can be reported as a success: the processor keeps the text of an exception, and the callbacks take an
empty text for no failure; a timeout has no text. The operation is failed, and its user is told that the request
has been processed.\<close>

theorem failure_without_text_is_reported_as_done:
  assumes "pc_queue pc = i # q" "pc_objects pc i = Some o'" "op_id o' = i" "op_type o' \<in> set (pc_handlers pc)" "op_on_complete o'"
    and "run_handler S now (o'\<lparr>op_status := OpProcessing\<rparr>) m = (Inl [], m1)"
    and "cbs i = ToPhone phone \<lparr>nt_success = None, nt_failure = failure, nt_use_result = u\<rparr>"
  shows "\<exists>pc' o1. process_operation S send cbs now pc m = (pc', snd (send phone done_text m1))
    \<and> pc_objects pc' i = Some o1 \<and> op_status o1 = OpFailed"
proof -
  have "snd ((quietly (quietly (send phone done_text) :: ('a mgr, conn_error, unit) io) :: ('a mgr, conn_error, unit) io) m1)
      = snd (send phone done_text m1)"
    by (cases "send phone done_text m1"; cases "fst (send phone done_text m1)") (simp_all add: quietly_def io_catch_def io_return_def)
  with assms show ?thesis
    by (simp add: process_operation_def take_operation_def set_object_def end_operation_def invoke_callback_def finished_def
        tell_def phone_callback_def notice_text_def given_text_def handler_notice_def Let_def)
qed

text \<open>A first group is failed in the queue as well: chat and request are done, and the operation ends with an exception.\<close>

theorem first_queued_group_fails:
  assumes "tool_store rapi rtbl sapi stbl S"
    and "get_str (op_payload o') ''connection_request_id'' = Some rid" "rid \<noteq> []" "payload_dict (op_payload o') ''multi_match_status'' = None"
    and "find_request S rid m = (Inr (Some r), m1)" "\<not> cr_is_multi r"
    and "on_db (sv_user S (cr_initiator r)) m1 = (Inr (Some a), m2)" "truthy_str (tu_phone a)"
    and "on_db (sv_user S (cr_target r)) m2 = (Inr (Some b), m3)" "truthy_str (tu_phone b)"
    and "\<not> json_truthy (map_of (tu_facts a) ''first_networking_completed'')"
    and "\<And>university. on_db (sv_create S a b university r) m3 = (Inr guid, m4)"
    and "mark_group_created rapi sapi now rid guid m4 = (Inr q, m5)"
  shows "\<exists>e. handle_group_chat_creation S now o' m = (Inl (CallError e), m5) \<and> cr_status q = CGroupCreated \<and> rtbl (mg_db m5) rid = Some q"
proof -
  have "run_hs rapi sapi now (MarkGroup guid) rid m4 = (Inr q, m5)" using assms(13) by simp
  from handshake_store.run_hs_Inr [OF tool_store.axioms(1) [OF assms(1)] this]
  have q: "cr_status q = CGroupCreated \<and> rtbl (mg_db m5) rid = Some q" by (auto simp: moved_fields)
  note a = tool_store.apis [OF assms(1)]
  have "\<exists>e. queued_single_group S now (op_id o') rid r m1 = (Inl (CallError e), m5)"
    using assms(7-13) a
    by (simp add: queued_single_group_def queued_single_chat_def called_eq phoneless_def io_bind_def Let_def first_networking_def update_profile_facts_def)
  then show ?thesis
    using assms(2-6) q by (auto simp: handle_group_chat_creation_def or_null_def called_eq status_for_group_def io_bind_def)
qed

section \<open>Examples\<close>

definition chat_operation :: operation where
  "chat_operation = new_operation 0 ''o1'' ''group_chat_creation'' ''u'' [(''connection_request_id'', JStr sample_id)] True"

definition invite_operation :: operation where
  "invite_operation = new_operation 0 ''o2'' ''multi_match_invitations'' ''u''
     [(''request_ids'', JList [JStr sample_id]), (''initiator_name'', JStr ''Ann'')] True"

definition example_pc :: processor where
  "example_pc = snd (queue_operation 0 ''o1'' ''group_chat_creation'' ''u'' [(''connection_request_id'', JStr sample_id)] True
     (register_all_handlers new_processor))"

definition example_notice :: notice where
  "example_notice = \<lparr>nt_success = None, nt_failure = None, nt_use_result = True\<rparr>"

text \<open>Messages that arrive, and users that cannot be read in time\<close>

abbreviation inviting_services :: "town services" where
  "inviting_services \<equiv> example_services\<lparr>sv_invitation := (\<lambda>_ _ _. io_return (Some ''hey'')), sv_send := (\<lambda>_ _ _. io_return ())\<rparr>"

abbreviation late_services :: "town services" where
  "late_services \<equiv> example_services\<lparr>sv_user := (\<lambda>_. io_raise (ApiFailure []))\<rparr>"

lemma inviting_store: "tool_store t_rapi t_rtbl t_sapi t_stbl inviting_services"
  using tw.tool_store_axioms [of example_tenv] unfolding tool_store_def tool_store_axioms_def by (simp add: keeps_return)

lemma example_pc_fields: "pc_queue example_pc = [''o1'']" "pc_objects example_pc = [''o1'' \<mapsto> chat_operation]"
  "pc_handlers example_pc = [''group_chat_creation'', ''multi_match_invitations'']" "pc_operations example_pc = [''o1'']"
  by (simp_all add: example_pc_def queue_operation_def register_all_handlers_def register_handler_def new_processor_def chat_operation_def)

lemma chat_operation_fields: "op_id chat_operation = ''o1''" "op_type chat_operation = ''group_chat_creation''" "op_on_complete chat_operation"
  "op_payload chat_operation = [(''connection_request_id'', JStr sample_id)]"
  by (simp_all add: chat_operation_def new_operation_def)

lemma sample_id_nonempty: "sample_id \<noteq> []"
  by (metis valid_sample_id empty_not_uuid)

lemma queue_moves_requests_forward_witness:
  "\<exists>q'. t_rtbl (mg_db (snd (process_operation example_services (\<lambda>_ _. io_return ()) (\<lambda>_. ToPhone ''+1'' example_notice) 9 example_pc
      (example_town CTargetAccepted)))) sample_id = Some q' \<and> cr_target q' = ''t'' \<and> status_path CTargetAccepted (cr_status q')"
proof -
  have k: "keeps (\<lambda>m. t_rtbl (mg_db m)) (io_return () :: (town mgr, conn_error, unit) io)" for p t :: string by (rule keeps_return)
  have r: "t_rtbl (mg_db (example_town CTargetAccepted)) sample_id = Some (sample_req CTargetAccepted)" by (simp add: example_rows)
  from queue_moves_requests_forward [OF tw.tool_store_axioms, where send = "\<lambda>_ _. io_return ()", OF keeps_return r prod.collapse [symmetric]]
  show ?thesis by (metis example_req(2,4))
qed

lemma every_invitation_has_a_result_witness:
  "\<exists>d t ds. fst (handle_multi_match_invitations inviting_services 9 invite_operation (example_town CPendingInitiatorApproval)) = Inr (d, t)
    \<and> map_of d ''results'' = Some (JList (map JObj ds)) \<and> map (\<lambda>x. get_str x ''request_id'') ds = [Some sample_id]"
proof -
  have "payload_texts (op_payload invite_operation) ''request_ids'' = [sample_id]"
    by (simp add: invite_operation_def new_operation_def payload_texts_def)
  from every_invitation_has_a_result [OF this, of inviting_services 9 "example_town CPendingInitiatorApproval"] show ?thesis by fastforce
qed

text \<open>The invitation is sent\<close>

lemma example_invitation:
  "\<exists>d t m'. handle_multi_match_invitations inviting_services 9 invite_operation (example_town CPendingInitiatorApproval) = (Inr (d, t), m')
    \<and> map_of d ''sent_count'' = Some (JInt 1)"
proof -
  let ?m = "example_town CPendingInitiatorApproval"
  have f: "find_request inviting_services sample_id ?m = (Inr (Some (sample_req CPendingInitiatorApproval)), ?m)"
    using tool_store.find_read [OF inviting_store example_select] example_rows by (simp add: example_town_def)
  have u: "sv_user inviting_services u = (\<lambda>w. (Inr (te_users example_tenv u), w))" for u by (simp add: town_services_def io_return_def fun_eq_iff)
  have s: "sv_store inviting_services u t d = (\<lambda>w. (Inr (), w\<lparr>tn_stored := tn_stored w @ [(u, t, d)]\<rparr>))" for u t d
    by (simp add: town_services_def)
  obtain d m1 where one: "invite_one inviting_services ''Ann'' sample_id ?m = (Inr d, m1)" "invited d"
    using f u s by (simp add: invite_one_def invite_target_def io_catch_def io_bind_def on_db_def phoneless_def invited_def)
  have "payload_texts (op_payload invite_operation) ''request_ids'' = [sample_id]" "get_str (op_payload invite_operation) ''initiator_name'' = Some ''Ann''"
    by (simp_all add: invite_operation_def new_operation_def payload_texts_def get_str_def)
  with one show ?thesis by (simp add: handle_multi_match_invitations_def Let_def io_bind_def)
qed

lemma queued_invitation_cannot_be_answered_witness:
  "\<exists>d t m'. handle_multi_match_invitations inviting_services 9 invite_operation (example_town CPendingInitiatorApproval) = (Inr (d, t), m')
    \<and> map_of d ''sent_count'' = Some (JInt 1) \<and> (\<exists>e. fst (target_responds inviting_services 10 sample_id True None m') = Inl e)"
proof -
  obtain d t m' where h: "handle_multi_match_invitations inviting_services 9 invite_operation (example_town CPendingInitiatorApproval) = (Inr (d, t), m')"
    "map_of d ''sent_count'' = Some (JInt 1)" using example_invitation by blast
  have r: "t_rtbl (mg_db (example_town CPendingInitiatorApproval)) sample_id = Some (sample_req CPendingInitiatorApproval)" by (simp add: example_rows)
  from queued_invitation_cannot_be_answered [OF inviting_store h(1) r example_req(2)] h show ?thesis by blast
qed

lemma failure_without_text_is_reported_as_done_witness:
  "\<exists>pc' o1 m'. process_operation late_services (\<lambda>_ _. io_return ()) (\<lambda>_. ToPhone ''+1'' example_notice) 9 example_pc (example_town CTargetAccepted) = (pc', m')
    \<and> pc_objects pc' ''o1'' = Some o1 \<and> op_status o1 = OpFailed"
proof -
  let ?m = "example_town CTargetAccepted"
  have f: "find_request late_services sample_id ?m = (Inr (Some (sample_req CTargetAccepted)), ?m)"
    using example_find [of CTargetAccepted] by (simp add: find_request_def)
  have u: "on_db (sv_user late_services u) ?m = (Inl (ApiFailure []), ?m)" for u by (simp add: on_db_def)
  have t: "sv_text late_services (ApiFailure []) = []" by (simp add: town_services_def)
  have h: "run_handler late_services 9 (chat_operation\<lparr>op_status := OpProcessing\<rparr>) ?m = (Inl [], ?m)"
    using f u t sample_id_nonempty by (simp add: run_handler_def chat_operation_fields handle_group_chat_creation_def get_str_def or_null_def payload_dict_def
        called_eq io_bind_def status_for_group_def queued_single_group_def)
  have o: "pc_objects example_pc ''o1'' = Some chat_operation" "op_type chat_operation \<in> set (pc_handlers example_pc)"
    by (simp_all add: example_pc_fields chat_operation_fields)
  from failure_without_text_is_reported_as_done [where cbs = "\<lambda>_. ToPhone ''+1'' example_notice" and send = "\<lambda>_ _. io_return ()",
      OF example_pc_fields(1) o(1) chat_operation_fields(1) o(2) chat_operation_fields(3) h example_notice_def [THEN arg_cong]] show ?thesis
    by blast
qed

lemma first_queued_group_fails_witness:
  "\<exists>e q m5. handle_group_chat_creation example_services 9 chat_operation (example_town CTargetAccepted) = (Inl (CallError e), m5)
    \<and> cr_status q = CGroupCreated \<and> t_rtbl (mg_db m5) sample_id = Some q"
proof -
  let ?m = "example_town CTargetAccepted" and ?r = "sample_req CTargetAccepted"
  let ?a = "the (te_users example_tenv ''u'')" and ?b = "the (te_users example_tenv ''t'')"
  have g: "tn_group (mg_db ?m) = example_pworld" by (simp add: example_town_def)
  have u: "on_db (sv_user example_services (cr_initiator ?r)) ?m = (Inr (Some ?a), ?m)"
    "on_db (sv_user example_services (cr_target ?r)) ?m = (Inr (Some ?b), ?m)" by (simp_all add: town_services_def on_db_def)
  have h: "\<not> cr_is_multi ?r" "truthy_str (tu_phone ?a)" "truthy_str (tu_phone ?b)"
    "\<not> json_truthy (map_of (tu_facts ?a) ''first_networking_completed'')" by simp_all
  have p: "get_str (op_payload chat_operation) ''connection_request_id'' = Some sample_id"
    "payload_dict (op_payload chat_operation) ''multi_match_status'' = None"
    by (simp_all add: chat_operation_fields get_str_def payload_dict_def)
  obtain q m5 where q: "mark_group_created t_rapi t_sapi 9 sample_id ''chat1'' (?m\<lparr>mg_db := (mg_db ?m)\<lparr>tn_group := example_group\<rparr>\<rparr>) = (Inr q, m5)"
    using example_marks [of example_group]
    by (cases "mark_group_created t_rapi t_sapi 9 sample_id ''chat1'' (?m\<lparr>mg_db := (mg_db ?m)\<lparr>tn_group := example_group\<rparr>\<rparr>)") auto
  from first_queued_group_fails [OF tw.tool_store_axioms p(1) sample_id_nonempty p(2) example_find h(1) u(1) h(2) u(2) h(3,4) example_creates [OF g] q]
  show ?thesis by blast
qed

end
