(* ===== verification/Periodic_Jobs.thy ===== *)
theory Periodic_Jobs
  imports Job_Table
begin

text \<open>
  Job tables with one row per user whose job is meant to run again at an hour of a later day: the daily
  e-mail jobs (daily_email_jobs.sql) and the outreach jobs (proactive_outreach_jobs_v2.sql). Their SQL
  functions differ in the hour, in what follows a missed slot and in their own columns. The locale
  \<open>periodic_jobs\<close> asks of the own columns that setting them leaves the others alone. Days are days of
  UTC, the time zone of the database session.
\<close>

section \<open>Times\<close>

definition slot :: "int \<Rightarrow> int \<Rightarrow> int \<Rightarrow> int" where
  "slot days hour now = now - now mod secs 86400 + secs (86400 * days) + secs (3600 * hour)"

text \<open>The next run: the given time or today at the hour, and \<open>late\<close> if that is not in the future.\<close>

definition first_run :: "int \<Rightarrow> (int \<Rightarrow> int) \<Rightarrow> int option \<Rightarrow> int \<Rightarrow> int" where
  "first_run hour late run_after now =
     (let d = (case run_after of None \<Rightarrow> slot 0 hour now | Some t \<Rightarrow> t) in if d \<le> now then late d else d)"

lemma slot_later: "1 \<le> days \<Longrightarrow> 0 \<le> hour \<Longrightarrow> now < slot days hour now"
proof -
  assume "1 \<le> days" "0 \<le> hour"
  moreover have "now mod secs 86400 < secs 86400" by (simp add: secs_def)
  ultimately show ?thesis by (simp add: slot_def secs_def)
qed

section \<open>The statements\<close>

definition due_periodic :: "int \<Rightarrow> int \<Rightarrow> 'a job_scheme \<Rightarrow> bool" where
  "due_periodic now stale j \<longleftrightarrow> jb_status j = JQueued \<and> jb_run_after j \<le> now
    \<or> jb_status j = JRunning \<and> (case jb_claimed_at j of None \<Rightarrow> False | Some c \<Rightarrow> c \<le> now - stale)"

text \<open>Insert a queued row, or on conflict queue the row again; a running job is not interrupted.\<close>

definition enqueued_row :: "int \<Rightarrow> 'a job_scheme \<Rightarrow> 'a job_scheme" where
  "enqueued_row next j = j\<lparr>jb_status := (if jb_status j = JRunning then JRunning else JQueued),
     jb_run_after := (if jb_status j = JRunning then jb_run_after j else next)\<rparr>"

definition enqueue_job :: "'a job_scheme \<Rightarrow> string \<Rightarrow> int \<Rightarrow> 'a job_scheme list \<Rightarrow> 'a job_scheme \<times> 'a job_scheme list" where
  "enqueue_job fresh key next t = (case find_job key t of
     None \<Rightarrow> (let j = fresh\<lparr>jb_key := key, jb_status := JQueued, jb_run_after := next, jb_attempts := 0, jb_error := None,
                      jb_claimed_by := None, jb_claimed_at := None\<rparr> in (j, t @ [j]))
   | Some j \<Rightarrow> (enqueued_row next j, update_where (\<lambda>x. jb_key x = key) (enqueued_row next) t))"

text \<open>Finishing a held job; \<open>own\<close> sets the columns that only this table has.\<close>

definition finished_row :: "job_status \<Rightarrow> int \<Rightarrow> ('a job_scheme \<Rightarrow> 'a job_scheme) \<Rightarrow> 'a job_scheme \<Rightarrow> 'a job_scheme" where
  "finished_row status next own j =
     own (j\<lparr>jb_status := status, jb_run_after := next, jb_attempts := 0, jb_error := None, jb_claimed_by := None, jb_claimed_at := None\<rparr>)"

definition retry_row :: "int \<Rightarrow> string \<Rightarrow> int \<Rightarrow> int \<Rightarrow> 'a job_scheme \<Rightarrow> 'a job_scheme" where
  "retry_row now error backoff max_attempts j =
     j\<lparr>jb_attempts := jb_attempts j + 1, jb_error := Some (take 2000 error),
       jb_status := (if max_attempts \<le> jb_attempts j + 1 then JFailed else JQueued),
       jb_run_after := max (jb_run_after j) (now + backoff), jb_claimed_by := None, jb_claimed_at := None\<rparr>"

definition change_held :: "string \<Rightarrow> string \<Rightarrow> ('a job_scheme \<Rightarrow> 'a job_scheme) \<Rightarrow> 'a job_scheme list
    \<Rightarrow> 'a job_scheme option \<times> 'a job_scheme list" where
  "change_held key worker f t = (map_option f (find (held_by key worker) t), update_where (held_by key worker) f t)"

section \<open>The client methods\<close>

text \<open>\<open>up\<close> says whether the database answers; None is the client's None, \<open>Some None\<close> a row of nulls.\<close>

definition periodic_schedule :: "'a job_scheme \<Rightarrow> bool \<Rightarrow> string \<Rightarrow> int \<Rightarrow> 'a job_scheme list \<Rightarrow> 'a job_scheme option \<times> 'a job_scheme list" where
  "periodic_schedule fresh up key next t =
     (if \<not> up then (None, t) else (case enqueue_job fresh key next t of (j, t') \<Rightarrow> (Some j, t')))"

definition periodic_claim :: "int \<Rightarrow> int \<Rightarrow> bool \<Rightarrow> int \<Rightarrow> ('a job_scheme \<Rightarrow> bool) \<Rightarrow> string \<Rightarrow> int \<Rightarrow> int \<Rightarrow> 'a job_scheme list
    \<Rightarrow> 'a job_scheme list \<times> 'a job_scheme list" where
  "periodic_claim dflt cap up now locked worker max_jobs stale_minutes t =
     (if \<not> up then ([], t)
      else claim_rows (due_periodic now (secs (60 * max 1 (or_default stale_minutes 30)))) now locked worker
             (max 1 (min (or_default max_jobs dflt) cap)) t)"

definition periodic_finish :: "job_status \<Rightarrow> int \<Rightarrow> ('a job_scheme \<Rightarrow> 'a job_scheme) \<Rightarrow> bool \<Rightarrow> string \<Rightarrow> string
    \<Rightarrow> 'a job_scheme list \<Rightarrow> 'a job_scheme option option \<times> 'a job_scheme list" where
  "periodic_finish status next own up key worker t =
     (if \<not> up then (None, t) else (case change_held key worker (finished_row status next own) t of (row, t') \<Rightarrow> (Some row, t')))"

definition periodic_fail :: "bool \<Rightarrow> int \<Rightarrow> string \<Rightarrow> string \<Rightarrow> string \<Rightarrow> int \<Rightarrow> int \<Rightarrow> 'a job_scheme list
    \<Rightarrow> 'a job_scheme option option \<times> 'a job_scheme list" where
  "periodic_fail up now key worker error backoff max_attempts t =
     (if \<not> up then (None, t)
      else (case change_held key worker (retry_row now (take 2000 error) (secs (max 60 (or_default backoff 1800)))
              (max 1 (or_default max_attempts 5))) t of (row, t') \<Rightarrow> (Some row, t')))"

definition periodic_release :: "bool \<Rightarrow> string \<Rightarrow> string \<Rightarrow> 'a job_scheme list \<Rightarrow> bool \<times> 'a job_scheme list" where
  "periodic_release up key worker t = (if \<not> up then (False, t) else (True, snd (change_held key worker release_row t)))"

text \<open>\<open>compute_backoff_seconds\<close>\<close>

definition compute_backoff_seconds :: "int \<Rightarrow> int" where
  "compute_backoff_seconds attempts = backoff_from 1800 14400 attempts"

section \<open>What workers do to a table\<close>

definition frame_ok :: "('a job_scheme \<Rightarrow> 'a job_scheme) \<Rightarrow> bool" where
  "frame_ok f \<longleftrightarrow> (\<forall>j. jb_key (f j) = jb_key j \<and> jb_status (f j) = jb_status j \<and> jb_claimed_by (f j) = jb_claimed_by j
     \<and> jb_attempts (f j) = jb_attempts j \<and> jb_run_after (f j) = jb_run_after j)"

text \<open>The steps of workers. \<open>finishes\<close> are the ways to finish a job: its status and its own columns.\<close>

inductive worker_step :: "(job_status \<times> ('a job_scheme \<Rightarrow> 'a job_scheme)) set \<Rightarrow> 'a job_scheme list \<Rightarrow> 'a job_scheme list \<Rightarrow> bool"
  for finishes where
  ws_claim: "worker_step finishes t (snd (periodic_claim dflt cap up now locked worker m stale t))"
| ws_finish: "(status, own) \<in> finishes \<Longrightarrow> worker_step finishes t (snd (periodic_finish status next own up key worker t))"
| ws_fail: "worker_step finishes t (snd (periodic_fail up now key worker error backoff m t))"
| ws_release: "worker_step finishes t (snd (periodic_release up key worker t))"

inductive worker_run :: "(job_status \<times> ('a job_scheme \<Rightarrow> 'a job_scheme)) set \<Rightarrow> 'a job_scheme list \<Rightarrow> 'a job_scheme list \<Rightarrow> bool"
  for finishes where
  wr_none: "worker_run finishes t t"
| wr_step: "worker_run finishes t u \<Longrightarrow> worker_step finishes u v \<Longrightarrow> worker_run finishes t v"

lemma worker_run_trans: "worker_run f u v \<Longrightarrow> worker_run f t u \<Longrightarrow> worker_run f t v"
  by (induction rule: worker_run.induct) (auto intro: wr_step)

lemma worker_run_one: "worker_step f t u \<Longrightarrow> worker_run f t u"
  by (rule wr_step [OF wr_none])

lemmas worker_runs = worker_run_one [OF ws_claim] worker_run_one [OF ws_finish] worker_run_one [OF ws_fail] worker_run_one [OF ws_release]

text \<open>A job is held exactly while it runs, and a finished one has no attempts left over.\<close>

definition prow_ok :: "'a job_scheme \<Rightarrow> bool" where
  "prow_ok j \<longleftrightarrow> (jb_status j = JRunning \<longleftrightarrow> jb_claimed_by j \<noteq> None) \<and> 0 \<le> jb_attempts j
     \<and> (jb_status j \<in> {JDone, JSkipped} \<longrightarrow> jb_attempts j = 0)"

definition ptable_ok :: "'a job_scheme list \<Rightarrow> bool" where
  "ptable_ok t \<longleftrightarrow> distinct (map jb_key t) \<and> list_all prow_ok t"

lemma ptable_ok_update:
  assumes "ptable_ok t" "\<And>j. jb_key (f j) = jb_key j" "\<And>j. prow_ok j \<Longrightarrow> P j \<Longrightarrow> prow_ok (f j)"
  shows "ptable_ok (update_where P f t)"
  using assms by (auto simp: ptable_ok_def list_all_iff set_update_where)

lemma claim_prow: "prow_ok j \<Longrightarrow> prow_ok (take_claim now worker j)"
  and release_prow: "prow_ok j \<Longrightarrow> held_by key worker j \<Longrightarrow> prow_ok (release_row j)"
  and retry_prow: "prow_ok j \<Longrightarrow> held_by key worker j \<Longrightarrow> prow_ok (retry_row now e b m j)"
  and enqueued_prow: "prow_ok j \<Longrightarrow> prow_ok (enqueued_row next j)"
  by (auto simp: prow_ok_def take_claim_def release_row_def retry_row_def enqueued_row_def)

lemma keys_periodic [simp]: "jb_key (retry_row now e b m j) = jb_key j" "jb_key (enqueued_row next j) = jb_key j"
  by (simp_all add: retry_row_def enqueued_row_def)

lemma enqueued_ptable_ok: "ptable_ok t \<Longrightarrow> ptable_ok (snd (periodic_schedule fresh up key next t))"
proof -
  assume ok: "ptable_ok t"
  have "ptable_ok (update_where (\<lambda>x. jb_key x = key) (enqueued_row next) t)"
    by (rule ptable_ok_update [OF ok]) (simp_all add: enqueued_prow)
  moreover have "key \<notin> jb_key ` set t" if "find_job key t = None" using that by (auto simp: find_job_def find_None_iff)
  ultimately show ?thesis using ok
    by (auto simp: periodic_schedule_def enqueue_job_def Let_def ptable_ok_def prow_ok_def list_all_iff split: option.splits)
qed

section \<open>The jobs a worker holds\<close>

definition holds :: "string \<Rightarrow> 'a job_scheme list \<Rightarrow> string set" where
  "holds worker t = jb_key ` {j \<in> set t. jb_claimed_by j = Some worker}"

lemma holds_update:
  "(\<And>j. P j \<Longrightarrow> jb_key (f j) = jb_key j \<and> jb_claimed_by (f j) = None) \<Longrightarrow>
     holds worker (update_where P f t) = jb_key ` {j \<in> set t. jb_claimed_by j = Some worker \<and> \<not> P j}"
proof -
  assume f: "\<And>j. P j \<Longrightarrow> jb_key (f j) = jb_key j \<and> jb_claimed_by (f j) = None"
  have "{j \<in> set (update_where P f t). jb_claimed_by j = Some worker} = {j \<in> set t. jb_claimed_by j = Some worker \<and> \<not> P j}"
    using f by (auto simp: set_update_where split: if_splits)
  then show ?thesis by (simp add: holds_def)
qed

lemma holds_change:
  assumes "\<And>j. jb_key (f j) = jb_key j \<and> jb_claimed_by (f j) = None"
  shows "holds worker (snd (change_held key worker f t)) = holds worker t - {key}"
proof -
  have "jb_key ` {j \<in> set t. jb_claimed_by j = Some worker \<and> \<not> held_by key worker j} = holds worker t - {key}"
    by (auto simp: holds_def held_by_def)
  with holds_update [of "held_by key worker" f worker t] assms show ?thesis by (simp add: change_held_def)
qed

lemma holds_claim: "holds worker (snd (periodic_claim dflt cap up now locked worker m stale t))
    \<subseteq> holds worker t \<union> jb_key ` set (fst (periodic_claim dflt cap up now locked worker m stale t))"
proof -
  have "holds worker (update_where P (take_claim now worker) t)
      \<subseteq> holds worker t \<union> jb_key ` set (filter P (update_where P (take_claim now worker) t))"
    if "\<And>j. P (take_claim now worker j) = P j" for P
  proof
    fix k
    assume "k \<in> holds worker (update_where P (take_claim now worker) t)"
    then obtain j where j: "j \<in> set t" "k = jb_key j" "P j \<or> jb_claimed_by j = Some worker"
      by (auto simp: holds_def set_update_where split: if_splits)
    show "k \<in> holds worker t \<union> jb_key ` set (filter P (update_where P (take_claim now worker) t))"
    proof (cases "P j")
      case True
      with j that have "take_claim now worker j \<in> set (filter P (update_where P (take_claim now worker) t))"
        by (simp add: in_update)
      from imageI [OF this, of jb_key] show ?thesis by (simp add: j(2))
    next
      case False
      with j show ?thesis by (auto simp: holds_def)
    qed
  qed
  then show ?thesis by (simp add: periodic_claim_def claim_rows_def Let_def)
qed

lemma snd_calls:
  "snd (periodic_finish status nxt f True key worker t) = snd (change_held key worker (finished_row status nxt f) t)"
  "snd (periodic_fail True now key worker e b m t)
   = snd (change_held key worker (retry_row now (take 2000 e) (secs (max 60 (or_default b 1800))) (max 1 (or_default m 5))) t)"
  by (simp_all add: periodic_finish_def periodic_fail_def split: prod.splits)

lemma claimed_keys: "jb_key ` set (fst (periodic_claim dflt cap up now locked worker m stale t)) \<subseteq> jb_key ` set t"
proof -
  have "jb_key ` set (filter P (update_where Q (take_claim now worker) t)) \<subseteq> jb_key ` set t" for P Q
    by (fastforce simp: set_update_where image_iff)
  then show ?thesis by (simp add: periodic_claim_def claim_rows_def Let_def)
qed

lemma fail_answers: "\<exists>out t'. periodic_fail True now key worker e b m t = (Some out, t')"
  by (simp add: periodic_fail_def split_beta)

lemma holds_fail: "holds worker (snd (periodic_fail True now key worker e b m t)) = holds worker t - {key}"
  by (simp add: snd_calls holds_change retry_row_def)

lemma holds_release: "holds worker (snd (periodic_release True key worker t)) = holds worker t - {key}"
  by (simp add: periodic_release_def holds_change release_row_def)

text \<open>Jobs worked off one after the other\<close>

lemma holds_foldl:
  "(\<And>t j. j \<in> set jobs \<Longrightarrow> holds worker (tab (g t j)) \<subseteq> holds worker (tab t) - {jb_key j}) \<Longrightarrow>
     holds worker (tab (foldl g t jobs)) \<subseteq> holds worker (tab t) - jb_key ` set jobs"
proof (induction jobs arbitrary: t)
  case (Cons j jobs)
  then have "holds worker (tab (foldl g (g t j) jobs)) \<subseteq> holds worker (tab (g t j)) - jb_key ` set jobs" by simp
  moreover have "holds worker (tab (g t j)) \<subseteq> holds worker (tab t) - {jb_key j}" using Cons.prems by simp
  ultimately show ?case by auto
qed simp

lemma turn_settles:
  assumes "periodic_claim dflt cap up now locked worker m stale t = (jobs, t')" "tab w = t'" "holds worker t = {}"
    and "\<And>w j. j \<in> set jobs \<Longrightarrow> holds worker (tab (g w j)) \<subseteq> holds worker (tab w) - {jb_key j}"
  shows "holds worker (tab (foldl g w jobs)) = {}"
proof -
  have "holds worker t' \<subseteq> jb_key ` set jobs"
    using holds_claim [of worker dflt cap up now locked m stale t] assms(1,3) by simp
  moreover have "holds worker (tab (foldl g w jobs)) \<subseteq> holds worker t' - jb_key ` set jobs"
    using holds_foldl [of jobs worker tab g w] assms(2,4) by simp
  ultimately show ?thesis by blast
qed

lemma claimed_from:
  "periodic_claim dflt cap up now locked worker m stale t = (jobs, t') \<Longrightarrow> j \<in> set jobs \<Longrightarrow> \<exists>j0 \<in> set t. jb_key j = jb_key j0"
  using claimed_keys [of dflt cap up now locked worker m stale t] by auto

section \<open>Tables of periodic jobs\<close>

locale periodic_jobs =
  fixes finishes :: "(job_status \<times> ('a job_scheme \<Rightarrow> 'a job_scheme)) set"
  assumes own: "(status, f) \<in> finishes \<Longrightarrow> frame_ok f"
    and ends: "(status, f) \<in> finishes \<Longrightarrow> status = JDone \<or> status = JSkipped"
begin

lemma key_finished: "(status, f) \<in> finishes \<Longrightarrow> jb_key (finished_row status next f j) = jb_key j"
  using own by (simp add: finished_row_def frame_ok_def)

lemma holds_finish:
  "(status, f) \<in> finishes \<Longrightarrow> holds worker (snd (periodic_finish status next f True key worker t)) = holds worker t - {key}"
proof -
  assume f: "(status, f) \<in> finishes"
  have "jb_claimed_by (finished_row status next f j) = None" for j
    using own [OF f] by (simp add: finished_row_def frame_ok_def)
  then show ?thesis using holds_change [of "finished_row status next f" worker key t] key_finished [OF f]
    by (simp add: snd_calls)
qed

lemma finished_prow: "(status, f) \<in> finishes \<Longrightarrow> prow_ok (finished_row status next f j)"
  using own [of status f] ends [of status f] by (auto simp: prow_ok_def finished_row_def frame_ok_def)

lemma worker_step_ok: "worker_step finishes t u \<Longrightarrow> ptable_ok t \<Longrightarrow> ptable_ok u"
proof (induction rule: worker_step.induct)
  case (ws_claim t dflt cap up now locked worker m stale)
  have "ptable_ok (update_where P (take_claim now worker) t)" for P
    by (rule ptable_ok_update [OF ws_claim]) (simp_all add: claim_prow)
  then show ?case using ws_claim by (simp add: periodic_claim_def claim_rows_def Let_def)
next
  case (ws_finish status own t later up key worker)
  have "ptable_ok (update_where (held_by key worker) (finished_row status later own) t)"
    by (rule ptable_ok_update [OF ws_finish(2)]) (simp_all add: key_finished finished_prow ws_finish(1))
  then show ?case using ws_finish(2) by (simp add: periodic_finish_def change_held_def)
next
  case (ws_fail t up now key worker error backoff m)
  have "ptable_ok (update_where (held_by key worker) (retry_row now e b m') t)" for e b m'
    by (rule ptable_ok_update [OF ws_fail]) (simp_all add: retry_prow)
  then show ?case using ws_fail by (simp add: periodic_fail_def change_held_def)
next
  case (ws_release t up key worker)
  have "ptable_ok (update_where (held_by key worker) release_row t)"
    by (rule ptable_ok_update [OF ws_release]) (simp_all add: release_prow)
  then show ?case using ws_release by (simp add: periodic_release_def change_held_def)
qed

lemma worker_run_ok: "worker_run finishes t u \<Longrightarrow> ptable_ok t \<Longrightarrow> ptable_ok u"
  by (induction rule: worker_run.induct) (auto intro: worker_step_ok)

text \<open>A row that is neither queued nor running stays as it is, whatever the workers do.\<close>

lemma update_other: "j \<in> set t \<Longrightarrow> \<not> P j \<Longrightarrow> j \<in> set (update_where P f t)"
  by (auto simp: set_update_where)

lemma settled_step:
  assumes "worker_step finishes t u" "ptable_ok t" "j \<in> set t" "jb_status j \<notin> {JQueued, JRunning}"
  shows "j \<in> set u"
proof -
  have held: "\<not> held_by key worker j" for key worker
    using assms(2-4) by (auto simp: ptable_ok_def prow_ok_def list_all_iff held_by_def)
  have "j \<in> set (snd (claim_rows (due_periodic now stale) now' locked worker m t))" for now stale now' locked worker m
  proof -
    obtain got t' where c: "claim_rows (due_periodic now stale) now' locked worker m t = (got, t')" by fastforce
    have "\<not> due_periodic now stale j" using assms(4) by (simp add: due_periodic_def)
    with claim_rows_exclusive(3) [OF c] assms(2,3) show ?thesis by (simp add: c ptable_ok_def)
  qed
  with assms(1,3) held show ?thesis
    by cases (auto simp: periodic_claim_def periodic_finish_def periodic_fail_def periodic_release_def change_held_def intro: update_other)
qed

lemma settled_run:
  assumes "worker_run finishes t u" "ptable_ok t" "j \<in> set t" "jb_status j \<notin> {JQueued, JRunning}"
  shows "j \<in> set u \<and> ptable_ok u"
  using assms
proof (induction rule: worker_run.induct)
  case (wr_step t u v)
  then show ?case using settled_step worker_step_ok by blast
qed simp

text \<open>So no claim ever returns it.\<close>

lemma settled_never_claimed:
  assumes "worker_run finishes t u" "ptable_ok t" "j \<in> set t" "jb_status j \<notin> {JQueued, JRunning}"
    and "periodic_claim dflt cap up now locked worker m stale u = (got, u')"
  shows "jb_key j \<notin> jb_key ` set got"
proof
  assume "jb_key j \<in> jb_key ` set got"
  have u: "j \<in> set u" "ptable_ok u" using settled_run [OF assms(1-4)] by blast+
  from \<open>jb_key j \<in> jb_key ` set got\<close> assms(5)
  obtain now' stale' m' where c: "claim_rows (due_periodic now stale') now' locked worker m' u = (got, u')" and "up"
    by (auto simp: periodic_claim_def split: if_splits)
  from \<open>jb_key j \<in> jb_key ` set got\<close> obtain j' where j': "j' \<in> set got" "jb_key j' = jb_key j" by auto
  from claim_rows_exclusive(1) [OF c] u(2) j'(1)
  obtain j0 where j0: "j0 \<in> set u" "due_periodic now stale' j0" "j' = take_claim now' worker j0" by (auto simp: ptable_ok_def)
  then have "j0 = j" using u j'(2) by (auto simp: ptable_ok_def distinct_map inj_on_def)
  with j0(2) assms(4) show False by (simp add: due_periodic_def)
qed

text \<open>So a finished job is never claimed again, though it has a time for its next run.\<close>

lemma finished_stays:
  assumes "ptable_ok t" "find (held_by user worker) t \<noteq> None" "(status, f) \<in> finishes"
    and "worker_run finishes (snd (periodic_finish status nxt f True user worker t)) u"
    and "periodic_claim dflt cap up now locked worker' m stale u = (got, u')"
  shows "user \<notin> jb_key ` set got \<and> (\<exists>j \<in> set u. jb_key j = user \<and> jb_status j = status \<and> jb_run_after j = nxt)"
proof -
  let ?t = "snd (periodic_finish status nxt f True user worker t)"
  obtain j0 where j0: "j0 \<in> set t" "held_by user worker j0" using assms(2) by (auto simp: find_None_iff)
  define j where "j = finished_row status nxt f j0"
  have j: "jb_key j = user" "jb_status j = status" "jb_run_after j = nxt"
    using own [OF assms(3)] j0(2) by (simp_all add: j_def finished_row_def frame_ok_def held_by_def)
  have "j \<in> set ?t" using in_update [OF j0(1), of "held_by user worker"] j0(2) by (simp add: snd_calls change_held_def j_def)
  moreover have "ptable_ok ?t" using worker_step_ok [OF ws_finish [OF assms(3)]] assms(1) by blast
  moreover have "jb_status j \<notin> {JQueued, JRunning}" using ends [OF assms(3)] j(2) by auto
  ultimately show ?thesis
    using settled_run [OF assms(4)] settled_never_claimed [OF assms(4) _ _ _ assms(5)] j by blast
qed

end

end
