(* ===== verification/Daily_Email.thy ===== *)
theory Daily_Email
  imports Periodic_Jobs
begin

text \<open>
  The daily e-mail jobs: the table of daily_email_jobs.sql with the client methods of
  app/database/client/daily_email_jobs.py, and the worker DailyEmailService of
  app/proactive/email/service.py. The extraction of the e-mails and of their highlights is an answer of
  the environment. A raised exception is \<open>Inl\<close> of its type and text.
\<close>

section \<open>The table\<close>

record ejob = job +
  ej_last_run :: "int option"
  ej_fetched :: int
  ej_highlights :: int

definition fresh_ejob :: ejob where
  "fresh_ejob = \<lparr>jb_key = '''', jb_status = JQueued, jb_run_after = 0, jb_attempts = 0, jb_error = None, jb_claimed_by = None,
     jb_claimed_at = None, ej_last_run = None, ej_fetched = 0, ej_highlights = 0\<rparr>"

definition set_run :: "int \<Rightarrow> int \<Rightarrow> int \<Rightarrow> ejob \<Rightarrow> ejob" where
  "set_run now fetched highlights j = j\<lparr>ej_last_run := Some now, ej_fetched := fetched, ej_highlights := highlights\<rparr>"

definition ej_schedule :: "bool \<Rightarrow> string \<Rightarrow> int option \<Rightarrow> int \<Rightarrow> ejob list \<Rightarrow> ejob option \<times> ejob list" where
  "ej_schedule up user run_after now t =
     periodic_schedule fresh_ejob up user
       (first_run 17 (\<lambda>d. d + secs 86400) run_after now) t"

definition ej_claim :: "bool \<Rightarrow> int \<Rightarrow> (ejob \<Rightarrow> bool) \<Rightarrow> string \<Rightarrow> int \<Rightarrow> int \<Rightarrow> ejob list \<Rightarrow> ejob list \<times> ejob list" where
  "ej_claim up now locked worker max_jobs stale t = periodic_claim 10 100 up now locked worker max_jobs stale t"

definition ej_complete :: "bool \<Rightarrow> int \<Rightarrow> string \<Rightarrow> string \<Rightarrow> int \<Rightarrow> int \<Rightarrow> ejob list \<Rightarrow> ejob option option \<times> ejob list" where
  "ej_complete up now user worker fetched highlights t =
     periodic_finish JDone (slot 1 17 now) (set_run now fetched highlights) up user worker t"

definition ej_fail :: "bool \<Rightarrow> int \<Rightarrow> string \<Rightarrow> string \<Rightarrow> string \<Rightarrow> int \<Rightarrow> int \<Rightarrow> ejob list \<Rightarrow> ejob option option \<times> ejob list" where
  "ej_fail up now user worker error backoff max_attempts t = periodic_fail up now user worker error backoff max_attempts t"

definition ej_release :: "bool \<Rightarrow> string \<Rightarrow> string \<Rightarrow> ejob list \<Rightarrow> bool \<times> ejob list" where
  "ej_release up user worker t = periodic_release up user worker t"

definition email_finishes :: "(job_status \<times> (ejob \<Rightarrow> ejob)) set" where
  "email_finishes = {(JDone, set_run now n h) | now n h. True}"

interpretation ejobs: periodic_jobs email_finishes
  by unfold_locales (auto simp: email_finishes_def frame_ok_def set_run_def)

section \<open>The worker\<close>

record euser =
  eu_onboarded :: bool
  eu_email_status :: "string option"

datatype ecall = EComp | EFailCall | ERelease

record eenv =
  ee_db_now :: int
  ee_parse :: "int \<Rightarrow> int option"
  ee_user :: "string \<Rightarrow> string + euser option"
  ee_extract :: "string \<Rightarrow> int option \<Rightarrow> string + (string + int)"
  ee_highlights :: "string \<Rightarrow> string + int"
  ee_up :: "ecall \<Rightarrow> bool"

datatype eaction = ENothing | EComplete int int | EFail string

definition ejob_user :: "ejob \<Rightarrow> string" where
  "ejob_user j = py_strip (jb_key j)"

definition edecide_user :: "eenv \<Rightarrow> ejob \<Rightarrow> string \<Rightarrow> euser option \<Rightarrow> string + eaction" where
  "edecide_user e j uid user = (case user of
     None \<Rightarrow> Inr (EComplete 0 0)
   | Some u \<Rightarrow>
       if \<not> eu_onboarded u then Inr (EComplete 0 0)
       else if eu_email_status u \<noteq> Some ''connected'' then Inr (EComplete 0 0)
       else (let start_date = Option.bind (ej_last_run j) (ee_parse e) in
         case ee_extract e uid start_date of
           Inl err \<Rightarrow> Inl err
         | Inr (Inl err) \<Rightarrow> Inr (EFail (''extraction_failed:'' @ err))
         | Inr (Inr stored) \<Rightarrow> (case ee_highlights e uid of Inl err \<Rightarrow> Inl err | Inr created \<Rightarrow> Inr (EComplete stored created))))"

definition eprocess :: "eenv \<Rightarrow> ejob \<Rightarrow> string + eaction" where
  "eprocess e j =
     (let uid = ejob_user j in
      if uid = [] then Inr ENothing
      else (case ee_user e uid of Inl err \<Rightarrow> Inl err | Inr user \<Rightarrow> edecide_user e j uid user))"

text \<open>The exception handler of \<open>run_once\<close>\<close>

definition edecide :: "eenv \<Rightarrow> ejob \<Rightarrow> eaction" where
  "edecide e j = (case eprocess e j of Inr act \<Rightarrow> act
     | Inl err \<Rightarrow> if ejob_user j \<noteq> [] then EFail (''job_crash:'' @ err) else ENothing)"

definition efail_job :: "eenv \<Rightarrow> string \<Rightarrow> ejob \<Rightarrow> string \<Rightarrow> ejob list \<Rightarrow> ejob list" where
  "efail_job e worker j error t =
     (case ej_fail (ee_up e EFailCall) (ee_db_now e) (ejob_user j) worker error (compute_backoff_seconds (jb_attempts j)) 5 t of
        (None, t') \<Rightarrow> snd (ej_release (ee_up e ERelease) (ejob_user j) worker t')
      | (Some _, t') \<Rightarrow> t')"

definition eperform :: "eenv \<Rightarrow> string \<Rightarrow> ejob \<Rightarrow> eaction \<Rightarrow> ejob list \<Rightarrow> ejob list" where
  "eperform e worker j act t = (case act of
     ENothing \<Rightarrow> t
   | EComplete fetched created \<Rightarrow> snd (ej_complete (ee_up e EComp) (ee_db_now e) (ejob_user j) worker fetched created t)
   | EFail err \<Rightarrow> efail_job e worker j err t)"

definition erun_once :: "bool \<Rightarrow> (string \<Rightarrow> eenv) \<Rightarrow> bool \<Rightarrow> int \<Rightarrow> (ejob \<Rightarrow> bool) \<Rightarrow> string \<Rightarrow> int \<Rightarrow> ejob list \<Rightarrow> nat \<times> ejob list" where
  "erun_once enabled es up now locked worker max_jobs t =
     (if \<not> enabled then (0, t)
      else (case ej_claim up now locked worker max_jobs 30 t of
        (jobs, t') \<Rightarrow> (length jobs, foldl (\<lambda>t j. let e = es (jb_key j) in eperform e worker j (edecide e j) t) t' jobs)))"

section \<open>Turns of the worker\<close>

lemma eperform_runs: "worker_run email_finishes t (eperform e worker j act t)"
proof (cases act)
  case ENothing
  then show ?thesis by (simp add: eperform_def wr_none)
next
  case (EComplete n h)
  have "(JDone, set_run now n h) \<in> email_finishes" for now by (auto simp: email_finishes_def)
  then show ?thesis by (simp add: EComplete eperform_def ej_complete_def worker_runs)
next
  case (EFail err)
  obtain out t' where fail: "ej_fail (ee_up e EFailCall) (ee_db_now e) (ejob_user j) worker err (compute_backoff_seconds (jb_attempts j)) 5 t
      = (out, t')" by fastforce
  then have run: "worker_run email_finishes t t'"
    unfolding ej_fail_def by (metis snd_conv worker_runs(3))
  then have "worker_run email_finishes t (snd (ej_release up user worker t'))" for up user
    unfolding ej_release_def by (rule worker_run_trans [OF worker_runs(4)])
  with fail run show ?thesis by (simp add: EFail eperform_def efail_job_def split: option.splits)
qed

lemma erun_runs: "worker_run email_finishes t (snd (erun_once enabled es up now locked worker max_jobs t))"
proof -
  have all: "worker_run email_finishes t' (foldl (\<lambda>t j. let e = es (jb_key j) in eperform e worker j (edecide e j) t) t' jobs)" for t' jobs
    by (induction jobs rule: rev_induct) (auto simp: Let_def wr_none intro: worker_run_trans [OF eperform_runs])
  obtain jobs t' where claim: "ej_claim up now locked worker max_jobs 30 t = (jobs, t')" by fastforce
  then have "worker_run email_finishes t t'" unfolding ej_claim_def by (metis snd_conv worker_runs(1))
  from worker_run_trans [OF all this] show ?thesis by (simp add: erun_once_def wr_none claim)
qed

lemma eperform_holds:
  assumes "\<And>c. ee_up e c" "ejob_user j = jb_key j" "act \<noteq> ENothing"
  shows "holds worker (eperform e worker j act t) = holds worker t - {jb_key j}"
proof (cases act)
  case (EComplete n h)
  have "(JDone, set_run now n h) \<in> email_finishes" for now by (auto simp: email_finishes_def)
  then show ?thesis using assms by (simp add: EComplete eperform_def ej_complete_def ejobs.holds_finish)
next
  case (EFail err)
  obtain out t' where fail: "ej_fail True (ee_db_now e) (jb_key j) worker err (compute_backoff_seconds (jb_attempts j)) 5 t = (Some out, t')"
    unfolding ej_fail_def using fail_answers by blast
  then have "holds worker t' = holds worker t - {jb_key j}"
    using holds_fail [of worker "ee_db_now e" "jb_key j" err "compute_backoff_seconds (jb_attempts j)" 5 t] by (simp add: ej_fail_def)
  with fail assms show ?thesis by (simp add: EFail eperform_def efail_job_def)
qed (use assms in simp)

lemma complete_finishes: "(JDone, set_run now n h) \<in> email_finishes"
  by (auto simp: email_finishes_def)

section \<open>Properties\<close>

text \<open>C22: A worker leaves none of its claims open. If the database answers its calls, and the keys of the rows
are user ids (not blank, no space around), then after a turn the worker holds no job that it did not
hold before, whatever the environment answers and whatever raises.\<close>

theorem daily_turn_settles_claims:
  assumes "\<And>k c. ee_up (es k) c" "\<And>j. j \<in> set t \<Longrightarrow> jb_key j \<noteq> [] \<and> py_strip (jb_key j) = jb_key j"
    and "holds worker t = {}"
  shows "holds worker (snd (erun_once enabled es up now locked worker max_jobs t)) = {}"
proof -
  obtain jobs t' where claim: "ej_claim up now locked worker max_jobs 30 t = (jobs, t')" by fastforce
  let ?step = "\<lambda>t j. let e = es (jb_key j) in eperform e worker j (edecide e j) t"
  have step: "holds worker (?step w j) \<subseteq> holds worker w - {jb_key j}" if j: "j \<in> set jobs" for w j
  proof -
    obtain j0 where "j0 \<in> set t" "jb_key j = jb_key j0" using claimed_from [OF claim [unfolded ej_claim_def] j] by blast
    then have "jb_key j \<noteq> [] \<and> py_strip (jb_key j) = jb_key j" using assms(2) by metis
    then have user: "ejob_user j = jb_key j" "ejob_user j \<noteq> []" unfolding ejob_user_def by metis+
    then have "edecide e j \<noteq> ENothing" for e
      by (auto simp: edecide_def eprocess_def edecide_user_def Let_def split: option.splits sum.splits if_splits)
    then show ?thesis using assms(1) user by (simp add: Let_def eperform_holds)
  qed
  have "holds worker (foldl ?step t' jobs) = {}"
    by (rule turn_settles [OF claim [unfolded ej_claim_def], where tab = "\<lambda>t. t", OF refl assms(3) step])
  with assms(3) show ?thesis by (simp add: erun_once_def claim)
qed

text \<open>A daily job runs once. When the job of a user is completed its next run is set to the next day, but
no later turn of any worker, at any time, ever claims it: only a new scheduling queues it, which the
program does only when a user is onboarded.\<close>

theorem daily_job_runs_once:
  assumes "ptable_ok t" "find (held_by user worker) t \<noteq> None"
    and "worker_run email_finishes (snd (ej_complete True now user worker fetched created t)) u"
    and "ej_claim up later locked worker' max_jobs stale u = (got, u')"
  shows "user \<notin> jb_key ` set got
    \<and> (\<exists>j \<in> set u. jb_key j = user \<and> jb_status j = JDone \<and> jb_run_after j = slot 1 17 now)"
  by (rule ejobs.finished_stays [OF assms(1,2) complete_finishes assms(3,4) [unfolded ej_complete_def ej_claim_def]])

text \<open>The job of a user, held by a worker.\<close>

definition example_ejob :: ejob where
  "example_ejob = fresh_ejob\<lparr>jb_key := ''u'', jb_status := JRunning, jb_claimed_by := Some ''w'', jb_claimed_at := Some 5\<rparr>"

definition example_eenv :: eenv where
  "example_eenv = \<lparr>ee_db_now = 10, ee_parse = Some, ee_user = (\<lambda>_. Inr (Some \<lparr>eu_onboarded = True, eu_email_status = Some ''connected''\<rparr>)),
     ee_extract = (\<lambda>_ _. Inr (Inr 3)), ee_highlights = (\<lambda>_. Inr 1), ee_up = (\<lambda>_. True)\<rparr>"

lemma daily_turn_settles_claims_witness:
  "holds ''v'' (snd (erun_once True (\<lambda>_. example_eenv) True (secs 2000) (\<lambda>_. False) ''v'' 5 [example_ejob])) = {}"
  by (rule daily_turn_settles_claims) (simp_all add: example_eenv_def example_ejob_def fresh_ejob_def strip_eval holds_def)

lemma daily_job_runs_once_witness:
  "\<exists>u. ''u'' \<notin> jb_key ` set (fst (ej_claim True (secs 1000000) (\<lambda>_. False) ''v'' 5 30 u))
     \<and> u = snd (ej_complete True 10 ''u'' ''w'' 3 1 [example_ejob])"
proof -
  define u where "u = snd (ej_complete True 10 ''u'' ''w'' 3 1 [example_ejob])"
  have ok: "ptable_ok [example_ejob]" "find (held_by ''u'' ''w'') [example_ejob] \<noteq> None"
    by (simp_all add: ptable_ok_def prow_ok_def example_ejob_def fresh_ejob_def held_by_def)
  have run: "worker_run email_finishes (snd (ej_complete True 10 ''u'' ''w'' 3 1 [example_ejob])) u" by (simp add: u_def wr_none)
  obtain got u' where claim: "ej_claim True (secs 1000000) (\<lambda>_. False) ''v'' 5 30 u = (got, u')" by fastforce
  from daily_job_runs_once [OF ok run claim] show ?thesis using claim by (intro exI [of _ u]) (simp add: u_def [symmetric])
qed

end
