(* ===== verification/Semantic_Dedup.thy ===== *)
theory Semantic_Dedup
  imports Complex_Main Frank_Prelude
begin

text \<open>
  When two texts of outreach are about the same: app/proactive/outreach/semantic_dedup.py. The matcher of
  Python's difflib is modelled as the module uses it (no junk function, automatic junk on). The two
  similarities are rationals; comparing the rounded quotients with the thresholds gives the same
  answers, since texts are shorter than 2 ^ 40.
\<close>

section \<open>Keywords\<close>

text \<open>\<open>COURSE_PATTERN.sub\<close>: the spaces between letters and digits are dropped. A run of letters without
digits after it is passed over as a whole, since no shorter part of it matches either.\<close>

function course_sub :: "string \<Rightarrow> string" where
  "course_sub [] = []"
| "course_sub (c # cs) =
     (if \<not> is_letter c then c # course_sub cs
      else (let letters = takeWhile is_letter (c # cs); rest = dropWhile is_letter (c # cs); tail = dropWhile py_space rest;
                digits = takeWhile is_digit tail
            in if digits = [] then letters @ course_sub rest
               else py_lower letters @ digits @ course_sub (dropWhile is_digit tail)))"
  by pat_completeness auto
termination
proof (relation "measure length", goal_cases)
  case (3 c cs letters rest tail digits)
  have "length rest \<le> length cs" using 3 by (simp add: length_dropWhile_le)
  then show ?case by simp
next
  case (4 c cs letters rest tail digits)
  have "length (dropWhile is_digit tail) \<le> length tail" "length tail \<le> length rest" "length rest \<le> length cs"
    using 4 by (simp_all add: length_dropWhile_le)
  then show ?case by simp
qed simp_all

definition normalize_text :: "string \<Rightarrow> string" where
  "normalize_text t =
     (if t = [] then []
      else (let t1 = course_sub (py_strip (py_lower t));
                t2 = map (\<lambda>c. if is_word_char c \<or> py_space c then c else CHR '' '') t1
            in py_strip (sub_runs py_space CHR '' '' t2)))"

definition stop_words :: "string list" where
  "stop_words = [''a'', ''an'', ''the'', ''and'', ''or'', ''but'', ''nor'', ''so'', ''yet'',
     ''in'', ''on'', ''at'', ''to'', ''for'', ''of'', ''with'', ''by'', ''from'', ''as'',
     ''into'', ''through'', ''during'', ''before'', ''after'', ''above'', ''below'', ''between'', ''under'', ''over'',
     ''is'', ''are'', ''was'', ''were'', ''been'', ''be'', ''have'', ''has'', ''had'',
     ''do'', ''does'', ''did'', ''will'', ''would'', ''could'', ''should'', ''may'', ''might'', ''must'', ''shall'', ''can'', ''need'',
     ''i'', ''me'', ''my'', ''we'', ''us'', ''our'', ''you'', ''your'', ''he'', ''him'',
     ''his'', ''she'', ''her'', ''it'', ''its'', ''they'', ''them'', ''their'',
     ''looking'', ''want'', ''need'', ''interested'', ''help'', ''find'', ''connect'',
     ''someone'', ''people'', ''person'', ''group'', ''anyone'', ''everybody'',
     ''who'', ''what'', ''where'', ''when'', ''how'', ''why'', ''which'',
     ''this'', ''that'', ''these'', ''those'', ''am'', ''just'', ''also'', ''very'',
     ''really'', ''some'', ''any'', ''all'', ''most'', ''other'', ''more'', ''less'']"

definition extract_keywords :: "string \<Rightarrow> string set" where
  "extract_keywords t =
     (let normalized = normalize_text t in
      if normalized = [] then {}
      else set (filter (\<lambda>w. 1 < length w \<and> w \<notin> set stop_words) (words_by py_space normalized)))"

definition jaccard_similarity :: "string \<Rightarrow> string \<Rightarrow> rat" where
  "jaccard_similarity text1 text2 =
     (let kw1 = extract_keywords text1; kw2 = extract_keywords text2 in
      if kw1 = {} \<or> kw2 = {} then 0 else of_nat (card (kw1 \<inter> kw2)) / of_nat (card (kw1 \<union> kw2)))"

section \<open>The sequence matcher\<close>

text \<open>A character is popular, and not looked up, if a text of 200 characters or more has too many of it.\<close>

definition popular :: "string \<Rightarrow> char \<Rightarrow> bool" where
  "popular b c \<longleftrightarrow> 200 \<le> length b \<and> length b div 100 + 1 < count_list b c"

text \<open>
  \<open>find_longest_match\<close>: for each position of \<open>a\<close>, the lengths of the matches that end there at each
  position of \<open>b\<close> (\<open>j2len\<close>), and the first longest one so far. Then the match is extended, over
  popular characters, to both sides.
\<close>

definition match_cell :: "nat \<Rightarrow> (nat \<Rightarrow> nat) \<Rightarrow> nat \<Rightarrow> (nat \<times> nat \<times> nat) \<times> (nat \<Rightarrow> nat) \<Rightarrow> (nat \<times> nat \<times> nat) \<times> (nat \<Rightarrow> nat)" where
  "match_cell i j2len j s = (case s of ((bi, bj, bk), new) \<Rightarrow>
     (let k = (if j = 0 then 0 else j2len (j - 1)) + 1 in
      (if bk < k then (i + 1 - k, j + 1 - k, k) else (bi, bj, bk), new(j := k))))"

definition match_row :: "string \<Rightarrow> string \<Rightarrow> nat \<Rightarrow> nat \<Rightarrow> nat \<Rightarrow> (nat \<times> nat \<times> nat) \<times> (nat \<Rightarrow> nat) \<Rightarrow> (nat \<times> nat \<times> nat) \<times> (nat \<Rightarrow> nat)" where
  "match_row a b blo bhi i s = (case s of (best, j2len) \<Rightarrow>
     fold (match_cell i j2len) (filter (\<lambda>j. b ! j = a ! i \<and> \<not> popular b (b ! j)) [blo..<bhi]) (best, \<lambda>_. 0))"

fun extend_back :: "string \<Rightarrow> string \<Rightarrow> nat \<Rightarrow> nat \<Rightarrow> nat \<Rightarrow> nat \<Rightarrow> nat \<Rightarrow> nat \<times> nat \<times> nat" where
  "extend_back a b alo blo i j k =
     (if alo < i \<and> blo < j \<and> a ! (i - 1) = b ! (j - 1) then extend_back a b alo blo (i - 1) (j - 1) (k + 1) else (i, j, k))"

function extend_on :: "string \<Rightarrow> string \<Rightarrow> nat \<Rightarrow> nat \<Rightarrow> nat \<Rightarrow> nat \<Rightarrow> nat \<Rightarrow> nat" where
  "extend_on a b ahi bhi i j k =
     (if i + k < ahi \<and> j + k < bhi \<and> a ! (i + k) = b ! (j + k) then extend_on a b ahi bhi i j (k + 1) else k)"
  by pat_completeness auto
termination by (relation "measure (\<lambda>(a, b, ahi, bhi, i, j, k). ahi - (i + k))") auto

declare extend_back.simps [simp del] extend_on.simps [simp del]

definition find_longest_match :: "string \<Rightarrow> string \<Rightarrow> nat \<Rightarrow> nat \<Rightarrow> nat \<Rightarrow> nat \<Rightarrow> nat \<times> nat \<times> nat" where
  "find_longest_match a b alo ahi blo bhi =
     (case fst (fold (match_row a b blo bhi) [alo..<ahi] ((alo, blo, 0), \<lambda>_. 0)) of (i, j, k) \<Rightarrow>
      (case extend_back a b alo blo i j k of (i', j', k') \<Rightarrow> (i', j', extend_on a b ahi bhi i' j' k')))"

text \<open>A match inside the two ranges\<close>

definition inside :: "nat \<Rightarrow> nat \<Rightarrow> nat \<Rightarrow> nat \<Rightarrow> nat \<times> nat \<times> nat \<Rightarrow> bool" where
  "inside alo ahi blo bhi m = (case m of (i, j, k) \<Rightarrow> alo \<le> i \<and> i + k \<le> ahi \<and> blo \<le> j \<and> j + k \<le> bhi)"

text \<open>The lengths of the matches ending just before position \<open>i\<close> stay inside both ranges.\<close>

definition lens_ok :: "nat \<Rightarrow> nat \<Rightarrow> nat \<Rightarrow> (nat \<Rightarrow> nat) \<Rightarrow> bool" where
  "lens_ok alo blo i j2len \<longleftrightarrow> (\<forall>j. j2len j \<le> i - alo \<and> j2len j \<le> j + 1 - blo)"

lemma lens_ok_upd: "lens_ok alo blo i f \<Longrightarrow> k \<le> i - alo \<Longrightarrow> k \<le> j + 1 - blo \<Longrightarrow> lens_ok alo blo i (f(j := k))"
  by (simp add: lens_ok_def)

lemma match_cell_inside:
  assumes "inside alo ahi blo bhi (fst s)" "lens_ok alo blo i j2len" "lens_ok alo blo (i + 1) (snd s)"
    and "alo \<le> i" "i < ahi" "blo \<le> j" "j < bhi"
  shows "inside alo ahi blo bhi (fst (match_cell i j2len j s)) \<and> lens_ok alo blo (i + 1) (snd (match_cell i j2len j s))"
proof -
  define k where "k = (if j = 0 then 0 else j2len (j - 1)) + 1"
  have "j2len (j - 1) \<le> i - alo" "j2len (j - 1) \<le> j - 1 + 1 - blo" using assms(2) unfolding lens_ok_def by blast+
  then have k: "k \<le> i + 1 - alo" "k \<le> j + 1 - blo" using assms(4,6) by (auto simp: k_def)
  obtain bi bj bk new where s: "s = ((bi, bj, bk), new)" by (cases s) auto
  have "inside alo ahi blo bhi (i + 1 - k, j + 1 - k, k)"
    unfolding inside_def prod.case using k assms(4-7) by linarith
  moreover have "lens_ok alo blo (i + 1) (new(j := k))"
    using lens_ok_upd [OF _ k] assms(3) s by simp
  ultimately show ?thesis using assms(1) unfolding match_cell_def s prod.case Let_def k_def [symmetric] by simp
qed

lemma match_cells_inside:
  assumes "inside alo ahi blo bhi (fst s)" "lens_ok alo blo i j2len" "lens_ok alo blo (i + 1) (snd s)"
    and "alo \<le> i" "i < ahi" "\<And>j. j \<in> set js \<Longrightarrow> blo \<le> j \<and> j < bhi"
  shows "inside alo ahi blo bhi (fst (fold (match_cell i j2len) js s)) \<and> lens_ok alo blo (i + 1) (snd (fold (match_cell i j2len) js s))"
  using assms(1,3,6)
proof (induction js arbitrary: s)
  case (Cons j js)
  then have "blo \<le> j" "j < bhi" by simp_all
  from match_cell_inside [OF Cons.prems(1) assms(2) Cons.prems(2) assms(4,5) this] Cons show ?case by simp
qed simp

lemma match_row_pair: "match_row a b blo bhi i (best, j2len) =
    fold (match_cell i j2len) (filter (\<lambda>j. b ! j = a ! i \<and> \<not> popular b (b ! j)) [blo..<bhi]) (best, \<lambda>_. 0)"
  by (simp add: match_row_def)

lemma match_rows_inside:
  assumes "alo \<le> n" "n \<le> ahi" "inside alo ahi blo bhi (fst s)" "lens_ok alo blo alo (snd s)"
  shows "inside alo ahi blo bhi (fst (fold (match_row a b blo bhi) [alo..<n] s))
    \<and> lens_ok alo blo n (snd (fold (match_row a b blo bhi) [alo..<n] s))"
  using assms(1,2)
proof (induction n rule: dec_induct)
  case base
  then show ?case using assms(3,4) by simp
next
  case (step n)
  obtain best j2len where s: "fold (match_row a b blo bhi) [alo..<n] s = (best, j2len)" by fastforce
  with step have IH: "inside alo ahi blo bhi best" "lens_ok alo blo n j2len" by simp_all
  have "lens_ok alo blo (n + 1) (\<lambda>_. 0)" by (simp add: lens_ok_def)
  from match_cells_inside [of alo ahi blo bhi "(best, \<lambda>_. 0)" n j2len "filter (\<lambda>j. b ! j = a ! n \<and> \<not> popular b (b ! j)) [blo..<bhi]"]
    IH this step show ?case by (simp add: s match_row_pair)
qed

lemma extend_back_inside: "inside alo ahi blo bhi (i, j, k) \<Longrightarrow> inside alo ahi blo bhi (extend_back a b alo blo i j k)"
proof (induction a b alo blo i j k rule: extend_back.induct)
  case (1 a b alo blo i j k)
  show ?case
  proof (cases "alo < i \<and> blo < j \<and> a ! (i - 1) = b ! (j - 1)")
    case True
    then have "inside alo ahi blo bhi (i - 1, j - 1, k + 1)" using 1(2) by (simp add: inside_def) linarith
    with 1(1) [OF True] True show ?thesis by (simp add: extend_back.simps [of a b alo blo i j k])
  next
    case False
    then have "extend_back a b alo blo i j k = (i, j, k)" by (subst extend_back.simps) (use False in auto)
    then show ?thesis using 1(2) by simp
  qed
qed

lemma extend_on_inside: "inside alo ahi blo bhi (i, j, k) \<Longrightarrow> inside alo ahi blo bhi (i, j, extend_on a b ahi bhi i j k)"
proof (induction a b ahi bhi i j k rule: extend_on.induct)
  case (1 a b ahi bhi i j k)
  then show ?case by (subst extend_on.simps) (simp add: inside_def)
qed

lemma find_longest_match_inside:
  assumes "alo \<le> ahi" "blo \<le> bhi"
  shows "inside alo ahi blo bhi (find_longest_match a b alo ahi blo bhi)"
proof -
  obtain i j k j2len where f: "fold (match_row a b blo bhi) [alo..<ahi] ((alo, blo, 0), \<lambda>_. 0) = ((i, j, k), j2len)"
    by (metis prod_cases3 surj_pair)
  have "inside alo ahi blo bhi (i, j, k)"
    using match_rows_inside [OF assms(1) order_refl, of blo bhi "((alo, blo, 0), \<lambda>_. 0)" a b] assms(2)
    by (simp add: f inside_def lens_ok_def) (use assms in simp)
  from extend_back_inside [OF this, of a b] show ?thesis
    by (auto simp: find_longest_match_def f split: prod.splits intro: extend_on_inside)
qed

text \<open>The matched characters: the longest match, and those left and right of it.\<close>

function matches :: "string \<Rightarrow> string \<Rightarrow> nat \<Rightarrow> nat \<Rightarrow> nat \<Rightarrow> nat \<Rightarrow> nat" where
  "matches a b alo ahi blo bhi =
     (if ahi < alo \<or> bhi < blo then 0
      else (case find_longest_match a b alo ahi blo bhi of (i, j, k) \<Rightarrow>
        if k = 0 then 0
        else k + (if alo < i \<and> blo < j then matches a b alo i blo j else 0)
               + (if i + k < ahi \<and> j + k < bhi then matches a b (i + k) ahi (j + k) bhi else 0)))"
  by pat_completeness auto
termination
proof (relation "measure (\<lambda>(a, b, alo, ahi, blo, bhi). ahi - alo)")
  fix a b :: string and alo ahi blo bhi i jk j k
  assume m: "\<not> (ahi < alo \<or> bhi < blo)" "(i, jk) = find_longest_match a b alo ahi blo bhi" "(j, k) = jk" "k \<noteq> 0"
  have "inside alo ahi blo bhi (i, j, k)" using find_longest_match_inside [of alo ahi blo bhi a b] m by simp
  with m show "((a, b, alo, i, blo, j), a, b, alo, ahi, blo, bhi) \<in> measure (\<lambda>(a, b, alo, ahi, blo, bhi). ahi - alo)"
    "((a, b, i + k, ahi, j + k, bhi), a, b, alo, ahi, blo, bhi) \<in> measure (\<lambda>(a, b, alo, ahi, blo, bhi). ahi - alo)"
    by (auto simp: inside_def)
qed simp

declare matches.simps [simp del]

definition sequence_similarity :: "string \<Rightarrow> string \<Rightarrow> rat" where
  "sequence_similarity text1 text2 =
     (let norm1 = normalize_text text1; norm2 = normalize_text text2 in
      if norm1 = [] \<or> norm2 = [] then 0
      else of_nat (2 * matches norm1 norm2 0 (length norm1) 0 (length norm2)) / of_nat (length norm1 + length norm2))"

definition is_semantic_duplicate :: "string \<Rightarrow> string \<Rightarrow> bool" where
  "is_semantic_duplicate text1 text2 =
     (if text1 = [] \<or> text2 = [] then False
      else if 1 / 2 \<le> jaccard_similarity text1 text2 then True
      else if 3 / 5 \<le> sequence_similarity text1 text2 then True
      else False)"

section \<open>Bounds\<close>

text \<open>The matches use no position of either text twice.\<close>

lemma matches_bound: "matches a b alo ahi blo bhi \<le> min (ahi - alo) (bhi - blo)"
proof (induction a b alo ahi blo bhi rule: matches.induct)
  case (1 a b alo ahi blo bhi)
  show ?case
  proof (cases "ahi < alo \<or> bhi < blo")
    case True
    then show ?thesis by (simp add: matches.simps [of a b alo])
  next
    case False
    obtain i j k where m: "find_longest_match a b alo ahi blo bhi = (i, j, k)" by (metis prod_cases3)
    have ins: "alo \<le> i" "i + k \<le> ahi" "blo \<le> j" "j + k \<le> bhi"
      using find_longest_match_inside [of alo ahi blo bhi a b] False by (simp_all add: m inside_def)
    let ?l = "if alo < i \<and> blo < j then matches a b alo i blo j else 0"
    let ?r = "if i + k < ahi \<and> j + k < bhi then matches a b (i + k) ahi (j + k) bhi else 0"
    have "?l \<le> min (i - alo) (j - blo)" "?r \<le> min (ahi - (i + k)) (bhi - (j + k))" if "k \<noteq> 0"
      using 1 [OF False m [symmetric] refl that] by auto
    then show ?thesis using ins False by (auto simp: matches.simps [of a b alo] m)
  qed
qed

lemma finite_keywords [simp]: "finite (extract_keywords t)"
  by (simp add: extract_keywords_def Let_def)

text \<open>Both similarities are between 0 and 1, as their descriptions say, for any two texts; the matcher
terminates for them, though the search for matches is repeated left and right of each match.\<close>

theorem similarities_in_unit_interval:
  "0 \<le> jaccard_similarity s t \<and> jaccard_similarity s t \<le> 1 \<and> 0 \<le> sequence_similarity s t \<and> sequence_similarity s t \<le> 1"
proof -
  have "card (extract_keywords s \<inter> extract_keywords t) \<le> card (extract_keywords s \<union> extract_keywords t)"
    by (rule card_mono) auto
  then have "0 \<le> jaccard_similarity s t \<and> jaccard_similarity s t \<le> 1"
    by (simp add: jaccard_similarity_def Let_def divide_le_eq_1 card_gt_0_iff)
  moreover have "2 * matches a b 0 (length a) 0 (length b) \<le> length a + length b" for a b
    using matches_bound [of a b 0 "length a" 0 "length b"] by simp
  then have "(of_nat (2 * matches a b 0 (length a) 0 (length b)) :: rat) \<le> of_nat (length a + length b)" for a b
    by (simp only: of_nat_le_iff)
  then have "0 \<le> sequence_similarity s t \<and> sequence_similarity s t \<le> 1"
    by (simp add: sequence_similarity_def Let_def divide_le_eq_1 add_nonneg_eq_0_iff del: of_nat_mult of_nat_add)
  ultimately show ?thesis by blast
qed

section \<open>Equal texts\<close>

definition cell_len :: "(nat \<Rightarrow> nat) \<Rightarrow> nat \<Rightarrow> nat" where
  "cell_len j2len j = (if j = 0 then 0 else j2len (j - 1)) + 1"

lemma match_cell_step: "match_cell i j2len j (best, new) =
    ((if snd (snd best) < cell_len j2len j then (i + 1 - cell_len j2len j, j + 1 - cell_len j2len j, cell_len j2len j) else best),
     new(j := cell_len j2len j))"
  by (cases best) (simp add: match_cell_def cell_len_def Let_def)

lemma cells_lens: "snd (fold (match_cell i j2len) js s) j = (if j \<in> set js then cell_len j2len j else snd s j)"
  by (induction js arbitrary: s) (auto simp: match_cell_step split_paired_all)

lemma cells_best: "(\<And>j. j \<in> set js \<Longrightarrow> cell_len j2len j \<le> m) \<Longrightarrow> snd (snd (fst s)) \<le> m
    \<Longrightarrow> snd (snd (fst (fold (match_cell i j2len) js s))) \<le> m"
  by (induction js arbitrary: s) (auto simp: match_cell_step split_paired_all)

lemma rows_equal:
  assumes "length a < 200" "i \<le> length a"
  shows "\<exists>best j2len. fold (match_row a a 0 (length a)) [0..<i] ((0, 0, 0), \<lambda>_. 0) = (best, j2len)
    \<and> snd (snd best) \<le> i \<and> (0 < i \<longrightarrow> j2len (i - 1) = i) \<and> lens_ok 0 0 i j2len"
  using assms(2)
proof (induction i)
  case 0
  then show ?case by (simp add: lens_ok_def)
next
  case (Suc i)
  then obtain best j2len where s: "fold (match_row a a 0 (length a)) [0..<i] ((0, 0, 0), \<lambda>_. 0) = (best, j2len)"
    "snd (snd best) \<le> i" "0 < i \<longrightarrow> j2len (i - 1) = i" "lens_ok 0 0 i j2len" by auto
  let ?js = "filter (\<lambda>j. a ! j = a ! i \<and> \<not> popular a (a ! j)) [0..<length a]"
  let ?row = "fold (match_cell i j2len) ?js (best, \<lambda>_. 0)"
  have "j2len j \<le> i" for j using s(4) by (simp add: lens_ok_def)
  then have len: "cell_len j2len j \<le> Suc i" for j by (simp add: cell_len_def)
  have "fold (match_row a a 0 (length a)) [0..<Suc i] ((0, 0, 0), \<lambda>_. 0) = ?row" by (simp add: s(1) match_row_pair)
  moreover have "snd (snd (fst ?row)) \<le> Suc i" by (rule cells_best) (use len s(2) in auto)
  moreover have "i \<in> set ?js" using Suc.prems assms(1) by (simp add: popular_def)
  then have "snd ?row i = Suc i" using s(3) by (simp add: cells_lens cell_len_def)
  moreover have "lens_ok 0 0 (Suc i) (snd ?row)"
    using match_rows_inside [of 0 "Suc i" "length a" 0 "length a" "((0, 0, 0), \<lambda>_. 0)" a a] Suc.prems
    by (simp add: inside_def lens_ok_def s(1) match_row_pair)
  ultimately show ?case by (intro exI [of _ "fst ?row"] exI [of _ "snd ?row"]) (simp only: prod.collapse diff_Suc_1 simp_thms)
qed

lemma longest_match_equal:
  assumes "length a < 200" "a \<noteq> []"
  shows "find_longest_match a a 0 (length a) 0 (length a) = (0, 0, length a)"
proof -
  obtain n where n: "length a = Suc n" using assms(2) by (cases a) auto
  obtain best j2len where s: "fold (match_row a a 0 (length a)) [0..<n] ((0, 0, 0), \<lambda>_. 0) = (best, j2len)"
    "snd (snd best) \<le> n" "0 < n \<longrightarrow> j2len (n - 1) = n" "lens_ok 0 0 n j2len"
    using rows_equal [OF assms(1), of n] n by auto
  let ?P = "\<lambda>j. a ! j = a ! n \<and> \<not> popular a (a ! j)"
  let ?js = "filter ?P [0..<n]"
  let ?row = "fold (match_cell n j2len) ?js (best, \<lambda>_. 0)"
  have "filter ?P [0..<length a] = ?js @ [n]" using assms(1) by (simp add: n popular_def)
  then have last: "fold (match_row a a 0 (length a)) [0..<length a] ((0, 0, 0), \<lambda>_. 0) = match_cell n j2len n ?row"
    using s(1) unfolding n upt_Suc by (simp add: match_row_pair n)
  have "cell_len j2len j \<le> n" if "j \<in> set ?js" for j
  proof -
    have "j2len (j - 1) \<le> j - 1 + 1" using s(4) unfolding lens_ok_def by (metis diff_zero)
    with that show ?thesis by (auto simp: cell_len_def)
  qed
  then have "snd (snd (fst ?row)) \<le> n" by (rule cells_best) (use s(2) in auto)
  moreover have "cell_len j2len n = Suc n" using s(3) by (simp add: cell_len_def)
  ultimately have best: "fst (match_cell n j2len n ?row) = (0, 0, length a)"
    by (cases ?row) (simp add: match_cell_step n)
  have "extend_back a a 0 0 0 0 (length a) = (0, 0, length a)" "extend_on a a (length a) (length a) 0 0 (length a) = length a"
    by (subst extend_back.simps, simp, subst extend_on.simps, simp)
  then show ?thesis unfolding find_longest_match_def last best prod.case by simp
qed

text \<open>Texts that differ only in case, punctuation and spacing are duplicates: if two texts have the same
normal form, which is not empty and shorter than the 200 characters from which the matcher treats
frequent characters as junk, one is a duplicate of the other.\<close>

theorem same_normal_form_is_duplicate:
  assumes "normalize_text s = normalize_text t" "normalize_text t \<noteq> []" "length (normalize_text t) < 200"
  shows "is_semantic_duplicate s t"
proof -
  let ?a = "normalize_text t"
  have "s \<noteq> []" "t \<noteq> []" using assms(1,2) by (auto simp: normalize_text_def)
  moreover have "matches ?a ?a 0 (length ?a) 0 (length ?a) = length ?a"
    by (simp add: matches.simps [of ?a] longest_match_equal [OF assms(3,2)])
  then have "sequence_similarity s t = 1" using assms(1,2) by (simp add: sequence_similarity_def Let_def)
  ultimately show ?thesis by (simp add: is_semantic_duplicate_def)
qed

lemma same_normal_form_is_duplicate_witness: "is_semantic_duplicate ''CS 161!'' ''cs161''"
  by (rule same_normal_form_is_duplicate) code_simp+

text \<open>A course written with a hyphen is not normalized to the same word, as a comment on the pattern says.\<close>

lemma hyphen_kept: "normalize_text ''cs-161'' = ''cs 161'' \<and> normalize_text ''CS 161'' = ''cs161''"
  by code_simp

end
