(* ===== verification/Outreach.thy ===== *)
theory Outreach
  imports Daily_Email Semantic_Dedup
begin

text \<open>
  The proactive outreach: the table of proactive_outreach_jobs_v2.sql with the client methods of
  app/database/client/proactive_outreach_jobs.py, the duplicate check of
  app/proactive/outreach/duplicate_checker.py, and the worker of app/proactive/outreach/service.py.
  What the worker does to the outside (requests, messages, records) is a log of effects, also where a
  later step fails. The suggestions, their ranking, the matches and the texts of the language model are
  answers of the environment, as are the creation of a request and the sending of a message. Reads of
  the tracking table within one job answer the same. A raised exception is \<open>Inl\<close> of its type and text.
\<close>

section \<open>The table\<close>

record ojob = job +
  oj_last_at :: "int option"
  oj_signal :: "string option"
  oj_request :: "string option"
  oj_skip :: "string option"

definition fresh_ojob :: ojob where
  "fresh_ojob = \<lparr>jb_key = '''', jb_status = JQueued, jb_run_after = 0, jb_attempts = 0, jb_error = None, jb_claimed_by = None,
     jb_claimed_at = None, oj_last_at = None, oj_signal = None, oj_request = None, oj_skip = None\<rparr>"

definition set_sent :: "int \<Rightarrow> string option \<Rightarrow> string option \<Rightarrow> ojob \<Rightarrow> ojob" where
  "set_sent now signal request j = j\<lparr>oj_last_at := Some now, oj_signal := signal, oj_request := request, oj_skip := None\<rparr>"

definition set_skip :: "string \<Rightarrow> ojob \<Rightarrow> ojob" where
  "set_skip reason j = j\<lparr>oj_skip := Some reason\<rparr>"

text \<open>\<open>interval_days or 2\<close>\<close>

definition interval_or :: "int option \<Rightarrow> int" where
  "interval_or d = (case d of None \<Rightarrow> 2 | Some n \<Rightarrow> or_default n 2)"


definition oj_schedule :: "bool \<Rightarrow> string \<Rightarrow> int option \<Rightarrow> int option \<Rightarrow> int \<Rightarrow> ojob list \<Rightarrow> ojob option \<times> ojob list" where
  "oj_schedule up user run_after interval now t =
     periodic_schedule fresh_ojob up user (first_run 18 (\<lambda>_. slot (interval_or interval) 18 now) run_after now) t"

definition oj_claim :: "bool \<Rightarrow> int \<Rightarrow> (ojob \<Rightarrow> bool) \<Rightarrow> string \<Rightarrow> int \<Rightarrow> int \<Rightarrow> ojob list \<Rightarrow> ojob list \<times> ojob list" where
  "oj_claim up now locked worker max_jobs stale t = periodic_claim 5 50 up now locked worker max_jobs stale t"

definition oj_complete :: "bool \<Rightarrow> int \<Rightarrow> string \<Rightarrow> string \<Rightarrow> string option \<Rightarrow> string option \<Rightarrow> int option \<Rightarrow> ojob list
    \<Rightarrow> ojob option option \<times> ojob list" where
  "oj_complete up now user worker signal request interval t =
     periodic_finish JDone (slot (interval_or interval) 18 now) (set_sent now (or_null signal) (or_null request)) up user worker t"

definition oj_skip_job :: "bool \<Rightarrow> int \<Rightarrow> string \<Rightarrow> string \<Rightarrow> string \<Rightarrow> int option \<Rightarrow> ojob list \<Rightarrow> ojob option option \<times> ojob list" where
  "oj_skip_job up now user worker reason interval t =
     periodic_finish JSkipped (slot (interval_or interval) 18 now) (set_skip (take 500 reason)) up user worker t"

definition oj_fail :: "bool \<Rightarrow> int \<Rightarrow> string \<Rightarrow> string \<Rightarrow> string \<Rightarrow> int \<Rightarrow> int \<Rightarrow> ojob list \<Rightarrow> ojob option option \<times> ojob list" where
  "oj_fail up now user worker error backoff max_attempts t = periodic_fail up now user worker error backoff max_attempts t"

definition oj_release :: "bool \<Rightarrow> string \<Rightarrow> string \<Rightarrow> ojob list \<Rightarrow> bool \<times> ojob list" where
  "oj_release up user worker t = periodic_release up user worker t"

definition outreach_finishes :: "(job_status \<times> (ojob \<Rightarrow> ojob)) set" where
  "outreach_finishes = {(JDone, set_sent now s r) | now s r. True} \<union> {(JSkipped, set_skip reason) | reason. True}"

interpretation ojobs: periodic_jobs outreach_finishes
  by unfold_locales (auto simp: outreach_finishes_def frame_ok_def set_sent_def set_skip_def)

text \<open>\<open>_schedule_proactive_jobs\<close> of the onboarding: both jobs, if the e-mail account is connected. It is the
only place that schedules them.\<close>

definition schedule_proactive_jobs :: "bool \<Rightarrow> string \<Rightarrow> string option \<Rightarrow> int \<Rightarrow> ejob list \<times> ojob list \<Rightarrow> ejob list \<times> ojob list" where
  "schedule_proactive_jobs up user email_status now w = (case w of (et, ot) \<Rightarrow>
     if email_status \<noteq> Some ''connected'' then (et, ot)
     else (snd (ej_schedule up user None now et), snd (oj_schedule up user None None now ot)))"

section \<open>One job\<close>

record osignal =
  os_id :: "string option"
  os_text :: string
  os_multi :: bool
  os_max :: int
  os_group_name :: "string option"

record omatch =
  om_target :: "string option"
  om_name :: "string option"
  om_reasons :: "string list"

record ouser =
  ou_onboarded :: bool
  ou_email_status :: "string option"
  ou_preference :: bool
  ou_name :: "string option"
  ou_phone :: "string option"

datatype ocall = OCompleteCall | OSkipCall | OFailCall | OReleaseCall

record oenv =
  oe_db_now :: int
  oe_user :: "string \<Rightarrow> string + ouser option"
  oe_suggest :: "string + string list"
  oe_texts :: "string option list"
  oe_by_target :: "string \<Rightarrow> bool"
  oe_rank :: "string list \<Rightarrow> string list \<Rightarrow> string + osignal list"
  oe_find :: "nat \<Rightarrow> nat \<Rightarrow> string \<Rightarrow> string list \<Rightarrow> string + omatch option"
  oe_create :: "nat \<Rightarrow> omatch \<Rightarrow> string + string option"
  oe_uuid :: string
  oe_message :: "string + string option"
  oe_send :: "string option"
  oe_up :: "ocall \<Rightarrow> bool"

datatype oeffect =
    ESaveOpportunities
  | ERequest "string option"
  | ETag string string "string option"
  | ESend string string
  | EStore string
  | ETask bool "string list"
  | ETrack "string option" string

text \<open>The duplicate check; an error of either look-up is an empty answer.\<close>

definition check_outreach_duplicate :: "oenv \<Rightarrow> string \<Rightarrow> string option \<Rightarrow> bool" where
  "check_outreach_duplicate e text target \<longleftrightarrow>
     list_ex (\<lambda>past. or_str past '''' \<noteq> [] \<and> is_semantic_duplicate text (or_str past '''')) (oe_texts e)
     \<or> truthy_str target \<and> oe_by_target e (the target)"

text \<open>\<open>_find_multi_matches\<close>: at most five calls; \<open>n\<close> of them are left.\<close>

fun multi_loop :: "oenv \<Rightarrow> nat \<Rightarrow> string \<Rightarrow> nat \<Rightarrow> nat \<Rightarrow> string list \<Rightarrow> omatch list \<Rightarrow> string + omatch list" where
  "multi_loop e r text i 0 excluded ms = Inr ms"
| "multi_loop e r text i (Suc n) excluded ms = (case oe_find e r i text excluded of
     Inl err \<Rightarrow> Inl err
   | Inr None \<Rightarrow> Inr ms
   | Inr (Some m) \<Rightarrow>
       if \<not> truthy_str (om_target m) then multi_loop e r text (i + 1) n excluded ms
       else if check_outreach_duplicate e text (om_target m) then multi_loop e r text (i + 1) n (excluded @ [the (om_target m)]) ms
       else multi_loop e r text (i + 1) n (excluded @ [the (om_target m)]) (ms @ [m]))"

text \<open>The loop over the ranked purposes: the first with a match.\<close>

fun try_purposes :: "oenv \<Rightarrow> nat \<Rightarrow> osignal list \<Rightarrow> string + (osignal \<times> omatch list) option" where
  "try_purposes e r [] = Inr None"
| "try_purposes e r (s # ss) =
     (if check_outreach_duplicate e (os_text s) None then try_purposes e (r + 1) ss
      else if os_multi s then (case multi_loop e r (os_text s) 0 (nat (min (os_max s) 5)) [] [] of
          Inl err \<Rightarrow> Inl err
        | Inr [] \<Rightarrow> try_purposes e (r + 1) ss
        | Inr (m # ms) \<Rightarrow> Inr (Some (s, m # ms)))
      else (case oe_find e r 0 (os_text s) [] of
          Inl err \<Rightarrow> Inl err
        | Inr None \<Rightarrow> try_purposes e (r + 1) ss
        | Inr (Some m) \<Rightarrow>
            if truthy_str (om_target m) \<and> \<not> check_outreach_duplicate e (os_text s) (om_target m) then Inr (Some (s, [m]))
            else try_purposes e (r + 1) ss))"

text \<open>The requests, one per match: their effects, the ids of those created, and an exception.\<close>

fun create_loop :: "oenv \<Rightarrow> osignal \<Rightarrow> string option \<Rightarrow> nat \<Rightarrow> omatch list \<Rightarrow> oeffect list \<times> (string + string list)" where
  "create_loop e s gid i [] = ([], Inr [])"
| "create_loop e s gid i (m # ms) = (case oe_create e i m of
     Inl err \<Rightarrow> ([ERequest (om_target m)], Inl err)
   | Inr None \<Rightarrow>
       if om_name m = None then ([ERequest (om_target m)], Inl ''TypeError'')
       else (case create_loop e s gid (i + 1) ms of (effs, res) \<Rightarrow> (ERequest (om_target m) # effs, res))
   | Inr (Some rid) \<Rightarrow> (case create_loop e s gid (i + 1) ms of (effs, res) \<Rightarrow>
       (ERequest (om_target m)
          # (case gid of None \<Rightarrow> [] | Some g \<Rightarrow> [ETag rid g (or_null (Some (or_str (os_group_name s) (os_text s))))]) @ effs,
        map_sum id (\<lambda>ids. rid # ids) res)))"

text \<open>\<open>_fallback_message\<close>; \<open>first_word\<close> is \<open>s.split()[0]\<close>.\<close>

definition first_word :: "string \<Rightarrow> string + string" where
  "first_word s = (case words_by py_space s of [] \<Rightarrow> Inl ''IndexError'' | w # _ \<Rightarrow> Inr w)"

fun first_words :: "string option list \<Rightarrow> string + string list" where
  "first_words [] = Inr []"
| "first_words (None # ns) = Inl ''AttributeError''"
| "first_words (Some n # ns) = (case first_word n of Inl e \<Rightarrow> Inl e
     | Inr w \<Rightarrow> (case first_words ns of Inl e \<Rightarrow> Inl e | Inr ws \<Rightarrow> Inr (w # ws)))"

definition fallback_message :: "ouser \<Rightarrow> osignal \<Rightarrow> omatch list \<Rightarrow> string + string" where
  "fallback_message u s ms = (case first_word (or_str (ou_name u) ''there'') of Inl e \<Rightarrow> Inl e
   | Inr w \<Rightarrow>
      (let name = py_lower w in
       if os_multi s \<and> 1 < length ms
       then (case first_words (map om_name (take 3 ms)) of Inl e \<Rightarrow> Inl e
         | Inr ws \<Rightarrow> Inr (''hey '' @ name @ '', found some people who might be helpful for what you're working on. ''
             @ (if 1 < length ws then join_str '', '' (butlast ws) @ '' and '' @ last ws else hd ws)
             @ '' could all be good connections. want me to send intros to all of them''))
       else (case first_word (or_str (om_name (hd ms)) ''someone'') of Inl e \<Rightarrow> Inl e
         | Inr target \<Rightarrow> Inr (''hey '' @ name @ '', found someone who might be helpful for what you're working on. '' @ target
             @ '' could be a good match because '' @ (case om_reasons (hd ms) of [] \<Rightarrow> ''they might be a good connection'' | r # _ \<Rightarrow> r)
             @ ''. want me to send an intro''))))"

text \<open>What is left to do with the job: skip it, fail it with the number of attempts the back-off is computed
from, or complete it.\<close>

datatype oaction = ONothing | OSkip string | OFail int string | OComplete "string option" string

definition send_outreach :: "oenv \<Rightarrow> ouser \<Rightarrow> osignal \<Rightarrow> omatch list \<Rightarrow> string list \<Rightarrow> oeffect list \<times> (string + oaction)" where
  "send_outreach e u s ms ids =
     (case (case oe_message e of Inl err \<Rightarrow> Inl err
        | Inr msg \<Rightarrow> if truthy_str msg then Inr (the msg) else fallback_message u s ms) of
       Inl err \<Rightarrow> ([], Inl err)
     | Inr message \<Rightarrow>
         if \<not> truthy_str (ou_phone u) then ([], Inr (OFail 0 ''no_user_phone''))
         else (case oe_send e of
             Some err \<Rightarrow> ([ESend (the (ou_phone u)) message], Inr (OFail 0 (''send_failed:'' @ err)))
           | None \<Rightarrow>
               (let multi = (os_multi s \<and> 1 < length ms) in
                ([ESend (the (ou_phone u)) message, EStore message, ETask multi (if multi then ids else [hd ids]),
                  ETrack (om_target (hd ms)) (hd ids)],
                 Inr (OComplete (os_id s) (hd ids))))))"

definition create_outreach :: "oenv \<Rightarrow> ouser \<Rightarrow> osignal \<Rightarrow> omatch list \<Rightarrow> oeffect list \<times> (string + oaction)" where
  "create_outreach e u s ms =
     (let gid = (if os_multi s \<and> 1 < length ms then Some (oe_uuid e) else None) in
      case create_loop e s gid 0 ms of
        (effs, Inl err) \<Rightarrow> (effs, Inl err)
      | (effs, Inr []) \<Rightarrow> (effs, Inr (OFail 0 ''all_connection_requests_failed''))
      | (effs, Inr (rid # ids)) \<Rightarrow> (case send_outreach e u s ms (rid # ids) of (effs', res) \<Rightarrow> (effs @ effs', res)))"

definition ojob_user :: "ojob \<Rightarrow> string" where
  "ojob_user j = py_strip (jb_key j)"

definition outreach_user :: "oenv \<Rightarrow> ouser \<Rightarrow> oeffect list \<times> (string + oaction)" where
  "outreach_user e u =
     (if \<not> ou_onboarded u then ([], Inr (OSkip ''not_onboarded''))
      else if ou_email_status u \<noteq> Some ''connected'' then ([], Inr (OSkip ''email_not_connected''))
      else if \<not> ou_preference u then ([], Inr (OSkip ''user_opted_out''))
      else (case oe_suggest e of
          Inl err \<Rightarrow> ([], Inl err)
        | Inr [] \<Rightarrow> ([], Inr (OSkip ''no_suggestions''))
        | Inr (sg # sgs) \<Rightarrow> (case oe_rank e (sg # sgs) (map the (filter truthy_str (oe_texts e))) of
              Inl err \<Rightarrow> ([], Inl err)
            | Inr [] \<Rightarrow> ([], Inr (OSkip ''no_suitable_purpose''))
            | Inr (s # ss) \<Rightarrow> (case try_purposes e 0 (s # ss) of
                  Inl err \<Rightarrow> ([ESaveOpportunities], Inl err)
                | Inr None \<Rightarrow> ([ESaveOpportunities], Inr (OSkip ''no_match''))
                | Inr (Some (used, ms)) \<Rightarrow> (case create_outreach e u used ms of (effs, res) \<Rightarrow> (ESaveOpportunities # effs, res))))))"

definition oprocess :: "oenv \<Rightarrow> ojob \<Rightarrow> oeffect list \<times> (string + oaction)" where
  "oprocess e j =
     (if ojob_user j = [] then ([], Inr ONothing)
      else (case oe_user e (ojob_user j) of
          Inl err \<Rightarrow> ([], Inl err)
        | Inr None \<Rightarrow> ([], Inr (OSkip ''user_not_found''))
        | Inr (Some u) \<Rightarrow> outreach_user e u))"

section \<open>The worker\<close>

record oworld =
  ow_jobs :: "ojob list"
  ow_log :: "oeffect list"

definition ofail_job :: "oenv \<Rightarrow> string \<Rightarrow> ojob \<Rightarrow> int \<Rightarrow> string \<Rightarrow> ojob list \<Rightarrow> ojob list" where
  "ofail_job e worker j attempts error t =
     (case oj_fail (oe_up e OFailCall) (oe_db_now e) (ojob_user j) worker error (compute_backoff_seconds attempts) 5 t of
        (None, t') \<Rightarrow> snd (oj_release (oe_up e OReleaseCall) (ojob_user j) worker t')
      | (Some _, t') \<Rightarrow> t')"

definition operform :: "oenv \<Rightarrow> string \<Rightarrow> ojob \<Rightarrow> oaction \<Rightarrow> ojob list \<Rightarrow> ojob list" where
  "operform e worker j act t = (case act of
     ONothing \<Rightarrow> t
   | OSkip reason \<Rightarrow> snd (oj_skip_job (oe_up e OSkipCall) (oe_db_now e) (ojob_user j) worker reason None t)
   | OFail attempts err \<Rightarrow> ofail_job e worker j attempts err t
   | OComplete signal request \<Rightarrow>
       snd (oj_complete (oe_up e OCompleteCall) (oe_db_now e) (ojob_user j) worker signal (Some request) None t))"

definition odecide :: "oenv \<Rightarrow> ojob \<Rightarrow> oeffect list \<times> oaction" where
  "odecide e j = (case oprocess e j of (effs, res) \<Rightarrow>
     (effs, case res of Inr act \<Rightarrow> act
        | Inl err \<Rightarrow> if ojob_user j \<noteq> [] then OFail (jb_attempts j) (''job_crash:'' @ err) else ONothing))"

definition ostep :: "(string \<Rightarrow> oenv) \<Rightarrow> string \<Rightarrow> oworld \<Rightarrow> ojob \<Rightarrow> oworld" where
  "ostep es worker w j = (let e = es (jb_key j) in case odecide e j of (effs, act) \<Rightarrow>
     \<lparr>ow_jobs = operform e worker j act (ow_jobs w), ow_log = ow_log w @ effs\<rparr>)"

definition orun_once :: "bool \<Rightarrow> (string \<Rightarrow> oenv) \<Rightarrow> bool \<Rightarrow> int \<Rightarrow> (ojob \<Rightarrow> bool) \<Rightarrow> string \<Rightarrow> int \<Rightarrow> oworld \<Rightarrow> nat \<times> oworld" where
  "orun_once enabled es up now locked worker max_jobs w =
     (if \<not> enabled then (0, w)
      else (case oj_claim up now locked worker max_jobs 30 (ow_jobs w) of
        (jobs, t) \<Rightarrow> (length jobs, foldl (ostep es worker) (w\<lparr>ow_jobs := t\<rparr>) jobs)))"

section \<open>Turns of the worker\<close>

lemma outreach_ends [simp]:
  "(JDone, set_sent now s r) \<in> outreach_finishes" "(JSkipped, set_skip reason) \<in> outreach_finishes"
  by (auto simp: outreach_finishes_def)

lemma ofail_runs: "worker_run outreach_finishes t (ofail_job e worker j n err t)"
proof -
  obtain out t' where fail: "oj_fail (oe_up e OFailCall) (oe_db_now e) (ojob_user j) worker err (compute_backoff_seconds n) 5 t = (out, t')"
    by fastforce
  then have run: "worker_run outreach_finishes t t'" unfolding oj_fail_def by (metis snd_conv worker_runs(3))
  then have "worker_run outreach_finishes t (snd (oj_release up user worker t'))" for up user
    unfolding oj_release_def by (rule worker_run_trans [OF worker_runs(4)])
  with fail run show ?thesis by (simp add: ofail_job_def split: option.splits)
qed

lemma operform_runs: "worker_run outreach_finishes t (operform e worker j act t)"
  by (cases act) (simp_all add: operform_def wr_none oj_skip_job_def oj_complete_def worker_runs ofail_runs)

lemma ostep_runs: "worker_run outreach_finishes (ow_jobs w) (ow_jobs (ostep es worker w j))"
  by (simp add: ostep_def Let_def operform_runs split: prod.splits)

lemma orun_runs: "worker_run outreach_finishes (ow_jobs w) (ow_jobs (snd (orun_once enabled es up now locked worker max_jobs w)))"
proof -
  have all: "worker_run outreach_finishes (ow_jobs w') (ow_jobs (foldl (ostep es worker) w' jobs))" for w' jobs
    by (induction jobs rule: rev_induct) (auto simp: wr_none intro: worker_run_trans [OF ostep_runs])
  obtain jobs t where claim: "oj_claim up now locked worker max_jobs 30 (ow_jobs w) = (jobs, t)" by fastforce
  then have "worker_run outreach_finishes (ow_jobs w) t" unfolding oj_claim_def by (metis snd_conv worker_runs(1))
  with all [of "w\<lparr>ow_jobs := t\<rparr>" jobs] show ?thesis
    by (auto simp: orun_once_def wr_none claim intro: worker_run_trans)
qed

lemma operform_holds:
  assumes "\<And>c. oe_up e c" "ojob_user j = jb_key j" "act \<noteq> ONothing"
  shows "holds worker (operform e worker j act t) = holds worker t - {jb_key j}"
proof (cases act)
  case (OFail n err)
  obtain out t' where fail: "oj_fail True (oe_db_now e) (jb_key j) worker err (compute_backoff_seconds n) 5 t = (Some out, t')"
    unfolding oj_fail_def using fail_answers by blast
  then have "holds worker t' = holds worker t - {jb_key j}"
    using holds_fail [of worker "oe_db_now e" "jb_key j" err "compute_backoff_seconds n" 5 t] by (simp add: oj_fail_def)
  with fail assms show ?thesis by (simp add: OFail operform_def ofail_job_def)
qed (use assms in \<open>simp_all add: operform_def oj_skip_job_def oj_complete_def ojobs.holds_finish\<close>)

section \<open>What a job does\<close>

lemma multi_loop_found:
  "multi_loop e r tx i n excluded ms = Inr found \<Longrightarrow>
     list_all (\<lambda>m. truthy_str (om_target m) \<and> \<not> check_outreach_duplicate e tx (om_target m)) ms \<Longrightarrow>
     list_all (\<lambda>m. truthy_str (om_target m) \<and> \<not> check_outreach_duplicate e tx (om_target m)) found"
  by (induction e r tx i n excluded ms rule: multi_loop.induct) (auto split: sum.splits option.splits if_splits)

lemma try_purposes_found:
  "try_purposes e r ss = Inr (Some (s, ms)) \<Longrightarrow> s \<in> set ss \<and> ms \<noteq> [] \<and> \<not> check_outreach_duplicate e (os_text s) None
     \<and> list_all (\<lambda>m. truthy_str (om_target m) \<and> \<not> check_outreach_duplicate e (os_text s) (om_target m)) ms"
  by (induction e r ss rule: try_purposes.induct)
    (auto split: if_splits sum.splits option.splits list.splits dest: multi_loop_found)

fun is_request :: "oeffect \<Rightarrow> bool" where
  "is_request (ERequest t) = True"
| "is_request _ = False"

fun is_send :: "oeffect \<Rightarrow> bool" where
  "is_send (ESend p m) = True"
| "is_send _ = False"

fun is_track :: "oeffect \<Rightarrow> bool" where
  "is_track (ETrack t r) = True"
| "is_track _ = False"

lemma map_sum_Inr: "map_sum id f x = Inr y \<Longrightarrow> \<exists>z. x = Inr z"
  by (cases x) auto

lemma create_loop_effects:
  "create_loop e s gid i ms = (effs, res) \<Longrightarrow>
     filter is_send effs = [] \<and> filter is_track effs = [] \<and> (\<forall>ids. res = Inr ids \<longrightarrow> filter is_request effs = map (ERequest \<circ> om_target) ms)"
proof (induction e s gid i ms arbitrary: effs res rule: create_loop.induct)
  case (2 e s gid i m ms)
  then show ?case
    by (auto split: sum.splits option.splits if_splits prod.splits dest: map_sum_Inr)
qed simp

lemma truthy_iff: "truthy_str x \<longleftrightarrow> (\<exists>s. x = Some s \<and> s \<noteq> [])"
  by (cases x) auto

lemma send_outreach_effects:
  assumes "send_outreach e u s ms ids = (effs, res)"
  shows "filter is_request effs = []"
    and "ESend p m \<in> set effs \<Longrightarrow> ou_phone u = Some p \<and> p \<noteq> [] \<and> filter is_send effs = [ESend p m]"
    and "res = Inr (OFail n err) \<Longrightarrow> n = 0 \<and> filter is_track effs = []"
    and "res = Inr (OComplete sid rid) \<Longrightarrow> filter is_send effs \<noteq> [] \<and> filter is_track effs = [ETrack (om_target (hd ms)) (hd ids)]"
  using assms
  by (auto simp: send_outreach_def Let_def truthy_iff split: sum.splits option.splits if_splits)

text \<open>The outcomes of a job: skipped before anything is sent, or an outreach for the matches found.\<close>

lemma oprocess_cases:
  assumes "oprocess e j = (effs, res)"
  obtains (quiet) "filter is_request effs = []" "filter is_send effs = []" "filter is_track effs = []" "\<And>n err. res \<noteq> Inr (OFail n err)"
      "\<And>sid rid. res \<noteq> Inr (OComplete sid rid)"
  | (outreach) u s ms effs' where "oe_user e (ojob_user j) = Inr (Some u)" "ou_onboarded u" "ou_email_status u = Some ''connected''"
      "ou_preference u" "ms \<noteq> []" "\<not> check_outreach_duplicate e (os_text s) None"
      "list_all (\<lambda>m. truthy_str (om_target m) \<and> \<not> check_outreach_duplicate e (os_text s) (om_target m)) ms"
      "create_outreach e u s ms = (effs', res)" "effs = ESaveOpportunities # effs'"
proof -
  have "thesis" if "oe_user e (ojob_user j) = Inr (Some u)" "outreach_user e u = (effs, res)" for u
  proof (cases "\<exists>s ms effs'. create_outreach e u s ms = (effs', res) \<and> effs = ESaveOpportunities # effs'
      \<and> (\<exists>r ss. try_purposes e r ss = Inr (Some (s, ms))) \<and> ou_onboarded u \<and> ou_email_status u = Some ''connected'' \<and> ou_preference u")
    case True
    then obtain s ms effs' r ss where c: "create_outreach e u s ms = (effs', res)" "effs = ESaveOpportunities # effs'"
      "try_purposes e r ss = Inr (Some (s, ms))" and u: "ou_onboarded u" "ou_email_status u = Some ''connected''" "ou_preference u"
      by blast
    from try_purposes_found [OF c(3)] show ?thesis by (intro outreach [OF that(1) u _ _ _ c(1,2)]) simp_all
  next
    case False
    with that(2) show ?thesis using quiet
      by (auto simp: outreach_user_def simp del: try_purposes.simps split: if_splits sum.splits list.splits option.splits prod.splits)
  qed
  then show ?thesis using assms quiet by (auto simp: oprocess_def split: if_splits sum.splits option.splits)
qed

lemma create_outreach_effects:
  assumes "create_outreach e u s ms = (effs, res)"
  shows "ESend p m \<in> set effs \<Longrightarrow> ou_phone u = Some p \<and> p \<noteq> [] \<and> filter is_send effs = [ESend p m]
      \<and> filter is_request effs = map (ERequest \<circ> om_target) ms"
    and "res = Inr (OFail n err) \<Longrightarrow> n = 0 \<and> filter is_track effs = [] \<and> filter is_request effs = map (ERequest \<circ> om_target) ms"
proof -
  obtain effs1 res1 where c: "create_loop e s (if os_multi s \<and> 1 < length ms then Some (oe_uuid e) else None) 0 ms = (effs1, res1)"
    by fastforce
  note loop = create_loop_effects [OF c]
  then have none: "ESend p m \<notin> set effs1" by (force simp: filter_empty_conv)
  show "ou_phone u = Some p \<and> p \<noteq> [] \<and> filter is_send effs = [ESend p m] \<and> filter is_request effs = map (ERequest \<circ> om_target) ms"
    if "ESend p m \<in> set effs"
    using assms that none loop c send_outreach_effects(1,2) by (fastforce simp: create_outreach_def Let_def split: sum.splits list.splits prod.splits)
  show "n = 0 \<and> filter is_track effs = [] \<and> filter is_request effs = map (ERequest \<circ> om_target) ms" if "res = Inr (OFail n err)"
    using assms that loop c send_outreach_effects(1,3) by (fastforce simp: create_outreach_def Let_def split: sum.splits list.splits prod.splits)
qed

section \<open>Properties\<close>


text \<open>A failed outreach leaves its requests behind and is retried at the initial pace. If a job ends as
failed (other than by an exception), then requests were made for all the matches, nothing of it is
in the tracking table that the next attempt checks for duplicates, and the job is queued again after
the base time of the back-off however often it has failed before: the number of attempts that the
back-off is computed from is always 0.\<close>

theorem failed_outreach_leaves_requests:
  assumes "oprocess e j = (effs, Inr (OFail n err))"
  shows "filter is_request effs \<noteq> [] \<and> filter is_track effs = [] \<and> compute_backoff_seconds n = 1800"
  using assms
proof (cases rule: oprocess_cases)
  case (outreach u s ms effs')
  from create_outreach_effects(2) [OF outreach(8) refl] outreach show ?thesis
    by (simp add: compute_backoff_seconds_def backoff_from_def)
qed blast

text \<open>An outreach job runs once. When the job of a user is completed or skipped its next run is set to a
later day, but no later turn of any worker ever claims it.\<close>

theorem outreach_job_runs_once:
  assumes "ptable_ok t" "find (held_by user worker) t \<noteq> None"
    and "t' = snd (oj_complete True now user worker signal request interval t) \<or> t' = snd (oj_skip_job True now user worker reason interval t)"
    and "worker_run outreach_finishes t' u"
    and "oj_claim up later locked worker' max_jobs stale u = (got, u')"
  shows "user \<notin> jb_key ` set got \<and> (\<exists>j \<in> set u. jb_key j = user \<and> jb_run_after j = slot (interval_or interval) 18 now)"
  using assms(3)
proof
  assume "t' = snd (oj_complete True now user worker signal request interval t)"
  from assms(4) [unfolded this oj_complete_def] ojobs.finished_stays [OF assms(1,2) outreach_ends(1) _ assms(5) [unfolded oj_claim_def]]
  show ?thesis by blast
next
  assume "t' = snd (oj_skip_job True now user worker reason interval t)"
  from assms(4) [unfolded this oj_skip_job_def] ojobs.finished_stays [OF assms(1,2) outreach_ends(2) _ assms(5) [unfolded oj_claim_def]]
  show ?thesis by blast
qed

text \<open>An environment where the request for the first of two matches fails\<close>

definition example_oenv :: oenv where
  "example_oenv = \<lparr>oe_db_now = 100, oe_user = (\<lambda>_. Inr (Some \<lparr>ou_onboarded = True, ou_email_status = Some ''connected'',
       ou_preference = True, ou_name = Some ''Ann'', ou_phone = Some ''+1''\<rparr>)),
     oe_suggest = Inr [''p''], oe_texts = [], oe_by_target = (\<lambda>_. False),
     oe_rank = (\<lambda>_ _. Inr [\<lparr>os_id = None, os_text = ''p'', os_multi = True, os_max = 2, os_group_name = None\<rparr>]),
     oe_find = (\<lambda>_ i _ _. Inr (Some \<lparr>om_target = Some (if i = 0 then ''a'' else ''b''), om_name = Some ''N'', om_reasons = []\<rparr>)),
     oe_create = (\<lambda>i m. Inr (if i = 0 then None else Some ''request_b'')), oe_uuid = ''g'', oe_message = Inr (Some ''hi''),
     oe_send = None, oe_up = (\<lambda>_. True)\<rparr>"

definition example_ojob :: ojob where
  "example_ojob = fresh_ojob\<lparr>jb_key := ''u'', jb_status := JRunning, jb_claimed_by := Some ''w'', jb_claimed_at := Some 5\<rparr>"

lemma example_ojob_user [simp]: "ojob_user example_ojob = ''u''"
  by (simp add: ojob_user_def example_ojob_def strip_eval)

lemma example_oenv_fields:
  "oe_user example_oenv uid = Inr (Some \<lparr>ou_onboarded = True, ou_email_status = Some ''connected'', ou_preference = True,
     ou_name = Some ''Ann'', ou_phone = Some ''+1''\<rparr>)"
  "oe_suggest example_oenv = Inr [''p'']" "oe_rank example_oenv ss ts =
     Inr [\<lparr>os_id = None, os_text = ''p'', os_multi = True, os_max = 2, os_group_name = None\<rparr>]"
  "oe_find example_oenv r i t ex = Inr (Some \<lparr>om_target = Some (if i = 0 then ''a'' else ''b''), om_name = Some ''N'', om_reasons = []\<rparr>)"
  "oe_create example_oenv k m = Inr (if k = 0 then None else Some ''request_b'')" "oe_uuid example_oenv = ''g''"
  "oe_message example_oenv = Inr (Some ''hi'')" "oe_send example_oenv = None" "check_outreach_duplicate example_oenv t target = False"
  by (simp_all add: check_outreach_duplicate_def) (simp_all add: example_oenv_def)

text \<open>The tracking of an outreach can name the wrong request. For several matches, the target that is
tracked is the first match, and the request that is tracked is the first that could be created,
even if it is the request of another match.\<close>

theorem tracking_pairs_wrong_target:
  "oprocess example_oenv example_ojob =
     ([ESaveOpportunities, ERequest (Some ''a''), ERequest (Some ''b''), ETag ''request_b'' ''g'' (Some ''p''), ESend ''+1'' ''hi'',
       EStore ''hi'', ETask True [''request_b''], ETrack (Some ''a'') ''request_b''], Inr (OComplete None ''request_b''))"
  by (simp add: oprocess_def outreach_user_def create_outreach_def send_outreach_def or_null_def example_oenv_fields numeral_2_eq_2)


lemma failed_outreach_leaves_requests_witness:
  "\<exists>effs err. oprocess (example_oenv\<lparr>oe_send := Some ''down''\<rparr>) example_ojob = (effs, Inr (OFail 0 err))
     \<and> filter is_request effs \<noteq> [] \<and> filter is_track effs = []"
proof -
  let ?e = "example_oenv\<lparr>oe_send := Some ''down''\<rparr>"
  have dup: "check_outreach_duplicate ?e t target = False" for t target
    using example_oenv_fields(9) [of t target] by (simp add: check_outreach_duplicate_def)
  obtain effs err where p: "oprocess ?e example_ojob = (effs, Inr (OFail 0 err))"
    by (simp add: oprocess_def outreach_user_def create_outreach_def send_outreach_def or_null_def example_oenv_fields dup numeral_2_eq_2)
  from failed_outreach_leaves_requests [OF this] p show ?thesis by blast
qed

lemma outreach_job_runs_once_witness:
  "\<exists>u. ''u'' \<notin> jb_key ` set (fst (oj_claim True (secs 1000000) (\<lambda>_. False) ''v'' 5 30 u))
     \<and> u = snd (oj_skip_job True 10 ''u'' ''w'' ''no_match'' None [example_ojob])"
proof -
  define u where "u = snd (oj_skip_job True 10 ''u'' ''w'' ''no_match'' None [example_ojob])"
  have ok: "ptable_ok [example_ojob]" "find (held_by ''u'' ''w'') [example_ojob] \<noteq> None"
    by (simp_all add: ptable_ok_def prow_ok_def example_ojob_def fresh_ojob_def held_by_def)
  obtain got u' where claim: "oj_claim True (secs 1000000) (\<lambda>_. False) ''v'' 5 30 u = (got, u')" by fastforce
  from outreach_job_runs_once [OF ok disjI2 [OF u_def] wr_none claim] show ?thesis
    using claim by (intro exI [of _ u]) (simp add: u_def [symmetric])
qed

text \<open>The first run is in the future. Scheduling the jobs of a newly onboarded user, at any time of any day,
queues both, each for a time after now and less than three days away.\<close>

theorem onboarding_schedules_future_runs:
  assumes "find_job user et = None" "find_job user ot = None"
    and "schedule_proactive_jobs True user (Some ''connected'') now (et, ot) = (et', ot')"
  shows "\<exists>ej oj. et' = et @ [ej] \<and> ot' = ot @ [oj] \<and> jb_key ej = user \<and> jb_key oj = user
    \<and> jb_status ej = JQueued \<and> jb_status oj = JQueued
    \<and> now < jb_run_after ej \<and> jb_run_after ej \<le> now + secs 86400 \<and> now < jb_run_after oj \<and> jb_run_after oj < now + secs (3 * 86400)"
proof -
  define day where "day = now mod secs 86400"
  have day: "0 \<le> day" "day < secs 86400" by (simp_all add: day_def secs_def)
  have "now < first_run 17 (\<lambda>d. d + secs 86400) None now" "first_run 17 (\<lambda>d. d + secs 86400) None now \<le> now + secs 86400"
    using day by (auto simp: first_run_def slot_def day_def [symmetric] secs_def Let_def)
  moreover have "now < first_run 18 (\<lambda>_. slot 2 18 now) None now" "first_run 18 (\<lambda>_. slot 2 18 now) None now < now + secs (3 * 86400)"
    using day by (auto simp: first_run_def slot_def day_def [symmetric] secs_def Let_def)
  ultimately show ?thesis using assms
    by (auto simp: schedule_proactive_jobs_def ej_schedule_def oj_schedule_def periodic_schedule_def enqueue_job_def interval_or_def Let_def)
qed

lemma onboarding_schedules_future_runs_witness:
  "\<exists>et' ot'. schedule_proactive_jobs True ''u'' (Some ''connected'') 0 ([], []) = (et', ot') \<and> length et' = 1 \<and> length ot' = 1"
proof -
  obtain et' ot' where s: "schedule_proactive_jobs True ''u'' (Some ''connected'') 0 ([], []) = (et', ot')" by fastforce
  have "find_job ''u'' ([] :: ejob list) = None" "find_job ''u'' ([] :: ojob list) = None" by (simp_all add: find_job_def)
  from onboarding_schedules_future_runs [OF this s] s show ?thesis by auto
qed

end
