(* ===== verification/Location_Info.thy ===== *)
theory Location_Info
  imports Complex_Main Chunker
begin

text \<open>
  Where users are: app/utils/location_service.py (distances) and app/utils/location_context.py (places
  nearby). Coordinates are real numbers and distances are exact; the rounding of floating point
  arithmetic is not modelled. What Find My, Redis, the database and the places service answer are
  arguments.
\<close>

section \<open>Find My\<close>

text \<open>\<open>str.isdigit\<close> of a character of Latin-1\<close>

definition isdigit_char :: "char \<Rightarrow> bool" where
  "isdigit_char c \<longleftrightarrow> is_digit c \<or> (of_char c :: nat) \<in> {178, 179, 185}"

definition findmy_handle :: "string option \<Rightarrow> string" where
  "findmy_handle handle =
     (if \<not> truthy_str handle then []
      else let h = py_strip (the handle) in
        if CHR ''@'' \<in> set h then py_lower h
        else if starts_with ''+'' h then CHR ''+'' # filter isdigit_char (tl h)
        else filter isdigit_char h)"

text \<open>An item of Find My. \<open>fl_updated\<close> is absent, or unreadable, or a time in milliseconds.\<close>

record floc =
  fl_handle :: "string option"
  fl_coords :: "real list option"
  fl_long :: "string option"
  fl_short :: "string option"
  fl_status :: "string option"
  fl_updated :: "int option option"

definition get_friend_locations :: "floc list option \<Rightarrow> string + floc list \<Rightarrow> floc list \<times> floc list option" where
  "get_friend_locations cache answer = (case cache of
     Some ls \<Rightarrow> (ls, cache)
   | None \<Rightarrow> (case answer of Inl e \<Rightarrow> ([], None) | Inr ls \<Rightarrow> (ls, if ls = [] then None else Some ls)))"

definition find_location_by_handle :: "floc list \<Rightarrow> string option \<Rightarrow> floc option" where
  "find_location_by_handle locations handle =
     (let target = findmy_handle handle in
      if target = [] then None else find (\<lambda>l. findmy_handle (fl_handle l) = target) locations)"

text \<open>Valid coordinates: two numbers at least, not both zero\<close>

definition good_point :: "real list option \<Rightarrow> (real \<times> real) option" where
  "good_point coords = (case coords of
     Some (x # y # _) \<Rightarrow> if x = 0 \<and> y = 0 then None else Some (x, y)
   | _ \<Rightarrow> None)"

section \<open>Distances\<close>

definition radians :: "real \<Rightarrow> real" where
  "radians x = x * pi / 180"

definition calculate_distance_miles :: "real \<times> real \<Rightarrow> real \<times> real \<Rightarrow> real" where
  "calculate_distance_miles coord1 coord2 =
     (let lat1 = radians (fst coord1); lon1 = radians (snd coord1); lat2 = radians (fst coord2); lon2 = radians (snd coord2);
          dlat = lat2 - lat1; dlon = lon2 - lon1;
          a = (sin (dlat / 2))\<^sup>2 + cos lat1 * cos lat2 * (sin (dlon / 2))\<^sup>2
      in 3958.8 * 2 * arcsin (sqrt a))"

text \<open>\<open>f"{x:.1f}"\<close> of a non-negative number: tenths, rounded half to even\<close>

definition tenths :: "real \<Rightarrow> int" where
  "tenths x = (let t = \<lfloor>10 * x\<rfloor>; r = 10 * x - of_int t in if 1 / 2 < r \<or> r = 1 / 2 \<and> odd t then t + 1 else t)"

definition format_distance :: "real \<Rightarrow> string" where
  "format_distance miles =
     (if miles < 1 / 10 then ''0.1 miles away''
      else str_int (tenths miles div 10) @ ''.'' @ str_int (tenths miles mod 10) @ '' miles away'')"

definition distance_text :: "(real \<times> real) option \<Rightarrow> (real \<times> real) option \<Rightarrow> string option" where
  "distance_text p q = (case (p, q) of
     (Some a, Some b) \<Rightarrow> Some (format_distance (calculate_distance_miles a b)) | _ \<Rightarrow> None)"

text \<open>\<open>stored\<close> is the stored location of a user; one with a zero coordinate is not used.\<close>

definition stored_point :: "(string \<Rightarrow> (real \<times> real) option) \<Rightarrow> string \<Rightarrow> (real \<times> real) option" where
  "stored_point stored uid = (case stored uid of None \<Rightarrow> None
   | Some (lat, lon) \<Rightarrow> if lat = 0 \<or> lon = 0 then None else Some (lat, lon))"

definition fallback_stored_distance :: "(string \<Rightarrow> (real \<times> real) option) \<Rightarrow> floc option \<Rightarrow> floc option \<Rightarrow> string option \<Rightarrow> string option \<Rightarrow> string option" where
  "fallback_stored_distance stored loc1 loc2 uid1 uid2 =
     (if \<not> truthy_str uid1 \<or> \<not> truthy_str uid2 then None
      else let point = (\<lambda>loc uid. case Option.bind loc (\<lambda>l. good_point (fl_coords l)) of None \<Rightarrow> stored_point stored uid | Some p \<Rightarrow> Some p)
        in distance_text (point loc1 (the uid1)) (point loc2 (the uid2)))"

definition find_user_location :: "floc list \<Rightarrow> string option \<Rightarrow> string option \<Rightarrow> floc option" where
  "find_user_location locations phone email = (case find_location_by_handle locations phone of
     Some l \<Rightarrow> Some l
   | None \<Rightarrow> if truthy_str email then find_location_by_handle locations email else None)"

definition get_distance_between_users :: "floc list \<Rightarrow> (string \<Rightarrow> (real \<times> real) option)
    \<Rightarrow> string option \<Rightarrow> string option \<Rightarrow> string option \<Rightarrow> string option \<Rightarrow> string option \<Rightarrow> string option \<Rightarrow> string option" where
  "get_distance_between_users locations stored phone1 phone2 email1 email2 uid1 uid2 =
     (if locations = [] then None
      else (case (find_user_location locations phone1 email1, find_user_location locations phone2 email2) of
          (Some l1, Some l2) \<Rightarrow> distance_text (good_point (fl_coords l1)) (good_point (fl_coords l2))
        | (loc1, loc2) \<Rightarrow> fallback_stored_distance stored loc1 loc2 uid1 uid2))"

section \<open>Places nearby\<close>

record place =
  pl_name :: string
  pl_types :: "string list"
  pl_primary :: string

definition cafe_types :: "string list" where "cafe_types = [''cafe'', ''coffee_shop'']"
definition bar_types :: "string list" where "bar_types = [''bar'', ''wine_bar'', ''pub'']"
definition restaurant_types :: "string list" where
  "restaurant_types = [''restaurant'', ''american_restaurant'', ''italian_restaurant'', ''mexican_restaurant'']"
definition library_types :: "string list" where "library_types = [''library'']"

definition ends_with :: "string \<Rightarrow> string \<Rightarrow> bool" where
  "ends_with s t \<longleftrightarrow> starts_with (rev s) (rev t)"

datatype pcategory = Cafe | Bar | Restaurant | Library

definition categorize_place :: "place \<Rightarrow> pcategory option" where
  "categorize_place p =
     (let types = pl_types p; primary = pl_primary p; shared = (\<lambda>ts. list_ex (\<lambda>t. t \<in> set ts) types) in
      if primary \<in> set cafe_types \<or> contains_str ''coffee'' (py_lower (pl_name p)) then Some Cafe
      else if primary \<in> set bar_types then Some Bar
      else if primary \<in> set restaurant_types \<or> ends_with ''_restaurant'' primary then Some Restaurant
      else if primary \<in> set library_types then Some Library
      else if shared cafe_types then Some Cafe
      else if shared bar_types then Some Bar
      else if shared restaurant_types then Some Restaurant
      else if shared library_types then Some Library
      else None)"

text \<open>The names of a category in order, each once\<close>

definition names_of :: "pcategory \<Rightarrow> place list \<Rightarrow> string list" where
  "names_of cat places =
     foldl (\<lambda>ns p. if pl_name p \<noteq> [] \<and> categorize_place p = Some cat \<and> pl_name p \<notin> set ns then ns @ [pl_name p] else ns) [] places"

definition build_area_summary :: "string option \<Rightarrow> string option \<Rightarrow> string list \<Rightarrow> string list \<Rightarrow> string list \<Rightarrow> string list \<Rightarrow> string" where
  "build_area_summary short_addr long_addr cafes restaurants bars libraries =
     (let address = or_str short_addr (or_str long_addr ''unknown location'');
          part = (\<lambda>title n names. if names = [] then [] else [title @ join_str '', '' (take n names)]);
          place_parts = part ''coffee spots: '' 3 cafes @ part ''restaurants: '' 3 restaurants @ part ''bars: '' 2 bars @ part ''libraries: '' 2 libraries
      in join_str '' - '' ([[CHR 0x22] @ address @ [CHR 0x22]] @ (if place_parts = [] then [] else [join_str '' | '' place_parts])))"

record stored_loc =
  sl_point :: "real \<times> real"
  sl_short :: "string option"
  sl_long :: "string option"

record area =
  ar_cafes :: "string list"
  ar_restaurants :: "string list"
  ar_bars :: "string list"
  ar_libraries :: "string list"
  ar_summary :: string

text \<open>\<open>places\<close> is the answer of the places service: nothing without a key or after an error. \<open>None\<close> stands for
the answer that there is no location.\<close>

definition build_location_context :: "place list \<Rightarrow> stored_loc option \<Rightarrow> area option" where
  "build_location_context places loc = (case loc of None \<Rightarrow> None
   | Some l \<Rightarrow>
       if fst (sl_point l) = 0 \<or> snd (sl_point l) = 0 then None
       else let cafes = names_of Cafe places; restaurants = names_of Restaurant places; bars = names_of Bar places; libraries = names_of Library places
         in Some \<lparr>ar_cafes = take 3 cafes, ar_restaurants = take 3 restaurants, ar_bars = take 3 bars, ar_libraries = take 2 libraries,
              ar_summary = build_area_summary (sl_short l) (sl_long l) cafes restaurants bars libraries\<rparr>)"

section \<open>Properties\<close>

text \<open>The argument of the square root is between 0 and 1: it is half of 1 minus a product of unit vectors.\<close>

lemma unit_dot:
  fixes c1 s1 c2 s2 k :: real
  assumes "c1\<^sup>2 + s1\<^sup>2 = 1" "c2\<^sup>2 + s2\<^sup>2 = 1" "k\<^sup>2 \<le> 1"
  shows "c1 * c2 * k + s1 * s2 \<le> 1" "- 1 \<le> c1 * c2 * k + s1 * s2"
proof -
  have rest: "0 \<le> c2\<^sup>2 * (1 - k\<^sup>2)" using assms(3) by simp
  have "2 - 2 * (c1 * c2 * k + s1 * s2) = (c1 - c2 * k)\<^sup>2 + (s1 - s2)\<^sup>2 + c2\<^sup>2 * (1 - k\<^sup>2)"
    using assms(1,2) by (simp add: power2_diff power_mult_distrib algebra_simps)
  with rest show "c1 * c2 * k + s1 * s2 \<le> 1" by (smt (verit) zero_le_power2)
  have "2 + 2 * (c1 * c2 * k + s1 * s2) = (c1 + c2 * k)\<^sup>2 + (s1 + s2)\<^sup>2 + c2\<^sup>2 * (1 - k\<^sup>2)"
    using assms(1,2) by (simp add: power2_sum power_mult_distrib algebra_simps)
  with rest show "- 1 \<le> c1 * c2 * k + s1 * s2" by (smt (verit) zero_le_power2)
qed

lemma haversine_range:
  fixes lat1 lat2 dlon :: real
  defines "a \<equiv> (sin ((lat2 - lat1) / 2))\<^sup>2 + cos lat1 * cos lat2 * (sin (dlon / 2))\<^sup>2"
  shows "0 \<le> a" "a \<le> 1"
proof -
  have half: "(sin (x / 2))\<^sup>2 = (1 - cos x) / 2" for x :: real
    using cos_double_sin [of "x / 2"] by simp
  have a: "a = (1 - (cos lat1 * cos lat2 * cos dlon + sin lat1 * sin lat2)) / 2"
    unfolding a_def half cos_diff by (simp add: field_simps)
  have "(cos dlon)\<^sup>2 \<le> 1" by (simp add: cos_squared_eq)
  then have "cos lat1 * cos lat2 * cos dlon + sin lat1 * sin lat2 \<le> 1" "- 1 \<le> cos lat1 * cos lat2 * cos dlon + sin lat1 * sin lat2"
    using unit_dot [of "cos lat1" "sin lat1" "cos lat2" "sin lat2" "cos dlon"] by (simp_all add: add.commute)
  with a show "0 \<le> a" "a \<le> 1" by simp_all
qed

text \<open>Distances are distances on the globe: for any two points the formula is defined (its arc sine is of a
number between 0 and 1), symmetric, zero from a point to itself, and at most half the
circumference.\<close>

theorem distance_on_globe:
  "0 \<le> calculate_distance_miles p q \<and> calculate_distance_miles p q \<le> 3958.8 * pi
   \<and> calculate_distance_miles p q = calculate_distance_miles q p \<and> calculate_distance_miles p p = 0"
proof -
  let ?lat = "\<lambda>p. radians (fst p)" and ?lon = "\<lambda>p. radians (snd p)"
  define a where "a = (sin ((?lat q - ?lat p) / 2))\<^sup>2 + cos (?lat p) * cos (?lat q) * (sin ((?lon q - ?lon p) / 2))\<^sup>2"
  have d: "calculate_distance_miles p q = 3958.8 * 2 * arcsin (sqrt a)" by (simp add: calculate_distance_miles_def a_def Let_def)
  have "0 \<le> sqrt a" "sqrt a \<le> 1"
    using haversine_range [of "?lat q" "?lat p" "?lon q - ?lon p"] by (simp_all add: a_def)
  then have "0 \<le> arcsin (sqrt a)" "arcsin (sqrt a) \<le> pi / 2"
    using arcsin_le_arcsin [of 0 "sqrt a"] arcsin_ubound [of "sqrt a"] by (simp_all only: arcsin_0)
  moreover have "calculate_distance_miles q p = calculate_distance_miles p q"
  proof -
    have "(sin ((x - y) / 2))\<^sup>2 = (sin ((y - x) / 2))\<^sup>2" for x y :: real
      using sin_minus [of "(y - x) / 2"] by (metis minus_diff_eq minus_divide_left power2_minus)
    then show ?thesis by (simp add: calculate_distance_miles_def Let_def mult.commute [of "cos (?lat p)"])
  qed
  moreover have "calculate_distance_miles p p = 0" by (simp add: calculate_distance_miles_def Let_def)
  ultimately show ?thesis using d by simp
qed

lemma format_examples: "format_distance (1 / 20) = ''0.1 miles away''" "format_distance (21 / 4) = ''5.2 miles away''"
proof -
  have "tenths (21 / 4) = 52" by (simp add: tenths_def Let_def)
  moreover have "str_int 5 = ''5''" "str_int 2 = ''2''" by code_simp+
  ultimately show "format_distance (21 / 4) = ''5.2 miles away''" by (simp add: format_distance_def)
  show "format_distance (1 / 20) = ''0.1 miles away''" by (simp add: format_distance_def)
qed

end
