(* ===== verification/Location_Link.thy ===== *)
theory Location_Link
  imports Location_Info Photon_Client
begin

text \<open>
  Sharing a location: the batch service of app/proactive/location/service.py, the tables of
  app/database/client/user_locations.py and user_handle_links.py, and \<open>_handle_location_share\<close>,
  \<open>_handle_pending_location_link\<close> and \<open>_generate_witty_location_response\<close> of app/orchestrator.py. The
  question that waits for an answer is in Redis; that it expires is a step of its own. Find My, the
  places and the reads of the users are answers of the environment; messages go through Photon_Client.
\<close>

section \<open>Tables\<close>

record uloc_row =
  ur_point :: "real \<times> real"
  ur_handle :: string
  ur_long :: "string option"
  ur_short :: "string option"
  ur_status :: "string option"
  ur_updated :: "int option"

record lworld =
  lw_locs :: "string \<rightharpoonup> uloc_row"
  lw_links :: "(string \<times> string) list"
  lw_pending :: "string \<rightharpoonup> string list \<times> floc list"
  lw_log :: plog

datatype lcall = LUpsert | LGetLocation | LLink | LGetLinks | LAllLinks | LCache

text \<open>\<open>le_friends\<close> is the answer of Find My to the batch service, \<open>le_fresh\<close> to the handler after it; \<open>le_users\<close>
are the onboarded users with phone number and e-mail address, if the read succeeds.\<close>

record lenv =
  le_friends :: "floc list"
  le_fresh :: "floc list"
  le_users :: "(string option \<times> string option \<times> string option) list option"
  le_up :: "lcall \<Rightarrow> bool"
  le_places :: "place list"
  le_now :: real
  le_retry :: retrier
  le_srv :: pserver

definition upsert_user_location :: "bool \<Rightarrow> string \<Rightarrow> uloc_row \<Rightarrow> lworld \<Rightarrow> bool \<times> lworld" where
  "upsert_user_location up uid row w = (if up then (True, w\<lparr>lw_locs := (lw_locs w)(uid \<mapsto> row)\<rparr>) else (False, w))"

definition get_user_location :: "bool \<Rightarrow> string \<Rightarrow> lworld \<Rightarrow> uloc_row option" where
  "get_user_location up uid w = (if up then lw_locs w uid else None)"

definition link_handle_to_user :: "bool \<Rightarrow> string \<Rightarrow> string \<Rightarrow> lworld \<Rightarrow> lworld" where
  "link_handle_to_user up uid handle w =
     (if up \<and> (uid, handle) \<notin> set (lw_links w) then w\<lparr>lw_links := lw_links w @ [(uid, handle)]\<rparr> else w)"

definition get_linked_handles :: "bool \<Rightarrow> string \<Rightarrow> lworld \<Rightarrow> string list" where
  "get_linked_handles up uid w = (if up then map snd (filter (\<lambda>l. fst l = uid) (lw_links w)) else [])"

definition find_user_by_linked_handle :: "bool \<Rightarrow> string \<Rightarrow> lworld \<Rightarrow> string option" where
  "find_user_by_linked_handle up handle w = (if up then map_option fst (find (\<lambda>l. snd l = handle) (lw_links w)) else None)"

definition get_all_linked_handles :: "bool \<Rightarrow> lworld \<Rightarrow> string list" where
  "get_all_linked_handles up w = (if up then map snd (lw_links w) else [])"

section \<open>The batch service\<close>

definition valid_locations :: "floc list \<Rightarrow> floc list" where
  "valid_locations = filter (\<lambda>l. findmy_handle (fl_handle l) \<noteq> [] \<and> good_point (fl_coords l) \<noteq> None)"

text \<open>The dictionary by handle keeps the last item of a handle.\<close>

definition location_of :: "floc list \<Rightarrow> string \<Rightarrow> floc option" where
  "location_of valid h = find (\<lambda>l. findmy_handle (fl_handle l) = h) (rev valid)"

definition match_handles :: "floc list \<Rightarrow> string list \<Rightarrow> (floc \<times> string) option" where
  "match_handles valid hs = (case find (\<lambda>h. h \<noteq> [] \<and> location_of valid h \<noteq> None) hs of
     None \<Rightarrow> None | Some h \<Rightarrow> Some (the (location_of valid h), h))"

definition batch_row :: "floc \<Rightarrow> string \<Rightarrow> uloc_row" where
  "batch_row l h = \<lparr>ur_point = the (good_point (fl_coords l)), ur_handle = h, ur_long = fl_long l, ur_short = fl_short l,
     ur_status = fl_status l, ur_updated = (case fl_updated l of Some (Some ts) \<Rightarrow> Some ts | _ \<Rightarrow> None)\<rparr>"

definition update_user :: "lenv \<Rightarrow> floc list \<Rightarrow> nat \<times> lworld \<Rightarrow> string option \<times> string option \<times> string option \<Rightarrow> nat \<times> lworld" where
  "update_user e valid st u = (case (st, u) of ((n, w), (uid, phone, email)) \<Rightarrow>
     if \<not> truthy_str uid then (n, w)
     else (case match_handles valid ([findmy_handle phone, findmy_handle email]
               @ map (\<lambda>h. findmy_handle (Some h)) (get_linked_handles (le_up e LGetLinks) (the uid) w)) of
         None \<Rightarrow> (n, w)
       | Some (l, h) \<Rightarrow> (case upsert_user_location (le_up e LUpsert) (the uid) (batch_row l h) w of
             (ok, w') \<Rightarrow> (if ok then n + 1 else n, w'))))"

definition location_run_once :: "lenv \<Rightarrow> lworld \<Rightarrow> nat \<times> lworld" where
  "location_run_once e w =
     (let valid = valid_locations (le_friends e) in
      if valid = [] then (0, w)
      else (case le_users e of None \<Rightarrow> (0, w) | Some us \<Rightarrow> foldl (update_user e valid) (0, w) us))"

section \<open>The answer\<close>

type_synonym 'a lio = "(lworld, perr, 'a) io"

definition send_to :: "lenv \<Rightarrow> string \<Rightarrow> ucs \<Rightarrow> string option \<Rightarrow> unit lio" where
  "send_to e to_number content chat w =
     (case send_message (le_retry e) (le_srv e) to_number content chat None None False (lw_log w) of
        (res, l) \<Rightarrow> (map_sum id (\<lambda>_. ()) res, w\<lparr>lw_log := l\<rparr>))"

text \<open>The names of the places in the answer are the first of their category; there are no places without
coordinates. A name of blanks only raises.\<close>

definition first_place :: "place list \<Rightarrow> pcategory \<Rightarrow> string option" where
  "first_place places cat = map_option pl_name (find (\<lambda>p. pl_name p \<noteq> [] \<and> categorize_place p = Some cat) places)"

definition witty_response :: "place list \<Rightarrow> real \<times> real \<Rightarrow> string option \<Rightarrow> string option \<Rightarrow> perr + ucs" where
  "witty_response places point short_address user_name =
     (let found = (if fst point = 0 \<or> snd point = 0 then [] else places); area = or_str short_address ''your area'' in
      if truthy_str user_name \<and> words_by py_space (the user_name) = [] then Inl (OtherError ''IndexError'')
      else Inr (case (first_place found Cafe, first_place found Bar, first_place found Restaurant) of
          (Some cafe, Some bar, _) \<Rightarrow> utext ''locked in '' @ [128205] @ utext ('' i see you near '' @ area @ ''. if you need a caffeine fix, '' @ cafe
             @ '' is close by. and if networking calls for happy hour vibes, '' @ bar @ '' isn't far either '') @ [127867]
        | (Some cafe, None, _) \<Rightarrow> utext ''got you '' @ [128205] @ utext ('' '' @ area @ '' huh? nice. i see '' @ cafe
             @ '' nearby - solid spot if you ever need to meet someone for coffee '') @ [9749]
        | (None, _, Some restaurant) \<Rightarrow> utext ''locked in '' @ [128205] @ utext ('' you're in '' @ area @ ''. '' @ restaurant
             @ '' is right there if you need a spot for a networking lunch '') @ [127869, 65039]
        | (None, Some bar, None) \<Rightarrow> [128205] @ utext ('' '' @ area @ '' - noted! '' @ bar
             @ '' is nearby for those after-work networking drinks when the time comes'')
        | (None, None, None) \<Rightarrow> utext ''got your location '' @ [128205] @ utext ('' '' @ area @ ''. now i can help connect you with people nearby!'')))"

section \<open>A shared location\<close>

record luser =
  lu_id :: string
  lu_name :: "string option"
  lu_phone :: "string option"
  lu_email :: "string option"

definition last10 :: "string \<Rightarrow> string" where
  "last10 s = drop (length s - 10) s"

text \<open>The handle (as normalized) is the user's own: the phone number or e-mail address, or the same last ten
digits as the phone number.\<close>

definition own_handle :: "luser \<Rightarrow> string \<Rightarrow> bool" where
  "own_handle u h \<longleftrightarrow> h \<noteq> [] \<and>
     (h = findmy_handle (lu_phone u) \<or> h = findmy_handle (lu_email u)
      \<or> (findmy_handle (lu_phone u) \<noteq> [] \<and> CHR ''@'' \<notin> set h
         \<and> (let a = last10 (filter isdigit_char h); b = last10 (filter isdigit_char (findmy_handle (lu_phone u))) in a \<noteq> [] \<and> b \<noteq> [] \<and> a = b)))"

definition own_item :: "luser \<Rightarrow> floc \<Rightarrow> bool" where
  "own_item u l \<longleftrightarrow> own_handle u (findmy_handle (fl_handle l))"

definition known_handles :: "lenv \<Rightarrow> lworld \<Rightarrow> string list" where
  "known_handles e w = filter (\<lambda>h. h \<noteq> [])
     ((case le_users e of None \<Rightarrow> [] | Some us \<Rightarrow> concat (map (\<lambda>(uid, phone, email). [findmy_handle phone, findmy_handle email]) us))
      @ map (\<lambda>h. findmy_handle (Some h)) (get_all_linked_handles (le_up e LAllLinks) w))"

definition link_candidates :: "lenv \<Rightarrow> lworld \<Rightarrow> floc list" where
  "link_candidates e w = filter (\<lambda>l. let h = findmy_handle (fl_handle l) in
       h \<noteq> [] \<and> h \<notin> set (known_handles e w) \<and> good_point (fl_coords l) \<noteq> None
       \<and> (case fl_updated l of Some (Some ts) \<Rightarrow> le_now e - of_int ts \<le> 300000 | _ \<Rightarrow> False)) (le_fresh e)"

text \<open>Linking a handle and storing its location; the results of both calls are ignored.\<close>

definition link_and_store :: "lenv \<Rightarrow> string \<Rightarrow> floc \<Rightarrow> unit lio" where
  "link_and_store e uid l w =
     (let handle = or_str (fl_handle l) ''''; w1 = link_handle_to_user (le_up e LLink) uid handle w in
      case fl_coords l of
        Some (x # y # _) \<Rightarrow> (Inr (), snd (upsert_user_location (le_up e LUpsert) uid
          \<lparr>ur_point = (x, y), ur_handle = handle, ur_long = fl_long l, ur_short = fl_short l, ur_status = fl_status l, ur_updated = None\<rparr> w1))
      | _ \<Rightarrow> (Inl (OtherError ''IndexError''), w1))"

definition link_and_answer :: "lenv \<Rightarrow> luser \<Rightarrow> string \<Rightarrow> string option \<Rightarrow> floc \<Rightarrow> unit lio" where
  "link_and_answer e u phone chat l =
     io_bind (link_and_store e (lu_id u) l) (\<lambda>_. \<lambda>w.
       case witty_response (le_places e) (the (good_point (fl_coords l)))
              (Some (or_str (fl_short l) (or_str (fl_long l) ''your area''))) (lu_name u) of
         Inl err \<Rightarrow> (Inl err, w) | Inr msg \<Rightarrow> send_to e phone msg chat w)"

definition join_handles :: "string list \<Rightarrow> string" where
  "join_handles hs = join_str '', '' (map (\<lambda>h. [CHR 0x22] @ h @ [CHR 0x22]) hs)"

definition ask_which :: "lenv \<Rightarrow> luser \<Rightarrow> string \<Rightarrow> string option \<Rightarrow> floc list \<Rightarrow> unit lio" where
  "ask_which e u phone chat candidates w =
     (let hs = map (\<lambda>l. or_str (fl_handle l) '''') candidates;
          w1 = (if le_up e LCache then w\<lparr>lw_pending := (lw_pending w)(lu_id u \<mapsto> (hs, candidates))\<rparr> else w)
      in send_to e phone (utext (''i see a few location accounts that could be yours: '' @ join_handles hs @ ''. which one is you?'')) chat w1)"

definition match_share :: "lenv \<Rightarrow> luser \<Rightarrow> string \<Rightarrow> string option \<Rightarrow> unit lio" where
  "match_share e u phone chat w =
     (if le_fresh e = [] then send_to e phone
        (utext ''thanks for sharing your location! i couldn't find any Find My data right now though. try again later?'') chat w
      else (case find (\<lambda>l. own_item u l \<and> good_point (fl_coords l) \<noteq> None) (le_fresh e) of
          Some l \<Rightarrow> link_and_answer e u phone chat l w
        | None \<Rightarrow>
            if list_ex (own_item u) (le_fresh e) then send_to e phone
              (utext ''i can see you started sharing your location, but Find My hasn't synced yet. give it 30 seconds and share again?'') chat w
            else (case link_candidates e w of
                [] \<Rightarrow> send_to e phone (utext (''thanks for sharing! i couldn't match your location to a Find My account right now. ''
                        @ ''make sure location sharing is enabled in Find My.'')) chat w
              | [l] \<Rightarrow> link_and_answer e u phone chat l w
              | candidates \<Rightarrow> ask_which e u phone chat candidates w)))"

definition share_body :: "lenv \<Rightarrow> luser \<Rightarrow> string \<Rightarrow> string option \<Rightarrow> unit lio" where
  "share_body e u phone chat w =
     (let w1 = snd (location_run_once e w) in
      case get_user_location (le_up e LGetLocation) (lu_id u) w1 of
        Some row \<Rightarrow> (case witty_response (le_places e) (ur_point row) (ur_short row) (lu_name u) of
            Inl err \<Rightarrow> (Inl err, w1) | Inr msg \<Rightarrow> send_to e phone msg chat w1)
      | None \<Rightarrow> match_share e u phone chat w1)"

definition handle_location_share :: "lenv \<Rightarrow> luser \<Rightarrow> string \<Rightarrow> string option \<Rightarrow> unit lio" where
  "handle_location_share e u phone chat w =
     (let w1 = w\<lparr>lw_log := snd (mark_chat_read (le_srv e) chat (lw_log w))\<rparr> in
      io_catch (share_body e u phone chat) (\<lambda>_. \<lambda>w2.
        (Inr (), snd (send_to e phone (utext ''thanks for sharing your location! had a small hiccup processing it though.'') chat w2))) w1)"

section \<open>The answer to the question\<close>

definition handle_index :: "string \<Rightarrow> string list \<Rightarrow> nat option" where
  "handle_index reply handles =
     find (\<lambda>i. contains_str (py_lower (handles ! i)) reply \<or> contains_str reply (py_lower (handles ! i))) [0..<length handles]"

definition index_words :: "(string \<times> nat) list" where
  "index_words = [(''1'', 0), (''first'', 0), (''2'', 1), (''second'', 1), (''3'', 2), (''third'', 2)]"

definition matched_item :: "string \<Rightarrow> string list \<Rightarrow> floc list \<Rightarrow> floc option" where
  "matched_item reply handles locations =
     (case (case handle_index reply handles of None \<Rightarrow> None
            | Some i \<Rightarrow> if i < length locations then Some (locations ! i) else None) of
        Some l \<Rightarrow> Some l
      | None \<Rightarrow> map_option (\<lambda>(word, i). locations ! i) (find (\<lambda>(word, i). contains_str word reply \<and> i < length locations) index_words))"

definition forget_pending :: "lenv \<Rightarrow> string \<Rightarrow> lworld \<Rightarrow> lworld" where
  "forget_pending e uid w = (if le_up e LCache then w\<lparr>lw_pending := (lw_pending w)(uid := None)\<rparr> else w)"

definition pending_body :: "lenv \<Rightarrow> luser \<Rightarrow> string \<Rightarrow> string option \<Rightarrow> string \<Rightarrow> string list \<times> floc list \<Rightarrow> unit lio" where
  "pending_body e u phone chat content pending =
     (case matched_item (py_lower (py_strip content)) (fst pending) (snd pending) of
        None \<Rightarrow> send_to e phone (utext ''hmm, i couldn't figure out which one. can you reply with the exact email/handle?'') chat
      | Some l \<Rightarrow> io_bind (link_and_store e (lu_id u) l) (\<lambda>_. \<lambda>w.
          send_to e phone (utext (''got it! linked '' @ [CHR 0x22] @ or_str (fl_handle l) '''' @ [CHR 0x22] @ '' to your account. i can see you're in ''
            @ or_str (fl_short l) (or_str (fl_long l) ''your area'') @ ''.'')) chat (forget_pending e (lu_id u) w)))"

definition handle_pending_location_link :: "lenv \<Rightarrow> luser \<Rightarrow> string \<Rightarrow> string option \<Rightarrow> string \<Rightarrow> string list \<times> floc list \<Rightarrow> unit lio" where
  "handle_pending_location_link e u phone chat content pending =
     io_catch (pending_body e u phone chat content pending) (\<lambda>_. \<lambda>w.
       send_to e phone (utext ''had trouble linking that. try sharing your location again?'') chat (forget_pending e (lu_id u) w))"

section \<open>What the handlers keep\<close>

definition maintains :: "('s \<Rightarrow> bool) \<Rightarrow> ('s, 'e, 'a) io \<Rightarrow> bool" where
  "maintains P m \<longleftrightarrow> (\<forall>w. P w \<longrightarrow> P (snd (m w)))"

named_theorems maintains_rules

lemma maintainsD: "maintains P m \<Longrightarrow> P w \<Longrightarrow> P (snd (m w))"
  by (simp add: maintains_def)

lemma maintains_bind [maintains_rules]:
  "maintains P m \<Longrightarrow> (\<And>x. maintains P (g x)) \<Longrightarrow> maintains P (io_bind m g)"
  unfolding maintains_def io_bind_def by (auto split: prod.splits sum.splits)

lemma maintains_catch [maintains_rules]:
  "maintains P m \<Longrightarrow> (\<And>e. maintains P (g e)) \<Longrightarrow> maintains P (io_catch m g)"
  unfolding maintains_def io_catch_def by (auto split: prod.splits sum.splits)

text \<open>Sending changes the log only.\<close>

lemma send_to_frame [simp]:
  "lw_locs (snd (send_to e to_number c chat w)) = lw_locs w" "lw_links (snd (send_to e to_number c chat w)) = lw_links w"
  "lw_pending (snd (send_to e to_number c chat w)) = lw_pending w"
  by (simp_all add: send_to_def split: prod.splits)

lemma good_point_iff: "good_point c = Some p \<longleftrightarrow> (\<exists>x y r. c = Some (x # y # r) \<and> p = (x, y)) \<and> p \<noteq> (0, 0)"
  by (auto simp: good_point_def split: option.splits list.splits if_splits)

lemma link_frame [simp]:
  "lw_locs (link_handle_to_user up uid h w) = lw_locs w" "lw_pending (link_handle_to_user up uid h w) = lw_pending w"
  "lw_log (link_handle_to_user up uid h w) = lw_log w"
  by (simp_all add: link_handle_to_user_def)

lemma upsert_frame [simp]:
  "lw_links (snd (upsert_user_location up uid row w)) = lw_links w" "lw_pending (snd (upsert_user_location up uid row w)) = lw_pending w"
  by (simp_all add: upsert_user_location_def)

lemma link_links: "lw_links (link_handle_to_user up uid h w) = lw_links w \<or> lw_links (link_handle_to_user up uid h w) = lw_links w @ [(uid, h)]"
  by (simp add: link_handle_to_user_def)

lemma forget_frame [simp]:
  "lw_locs (forget_pending e uid w) = lw_locs w" "lw_links (forget_pending e uid w) = lw_links w"
  by (simp_all add: forget_pending_def)

text \<open>Locations are at valid coordinates, and so are those that wait for an answer.\<close>

definition lworld_ok :: "lworld \<Rightarrow> bool" where
  "lworld_ok w \<longleftrightarrow> (\<forall>uid row. lw_locs w uid = Some row \<longrightarrow> ur_point row \<noteq> (0, 0))
     \<and> (\<forall>uid hs ls. lw_pending w uid = Some (hs, ls) \<longrightarrow> list_all (\<lambda>l. good_point (fl_coords l) \<noteq> None) ls)"

lemma lworld_ok_cong: "lw_locs w' = lw_locs w \<Longrightarrow> lw_pending w' = lw_pending w \<Longrightarrow> lworld_ok w' = lworld_ok w"
  by (simp add: lworld_ok_def)

lemma upsert_ok: "lworld_ok w \<Longrightarrow> ur_point row \<noteq> (0, 0) \<Longrightarrow> lworld_ok (snd (upsert_user_location up uid row w))"
  by (auto simp: lworld_ok_def upsert_user_location_def)

lemma forget_ok: "lworld_ok w \<Longrightarrow> lworld_ok (forget_pending e uid w)"
  unfolding lworld_ok_def forget_pending_def by auto

lemma ok_send [maintains_rules]: "maintains lworld_ok (send_to e to_number c chat)"
  unfolding maintains_def by (metis lworld_ok_cong send_to_frame(1,3))

lemma match_handles_valid:
  assumes "match_handles (valid_locations ls) hs = Some (l, h)"
  shows "l \<in> set ls \<and> good_point (fl_coords l) \<noteq> None \<and> findmy_handle (fl_handle l) = h \<and> h \<in> set hs"
proof (cases "find (\<lambda>h. h \<noteq> [] \<and> location_of (valid_locations ls) h \<noteq> None) hs")
  case None
  with assms show ?thesis by (simp add: match_handles_def)
next
  case (Some h')
  have "the (location_of (valid_locations ls) h') = l \<and> h' = h"
    using assms unfolding match_handles_def Some option.case option.inject prod.inject .
  then have h': "l = the (location_of (valid_locations ls) h')" "h = h'" by blast+
  have "h' \<in> set hs \<and> h' \<noteq> [] \<and> location_of (valid_locations ls) h' \<noteq> None" by (rule find_Some_in [OF Some])
  with h'(1) have "location_of (valid_locations ls) h' = Some l" and hs: "h' \<in> set hs" by simp_all
  then have "l \<in> set (rev (valid_locations ls)) \<and> findmy_handle (fl_handle l) = h'"
    unfolding location_of_def by (intro find_Some_in)
  with hs h'(2) show ?thesis by (simp add: valid_locations_def)
qed

lemma update_user_ok: "lworld_ok w \<Longrightarrow> lworld_ok (snd (update_user e (valid_locations ls) (n, w) u))"
proof (cases u)
  case (fields uid phone email)
  assume ok: "lworld_ok w"
  let ?m = "match_handles (valid_locations ls) ([findmy_handle phone, findmy_handle email]
               @ map (\<lambda>h. findmy_handle (Some h)) (get_linked_handles (le_up e LGetLinks) (the uid) w))"
  show ?thesis
  proof (cases "truthy_str uid \<and> ?m \<noteq> None")
    case True
    then obtain l h where m: "?m = Some (l, h)" by force
    obtain p where p: "good_point (fl_coords l) = Some p" using match_handles_valid [OF m] by blast
    then have "p \<noteq> (0, 0)" by (simp add: good_point_iff)
    with p have "ur_point (batch_row l h) \<noteq> (0, 0)" by (simp add: batch_row_def)
    then have "lworld_ok (snd (upsert_user_location (le_up e LUpsert) (the uid) (batch_row l h) w))" by (rule upsert_ok [OF ok])
    moreover have "snd (update_user e (valid_locations ls) (n, w) u) = snd (upsert_user_location (le_up e LUpsert) (the uid) (batch_row l h) w)"
      unfolding update_user_def fields prod.case m option.case using True by (simp split: prod.splits)
    ultimately show ?thesis by simp
  next
    case False
    with ok show ?thesis by (auto simp: update_user_def fields split: option.splits)
  qed
qed

lemma run_once_ok: "lworld_ok w \<Longrightarrow> lworld_ok (snd (location_run_once e w))"
proof -
  assume ok: "lworld_ok w"
  have "lworld_ok (snd (foldl (update_user e (valid_locations ls)) (0, w) us))" for ls us
  proof (induction us rule: rev_induct)
    case (snoc u us)
    then show ?case using update_user_ok [of _ e ls] by (metis foldl_append foldl_Cons foldl_Nil prod.collapse)
  qed (use ok in simp)
  with ok show ?thesis by (simp add: location_run_once_def Let_def split: option.splits)
qed

lemma link_and_store_ok:
  assumes "good_point (fl_coords l) \<noteq> None"
  shows "maintains lworld_ok (link_and_store e uid l)"
proof -
  obtain x y r where l: "fl_coords l = Some (x # y # r)" "(x, y) \<noteq> (0, 0)" using assms by (auto simp: good_point_iff)
  have "lworld_ok (link_handle_to_user up uid h w)" if "lworld_ok w" for up h w
    using that lworld_ok_cong [of "link_handle_to_user up uid h w" w] by simp
  with l upsert_ok show ?thesis by (auto simp: maintains_def link_and_store_def Let_def)
qed

lemma link_and_answer_ok: "good_point (fl_coords l) \<noteq> None \<Longrightarrow> maintains lworld_ok (link_and_answer e u phone chat l)"
  unfolding link_and_answer_def
  by (intro maintains_bind link_and_store_ok) (auto simp: maintains_def split: sum.splits intro: maintainsD [OF ok_send])

lemma ask_which_ok:
  assumes "list_all (\<lambda>l. good_point (fl_coords l) \<noteq> None) ls"
  shows "maintains lworld_ok (ask_which e u phone chat ls)"
proof -
  have "lworld_ok (w\<lparr>lw_pending := (lw_pending w)(lu_id u \<mapsto> (hs, ls))\<rparr>)" if "lworld_ok w" for w hs
    using that assms by (auto simp: lworld_ok_def)
  then show ?thesis unfolding maintains_def ask_which_def by (auto simp: Let_def intro: maintainsD [OF ok_send])
qed

lemma candidates_good: "list_all (\<lambda>l. good_point (fl_coords l) \<noteq> None) (link_candidates e w)"
  by (simp add: link_candidates_def list_all_iff Let_def)

lemma match_share_ok: "maintains lworld_ok (match_share e u phone chat)"
proof -
  have own: "maintains lworld_ok (link_and_answer e u phone chat l)" if "find (\<lambda>l. own_item u l \<and> good_point (fl_coords l) \<noteq> None) ls = Some l" for l ls
    using find_Some_in [OF that] by (intro link_and_answer_ok) blast
  have one: "maintains lworld_ok (link_and_answer e u phone chat l)" if "link_candidates e w = [l]" for l w
    using candidates_good [of e w] that by (intro link_and_answer_ok) simp
  have more: "maintains lworld_ok (ask_which e u phone chat (link_candidates e w))" for w
    by (rule ask_which_ok [OF candidates_good])
  show ?thesis
    unfolding maintains_def
  proof (intro allI impI)
    fix w assume ok: "lworld_ok w"
    consider l where "link_candidates e w = [l]" | "link_candidates e w = []"
      | "\<exists>a b ls. link_candidates e w = a # b # ls" by (metis neq_Nil_conv)
    then show "lworld_ok (snd (match_share e u phone chat w))"
      using ok own more [of w] one [of w] maintainsD [OF ok_send ok]
      by cases (auto simp: match_share_def maintains_def split: option.splits)
  qed
qed


lemma matched_item_in: "matched_item r hs ls = Some l \<Longrightarrow> l \<in> set ls"
  by (auto simp: matched_item_def dest: find_Some_in split: option.splits if_splits)

lemma pending_body_ok:
  assumes "list_all (\<lambda>l. good_point (fl_coords l) \<noteq> None) (snd p)"
  shows "maintains lworld_ok (pending_body e u phone chat content p)"
proof (cases "matched_item (py_lower (py_strip content)) (fst p) (snd p)")
  case None
  show ?thesis unfolding pending_body_def None option.case by (rule ok_send)
next
  case (Some l)
  have "maintains lworld_ok (\<lambda>w. send_to e phone c chat (forget_pending e uid w))" for c uid
    using maintainsD [OF ok_send] forget_ok unfolding maintains_def by blast
  moreover have "good_point (fl_coords l) \<noteq> None" using assms matched_item_in [OF Some] by (simp add: list_all_iff)
  ultimately show ?thesis unfolding pending_body_def Some option.case by (intro maintains_bind link_and_store_ok)
qed

lemma pending_ok:
  assumes "list_all (\<lambda>l. good_point (fl_coords l) \<noteq> None) (snd p)"
  shows "maintains lworld_ok (handle_pending_location_link e u phone chat content p)"
  unfolding handle_pending_location_link_def
proof (rule maintains_catch [OF pending_body_ok [OF assms]])
  fix err
  show "maintains lworld_ok (\<lambda>w. send_to e phone (utext ''had trouble linking that. try sharing your location again?'') chat (forget_pending e (lu_id u) w))"
    using maintainsD [OF ok_send] forget_ok unfolding maintains_def by blast
qed

lemma share_body_ok: "maintains lworld_ok (share_body e u phone chat)"
  unfolding maintains_def
proof (intro allI impI)
  fix w assume "lworld_ok w"
  then have ok: "lworld_ok (snd (location_run_once e w))" by (rule run_once_ok)
  show "lworld_ok (snd (share_body e u phone chat w))"
    using maintainsD [OF match_share_ok ok] maintainsD [OF ok_send ok] ok
    by (auto simp: share_body_def Let_def split: option.splits sum.splits)
qed

lemma share_ok: "maintains lworld_ok (handle_location_share e u phone chat)"
proof -
  have "maintains lworld_ok (\<lambda>w. (Inr (), snd (send_to e phone c chat w)) :: (perr + unit) \<times> lworld)" for c
    using maintainsD [OF ok_send] unfolding maintains_def by simp
  then have "maintains lworld_ok (io_catch (share_body e u phone chat) (\<lambda>_. \<lambda>w2.
        (Inr (), snd (send_to e phone (utext ''thanks for sharing your location! had a small hiccup processing it though.'') chat w2)) :: (perr + unit) \<times> lworld))"
    by (rule maintains_catch [OF share_body_ok])
  moreover have "lworld_ok (w\<lparr>lw_log := l\<rparr>)" if "lworld_ok w" for w l using that by (simp add: lworld_ok_def)
  ultimately show ?thesis unfolding handle_location_share_def maintains_def by (simp add: Let_def)
qed

section \<open>Runs\<close>

text \<open>The batch run, a shared location, an answer while a question waits, the end of a question's time.\<close>

inductive loc_step :: "lworld \<Rightarrow> lworld \<Rightarrow> bool" where
  batch: "loc_step w (snd (location_run_once e w))"
| share: "loc_step w (snd (handle_location_share e u phone chat w))"
| reply: "lw_pending w (lu_id u) = Some p \<Longrightarrow> loc_step w (snd (handle_pending_location_link e u phone chat content p w))"
| expire: "loc_step w (w\<lparr>lw_pending := (lw_pending w)(uid := None)\<rparr>)"

inductive loc_run :: "lworld \<Rightarrow> bool" where
  start: "loc_run \<lparr>lw_locs = Map.empty, lw_links = links, lw_pending = Map.empty, lw_log = sent\<rparr>"
| step: "loc_run w \<Longrightarrow> loc_step w w' \<Longrightarrow> loc_run w'"

lemma loc_step_ok: "loc_step w w' \<Longrightarrow> lworld_ok w \<Longrightarrow> lworld_ok w'"
proof (induction rule: loc_step.induct)
  case (batch w e)
  then show ?case by (rule run_once_ok)
next
  case (share w e u phone chat)
  then show ?case by (rule maintainsD [OF share_ok])
next
  case (reply w u p e phone chat content)
  have "list_all (\<lambda>l. good_point (fl_coords l) \<noteq> None) (snd p)"
    using reply.hyps reply.prems by (cases p) (simp add: lworld_ok_def)
  then show ?case by (rule maintainsD [OF pending_ok reply.prems])
next
  case (expire w uid)
  then show ?case by (simp add: lworld_ok_def)
qed

lemma loc_run_ok: "loc_run w \<Longrightarrow> lworld_ok w"
  by (induction rule: loc_run.induct) (auto simp: lworld_ok_def [of "\<lparr>lw_locs = _, lw_links = _, lw_pending = _, lw_log = _\<rparr>"] intro: loc_step_ok)

text \<open>C26: In every run of batch updates, shared locations, answers and expiries, a stored location is never at the
point (0, 0) that Find My gives before it has synced.\<close>

theorem stored_locations_are_valid:
  assumes "loc_run w" and "lw_locs w uid = Some row"
  shows "ur_point row \<noteq> (0, 0)"
  using loc_run_ok [OF assms(1)] assms(2) by (simp add: lworld_ok_def)


section \<open>Whose location\<close>

text \<open>The batch run neither reads nor writes the log.\<close>

lemma update_user_log:
  "update_user e v (n, w\<lparr>lw_log := l\<rparr>) u = map_prod id (lw_log_update (\<lambda>_. l)) (update_user e v (n, w) u)"
  by (cases u) (simp add: update_user_def upsert_user_location_def get_linked_handles_def split: option.splits prod.splits)

lemma updates_log:
  "foldl (update_user e v) (n, w\<lparr>lw_log := l\<rparr>) us = map_prod id (lw_log_update (\<lambda>_. l)) (foldl (update_user e v) (n, w) us)"
proof (induction us arbitrary: n w)
  case (Cons u us)
  obtain n' w' where u: "update_user e v (n, w) u = (n', w')" by force
  show ?case using Cons.IH [of n' w'] by (simp add: update_user_log u)
qed simp

lemma run_once_log: "location_run_once e (w\<lparr>lw_log := l\<rparr>) = map_prod id (lw_log_update (\<lambda>_. l)) (location_run_once e w)"
  by (simp add: location_run_once_def updates_log Let_def split: option.splits)

text \<open>What a shared location may store: a row for the user who shares.\<close>

definition stores_own :: "lenv \<Rightarrow> luser \<Rightarrow> lworld \<Rightarrow> lworld \<Rightarrow> floc \<Rightarrow> bool" where
  "stores_own e u w w' l \<longleftrightarrow> lw_locs w' = lw_locs w
     \<or> (\<exists>row. good_point (fl_coords l) = Some (ur_point row) \<and> lw_locs w' = (lw_locs w)(lu_id u \<mapsto> row))"

lemma link_and_store_own:
  assumes "good_point (fl_coords l) \<noteq> None"
  shows "stores_own e u w (snd (link_and_store e (lu_id u) l w)) l"
proof -
  obtain x y r where l: "fl_coords l = Some (x # y # r)" and g: "good_point (fl_coords l) = Some (x, y)"
    using assms by (auto simp: good_point_iff)
  have "snd (link_and_store e (lu_id u) l w) = snd (upsert_user_location (le_up e LUpsert) (lu_id u)
          \<lparr>ur_point = (x, y), ur_handle = or_str (fl_handle l) '''', ur_long = fl_long l, ur_short = fl_short l, ur_status = fl_status l, ur_updated = None\<rparr>
          (link_handle_to_user (le_up e LLink) (lu_id u) (or_str (fl_handle l) '''') w))"
    by (simp add: link_and_store_def l Let_def)
  then show ?thesis unfolding stores_own_def g
    by (cases "le_up e LUpsert") (auto simp: upsert_user_location_def intro!: exI)
qed

lemma link_and_answer_own: "good_point (fl_coords l) \<noteq> None \<Longrightarrow> stores_own e u w (snd (link_and_answer e u phone chat l w)) l"
  using link_and_store_own [of l e u w]
  by (auto simp: link_and_answer_def io_bind_def stores_own_def split: prod.splits sum.splits)

definition may_be_own :: "lenv \<Rightarrow> luser \<Rightarrow> lworld \<Rightarrow> floc \<Rightarrow> bool" where
  "may_be_own e u w l \<longleftrightarrow> l \<in> set (le_fresh e) \<and> good_point (fl_coords l) \<noteq> None
     \<and> (own_item u l \<or> list_all (\<lambda>l'. \<not> own_item u l') (le_fresh e) \<and> link_candidates e w = [l])"

lemma candidate_in: "l \<in> set (link_candidates e w) \<Longrightarrow> l \<in> set (le_fresh e) \<and> good_point (fl_coords l) \<noteq> None"
  by (simp add: link_candidates_def Let_def)

lemma match_share_own:
  "lw_locs (snd (match_share e u phone chat w)) = lw_locs w
   \<or> (\<exists>l. may_be_own e u w l \<and> stores_own e u w (snd (match_share e u phone chat w)) l)"
proof (cases "find (\<lambda>l. own_item u l \<and> good_point (fl_coords l) \<noteq> None) (le_fresh e)")
  case (Some l)
  from find_Some_in [OF Some] have "may_be_own e u w l" and good: "good_point (fl_coords l) \<noteq> None" by (auto simp: may_be_own_def)
  with link_and_answer_own [OF good, of e u w phone chat] show ?thesis by (auto simp: match_share_def Some simp del: not_None_eq)
next
  case None
  consider l where "link_candidates e w = [l]" "\<not> list_ex (own_item u) (le_fresh e)"
    | "list_ex (own_item u) (le_fresh e)" | "link_candidates e w = []" | "\<exists>a b ls. link_candidates e w = a # b # ls"
    by (metis neq_Nil_conv)
  then show ?thesis
  proof cases
    case 1
    from candidate_in [of l e w] 1 have good: "good_point (fl_coords l) \<noteq> None" "l \<in> set (le_fresh e)" by auto
    then have "may_be_own e u w l" using 1 by (auto simp: may_be_own_def list_all_iff list_ex_iff)
    with link_and_answer_own [OF good(1), of e u w phone chat] 1 show ?thesis by (auto simp: match_share_def None simp del: not_None_eq)
  next
    case 4
    then obtain a b ls where "link_candidates e w = a # b # ls" by blast
    then show ?thesis by (simp add: match_share_def None ask_which_def Let_def del: not_None_eq)
  qed (auto simp: match_share_def None simp del: not_None_eq)
qed

lemma candidates_log [simp]: "link_candidates e (w\<lparr>lw_log := l\<rparr>) = link_candidates e w"
  by (simp add: link_candidates_def known_handles_def get_all_linked_handles_def)

lemma share_body_own:
  "lw_locs (snd (share_body e u phone chat w)) = lw_locs (snd (location_run_once e w))
   \<or> (\<exists>l. may_be_own e u (snd (location_run_once e w)) l \<and> stores_own e u (snd (location_run_once e w)) (snd (share_body e u phone chat w)) l)"
  using match_share_own [of e u phone chat "snd (location_run_once e w)"]
  by (simp add: share_body_def Let_def split: option.splits sum.splits)

lemma share_catch_locs: "lw_locs (snd (handle_location_share e u phone chat w))
    = lw_locs (snd (share_body e u phone chat (w\<lparr>lw_log := snd (mark_chat_read (le_srv e) chat (lw_log w))\<rparr>)))"
  by (simp add: handle_location_share_def io_catch_def Let_def split: prod.splits sum.splits)



section \<open>Examples\<close>

definition example_item :: "string \<Rightarrow> floc" where
  "example_item h = \<lparr>fl_handle = Some h, fl_coords = Some [40, 2], fl_long = None, fl_short = Some ''Chicago'', fl_status = None,
     fl_updated = Some (Some 0)\<rparr>"

definition example_env :: lenv where
  "example_env = \<lparr>le_friends = [], le_fresh = [example_item ''b@c.de''], le_users = Some [(Some ''u1'', None, Some ''a@b.co'')], le_up = (\<lambda>_. True),
     le_places = [], le_now = 0, le_retry = retry_attempts, le_srv = (\<lambda>w r. (True, POk (Inr None)))\<rparr>"

definition example_luser :: luser where
  "example_luser = \<lparr>lu_id = ''u1'', lu_name = None, lu_phone = None, lu_email = Some ''a@b.co''\<rparr>"

definition example_lworld :: lworld where
  "example_lworld = \<lparr>lw_locs = Map.empty, lw_links = [], lw_pending = Map.empty, lw_log = []\<rparr>"

lemma example_handles:
  "findmy_handle (Some ''b@c.de'') = ''b@c.de''" "findmy_handle (Some ''a@b.co'') = ''a@b.co''" "findmy_handle None = []"
  by code_simp+

lemma example_env_simps: "le_fresh example_env = [example_item ''b@c.de'']" "le_up example_env c" "le_friends example_env = []"
  by (simp_all add: example_env_def)

lemma example_candidates: "link_candidates example_env example_lworld = [example_item ''b@c.de'']"
  by (simp add: link_candidates_def example_env_def example_lworld_def example_item_def example_handles known_handles_def
      get_all_linked_handles_def good_point_def)

lemma example_own: "\<not> own_item example_luser (example_item ''b@c.de'')"
  by (simp add: own_item_def own_handle_def example_luser_def example_item_def example_handles)

lemma example_share:
  "lw_locs (snd (handle_location_share example_env example_luser ''+16463707933'' None example_lworld)) ''u1'' \<noteq> None"
proof -
  have "location_run_once example_env w = (0, w)" for w
    by (simp add: location_run_once_def example_env_def valid_locations_def)
  moreover have "match_share example_env example_luser p c example_lworld = link_and_answer example_env example_luser p c (example_item ''b@c.de'') example_lworld" for p c
    by (simp add: match_share_def example_candidates example_own example_env_simps)
  moreover have "mark_chat_read srv None w = (Inr (), w)" for srv w by (simp add: mark_chat_read_def mark_chat_def io_return_def)
  moreover have "get_user_location b uid example_lworld = None" for b uid by (simp add: get_user_location_def example_lworld_def)
  moreover have "example_lworld\<lparr>lw_log := snd (Inr (), lw_log example_lworld)\<rparr> = example_lworld" by (simp add: example_lworld_def)
  moreover have "lw_locs (snd (link_and_answer example_env example_luser p c (example_item ''b@c.de'') example_lworld)) ''u1'' \<noteq> None" for p c
    by (simp add: link_and_answer_def io_bind_def link_and_store_def example_item_def Let_def upsert_user_location_def
        example_env_simps example_luser_def split: sum.splits)
  ultimately show ?thesis unfolding share_catch_locs share_body_def by (simp add: Let_def)
qed


lemma stored_locations_are_valid_witness:
  "\<exists>row. lw_locs (snd (handle_location_share example_env example_luser ''+16463707933'' None example_lworld)) ''u1'' = Some row
     \<and> ur_point row \<noteq> (0, 0)"
proof -
  obtain row where row: "lw_locs (snd (handle_location_share example_env example_luser ''+16463707933'' None example_lworld)) ''u1'' = Some row"
    using example_share by blast
  have "loc_run example_lworld" unfolding example_lworld_def by (rule loc_run.start)
  then have "loc_run (snd (handle_location_share example_env example_luser ''+16463707933'' None example_lworld))"
    by (rule loc_run.step [OF _ loc_step.share])
  from row stored_locations_are_valid [OF this row] show ?thesis by blast
qed


section \<open>The answer that chooses\<close>

lemma catch_locs: "(\<And>e w. lw_locs (snd (g e w)) = lw_locs w) \<Longrightarrow> lw_locs (snd (io_catch f g w)) = lw_locs (snd (f w))"
  by (simp add: io_catch_def split: prod.splits sum.splits)

lemma matched_first:
  assumes "contains_str (py_lower h) r \<or> contains_str r (py_lower h)"
  shows "matched_item r (h # hs) (l # ls) = Some l"
proof -
  have "handle_index r (h # hs) = Some 0" using assms by (simp add: handle_index_def upt_conv_Cons del: upt_Suc)
  then show ?thesis by (simp add: matched_item_def)
qed

text \<open>An answer by number may link the wrong account. The test whether the answer is part of a handle comes before
the test for numbers: if the first handle contains the answer (a 2, say, or nothing at all), the
first location is linked and stored, also when the user answered 2 for the second.\<close>

theorem number_may_link_first_handle:
  assumes "contains_str (py_lower (py_strip content)) (py_lower h)"
    and "good_point (fl_coords l) = Some p" and "le_up e LUpsert"
  shows "map_option ur_point (lw_locs (snd (handle_pending_location_link e u phone chat content (h # hs, l # ls) w)) (lu_id u)) = Some p"
proof -
  have m: "matched_item (py_lower (py_strip content)) (h # hs) (l # ls) = Some l" using assms(1) by (intro matched_first) simp
  obtain x y r where l: "fl_coords l = Some (x # y # r)" "p = (x, y)" using assms(2) by (auto simp: good_point_iff)
  have "\<exists>w'. link_and_store e (lu_id u) l w = (Inr (), w') \<and> map_option ur_point (lw_locs w' (lu_id u)) = Some p"
    using assms(3) by (simp add: link_and_store_def l Let_def upsert_user_location_def)
  then obtain w' where "link_and_store e (lu_id u) l w = (Inr (), w')" "map_option ur_point (lw_locs w' (lu_id u)) = Some p" by blast
  then show ?thesis unfolding handle_pending_location_link_def
    by (subst catch_locs) (simp_all add: pending_body_def m io_bind_def)
qed

lemma number_may_link_first_handle_witness:
  "map_option ur_point (lw_locs (snd (handle_pending_location_link example_env example_luser ''+16463707933'' None ''2''
     ([''a2@b.co'', ''b@c.de''], [example_item ''a2@b.co'', example_item ''b@c.de'']) example_lworld)) ''u1'') = Some (40, 2)"
proof -
  have "contains_str (py_lower (py_strip ''2'')) (py_lower ''a2@b.co'')" by code_simp
  moreover have "good_point (fl_coords (example_item ''a2@b.co'')) = Some (40, 2)" by (simp add: good_point_def example_item_def)
  ultimately show ?thesis
    using number_may_link_first_handle [of "''2''" "''a2@b.co''" "example_item ''a2@b.co''" "(40, 2)" example_env example_luser]
    by (simp add: example_env_simps example_luser_def)
qed

end
