(* ===== verification/Orchestrator.thy ===== *)
theory Orchestrator
  imports Redis_Guard Group_Router Location_Link
begin

text \<open>
  The entry of every message, \<open>MainOrchestrator\<close> of app/orchestrator.py: \<open>handle_message\<close>,
  \<open>_send_message_chunks\<close> and what they start. It composes the location handlers (Location_Link), the
  group chat router (Group_Router), the Redis client (Redis_Guard), the chunker and the messaging
  client. The interaction agent, an LLM program, is a parameter that may change the state in any way.
  Background tasks are recorded when they are created.
\<close>

section \<open>State\<close>

record oconv =
  cv_user :: string
  cv_text :: ucs
  cv_bot :: bool
  cv_meta :: dict

datatype otask =
    ZepSync string string ucs "string option" "string option"
  | React string "string option" "string option" string "string option" "string option" "string option"

record 's chat_world =
  ob_loc :: lworld
  ob_group :: gworld
  ob_conv :: "oconv list"
  ob_redis :: 's
  ob_tasks :: "otask list"

text \<open>\<open>Stopped\<close> is what \<open>except Exception\<close> does not catch: \<open>CancelledError\<close>, \<open>SystemExit\<close>, \<open>KeyboardInterrupt\<close>.\<close>

datatype oerr = Raised perr | Stopped string

type_synonym ('s, 'a) oio = "('s chat_world, oerr, 'a) io"

definition on_loc :: "'a lio \<Rightarrow> ('s, 'a) oio" where
  "on_loc m w = (case m (ob_loc w) of (r, l) \<Rightarrow> (map_sum Raised id r, w\<lparr>ob_loc := l\<rparr>))"

definition on_log :: "'a pio \<Rightarrow> ('s, 'a) oio" where
  "on_log m = on_loc (\<lambda>l. case m (lw_log l) of (r, v) \<Rightarrow> (r, l\<lparr>lw_log := v\<rparr>))"

definition on_redis :: "('s, string, 'a) io \<Rightarrow> ('s, 'a) oio" where
  "on_redis m w = (case m (ob_redis w) of (r, s) \<Rightarrow> (map_sum (\<lambda>e. Raised (OtherError e)) id r, w\<lparr>ob_redis := s\<rparr>))"

definition spawn :: "otask \<Rightarrow> ('s, unit) oio" where
  "spawn t w = (Inr (), w\<lparr>ob_tasks := ob_tasks w @ [t]\<rparr>)"

text \<open>A user as the database gives it; \<open>os_facts_stage\<close> is the onboarding stage of the personal facts.\<close>

record chat_user =
  os_id :: string
  os_name :: "string option"
  os_phone :: "string option"
  os_email :: "string option"
  os_stage :: "string option"
  os_facts_stage :: "string option"

text \<open>One response of the agent, and its result. \<open>rs_responses\<close> is nothing if it is not a list; \<open>rs_stage\<close> is the
onboarding stage of the returned state, or the exception that reading it raises.\<close>

record oitem =
  it_text :: ucs
  it_intent :: "string option"
  it_task :: "string option"
  it_urls :: "ucs list"
  it_outbound :: "ucs list"

record oresult =
  rs_success :: bool
  rs_cancelled :: bool
  rs_responses :: "oitem list option"
  rs_text :: ucs
  rs_intent :: "string option"
  rs_stage :: "perr + string option"

text \<open>\<open>oe_cancelled\<close>: whether the token is cancelled at the start, and before the agent. \<open>oe_stores\<close>: whether the
insert of a row succeeds.\<close>

record 's chat_env =
  oe_loc :: lenv
  oe_sha :: "string \<Rightarrow> string"
  oe_handlers :: "ghandler list"
  oe_group :: genv
  oe_user :: "string \<Rightarrow> perr + chat_user"
  oe_stores :: "oconv \<Rightarrow> bool"
  oe_redis :: "'s redis_api"
  oe_cfg :: redis_settings
  oe_cached :: "string \<Rightarrow> string option"
  oe_cancelled :: "bool \<times> bool"
  oe_agent :: "gwebhook \<Rightarrow> chat_user \<Rightarrow> ('s, oresult option) oio"

definition store_conv :: "'s chat_env \<Rightarrow> oconv \<Rightarrow> ('s, unit) oio" where
  "store_conv e row w =
     (if oe_stores e row then (Inr (), w\<lparr>ob_conv := ob_conv w @ [row]\<rparr>) else (Inl (Raised (OtherError ''APIError'')), w))"

section \<open>A text in bubbles\<close>

text \<open>\<open>response.split("\n\n")\<close>\<close>

fun split_paragraphs :: "ucs \<Rightarrow> ucs list" where
  "split_paragraphs [] = [[]]"
| "split_paragraphs (c # cs) =
     (case cs of d # ds \<Rightarrow>
        (if c = 10 \<and> d = 10 then [] # split_paragraphs ds
         else (case split_paragraphs cs of p # ps \<Rightarrow> (c # p) # ps | [] \<Rightarrow> [[c]]))
      | [] \<Rightarrow> [[c]])"

definition bubbles :: "ucs \<Rightarrow> ucs list" where
  "bubbles response = filter (\<lambda>b. b \<noteq> []) (map trim_boundary (split_paragraphs response))"

definition send_bubbles :: "retrier \<Rightarrow> pserver \<Rightarrow> (string \<Rightarrow> string option) \<Rightarrow> string \<Rightarrow> ucs \<Rightarrow> nat \<Rightarrow> unit pio" where
  "send_bubbles retry srv cached phone response max_length =
     (if contains_str [10, 10] response \<and> bubbles response \<noteq> []
      then io_bind (send_chunked_messages retry srv cached phone (bubbles response) True) (\<lambda>_. io_return ())
      else if length response \<le> max_length
      then io_bind (send_message retry srv phone response None None None False) (\<lambda>_. io_return ())
      else let chunks = chunk_message response (int max_length) (Some 2) in
        if chunks = [] then io_return ()
        else io_bind (send_chunked_messages retry srv cached phone chunks True) (\<lambda>_. io_return ()))"

definition trouble :: ucs where
  "trouble = utext ''Sorry, I had trouble sending that message. Please try again!''"

definition send_message_chunks :: "retrier \<Rightarrow> pserver \<Rightarrow> (string \<Rightarrow> string option) \<Rightarrow> string \<Rightarrow> ucs \<Rightarrow> unit pio" where
  "send_message_chunks retry srv cached phone response =
     io_catch (send_bubbles retry srv cached phone response 280) (\<lambda>_. \<lambda>w.
       (Inr (), snd (send_message retry srv phone trouble None None None False w)))"

section \<open>The answers of the agent\<close>

definition say :: "'s chat_env \<Rightarrow> string \<Rightarrow> ucs \<Rightarrow> ('s, unit) oio" where
  "say e phone text' = on_log (send_message_chunks (le_retry (oe_loc e)) (le_srv (oe_loc e)) (oe_cached e) phone text')"

definition is_url :: "ucs \<Rightarrow> bool" where
  "is_url t \<longleftrightarrow> starts_with (utext ''http://'') t \<or> starts_with (utext ''https://'') t"

text \<open>A URL is not split; \<open>rich\<close> asks for a preview.\<close>

definition deliver_text :: "'s chat_env \<Rightarrow> string \<Rightarrow> bool \<Rightarrow> ucs \<Rightarrow> ('s, unit) oio" where
  "deliver_text e phone rich t =
     (if is_url t
      then on_log (io_bind (send_message (le_retry (oe_loc e)) (le_srv (oe_loc e)) phone t None None None rich) (\<lambda>_. io_return ()))
      else say e phone t)"

definition bot_row :: "chat_user \<Rightarrow> ucs \<Rightarrow> dict \<Rightarrow> oconv" where
  "bot_row u t meta = \<lparr>cv_user = os_id u, cv_text = t, cv_bot = True, cv_meta = meta\<rparr>"

definition item_meta :: "oitem \<Rightarrow> dict" where
  "item_meta item = [(''intent'', json_opt_str (it_intent item)), (''task'', json_opt_str (it_task item))]"

definition send_text :: "'s chat_env \<Rightarrow> gwebhook \<Rightarrow> chat_user \<Rightarrow> nat \<Rightarrow> oitem \<Rightarrow> ('s, unit) oio" where
  "send_text e wh u idx item =
     (let t = trim_boundary (it_text item) in
      if t = [] then io_return ()
      else io_bind (deliver_text e (or_str (wh_from wh) '''') True t) (\<lambda>_.
           io_bind (store_conv e (bot_row u t (item_meta item @ [(''task_index'', JInt (int idx))]))) (\<lambda>_.
           spawn (ZepSync (os_id u) (or_str (wh_content wh) '''') t (os_name u)
                    (if truthy_str (it_intent item) then it_intent item else it_task item)))))"

definition send_urls :: "'s chat_env \<Rightarrow> gwebhook \<Rightarrow> chat_user \<Rightarrow> nat \<Rightarrow> oitem \<Rightarrow> ('s, unit) oio" where
  "send_urls e wh u idx item =
     (let urls_only = filter (\<lambda>t. t \<noteq> []) (it_urls item) in
      if urls_only = [] then io_return ()
      else let url_message = join_str [10] urls_only in
        io_bind (say e (or_str (wh_from wh) '''') url_message) (\<lambda>_.
        store_conv e (bot_row u url_message (item_meta item @ [(''message_part'', JStr ''urls''), (''task_index'', JInt (int idx))]))))"

text \<open>The guards of the further messages, 30 days long; \<open>legacy\<close> is asked for once per message.\<close>

definition claim :: "'s chat_env \<Rightarrow> string \<Rightarrow> ('s, bool) oio" where
  "claim e key = on_redis (check_idempotency (oe_redis e) (oe_cfg e) key (Some 2592000))"

definition may_send_extras :: "'s chat_env \<Rightarrow> string \<Rightarrow> nat \<Rightarrow> bool option \<Rightarrow> ('s, bool \<times> bool option) oio" where
  "may_send_extras e guid idx legacy =
     (if guid = [] then io_return (True, legacy)
      else io_bind (if legacy = None then io_bind (claim e (''outbound_messages:v1:'' @ guid)) (\<lambda>b. io_return (Some b)) else io_return legacy) (\<lambda>l.
           if l = Some False then io_return (False, l)
           else io_bind (claim e (''outbound_messages:v2:'' @ guid @ '':'' @ str_nat idx)) (\<lambda>b. io_return (b, l))))"

fun send_extras :: "'s chat_env \<Rightarrow> gwebhook \<Rightarrow> chat_user \<Rightarrow> nat \<Rightarrow> oitem \<Rightarrow> nat \<Rightarrow> ucs list \<Rightarrow> ('s, unit) oio" where
  "send_extras e wh u idx item i [] = io_return ()"
| "send_extras e wh u idx item i (t # ts) =
     (let msg = trim_boundary t in
      if msg = [] then send_extras e wh u idx item (i + 1) ts
      else io_bind (deliver_text e (or_str (wh_from wh) '''') False msg) (\<lambda>_.
           io_bind (store_conv e (bot_row u msg
             (item_meta item @ [(''message_part'', JStr (''outbound_'' @ str_nat i)), (''task_index'', JInt (int idx))]))) (\<lambda>_.
           send_extras e wh u idx item (i + 1) ts)))"

definition send_outbound :: "'s chat_env \<Rightarrow> gwebhook \<Rightarrow> chat_user \<Rightarrow> string \<Rightarrow> nat \<Rightarrow> oitem \<Rightarrow> bool option \<Rightarrow> ('s, bool option) oio" where
  "send_outbound e wh u guid idx item legacy =
     (if it_outbound item = [] then io_return legacy
      else io_bind (may_send_extras e guid idx legacy) (\<lambda>(ok, l).
           if ok then io_bind (send_extras e wh u idx item 0 (take 3 (it_outbound item))) (\<lambda>_. io_return l) else io_return l))"

fun send_items :: "'s chat_env \<Rightarrow> gwebhook \<Rightarrow> chat_user \<Rightarrow> string \<Rightarrow> nat \<Rightarrow> bool option \<Rightarrow> oitem list \<Rightarrow> ('s, unit) oio" where
  "send_items e wh u guid idx legacy [] = io_return ()"
| "send_items e wh u guid idx legacy (item # items) =
     io_bind (send_text e wh u idx item) (\<lambda>_.
     io_bind (send_urls e wh u idx item) (\<lambda>_.
     io_bind (send_outbound e wh u guid idx item legacy) (\<lambda>l.
     send_items e wh u guid (idx + 1) l items)))"

definition send_responses_list :: "'s chat_env \<Rightarrow> gwebhook \<Rightarrow> chat_user \<Rightarrow> oresult \<Rightarrow> oitem list \<Rightarrow> ('s, unit) oio" where
  "send_responses_list e wh u r items =
     io_bind (send_items e wh u (py_strip (or_str (wh_message wh) '''')) 0 None items) (\<lambda>_.
       case rs_stage r of Inl err \<Rightarrow> io_raise (Raised err)
       | Inr stage \<Rightarrow> spawn (React (or_str (wh_from wh) '''') (wh_chat wh) (wh_message wh) (or_str (wh_content wh) '''')
                         (it_intent (last items)) (it_task (last items)) stage))"

definition greeting :: ucs where
  "greeting = utext ''hey! what can i help you with?''"

definition difficulties :: ucs where
  "difficulties = utext ''Sorry, I'm having technical difficulties right now. Please try again in a moment!''"

definition respond :: "'s chat_env \<Rightarrow> gwebhook \<Rightarrow> chat_user \<Rightarrow> oresult option \<Rightarrow> ('s, unit) oio" where
  "respond e wh u result = (case result of
     None \<Rightarrow> io_return ()
   | Some r \<Rightarrow>
       let phone = or_str (wh_from wh) ''''; items = (case rs_responses r of None \<Rightarrow> [] | Some is \<Rightarrow> is) in
       if rs_cancelled r then io_return ()
       else if \<not> rs_success r then say e phone difficulties
       else if items \<noteq> [] then send_responses_list e wh u r items
       else if rs_text r \<noteq> []
       then io_bind (deliver_text e phone True (rs_text r)) (\<lambda>_.
            store_conv e (bot_row u (rs_text r) [(''intent'', json_opt_str (rs_intent r)), (''task'', json_opt_str (rs_intent r))]))
       else io_bind (say e phone greeting) (\<lambda>_.
            store_conv e (bot_row u greeting [(''intent'', json_opt_str (rs_intent r)), (''fallback'', JBool True)])))"

section \<open>A message\<close>

text \<open>The typing indicator is stopped in the \<open>finally\<close> of the agent's call.\<close>

definition run_agent :: "'s chat_env \<Rightarrow> gwebhook \<Rightarrow> chat_user \<Rightarrow> ('s, oresult option option) oio" where
  "run_agent e wh u w =
     (let (res, w1) = (if snd (oe_cancelled e) then (Inr None, w)
            else (case oe_agent e wh u w of (Inl err, w1) \<Rightarrow> (Inl err, w1) | (Inr r, w1) \<Rightarrow> (Inr (Some r), w1)));
          w2 = snd (on_log (stop_typing (le_srv (oe_loc e)) (oe_cached e) (or_str (wh_from wh) '''') (wh_chat wh)) w1)
      in (res, w2))"

definition handle_direct :: "'s chat_env \<Rightarrow> gwebhook \<Rightarrow> chat_user \<Rightarrow> ('s, unit) oio" where
  "handle_direct e wh u =
     io_bind (on_log (mark_chat_read (le_srv (oe_loc e)) (wh_chat wh))) (\<lambda>_.
     io_bind (on_log (start_typing (le_srv (oe_loc e)) (oe_cached e) (or_str (wh_from wh) '''') (wh_chat wh))) (\<lambda>_.
     io_bind (run_agent e wh u) (\<lambda>r.
     case r of None \<Rightarrow> io_return () | Some result \<Rightarrow> respond e wh u result)))"

definition route_to_group :: "'s chat_env \<Rightarrow> gwebhook \<Rightarrow> chat_user \<Rightarrow> ('s, unit) oio" where
  "route_to_group e wh u w =
     (Inr (), w\<lparr>ob_group := snd (handle_inbound (oe_sha e) (oe_handlers e) (oe_group e) wh (os_id u) (ob_group w))\<rparr>)"

definition luser_of :: "chat_user \<Rightarrow> luser" where
  "luser_of u = \<lparr>lu_id = os_id u, lu_name = os_name u, lu_phone = os_phone u, lu_email = os_email u\<rparr>"

definition inbound_row :: "gwebhook \<Rightarrow> chat_user \<Rightarrow> oconv" where
  "inbound_row wh u = \<lparr>cv_user = os_id u, cv_text = utext (or_str (wh_content wh) ''''), cv_bot = False,
     cv_meta = [(''message_id'', json_opt_str (wh_message wh)), (''chat_guid'', json_opt_str (wh_chat wh))]\<rparr>"

definition is_media_message :: "gwebhook \<Rightarrow> bool" where
  "is_media_message wh \<longleftrightarrow> truthy_str (wh_media wh) \<and> length (py_strip (or_str (wh_content wh) '''')) \<le> 1"

definition effective_stage :: "chat_user \<Rightarrow> string option" where
  "effective_stage u = (if truthy_str (os_facts_stage u) then os_facts_stage u else os_stage u)"

definition pending_link :: "'s chat_env \<Rightarrow> chat_user \<Rightarrow> 's chat_world \<Rightarrow> (string list \<times> floc list) option" where
  "pending_link e u w = (if le_up (oe_loc e) LCache then lw_pending (ob_loc w) (os_id u) else None)"

definition dispatch :: "'s chat_env \<Rightarrow> gwebhook \<Rightarrow> bool \<Rightarrow> chat_user \<Rightarrow> ('s, unit) oio" where
  "dispatch e wh share u w =
     (if share then on_loc (handle_location_share (oe_loc e) (luser_of u) (or_str (wh_from wh) '''') (wh_chat wh)) w
      else if is_media_message wh \<and> effective_stage u \<noteq> Some ''share_to_complete'' then (Inr (), w)
      else (case (pending_link e u w, truthy_str (wh_content wh)) of
          (Some p, True) \<Rightarrow> on_loc (handle_pending_location_link (oe_loc e) (luser_of u) (or_str (wh_from wh) '''') (wh_chat wh) (the (wh_content wh)) p) w
        | _ \<Rightarrow> if is_group_guid (or_str (wh_chat wh) '''') then route_to_group e wh u w else handle_direct e wh u w))"

definition wrong :: ucs where
  "wrong = utext ''Sorry, something went wrong. Please try again later!''"

definition message_body :: "'s chat_env \<Rightarrow> gwebhook \<Rightarrow> bool \<Rightarrow> ('s, unit) oio" where
  "message_body e wh share =
     (case oe_user e (or_str (wh_from wh) '''') of
        Inl err \<Rightarrow> io_raise (Raised err)
      | Inr u \<Rightarrow> (\<lambda>w. dispatch e wh share u (snd (store_conv e (inbound_row wh u) w))))"

definition handle_message :: "'s chat_env \<Rightarrow> gwebhook \<Rightarrow> bool \<Rightarrow> ('s, unit) oio" where
  "handle_message e wh share =
     (if fst (oe_cancelled e) then io_return ()
      else io_catch (message_body e wh share) (\<lambda>err. case err of
          Stopped s \<Rightarrow> io_raise (Stopped s)
        | Raised _ \<Rightarrow> (\<lambda>w. (Inr (), snd (say e (or_str (wh_from wh) '''') wrong w)))))"

section \<open>What calls keep\<close>

lemma maintains_return [maintains_rules]: "maintains P (io_return x)" by (simp add: maintains_def)

lemma maintains_raise [maintains_rules]: "maintains P (io_raise x)" by (simp add: maintains_def)

lemma maintains_io_of [maintains_rules]: "maintains P (io_of r)" by (simp add: maintains_def)

lemma maintains_ask: "(\<And>w c. P w \<Longrightarrow> P (w @ [(r, c)])) \<Longrightarrow> maintains P (ask srv r)"
  unfolding maintains_def using ask_log [of srv r] by (metis snd_conv)

context retry_decorator
begin

lemma maintains_retry: "maintains P f \<Longrightarrow> 0 < n \<Longrightarrow> maintains P (retry n f)"
proof (induction n)
  case (Suc n)
  show ?case
    unfolding maintains_def
  proof (intro allI impI)
    fix w assume "P w"
    with Suc.prems(1) have k: "P (snd (f w))" by (rule maintainsD)
    show "P (snd (retry (Suc n) f w))"
    proof (cases "f w")
      case (Pair res w')
      show ?thesis
      proof (cases res)
        case (Inr x)
        with Pair k success [of f w x w' "Suc n"] show ?thesis by simp
      next
        case (Inl err)
        show ?thesis
        proof (cases n)
          case 0
          with Pair Inl k stop [of f w err w'] show ?thesis by simp
        next
          case (Suc m)
          with Suc.IH [OF Suc.prems(1)] k Pair have "P (snd (retry n f w'))" by (simp add: maintains_def)
          with again [of f w err w' "Suc n"] Pair Inl Suc show ?thesis by simp
        qed
      qed
    qed
  qed
qed simp

lemma maintains_send:
  assumes "\<And>g w c. P w \<Longrightarrow> P (w @ [(PText g content (or_null effect) (or_null subject) rich, c)])"
  shows "maintains P (send_message retry srv to_number content chat effect subject rich)"
  unfolding send_message_def send_message_once_def
  by (rule maintains_retry) (auto intro!: maintains_return maintains_raise maintains_bind maintains_io_of maintains_ask assms)

end

lemma indicator_log: "\<exists>g c c'. snd (send_typing_indicator srv cached to_number chat w)
    \<in> {w, w @ [(PTyping g True, c), (PTyping g False, c')]}"
proof -
  let ?k = "if truthy_str chat then chat else cached to_number"
  let ?g = "if truthy_str ?k then ?k else build_chat_guid_from_number to_number"
  show ?thesis
  proof (cases "truthy_str ?g")
    case False
    then show ?thesis by (simp add: send_typing_indicator_def start_typing_def stop_typing_def typing_def Let_def io_bind_def)
  next
    case True
    obtain a c where 1: "ask srv (PTyping (the ?g) True) w = (Inr a, w @ [(PTyping (the ?g) True, c)])" using ask_log by blast
    obtain a' c' where 2: "ask srv (PTyping (the ?g) False) (w @ [(PTyping (the ?g) True, c)])
        = (Inr a', (w @ [(PTyping (the ?g) True, c)]) @ [(PTyping (the ?g) False, c')])" using ask_log by blast
    from True 1 2 have "snd (send_typing_indicator srv cached to_number chat w) = w @ [(PTyping (the ?g) True, c), (PTyping (the ?g) False, c')]"
      unfolding send_typing_indicator_def start_typing_def stop_typing_def typing_def Let_def by (simp add: io_bind_def)
    then show ?thesis by blast
  qed
qed

lemma maintains_indicator:
  assumes "\<And>w g c c'. P w \<Longrightarrow> P (w @ [(PTyping g True, c), (PTyping g False, c')])"
  shows "maintains P (send_typing_indicator srv cached to_number chat)"
  unfolding maintains_def
proof (intro allI impI)
  fix w assume "P w"
  with indicator_log [of srv cached to_number chat w] assms [of w] show "P (snd (send_typing_indicator srv cached to_number chat w))"
    by auto
qed

lemma chunks_snd: "snd (chunks_loop retry srv cached to_number guid show_typing i (t # ts) w)
    = snd (chunks_loop retry srv cached to_number guid show_typing (i + 1) ts (snd (send_message retry srv to_number t (Some guid) None None False
        (if show_typing then snd (send_typing_indicator srv cached to_number (Some guid) w) else w))))"
  by (simp add: Let_def split: prod.splits sum.splits)

context retry_decorator
begin

lemma maintains_chunks:
  assumes "\<And>w g c c'. P w \<Longrightarrow> P (w @ [(PTyping g True, c), (PTyping g False, c')])"
    and "\<And>t g w c. t \<in> set ts \<Longrightarrow> P w \<Longrightarrow> P (w @ [(PText g t None None False, c)])"
  shows "maintains P (send_chunked_messages retry srv cached to_number ts show_typing)"
proof -
  have "P (snd (chunks_loop retry srv cached to_number guid show_typing i ts w))" if "P w" for guid i w
    using assms(2) that
  proof (induction ts arbitrary: i w)
    case (Cons t ts)
    let ?w1 = "if show_typing then snd (send_typing_indicator srv cached to_number (Some guid) w) else w"
    have "P ?w1" using Cons.prems(2) maintainsD [OF maintains_indicator [of P, OF assms(1)]] by simp
    moreover have "maintains P (send_message retry srv to_number t (Some guid) None None False)"
      by (rule maintains_send) (simp add: or_null_def Cons.prems(1))
    ultimately have "P (snd (send_message retry srv to_number t (Some guid) None None False ?w1))" by (rule maintainsD [rotated])
    then have "P (snd (chunks_loop retry srv cached to_number guid show_typing (i + 1) ts (snd (send_message retry srv to_number t (Some guid) None None False ?w1))))"
      by (rule Cons.IH [rotated]) (simp add: Cons.prems(1))
    then show ?case unfolding chunks_snd .
  qed simp
  then show ?thesis
    unfolding send_chunked_messages_def maintains_def by (auto split: option.splits)
qed

lemma maintains_bubbles:
  assumes "\<And>w g c c'. P w \<Longrightarrow> P (w @ [(PTyping g True, c), (PTyping g False, c')])"
    and "\<And>t g w c. t \<in> (if contains_str [10, 10] response \<and> bubbles response \<noteq> [] then set (bubbles response)
           else if length response \<le> 280 then {response} else set (chunk_message response 280 (Some 2))) \<or> t = trouble
         \<Longrightarrow> P w \<Longrightarrow> P (w @ [(PText g t None None False, c)])"
  shows "maintains P (send_message_chunks retry srv cached phone response)"
proof -
  have t: "maintains P (\<lambda>w. (Inr (), snd (send_message retry srv phone trouble None None None False w)) :: (perr + unit) \<times> plog)"
    using maintainsD [OF maintains_send [of P trouble None None False srv phone None]] assms(2) unfolding maintains_def by (simp add: or_null_def)
  have "maintains P (send_bubbles retry srv cached phone response 280)"
  proof (cases "contains_str [10, 10] response \<and> bubbles response \<noteq> []")
    case True
    then show ?thesis using assms unfolding send_bubbles_def by (auto intro!: maintains_bind maintains_return maintains_chunks)
  next
    case False
    show ?thesis
    proof (cases "length response \<le> 280")
      case True
      with False assms(2) show ?thesis unfolding send_bubbles_def by (auto simp: or_null_def intro!: maintains_bind maintains_return maintains_send)
    next
      case False': False
      with False assms show ?thesis unfolding send_bubbles_def
        by (auto simp: Let_def intro!: maintains_bind maintains_return maintains_chunks)
    qed
  qed
  with t show ?thesis unfolding send_message_chunks_def by (intro maintains_catch)
qed

end

lemma maintains_on_loc: "maintains P m \<Longrightarrow> maintains (\<lambda>w. P (ob_loc w)) (on_loc m)"
  unfolding maintains_def on_loc_def by (auto split: prod.splits)

lemma maintains_on_log: "maintains P m \<Longrightarrow> maintains (\<lambda>w. P (lw_log (ob_loc w))) (on_log m)"
  unfolding on_log_def by (rule maintains_on_loc [where P = "\<lambda>l. P (lw_log l)"]) (auto simp: maintains_def split: prod.splits)

lemma frames [simp]:
  "ob_loc (snd (store_conv e row w)) = ob_loc w" "ob_loc (snd (spawn t w)) = ob_loc w" "ob_loc (snd (on_redis m w)) = ob_loc w"
  "ob_group (snd (store_conv e row w)) = ob_group w" "ob_group (snd (spawn t w)) = ob_group w"
  "ob_group (snd (on_loc l w)) = ob_group w" "ob_group (snd (on_log g w)) = ob_group w"
  "ob_redis (snd (store_conv e row w)) = ob_redis w" "ob_redis (snd (spawn t w)) = ob_redis w"
  "ob_redis (snd (on_loc l w)) = ob_redis w" "ob_redis (snd (on_log g w)) = ob_redis w"
  "ob_conv (snd (on_loc l w)) = ob_conv w" "ob_conv (snd (on_log g w)) = ob_conv w"
  by (simp_all add: store_conv_def spawn_def on_redis_def on_loc_def on_log_def split: prod.splits)

lemma maintains_frames [maintains_rules]:
  "maintains (\<lambda>w. P (ob_loc w)) (store_conv e row)" "maintains (\<lambda>w. P (ob_loc w)) (spawn t)"
  "maintains (\<lambda>w. P (ob_loc w)) (on_redis m)" "maintains (\<lambda>w. P (ob_loc w)) (claim e key)"
  by (simp_all add: maintains_def claim_def)

text \<open>A predicate on the log that texts, receipts and a started and stopped indicator keep is kept by all answers.\<close>

definition unharmed :: "(plog \<Rightarrow> bool) \<Rightarrow> bool" where
  "unharmed P \<longleftrightarrow> (\<forall>w g t x s r c. P w \<longrightarrow> P (w @ [(PText g t x s r, c)])) \<and> (\<forall>w g b c. P w \<longrightarrow> P (w @ [(PRead g b, c)]))
     \<and> (\<forall>w g c c'. P w \<longrightarrow> P (w @ [(PTyping g True, c), (PTyping g False, c')]))"

context retry_decorator
begin

lemma say_maintains:
  assumes "unharmed P" "retry = le_retry (oe_loc e)"
  shows "maintains (\<lambda>w. P (lw_log (ob_loc w))) (say e phone t)"
  unfolding say_def assms(2) [symmetric]
  by (rule maintains_on_log [OF maintains_bubbles]) (use assms(1) in \<open>simp_all add: unharmed_def\<close>)

lemma deliver_maintains:
  assumes "unharmed P" "retry = le_retry (oe_loc e)"
  shows "maintains (\<lambda>w. P (lw_log (ob_loc w))) (deliver_text e phone rich t)"
proof (cases "is_url t")
  case True
  show ?thesis unfolding deliver_text_def assms(2) [symmetric] using True assms(1)
    by (simp, intro maintains_on_log maintains_bind maintains_return maintains_send) (simp add: unharmed_def)
next
  case False
  with say_maintains [OF assms] show ?thesis unfolding deliver_text_def by simp
qed

lemma send_to_maintains:
  assumes "unharmed P" "retry = le_retry l"
  shows "maintains (\<lambda>w. P (lw_log w)) (send_to l phone t chat)"
proof -
  have "maintains P (send_message retry (le_srv l) phone t chat None None False)"
    by (rule maintains_send) (use assms(1) in \<open>simp add: unharmed_def\<close>)
  then show ?thesis unfolding send_to_def maintains_def assms(2) [symmetric] by (auto split: prod.splits)
qed

lemma items_maintain:
  assumes "unharmed P" "retry = le_retry (oe_loc e)"
  shows "maintains (\<lambda>w. P (lw_log (ob_loc w))) (send_items e wh u guid idx legacy items)"
proof -
  note rules = deliver_maintains [OF assms] say_maintains [OF assms] maintains_return maintains_bind
    maintains_frames [where P = "\<lambda>l. P (lw_log l)"]
  have t: "maintains (\<lambda>w. P (lw_log (ob_loc w))) (send_text e wh u i item)" for i item
    unfolding send_text_def Let_def by (auto intro!: rules)
  have s: "maintains (\<lambda>w. P (lw_log (ob_loc w))) (send_urls e wh u i item)" for i item
    unfolding send_urls_def Let_def by (auto intro!: rules)
  have x: "maintains (\<lambda>w. P (lw_log (ob_loc w))) (send_extras e wh u i item j ts)" for i item j ts
    by (induction ts arbitrary: j) (auto simp: Let_def intro!: rules)
  have m: "maintains (\<lambda>w. P (lw_log (ob_loc w))) (may_send_extras e guid i l)" for i l
    unfolding may_send_extras_def by (auto intro!: rules)
  have b: "maintains (\<lambda>w. P (lw_log (ob_loc w))) (send_outbound e wh u guid i item l)" for i item l
    unfolding send_outbound_def by (auto intro!: rules m x split: prod.splits)
  show ?thesis by (induction items arbitrary: idx legacy) (auto intro!: rules t s b)
qed

lemma respond_maintains:
  assumes "unharmed P" "retry = le_retry (oe_loc e)"
  shows "maintains (\<lambda>w. P (lw_log (ob_loc w))) (respond e wh u result)"
proof -
  note rules = deliver_maintains [OF assms] say_maintains [OF assms] items_maintain [OF assms] maintains_return maintains_raise maintains_bind
    maintains_frames [where P = "\<lambda>l. P (lw_log l)"]
  have l: "maintains (\<lambda>w. P (lw_log (ob_loc w))) (send_responses_list e wh u r items)" for r items
    unfolding send_responses_list_def by (auto intro!: rules split: sum.splits)
  show ?thesis unfolding respond_def Let_def by (auto intro!: rules l split: option.splits)
qed

end

lemma bind_establishes: "P (snd (m w)) \<Longrightarrow> (\<And>x. maintains P (g x)) \<Longrightarrow> P (snd (io_bind m g w))"
  by (auto simp: io_bind_def maintains_def split: prod.splits sum.splits)

lemma on_log_returns: "fst (m (lw_log (ob_loc w))) = Inr x \<Longrightarrow> on_log m w = (Inr x, snd (on_log m w))"
  by (cases "m (lw_log (ob_loc w))") (simp add: on_log_def on_loc_def)

lemma on_log_log: "lw_log (ob_loc (snd (on_log m w))) = snd (m (lw_log (ob_loc w)))"
  by (simp add: on_log_def on_loc_def split: prod.splits)

lemma marks_return: "fst (mark_chat read srv chat w) = Inr ()" "fst (typing start srv cached to_number chat w) = Inr ()"
  by (auto simp: mark_chat_def typing_def ask_def io_bind_def Let_def split: prod.splits)

lemma direct_unfold: "\<exists>w'. handle_direct e wh u w = io_bind (run_agent e wh u) (\<lambda>r. case r of None \<Rightarrow> io_return () | Some result \<Rightarrow> respond e wh u result) w'"
  unfolding handle_direct_def mark_chat_read_def start_typing_def
  by (subst io_bind_Inr [OF on_log_returns [OF marks_return(1)]], subst io_bind_Inr [OF on_log_returns [OF marks_return(2)]]) blast

lemma run_once_keeps_log: "lw_log (snd (location_run_once e w)) = lw_log w"
proof -
  have u: "lw_log (snd (update_user e v (n, w) u)) = lw_log w" for v n w u
    by (cases u) (simp add: update_user_def upsert_user_location_def split: option.splits prod.splits)
  have "lw_log (snd (foldl (update_user e v) (n, w) us)) = lw_log w" for v n us
    by (induction us rule: rev_induct) (simp_all, metis u prod.collapse)
  then show ?thesis by (simp add: location_run_once_def Let_def split: option.splits)
qed

lemma mark_maintains: "unharmed P \<Longrightarrow> maintains P (mark_chat read srv chat)"
  unfolding mark_chat_def by (auto simp: unharmed_def intro!: maintains_return maintains_bind maintains_ask)

lemma log_frames:
  "maintains (\<lambda>w. P (lw_log w)) (link_and_store le uid l)"
  by (simp add: maintains_def link_and_store_def Let_def upsert_user_location_def split: option.splits list.splits)

lemma forget_log: "lw_log (forget_pending le uid w) = lw_log w"
  by (simp add: forget_pending_def)

context retry_decorator
begin

lemma location_maintains:
  assumes "unharmed P" "retry = le_retry l"
  shows "maintains (\<lambda>w. P (lw_log w)) (handle_location_share l u phone chat)"
    and "maintains (\<lambda>w. P (lw_log w)) (handle_pending_location_link l u phone chat content p)"
proof -
  let ?M = "maintains (\<lambda>w. P (lw_log w))"
  note send = send_to_maintains [OF assms]
  have answer: "?M (link_and_answer l u phone chat i)" for i
    unfolding link_and_answer_def
    by (intro maintains_bind log_frames) (auto simp: maintains_def split: sum.splits intro: maintainsD [OF send])
  have which: "?M (ask_which l u phone chat cs)" for cs
    unfolding ask_which_def maintains_def by (auto simp: Let_def intro!: maintainsD [OF send])
  have "?M (match_share l u phone chat)"
    unfolding match_share_def maintains_def
    by (auto split: option.splits list.splits intro!: maintainsD [OF send] maintainsD [OF answer] maintainsD [OF which])
  then have "?M (share_body l u phone chat)"
    unfolding share_body_def maintains_def using maintainsD [OF send]
    by (auto simp: Let_def run_once_keeps_log split: option.splits sum.splits)
  moreover have "?M (\<lambda>w. (Inr (), snd (send_to l phone t chat w)) :: (perr + unit) \<times> lworld)" for t
    using send unfolding maintains_def by simp
  ultimately have "?M (io_catch (share_body l u phone chat) (\<lambda>_. \<lambda>w. (Inr (), snd (send_to l phone t chat w)) :: (perr + unit) \<times> lworld))" for t
    by (rule maintains_catch)
  moreover have "P (snd (mark_chat_read (le_srv l) chat v))" if "P v" for v
    using maintainsD [OF mark_maintains [OF assms(1)] that] unfolding mark_chat_read_def .
  ultimately show "?M (handle_location_share l u phone chat)"
    unfolding handle_location_share_def maintains_def by (simp add: Let_def)
  have f: "?M (\<lambda>w. send_to l phone t chat (forget_pending l uid w))" for t uid
    using send forget_log unfolding maintains_def by simp
  show "?M (handle_pending_location_link l u phone chat content p)"
    unfolding handle_pending_location_link_def pending_body_def
    by (auto intro!: maintains_catch maintains_bind log_frames f send split: option.splits)
qed

lemma dispatch_maintains:
  assumes "unharmed P" "retry = le_retry (oe_loc e)" "\<And>u. maintains (\<lambda>w. P (lw_log (ob_loc w))) (handle_direct e wh u)"
  shows "maintains (\<lambda>w. P (lw_log (ob_loc w))) (dispatch e wh share u)"
proof -
  note loc = maintains_on_loc [where P = "\<lambda>l. P (lw_log l)", OF location_maintains(1) [OF assms(1,2)]]
    maintains_on_loc [where P = "\<lambda>l. P (lw_log l)", OF location_maintains(2) [OF assms(1,2)]]
  have route: "P (lw_log (ob_loc w)) \<Longrightarrow> P (lw_log (ob_loc (snd (route_to_group e wh u w))))" for w
    by (simp add: route_to_group_def)
  show ?thesis
    unfolding dispatch_def maintains_def
    by (auto split: option.splits bool.splits
        intro: route maintainsD [OF loc(1)] maintainsD [OF loc(2)] maintainsD [OF assms(3)])
qed

end

section \<open>The typing indicator\<close>

text \<open>Whether a chat shows the indicator after a log\<close>

definition typing_now :: "string \<Rightarrow> plog \<Rightarrow> bool" where
  "typing_now g w = foldl (\<lambda>b (r, _). case r of PTyping g' start \<Rightarrow> if g' = g then start else b | _ \<Rightarrow> b) False w"

lemma typing_now_snoc: "typing_now g (w @ [(r, c)]) = (case r of PTyping g' start \<Rightarrow> if g' = g then start else typing_now g w | _ \<Rightarrow> typing_now g w)"
  by (simp add: typing_now_def split: prequest.splits)

lemma typing_unharmed: "unharmed (\<lambda>w. \<not> typing_now g w)"
proof -
  have "typing_now g (w @ [(r, c), (r', c')]) = typing_now g ((w @ [(r, c)]) @ [(r', c')])" for w r c r' c' by simp
  then show ?thesis unfolding unharmed_def by (simp add: typing_now_snoc del: append_assoc)
qed

lemma stop_stops:
  assumes "wh_chat wh = Some g" "g \<noteq> []"
  shows "\<not> typing_now g (lw_log (ob_loc (snd (run_agent e wh u w))))"
proof -
  have "\<not> typing_now g (snd (stop_typing srv cached to_number (Some g) v))" for srv cached to_number v
    using assms(2) ask_log [of srv "PTyping g False" v] by (auto simp: stop_typing_def typing_def io_bind_def typing_now_snoc)
  then show ?thesis by (simp add: run_agent_def Let_def assms(1) on_log_log split: prod.splits)
qed


section \<open>Errors\<close>

lemma or_str_none [simp]: "or_str None x = x" by (simp add: or_str_def)

context retry_decorator
begin

lemma say_texts:
  assumes "phone \<noteq> []" "checked_address ''Invalid phone number: '' ''Failed to normalize phone number'' phone = Inr n"
    and "t \<noteq> []" "length t \<le> 280" "\<not> contains_str [10, 10] t"
  shows "\<exists>k j. 0 < k \<and> k \<le> 3 \<and> j \<le> 3 \<and> texts (snd (send_message_chunks retry srv cached phone t w))
      = texts w @ replicate k (''iMessage;-;'' @ n, t) @ replicate j (''iMessage;-;'' @ n, trouble)"
proof -
  let ?once = "send_message retry srv phone t None None None False"
  have sent: "\<exists>k. 0 < k \<and> k \<le> 3 \<and> texts (snd (send_message retry srv phone c None None None False v)) = texts v @ replicate k (''iMessage;-;'' @ n, c)"
    if "c \<noteq> []" for c v
    using send_log [OF assms(1) that assms(2), of srv None None None False v] by (auto simp: or_null_def)
  obtain res w1 where r: "?once w = (res, w1)" by fastforce
  obtain k where k: "0 < k" "k \<le> 3" "texts w1 = texts w @ replicate k (''iMessage;-;'' @ n, t)" using sent [OF assms(3), of w] r by auto
  obtain j where j: "j \<le> 3" "texts (snd (send_message retry srv phone trouble None None None False w1)) = texts w1 @ replicate j (''iMessage;-;'' @ n, trouble)"
    using sent [of trouble w1] by (auto simp: trouble_def utext_def)
  have b: "send_bubbles retry srv cached phone t 280 w = io_bind ?once (\<lambda>_. io_return ()) w"
    unfolding send_bubbles_def using assms(4,5) by simp
  show ?thesis
  proof (cases res)
    case (Inl err)
    with r b j k show ?thesis
      by (intro exI [of _ k] exI [of _ j]) (simp add: send_message_chunks_def io_catch_def io_bind_def)
  next
    case (Inr x)
    with r b k show ?thesis
      by (intro exI [of _ k] exI [of _ 0]) (simp add: send_message_chunks_def io_catch_def io_bind_def)
  qed
qed

end

lemma wrong_short: "wrong \<noteq> []" "length wrong \<le> 280" "\<not> contains_str [10, 10] wrong"
  by code_simp+

text \<open>An error is answered in private. If handling a message raises, the sender gets the apology in the direct
chat, also when the message came from a group chat (to which the bot is never to answer by a direct
message), and also when the answer itself had been sent and only storing it failed.\<close>

theorem error_is_answered_directly:
  assumes "retry_decorator (le_retry (oe_loc e))" "wh_from wh = Some phone" "phone \<noteq> []"
    and "checked_address ''Invalid phone number: '' ''Failed to normalize phone number'' phone = Inr n"
    and "\<not> fst (oe_cancelled e)" "message_body e wh share w = (Inl (Raised err), w')"
  shows "\<exists>k j. 0 < k \<and> k \<le> 3 \<and> j \<le> 3 \<and> texts (lw_log (ob_loc (snd (handle_message e wh share w))))
      = texts (lw_log (ob_loc w')) @ replicate k (''iMessage;-;'' @ n, wrong) @ replicate j (''iMessage;-;'' @ n, trouble)"
proof -
  have "snd (handle_message e wh share w) = snd (say e phone wrong w')"
    using assms(2,3,5,6) by (simp add: handle_message_def io_catch_def or_str_def)
  then show ?thesis
    unfolding say_def on_log_log by (simp only: on_log_log) (rule retry_decorator.say_texts [OF assms(1,3,4) wrong_short])
qed

section \<open>Groups\<close>

text \<open>A message of a group chat goes to the router and nowhere else: it is stored, the router handles it, and
no direct message is sent, whatever the router does. (Here nothing private is going on: the message is
no shared location, no picture, and no question to its sender waits.)\<close>

theorem group_messages_go_to_the_router:
  assumes "oe_user e (or_str (wh_from wh) '''') = Inr u" "\<not> fst (oe_cancelled e)" "is_group_guid (or_str (wh_chat wh) '''')"
    and "\<not> is_media_message wh" "pending_link e u w = None"
  shows "handle_message e wh False w = (Inr (), (snd (store_conv e (inbound_row wh u) w))\<lparr>ob_group :=
      snd (handle_inbound (oe_sha e) (oe_handlers e) (oe_group e) wh (os_id u) (ob_group w))\<rparr>)"
proof -
  have "pending_link e u (snd (store_conv e (inbound_row wh u) w)) = None" using assms(5) by (simp add: pending_link_def split: if_splits)
  with assms show ?thesis
    by (simp add: handle_message_def message_body_def io_catch_def dispatch_def route_to_group_def)
qed

text \<open>What is private swallows what is said in a group. If a question about the sender's location waits, or the
message is a picture without text, the router never sees the message: nothing of the group chat
changes, although its transcript and its follow-ups live on every message.\<close>

theorem private_states_swallow_group_messages:
  assumes "oe_user e (or_str (wh_from wh) '''') = Inr u"
    and "is_media_message wh \<and> effective_stage u \<noteq> Some ''share_to_complete'' \<or> pending_link e u w \<noteq> None \<and> truthy_str (wh_content wh)"
  shows "ob_group (snd (handle_message e wh False w)) = ob_group w"
proof -
  have p: "pending_link e u (snd (store_conv e (inbound_row wh u) w)) = pending_link e u w" by (simp add: pending_link_def)
  have "ob_group (snd (dispatch e wh False u (snd (store_conv e (inbound_row wh u) w)))) = ob_group w"
    using assms(2) by (auto simp: dispatch_def p)
  moreover have "ob_group (snd (say e phone t v)) = ob_group v" for phone t v by (simp add: say_def)
  ultimately show ?thesis
    using assms(1) by (auto simp: handle_message_def message_body_def io_catch_def split: prod.splits sum.splits oerr.splits)
qed

section \<open>What is sent again\<close>

lemma bind_cong_run: "(\<And>x w'. m w = (Inr x, w') \<Longrightarrow> f x w' = g x w') \<Longrightarrow> io_bind m f w = io_bind m g w"
  by (simp add: io_bind_def split: prod.splits sum.splits)

lemma redis_frames:
  "maintains (\<lambda>w. ob_redis w = s) (say e phone t)" "maintains (\<lambda>w. ob_redis w = s) (deliver_text e phone rich t)"
  "maintains (\<lambda>w. ob_redis w = s) (store_conv e row)" "maintains (\<lambda>w. ob_redis w = s) (spawn task)"
  by (simp_all add: maintains_def say_def deliver_text_def)

lemma main_redis:
  "maintains (\<lambda>w. ob_redis w = s) (send_text e wh u i item)" "maintains (\<lambda>w. ob_redis w = s) (send_urls e wh u i item)"
  unfolding send_text_def send_urls_def Let_def by (auto intro!: maintains_bind maintains_return redis_frames)

definition no_extras :: "oitem \<Rightarrow> oitem" where
  "no_extras item = item\<lparr>it_outbound := []\<rparr>"

lemma no_extras_main:
  "send_text e wh u i (no_extras item) = send_text e wh u i item" "send_urls e wh u i (no_extras item) = send_urls e wh u i item"
  "send_outbound e wh u guid i (no_extras item) l = io_return l"
  "it_intent (no_extras item) = it_intent item" "it_task (no_extras item) = it_task item"
  by (simp_all add: send_text_def send_urls_def send_outbound_def no_extras_def item_meta_def Let_def)

lemma used_claim:
  assumes "rd_set_nx (oe_redis e) (''outbound_messages:v1:'' @ guid) (RText ''processed'') 2592000 s = (Inr False, s)"
    and "ob_redis w = s" "guid \<noteq> []" "l = None \<or> l = Some False"
  shows "send_outbound e wh u guid i item l w = (Inr (if it_outbound item = [] then l else Some False), w)"
proof -
  have "claim e (''outbound_messages:v1:'' @ guid) w = (Inr False, w)"
    using assms(1,2) by (simp add: claim_def on_redis_def check_idempotency_def io_catch_def or_int_def)
  with assms(3,4) show ?thesis
    by (auto simp: send_outbound_def may_send_extras_def io_bind_def)
qed

lemma items_again:
  assumes "rd_set_nx (oe_redis e) (''outbound_messages:v1:'' @ guid) (RText ''processed'') 2592000 s = (Inr False, s)" "guid \<noteq> []"
  shows "ob_redis w = s \<Longrightarrow> l = None \<or> l = Some False
    \<Longrightarrow> send_items e wh u guid i l items w = send_items e wh u guid i l' (map no_extras items) w"
proof (induction items arbitrary: i l l' w)
  case (Cons item items)
  have rest: "io_bind (send_outbound e wh u guid i item l) (\<lambda>l. send_items e wh u guid (i + 1) l items) w2
      = io_bind (send_outbound e wh u guid i (no_extras item) l') (\<lambda>l. send_items e wh u guid (i + 1) l (map no_extras items)) w2"
    if r: "ob_redis w2 = s" for w2
  proof -
    have "send_outbound e wh u guid i item l w2 = (Inr (if it_outbound item = [] then l else Some False), w2)"
      by (rule used_claim [OF assms(1) r assms(2) Cons.prems(2)])
    with Cons.IH [OF r, of _ "i + 1" l'] Cons.prems(2) show ?thesis by (simp add: no_extras_main io_bind_def)
  qed
  show ?case
    unfolding send_items.simps list.map no_extras_main(1,2)
  proof (intro bind_cong_run)
    fix x w1 y w2
    assume "send_text e wh u i item w = (Inr x, w1)" "send_urls e wh u i item w1 = (Inr y, w2)"
    then have "ob_redis w2 = s"
      using Cons.prems(1) maintainsD [OF main_redis(1), of w s e wh u i item] maintainsD [OF main_redis(2), of w1 s e wh u i item] by simp
    then show "io_bind (send_outbound e wh u guid i item l) (\<lambda>l. send_items e wh u guid (i + 1) l items) w2
      = io_bind (send_outbound e wh u guid i (no_extras item) l') (\<lambda>l. send_items e wh u guid (i + 1) l (map no_extras items)) w2" by (rule rest)
  qed
qed simp

text \<open>When a message is delivered again, its answers are sent again, its further messages are not: once the
guard of the message has been used and Redis says so, answering acts exactly as if no response had
further messages; texts and links are sent and stored a second time.\<close>

theorem redelivery_repeats_answers_only:
  assumes "rd_set_nx (oe_redis e) (''outbound_messages:v1:'' @ py_strip (or_str (wh_message wh) '''')) (RText ''processed'') 2592000 (ob_redis w) = (Inr False, ob_redis w)"
    and "py_strip (or_str (wh_message wh) '''') \<noteq> []" "items \<noteq> []"
  shows "send_responses_list e wh u r items w = send_responses_list e wh u r (map no_extras items) w"
proof -
  have l: "it_intent (last (map no_extras items)) = it_intent (last items)" "it_task (last (map no_extras items)) = it_task (last items)"
    using assms(3) by (simp_all add: last_map no_extras_main)
  then show ?thesis
    unfolding send_responses_list_def io_bind_def l using items_again [OF assms(1,2) refl, where l = None and l' = None] by simp
qed

section \<open>The length of a bubble\<close>

text \<open>A reply without a blank line arrives in bubbles of at most 280 characters, whatever its length, the
recipient and the failures in between. (A reply with blank lines is sent paragraph by paragraph instead,
at any length.)\<close>

theorem reply_bubbles_are_short:
  assumes "retry_decorator retry" "\<not> contains_str [10, 10] response"
    and "(chat, t) \<in> set (texts (snd (send_message_chunks retry srv cached phone response w)))"
  shows "(chat, t) \<in> set (texts w) \<or> length t \<le> 280"
proof -
  let ?P = "\<lambda>v. \<forall>x \<in> set (texts v). x \<in> set (texts w) \<or> length (snd x) \<le> 280"
  have ty: "texts [(PTyping g b, c), (PTyping g b', c')] = []" for g b c b' c' by (simp add: texts_def List.map_filter_def)
  have te: "texts [(PText g x s e r, c)] = [(g, x)]" for g x s e r c by (simp add: texts_def List.map_filter_def)
  have len: "length c \<le> 280" if "c \<in> set (chunk_message response 280 (Some 2))" for c
    using chunk_fits [OF _ that] by simp
  have tr: "length trouble \<le> 280" by code_simp
  have "maintains ?P (send_message_chunks retry srv cached phone response)"
    by (rule retry_decorator.maintains_bubbles [OF assms(1)]) (use assms(2) len tr in \<open>auto simp: ty te split: if_splits\<close>)
  then have "?P (snd (send_message_chunks retry srv cached phone response w))" by (rule maintainsD) simp
  with assms(3) show ?thesis by fastforce
qed

section \<open>Examples\<close>

definition example_ouser :: chat_user where
  "example_ouser = \<lparr>os_id = ''u1'', os_name = None, os_phone = Some ''+15550001111'', os_email = None, os_stage = None, os_facts_stage = None\<rparr>"

text \<open>An environment where Redis holds the guard of the message m1, and where the agent is cancelled; the
parameter says whether the users can be read.\<close>

definition example_used :: mem_server where
  "example_used = empty_server\<lparr>ms_data := [''outbound_messages:v1:m1'' \<mapsto> (RText ''processed'', 100)]\<rparr>"

definition example_chat_env :: "bool \<Rightarrow> mem_server chat_env" where
  "example_chat_env up = \<lparr>oe_loc = example_env, oe_sha = id, oe_handlers = [], oe_group = example_genv,
     oe_user = (\<lambda>_. if up then Inr example_ouser else Inl (OtherError ''APIError'')), oe_stores = (\<lambda>_. True), oe_redis = mem_redis,
     oe_cfg = default_redis_settings, oe_cached = (\<lambda>_. None), oe_cancelled = (False, False), oe_agent = (\<lambda>_ _ w. (Inl (Stopped ''CancelledError''), w))\<rparr>"

definition example_chat_world :: "mem_server chat_world" where
  "example_chat_world = \<lparr>ob_loc = example_lworld, ob_group = example_gworld, ob_conv = [], ob_redis = example_used, ob_tasks = []\<rparr>"

definition example_direct :: gwebhook where
  "example_direct = \<lparr>wh_chat = Some ''iMessage;-;+16463707933'', wh_message = Some ''m1'', wh_time = None, wh_from = Some ''+16463707933'',
     wh_content = Some ''hello'', wh_media = None\<rparr>"

definition example_in_group :: gwebhook where
  "example_in_group = example_direct\<lparr>wh_chat := Some ''chat1''\<rparr>"

lemma example_chat_retry: "retry_decorator (le_retry (oe_loc (example_chat_env up)))"
  by (simp add: example_chat_env_def example_env_def attempts.retry_decorator_axioms)

lemma example_logs: "lw_log (ob_loc example_chat_world) = []" "lw_pending (ob_loc example_chat_world) = Map.empty"
  by (simp_all add: example_chat_world_def example_lworld_def)


lemma error_is_answered_directly_witness:
  "\<exists>k j. 0 < k \<and> texts (lw_log (ob_loc (snd (handle_message (example_chat_env False) example_in_group False example_chat_world))))
      = replicate k (''iMessage;-;+16463707933'', wrong) @ replicate j (''iMessage;-;+16463707933'', trouble)"
proof -
  have c: "checked_address ''Invalid phone number: '' ''Failed to normalize phone number'' ''+16463707933'' = Inr ''+16463707933''" by code_simp
  have m: "message_body (example_chat_env False) example_in_group False example_chat_world = (Inl (Raised (OtherError ''APIError'')), example_chat_world)"
    by (simp add: message_body_def example_chat_env_def)
  from error_is_answered_directly [OF example_chat_retry _ _ c _ m] obtain k j where "0 < k"
    "texts (lw_log (ob_loc (snd (handle_message (example_chat_env False) example_in_group False example_chat_world))))
      = replicate k (''iMessage;-;+16463707933'', wrong) @ replicate j (''iMessage;-;+16463707933'', trouble)"
    by (auto simp: example_logs example_in_group_def example_direct_def example_chat_env_def)
  then show ?thesis by blast
qed

lemma group_messages_go_to_the_router_witness:
  "ob_group (snd (handle_message (example_chat_env True) example_in_group False example_chat_world))
    = snd (handle_inbound id [] example_genv example_in_group ''u1'' example_gworld)"
proof -
  have "is_group_guid (or_str (wh_chat example_in_group) '''')" "\<not> is_media_message example_in_group"
    unfolding example_in_group_def example_direct_def by code_simp+
  moreover have "oe_user (example_chat_env True) (or_str (wh_from example_in_group) '''') = Inr example_ouser" "\<not> fst (oe_cancelled (example_chat_env True))"
    by (simp_all add: example_chat_env_def)
  moreover have "pending_link (example_chat_env True) example_ouser example_chat_world = None" by (simp add: pending_link_def example_logs)
  ultimately show ?thesis
    using group_messages_go_to_the_router [of "example_chat_env True" example_in_group example_ouser example_chat_world]
    by (simp add: example_chat_env_def example_ouser_def example_chat_world_def)
qed

lemma private_states_swallow_group_messages_witness:
  "ob_group (snd (handle_message (example_chat_env True) (example_in_group\<lparr>wh_content := None, wh_media := Some ''https://x/y.jpg''\<rparr>) False example_chat_world))
    = example_gworld"
proof -
  let ?wh = "example_in_group\<lparr>wh_content := None, wh_media := Some ''https://x/y.jpg''\<rparr>"
  have "is_media_message ?wh" unfolding example_in_group_def example_direct_def by code_simp
  moreover have "effective_stage example_ouser \<noteq> Some ''share_to_complete''" by (simp add: effective_stage_def example_ouser_def)
  moreover have "oe_user (example_chat_env True) (or_str (wh_from ?wh) '''') = Inr example_ouser" by (simp add: example_chat_env_def)
  ultimately have "ob_group (snd (handle_message (example_chat_env True) ?wh False example_chat_world)) = ob_group example_chat_world"
    by (intro private_states_swallow_group_messages) simp_all
  then show ?thesis by (simp add: example_chat_world_def)
qed

definition example_oitem :: oitem where
  "example_oitem = \<lparr>it_text = [104], it_intent = None, it_task = None, it_urls = [], it_outbound = [[105]]\<rparr>"

definition example_oresult :: oresult where
  "example_oresult = \<lparr>rs_success = True, rs_cancelled = False, rs_responses = Some [example_oitem], rs_text = [], rs_intent = None, rs_stage = Inr None\<rparr>"

lemma redelivery_repeats_answers_only_witness:
  "send_responses_list (example_chat_env True) example_direct example_ouser example_oresult [example_oitem] example_chat_world
    = send_responses_list (example_chat_env True) example_direct example_ouser example_oresult [no_extras example_oitem] example_chat_world"
proof -
  have g: "py_strip (or_str (wh_message example_direct) '''') = ''m1''" unfolding example_direct_def by code_simp
  have "rd_set_nx mem_redis ''outbound_messages:v1:m1'' (RText ''processed'') 2592000 example_used = (Inr False, example_used)"
    by (simp add: example_used_def mem_redis_eval)
  then show ?thesis
    using redelivery_repeats_answers_only [of "example_chat_env True" example_direct example_chat_world "[example_oitem]"]
    by (simp add: g) (simp add: example_chat_env_def example_chat_world_def)
qed

lemma reply_bubbles_are_short_witness:
  "list_all (\<lambda>x. length (snd x) \<le> 280) (texts (snd (send_message_chunks retry_attempts example_server (\<lambda>_. None) ''+16463707933'' (replicate 1000 104) [])))"
proof -
  have n: "\<not> contains_str [10, 10] (replicate k (104 :: nat))" for k by (induction k) simp_all
  have "length t \<le> 280" if "(c, t) \<in> set (texts (snd (send_message_chunks retry_attempts example_server (\<lambda>_. None) ''+16463707933'' (replicate 1000 104) [])))" for c t
    using reply_bubbles_are_short [OF attempts.retry_decorator_axioms n that] by simp
  then show ?thesis by (auto simp: list_all_iff)
qed

end
