(* ===== verification/Expansion_Tools.thy ===== *)
theory Expansion_Tools
  imports Matching_Tools
begin

text \<open>
  The networking tools of group chats, app/agents/tools/groupchat_networking.py, which add people to a
  chat that exists. Many of them are copies of the tools of networking.py and are defined as such; the
  others are the context of a chat, the demand that is derived from it, the search for a match, the
  invitation with its fallback text, and the joining.
\<close>

section \<open>Services and the context of a chat\<close>

record group_member =
  gm_user :: string
  gm_name :: string
  gm_value :: "string option"
  gm_demand :: "string option"
  gm_latest :: "string option"

record group_context =
  gc_guid :: string
  gc_ids :: "string list"
  gc_members :: "group_member list"
  gc_summary :: string
  gc_messages :: "dict list"
  gc_invited :: "string list"
  gc_excluded :: "string list"

text \<open>What the prompt of an invitation is made of\<close>

record invitation_prompt =
  ip_target :: string
  ip_initiator :: string
  ip_label :: string
  ip_people :: string
  ip_purpose :: string
  ip_reasons :: string

record 'db chat_services =
  xs_row :: "string \<Rightarrow> ('db, conn_error, dict option) io" \<comment> \<open>the row of a user\<close>
  xs_segments :: "string \<Rightarrow> ('db, conn_error, string option list) io" \<comment> \<open>the texts of the last six summaries, newest first\<close>
  xs_messages :: "string \<Rightarrow> ('db, conn_error, dict list) io" \<comment> \<open>the last twenty messages\<close>
  xs_chat_name :: "string \<Rightarrow> ('db, conn_error, string option) io"
  xs_derived :: "group_context \<Rightarrow> ('db, conn_error, dict) io" \<comment> \<open>the parsed answer of the language model\<close>
  xs_invite :: "invitation_prompt \<Rightarrow> string option" \<comment> \<open>None when the call of the language model fails\<close>
  xs_match :: "string \<Rightarrow> string list \<Rightarrow> string option \<Rightarrow> string option \<Rightarrow> ('db, conn_error, found) io"

definition chat_participant_ids :: "'db services \<Rightarrow> string \<Rightarrow> ('db mgr, conn_error, string list) io" where
  "chat_participant_ids S guid =
     io_catch (io_bind (on_db (sv_members S guid)) (\<lambda>ids. io_return (filter (\<lambda>i. i \<noteq> []) ids))) (\<lambda>_. io_return [])"

text \<open>\<open>list(dict.fromkeys(xs))\<close> keeps the first of equal elements.\<close>

definition from_keys :: "'a list \<Rightarrow> 'a list" where
  "from_keys xs = rev (remdups (rev xs))"

definition chat_invited_ids :: "'db services \<Rightarrow> string \<Rightarrow> ('db mgr, conn_error, string list) io" where
  "chat_invited_ids S guid =
     io_catch (io_bind (on_db (tb_select (sv_reqs S) (\<lambda>r. cr_group_chat_guid r = Some guid \<and> active_status (cr_status r))))
       (\<lambda>rs. io_return (from_keys (filter (\<lambda>u. u \<noteq> []) (map cr_target rs))))) (\<lambda>_. io_return [])"

definition member_of_row :: "dict \<Rightarrow> group_member" where
  "member_of_row d = \<lparr>gm_user = or_str (get_str d ''id'') [], gm_name = or_str (get_str d ''name'') [],
     gm_value = get_str d ''all_value'', gm_demand = get_str d ''all_demand'', gm_latest = get_str d ''latest_demand''\<rparr>"

text \<open>A lookup that raises, or finds nobody, is left out.\<close>

fun fetch_members :: "'db chat_services \<Rightarrow> string list \<Rightarrow> ('db mgr, conn_error, group_member list) io" where
  "fetch_members X [] = io_return []"
| "fetch_members X (uid # uids) =
     io_bind (io_catch (on_db (xs_row X uid)) (\<lambda>_. io_return None)) (\<lambda>row.
     io_bind (fetch_members X uids) (\<lambda>rest. io_return (case row of None \<Rightarrow> rest | Some d \<Rightarrow> member_of_row d # rest)))"

definition summary_of_segments :: "string option list \<Rightarrow> string" where
  "summary_of_segments segments =
     join_str [CHR 0x0A] (filter (\<lambda>t. t \<noteq> []) (map (\<lambda>s. py_strip (or_str s [])) (rev segments)))"

definition first_of :: "dict \<Rightarrow> string \<Rightarrow> string \<Rightarrow> json" where
  "first_of d a b = (if json_truthy (map_of d a) then the (map_of d a) else get_or d b JNull)"

definition shown_message :: "dict \<Rightarrow> dict" where
  "shown_message row = [(''sender_name'', first_of row ''sender_name'' ''sender_handle''), (''content'', get_or row ''content'' JNull),
     (''sent_at'', first_of row ''sent_at'' ''created_at'')]"

definition build_group_chat_context :: "'db services \<Rightarrow> 'db chat_services \<Rightarrow> string \<Rightarrow> ('db mgr, conn_error, group_context) io" where
  "build_group_chat_context S X guid =
     io_bind (chat_participant_ids S guid) (\<lambda>ids.
     io_bind (chat_invited_ids S guid) (\<lambda>invited.
     io_bind (fetch_members X ids) (\<lambda>members.
     io_bind (io_catch (io_bind (on_db (xs_segments X guid)) (\<lambda>xs. io_return (summary_of_segments xs))) (\<lambda>_. io_return [])) (\<lambda>summary.
     io_bind (io_catch (io_bind (on_db (xs_messages X guid)) (\<lambda>rows. io_return (map shown_message rows))) (\<lambda>_. io_return [])) (\<lambda>messages.
       io_return \<lparr>gc_guid = guid, gc_ids = ids, gc_members = members, gc_summary = summary, gc_messages = messages,
         gc_invited = invited, gc_excluded = from_keys (ids @ invited)\<rparr>)))))"

definition get_group_chat_context_for_networking :: "'db services \<Rightarrow> 'db chat_services \<Rightarrow> string \<Rightarrow> ('db, group_context) tool" where
  "get_group_chat_context_for_networking S X guid =
     (if guid = [] then io_raise ''chat_guid is required''
      else tool_try S [] (io_bind (build_group_chat_context S X guid) answer))"

definition derive_group_chat_demand :: "'db services \<Rightarrow> 'db chat_services \<Rightarrow> string \<Rightarrow> ('db, string) tool" where
  "derive_group_chat_demand S X guid =
     (if guid = [] then io_raise ''chat_guid is required''
      else tool_try S []
        (io_bind (build_group_chat_context S X guid) (\<lambda>context.
         io_bind (on_db (xs_derived X context)) (\<lambda>result.
           let demand = coerce_text (sv_str S) (map_of result ''demand'')
           in if demand = [] then refuse ''No demand generated'' else answer demand))))"


section \<open>Texts\<close>

text \<open>What the members of a chat offer and look for\<close>

definition member_value_lines :: "group_member list \<Rightarrow> string list" where
  "member_value_lines ms = map (\<lambda>p. (if gm_name p = [] then ''member'' else gm_name p) @ '' can offer: '' @ the (gm_value p))
     (filter (\<lambda>p. truthy_str (gm_value p)) ms)"

definition member_demand :: "group_member \<Rightarrow> string option" where
  "member_demand p = (if truthy_str (gm_latest p) then gm_latest p else if truthy_str (gm_demand p) then gm_demand p else None)"

definition member_demand_lines :: "group_member list \<Rightarrow> string list" where
  "member_demand_lines ms = map (\<lambda>p. (if gm_name p = [] then ''member'' else gm_name p) @ '' is looking for: '' @ the (member_demand p))
     (filter (\<lambda>p. member_demand p \<noteq> None) ms)"

definition build_group_value_text :: "group_context \<Rightarrow> string option" where
  "build_group_value_text c =
     (let values = member_value_lines (gc_members c); demands = member_demand_lines (gc_members c); nl = [CHR 0x0A] in
      if values = [] \<and> demands = []
      then (if gc_summary c = [] then None else Some (''group chat summary:'' @ nl @ gc_summary c))
      else Some (join_str (nl @ nl)
        ((if values = [] then [] else [''group value summary:'' @ nl @ join_str nl values]) @
         (if demands = [] then [] else [''group demand summary:'' @ nl @ join_str nl demands]) @
         (if gc_summary c = [] then [] else [''group chat summary:'' @ nl @ gc_summary c]))))"

text \<open>In an f-string null is the text None.\<close>

definition shown_opt :: "string option \<Rightarrow> string" where
  "shown_opt x = (case x of None \<Rightarrow> ''None'' | Some s \<Rightarrow> s)"

definition invitation_prompt_of :: "string \<Rightarrow> string option \<Rightarrow> string list \<Rightarrow> string option \<Rightarrow> string list \<Rightarrow> string option \<Rightarrow> invitation_prompt" where
  "invitation_prompt_of initiator target reasons chat_name people purpose =
     (let others = filter (\<lambda>n. n \<noteq> [] \<and> py_lower n \<noteq> py_lower (or_str target [])) people
      in \<lparr>ip_target = shown_opt target, ip_initiator = initiator, ip_label = or_str chat_name ''the group chat'',
          ip_people = (if others = [] then initiator else join_str '', '' others), ip_purpose = or_str purpose [],
          ip_reasons = join_str ''; '' (take 2 reasons)\<rparr>)"

definition generate_groupchat_invitation_message ::
  "'db chat_services \<Rightarrow> string \<Rightarrow> string option \<Rightarrow> string list \<Rightarrow> string option \<Rightarrow> string list \<Rightarrow> string option \<Rightarrow> string option" where
  "generate_groupchat_invitation_message X initiator target reasons chat_name people purpose =
     (let response = xs_invite X (invitation_prompt_of initiator target reasons chat_name people purpose)
      in if truthy_str response then Some (py_strip (the response)) else None)"

definition fallback_groupchat_invitation :: "string \<Rightarrow> string option \<Rightarrow> string option \<Rightarrow> string option \<Rightarrow> string" where
  "fallback_groupchat_invitation initiator target chat_name purpose =
     ''hey '' @ shown_opt target @ '', '' @ initiator @ '' wants to add you to '' @ or_str chat_name ''our group chat'' @
     '' to talk about '' @ or_str purpose (''the stuff you'' @ [CHR 0x27] @ ''ve been into lately'') @
     ''. you in? reply yes and frank will add you''"

section \<open>The steps of a request\<close>

definition expand_create_request :: "'db services \<Rightarrow> int \<Rightarrow> string \<Rightarrow> match_result \<Rightarrow> string list option \<Rightarrow> string option \<Rightarrow> ('db, dict) tool" where
  "expand_create_request S now initiator m excluded guid =
     (if \<not> truthy_str guid then io_raise ''group_chat_guid is required for group chat expansion requests''
      else if \<not> valid_uuid initiator then io_raise (''Invalid initiator_id format: '' @ initiator)
      else if \<not> valid_uuid (mr_target_user_id m) then io_raise (''Invalid target_user_id format: '' @ mr_target_user_id m)
      else tool_try S ''Failed to create connection request: ''
        (io_bind (create_request (sv_reqs S) (sv_states S) now initiator m excluded None False 1 None None) (\<lambda>r.
         io_bind (if cr_id r = [] then io_return None
                  else on_db (update_connection_request (sv_reqs S) now (cr_id r) (\<lambda>q. q\<lparr>cr_group_chat_guid := guid\<rparr>))) (\<lambda>_.
           answer [(''connection_request_id'', JStr (cr_id r)), (''status'', JStr (status_value (cr_status r)))]))))"

definition people_of_chat :: "'db services \<Rightarrow> 'db chat_services \<Rightarrow> string \<Rightarrow> ('db mgr, conn_error, string list) io" where
  "people_of_chat S X guid =
     io_catch (io_bind (build_group_chat_context S X guid) (\<lambda>c. io_return (filter (\<lambda>n. n \<noteq> []) (map gm_name (gc_members c)))))
       (\<lambda>_. io_return [])"

definition group_invitation_text :: "'db chat_services \<Rightarrow> conn_req \<Rightarrow> string \<Rightarrow> tuser \<Rightarrow> string option \<Rightarrow> string list \<Rightarrow> string" where
  "group_invitation_text X r initiator target chat_name people =
     (let message = generate_groupchat_invitation_message X initiator (tu_name target) (cr_reasons r) chat_name people (cr_purpose r)
      in if truthy_str message then the message else fallback_groupchat_invitation initiator (tu_name target) chat_name (cr_purpose r))"

definition send_group_invitation :: "'db services \<Rightarrow> 'db chat_services \<Rightarrow> int \<Rightarrow> conn_req \<Rightarrow> string \<Rightarrow> string \<Rightarrow> tuser \<Rightarrow> ('db mgr, conn_error, string + dict) io" where
  "send_group_invitation S X now r rid initiator target =
     (let guid = the (cr_group_chat_guid r); phone = the (tu_phone target) in
      io_bind (initiator_confirms (sv_reqs S) (sv_states S) now rid) (\<lambda>request.
      io_bind (io_catch (on_db (xs_chat_name X guid)) (\<lambda>_. io_return None)) (\<lambda>chat_name.
      io_bind (people_of_chat S X guid) (\<lambda>people.
        let message = group_invitation_text X r initiator target chat_name people in
        if message = [] then refuse ''Request confirmed but failed to generate invitation message''
        else io_bind (on_db (sv_send S phone message False)) (\<lambda>_.
             io_bind (quietly (on_db (sv_store S (tu_id target) message
                [(''intent'', JStr ''networking_invitation''), (''connection_request_id'', JStr rid), (''initiator_name'', JStr initiator)]))) (\<lambda>_.
               answer [(''request_id'', JStr rid), (''status'', JStr (status_value (cr_status request))), (''invitation_sent'', JBool True),
                 (''target_phone'', JStr phone), (''message'', JStr message)]))))))"

definition expand_confirm_and_send :: "'db services \<Rightarrow> 'db chat_services \<Rightarrow> int \<Rightarrow> string \<Rightarrow> string \<Rightarrow> ('db, dict) tool" where
  "expand_confirm_and_send S X now rid initiator =
     (case validate_request_id rid of
        Some e \<Rightarrow> io_raise e
      | None \<Rightarrow> tool_try S ''Failed to confirm and send invitation: ''
          (io_bind (find_request S rid) (\<lambda>found. case found of
             None \<Rightarrow> refuse (''Connection request '' @ rid @ '' not found'')
           | Some r \<Rightarrow>
               if \<not> truthy_str (cr_group_chat_guid r) then refuse ''Connection request missing group_chat_guid for group chat expansion''
               else if cr_status r \<in> {CPendingTargetApproval, CTargetAccepted, CGroupCreated} then answer (already_confirmed rid r)
               else if cr_target r = [] then refuse ''Connection request missing target_user_id''
               else io_bind (on_db (sv_user S (cr_target r))) (\<lambda>u.
                      if phoneless u then refuse (''Could not find phone number for target user '' @ cr_target r)
                      else send_group_invitation S X now r rid initiator (the u)))))"


text \<open>The person is added first; an update that is refused afterwards is only logged.\<close>

definition mark_added :: "'db services \<Rightarrow> int \<Rightarrow> string \<Rightarrow> string \<Rightarrow> ('db mgr, conn_error, unit) io" where
  "mark_added S now rid guid = quietly
     (io_bind (on_db (update_connection_request_status (sv_reqs S) now rid CGroupCreated
         (\<lambda>r. r\<lparr>cr_group_chat_guid := Some guid, cr_group_created_at := Some now\<rparr>) (Some CTargetAccepted))) (\<lambda>_. io_return ()))"

definition add_to_chat :: "'db services \<Rightarrow> int \<Rightarrow> conn_req \<Rightarrow> string \<Rightarrow> string \<Rightarrow> tuser \<Rightarrow> ('db mgr, conn_error, unit) io" where
  "add_to_chat S now r rid guid target =
     io_bind (chat_participant_ids S guid) (\<lambda>ids.
     io_bind (names_of_members S (cr_target r) ids) (\<lambda>names.
     io_bind (on_db (sv_join S guid (cr_target r) (the (tu_phone target)) (tu_name target) r names)) (\<lambda>_.
       mark_added S now rid guid)))"

definition expand_group_chat :: "'db services \<Rightarrow> int \<Rightarrow> string \<Rightarrow> ('db, dict) tool" where
  "expand_group_chat S now rid =
     (case validate_request_id rid of
        Some e \<Rightarrow> io_raise e
      | None \<Rightarrow> tool_try S ''Failed to add participant to group chat: ''
          (io_bind (find_request S rid) (\<lambda>found. case found of
             None \<Rightarrow> refuse (''Connection request '' @ rid @ '' not found'')
           | Some r \<Rightarrow>
               if \<not> truthy_str (cr_group_chat_guid r) then refuse ''group_chat_guid is required for group chat expansion''
               else let guid = the (cr_group_chat_guid r) in
                 if cr_status r = CGroupCreated
                 then answer [(''chat_guid'', JStr guid), (''already_added'', JBool True), (''action_type'', JStr ''participant_added'')]
                 else if cr_target r = [] then refuse ''Connection request missing target_user_id''
                 else io_bind (on_db (sv_user S (cr_target r))) (\<lambda>u.
                        if phoneless u then refuse (''Could not find phone number for target user '' @ cr_target r)
                        else io_bind (add_to_chat S now r rid guid (the u)) (\<lambda>_.
                               answer [(''chat_guid'', JStr guid), (''added_user_id'', JStr (cr_target r)), (''added_user_name'', named u ''friend''),
                                 (''action_type'', JStr ''participant_added'')])))))"

section \<open>Searches\<close>

text \<open>Whom to leave out and what the group offers; without the context, nobody and nothing.\<close>

definition group_limits :: "'db services \<Rightarrow> 'db chat_services \<Rightarrow> string option \<Rightarrow> ('db mgr, conn_error, string list \<times> string option) io" where
  "group_limits S X guid =
     (if \<not> truthy_str guid then io_return ([], None)
      else io_catch (io_bind (build_group_chat_context S X (the guid)) (\<lambda>c. io_return (gc_excluded c, build_group_value_text c)))
        (\<lambda>_. io_return ([], None)))"

definition late_joiner_group :: "'db services \<Rightarrow> string option \<Rightarrow> ('db mgr, conn_error, string option) io" where
  "late_joiner_group S guid =
     (if \<not> truthy_str guid then io_return None
      else io_bind (on_db (get_connection_requests_by_chat_guid (sv_reqs S) (the guid))) (\<lambda>rs.
             io_return (case find (\<lambda>r. truthy_str (cr_signal_group r)) rs of None \<Rightarrow> None | Some r \<Rightarrow> cr_signal_group r)))"

definition expand_find_match ::
  "'db services \<Rightarrow> 'db chat_services \<Rightarrow> int \<Rightarrow> string \<Rightarrow> dict \<Rightarrow> string list option \<Rightarrow> string option \<Rightarrow> string option \<Rightarrow> string option \<Rightarrow> ('db, dict) tool" where
  "expand_find_match S X now uid profile excluded override_demand override_value guid =
     (case validate_and_repair_user_id uid profile of
        Inl e \<Rightarrow> io_raise e
      | Inr used \<Rightarrow> tool_try S ''Match search failed: ''
          (io_bind (group_limits S X guid) (\<lambda>(group_excluded, group_value).
             let all_excluded = (if truthy_str guid then from_keys group_excluded else opt_list excluded); demand = demand_for S override_demand in
             io_bind (case demand of None \<Rightarrow> io_return () | Some d \<Rightarrow> persist_demand S now used d) (\<lambda>_.
             io_bind (on_db (xs_match X used all_excluded demand (if truthy_str override_value then override_value else group_value))) (\<lambda>f.
               if \<not> fd_success f then refuse (or_str (fd_error f) ''No suitable match found'')
               else io_bind (late_joiner_group S guid) (\<lambda>grp.
                    io_bind (io_catch (io_bind (create_request (sv_reqs S) (sv_states S) now used (match_of f) None grp (truthy_str grp) 1
                          (if truthy_str demand then demand else override_demand) (if truthy_str guid then guid else None))
                        (\<lambda>r. io_return (Some (cr_id r)))) (\<lambda>_. io_return None)) (\<lambda>rid.
                      answer (found_data f @ [(''connection_request_id'', json_opt_str rid), (''request_id'', json_opt_str rid)]))))))))"

definition shown_match :: "found \<times> string option \<Rightarrow> json" where
  "shown_match x = JObj (found_data ((fst x)\<lparr>fd_details := [(''match_confidence'', get_or (fd_details (fst x)) ''match_confidence'' JNull)]\<rparr>) @
     (case snd x of None \<Rightarrow> [] | Some rid \<Rightarrow> [(''connection_request_id'', JStr rid)]))"

definition expand_find_multi ::
  "'db services \<Rightarrow> int \<Rightarrow> string \<Rightarrow> string \<Rightarrow> dict \<Rightarrow> string \<Rightarrow> int \<Rightarrow> string list option \<Rightarrow> string option \<Rightarrow> ('db, dict) tool" where
  "expand_find_multi S now grp uid profile signal max_matches excluded group_name =
     (case validate_and_repair_user_id uid profile of
        Inl e \<Rightarrow> io_raise e
      | Inr used \<Rightarrow> tool_try S ''Multi-match search failed: ''
          (io_bind (persist_demand S now used (or_str (sv_interpret S signal) signal)) (\<lambda>_.
           io_bind (on_db (sv_matches S used (from_keys (opt_list excluded)) signal (min max_matches 3))) (\<lambda>batch.
             let fs = filter fd_success batch in
             if fs = [] then refuse ''No suitable matches found''
             else io_bind (create_requests S now used grp (or_str group_name signal) fs) (\<lambda>created.
               let made = filter (\<lambda>x. snd x \<noteq> None) created in
               if made = [] then refuse ''Found matches but failed to create connection requests''
               else answer [(''matches'', JList (map shown_match created)), (''count'', JInt (int (length created))), (''signal_text'', JStr signal),
                 (''connection_requests'', JList (map (\<lambda>x. JObj [(''request_id'', JStr (the (snd x))), (''target_name'', JStr (fd_name (fst x))),
                    (''target_user_id'', JStr (fd_target (fst x)))]) made)),
                 (''request_ids'', json_strs (map (\<lambda>x. the (snd x)) made)), (''is_multi_match'', JBool True), (''signal_group_id'', JStr grp)])))))"

section \<open>Connections\<close>

text \<open>Unlike the tool of networking.py this one does not show the requests that await their target.\<close>

definition expand_pending_shown :: "'db services \<Rightarrow> int \<Rightarrow> string \<Rightarrow> ('db mgr, conn_error, shown list) io" where
  "expand_pending_shown S now uid =
     io_bind (on_db (list_pending_requests_for_initiator (sv_reqs S) now uid 10)) (\<lambda>mine.
     io_bind (shown_requests S True mine) (\<lambda>a.
     io_bind (on_db (list_pending_requests_for_target (sv_reqs S) now uid 10)) (\<lambda>asked.
     io_bind (shown_requests S False asked) (\<lambda>c. io_return (a @ c)))))"

definition expand_connection_info :: "'db services \<Rightarrow> int \<Rightarrow> string \<Rightarrow> string option \<Rightarrow> bool \<Rightarrow> ('db, connection_info) tool" where
  "expand_connection_info S now uid target_name include_pending =
     (if \<not> valid_uuid uid then io_raise (''Invalid user_id format: '' @ uid)
      else tool_try S ''Failed to get connection info: ''
        (io_bind (on_db (get_user_connections (sv_reqs S) (\<lambda>u. io_lift (sv_text S) (row_user S u)) uid 20)) (\<lambda>completed.
         io_bind (if include_pending then expand_pending_shown S now uid else io_return []) (\<lambda>pending.
           info_answer S target_name (map shown_connection completed @ pending)))))"

section \<open>Copies of the tools of networking.py\<close>

definition expand_clarity :: "'db services \<Rightarrow> int \<Rightarrow> string \<Rightarrow> string \<Rightarrow> dict \<Rightarrow> ('db, dict) tool" where
  "expand_clarity = check_networking_clarity"

definition expand_pending :: "'db services \<Rightarrow> int \<Rightarrow> string \<Rightarrow> bool \<Rightarrow> dict option \<Rightarrow> ('db, conn_req option) tool" where
  "expand_pending = get_pending_connection_request"

definition expand_confirm :: "'db services \<Rightarrow> int \<Rightarrow> string \<Rightarrow> ('db, dict) tool" where
  "expand_confirm = confirm_connection_request"

definition expand_different :: "'db services \<Rightarrow> int \<Rightarrow> string \<Rightarrow> string \<Rightarrow> ('db, dict) tool" where
  "expand_different = request_different_match"

definition expand_cancel :: "'db services \<Rightarrow> int \<Rightarrow> string \<Rightarrow> ('db, dict) tool" where
  "expand_cancel = cancel_connection_request"

definition expand_responds :: "'db services \<Rightarrow> int \<Rightarrow> string \<Rightarrow> bool \<Rightarrow> string option \<Rightarrow> ('db, dict) tool" where
  "expand_responds = target_responds"

definition expand_connections :: "'db services \<Rightarrow> string \<Rightarrow> dict option \<Rightarrow> ('db, connection list) tool" where
  "expand_connections = tool_get_user_connections"


section \<open>What the tools do to the requests\<close>

locale chat_store = tool_store rapi rtbl sapi stbl S
  for rapi :: "('db, conn_req) table_api" and rtbl :: "'db \<Rightarrow> string \<rightharpoonup> conn_req"
    and sapi :: "('db, state_row) table_api" and stbl :: "'db \<Rightarrow> string \<rightharpoonup> state_row" and S :: "'db services" +
  fixes X :: "'db chat_services"
  assumes context_frames: "keeps rtbl (xs_row X u)" "keeps rtbl (xs_segments X u)" "keeps rtbl (xs_messages X u)" "keeps rtbl (xs_chat_name X u)"
    and answer_frames: "keeps rtbl (xs_derived X c)" "keeps rtbl (xs_match X u us n v)"
begin

lemmas chat_service_frames = service_frames context_frames answer_frames

lemma keeps_ids [keeps_rules]: "keeps reqs_of (chat_participant_ids S guid)" "keeps reqs_of (chat_invited_ids S guid)"
  unfolding chat_participant_ids_def chat_invited_ids_def apis by (intro keeps_rules service_frames reqs_select_frame)+

lemma keeps_fetch [keeps_rules]: "keeps reqs_of (fetch_members X ids)"
  by (induction ids) (auto intro!: keeps_rules context_frames split: option.splits)

lemma keeps_context [keeps_rules]: "keeps reqs_of (build_group_chat_context S X guid)"
  unfolding build_group_chat_context_def by (intro keeps_rules context_frames)

lemma keeps_people [keeps_rules]: "keeps reqs_of (people_of_chat S X guid)"
  unfolding people_of_chat_def by (intro keeps_rules)

lemma keeps_limits: "keeps reqs_of (group_limits S X guid)"
  unfolding group_limits_def by (intro keeps_rules)

lemma keeps_late: "keeps reqs_of (late_joiner_group S guid)"
  unfolding late_joiner_group_def get_connection_requests_by_chat_guid_def apis by (intro keeps_rules reqs_select_frame)

lemma keeps_context_tools: "keeps reqs_of (get_group_chat_context_for_networking S X guid)" "keeps reqs_of (derive_group_chat_demand S X guid)"
proof -
  show "keeps reqs_of (get_group_chat_context_for_networking S X guid)"
    unfolding get_group_chat_context_for_networking_def by (intro keeps_rules keeps_tool_try)
  show "keeps reqs_of (derive_group_chat_demand S X guid)"
    unfolding derive_group_chat_demand_def Let_def by (intro keeps_rules keeps_tool_try answer_frames)
qed

lemma keeps_expand_info: "keeps reqs_of (expand_connection_info S now uid nm b)"
  unfolding expand_connection_info_def expand_pending_shown_def list_pending_requests_for_initiator_def list_pending_requests_for_target_def
    info_answer_def Let_def apis
  by (intro keeps_rules keeps_db keeps_tool_try keeps_connections keeps_newest keeps_shown keeps_persons of_result_frame)

lemma evolves_expand_invitation: "evolves reqs_of (expand_confirm_and_send S X now rid initiator)"
proof -
  have "evolves reqs_of (quietly (on_db (sv_store S u t d)))" for u t d
    by (intro evolves_keeps keeps_quietly keeps_db service_frames)
  then show ?thesis
    unfolding expand_confirm_and_send_def send_group_invitation_def apis Let_def
    by (intro tools_evolve evolves_case_option evolves_keeps [OF keeps_people] context_frames [THEN keeps_db, THEN evolves_keeps])
qed

lemma evolves_mark_added: "evolves reqs_of (mark_added S now rid guid)"
  unfolding mark_added_def quietly_def apis
  by (intro evolves_rules reqs.evolves_status_update) (simp add: side_fields_def)

lemma evolves_expand_group: "evolves reqs_of (expand_group_chat S now rid)"
  unfolding expand_group_chat_def add_to_chat_def Let_def
  by (intro tools_evolve evolves_case_option evolves_mark_added evolves_keeps [OF keeps_members] evolves_keeps [OF keeps_ids(1)])

lemma evolves_expand_match: "evolves reqs_of (expand_find_match S X now uid profile ex demand val guid)"
  unfolding expand_find_match_def Let_def apis
  by (intro tools_evolve evolves_case_sum evolves_case_prod evolves_case_option evolves_keeps [OF keeps_limits] evolves_keeps [OF keeps_persist]
      evolves_keeps [OF keeps_late] answer_frames [THEN keeps_db, THEN evolves_keeps])

lemma evolves_expand_multi: "evolves reqs_of (expand_find_multi S now grp uid profile signal n ex nm)"
  unfolding expand_find_multi_def Let_def
  by (intro tools_evolve evolves_case_sum evolves_requests evolves_keeps [OF keeps_persist])

end

text \<open>A call that acts on the row just created\<close>

context tool_store
begin

lemma created_pending:
  assumes "create_request rapi sapi now i mt ex sg mm th pu cg s = (Inr r, s')"
  shows "reqs_of s' (cr_id r) = Some r \<and> cr_status r = CPendingInitiatorApproval"
proof -
  let ?mk = "request_row now i (mr_target_user_id mt) (Some (mr_match_score mt)) (Some (mr_matching_reasons mt)) (mr_llm_introduction mt)
     (mr_llm_concern mt) ex sg mm th pu cg"
  have key: "cr_id (?mk k) = k" "cr_status (?mk k) = CPendingInitiatorApproval" for k by (simp_all add: request_row_def Let_def)
  let ?track = "\<lambda>k. (io_catch (io_bind (track_created sapi now i k mt mm pu) (\<lambda>_. io_return ())) (\<lambda>_. io_return ()) :: ('db mgr, conn_error, unit) io)"
  have fr: "keeps reqs_of (?track k)" for k
    by (intro keeps_rules track_created_frame)
  let ?create = "on_db (create_connection_request rapi now i (mr_target_user_id mt) (Some (mr_match_score mt)) (Some (mr_matching_reasons mt))
      (mr_llm_introduction mt) (mr_llm_concern mt) ex sg mm th pu cg)"
  from assms [unfolded create_request_def io_bind_eq_Inr [of ?create]] obtain x s1 where a: "?create s = (Inr x, s1)"
    and r: "io_bind (?track (cr_id x))
      (\<lambda>_. if mm \<and> sg = None then io_raise MissingSignalGroup else io_return x) s1 = (Inr r, s')" by blast
  from r obtain u where x: "x = r" and b: "?track (cr_id x) s1 = (Inr u, s')"
    unfolding io_bind_eq_Inr [where f = "\<lambda>_. if mm \<and> sg = None then io_raise MissingSignalGroup else io_return x"]
    by (cases "mm \<and> sg = None") auto
  note a = a [unfolded x]
  from a obtain d1 qs where ins: "tb_insert rapi ?mk (mg_db s) = (Inr (r # qs), d1)" "s1 = s\<lparr>mg_db := d1\<rparr>"
    by (auto simp: create_connection_request_def io_bind_eq_Inr on_db_iff first_row_Inr)
  have tr: "reqs_of s' = rtbl d1" using keepsD [OF fr b] ins(2) by simp
  from reqs.insert_ok [OF ins(1) key(1)] obtain k where "r = ?mk k" "rtbl d1 = (reqs_of s)(k \<mapsto> ?mk k)" by auto
  with tr key show ?thesis by simp
qed

lemma evolves_pending_update:
  assumes "reqs_of s rid = Some q" "valid_status_next (cr_status q) \<noteq> []"
    and "on_db (update_connection_request rapi now rid (\<lambda>q. q\<lparr>cr_group_chat_guid := g\<rparr>)) s = (res, s')"
  shows "tbl_evolves (reqs_of s) (reqs_of s')"
proof -
  let ?f = "\<lambda>r. r\<lparr>cr_group_chat_guid := g, cr_updated_at := now\<rparr>"
  have ev: "row_evolves q (?f q)" using assms(2) by (simp add: row_evolves_def path_refl)
  obtain ur d where up: "tb_update rapi (\<lambda>r. cr_id r = rid \<and> True) ?f (mg_db s) = (ur, d)" by fastforce
  have "reqs_of s' = rtbl d"
    using assms(3) up by (auto simp: update_connection_request_def on_db_def io_catch_def io_bind_def split: sum.splits)
  moreover have "tbl_evolves (reqs_of s) (rtbl d)"
  proof (cases ur)
    case (Inl e)
    with reqs.update_key_err [of rid "\<lambda>_. True", OF up [unfolded Inl]] assms(1) show ?thesis
      by (auto intro: tbl_evolves_refl tbl_evolves_upd [OF _ ev])
  next
    case (Inr rs)
    with reqs.update_key_ok [of rid "\<lambda>_. True", OF up [unfolded Inr]] assms(1) show ?thesis
      by (auto intro: tbl_evolves_upd [OF _ ev])
  qed
  ultimately show ?thesis by simp
qed

end


context tool_store
begin

lemma evolves_expand_create: "evolves reqs_of (expand_create_request S now i mt ex guid)"
proof -
  let ?create = "create_request rapi sapi now i mt ex None False 1 None None"
  let ?rest = "\<lambda>r. io_bind (if cr_id r = [] then io_return None
      else on_db (update_connection_request rapi now (cr_id r) (\<lambda>q. q\<lparr>cr_group_chat_guid := guid\<rparr>))) (\<lambda>_.
        answer [(''connection_request_id'', JStr (cr_id r)), (''status'', JStr (status_value (cr_status r)))])"
  have "tbl_evolves (reqs_of s) (reqs_of s')" if run: "io_bind ?create ?rest s = (res, s')" for s res s'
  proof (cases "?create s")
    case (Pair cres s1)
    have e1: "tbl_evolves (reqs_of s) (reqs_of s1)" by (rule evolvesD [OF evolves_create_request Pair])
    show ?thesis
    proof (cases cres)
      case (Inl e)
      with Pair run e1 show ?thesis by (simp add: io_bind_def)
    next
      case (Inr r)
      have q: "reqs_of s1 (cr_id r) = Some r" "valid_status_next (cr_status r) \<noteq> []"
        using created_pending [OF Pair [unfolded Inr]] by simp_all
      obtain u s2 where up: "on_db (update_connection_request rapi now (cr_id r) (\<lambda>q. q\<lparr>cr_group_chat_guid := guid\<rparr>)) s1 = (u, s2)" by fastforce
      have "reqs_of s' = reqs_of s1 \<or> reqs_of s' = reqs_of s2"
        using run Pair Inr up by (auto simp: io_bind_def answer_def split: if_splits sum.splits)
      with evolves_pending_update [OF q up] e1 show ?thesis by (auto intro: tbl_evolves_trans)
    qed
  qed
  then have "evolves reqs_of (io_bind ?create ?rest)" unfolding evolves_def by blast
  then show ?thesis unfolding expand_create_request_def apis by (intro evolves_if evolves_raise evolves_tool_try)
qed

end

text \<open>All tools of both toolkits, in any order\<close>

inductive expand_call :: "'db services \<Rightarrow> 'db chat_services \<Rightarrow> 'db mgr \<Rightarrow> 'db mgr \<Rightarrow> bool" for S X where
  "tool_call S m m' \<Longrightarrow> expand_call S X m m'"
| "expand_call S X m (snd (get_group_chat_context_for_networking S X guid m))"
| "expand_call S X m (snd (derive_group_chat_demand S X guid m))"
| "expand_call S X m (snd (expand_create_request S now i mt ex guid2 m))"
| "expand_call S X m (snd (expand_confirm_and_send S X now rid initiator m))"
| "expand_call S X m (snd (expand_group_chat S now rid m))"
| "expand_call S X m (snd (expand_find_match S X now uid profile ex demand val guid2 m))"
| "expand_call S X m (snd (expand_find_multi S now grp uid profile signal n ex nm m))"
| "expand_call S X m (snd (expand_connection_info S now uid nm b m))"

inductive expand_run :: "'db services \<Rightarrow> 'db chat_services \<Rightarrow> 'db \<Rightarrow> 'db \<Rightarrow> bool" for S X where
  expand_none: "expand_run S X d d"
| expand_step: "expand_run S X d d1 \<Longrightarrow> expand_call S X \<lparr>mg_db = d1, mg_cache = c\<rparr> m \<Longrightarrow> expand_run S X d (mg_db m)"

context chat_store
begin

lemma expand_call_evolves: "expand_call S X m m' \<Longrightarrow> tbl_evolves (reqs_of m) (reqs_of m')"
  by (induction rule: expand_call.induct)
    (rule call_evolves evolves_snd [where f = reqs_of] evolves_keeps [OF keeps_context_tools(1)] evolves_keeps [OF keeps_context_tools(2)]
      evolves_expand_create evolves_expand_invitation evolves_expand_group evolves_expand_match evolves_expand_multi
      evolves_keeps [OF keeps_expand_info] | assumption)+

lemma expand_run_evolves: "expand_run S X d d' \<Longrightarrow> tbl_evolves (rtbl d) (rtbl d')"
proof (induction rule: expand_run.induct)
  case (expand_step d d1 c m)
  with expand_call_evolves [OF expand_step.hyps(2)] show ?case by (auto intro: tbl_evolves_trans)
qed (rule tbl_evolves_refl)

end

end
