(* ===== verification/Expansion_World.thy ===== *)
theory Expansion_World
  imports Expansion_Tools Tool_World
begin

text \<open>
  The tools of both toolkits over the world of Tool_World, and what the tools that add people to a chat do
  to requests and to people.
\<close>

section \<open>The services of chats in the world\<close>

definition user_row_json :: "tuser \<Rightarrow> dict" where
  "user_row_json u = [(''id'', JStr (tu_id u)), (''name'', json_opt_str (tu_name u))]"

definition town_chats :: "tenv \<Rightarrow> (invitation_prompt \<Rightarrow> string option) \<Rightarrow> town chat_services" where
  "town_chats e invite = \<lparr>xs_row = (\<lambda>u. io_return (map_option user_row_json (te_users e u))), xs_segments = (\<lambda>_. io_return []),
     xs_messages = (\<lambda>_. io_return []),
     xs_chat_name = (\<lambda>g. group_read (\<lambda>w. case get_group_chat_by_guid (pe_up (te_group e) PReadChats) g w of None \<Rightarrow> None | Some r \<Rightarrow> gr_name r)),
     xs_derived = (\<lambda>_. io_raise (ApiFailure ''no answer'')), xs_invite = invite,
     xs_match = (\<lambda>_ _ _ _. case te_matches e of [] \<Rightarrow> io_raise (ApiFailure ''no match'') | f # _ \<Rightarrow> io_return f)\<rparr>"

interpretation tc: chat_store t_rapi t_rtbl t_sapi t_stbl "town_services e" "town_chats e invite" for e invite
proof (intro chat_store.intro tw.tool_store_axioms)
  show "chat_store_axioms t_rtbl (town_chats e invite)"
    by unfold_locales (auto simp: town_chats_def intro!: keeps_return keeps_raise group_read_frame split: list.splits)
qed

section \<open>Requests of several matches have no chat\<close>

text \<open>The rows a call adds\<close>

definition adds :: "('s \<Rightarrow> string \<rightharpoonup> conn_req) \<Rightarrow> (conn_req \<Rightarrow> bool) \<Rightarrow> ('s, 'e, 'a) io \<Rightarrow> bool" where
  "adds f P m \<longleftrightarrow> (\<forall>s res s' k q. m s = (res, s') \<and> f s' k = Some q \<longrightarrow> f s k = Some q \<or> P q)"

lemma adds_keeps: "keeps f m \<Longrightarrow> adds f P m"
  by (auto simp: adds_def dest: keepsD)

lemma adds_bind: "adds f P m \<Longrightarrow> (\<And>x. adds f P (g x)) \<Longrightarrow> adds f P (io_bind m g)"
  unfolding adds_def io_bind_def by (auto split: prod.splits sum.splits) metis+

lemma adds_catch: "adds f P m \<Longrightarrow> (\<And>e. adds f P (h e)) \<Longrightarrow> adds f P (io_catch m h)"
  unfolding adds_def io_catch_def by (auto split: prod.splits sum.splits) metis+

lemma adds_if: "adds f P m \<Longrightarrow> adds f P n \<Longrightarrow> adds f P (if b then m else n)"
  by simp

lemma adds_tool_try: "adds f P m \<Longrightarrow> adds f P (tool_try S what m)"
  unfolding adds_def tool_try_def by (auto split: prod.splits sum.splits)

context tool_store
begin

lemma adds_db: "adds rtbl P m \<Longrightarrow> adds reqs_of P (on_db m)"
  unfolding adds_def on_db_iff by fastforce

lemma adds_create:
  "adds reqs_of (\<lambda>q. cr_group_chat_guid q = None) (create_request rapi sapi now i mt ex sg mm th pu None)"
proof -
  let ?mk = "request_row now i (mr_target_user_id mt) (Some (mr_match_score mt)) (Some (mr_matching_reasons mt)) (mr_llm_introduction mt)
     (mr_llm_concern mt) ex sg mm th pu None"
  have key: "cr_id (?mk k) = k" "cr_group_chat_guid (?mk k) = None" for k by (simp_all add: request_row_def Let_def)
  have ins: "adds rtbl (\<lambda>q. cr_group_chat_guid q = None) (tb_insert rapi ?mk)"
    unfolding adds_def
  proof (intro allI impI, elim conjE)
    fix d res d' k q
    assume i: "tb_insert rapi ?mk d = (res, d')" and q: "rtbl d' k = Some q"
    show "rtbl d k = Some q \<or> cr_group_chat_guid q = None"
    proof (cases res)
      case (Inl e)
      with reqs.insert_err [OF i [unfolded Inl] key(1)] q key(2) show ?thesis by (auto split: if_splits)
    next
      case (Inr xs)
      with reqs.insert_ok [OF i [unfolded Inr] key(1)] q key(2) show ?thesis by (auto split: if_splits)
    qed
  qed
  have "adds rtbl (\<lambda>q. cr_group_chat_guid q = None) (create_connection_request rapi now i (mr_target_user_id mt) (Some (mr_match_score mt))
      (Some (mr_matching_reasons mt)) (mr_llm_introduction mt) (mr_llm_concern mt) ex sg mm th pu None)"
    unfolding create_connection_request_def io_lift_def
    by (intro adds_bind adds_catch ins adds_keeps keeps_raise) (auto simp: first_row_def intro: adds_keeps keeps_rules split: list.splits)
  then have "adds reqs_of (\<lambda>q. cr_group_chat_guid q = None) (on_db (create_connection_request rapi now i (mr_target_user_id mt)
      (Some (mr_match_score mt)) (Some (mr_matching_reasons mt)) (mr_llm_introduction mt) (mr_llm_concern mt) ex sg mm th pu None))"
    by (rule adds_db)
  note made = this
  show ?thesis
    unfolding create_request_def by (rule adds_bind, rule made) (intro adds_keeps keeps_rules track_created_frame)
qed

lemma adds_requests: "adds reqs_of (\<lambda>q. cr_group_chat_guid q = None) (create_requests S now uid grp purpose fs)"
proof (induction fs)
  case (Cons x fs)
  show ?case unfolding create_requests.simps apis by (intro adds_bind adds_catch adds_create Cons adds_keeps keeps_rules)
qed (simp add: adds_keeps keeps_rules)

lemma adds_multi: "adds reqs_of (\<lambda>q. cr_group_chat_guid q = None) (expand_find_multi S now grp uid profile signal n ex nm)"
proof (cases "validate_and_repair_user_id uid profile")
  case (Inl e)
  then show ?thesis by (simp add: expand_find_multi_def adds_keeps keeps_rules)
next
  case (Inr used)
  show ?thesis
    unfolding expand_find_multi_def Inr sum.case Let_def
    by (intro adds_tool_try adds_bind adds_if adds_requests adds_keeps [OF keeps_persist] adds_keeps keeps_rules keeps_db service_frames)
qed

end


section \<open>Steps of a search and of a joining\<close>

lemma catch_returns: "\<exists>x s'. io_catch m (\<lambda>_. io_return y) s = (Inr x, s')"
  by (cases "m s"; cases "fst (m s)") (auto simp: io_catch_def split: sum.splits)

lemma fetch_returns: "\<exists>ms s'. fetch_members X ids s = (Inr ms, s')"
proof (induction ids arbitrary: s)
  case (Cons uid ids)
  obtain row s1 where "io_catch (on_db (xs_row X uid)) (\<lambda>_. io_return None) s = ((Inr row :: conn_error + dict option), s1)"
    by (metis catch_returns)
  moreover obtain rest s2 where "fetch_members X ids s1 = (Inr rest, s2)" using Cons by blast
  ultimately show ?case by (simp add: io_bind_def)
qed simp

context chat_store
begin

lemma limits_exact:
  assumes "sv_members S guid (mg_db m) = (Inr ids, d1)" "guid \<noteq> []"
    and "tb_select rapi (\<lambda>r. cr_group_chat_guid r = Some guid \<and> active_status (cr_status r)) d1 = (Inr rs, d2)"
    and "group_limits S X (Some guid) m = (Inr (excluded, v), m')"
  shows "set excluded = {u. u \<noteq> [] \<and> (u \<in> set ids
      \<or> (\<exists>r \<in> ran (reqs_of m). cr_target r = u \<and> cr_group_chat_guid r = Some guid \<and> active_status (cr_status r)))}"
proof -
  have rows: "set rs = matching (\<lambda>r. cr_group_chat_guid r = Some guid \<and> active_status (cr_status r)) (reqs_of m)"
    using reqs.select_ok [OF assms(3)] keepsD [OF chat_frames(1) assms(1)] by simp
  have "excluded = from_keys (filter (\<lambda>i. i \<noteq> []) ids @ from_keys (filter (\<lambda>u. u \<noteq> []) (map cr_target rs)))"
  proof -
    obtain members m2 where f: "fetch_members X (filter (\<lambda>i. i \<noteq> []) ids) (m\<lparr>mg_db := d2\<rparr>) = (Inr members, m2)"
      by (metis fetch_returns)
    obtain s1 m3 where s1: "io_catch (io_bind (on_db (xs_segments X guid)) (\<lambda>xs. io_return (summary_of_segments xs))) (\<lambda>_. io_return []) m2
        = ((Inr s1 :: conn_error + string), m3)"
      by (metis catch_returns)
    obtain s2 m4 where s2: "io_catch (io_bind (on_db (xs_messages X guid)) (\<lambda>rows. io_return (map shown_message rows))) (\<lambda>_. io_return []) m3
        = ((Inr s2 :: conn_error + dict list), m4)"
      by (metis catch_returns)
    show ?thesis
      using assms f s1 s2
      by (simp add: group_limits_def build_group_chat_context_def chat_participant_ids_def chat_invited_ids_def on_db_def io_bind_def io_catch_Inr)
  qed
  then have "set excluded = set (filter (\<lambda>i. i \<noteq> []) ids) \<union> set (filter (\<lambda>u. u \<noteq> []) (map cr_target rs))" by (auto simp: from_keys_def)
  then show ?thesis using rows by (auto simp: matching_def)
qed

end


lemma town_added_refused:
  assumes "\<And>q. t_rtbl (mg_db m) rid = Some q \<Longrightarrow> cr_status q \<noteq> CTargetAccepted"
  shows "\<exists>m'. mark_added (town_services e) now rid guid m = (Inr (), m') \<and> t_rtbl (mg_db m') = t_rtbl (mg_db m)
    \<and> tn_group (mg_db m') = tn_group (mg_db m)"
proof -
  let ?f = "\<lambda>r. r\<lparr>cr_group_chat_guid := Some guid, cr_group_created_at := Some now\<rparr>"
  obtain x m1 where m: "mark_group_created t_rapi t_sapi now rid guid m = (Inl x, m1)" "t_rtbl (mg_db m1) = t_rtbl (mg_db m)"
    "tn_group (mg_db m1) = tn_group (mg_db m)" using town_mark_refused [OF assms] by blast
  obtain res d where up: "on_db (update_connection_request_status t_rapi now rid CGroupCreated ?f (Some CTargetAccepted)) m = (res, d)" by fastforce
  have s: "sv_reqs (town_services e) = t_rapi" by (simp add: town_services_def)
  show ?thesis
  proof (cases res)
    case (Inl y)
    then have "d = m1" using m(1) up by (simp add: mark_group_created_def move_and_track_def io_bind_def)
    with Inl up m show ?thesis by (simp add: mark_added_def quietly_def s io_catch_def io_bind_def)
  next
    case (Inr r)
    then obtain d1 where "update_connection_request_status t_rapi now rid CGroupCreated ?f (Some CTargetAccepted) (mg_db m) = (Inr r, d1)"
      using up by (auto simp: on_db_iff)
    moreover have "keeps_id ?f" by (simp add: keeps_id_def)
    ultimately obtain p where "t_rtbl (mg_db m) rid = Some p" "cr_status p = CTargetAccepted" by (rule tw.reqs.guarded_update_Inr)
    with assms show ?thesis by blast
  qed
qed

section \<open>Properties\<close>

text \<open>C28: Whatever tools of either toolkit the agents call, in whatever order, with whatever arguments, and whichever calls
to services and to the database fail, a request keeps its two users, moves only along the valid changes of its status,
and stays as it is once its status is final.\<close>

theorem all_tools_move_requests_forward:
  assumes "chat_store rapi rtbl sapi stbl S X" "expand_run S X d d'" "rtbl d rid = Some q"
  shows "\<exists>q'. rtbl d' rid = Some q' \<and> cr_initiator q' = cr_initiator q \<and> cr_target q' = cr_target q
    \<and> status_path (cr_status q) (cr_status q') \<and> (valid_status_next (cr_status q) = [] \<longrightarrow> cr_status q' = cr_status q)"
proof -
  obtain q' where "rtbl d' rid = Some q'" "row_evolves q q'"
    using chat_store.expand_run_evolves [OF assms(1,2)] assms(3) by (auto simp: tbl_evolves_def)
  then show ?thesis using path_terminal by (intro exI [of _ q']) (auto simp: row_evolves_def)
qed

text \<open>C29: People are added to a chat without their consent: for a request of a chat that its target has not accepted
(waiting, declined, cancelled or expired) the tool adds the target to the chat and answers success; the update that is
refused afterwards is only logged, so the request stays as it is and the tool can do it again.\<close>

theorem added_without_consent:
  assumes "valid_uuid rid" and "find_request (town_services e) rid m = (Inr (Some r), m1)"
    and "cr_group_chat_guid r = Some guid" "guid \<noteq> []" "cr_status r \<noteq> CTargetAccepted" "cr_status r \<noteq> CGroupCreated" "cr_target r \<noteq> []"
    and "te_users e (cr_target r) = Some u" "tu_phone u = Some phone" "phone \<noteq> []"
    and "add_participant_to_group (te_group e) guid (cr_target r) phone (Some (cr_id r)) (tn_group (mg_db m1)) = (Inr (), g)"
  shows "\<exists>data. fst (expand_group_chat (town_services e) now rid m) = Inr data
    \<and> tn_group (mg_db (snd (expand_group_chat (town_services e) now rid m))) = g
    \<and> t_rtbl (mg_db (snd (expand_group_chat (town_services e) now rid m))) = t_rtbl (mg_db m)"
proof -
  let ?S = "town_services e"
  have r: "t_rtbl (mg_db m1) = t_rtbl (mg_db m)" "t_rtbl (mg_db m) rid = Some r"
    using tw.find_cases [of e rid m] assms(2) by auto
  let ?m5 = "m1\<lparr>mg_db := (mg_db m1)\<lparr>tn_group := g\<rparr>\<rparr>"
  have t5: "t_rtbl (mg_db ?m5) = t_rtbl (mg_db m)" using r(1) by (simp add: mem_tbl_def)
  have "\<exists>m'. mark_added ?S now rid guid ?m5 = (Inr (), m') \<and> t_rtbl (mg_db m') = t_rtbl (mg_db ?m5) \<and> tn_group (mg_db m') = tn_group (mg_db ?m5)"
    by (rule town_added_refused) (use r(2) assms(5) t5 in auto)
  then obtain m6 where m6: "mark_added ?S now rid guid ?m5 = (Inr (), m6)" "t_rtbl (mg_db m6) = t_rtbl (mg_db m)" "tn_group (mg_db m6) = g"
    unfolding t5 by auto
  have u: "on_db (sv_user ?S uid) m1 = (Inr (te_users e uid), m1)" for uid by (simp add: town_services_def on_db_def)
  have ids: "chat_participant_ids ?S guid m1 = (Inr ids, m1)"
    if "ids = filter (\<lambda>i. i \<noteq> []) (map gp_user (get_group_chat_participants (pe_up (te_group e) (PReadParts guid)) guid (tn_group (mg_db m1))))" for ids
    using that by (simp add: chat_participant_ids_def io_catch_def io_bind_def on_db_def town_services_def group_read_def)
  have names: "\<exists>xs. names_of_members ?S joiner us m1 = (Inr xs, m1)" for joiner us
    by (induction us) (auto simp: io_bind_def io_catch_def u)
  obtain xs where xs: "names_of_members ?S (cr_target r) (filter (\<lambda>i. i \<noteq> []) (map gp_user (get_group_chat_participants (pe_up (te_group e) (PReadParts guid)) guid (tn_group (mg_db m1))))) m1 = (Inr xs, m1)"
    using names by blast
  have j: "on_db (sv_join ?S guid (cr_target r) phone (tu_name u) r xs) m1 = (Inr (), ?m5)"
    using assms(11) by (simp add: town_services_def on_db_def on_group_def)
  have a: "add_to_chat ?S now r rid guid u m1 = (Inr (), m6)"
    using ids [OF refl] xs j m6(1) assms(9) by (simp add: add_to_chat_def io_bind_def)
  show ?thesis
    using assms(2-10) a u m6(2,3) tw.valid_request [OF assms(1)]
    by (simp add: expand_group_chat_def tool_try_def io_bind_def answer_def phoneless_def Let_def)
qed

text \<open>A search for a chat leaves out the people of this chat: if the database answers, they are exactly its participants and
the targets of its requests that are waiting, accepted or done; the exclusions that were asked for play no role.\<close>

theorem search_leaves_out_the_chat:
  assumes "chat_store rapi rtbl sapi stbl S X" "sv_members S guid (mg_db m) = (Inr ids, d1)" "guid \<noteq> []"
    and "tb_select rapi (\<lambda>r. cr_group_chat_guid r = Some guid \<and> active_status (cr_status r)) d1 = (Inr rs, d2)"
    and "group_limits S X (Some guid) m = (Inr (excluded, v), m')"
  shows "set excluded = {u. u \<noteq> [] \<and> (u \<in> set ids
      \<or> (\<exists>r \<in> ran (rtbl (mg_db m)). cr_target r = u \<and> cr_group_chat_guid r = Some guid \<and> active_status (cr_status r)))}"
  by (rule chat_store.limits_exact [OF assms])

text \<open>A search for several people creates requests that this toolkit can not go on with: none of the requests that
appear has a chat, and the tool that confirms and invites refuses every request without a chat.\<close>

theorem several_matches_have_no_chat:
  assumes "chat_store rapi rtbl sapi stbl S X"
    and "rtbl (mg_db m) rid = None" "rtbl (mg_db (snd (expand_find_multi S now grp uid profile signal n ex nm m))) rid = Some q"
  shows "cr_group_chat_guid q = None
    \<and> (\<exists>err. fst (expand_confirm_and_send S X now' rid initiator (snd (expand_find_multi S now grp uid profile signal n ex nm m))) = Inl err)"
proof -
  let ?m = "snd (expand_find_multi S now grp uid profile signal n ex nm m)"
  have t: "tool_store rapi rtbl sapi stbl S" using assms(1) by (rule chat_store.axioms(1))
  obtain res where "expand_find_multi S now grp uid profile signal n ex nm m = (res, ?m)" by (metis prod.collapse)
  with tool_store.adds_multi [OF t] assms(2,3) have g: "cr_group_chat_guid q = None" by (fastforce simp: adds_def)
  obtain p m' where f: "find_request S rid ?m = (Inr p, m')" "p = None \<or> p = Some q"
    using tool_store.find_cases [OF t, of rid ?m] assms(3) by auto
  show ?thesis
    using g f by (cases "validate_request_id rid") (auto simp: expand_confirm_and_send_def tool_try_def io_bind_def refuse_def)
qed


section \<open>Examples\<close>

abbreviation example_chats :: "town chat_services" where
  "example_chats \<equiv> town_chats example_tenv (\<lambda>_. None)"

lemma example_join: "fst (add_participant_to_group (example_penv True) ''g'' uid ''a@b.co'' req example_pworld) = Inr ()"
proof -
  have a: "checked_address x y ''a@b.co'' = Inr ''a@b.co''" for x y by (simp add: checked_address_def, code_simp)
  let ?e = "example_penv True"
  have p: "on_photon (add_participant (pe_retry ?e) (pe_srv ?e) ''g'' ''a@b.co'') w = (Inr (JObj [(''chat_guid'', JStr ''g''),
      (''added_address'', JStr ''a@b.co''), (''data'', JObj [(''guid'', JStr ''chat1'')])]), w\<lparr>pw_log := pw_log w @ [(PParticipant ''g'' ''a@b.co'', True)]\<rparr>)" for w
    by (simp add: on_photon_def add_participant_def example_penv_def numeral_3_eq_3 io_bind_def ask_def answer_data_def data_of_def a io_of_def)
  have "utext ''hey'' \<noteq> []" by code_simp
  then have s: "on_photon (send_message_to_chat (pe_retry ?e) (pe_srv ?e) ''g'' (utext ''hey'') None None) w
      = (Inr (JObj [(''data'', JObj [(''guid'', JStr ''chat1'')])]), w\<lparr>pw_log := pw_log w @ [(PText ''g'' (utext ''hey'') (or_null None) (or_null None) False, True)]\<rparr>)" for w
    by (simp add: on_photon_def send_message_to_chat_def example_penv_def numeral_3_eq_3 io_bind_def ask_def answer_data_def data_of_def io_of_def)
  have i: "pe_intro (example_penv True) = Inr ''hey''" by (simp add: example_penv_def)
  show ?thesis
    by (simp add: add_participant_to_group_def guarded_def io_lift_def io_catch_def io_bind_def group_send_def p s i Let_def)
qed

definition chat_req :: "conn_status \<Rightarrow> conn_req" where
  "chat_req st = (sample_req st)\<lparr>cr_group_chat_guid := Some ''g''\<rparr>"

definition chat_town :: "conn_status \<Rightarrow> town mgr" where
  "chat_town st = \<lparr>mg_db = \<lparr>tn_world = \<lparr>w_reqs = \<lparr>mt_rows = [chat_req st], mt_down = False\<rparr>, w_states = \<lparr>mt_rows = [], mt_down = False\<rparr>\<rparr>,
     tn_group = example_pworld, tn_stored = []\<rparr>, mg_cache = Map.empty\<rparr>"

lemma chat_rows: "t_rtbl (mg_db (chat_town st)) = [sample_id \<mapsto> chat_req st]"
  by (simp add: chat_town_def chat_req_def mem_eval)

lemma chat_find: "find_request example_services sample_id (chat_town st) = (Inr (Some (chat_req st)), chat_town st)"
proof -
  have "tb_select t_rapi (\<lambda>r. cr_id r = sample_id) (mg_db (chat_town st)) = (Inr [chat_req st], mg_db (chat_town st))"
    by (simp add: chat_town_def chat_req_def mem_eval)
  from tw.find_read [OF this] show ?thesis using chat_rows by (simp add: chat_town_def)
qed

lemma added_without_consent_witness:
  "\<exists>data. fst (expand_group_chat example_services 9 sample_id (chat_town CTargetDeclined)) = Inr data
    \<and> t_rtbl (mg_db (snd (expand_group_chat example_services 9 sample_id (chat_town CTargetDeclined)))) = [sample_id \<mapsto> chat_req CTargetDeclined]"
proof -
  let ?r = "chat_req CTargetDeclined" and ?m = "chat_town CTargetDeclined"
  have r: "cr_group_chat_guid ?r = Some ''g''" "cr_status ?r \<noteq> CTargetAccepted" "cr_status ?r \<noteq> CGroupCreated" "cr_target ?r \<noteq> []" "cr_target ?r = ''t''"
    by (simp_all add: chat_req_def)
  have u: "te_users example_tenv (cr_target ?r) = Some (the (te_users example_tenv ''t''))" "tu_phone (the (te_users example_tenv ''t'')) = Some ''a@b.co''"
    unfolding r(5) by simp_all
  have n: "''g'' \<noteq> []" "''a@b.co'' \<noteq> []" by simp_all
  have "te_group example_tenv = example_penv True" "tn_group (mg_db ?m) = example_pworld" by (simp_all add: chat_town_def)
  then obtain g where g: "add_participant_to_group (te_group example_tenv) ''g'' (cr_target ?r) ''a@b.co'' (Some (cr_id ?r)) (tn_group (mg_db ?m)) = (Inr (), g)"
    using example_join [of "cr_target ?r" "Some (cr_id ?r)"] by (metis prod.collapse)
  from added_without_consent [OF valid_sample_id chat_find r(1) n(1) r(2,3,4) u n(2) g, of 9] show ?thesis
    unfolding chat_rows by blast
qed

lemma all_tools_move_requests_forward_witness:
  "\<exists>q'. t_rtbl (mg_db (snd (expand_group_chat example_services 9 sample_id (chat_town CTargetDeclined)))) sample_id = Some q'
    \<and> cr_target q' = ''t'' \<and> cr_status q' = CTargetDeclined"
proof -
  let ?m = "chat_town CTargetDeclined"
  have m: "\<lparr>mg_db = mg_db x, mg_cache = mg_cache x\<rparr> = x" for x :: "town mgr" by simp
  have "expand_call example_services example_chats \<lparr>mg_db = mg_db ?m, mg_cache = mg_cache ?m\<rparr> (snd (expand_group_chat example_services 9 sample_id ?m))"
    unfolding m by (rule expand_call.intros(6))
  from expand_step [OF expand_none this]
  have run: "expand_run example_services example_chats (mg_db ?m) (mg_db (snd (expand_group_chat example_services 9 sample_id ?m)))" .
  have q: "t_rtbl (mg_db ?m) sample_id = Some (chat_req CTargetDeclined)" by (simp add: chat_rows)
  from all_tools_move_requests_forward [OF tc.chat_store_axioms run q] show ?thesis by (auto simp: chat_req_def)
qed

lemma search_leaves_out_the_chat_witness:
  "\<exists>excluded v. fst (group_limits example_services example_chats (Some ''g'') (chat_town CPendingTargetApproval)) = Inr (excluded, v)
    \<and> set excluded = {''t''}"
proof -
  let ?m = "chat_town CPendingTargetApproval"
  have members: "sv_members example_services ''g'' (mg_db ?m) = (Inr [], mg_db ?m)"
    by (simp add: town_services_def group_read_def get_group_chat_participants_def chat_town_def example_pworld_def)
  have sel: "tb_select t_rapi P (mg_db ?m) = (Inr (filter P [chat_req CPendingTargetApproval]), mg_db ?m)" for P
    by (simp add: chat_town_def mem_eval)
  have "\<exists>x m'. group_limits example_services example_chats (Some ''g'') ?m = (Inr x, m')"
    by (simp add: group_limits_def io_catch_def io_bind_def split: prod.splits sum.splits)
  then obtain excluded v m' where l: "group_limits example_services example_chats (Some ''g'') ?m = (Inr (excluded, v), m')" by fastforce
  let ?C = "\<lambda>u r. cr_target r = u \<and> cr_group_chat_guid r = Some ''g'' \<and> active_status (cr_status r)"
  have g: "''g'' \<noteq> []" by simp
  have "set excluded = {u. u \<noteq> [] \<and> (u \<in> set [] \<or> (\<exists>r \<in> ran (t_rtbl (mg_db ?m)). ?C u r))}"
    by (rule search_leaves_out_the_chat [OF tc.chat_store_axioms members g sel l])
  moreover have "ran (t_rtbl (mg_db ?m)) = {chat_req CPendingTargetApproval}" unfolding chat_rows by simp
  ultimately have "set excluded = {u. u \<noteq> [] \<and> ?C u (chat_req CPendingTargetApproval)}" by (simp only: bex_simps simp_thms list.set empty_iff)
  then have "set excluded = {''t''}" by (auto simp: chat_req_def active_status_def)
  with l show ?thesis by simp
qed


definition match_tenv :: tenv where
  "match_tenv = example_tenv\<lparr>te_matches := [\<lparr>fd_success = True, fd_error = None, fd_target = ''t'', fd_name = ''Ben'', fd_phone = None, fd_score = 1,
     fd_reasons = [], fd_introduction = None, fd_concern = None, fd_details = []\<rparr>]\<rparr>"

definition empty_town :: "town mgr" where
  "empty_town = \<lparr>mg_db = \<lparr>tn_world = \<lparr>w_reqs = \<lparr>mt_rows = [], mt_down = False\<rparr>, w_states = \<lparr>mt_rows = [], mt_down = False\<rparr>\<rparr>,
     tn_group = example_pworld, tn_stored = []\<rparr>, mg_cache = Map.empty\<rparr>"

abbreviation example_search :: "town mgr" where
  "example_search \<equiv> snd (expand_find_multi (town_services match_tenv) 9 ''grp'' example_uuid [(''id'', JStr example_uuid)] ''tennis'' 3 None None empty_town)"

abbreviation example_row :: conn_req where
  "example_row \<equiv> request_row 9 example_uuid ''t'' (Some 1) (Some []) None None None (Some ''grp'') True 1 (Some ''tennis'') None (fresh_key [])"

lemma bind_first: "m s = (Inr x, s1) \<Longrightarrow> \<exists>s'. f x s1 = (Inr y, s') \<Longrightarrow> \<exists>s'. io_bind m f s = (Inr y, s')"
  by (auto simp: io_bind_def)

definition example_match :: match_result where
  "example_match = \<lparr>mr_target_user_id = ''t'', mr_target_name = ''Ben'', mr_match_score = 1,
      mr_matching_reasons = [], mr_llm_introduction = None, mr_llm_concern = None\<rparr>"

lemma example_created_row:
  "\<exists>m'. create_request t_rapi t_sapi 9 example_uuid example_match None (Some ''grp'') True 1 (Some ''tennis'') None empty_town = (Inr example_row, m')"
proof -
  have c: "\<exists>s1. on_db (create_connection_request t_rapi 9 example_uuid ''t'' (Some 1) (Some []) None None None (Some ''grp'') True 1 (Some ''tennis'') None) empty_town
      = (Inr example_row, s1)"
    by (simp add: create_connection_request_def empty_town_def io_bind_def on_db_def mem_eval first_row_def io_lift_def io_catch_def)
  then obtain s1 where c: "on_db (create_connection_request t_rapi 9 example_uuid ''t'' (Some 1) (Some []) None None None (Some ''grp'') True 1 (Some ''tennis'') None) empty_town
      = (Inr example_row, s1)" by blast
  have t: "\<exists>s2. io_catch m (\<lambda>_. io_return ()) s1 = ((Inr () :: conn_error + unit), s2)" for m :: "(town mgr, flow_error, unit) io"
    using catch_returns [of m "()" s1] by simp
  show ?thesis
    unfolding create_request_def
  proof (rule bind_first)
    show "on_db (create_connection_request t_rapi 9 example_uuid (mr_target_user_id example_match) (Some (mr_match_score example_match)) (Some (mr_matching_reasons example_match))
        (mr_llm_introduction example_match) (mr_llm_concern example_match) None (Some ''grp'') True 1 (Some ''tennis'') None) empty_town = (Inr example_row, s1)"
      using c by (simp add: example_match_def)
    obtain s2 where "io_catch (io_bind (track_created t_sapi 9 example_uuid (cr_id example_row) example_match True (Some ''tennis'')) (\<lambda>_. io_return ())) (\<lambda>_. io_return ()) s1
        = ((Inr () :: conn_error + unit), s2)" using t by blast
    then show "\<exists>s'. io_bind (io_catch (io_bind (track_created t_sapi 9 example_uuid (cr_id example_row) example_match True (Some ''tennis'')) (\<lambda>_. io_return ()))
        (\<lambda>_. io_return ())) (\<lambda>_. if True \<and> Some ''grp'' = None then io_raise MissingSignalGroup else io_return example_row) s1 = (Inr example_row, s')"
      by (simp add: io_bind_def)
  qed
qed


lemma example_search_row: "t_rtbl (mg_db example_search) (fresh_key []) = Some example_row"
proof -
  let ?S = "town_services match_tenv"
  let ?f = "\<lparr>fd_success = True, fd_error = None, fd_target = ''t'', fd_name = ''Ben'', fd_phone = None, fd_score = 1,
     fd_reasons = [], fd_introduction = None, fd_concern = None, fd_details = []\<rparr>"
  have s: "sv_reqs ?S = t_rapi" "sv_states ?S = t_sapi" "sv_interpret ?S x = None" "sv_demands ?S u = io_return None" "sv_profile ?S u d = io_return ()"
    "sv_derive ?S u h = io_return ()" "sv_matches ?S u us t n = io_return [?f]" for u d h us t n x
    by (simp_all add: town_services_def match_tenv_def)
  have v: "validate_and_repair_user_id example_uuid [(''id'', JStr example_uuid)] = Inr example_uuid" by code_simp
  have p: "persist_demand ?S 9 u ''tennis'' m = (Inr (), m)" for u m
    by (simp add: persist_demand_def quietly_def io_catch_def io_bind_def on_db_def s recent_demands_def store_demand_def Let_def)
  have mt: "match_of ?f = example_match" by (simp add: match_of_def example_match_def)
  obtain m' where c: "create_request t_rapi t_sapi 9 example_uuid example_match None (Some ''grp'') True 1 (Some ''tennis'') None empty_town = (Inr example_row, m')"
    using example_created_row by blast
  have i: "cr_id example_row = fresh_key []" by (simp add: request_row_def Let_def)
  have "example_search = m'"
    by (simp add: expand_find_multi_def v tool_try_def io_bind_def p on_db_def s Let_def mt c io_catch_def answer_def split: prod.splits)
  moreover have "t_rtbl (mg_db m') (fresh_key []) = Some example_row" using tool_store.created_pending [OF tw.tool_store_axioms c] i by simp
  ultimately show ?thesis by simp
qed

lemma several_matches_have_no_chat_witness:
  "cr_group_chat_guid example_row = None
    \<and> (\<exists>err. fst (expand_confirm_and_send (town_services match_tenv) (town_chats match_tenv (\<lambda>_. None)) 11 (fresh_key []) ''Ann'' example_search) = Inl err)"
proof -
  have "t_rtbl (mg_db empty_town) (fresh_key []) = None" by (simp add: empty_town_def mem_tbl_def rows_map_def)
  from several_matches_have_no_chat [OF tc.chat_store_axioms this example_search_row] show ?thesis .
qed

end
