(* ===== verification/Execution_Agent.thy ===== *)
theory Execution_Agent
  imports Tool_Inputs Demand_History
begin

text \<open>
  The execution agent, app/agents/execution/agent.py: a loop that asks the language model for the next action,
  checks the action against the flow, runs the tool and remembers what came of it. The language model, the
  reader of JSON and the tools are parameters; a tool changes a world of any type. With it the
  memory of an execution (app/agents/memory/execution.py), the results of tools (app/agents/tools/base.py)
  and of executions (app/agents/execution/state.py).
\<close>

section \<open>Requests in plain words\<close>

definition or_text :: "(json \<Rightarrow> string) \<Rightarrow> json option \<Rightarrow> string" where
  "or_text pystr v = (if json_truthy v then (case v of Some (JStr s) \<Rightarrow> s | Some x \<Rightarrow> pystr x | None \<Rightarrow> []) else [])"

text \<open>Lower case, everything but letters, digits and blanks as blanks, runs of blanks as one, stripped\<close>

definition plain_char :: "char \<Rightarrow> bool" where
  "plain_char c \<longleftrightarrow> is_lower_ascii c \<or> is_digit c \<or> py_space c"

definition plain_text :: "string \<Rightarrow> string" where
  "plain_text s = py_strip (sub_runs py_space (CHR '' '') (map (\<lambda>c. if plain_char c then c else CHR '' '') (py_lower s)))"

definition plain_words :: "string \<Rightarrow> string list" where
  "plain_words s = words_by (\<lambda>c. c = CHR '' '') (plain_text s)"

definition derive_case_a_networking_demand :: "(json \<Rightarrow> string) \<Rightarrow> dict \<Rightarrow> string" where
  "derive_case_a_networking_demand pystr d =
     (let selected = coerce_text pystr (map_of d ''selected_purpose'');
          single = (case map_of d ''confirmed_purposes'' of Some (JList [x]) \<Rightarrow> coerce_text pystr (Some x) | _ \<Rightarrow> []);
          instruction = coerce_text pystr (map_of d ''instruction'')
      in if selected \<noteq> [] then selected
         else if single \<noteq> [] then single
         else if py_lower instruction \<in> {''confirm_purposes'', ''confirm_and_create_multi_match''} then []
         else instruction)"

definition decline_phrases :: "string list" where
  "decline_phrases = [''decline'', ''declines'', ''declined'', ''reject'', ''rejects'', ''rejected'', ''cancel'', ''cancels'', ''cancelled'',
     ''canceled'', ''not now'', ''pass'', ''skip'', ''never mind'', ''nevermind'', ''nah'', ''nope'']"

definition networking_instruction_has_decline_intent :: "(json \<Rightarrow> string) \<Rightarrow> dict \<Rightarrow> bool" where
  "networking_instruction_has_decline_intent pystr d =
     (let instruction = or_text pystr (map_of d ''instruction'') in
      instruction \<noteq> [] \<and> (list_ex (\<lambda>p. contains_str p (plain_text instruction)) decline_phrases \<or> ''no'' \<in> set (plain_words instruction)))"

text \<open>\<open>anyone in x\<close>, \<open>someone who x\<close>: a word after the second\<close>

definition names_criterion :: "string list \<Rightarrow> bool" where
  "names_criterion ws \<longleftrightarrow> list_ex (\<lambda>i. ws ! i \<in> {''anyone'', ''someone''} \<and> ws ! Suc i \<in> {''in'', ''with'', ''who''}) [0..<length ws - 2]"

definition specific_signals :: "string list" where
  "specific_signals = [''for '', ''who '', ''about '', ''mentor'', ''teammate'', ''hackathon'', ''study'', ''machine learning'', ''startup'',
     ''founder'', ''cofounder'', ''interview'', ''pm '', ''engineer'']"

definition uncertainty_patterns :: "string list" where
  "uncertainty_patterns = [''not sure'', ''idk'', ''i dont know'', ''maybe anyone'', ''anyone interesting'', ''whoever'', ''whatever'',
     ''surprise me'', ''open to anything'', ''anything works'']"

definition generic_patterns :: "string list list" where
  "generic_patterns = [[''connect'', ''me''], [''find'', ''me''], [''find'', ''someone''], [''meet'', ''someone''], [''help'', ''me'', ''network''],
     [''network'', ''for'', ''me''], [''want'', ''to'', ''meet'', ''someone'']]"

definition is_generic_networking_request :: "string \<Rightarrow> bool" where
  "is_generic_networking_request t =
     (let normalized = plain_text t; ws = plain_words t in
      normalized \<noteq> [] \<and> \<not> names_criterion ws \<and> \<not> list_ex (\<lambda>s. contains_str s normalized) specific_signals
      \<and> (list_ex (\<lambda>p. contains_str p normalized) uncertainty_patterns \<or> list_ex (\<lambda>p. contains_str p ws) generic_patterns))"

text \<open>\<open>ask\<close> is a call of the language model, which answers or raises; \<open>loads\<close> is \<open>json.loads\<close>, None when it raises.\<close>

definition flow_of_answer :: "(string \<Rightarrow> json option) \<Rightarrow> string \<Rightarrow> string" where
  "flow_of_answer loads response =
     (case loads (strip_fences response) of
        Some (JObj r) \<Rightarrow> if get_or r ''flow'' (JStr ''specific'') \<in> {JStr ''vague'', JStr ''email''} then ''purpose_suggestion'' else ''direct_match''
      | _ \<Rightarrow> ''direct_match'')"

definition detect_networking_flow ::
  "(json \<Rightarrow> string) \<Rightarrow> (string \<Rightarrow> json option) \<Rightarrow> (string \<Rightarrow> 'w \<Rightarrow> (string + string) \<times> 'w) \<Rightarrow> dict \<Rightarrow> string \<Rightarrow> 'w \<Rightarrow> string \<times> 'w" where
  "detect_networking_flow pystr loads ask d user_message w =
     (let instruction = or_text pystr (map_of d ''instruction''); raw = py_strip user_message; message = (if raw = [] then instruction else raw) in
      if raw \<noteq> [] \<and> list_ex (\<lambda>t. contains_str t (py_lower message)) [''email'', ''emails'', ''inbox''] then (''purpose_suggestion'', w)
      else if raw \<noteq> [] \<and> is_generic_networking_request message then (''purpose_suggestion'', w)
      else if json_truthy (map_of d ''confirmed_purposes'') then (''purpose_confirmation'', w)
      else if json_truthy (map_of d ''selected_purpose'') then (''direct_match'', w)
      else (case ask instruction w of (Inl e, w') \<Rightarrow> (''direct_match'', w') | (Inr response, w') \<Rightarrow> (flow_of_answer loads response, w')))"

section \<open>The repair of JSON\<close>

text \<open>A comma before a closing bracket is dropped, with the blanks between them.\<close>

function drop_trailing_commas :: "string \<Rightarrow> string" where
  "drop_trailing_commas [] = []"
| "drop_trailing_commas (c # cs) =
     (if c = CHR '','' \<and> dropWhile py_space cs \<noteq> [] \<and> hd (dropWhile py_space cs) \<in> {CHR ''}'', CHR '']''}
      then drop_trailing_commas (dropWhile py_space cs) else c # drop_trailing_commas cs)"
  by pat_completeness auto
termination by (relation "measure length") (simp_all add: le_imp_less_Suc length_dropWhile_le)

text \<open>\<open>lead\<close> says how many characters a text starts with that end a value, 0 for none. When they, blanks with a line break and
the character \<open>q\<close> follow each other, a comma is put in; of the blanks the indentation stays, or nothing.\<close>

definition indentation :: "string \<Rightarrow> string" where
  "indentation w = rev (takeWhile (\<lambda>c. c \<noteq> CHR 0x0A) (rev w))"

lemma length_dropWhile_tl: "dropWhile p s \<noteq> [] \<Longrightarrow> length (tl (dropWhile p s)) < length s"
  using length_dropWhile_le [of p s] by (cases "dropWhile p s") auto

function sub_gap :: "(string \<Rightarrow> nat) \<Rightarrow> char \<Rightarrow> bool \<Rightarrow> string \<Rightarrow> string" where
  "sub_gap lead q keep [] = []"
| "sub_gap lead q keep (c # cs) =
     (let n = lead (c # cs); rest = drop n (c # cs); w = takeWhile py_space rest; after = dropWhile py_space rest in
      if 0 < n \<and> CHR 0x0A \<in> set w \<and> after \<noteq> [] \<and> hd after = q
      then take n (c # cs) @ [CHR '','', CHR 0x0A] @ (if keep then indentation w else []) @ [q] @ sub_gap lead q keep (tl after)
      else c # sub_gap lead q keep cs)"
  by pat_completeness auto
termination
proof (relation "measure (\<lambda>(lead, q, keep, s). length s)", goal_cases)
  case (2 lead q keep c cs n rest w after)
  then have "length (tl after) < length rest" using length_dropWhile_tl [of py_space rest] by blast
  also have "length rest \<le> length (c # cs)" using 2 by simp
  finally show ?case by simp
qed simp_all

definition starts_in :: "char list \<Rightarrow> string \<Rightarrow> nat" where
  "starts_in cs s = (case s of [] \<Rightarrow> 0 | c # _ \<Rightarrow> if c \<in> set cs then 1 else 0)"

definition starts_digit :: "string \<Rightarrow> nat" where
  "starts_digit s = (case s of [] \<Rightarrow> 0 | c # _ \<Rightarrow> if is_digit c then 1 else 0)"

definition starts_constant :: "string \<Rightarrow> nat" where
  "starts_constant s = (if starts_with ''true'' s then 4 else if starts_with ''false'' s then 5 else if starts_with ''null'' s then 4 else 0)"

definition quote :: char where
  "quote = CHR 0x22"

text \<open>From the first comma on that is followed by a last incomplete pair of key and value\<close>

definition incomplete_pair :: "string \<Rightarrow> bool" where
  "incomplete_pair s =
     (let a = dropWhile py_space s in a \<noteq> [] \<and> hd a = quote \<and>
      (let b = dropWhile (\<lambda>c. c \<noteq> quote) (tl a) in b \<noteq> [] \<and>
       (let d = dropWhile py_space (tl b) in d \<noteq> [] \<and> hd d = CHR '':'' \<and> list_all (\<lambda>c. c \<notin> {CHR '','', CHR ''}'', CHR '']''}) (tl d))))"

fun drop_incomplete :: "string \<Rightarrow> string" where
  "drop_incomplete [] = []"
| "drop_incomplete (c # cs) = (if c = CHR '','' \<and> incomplete_pair cs then [] else c # drop_incomplete cs)"

definition close_text :: "string \<Rightarrow> string" where
  "close_text s =
     (let braces = count_list s CHR ''{'' - count_list s CHR ''}''; brackets = count_list s CHR ''['' - count_list s CHR '']'' in
      if 0 < braces \<or> 0 < brackets
      then rstrip_by (\<lambda>c. c = CHR '','') (rstrip_by py_space (drop_incomplete s)) @ replicate brackets CHR '']'' @ replicate braces CHR ''}''
      else s)"

definition repair_text :: "string \<Rightarrow> string" where
  "repair_text s =
     close_text (sub_gap (starts_in ''}'') CHR ''{'' True
       (sub_gap starts_constant quote True
         (sub_gap starts_digit quote True
           (sub_gap (starts_in [quote]) quote True
             (sub_gap (starts_in ''}]'') quote False
               (sub_gap (starts_in [quote]) quote False (drop_trailing_commas s)))))))"

definition attempt_json_repair :: "(string \<Rightarrow> json option) \<Rightarrow> string \<Rightarrow> string option" where
  "attempt_json_repair loads s =
     (if s = [] then None else case loads (repair_text s) of None \<Rightarrow> None | Some _ \<Rightarrow> Some (repair_text s))"

section \<open>Actions\<close>

text \<open>A name and parameters are what the model wrote, which need not be a text and an object.\<close>

datatype xaction =
    UseTool json json
  | Complete json json json
  | WaitForUser json json

text \<open>\<open>Inl v\<close>: the value \<open>v\<close> is no object, so that \<open>v.get\<close> raises.\<close>

definition action_of :: "json \<Rightarrow> json + (json \<times> xaction)" where
  "action_of data =
     (case data of
        JObj d \<Rightarrow>
          (case get_or d ''action'' (JObj []) of
             JObj a \<Rightarrow>
               Inr (get_or d ''thought'' (JStr ''No thought provided''),
                 (let kind = get_or a ''type'' (JStr ''complete'') in
                  if kind = JStr ''tool'' then UseTool (get_or a ''name'' JNull) (get_or a ''params'' (JObj []))
                  else if kind = JStr ''wait_for_user'' then WaitForUser (get_or a ''waiting_for'' JNull) (get_or a ''data'' (JObj []))
                  else Complete (get_or a ''summary'' JNull) (get_or a ''data'' (JObj [])) (get_or a ''result'' JNull)))
           | v \<Rightarrow> Inl v)
      | v \<Rightarrow> Inl v)"

definition awaited :: "string \<Rightarrow> string" where
  "awaited lower =
     (if contains_str ''multi_match_confirmation'' lower then ''multi_match_confirmation''
      else if contains_str ''match_confirmation'' lower then ''match_confirmation''
      else if contains_str ''purpose_selection'' lower then ''purpose_selection'' else ''unknown'')"

definition unreadable :: "(string \<Rightarrow> string) \<Rightarrow> string \<Rightarrow> json \<times> xaction" where
  "unreadable loads_error response =
     (let data = JObj [(''parse_error'', JStr (loads_error (strip_fences response))), (''raw_response'', JStr (take 500 response))] in
      (JStr (take 200 response),
       if contains_str ''wait_for_user'' (py_lower response) then WaitForUser (JStr (awaited (py_lower response))) data
       else Complete (JStr ''Failed to parse LLM response'') data JNull))"

definition parse_reasoning_response ::
  "(string \<Rightarrow> json option) \<Rightarrow> (string \<Rightarrow> string) \<Rightarrow> string \<Rightarrow> json + (json \<times> xaction)" where
  "parse_reasoning_response loads loads_error response =
     (case loads (strip_fences response) of
        Some data \<Rightarrow> action_of data
      | None \<Rightarrow>
          (case attempt_json_repair loads (strip_fences response) of
             Some repaired \<Rightarrow>
               (if repaired = [] then Inr (unreadable loads_error response)
                else case loads repaired of Some data \<Rightarrow> action_of data | None \<Rightarrow> Inr (unreadable loads_error response))
           | None \<Rightarrow> Inr (unreadable loads_error response)))"

section \<open>Results of tools\<close>

record tool_result =
  tr_success :: bool
  tr_data :: json
  tr_error :: "string option"

definition py_text :: "(json \<Rightarrow> string) \<Rightarrow> json \<Rightarrow> string" where
  "py_text pystr j = (case j of JStr s \<Rightarrow> s | x \<Rightarrow> pystr x)"

definition to_observation :: "(json \<Rightarrow> string) \<Rightarrow> nat \<Rightarrow> tool_result \<Rightarrow> string" where
  "to_observation pystr max_length r =
     (if tr_success r
      then if tr_data r = JNull then ''Action completed successfully.''
           else let result = py_text pystr (tr_data r) in
                if max_length < length result
                then take max_length result @ ''... [truncated, '' @ str_nat (length result) @ '' chars total]'' else result
      else ''Error: '' @ (case tr_error r of None \<Rightarrow> ''None'' | Some e \<Rightarrow> e))"

section \<open>The memory of an execution\<close>

record scratch_entry =
  se_kind :: string
  se_content :: json
  se_meta :: dict

record xmemory =
  m_pad :: "scratch_entry list"
  m_context :: dict
  m_iter :: nat
  m_task :: string
  m_results :: dict

definition new_memory :: "dict \<Rightarrow> string \<Rightarrow> xmemory" where
  "new_memory ctx task = \<lparr>m_pad = [], m_context = ctx, m_iter = 0, m_task = task, m_results = []\<rparr>"

definition add_thought :: "json \<Rightarrow> xmemory \<Rightarrow> xmemory" where
  "add_thought thought m = m\<lparr>m_pad := m_pad m @ [\<lparr>se_kind = ''thought'', se_content = thought, se_meta = []\<rparr>]\<rparr>"

definition add_observation :: "string \<Rightarrow> xmemory \<Rightarrow> xmemory" where
  "add_observation t m = m\<lparr>m_pad := m_pad m @ [\<lparr>se_kind = ''observation'', se_content = JStr t, se_meta = []\<rparr>]\<rparr>"

definition add_action :: "(json \<Rightarrow> string) \<Rightarrow> string \<Rightarrow> json \<Rightarrow> json \<Rightarrow> dict \<Rightarrow> xmemory \<Rightarrow> xmemory" where
  "add_action pystr kind name params meta m =
     (let content = (if json_truthy (Some name)
        then kind @ '': '' @ py_text pystr name @ (if json_truthy (Some params) then '' with '' @ py_text pystr params else [])
        else kind)
      in m\<lparr>m_pad := m_pad m @ [\<lparr>se_kind = ''action'', se_content = JStr content,
            se_meta = [(''action_type'', JStr kind), (''tool_name'', name), (''params'', params)] @ meta\<rparr>]\<rparr>)"

definition last_of_kind :: "string \<Rightarrow> xmemory \<Rightarrow> json option" where
  "last_of_kind kind m = map_option se_content (find (\<lambda>x. se_kind x = kind) (rev (m_pad m)))"

definition capitalize :: "string \<Rightarrow> string" where
  "capitalize s = (case s of [] \<Rightarrow> [] | c # cs \<Rightarrow> (if is_lower_ascii c then char_of (of_char c - 32 :: nat) else c) # py_lower cs)"

definition nl :: string where
  "nl = [CHR 0x0A]"

definition get_scratchpad_text :: "(json \<Rightarrow> string) \<Rightarrow> nat \<Rightarrow> xmemory \<Rightarrow> string" where
  "get_scratchpad_text pystr max_entries m =
     join_str nl (map (\<lambda>x. capitalize (se_kind x) @ '': '' @ py_text pystr (se_content x))
       (drop (length (m_pad m) - max_entries) (m_pad m)))"

definition get_thoughts_only :: "xmemory \<Rightarrow> json list" where
  "get_thoughts_only m = map se_content (filter (\<lambda>x. se_kind x = ''thought'') (m_pad m))"

definition get_actions_only :: "xmemory \<Rightarrow> dict list" where
  "get_actions_only m = map se_meta (filter (\<lambda>x. se_kind x = ''action'' \<and> se_meta x \<noteq> []) (m_pad m))"

definition increment_iteration :: "xmemory \<Rightarrow> xmemory" where
  "increment_iteration m = m\<lparr>m_iter := Suc (m_iter m)\<rparr>"

definition store_result :: "string \<Rightarrow> json \<Rightarrow> xmemory \<Rightarrow> xmemory" where
  "store_result k v m = m\<lparr>m_results := put_key k v (m_results m)\<rparr>"

definition get_result :: "string \<Rightarrow> json \<Rightarrow> xmemory \<Rightarrow> json" where
  "get_result k v m = get_or (m_results m) k v"

section \<open>The log of an execution\<close>

datatype taken =
    Blocked json string
  | NotFound json string
  | Called json bool string json

fun taken_tool :: "taken \<Rightarrow> json" where
  "taken_tool (Blocked n e) = n"
| "taken_tool (NotFound n e) = n"
| "taken_tool (Called n ok summary params) = n"

fun taken_success :: "taken \<Rightarrow> bool" where
  "taken_success (Called n ok summary params) = ok"
| "taken_success t = False"

fun taken_json :: "taken \<Rightarrow> json" where
  "taken_json (Blocked n e) = JObj [(''tool_name'', n), (''success'', JBool False), (''error'', JStr e), (''blocked_by'', JStr ''flow_enforcement'')]"
| "taken_json (NotFound n e) = JObj [(''tool_name'', n), (''success'', JBool False), (''error'', JStr e)]"
| "taken_json (Called n ok summary params) =
     JObj [(''tool_name'', n), (''success'', JBool ok), (''result_summary'', JStr summary), (''params'', params)]"

fun taken_summary :: "taken \<Rightarrow> string" where
  "taken_summary (Called n ok summary params) = summary"
| "taken_summary t = []"

definition summarize_actions :: "(json \<Rightarrow> string) \<Rightarrow> taken list \<Rightarrow> string" where
  "summarize_actions pystr ts =
     (if ts = [] then ''No actions taken.''
      else join_str nl (map (\<lambda>t. ''- '' @ py_text pystr (taken_tool t) @ '': '' @ (if taken_success t then ''succeeded'' else ''failed'')
             @ (if taken_summary t = [] then [] else '' ('' @ taken_summary t @ '')'')) ts))"

definition match_tools :: "json list" where
  "match_tools = [JStr ''find_match'', JStr ''find_multi_matches'']"

definition match_called :: "taken list \<Rightarrow> bool" where
  "match_called ts \<longleftrightarrow> list_ex (\<lambda>t. taken_tool t \<in> set match_tools) ts"

definition match_succeeded :: "taken list \<Rightarrow> bool" where
  "match_succeeded ts \<longleftrightarrow> list_ex (\<lambda>t. taken_tool t \<in> set match_tools \<and> taken_success t) ts"

section \<open>The rules of the flow\<close>

text \<open>
  What may be raised on the way, each with the value it is raised for; the message is a parameter of the agent.
\<close>

datatype xraise =
    NotSubscriptable json
  | NoAttribute json
  | NotIterable json
  | NotMapping json
  | NoResult

text \<open>A rule stops with an exception, blocks the call with a message, or lets it pass with parameters it may have changed.\<close>

datatype verdict =
    Stop xraise
  | Block string
  | Pass json

fun and_then :: "verdict \<Rightarrow> (json \<Rightarrow> verdict) \<Rightarrow> verdict" where
  "and_then (Pass p) f = f p"
| "and_then v f = v"

definition loop_instruction :: "dict \<Rightarrow> json + dict" where
  "loop_instruction ctx =
     (let v = get_or ctx ''task_instruction'' (JObj []) in
      if \<not> json_truthy (Some v) then Inr [] else (case v of JObj d \<Rightarrow> Inr d | _ \<Rightarrow> Inl v))"

definition case_is :: "dict \<Rightarrow> char \<Rightarrow> bool" where
  "case_is d c \<longleftrightarrow> (case get_or d ''case'' (JStr []) of JStr s \<Rightarrow> s \<in> {[c], [lower_char c]} | _ \<Rightarrow> False)"

definition quoted :: "string \<Rightarrow> string" where
  "quoted s = [CHR 0x27] @ s @ [CHR 0x27]"

definition suggestion_rule :: "taken list \<Rightarrow> json \<Rightarrow> json \<Rightarrow> verdict" where
  "suggestion_rule ts name params =
     (if name = JStr ''suggest_connection_purposes'' \<and> match_called ts \<and> \<not> match_succeeded ts
      then Block (''FLOW BLOCKED: Direct matching (find_match/find_multi_matches) was already called and returned no matches. '' @
             ''For specific demands, you MUST return complete with action_taken=''
             @ quoted ''no_matches_found'' @ ''. Do NOT fall back to purpose suggestion.'')
      else Pass params)"

definition profile_rule :: "dict \<Rightarrow> json \<Rightarrow> json \<Rightarrow> verdict" where
  "profile_rule ctx name params =
     (let profile = get_or ctx ''user_profile'' (JObj []) in
      if name \<notin> set match_tools \<or> \<not> json_truthy (Some profile) then Pass params
      else case params of
          JObj p \<Rightarrow> (case profile of JObj _ \<Rightarrow> Pass (JObj (put_key ''user_profile'' profile p)) | _ \<Rightarrow> Stop (NoAttribute profile))
        | _ \<Rightarrow> Stop (NotSubscriptable params))"

definition demand_key :: "json \<Rightarrow> string" where
  "demand_key name = (if name = JStr ''find_match'' then ''override_demand'' else ''signal_text'')"

definition demand_rule :: "(json \<Rightarrow> string) \<Rightarrow> string \<Rightarrow> dict \<Rightarrow> json \<Rightarrow> json \<Rightarrow> verdict" where
  "demand_rule pystr task ctx name params =
     (if name \<notin> set match_tools then Pass params
      else case loop_instruction ctx of
          Inl v \<Rightarrow> Stop (NoAttribute v)
        | Inr d \<Rightarrow>
            if task \<in> {''networking'', ''groupchat_networking''} \<and> case_is d CHR ''A''
            then (case params of
                JObj p \<Rightarrow>
                  (let key = demand_key name; explicit = derive_case_a_networking_demand pystr d;
                       p' = (if coerce_text pystr (map_of p key) = [] \<and> explicit \<noteq> [] then put_key key (JStr explicit) p else p)
                   in if coerce_text pystr (map_of p' key) = []
                      then Block (''FLOW BLOCKED: '' @ py_text pystr name @ '' called without explicit '' @ key @ '' for networking CASE A.'')
                      else Pass (JObj p'))
              | _ \<Rightarrow> Stop (NoAttribute params))
            else Pass params)"

definition vague_rule :: "dict \<Rightarrow> taken list \<Rightarrow> json \<Rightarrow> json \<Rightarrow> verdict" where
  "vague_rule ctx ts name params =
     (if name \<in> set match_tools \<and> map_of ctx ''detected_flow'' = Some (JStr ''purpose_suggestion'')
      then if list_ex (\<lambda>t. taken_tool t = JStr ''suggest_connection_purposes'') ts
        then Block (''FLOW BLOCKED: suggest_connection_purposes was just called. You MUST now return wait_for_user with waiting_for='' @ quoted ''purpose_selection''
               @ '' to let the user choose which purpose(s) to pursue. Do NOT call find_match until the user confirms their purpose selection in a SEPARATE message.'')
        else Block (''FLOW BLOCKED: Pre-analysis detected this as a VAGUE request. You MUST call suggest_connection_purposes first to suggest purposes '' @
               ''from Zep context. Do NOT call find_match directly for vague requests.'')
      else Pass params)"

definition invite_rule :: "(json \<Rightarrow> string) \<Rightarrow> dict \<Rightarrow> taken list \<Rightarrow> json \<Rightarrow> json \<Rightarrow> verdict" where
  "invite_rule pystr ctx ts name params =
     (if name \<noteq> JStr ''confirm_and_send_invitation'' then Pass params
      else case loop_instruction ctx of
          Inl v \<Rightarrow> Stop (NoAttribute v)
        | Inr d \<Rightarrow>
            if case_is d CHR ''B'' \<and> networking_instruction_has_decline_intent pystr d
            then Block ''FLOW BLOCKED: CASE B instruction indicates decline/cancel intent. Do NOT call confirm_and_send_invitation.''
            else if match_succeeded ts
            then Block (''FLOW BLOCKED: You cannot call confirm_and_send_invitation in the same execution as find_match/find_multi_matches. '' @
                   ''After finding matches, you MUST return wait_for_user with waiting_for='' @ quoted ''match_confirmation'' @ '' or '' @ quoted ''multi_match_confirmation''
                   @ '' to let the user confirm the matches first. The user will confirm in a SEPARATE message, ''
                   @ ''and ONLY THEN should confirm_and_send_invitation be called (in CASE B).'')
            else Pass params)"

definition answer_rule :: "dict \<Rightarrow> json \<Rightarrow> json \<Rightarrow> verdict" where
  "answer_rule ctx name params =
     (if name \<noteq> JStr ''target_responds'' then Pass params
      else case loop_instruction ctx of
          Inl v \<Rightarrow> Stop (NoAttribute v)
        | Inr d \<Rightarrow>
            if case_is d CHR ''C''
            then (case map_of d ''accept'' of
                Some (JBool accept) \<Rightarrow>
                  (case params of
                     JObj p \<Rightarrow>
                       (case map_of p ''accept'' of
                          None \<Rightarrow> Pass (JObj (put_key ''accept'' (JBool accept) p))
                        | Some v \<Rightarrow>
                            if json_truthy (Some v) \<noteq> accept
                            then Block ''FLOW BLOCKED: target_responds accept param contradicts CASE C task instruction.'' else Pass params)
                   | _ \<Rightarrow> Stop (NotIterable params))
              | _ \<Rightarrow> Pass params)
            else Pass params)"

definition flow_rules :: "(json \<Rightarrow> string) \<Rightarrow> string \<Rightarrow> dict \<Rightarrow> taken list \<Rightarrow> json \<Rightarrow> json \<Rightarrow> verdict" where
  "flow_rules pystr task ctx ts name params =
     and_then (suggestion_rule ts name params) (\<lambda>p.
       and_then (profile_rule ctx name p) (\<lambda>p.
         and_then (demand_rule pystr task ctx name p) (\<lambda>p.
           and_then (vague_rule ctx ts name p) (\<lambda>p.
             and_then (invite_rule pystr ctx ts name p) (answer_rule ctx name)))))"

section \<open>Tasks\<close>

record 'w xtool =
  tl_name :: string
  tl_description :: string
  tl_func :: "dict \<Rightarrow> 'w \<Rightarrow> (string + tool_result) \<times> 'w"
  tl_parameters :: dict

record 'w xtask =
  tk_name :: string
  tk_prompt :: string
  tk_tools :: "'w xtool list"
  tk_criteria :: string
  tk_max :: nat

definition get_tool :: "'w xtask \<Rightarrow> json \<Rightarrow> 'w xtool option" where
  "get_tool task name = find (\<lambda>t. JStr (tl_name t) = name) (tk_tools task)"

definition get_tool_names :: "'w xtask \<Rightarrow> string list" where
  "get_tool_names task = map tl_name (tk_tools task)"

definition to_llm_schema :: "'w xtool \<Rightarrow> json" where
  "to_llm_schema t = JObj [(''type'', JStr ''function''),
     (''function'', JObj [(''name'', JStr (tl_name t)), (''description'', JStr (tl_description t)), (''parameters'', JObj (tl_parameters t))])]"

definition to_llm_tools_schema :: "'w xtask \<Rightarrow> json" where
  "to_llm_tools_schema task = JList (map to_llm_schema (tk_tools task))"

definition instruction_section :: "(json \<Rightarrow> string) \<Rightarrow> dict \<Rightarrow> string" where
  \<open>instruction_section dumps ctx =
     (case map_of ctx ''task_instruction'' of
        Some v \<Rightarrow> if json_truthy (Some v)
          then join_str nl ['''', ''## YOUR TASK INSTRUCTION (from InteractionAgent)'', ''```json'', dumps v, ''```'',
            ''IMPORTANT: Follow the case and instruction above. Use task_instruction["instruction"] as input for tools that need the user'' @ [CHR 0x27] @ ''s request.'', '''']
          else []
      | None \<Rightarrow> [])\<close>

text \<open>The profile has to be an object.\<close>

definition profile_section :: "(json \<Rightarrow> string) \<Rightarrow> dict \<Rightarrow> json + string" where
  "profile_section pystr ctx =
     (case map_of ctx ''user_profile'' of
        None \<Rightarrow> Inr []
      | Some (JObj profile) \<Rightarrow>
          (let items = map (\<lambda>k. ''  - '' @ k @ '': '' @ py_text pystr (the (map_of profile k)))
             (filter (\<lambda>k. json_truthy (map_of profile k)) [''user_id'', ''name'', ''phone_number'', ''university'', ''latest_demand'', ''all_value''])
           in Inr (if items = [] then [] else nl @ ''## User Profile'' @ nl @ join_str nl items))
      | Some v \<Rightarrow> Inl v)"

definition context_section :: "(json \<Rightarrow> string) \<Rightarrow> dict \<Rightarrow> json + string" where
  "context_section pystr ctx =
     (case profile_section pystr ctx of
        Inl v \<Rightarrow> Inl v
      | Inr profile \<Rightarrow>
          (let others = filter (\<lambda>(k, v). k \<notin> {''task_instruction'', ''user_profile''}) ctx in
           Inr (profile @ (if others = [] then []
             else nl @ ''## Additional Context'' @ nl @ join_str nl (map (\<lambda>(k, v). ''- '' @ k @ '': '' @ py_text pystr v) others)))))"

definition prompt_rules :: "string list" where
  \<open>prompt_rules =
     [''## Instructions'', ''1. Think step by step about what action to take next'', ''2. Choose one tool to call with appropriate parameters'',
      ''3. Wait for the observation before deciding the next action'', ''4. When the task is complete, use the "complete" action'',
      ''5. If you need user input, use the "wait_for_user" action'', '''', ''Always respond with a JSON object containing:'',
      ''- "thought": Your reasoning about what to do next'', ''- "action": Either a tool call or special action'',
      ''  - Tool call: {"type": "tool", "name": "<tool_name>", "params": {...}}'',
      ''  - Complete: {"type": "complete", "result": {"response_text": "<message to send to user>"}}'',
      ''  - Wait for user: {"type": "wait_for_user", "message": "<message>", "waiting_for": "<state>"}'']\<close>

definition build_system_prompt :: "(json \<Rightarrow> string) \<Rightarrow> (json \<Rightarrow> string) \<Rightarrow> 'w xtask \<Rightarrow> dict \<Rightarrow> json + string" where
  "build_system_prompt pystr dumps task ctx =
     (case context_section pystr ctx of
        Inl v \<Rightarrow> Inl v
      | Inr others \<Rightarrow>
          Inr (join_str nl ([tk_prompt task, instruction_section dumps ctx, ''## Available Tools'',
                 join_str nl (map (\<lambda>t. ''- '' @ tl_name t @ '': '' @ tl_description t) (tk_tools task)), '''',
                 ''## Completion Criteria'', tk_criteria task, ''''] @ prompt_rules @ [others])))"

definition user_prompt_rules :: "string list" where
  \<open>user_prompt_rules =
     [''Based on the scratchpad and task instructions, decide the next action.'', '''',
      ''Return structured data only. The Interaction Agent handles user-facing messages.'', '''', ''Respond with JSON only:'', ''{'',
      ''    "thought": "<your reasoning>",'', ''    "action": {'', ''        "type": "<tool|complete|wait_for_user>",'', '''',
      ''        // For type="tool":'', ''        "name": "<tool_name>",'', ''        "params": {...},'', '''',
      ''        // For type="complete":'', ''        "summary": "<what was accomplished - internal note>",'',
      ''        "data": {...},  // structured data'', '''', ''        // For type="wait_for_user" (need user input before continuing):'',
      ''        "waiting_for": "<match_confirmation|networking_clarification|...>",'',
      ''        "data": {...}  // Context about what'' @ [CHR 0x27] @ ''s pending (e.g., match details)'', ''    }'', ''}'', '''',
      ''Use "wait_for_user" when you need the user to confirm or provide input before proceeding.'',
      ''For example, after finding a match with find_match or find_multi_matches, return wait_for_user with waiting_for="match_confirmation" or "multi_match_confirmation".'',
      '''']\<close>

definition user_prompt :: "(json \<Rightarrow> string) \<Rightarrow> (json \<Rightarrow> string) \<Rightarrow> 'w xtask \<Rightarrow> xmemory \<Rightarrow> string" where
  "user_prompt pystr dumps task m =
     (let pad = get_scratchpad_text pystr 15 m in
      join_str nl ([''## Current Scratchpad'', (if pad = [] then ''No actions taken yet.'' else pad), '''', ''## Available Tools'',
        dumps (to_llm_tools_schema task), ''''] @ user_prompt_rules))"

section \<open>The loop\<close>

text \<open>
  What the agent stands on: \<open>str\<close>, \<open>json.dumps\<close> and \<open>json.loads\<close> with the message of its exception, the messages of the other
  exceptions, and the language model, which answers or raises and may change the world, asked for an action or for a kind of request.
\<close>

record 'w xenv =
  x_pystr :: "json \<Rightarrow> string"
  x_dumps :: "json \<Rightarrow> string"
  x_loads :: "string \<Rightarrow> json option"
  x_loads_error :: "string \<Rightarrow> string"
  x_message :: "xraise \<Rightarrow> string"
  x_llm :: "string \<Rightarrow> string \<Rightarrow> 'w \<Rightarrow> (string + string) \<times> 'w"
  x_classify :: "string \<Rightarrow> 'w \<Rightarrow> (string + string) \<times> 'w"
  x_task :: "'w xtask"

text \<open>\<open>xs_last\<close> is the variable \<open>result\<close> of the loop, which outlives an iteration.\<close>

record 'w xstate =
  xs_mem :: xmemory
  xs_taken :: "taken list"
  xs_last :: "tool_result option"
  xs_world :: 'w

record xresult =
  r_status :: string
  r_taken :: "taken list"
  r_collected :: json
  r_changes :: dict
  r_error :: "string option"
  r_iterations :: nat
  r_waiting :: json
  r_result :: json

definition on_mem :: "(xmemory \<Rightarrow> xmemory) \<Rightarrow> ('w xstate, 'e, unit) io" where
  "on_mem f s = (Inr (), s\<lparr>xs_mem := f (xs_mem s)\<rparr>)"

definition log_taken :: "taken \<Rightarrow> ('w xstate, 'e, unit) io" where
  "log_taken t s = (Inr (), s\<lparr>xs_taken := xs_taken s @ [t]\<rparr>)"

text \<open>The thought is remembered before the log message slices it.\<close>

definition think :: "json \<Rightarrow> ('w xstate, xraise, unit) io" where
  "think thought = io_bind (on_mem (add_thought thought)) (\<lambda>_.
     case thought of JStr _ \<Rightarrow> io_return () | JList _ \<Rightarrow> io_return () | _ \<Rightarrow> io_raise (NotSubscriptable thought))"

definition reasoning_failed :: "string \<Rightarrow> json \<times> xaction" where
  "reasoning_failed e = (JStr (''Reasoning error: '' @ e),
     Complete (JStr ''Error occurred during reasoning'') (JObj [(''error'', JStr e), (''status'', JStr ''reasoning_failed'')]) JNull)"

definition reason :: "'w xenv \<Rightarrow> ('w xstate, xraise, json \<times> xaction) io" where
  "reason v s =
     (case build_system_prompt (x_pystr v) (x_dumps v) (x_task v) (m_context (xs_mem s)) of
        Inl j \<Rightarrow> (Inl (NoAttribute j), s)
      | Inr system \<Rightarrow>
          (case x_llm v system (user_prompt (x_pystr v) (x_dumps v) (x_task v) (xs_mem s)) (xs_world s) of
             (Inl e, w) \<Rightarrow> (Inr (reasoning_failed e), s\<lparr>xs_world := w\<rparr>)
           | (Inr response, w) \<Rightarrow>
               (Inr (case parse_reasoning_response (x_loads v) (x_loads_error v) response of
                       Inl j \<Rightarrow> reasoning_failed (x_message v (NoAttribute j)) | Inr ta \<Rightarrow> ta), s\<lparr>xs_world := w\<rparr>)))"

definition or_object :: "json \<Rightarrow> json" where
  "or_object j = (if json_truthy (Some j) then j else JObj [])"

definition failed_action :: "(json \<Rightarrow> string) \<Rightarrow> json \<Rightarrow> json \<Rightarrow> bool" where
  "failed_action pystr summary data \<longleftrightarrow>
     (case data of
        JObj d \<Rightarrow> map_of d ''parse_error'' \<noteq> None \<or> contains_str ''reasoning_failed'' (py_lower (py_text pystr (get_or d ''status'' (JStr []))))
      | _ \<Rightarrow> False)
     \<or> py_lower (coerce_text pystr (Some summary)) \<in> {''failed to parse llm response'', ''error occurred during reasoning''}"

text \<open>A result that is a number or true is searched for a key when the answer is built, which raises.\<close>

definition check_result :: "json \<Rightarrow> ('w xstate, xraise, unit) io" where
  "check_result r =
     (if json_truthy (Some r) \<and> (case r of JInt _ \<Rightarrow> True | JBool _ \<Rightarrow> True | _ \<Rightarrow> False) then io_raise (NotIterable r) else io_return ())"

definition finish :: "'w xenv \<Rightarrow> json \<Rightarrow> json \<Rightarrow> json \<Rightarrow> ('w xstate, xraise, xresult option) io" where
  "finish v summary data r =
     io_bind (on_mem (add_action (x_pystr v) ''complete'' JNull JNull [(''summary'', summary), (''data'', data)])) (\<lambda>_.
     io_bind (check_result r) (\<lambda>_ s.
       (Inr (Some \<lparr>r_status = (if failed_action (x_pystr v) summary data then ''failed'' else ''complete''), r_taken = xs_taken s,
          r_collected = or_object data, r_changes = m_results (xs_mem s),
          r_error = (if failed_action (x_pystr v) summary data then Some ''Failed to parse execution response'' else None),
          r_iterations = m_iter (xs_mem s), r_waiting = JNull, r_result = r\<rparr>), s)))"

definition wait :: "'w xenv \<Rightarrow> json \<Rightarrow> json \<Rightarrow> ('w xstate, xraise, xresult option) io" where
  "wait v waiting_for data =
     io_bind (on_mem (add_action (x_pystr v) ''wait_for_user'' JNull JNull [(''waiting_for'', waiting_for), (''data'', data)])) (\<lambda>_ s.
       (Inr (Some \<lparr>r_status = ''waiting'', r_taken = xs_taken s, r_collected = or_object data, r_changes = m_results (xs_mem s),
          r_error = None, r_iterations = m_iter (xs_mem s), r_waiting = waiting_for, r_result = JNull\<rparr>), s))"

text \<open>The invitations that one execution sends are collected.\<close>

definition store_sent :: "json \<Rightarrow> ('w xstate, xraise, unit) io" where
  "store_sent data s =
     (case get_result ''_sent_invitations'' (JList []) (xs_mem s) of
        JList xs \<Rightarrow>
          io_bind (on_mem (store_result ''_sent_invitations'' (JList (xs @ [data])))) (\<lambda>_ s.
            case data of
              JObj d \<Rightarrow>
                (let target = get_or d ''target_name'' JNull in
                 if \<not> json_truthy (Some target) then (Inr (), s)
                 else case get_result ''sent_to_names'' (JList []) (xs_mem s) of
                     JList ns \<Rightarrow> on_mem (store_result ''sent_to_names'' (JList (if target \<in> set ns then ns else ns @ [target]))) s
                   | j \<Rightarrow> (Inl (NotIterable j), s))
            | j \<Rightarrow> (Inl (NoAttribute j), s)) s
      | j \<Rightarrow> (Inl (NoAttribute j), s))"

definition store_interim :: "string \<Rightarrow> ('w xstate, xraise, unit) io" where
  "store_interim name s =
     (case xs_last s of
        None \<Rightarrow> (Inl NoResult, s)
      | Some r \<Rightarrow>
          if \<not> tr_success r then (Inr (), s)
          else io_bind (if name = ''confirm_and_send_invitation'' then store_sent (tr_data r) else io_return ())
            (\<lambda>_. on_mem (store_result name (tr_data r))) s)"

text \<open>The call: what is observed, whether it succeeded and the summary for the log\<close>

definition call_tool :: "'w xenv \<Rightarrow> 'w xtool \<Rightarrow> json \<Rightarrow> ('w xstate, xraise, string \<times> bool \<times> string) io" where
  "call_tool v t params s =
     (case params of
        JObj p \<Rightarrow>
          (case tl_func t p (xs_world s) of
             (Inl e, w) \<Rightarrow> (Inr (''Tool execution error: '' @ e, False, []), s\<lparr>xs_world := w\<rparr>)
           | (Inr r, w) \<Rightarrow>
               (Inr (to_observation (x_pystr v) 2000 r, tr_success r,
                  if json_truthy (Some (tr_data r)) then take 100 (py_text (x_pystr v) (tr_data r)) else []),
                s\<lparr>xs_world := w, xs_last := Some r\<rparr>))
      | _ \<Rightarrow> (Inr (''Tool execution error: '' @ x_message v (NotMapping params), False, []), s))"

definition use_tool :: "'w xenv \<Rightarrow> 'w xtool \<Rightarrow> json \<Rightarrow> ('w xstate, xraise, unit) io" where
  "use_tool v t params =
     io_bind (on_mem (add_action (x_pystr v) ''tool'' (JStr (tl_name t)) params [])) (\<lambda>_.
     io_bind (call_tool v t params) (\<lambda>(observation, ok, summary).
     io_bind (log_taken (Called (JStr (tl_name t)) ok summary params)) (\<lambda>_.
     io_bind (on_mem (add_observation observation)) (\<lambda>_. store_interim (tl_name t)))))"

definition act :: "'w xenv \<Rightarrow> json \<Rightarrow> json \<Rightarrow> ('w xstate, xraise, unit) io" where
  "act v name params s =
     (case flow_rules (x_pystr v) (tk_name (x_task v)) (m_context (xs_mem s)) (xs_taken s) name params of
        Stop e \<Rightarrow> io_raise e s
      | Block t \<Rightarrow> io_bind (on_mem (add_observation (''BLOCKED: '' @ t))) (\<lambda>_. log_taken (Blocked name t)) s
      | Pass params' \<Rightarrow>
          (case get_tool (x_task v) name of
             None \<Rightarrow>
               (let t = ''Tool not found: '' @ py_text (x_pystr v) name in
                io_bind (on_mem (add_observation (''Error: '' @ t))) (\<lambda>_. log_taken (NotFound name t)) s)
           | Some tool \<Rightarrow> use_tool v tool params' s))"

definition step :: "'w xenv \<Rightarrow> ('w xstate, xraise, xresult option) io" where
  "step v =
     io_bind (reason v) (\<lambda>(thought, action).
     io_bind (think thought) (\<lambda>_.
       case action of
         Complete summary data r \<Rightarrow> finish v summary data r
       | WaitForUser waiting_for data \<Rightarrow> wait v waiting_for data
       | UseTool name params \<Rightarrow> io_bind (act v name params) (\<lambda>_. io_return None)))"

text \<open>An iteration goes on after an exception.\<close>

definition iteration :: "'w xenv \<Rightarrow> ('w xstate, xraise, xresult option) io" where
  "iteration v =
     io_bind (on_mem increment_iteration) (\<lambda>_.
       io_catch (step v) (\<lambda>e. io_bind (on_mem (add_observation (''Error: '' @ x_message v e))) (\<lambda>_. io_return None)))"

fun iterations :: "'w xenv \<Rightarrow> nat \<Rightarrow> 'w xstate \<Rightarrow> xresult \<times> 'w xstate" where
  "iterations v 0 s =
     (\<lparr>r_status = ''failed'', r_taken = xs_taken s, r_collected = JObj (m_results (xs_mem s)), r_changes = [],
        r_error = Some ''Maximum iterations reached without completion'', r_iterations = m_iter (xs_mem s),
        r_waiting = JNull, r_result = JNull\<rparr>, s)"
| "iterations v (Suc n) s =
     (case iteration v s of
        (Inr (Some r), s') \<Rightarrow> (r, s')
      | (_, s') \<Rightarrow> iterations v n s')"

definition flow_decision :: "string \<Rightarrow> string option" where
  "flow_decision flow =
     (if flow = ''purpose_suggestion''
      then Some (''FLOW DECISION: Pre-analysis determined this is a VAGUE request or mentions EMAIL. '' @
        ''MUST use Purpose Suggestion Flow: call get_enriched_user_profile then suggest_connection_purposes. '' @
        ''Purpose suggestions are generated from Zep knowledge graph which contains user'' @ [CHR 0x27] @ ''s email activity. '' @
        ''CRITICAL: After suggest_connection_purposes returns, you MUST STOP and return wait_for_user '' @
        ''with waiting_for='' @ quoted ''purpose_selection'' @ '' to let the user choose which purpose(s) to pursue. '' @
        ''Do NOT call find_match in this execution - wait for user'' @ [CHR 0x27] @ ''s purpose selection first.'')
      else if flow = ''purpose_confirmation''
      then Some (''FLOW DECISION: Pre-analysis determined this is a purpose confirmation. '' @
        ''User selected purposes to pursue. Find matches using find_match or find_multi_matches.'')
      else if flow = ''direct_match''
      then Some (''FLOW DECISION: Pre-analysis determined this is a SPECIFIC request. '' @
        ''Use Direct Match Flow: call get_enriched_user_profile then find_match or find_multi_matches.'')
      else None)"

text \<open>The memory the loop starts with. An instruction that is no object raises, for networking.\<close>

definition prepare :: "'w xenv \<Rightarrow> dict \<Rightarrow> 'w \<Rightarrow> (json + xmemory) \<times> 'w" where
  "prepare v ctx w =
     (let m = new_memory ctx (tk_name (x_task v)) in
      if tk_name (x_task v) \<noteq> ''networking'' then (Inr m, w)
      else case get_or ctx ''task_instruction'' (JObj []) of
          JObj d \<Rightarrow>
            if map_of d ''case'' \<noteq> Some (JStr ''A'') then (Inr m, w)
            else (case detect_networking_flow (x_pystr v) (x_loads v) (x_classify v) d (or_text (x_pystr v) (map_of ctx ''user_message'')) w of
                (flow, w') \<Rightarrow>
                  (let m' = m\<lparr>m_context := put_key ''detected_flow'' (JStr flow) ctx\<rparr> in
                   (Inr (case flow_decision flow of Some t \<Rightarrow> add_thought (JStr t) m' | None \<Rightarrow> m'), w')))
        | j \<Rightarrow> (Inl j, w))"

definition start_state :: "xmemory \<Rightarrow> 'w \<Rightarrow> 'w xstate" where
  "start_state m w = \<lparr>xs_mem = m, xs_taken = [], xs_last = None, xs_world = w\<rparr>"

definition execute_task :: "'w xenv \<Rightarrow> dict \<Rightarrow> 'w \<Rightarrow> (json + xresult) \<times> 'w" where
  "execute_task v ctx w =
     (case prepare v ctx w of
        (Inl j, w') \<Rightarrow> (Inl j, w')
      | (Inr m, w') \<Rightarrow> (case iterations v (tk_max (x_task v)) (start_state m w') of (r, s) \<Rightarrow> (Inr r, xs_world s)))"

section \<open>What a log can hold\<close>

text \<open>An entry is allowed after the entries before it: a call has passed the rules, a blocked one has not, and a tool
that was not found is none of the task.\<close>

fun allowed :: "'w xenv \<Rightarrow> dict \<Rightarrow> taken list \<Rightarrow> taken \<Rightarrow> bool" where
  "allowed v ctx ts (Called n ok sm p) \<longleftrightarrow>
     (\<exists>p0. flow_rules (x_pystr v) (tk_name (x_task v)) ctx ts n p0 = Pass p) \<and> get_tool (x_task v) n \<noteq> None"
| "allowed v ctx ts (Blocked n e) \<longleftrightarrow> (\<exists>p0. flow_rules (x_pystr v) (tk_name (x_task v)) ctx ts n p0 = Block e)"
| "allowed v ctx ts (NotFound n e) \<longleftrightarrow> get_tool (x_task v) n = None"

definition lawful :: "'w xenv \<Rightarrow> dict \<Rightarrow> taken list \<Rightarrow> bool" where
  "lawful v ctx ts \<longleftrightarrow> (\<forall>xs t ys. ts = xs @ t # ys \<longrightarrow> allowed v ctx xs t)"

lemma lawful_Nil [simp]: "lawful v ctx []"
  by (simp add: lawful_def)

lemma lawful_snoc: "lawful v ctx ts \<Longrightarrow> allowed v ctx ts t \<Longrightarrow> lawful v ctx (ts @ [t])"
  unfolding lawful_def
proof (intro allI impI)
  fix xs t' ys
  assume old: "\<forall>xs t ys. ts = xs @ t # ys \<longrightarrow> allowed v ctx xs t" "allowed v ctx ts t" and eq: "ts @ [t] = xs @ t' # ys"
  show "allowed v ctx xs t'"
    using old eq by (cases ys rule: rev_cases) auto
qed

lemma lawfulD: "lawful v ctx (xs @ t # ys) \<Longrightarrow> allowed v ctx xs t"
  by (simp add: lawful_def)

subsection \<open>Frames of the steps\<close>

definition frame :: "'w xstate \<Rightarrow> taken list \<times> dict \<times> nat" where
  "frame s = (xs_taken s, m_context (xs_mem s), m_iter (xs_mem s))"

lemma keeps_on_mem:
  "(\<And>m. m_context (f m) = m_context m \<and> m_iter (f m) = m_iter m) \<Longrightarrow> keeps frame (on_mem f)"
  by (auto simp: keeps_def on_mem_def frame_def)

lemma keeps_notes [keeps_rules]:
  "keeps frame (on_mem (add_thought t))" "keeps frame (on_mem (add_observation o'))"
  "keeps frame (on_mem (add_action py k n p meta))" "keeps frame (on_mem (store_result key x))"
  by (auto intro!: keeps_on_mem simp: add_thought_def add_observation_def add_action_def store_result_def Let_def)

lemma keeps_think [keeps_rules]: "keeps frame (think t)"
  unfolding think_def by (auto intro!: keeps_rules split: json.split)

lemma keeps_reason [keeps_rules]: "keeps frame (reason v)"
  by (auto simp: keeps_def reason_def frame_def split: sum.splits prod.splits)

lemma keeps_check_result [keeps_rules]: "keeps frame (check_result r)"
  unfolding check_result_def by (auto intro!: keeps_rules)

lemma keeps_finish [keeps_rules]: "keeps frame (finish v a b r)"
  unfolding finish_def by (intro keeps_rules) (simp add: keeps_def)

lemma keeps_wait [keeps_rules]: "keeps frame (wait v a b)"
  unfolding wait_def by (intro keeps_rules) (simp add: keeps_def)

lemma keeps_store_sent [keeps_rules]: "keeps frame (store_sent data)"
proof -
  have "keeps frame (\<lambda>s. case data of
              JObj d \<Rightarrow>
                (let target = get_or d ''target_name'' JNull in
                 if \<not> json_truthy (Some target) then (Inr (), s)
                 else case get_result ''sent_to_names'' (JList []) (xs_mem s) of
                     JList ns \<Rightarrow> on_mem (store_result ''sent_to_names'' (JList (if target \<in> set ns then ns else ns @ [target]))) s
                   | j \<Rightarrow> (Inl (NotIterable j), s))
            | j \<Rightarrow> (Inl (NoAttribute j), s))" (is "keeps frame ?f")
    by (auto simp: keeps_def Let_def frame_def on_mem_def store_result_def split: json.splits if_splits)
  then have inner: "keeps frame (io_bind (on_mem (store_result k x)) (\<lambda>_. ?f))" for k x
    by (intro keeps_rules)
  show ?thesis
    unfolding keeps_def store_sent_def
    by (auto split: json.splits dest: keepsD [OF inner])
qed

lemma keeps_store_interim [keeps_rules]: "keeps frame (store_interim n)"
proof -
  have "keeps frame (io_bind (store_sent d) (\<lambda>_. on_mem (store_result k d)))"
    "keeps frame (io_bind (io_return ()) (\<lambda>_. on_mem (store_result k d)) :: ('a xstate, xraise, unit) io)" for k d
    by (intro keeps_rules)+
  note inner = keepsD [OF this(1)] keepsD [OF this(2)]
  show ?thesis
    by (auto simp: keeps_def store_interim_def split: option.splits if_splits dest: inner)
qed

lemma keeps_call_tool [keeps_rules]: "keeps frame (call_tool v t p)"
  by (auto simp: keeps_def call_tool_def frame_def split: json.splits sum.splits prod.splits)

subsection \<open>The entries that are made\<close>

lemma get_tool_name: "get_tool task name = Some t \<Longrightarrow> JStr (tl_name t) = name"
  by (auto simp: get_tool_def dest: find_Some_in)

lemma log_taken_frame: "log_taken t s = (res, s') \<Longrightarrow> frame s' = (xs_taken s @ [t], snd (frame s))"
  by (auto simp: log_taken_def frame_def)

lemma use_tool_frame:
  fixes s :: "'w xstate"
  assumes "use_tool v t params s = (res, s')"
  shows "\<exists>ok sm. frame s' = (xs_taken s @ [Called (JStr (tl_name t)) ok sm params], snd (frame s))"
proof -
  obtain s1 where s1: "(on_mem (add_action (x_pystr v) ''tool'' (JStr (tl_name t)) params []) :: ('w xstate, xraise, unit) io) s = (Inr (), s1)"
    by (simp add: on_mem_def)
  have "\<exists>x s2. call_tool v t params s1 = (Inr x, s2)"
    by (auto simp: call_tool_def split: json.splits sum.splits prod.splits)
  then obtain ob ok sm s2 where s2: "call_tool v t params s1 = (Inr (ob, ok, sm), s2)" by force
  define s3 where "s3 = s2\<lparr>xs_taken := xs_taken s2 @ [Called (JStr (tl_name t)) ok sm params]\<rparr>"
  have f2: "frame s2 = frame s"
    using keepsD [OF keeps_notes(3) s1] keepsD [OF keeps_call_tool s2] by simp
  have "io_bind (on_mem (add_observation ob)) (\<lambda>_. store_interim (tl_name t)) s3 = (res, s')"
    using assms by (simp add: use_tool_def io_bind_def s1 s2 log_taken_def s3_def)
  moreover have "keeps frame (io_bind (on_mem (add_observation ob)) (\<lambda>_. store_interim (tl_name t)))"
    by (intro keeps_rules)
  ultimately have "frame s' = frame s3" by (auto dest: keepsD)
  with f2 show ?thesis by (auto simp: frame_def s3_def)
qed

lemma act_frame:
  assumes "act v name params s = (res, s')"
  shows "frame s' = frame s \<or> (\<exists>t. frame s' = (xs_taken s @ [t], snd (frame s)) \<and> allowed v (m_context (xs_mem s)) (xs_taken s) t)"
proof (cases "flow_rules (x_pystr v) (tk_name (x_task v)) (m_context (xs_mem s)) (xs_taken s) name params")
  case (Stop e)
  then show ?thesis using assms by (simp add: act_def)
next
  case (Block t)
  then show ?thesis using assms
    by (auto simp: act_def io_bind_def on_mem_def log_taken_def frame_def add_observation_def)
next
  case (Pass p)
  show ?thesis
  proof (cases "get_tool (x_task v) name")
    case None
    then show ?thesis using assms Pass
      by (auto simp: act_def io_bind_def on_mem_def log_taken_def frame_def add_observation_def Let_def)
  next
    case (Some tool)
    then have "use_tool v tool p s = (res, s')" using assms Pass by (simp add: act_def)
    from use_tool_frame [OF this] get_tool_name [OF Some] Some Pass show ?thesis by fastforce
  qed
qed

lemma step_frame:
  assumes "step v s = (res, s')"
  shows "(frame s' = frame s \<or> (\<exists>t. frame s' = (xs_taken s @ [t], snd (frame s)) \<and> allowed v (m_context (xs_mem s)) (xs_taken s) t))
    \<and> (\<forall>r. res = Inr (Some r) \<longrightarrow> frame s' = frame s \<and> r_taken r = xs_taken s \<and> r_iterations r = m_iter (xs_mem s)
          \<and> r_status r \<in> {''complete'', ''failed'', ''waiting''})"
proof -
  obtain r1 s1 where r1: "reason v s = (r1, s1)" by force
  have f1: "frame s1 = frame s" by (rule keepsD [OF keeps_reason r1])
  show ?thesis
  proof (cases r1)
    case (Inl e)
    then show ?thesis using assms r1 f1 by (auto simp: step_def io_bind_def)
  next
    case (Inr ta)
    obtain thought action where ta: "ta = (thought, action)" by force
    obtain r2 s2 where r2: "think thought s1 = (r2, s2)" by force
    have f2: "frame s2 = frame s" using keepsD [OF keeps_think r2] f1 by simp
    then have g2: "xs_taken s2 = xs_taken s" "m_context (xs_mem s2) = m_context (xs_mem s)" "m_iter (xs_mem s2) = m_iter (xs_mem s)"
      by (auto simp: frame_def)
    show ?thesis
    proof (cases r2)
      case (Inl e)
      then show ?thesis using assms r1 r2 f2 Inr ta by (auto simp: step_def io_bind_def)
    next
      case (Inr u)
      note pre = assms [unfolded step_def io_bind_def r1 \<open>r1 = Inr ta\<close> ta, simplified, unfolded r2 Inr, simplified]
      show ?thesis
      proof (cases action)
        case (UseTool name params)
        obtain r3 s3 where r3: "act v name params s2 = (r3, s3)" by force
        with pre UseTool have "s' = s3 \<and> \<not> (\<exists>r. res = Inr (Some r))" by (auto split: sum.splits)
        with act_frame [OF r3] f2 g2 show ?thesis by auto
      next
        case (Complete a b c)
        then have fin: "finish v a b c s2 = (res, s')" using pre by simp
        have "frame s' = frame s" using keepsD [OF keeps_finish fin] f2 by simp
        moreover have "\<forall>r. res = Inr (Some r) \<longrightarrow> r_taken r = xs_taken s \<and> r_iterations r = m_iter (xs_mem s) \<and> r_status r \<in> {''complete'', ''failed'', ''waiting''}"
          using fin g2 by (auto simp: finish_def io_bind_def on_mem_def check_result_def add_action_def Let_def split: if_splits)
        ultimately show ?thesis by simp
      next
        case (WaitForUser a b)
        then have fin: "wait v a b s2 = (res, s')" using pre by simp
        have "frame s' = frame s" using keepsD [OF keeps_wait fin] f2 by simp
        moreover have "\<forall>r. res = Inr (Some r) \<longrightarrow> r_taken r = xs_taken s \<and> r_iterations r = m_iter (xs_mem s) \<and> r_status r \<in> {''complete'', ''failed'', ''waiting''}"
          using fin g2 by (auto simp: wait_def io_bind_def on_mem_def add_action_def Let_def)
        ultimately show ?thesis by simp
      qed
    qed
  qed
qed

lemma iteration_frame:
  assumes "iteration v s = (res, s')"
  shows "m_context (xs_mem s') = m_context (xs_mem s) \<and> m_iter (xs_mem s') = Suc (m_iter (xs_mem s))
    \<and> (xs_taken s' = xs_taken s \<or> (\<exists>t. xs_taken s' = xs_taken s @ [t] \<and> allowed v (m_context (xs_mem s)) (xs_taken s) t))
    \<and> (\<forall>r. res = Inr (Some r) \<longrightarrow> xs_taken s' = xs_taken s \<and> r_taken r = xs_taken s' \<and> r_iterations r = m_iter (xs_mem s')
          \<and> r_status r \<in> {''complete'', ''failed'', ''waiting''})"
proof -
  define s1 where "s1 = s\<lparr>xs_mem := increment_iteration (xs_mem s)\<rparr>"
  have s1: "xs_taken s1 = xs_taken s" "m_context (xs_mem s1) = m_context (xs_mem s)" "m_iter (xs_mem s1) = Suc (m_iter (xs_mem s))"
    by (simp_all add: s1_def increment_iteration_def)
  obtain r2 s2 where r2: "step v s1 = (r2, s2)" by force
  note f = step_frame [OF r2]
  show ?thesis
  proof (cases r2)
    case (Inr x)
    then have "res = Inr x \<and> s' = s2" using assms r2 by (simp add: iteration_def io_bind_def on_mem_def io_catch_def flip: s1_def)
    with f s1 Inr show ?thesis by (auto simp: frame_def)
  next
    case (Inl e)
    then have "\<not> (\<exists>r. res = Inr (Some r)) \<and> frame s' = frame s2"
      using assms r2 by (auto simp: iteration_def io_bind_def on_mem_def io_catch_def frame_def add_observation_def simp flip: s1_def)
    with f s1 show ?thesis by (auto simp: frame_def)
  qed
qed

subsection \<open>Executions\<close>

lemma iterations_frame:
  "iterations v n s = (r, s') \<Longrightarrow> lawful v (m_context (xs_mem s)) (xs_taken s) \<Longrightarrow> length (xs_taken s) \<le> m_iter (xs_mem s) \<Longrightarrow>
     lawful v (m_context (xs_mem s)) (r_taken r) \<and> length (r_taken r) \<le> r_iterations r \<and> r_iterations r \<le> m_iter (xs_mem s) + n
     \<and> r_status r \<in> {''complete'', ''failed'', ''waiting''}"
proof (induction n arbitrary: s)
  case (Suc n)
  obtain res s1 where it: "iteration v s = (res, s1)" by force
  note f = iteration_frame [OF it]
  then have law: "lawful v (m_context (xs_mem s)) (xs_taken s1)" and len: "length (xs_taken s1) \<le> m_iter (xs_mem s1)"
    using Suc.prems by (auto intro: lawful_snoc)
  show ?case
  proof (cases "\<exists>x. res = Inr (Some x)")
    case True
    then have "res = Inr (Some r) \<and> s' = s1" using Suc.prems it by auto
    with f law len Suc.prems show ?thesis by auto
  next
    case False
    then have "iterations v n s1 = (r, s')" using Suc.prems it by (auto split: sum.splits option.splits)
    from Suc.IH [OF this] f law len show ?thesis by auto
  qed
qed auto

text \<open>The context that the loop works with\<close>

definition loop_context :: "'w xenv \<Rightarrow> dict \<Rightarrow> 'w \<Rightarrow> dict" where
  "loop_context v ctx w = (case prepare v ctx w of (Inr m, _) \<Rightarrow> m_context m | _ \<Rightarrow> ctx)"

lemma execution_frame:
  assumes "execute_task v ctx w = (Inr r, w')"
  shows "lawful v (loop_context v ctx w) (r_taken r) \<and> length (r_taken r) \<le> r_iterations r \<and> r_iterations r \<le> tk_max (x_task v)
    \<and> r_status r \<in> {''complete'', ''failed'', ''waiting''}"
proof -
  obtain m w1 where p: "prepare v ctx w = (Inr m, w1)" using assms by (auto simp: execute_task_def split: prod.splits sum.splits)
  then have "m_iter m = 0" by (auto simp: prepare_def new_memory_def Let_def add_thought_def split: if_splits json.splits prod.splits option.splits)
  moreover obtain s where "iterations v (tk_max (x_task v)) (start_state m w1) = (r, s)"
    using assms p by (auto simp: execute_task_def split: prod.splits)
  ultimately show ?thesis using iterations_frame [of v "tk_max (x_task v)" "start_state m w1" r s] p
    by (auto simp: start_state_def loop_context_def)
qed

lemma loop_context_keys:
  "k \<noteq> ''detected_flow'' \<Longrightarrow> map_of (loop_context v ctx w) k = map_of ctx k"
  by (auto simp: loop_context_def prepare_def new_memory_def add_thought_def Let_def
        split: sum.splits prod.splits if_splits json.splits option.splits)

lemma loop_instruction_same: "loop_instruction (loop_context v ctx w) = loop_instruction ctx"
  by (simp add: loop_instruction_def get_or_def loop_context_keys)

subsection \<open>The rules\<close>

lemma and_then_Pass [simp]: "and_then v f = Pass q \<longleftrightarrow> (\<exists>p. v = Pass p \<and> f p = Pass q)"
  by (cases v) auto

lemmas rules = suggestion_rule_def profile_rule_def demand_rule_def vague_rule_def invite_rule_def answer_rule_def

lemma match_tool_names [simp]: "JStr ''confirm_and_send_invitation'' \<notin> set match_tools" "JStr ''suggest_connection_purposes'' \<notin> set match_tools"
  "JStr ''target_responds'' \<notin> set match_tools"
  by (simp_all add: match_tools_def)

lemma invitation_passed:
  assumes "flow_rules pystr task ctx ts (JStr ''confirm_and_send_invitation'') p0 = Pass p"
  shows "\<not> match_succeeded ts \<and> (\<exists>d. loop_instruction ctx = Inr d \<and> \<not> (case_is d CHR ''B'' \<and> networking_instruction_has_decline_intent pystr d))"
  using assms unfolding flow_rules_def
  by (auto simp: invite_rule_def split: if_splits sum.splits)

lemma suggestion_passed:
  assumes "flow_rules pystr task ctx ts (JStr ''suggest_connection_purposes'') p0 = Pass p" "match_called ts"
  shows "match_succeeded ts"
  using assms unfolding flow_rules_def by (auto simp: suggestion_rule_def split: if_splits)

lemma match_passed:
  assumes "flow_rules pystr task ctx ts n p0 = Pass p" "n \<in> set match_tools"
  shows "map_of ctx ''detected_flow'' \<noteq> Some (JStr ''purpose_suggestion'')"
  using assms unfolding flow_rules_def by (auto simp: vague_rule_def split: if_splits)

lemma later_rules_pass_match_params:
  assumes "n \<in> set match_tools"
  shows "suggestion_rule ts n p = Pass p" "vague_rule ctx ts n p = Pass q \<longleftrightarrow> q = p \<and> map_of ctx ''detected_flow'' \<noteq> Some (JStr ''purpose_suggestion'')"
    "invite_rule pystr ctx ts n p = Pass p" "answer_rule ctx n p = Pass p"
  using assms by (auto simp: rules match_tools_def)

lemma match_params:
  assumes "flow_rules pystr task ctx ts n p0 = Pass p" "n \<in> set match_tools"
  shows "\<exists>p1. profile_rule ctx n p0 = Pass p1 \<and> demand_rule pystr task ctx n p1 = Pass p"
  using assms unfolding flow_rules_def by (auto simp: later_rules_pass_match_params)

lemma demand_keys [simp]: "demand_key n \<noteq> ''user_profile''" "''user_profile'' \<noteq> demand_key n"
  by (auto simp: demand_key_def)

text \<open>A search carries the profile of the context and, for a request of the first kind, a demand.\<close>

lemma searches_carry:
  assumes "flow_rules pystr task ctx ts n p0 = Pass p" "n \<in> set match_tools"
  shows "(json_truthy (map_of ctx ''user_profile'') \<longrightarrow> (\<exists>q. p = JObj q \<and> map_of q ''user_profile'' = map_of ctx ''user_profile''))
    \<and> (\<forall>d. loop_instruction ctx = Inr d \<and> case_is d CHR ''A'' \<and> task \<in> {''networking'', ''groupchat_networking''}
         \<longrightarrow> (\<exists>q. p = JObj q \<and> coerce_text pystr (map_of q (demand_key n)) \<noteq> []))"
proof -
  obtain p1 where p1: "profile_rule ctx n p0 = Pass p1" "demand_rule pystr task ctx n p1 = Pass p"
    using match_params [OF assms] by blast
  have profile: "json_truthy (map_of ctx ''user_profile'') \<Longrightarrow> \<exists>q. p1 = JObj q \<and> map_of q ''user_profile'' = map_of ctx ''user_profile''"
    using p1(1) assms(2)
    by (auto simp: profile_rule_def get_or_def Let_def split: if_splits json.splits option.splits)
  moreover have "p1 = JObj q \<Longrightarrow> \<exists>q'. p = JObj q' \<and> map_of q' ''user_profile'' = map_of q ''user_profile''" for q
    using p1(2) by (auto simp: demand_rule_def Let_def split: if_splits sum.splits)
  moreover have "loop_instruction ctx = Inr d \<Longrightarrow> case_is d CHR ''A'' \<Longrightarrow> task \<in> {''networking'', ''groupchat_networking''}
         \<Longrightarrow> \<exists>q. p = JObj q \<and> coerce_text pystr (map_of q (demand_key n)) \<noteq> []" for d
    using p1(2) assms(2) by (auto simp: demand_rule_def Let_def split: if_splits json.splits)
  ultimately show ?thesis by fastforce
qed

lemma entry_allowed:
  "execute_task v ctx w = (Inr r, w') \<Longrightarrow> r_taken r = xs @ t # ys \<Longrightarrow> allowed v (loop_context v ctx w) xs t"
  using execution_frame [of v ctx w r w'] lawfulD [of v "loop_context v ctx w" xs t ys] by simp

section \<open>Properties\<close>

text \<open>C30: the loop always returns, with at most the task's number of iterations, one entry of the log for each at most,
and a status that is complete, failed or waiting; every tool it has called was one of the task, with parameters the rules let
pass after the calls before it, and every blocked call was blocked by them.\<close>

theorem executions_follow_the_rules:
  assumes "execute_task v ctx w = (Inr r, w')"
  shows "length (r_taken r) \<le> r_iterations r \<and> r_iterations r \<le> tk_max (x_task v) \<and> r_status r \<in> {''complete'', ''failed'', ''waiting''}
    \<and> (\<forall>xs t ys. r_taken r = xs @ t # ys \<longrightarrow> allowed v (loop_context v ctx w) xs t)"
  using execution_frame [OF assms] by (auto simp: lawful_def)

text \<open>C31: no execution sends an invitation after a search in it has found somebody, nor when the user's answer to a
proposal says no.\<close>

theorem no_invitation_without_an_answer:
  assumes "execute_task v ctx w = (Inr r, w')" "r_taken r = xs @ Called (JStr ''confirm_and_send_invitation'') ok sm p # ys"
  shows "\<not> match_succeeded xs
    \<and> (\<exists>d. loop_instruction ctx = Inr d \<and> \<not> (case_is d CHR ''B'' \<and> networking_instruction_has_decline_intent (x_pystr v) d))"
proof -
  have "allowed v (loop_context v ctx w) xs (Called (JStr ''confirm_and_send_invitation'') ok sm p)"
    by (rule entry_allowed [OF assms(1, 2)])
  then show ?thesis
    by (simp only: allowed.simps) (metis invitation_passed loop_instruction_same)
qed

text \<open>C32: when a request was found to be vague, no search is ever made in its execution. Moreover, once a search was
attempted and blocked, with the message to suggest purposes first, no suggestion of purposes is made either: the blocked
attempt counts as a search that failed.\<close>

theorem vague_requests_get_stuck:
  assumes "execute_task v ctx w = (Inr r, w')" "map_of (loop_context v ctx w) ''detected_flow'' = Some (JStr ''purpose_suggestion'')"
    "r_taken r = xs @ t # ys" "taken_tool t \<in> set match_tools"
  shows "(\<exists>n e. t = Blocked n e \<or> t = NotFound n e)
    \<and> (\<forall>n ok sm p. Called n ok sm p \<in> set ys \<longrightarrow> n \<notin> set match_tools \<and> n \<noteq> JStr ''suggest_connection_purposes'')"
proof -
  have never: "n \<notin> set match_tools" if call: "Called n ok sm p \<in> set (r_taken r)" for n ok sm p
  proof -
    obtain as bs where "r_taken r = as @ Called n ok sm p # bs" using split_list [OF call] by blast
    from entry_allowed [OF assms(1) this] show ?thesis using assms(2) by (auto dest: match_passed)
  qed
  have none: "\<not> match_succeeded zs" if "set zs \<subseteq> set (r_taken r)" for zs
  proof
    assume "match_succeeded zs"
    then obtain z where "z \<in> set zs" "taken_tool z \<in> set match_tools" "taken_success z"
      by (auto simp: match_succeeded_def list_ex_iff)
    with that never show False by (cases z) auto
  qed
  have "n \<noteq> JStr ''suggest_connection_purposes''" if later: "Called n ok sm p \<in> set ys" for n ok sm p
  proof
    assume n: "n = JStr ''suggest_connection_purposes''"
    obtain as bs where ys: "ys = as @ Called n ok sm p # bs" using split_list [OF later] by blast
    then have "r_taken r = (xs @ t # as) @ Called n ok sm p # bs" using assms(3) by simp
    from entry_allowed [OF assms(1) this] have "match_called (xs @ t # as) \<longrightarrow> match_succeeded (xs @ t # as)"
      using n by (auto dest: suggestion_passed)
    moreover have "match_called (xs @ t # as)" using assms(4) by (simp add: match_called_def)
    ultimately show False using none [of "xs @ t # as"] assms(3) ys by auto
  qed
  moreover have "\<exists>n e. t = Blocked n e \<or> t = NotFound n e"
    using never [of "taken_tool t"] assms(3, 4) by (cases t) auto
  moreover have "n \<notin> set match_tools" if "Called n ok sm p \<in> set ys" for n ok sm p
    using never [of n ok sm p] that assms(3) by simp
  ultimately show ?thesis by blast
qed

text \<open>C33: every search an execution makes carries the user's profile from the context, whatever the language model wrote,
and for a request of case A a demand that is not blank.\<close>

theorem searches_have_profile_and_demand:
  assumes "execute_task v ctx w = (Inr r, w')" "r_taken r = xs @ Called n ok sm p # ys" "n \<in> set match_tools"
    "json_truthy (map_of ctx ''user_profile'')"
  shows "\<exists>q. p = JObj q \<and> map_of q ''user_profile'' = map_of ctx ''user_profile''
    \<and> (\<forall>d. loop_instruction ctx = Inr d \<and> case_is d CHR ''A'' \<and> tk_name (x_task v) \<in> {''networking'', ''groupchat_networking''}
         \<longrightarrow> coerce_text (x_pystr v) (map_of q (demand_key n)) \<noteq> [])"
proof -
  have "allowed v (loop_context v ctx w) xs (Called n ok sm p)"
    by (rule entry_allowed [OF assms(1, 2)])
  then obtain p0 where "flow_rules (x_pystr v) (tk_name (x_task v)) (loop_context v ctx w) xs n p0 = Pass p" by auto
  from searches_carry [OF this assms(3)] assms(4) show ?thesis
    by (auto simp: loop_context_keys loop_instruction_same)
qed

section \<open>An agent to try\<close>

text \<open>The world is the list of the answers that the language model gives; three of them are known texts.\<close>

definition xagent_use :: "string \<Rightarrow> json" where
  "xagent_use n = JObj [(''thought'', JStr ''go''), (''action'', JObj [(''type'', JStr ''tool''), (''name'', JStr n)])]"

definition xagent_wait :: json where
  "xagent_wait = JObj [(''thought'', JStr ''ask''), (''action'', JObj [(''type'', JStr ''wait_for_user''), (''waiting_for'', JStr ''answer'')])]"

definition xagent_loads :: "string \<Rightarrow> json option" where
  "xagent_loads s =
     (if s = ''m'' then Some (xagent_use ''find_match'') else if s = ''i'' then Some (xagent_use ''confirm_and_send_invitation'')
      else if s = ''s'' then Some (xagent_use ''suggest_connection_purposes'') else if s = ''w'' then Some xagent_wait else None)"

definition xagent_answer :: "string list \<Rightarrow> (string + string) \<times> string list" where
  "xagent_answer w = (case w of [] \<Rightarrow> (Inl ''no answer'', []) | x # xs \<Rightarrow> (Inr x, xs))"

definition xagent_tool :: "string \<Rightarrow> (string list) xtool" where
  "xagent_tool n = \<lparr>tl_name = n, tl_description = n,
     tl_func = (\<lambda>p w. (Inr \<lparr>tr_success = True, tr_data = JObj [(''target_name'', JStr ''Bo'')], tr_error = None\<rparr>, w)), tl_parameters = []\<rparr>"

definition xagent_env :: "string list xenv" where
  "xagent_env = \<lparr>x_pystr = (\<lambda>j. ''?''), x_dumps = (\<lambda>j. ''?''), x_loads = xagent_loads, x_loads_error = (\<lambda>s. ''?''), x_message = (\<lambda>e. ''?''),
     x_llm = (\<lambda>system user. xagent_answer), x_classify = (\<lambda>i. xagent_answer),
     x_task = \<lparr>tk_name = ''networking'', tk_prompt = ''Connect'',
       tk_tools = map xagent_tool [''find_match'', ''confirm_and_send_invitation'', ''suggest_connection_purposes''],
       tk_criteria = ''done'', tk_max = 4\<rparr>\<rparr>"

definition xagent_log :: "dict \<Rightarrow> string list \<Rightarrow> taken list option" where
  "xagent_log ctx w = (case execute_task xagent_env ctx w of (Inr r, _) \<Rightarrow> Some (r_taken r) | _ \<Rightarrow> None)"

lemma xagent_logD: "xagent_log ctx w = Some ts \<Longrightarrow> \<exists>r w'. execute_task xagent_env ctx w = (Inr r, w') \<and> r_taken r = ts"
  by (auto simp: xagent_log_def split: prod.splits sum.splits)

lemma xagent_logs:
  "map_option (map taken_tool) (xagent_log [(''task_instruction'', JObj [(''case'', JStr ''A'')]), (''user_message'', JStr ''email'')] [''m'', ''s'', ''w''])
     = Some [JStr ''find_match'', JStr ''suggest_connection_purposes'']"
  "xagent_log [(''task_instruction'', JObj [(''case'', JStr ''B''), (''instruction'', JStr ''yes'')])] [''i'', ''w'']
     = Some [Called (JStr ''confirm_and_send_invitation'') True ''?'' (JObj [])]"
  "xagent_log [(''task_instruction'', JObj [(''case'', JStr ''A''), (''selected_purpose'', JStr ''mentor'')]), (''user_profile'', JObj [(''name'', JStr ''Ann'')])] [''m'', ''w'']
     = Some [Called (JStr ''find_match'') True ''?'' (JObj [(''user_profile'', JObj [(''name'', JStr ''Ann'')]), (''override_demand'', JStr ''mentor'')])]"
  by code_simp+

lemma executions_follow_the_rules_witness:
  "\<exists>r w'. execute_task xagent_env [(''task_instruction'', JObj [(''case'', JStr ''B''), (''instruction'', JStr ''yes'')])] [''i'', ''w''] = (Inr r, w')
     \<and> r_taken r \<noteq> [] \<and> r_iterations r \<le> 4"
proof -
  obtain r w' where r: "execute_task xagent_env [(''task_instruction'', JObj [(''case'', JStr ''B''), (''instruction'', JStr ''yes'')])] [''i'', ''w''] = (Inr r, w')"
    "r_taken r = [Called (JStr ''confirm_and_send_invitation'') True ''?'' (JObj [])]"
    using xagent_logD [OF xagent_logs(2)] by blast
  have "r_iterations r \<le> 4" using executions_follow_the_rules [OF r(1)] by (simp add: xagent_env_def)
  with r show ?thesis by auto
qed

lemma no_invitation_without_an_answer_witness:
  "\<exists>r w'. execute_task xagent_env [(''task_instruction'', JObj [(''case'', JStr ''B''), (''instruction'', JStr ''yes'')])] [''i'', ''w''] = (Inr r, w')
     \<and> r_taken r = [Called (JStr ''confirm_and_send_invitation'') True ''?'' (JObj [])] \<and> \<not> match_succeeded []"
proof -
  obtain r w' where r: "execute_task xagent_env [(''task_instruction'', JObj [(''case'', JStr ''B''), (''instruction'', JStr ''yes'')])] [''i'', ''w''] = (Inr r, w')"
    "r_taken r = [Called (JStr ''confirm_and_send_invitation'') True ''?'' (JObj [])]"
    using xagent_logD [OF xagent_logs(2)] by blast
  have "\<not> match_succeeded []"
    using no_invitation_without_an_answer [OF r(1), of "[]" True "''?''" "JObj []" "[]"] r(2) by simp
  with r show ?thesis by blast
qed

lemma vague_requests_get_stuck_witness:
  "\<exists>r w' t u. execute_task xagent_env [(''task_instruction'', JObj [(''case'', JStr ''A'')]), (''user_message'', JStr ''email'')] [''m'', ''s'', ''w''] = (Inr r, w')
     \<and> r_taken r = [t, u] \<and> taken_tool u = JStr ''suggest_connection_purposes'' \<and> (\<exists>n e. t = Blocked n e \<or> t = NotFound n e)"
proof -
  obtain ts where ts: "xagent_log [(''task_instruction'', JObj [(''case'', JStr ''A'')]), (''user_message'', JStr ''email'')] [''m'', ''s'', ''w''] = Some ts"
    "map taken_tool ts = [JStr ''find_match'', JStr ''suggest_connection_purposes'']"
    using xagent_logs(1) by auto
  then obtain t u where tu: "ts = [t, u]" "taken_tool t = JStr ''find_match''" "taken_tool u = JStr ''suggest_connection_purposes''" by auto
  obtain r w' where r: "execute_task xagent_env [(''task_instruction'', JObj [(''case'', JStr ''A'')]), (''user_message'', JStr ''email'')] [''m'', ''s'', ''w''] = (Inr r, w')"
    "r_taken r = ts"
    using xagent_logD [OF ts(1)] by blast
  have flow: "map_of (loop_context xagent_env [(''task_instruction'', JObj [(''case'', JStr ''A'')]), (''user_message'', JStr ''email'')] [''m'', ''s'', ''w'']) ''detected_flow''
      = Some (JStr ''purpose_suggestion'')"
    by code_simp
  have "\<exists>n e. t = Blocked n e \<or> t = NotFound n e"
    using vague_requests_get_stuck [OF r(1) flow, of "[]" t "[u]"] r(2) tu by (simp add: match_tools_def)
  with r tu show ?thesis by blast
qed

lemma searches_have_profile_and_demand_witness:
  "\<exists>r w' q. execute_task xagent_env [(''task_instruction'', JObj [(''case'', JStr ''A''), (''selected_purpose'', JStr ''mentor'')]),
       (''user_profile'', JObj [(''name'', JStr ''Ann'')])] [''m'', ''w''] = (Inr r, w')
     \<and> r_taken r = [Called (JStr ''find_match'') True ''?'' (JObj q)] \<and> map_of q ''user_profile'' = Some (JObj [(''name'', JStr ''Ann'')])"
proof -
  define ctx where "ctx = [(''task_instruction'', JObj [(''case'', JStr ''A''), (''selected_purpose'', JStr ''mentor'')]),
    (''user_profile'', JObj [(''name'', JStr ''Ann'')])]"
  define q where "q = [(''user_profile'', JObj [(''name'', JStr ''Ann'')]), (''override_demand'', JStr ''mentor'')]"
  obtain r w' where r: "execute_task xagent_env ctx [''m'', ''w''] = (Inr r, w')" "r_taken r = [Called (JStr ''find_match'') True ''?'' (JObj q)]"
    using xagent_logD [OF xagent_logs(3)] unfolding ctx_def q_def by blast
  have "map_of q ''user_profile'' = map_of ctx ''user_profile''"
    using searches_have_profile_and_demand [OF r(1), of "[]" "JStr ''find_match''" True "''?''" "JObj q" "[]"] r(2)
    by (auto simp: ctx_def match_tools_def)
  then have "map_of q ''user_profile'' = Some (JObj [(''name'', JStr ''Ann'')])" by (simp add: ctx_def)
  with r show ?thesis unfolding ctx_def by blast
qed

section \<open>What a failing tool leaves behind\<close>


definition example_broken :: "nat xtool" where
  "example_broken = \<lparr>tl_name = ''find_match'', tl_description = ''find'', tl_func = (\<lambda>p w. (Inl ''timeout'', w)), tl_parameters = []\<rparr>"

definition example_later :: "nat xstate" where
  "example_later = \<lparr>xs_mem = new_memory [] ''networking'', xs_taken = [],
     xs_last = Some \<lparr>tr_success = True, tr_data = JStr ''profile'', tr_error = None\<rparr>, xs_world = 0\<rparr>"


section \<open>Words\<close>

text \<open>A word that contains \<open>pass\<close> declines; \<open>network for me\<close> is taken for a specific request; a closing bracket is put
before a closing brace, whatever is open.\<close>

lemma enthusiasm_declines: "networking_instruction_has_decline_intent pystr [(''instruction'', JStr ''yes, she seems passionate'')]"
  unfolding networking_instruction_has_decline_intent_def or_text_def by code_simp

lemma network_for_me_is_specific: "\<not> is_generic_networking_request ''network for me please''"
  by code_simp

lemma repair_of_nested: "repair_text ''[{'' = ''[{]}''"
  by code_simp

end
