(* ===== verification/Instruction_Rules.thy ===== *)
theory Instruction_Rules
  imports Execution_Agent
begin

text \<open>
  What the interaction agent (app/agents/interaction/agent.py) decides without the language model: which fields of an
  instruction it keeps, when it turns an answer into a new request, what it does when the answer of the model cannot be read, which
  acknowledgement it sends, and which data of the executions it passes on.
\<close>

section \<open>Instructions\<close>

definition allowed_fields :: "string list" where
  "allowed_fields = [''case'', ''instruction'', ''intent'', ''request_id'', ''request_ids'', ''confirmed_purposes'', ''target_name'',
     ''initiator_name'', ''accept'', ''match_type_preference'', ''selected_purpose'', ''group_name'', ''suggested_match_type'', ''op'', ''field'',
     ''value'', ''values'', ''chat_guid'', ''target_chat_identifier'', ''custom_topic'', ''time'', ''meeting_purpose'', ''timezone'', ''message'']"

definition normalize_match_type_preference :: "string \<Rightarrow> string" where
  "normalize_match_type_preference value =
     (if plain_text value \<in> {''single'', ''single person'', ''single_person'', ''one'', ''one person'', ''one_person'', ''just one'', ''1''} then ''one_person''
      else if plain_text value \<in> {''group'', ''multiple'', ''multiple people'', ''multiple_people'', ''several'', ''few'', ''more than one''}
      then ''multiple_people'' else value)"

text \<open>\<open>s.replace(cc, "")\<close> for a doubled character\<close>

fun drop_pairs :: "char \<Rightarrow> string \<Rightarrow> string" where
  "drop_pairs c (a # b # s) = (if a = c \<and> b = c then drop_pairs c s else a # drop_pairs c (b # s))"
| "drop_pairs c s = s"

definition drop_braces :: "string \<Rightarrow> string" where
  "drop_braces s = drop_pairs CHR ''}'' (drop_pairs CHR ''{'' s)"

fun sanitize_value :: "string \<Rightarrow> json \<Rightarrow> json" where
  "sanitize_value key (JStr s) =
     JStr (if key = ''match_type_preference'' then normalize_match_type_preference (drop_braces s) else drop_braces s)"
| "sanitize_value key (JList xs) = JList (map (\<lambda>x. case x of JStr s \<Rightarrow> JStr (drop_braces s) | _ \<Rightarrow> x) xs)"
| "sanitize_value key v = v"

definition sanitize_task_instruction :: "dict \<Rightarrow> dict" where
  "sanitize_task_instruction d = map (\<lambda>(k, v). (k, sanitize_value k v)) (filter (\<lambda>(k, v). k \<in> set allowed_fields) d)"

type_synonym instructions = "(string \<times> dict) list"

definition objects_of :: "dict \<Rightarrow> instructions" where
  "objects_of d = List.map_filter (\<lambda>(k, v). case v of JObj i \<Rightarrow> Some (k, i) | _ \<Rightarrow> None) d"

definition sanitize_all_task_instructions :: "json \<Rightarrow> instructions" where
  "sanitize_all_task_instructions j =
     (case j of JObj d \<Rightarrow> map (\<lambda>(k, i). (k, sanitize_task_instruction i)) (objects_of d) | _ \<Rightarrow> [])"

section \<open>Reading messages\<close>

definition get_last_assistant_message :: "(json \<Rightarrow> string) \<Rightarrow> dict list \<Rightarrow> string" where
  "get_last_assistant_message pystr history =
     (case find (\<lambda>m. py_lower (py_text pystr (get_or m ''role'' (JStr []))) = ''assistant'') (rev history) of
        Some m \<Rightarrow> or_text pystr (map_of m ''content'') | None \<Rightarrow> [])"

text \<open>The words of a name, next to each other\<close>

definition contains_name_reference :: "string \<Rightarrow> string list \<Rightarrow> bool" where
  "contains_name_reference t names \<longleftrightarrow>
     plain_words t \<noteq> [] \<and> list_ex (\<lambda>n. plain_words n \<noteq> [] \<and> contains_str (plain_words n) (plain_words t)) names"

definition affirmative_prefixes :: "string list" where
  "affirmative_prefixes = [''yes'', ''yeah'', ''yep'', ''sure'', ''ok'', ''okay'', ''yup'', ''bet'', ''go ahead'', ''do it'', ''sounds good'']"

definition is_short_affirmative_reply :: "string \<Rightarrow> bool" where
  "is_short_affirmative_reply message \<longleftrightarrow>
     plain_text message \<noteq> [] \<and> length (plain_words message) \<le> 10 \<and> list_ex (\<lambda>p. starts_with p (plain_text message)) affirmative_prefixes"

definition has_decline_intent :: "string \<Rightarrow> bool" where
  "has_decline_intent message \<longleftrightarrow>
     plain_text message \<noteq> [] \<and> (list_ex (\<lambda>p. contains_str p (plain_text message)) decline_phrases \<or> ''no'' \<in> set (plain_words message))"

definition match_cues :: "string list" where
  "match_cues = [''found'', ''match'', ''first up'', ''then there s'', ''want me to connect'', ''should i connect'', ''connect you with'', ''introduce you'']"

definition looks_like_match_presentation :: "string \<Rightarrow> string list \<Rightarrow> bool" where
  "looks_like_match_presentation message names \<longleftrightarrow>
     message \<noteq> [] \<and> contains_name_reference message names \<and> list_ex (\<lambda>c. contains_str c (plain_text message)) match_cues"

text \<open>What stands after the first place where a pattern matches, up to the end of the sentence\<close>

definition sentence_rest :: "string \<Rightarrow> string option" where
  "sentence_rest s = none_if_empty (takeWhile (\<lambda>c. c \<notin> {CHR ''.'', CHR ''!'', CHR ''?''}) s)"

fun first_match_at :: "(string \<Rightarrow> string option) \<Rightarrow> string \<Rightarrow> string option" where
  "first_match_at m [] = m []"
| "first_match_at m (c # s) = (case m (c # s) of Some g \<Rightarrow> Some g | None \<Rightarrow> first_match_at m s)"

definition gearing_up :: "string \<Rightarrow> string option" where
  "gearing_up s = (if starts_with ''gearing up for '' (py_lower s) then sentence_rest (drop 15 s) else None)"

definition for_the :: "string \<Rightarrow> string option" where
  "for_the s =
     (if starts_with ''for '' (py_lower s)
      then if starts_with ''the '' (py_lower (drop 4 s)) \<and> sentence_rest (drop 8 s) \<noteq> None then sentence_rest (drop 8 s) else sentence_rest (drop 4 s)
      else None)"

definition trim_hint :: "string \<Rightarrow> string" where
  "trim_hint s = strip_by (\<lambda>c. c \<in> {CHR '' '', CHR 0x09, CHR 0x0A, CHR 0x0D, CHR '','', CHR '';'', CHR '':''}) s"

definition usable_hint :: "string option \<Rightarrow> string option" where
  "usable_hint g = (case g of None \<Rightarrow> None | Some s \<Rightarrow> if trim_hint s \<noteq> [] \<and> length (trim_hint s) \<le> 120 then Some (trim_hint s) else None)"

definition extract_purpose_hint_from_assistant_message :: "string \<Rightarrow> string" where
  "extract_purpose_hint_from_assistant_message message =
     (let t = py_strip message in
      case usable_hint (first_match_at gearing_up t) of
        Some h \<Rightarrow> h | None \<Rightarrow> (case usable_hint (first_match_at for_the t) of Some h \<Rightarrow> h | None \<Rightarrow> []))"

definition multi_markers :: "string list" where
  "multi_markers = [''team'', ''teammate'', ''group'', ''cofounder'', ''co founder'', ''multiple people'', ''several people'', ''few people'', ''people'',
     ''friends'', ''study group'']"

definition infer_match_type_preference :: "string \<Rightarrow> string" where
  "infer_match_type_preference t = (if list_ex (\<lambda>m. contains_str m (plain_text t)) multi_markers then ''multiple_people'' else ''one_person'')"

section \<open>Answers and new requests\<close>

text \<open>What the user has open: the proposals and the invitations, as the loader builds them\<close>

record connection_context =
  cc_initiator :: "dict list"
  cc_target :: "dict list"
  cc_recent :: "dict list"

definition pop_key :: "string \<Rightarrow> dict \<Rightarrow> dict" where
  "pop_key k d = filter (\<lambda>(k', v). k' \<noteq> k) d"

definition pending_names :: "(json \<Rightarrow> string) \<Rightarrow> connection_context \<Rightarrow> string list" where
  "pending_names pystr cc =
     map (\<lambda>x. coerce_text pystr (map_of x ''target_name'')) (filter (\<lambda>x. json_truthy (map_of x ''target_name'')) (cc_initiator cc))"

definition answers_a_proposal :: "string \<Rightarrow> dict \<Rightarrow> bool" where
  "answers_a_proposal key d \<longleftrightarrow>
     (key = ''networking'' \<or> starts_with ''networking_'' key) \<and> case_is d CHR ''B''
     \<and> (json_truthy (map_of d ''request_id'') \<or> json_truthy (map_of d ''request_ids''))"

definition speaks_of_a_proposal :: "string list \<Rightarrow> string \<Rightarrow> string \<Rightarrow> bool" where
  "speaks_of_a_proposal names user_message said \<longleftrightarrow>
     contains_name_reference user_message names \<or> looks_like_match_presentation said names"

definition new_request :: "string \<Rightarrow> string \<Rightarrow> dict \<Rightarrow> dict" where
  "new_request user_message said d =
     (let hint = extract_purpose_hint_from_assistant_message said;
          fallback = (if py_strip user_message = [] then ''connect with someone'' else py_strip user_message);
          d1 = (if hint \<noteq> []
            then put_key ''selected_purpose'' (JStr (''connecting with someone for '' @ hint))
                   (put_key ''instruction'' (JStr (''User wants to connect with someone for '' @ hint @ ''.'')) d)
            else pop_key ''selected_purpose'' (put_key ''instruction'' (JStr (''User wants to start a new networking request: '' @ fallback)) d));
          d2 = put_key ''match_type_preference'' (JStr (infer_match_type_preference (user_message @ '' '' @ said))) (put_key ''case'' (JStr ''A'') d1)
      in pop_key ''accept'' (pop_key ''target_name'' (pop_key ''request_ids'' (pop_key ''request_id'' d2))))"

definition reconcile_one :: "string list \<Rightarrow> string \<Rightarrow> string \<Rightarrow> string \<Rightarrow> dict \<Rightarrow> dict" where
  "reconcile_one names user_message said key d =
     (if answers_a_proposal key d \<and> is_short_affirmative_reply user_message \<and> \<not> speaks_of_a_proposal names user_message said
      then new_request user_message said d else d)"

definition reconcile_task_instructions ::
  "(json \<Rightarrow> string) \<Rightarrow> instructions \<Rightarrow> string \<Rightarrow> dict list \<Rightarrow> connection_context \<Rightarrow> instructions" where
  "reconcile_task_instructions pystr ins user_message history cc =
     map (\<lambda>(k, d). (k, reconcile_one (pending_names pystr cc) user_message (get_last_assistant_message pystr history) k d)) ins"

section \<open>When the decision cannot be read\<close>

definition routed :: "string \<Rightarrow> dict \<Rightarrow> dict" where
  "routed reasoning payload =
     [(''can_handle_directly'', JBool False), (''reasoning'', JStr reasoning), (''tasks'', JList [JStr ''networking'']),
      (''task_instructions'', JObj [(''networking'', JObj payload)])]"

definition fallback_answer :: "(json \<Rightarrow> string) \<Rightarrow> bool \<Rightarrow> dict list \<Rightarrow> dict option" where
  "fallback_answer pystr accept invitations =
     (case invitations of [] \<Rightarrow> None
      | x # _ \<Rightarrow>
          (let rid = coerce_text pystr (map_of x ''request_id''); name = coerce_text pystr (map_of x ''initiator_name'') in
           if rid = [] then None
           else Some (routed ''Routing JSON parse failed; using pending target context fallback.''
             [(''case'', JStr ''C''),
              (''instruction'', JStr (''User '' @ (if accept then ''accepts'' else ''declines'') @ '' invitation'' @ (if name = [] then [] else '' from '' @ name))),
              (''request_id'', JStr rid), (''accept'', JBool accept)])))"

definition fallback_confirm :: "(json \<Rightarrow> string) \<Rightarrow> bool \<Rightarrow> dict list \<Rightarrow> dict option" where
  "fallback_confirm pystr accept proposals =
     (let rids = filter (\<lambda>r. r \<noteq> []) (map (\<lambda>x. coerce_text pystr (map_of x ''request_id'')) proposals) in
      if rids = [] then None
      else Some (routed ''Routing JSON parse failed; using pending initiator context fallback.''
        ([(''case'', JStr ''B''),
          (''instruction'', JStr (if accept then ''User confirms pending match suggestions.'' else ''User declines pending match suggestions.''))]
         @ (case rids of [r] \<Rightarrow> [(''request_id'', JStr r)] | _ \<Rightarrow> [(''request_ids'', JList (map JStr rids))]))))"

definition networking_fallback :: "(json \<Rightarrow> string) \<Rightarrow> string \<Rightarrow> connection_context \<Rightarrow> dict option" where
  "networking_fallback pystr user_message cc =
     (let affirmative = is_short_affirmative_reply user_message; decline = has_decline_intent user_message; accept = (affirmative \<and> \<not> decline) in
      if \<not> affirmative \<and> \<not> decline then None
      else case fallback_answer pystr accept (cc_target cc) of
          Some d \<Rightarrow> Some d | None \<Rightarrow> fallback_confirm pystr accept (cc_initiator cc))"

section \<open>Acknowledgements\<close>

text \<open>The texts the agent sends at once, one of which has an emoji: \<open>got it, canceling...\<close>, \<open>sending the invites...\<close>,
\<open>sending the invite...\<close>, \<open>nice, connecting you two...\<close>, \<open>got it...\<close>, \<open>let me check...\<close>, \<open>one sec, figuring out
what you might need rn\<close>, \<open>bet, your agent's out here networking with everyone rn ...\<close>, \<open>on it...\<close>
and \<open>on it, one sec...\<close>.\<close>

datatype acknowledgement =
    Canceling | SendingInvites | SendingInvite | ConnectingTwo | GotIt | LetMeCheck | FiguringOut | AgentIsOut | OnIt | OnItOneSec

definition uncertainty_markers :: "string list" where
  "uncertainty_markers = [''not sure'', ''idk'', ''i dont know'', ''anyone interesting'', ''maybe anyone'', ''whoever'', ''whatever'']"

definition is_generic_networking_message :: "string \<Rightarrow> bool" where
  "is_generic_networking_message message \<longleftrightarrow>
     plain_text message \<noteq> [] \<and> (list_ex (\<lambda>m. contains_str m (plain_text message)) uncertainty_markers
       \<or> list_ex (\<lambda>p. contains_str p (plain_words message)) generic_patterns)"

definition networking_instruction :: "instructions \<Rightarrow> dict" where
  "networking_instruction ins =
     (case map_of ins ''networking'' of
        Some (x # d) \<Rightarrow> x # d
      | _ \<Rightarrow>
          (case map_of ins ''groupchat_networking'' of
             Some (x # d) \<Rightarrow> x # d
           | _ \<Rightarrow>
               (case find (\<lambda>(k, d). starts_with ''networking_'' k \<or> starts_with ''groupchat_networking_'' k) ins of
                  Some (k, d) \<Rightarrow> d | None \<Rightarrow> [])))"

fun lower_text :: "json \<Rightarrow> string option" where
  "lower_text (JStr s) = Some (py_lower s)"
| "lower_text _ = None"

text \<open>None: a case or an instruction that is no text raises.\<close>

definition is_case :: "json \<Rightarrow> char \<Rightarrow> bool" where
  "is_case j c \<longleftrightarrow> j \<in> {JStr [c], JStr [lower_char c]}"

definition acknowledgement_of :: "dict \<Rightarrow> string \<Rightarrow> acknowledgement option" where
  "acknowledgement_of d message =
     (case (get_or d ''case'' (JStr []), lower_text (get_or d ''instruction'' (JStr []))) of
        (JStr c, Some instruction) \<Rightarrow>
          (let kind = JStr c; decline = has_decline_intent instruction; accept = map_of d ''accept'' in
           Some (if is_case kind CHR ''B''
             then if decline then Canceling
               else if json_truthy (map_of d ''request_ids'') \<or> (json_truthy (map_of d ''request_id'') \<and> contains_str ''multi'' instruction) then SendingInvites
               else if contains_str ''confirm'' instruction \<or> contains_str ''yes'' instruction then SendingInvite else OnIt
             else if is_case kind CHR ''C''
             then if accept = Some (JBool True) \<or> contains_str ''accept'' instruction then ConnectingTwo
               else if accept = Some (JBool False) \<or> decline then GotIt else OnIt
             else if is_case kind CHR ''D'' then LetMeCheck
             else if is_case kind CHR ''A''
             then if is_generic_networking_message message then FiguringOut
               else if json_truthy (map_of d ''selected_purpose'') \<or> json_truthy (map_of d ''group_name'') \<or> json_truthy (map_of d ''confirmed_purposes'')
               then AgentIsOut else FiguringOut
             else OnItOneSec))
      | _ \<Rightarrow> None)"

section \<open>What the executions have found\<close>

definition put_all :: "dict \<Rightarrow> dict \<Rightarrow> dict" where
  "put_all new d = foldl (\<lambda>d (k, v). put_key k v d) d new"

definition put_new :: "string \<Rightarrow> dict \<Rightarrow> dict \<Rightarrow> dict" where
  "put_new k value d = (case map_of value k of Some v \<Rightarrow> (if map_of d k = None then put_key k v d else d) | None \<Rightarrow> d)"

text \<open>The results of the tools are flattened; the names the invitations went to are collected.\<close>

fun flatten_one :: "json \<Rightarrow> dict \<times> json list \<Rightarrow> dict \<times> json list" where
  "flatten_one (JObj value) (d, sent) =
     (let d' = put_new ''connection_request_id'' value (put_new ''target_name'' value (put_new ''request_ids'' value (put_new ''matches'' value d)));
          target = get_or value ''target_name'' JNull
      in (d', if json_truthy (map_of value ''invitation_sent'') \<and> json_truthy (Some target) \<and> target \<notin> set sent then sent @ [target] else sent))"
| "flatten_one v x = x"

definition flatten :: "dict \<Rightarrow> dict \<times> json list \<Rightarrow> dict \<times> json list" where
  "flatten changes x = foldl (\<lambda>x (k, v). flatten_one v x) x changes"

text \<open>None: the collected data or the result is no object, which raises. (A list of pairs, which \<open>update\<close> would take too, is
not considered.)\<close>

definition aggregate_one :: "xresult \<Rightarrow> dict \<times> json list \<Rightarrow> (dict \<times> json list) option" where
  "aggregate_one r x =
     (case r_collected r of
        JObj collected \<Rightarrow>
          (let (d, sent) = flatten (r_changes r) (put_all (r_changes r) (put_all collected (fst x)), snd x) in
           if \<not> json_truthy (Some (r_result r)) then Some (d, sent)
           else case r_result r of
               JObj old \<Rightarrow> Some (put_all (pop_key ''response_text'' old) d, sent)
             | _ \<Rightarrow> None)
      | _ \<Rightarrow> None)"

fun aggregate_all :: "xresult list \<Rightarrow> dict \<times> json list \<Rightarrow> (dict \<times> json list) option" where
  "aggregate_all [] x = Some x"
| "aggregate_all (r # rs) x = (case aggregate_one r x of None \<Rightarrow> None | Some x' \<Rightarrow> aggregate_all rs x')"

definition add_name :: "json list \<Rightarrow> json \<Rightarrow> json list" where
  "add_name names n = (if json_truthy (Some n) \<and> n \<notin> set names then names @ [n] else names)"

definition name_of :: "json \<Rightarrow> json" where
  "name_of m = (case m of JObj d \<Rightarrow> get_or d ''target_name'' JNull | _ \<Rightarrow> JNull)"

definition list_at :: "dict \<Rightarrow> string \<Rightarrow> json list" where
  "list_at d k = (case map_of d k of Some (JList xs) \<Rightarrow> xs | _ \<Rightarrow> [])"

definition nested_names :: "dict \<Rightarrow> string \<Rightarrow> json list" where
  "nested_names data k =
     (case map_of data k of
        Some (JObj d) \<Rightarrow> map name_of (list_at d ''matches'') @ [get_or d ''target_name'' JNull] | _ \<Rightarrow> [])"

text \<open>The matches at the top are taken as they are, even twice.\<close>

definition extract_match_names :: "dict \<Rightarrow> json list" where
  "extract_match_names data =
     foldl add_name (filter (\<lambda>n. json_truthy (Some n)) (map name_of (list_at data ''matches'')))
       ([get_or data ''target_name'' JNull] @ list_at data ''sent_to_names'' @ nested_names data ''find_multi_matches'' @ nested_names data ''find_match''
        @ map name_of (list_at data ''_sent_invitations''))"

definition aggregate_data :: "xresult list \<Rightarrow> dict option" where
  "aggregate_data rs =
     (case aggregate_all rs ([], []) of
        None \<Rightarrow> None
      | Some (d, sent) \<Rightarrow>
          (let d1 = (if sent = [] then d else put_key ''sent_to_names'' (JList sent) d); names = extract_match_names d1 in
           Some (if names = [] then d1
             else put_key ''CRITICAL_match_names_USE_ONLY_THESE'' (JList names) (put_key ''match_names'' (JList names) d1))))"

definition build_actions_summary :: "(json \<Rightarrow> string) \<Rightarrow> (string \<times> xresult) list \<Rightarrow> string" where
  "build_actions_summary pystr results =
     (if results = [] then ''No actions taken.''
      else join_str (nl @ nl) (map (\<lambda>(k, r). ''['' @ k @ '']:'' @ nl @ summarize_actions pystr (r_taken r)) results))"

section \<open>Properties\<close>

lemma sanitize_keys: "fst ` set (sanitize_task_instruction d) \<subseteq> set allowed_fields"
  by (auto simp: sanitize_task_instruction_def)

lemma map_of_pop_key [simp]: "map_of (pop_key k d) k' = (if k' = k then None else map_of d k')"
  by (induction d) (auto simp: pop_key_def)

lemma new_request_keys:
  "map_of (new_request m said d) f \<noteq> None \<Longrightarrow>
     f \<in> {''instruction'', ''selected_purpose'', ''case'', ''match_type_preference''} \<or> map_of d f \<noteq> None"
  by (auto simp: new_request_def Let_def split: if_splits)

lemma new_request_is_no_answer: "\<not> answers_a_proposal key (new_request m said d)"
  by (simp add: answers_a_proposal_def new_request_def Let_def)

text \<open>whatever the language model writes, an instruction that reaches an execution has only fields of the list, also
after it was turned into a new request.\<close>

theorem instructions_have_allowed_fields:
  "\<forall>(key, d) \<in> set (reconcile_task_instructions pystr (sanitize_all_task_instructions j) m history cc). fst ` set d \<subseteq> set allowed_fields"
proof (rule ballI, clarify)
  fix key d f v
  assume "(key, d) \<in> set (reconcile_task_instructions pystr (sanitize_all_task_instructions j) m history cc)" and f: "(f, v) \<in> set d"
  then obtain d0 where d0: "(key, d0) \<in> set (sanitize_all_task_instructions j)"
    "d = reconcile_one (pending_names pystr cc) m (get_last_assistant_message pystr history) key d0"
    by (auto simp: reconcile_task_instructions_def)
  then have "fst ` set d0 \<subseteq> set allowed_fields"
    using sanitize_keys by (auto simp: sanitize_all_task_instructions_def split: json.splits)
  then have old: "map_of d0 k \<noteq> None \<Longrightarrow> k \<in> set allowed_fields" for k by (auto simp: map_of_eq_None_iff)
  have "map_of d f \<noteq> None" using weak_map_of_SomeI [OF f] by auto
  then have "f \<in> {''instruction'', ''selected_purpose'', ''case'', ''match_type_preference''} \<or> map_of d0 f \<noteq> None"
    using d0(2) new_request_keys by (auto simp: reconcile_one_def split: if_splits)
  moreover have "{''instruction'', ''selected_purpose'', ''case'', ''match_type_preference''} \<subseteq> set allowed_fields"
    by (simp add: allowed_fields_def)
  ultimately show "fst (f, v) \<in> set allowed_fields" using old by auto
qed


definition example_context :: connection_context where
  "example_context = \<lparr>cc_initiator = [[(''target_name'', JStr ''Bo''), (''request_id'', JStr ''r1'')]],
     cc_target = [[(''initiator_name'', JStr ''Cy''), (''request_id'', JStr ''r2'')]], cc_recent = []\<rparr>"


lemma fallback_answer_accept:
  "fallback_answer pystr accept xs = Some d \<Longrightarrow> map_of d ''task_instructions'' = Some (JObj [(''networking'', JObj p)])
     \<Longrightarrow> map_of p ''accept'' = Some (JBool accept) \<and> map_of p ''case'' = Some (JStr ''C'')"
  by (auto simp: fallback_answer_def routed_def Let_def split: list.splits if_splits)

lemma fallback_confirm_accept:
  "fallback_confirm pystr accept xs = Some d \<Longrightarrow> map_of d ''task_instructions'' = Some (JObj [(''networking'', JObj p)])
     \<Longrightarrow> map_of p ''accept'' = None"
  by (auto simp: fallback_confirm_def routed_def Let_def split: list.splits if_splits)

text \<open>when the decision of the model cannot be read, an invitation is accepted only for a message that starts like a yes and
holds no word of refusal. The start is compared as text, so \<open>better not\<close> accepts.\<close>

theorem unreadable_decision_accepts:
  assumes "networking_fallback pystr m cc = Some d" "map_of d ''task_instructions'' = Some (JObj [(''networking'', JObj p)])"
    "map_of p ''accept'' = Some (JBool True)"
  shows "is_short_affirmative_reply m \<and> \<not> has_decline_intent m \<and> map_of p ''case'' = Some (JStr ''C'')"
  using assms fallback_answer_accept [of pystr _ "cc_target cc" d p] fallback_confirm_accept [of pystr _ "cc_initiator cc" d p]
  by (fastforce simp: networking_fallback_def Let_def split: if_splits option.splits)

lemma better_not_accepts:
  "\<exists>d p. networking_fallback (\<lambda>j. ''?'') ''better not'' example_context = Some d
     \<and> map_of d ''task_instructions'' = Some (JObj [(''networking'', JObj p)]) \<and> map_of p ''accept'' = Some (JBool True)"
  by (rule exI [of _ "routed ''Routing JSON parse failed; using pending target context fallback.''
        [(''case'', JStr ''C''), (''instruction'', JStr ''User accepts invitation from Cy''), (''request_id'', JStr ''r2''), (''accept'', JBool True)]"],
      rule exI [of _ "[(''case'', JStr ''C''), (''instruction'', JStr ''User accepts invitation from Cy''), (''request_id'', JStr ''r2''), (''accept'', JBool True)]"])
     code_simp

lemma unreadable_decision_accepts_witness:
  "is_short_affirmative_reply ''better not'' \<and> \<not> has_decline_intent ''better not''"
  using better_not_accepts unreadable_decision_accepts [of "\<lambda>j. ''?''" "''better not''" example_context] by blast

text \<open>Taking out the braces can put braces next to each other; an instruction that says somebody does not accept is
acknowledged like an acceptance.\<close>

lemma braces_come_back: "drop_braces ''{}}{user'' = ''{{user''"
  by code_simp

lemma refusal_connects:
  "acknowledgement_of [(''case'', JStr ''C''), (''instruction'', JStr ''user does not accept''), (''accept'', JBool False)] m = Some ConnectingTwo"
  unfolding acknowledgement_of_def by code_simp

section \<open>Two invitations\<close>

definition invitation_result :: "dict \<Rightarrow> json \<Rightarrow> bool" where
  "invitation_result a n \<longleftrightarrow> map_of a ''target_name'' = Some n \<and> json_truthy (Some n) \<and> json_truthy (map_of a ''invitation_sent'')"

definition after_call :: "json \<Rightarrow> 'w xstate \<Rightarrow> 'w xstate" where
  "after_call data s = s\<lparr>xs_last := Some \<lparr>tr_success = True, tr_data = data, tr_error = None\<rparr>\<rparr>"

lemma two_invitations_stored:
  assumes "m_results (xs_mem s) = []" "invitation_result a n" "invitation_result b n'" "n \<noteq> n'"
  shows "\<exists>s1 s2. store_interim ''confirm_and_send_invitation'' (after_call (JObj a) s) = (Inr (), s1)
    \<and> store_interim ''confirm_and_send_invitation'' (after_call (JObj b) s1) = (Inr (), s2)
    \<and> m_results (xs_mem s2) = [(''_sent_invitations'', JList [JObj a, JObj b]), (''sent_to_names'', JList [n, n']),
        (''confirm_and_send_invitation'', JObj b)]"
  using assms
  by (auto simp: store_interim_def after_call_def store_sent_def io_bind_def on_mem_def store_result_def get_result_def get_or_def
      invitation_result_def Let_def)

lemma two_names:
  assumes "r_changes r = [(''_sent_invitations'', JList [JObj a, JObj b]), (''sent_to_names'', JList [n, n']), (''confirm_and_send_invitation'', JObj b)]"
    "r_collected r = JObj []" "r_result r = JNull" "invitation_result a n" "invitation_result b n'"
  shows "\<exists>d. aggregate_data [r] = Some d \<and> map_of d ''sent_to_names'' = Some (JList [n'])"
proof -
  have "\<exists>d. aggregate_all [r] ([], []) = Some (d, [n'])"
    using assms by (auto simp: aggregate_one_def flatten_def put_all_def put_new_def get_or_def invitation_result_def Let_def split: option.splits)
  then show ?thesis by (auto simp: aggregate_data_def Let_def)
qed

text \<open>when one execution sends two invitations, both names are stored in its results, but the names that are passed on for
the answer to the user are only the last one.\<close>

theorem second_invitation_hides_the_first:
  assumes "m_results (xs_mem s) = []" "invitation_result a n" "invitation_result b n'" "n \<noteq> n'"
  shows "\<exists>s1 s2. store_interim ''confirm_and_send_invitation'' (after_call (JObj a) s) = (Inr (), s1)
    \<and> store_interim ''confirm_and_send_invitation'' (after_call (JObj b) s1) = (Inr (), s2)
    \<and> map_of (m_results (xs_mem s2)) ''sent_to_names'' = Some (JList [n, n'])
    \<and> (\<forall>r. r_changes r = m_results (xs_mem s2) \<and> r_collected r = JObj [] \<and> r_result r = JNull
         \<longrightarrow> (\<exists>d. aggregate_data [r] = Some d \<and> map_of d ''sent_to_names'' = Some (JList [n'])))"
proof -
  obtain s1 s2 where s: "store_interim ''confirm_and_send_invitation'' (after_call (JObj a) s) = (Inr (), s1)"
    "store_interim ''confirm_and_send_invitation'' (after_call (JObj b) s1) = (Inr (), s2)"
    "m_results (xs_mem s2) = [(''_sent_invitations'', JList [JObj a, JObj b]), (''sent_to_names'', JList [n, n']),
        (''confirm_and_send_invitation'', JObj b)]"
    using two_invitations_stored [OF assms] by blast
  then show ?thesis using two_names [OF _ _ _ assms(2, 3)] by auto
qed

definition example_sent :: "string \<Rightarrow> dict" where
  "example_sent n = [(''target_name'', JStr n), (''invitation_sent'', JBool True)]"

lemma second_invitation_hides_the_first_witness:
  "\<exists>s1 s2. store_interim ''confirm_and_send_invitation'' (after_call (JObj (example_sent ''Bo'')) (start_state (new_memory [] ''networking'') (0 :: nat))) = (Inr (), s1)
    \<and> store_interim ''confirm_and_send_invitation'' (after_call (JObj (example_sent ''Cy'')) s1) = (Inr (), s2)
    \<and> map_of (m_results (xs_mem s2)) ''sent_to_names'' = Some (JList [JStr ''Bo'', JStr ''Cy''])"
proof -
  have "m_results (xs_mem (start_state (new_memory [] ''networking'') (0 :: nat))) = []" "invitation_result (example_sent ''Bo'') (JStr ''Bo'')"
    "invitation_result (example_sent ''Cy'') (JStr ''Cy'')" "JStr ''Bo'' \<noteq> JStr ''Cy''"
    by (simp_all add: start_state_def new_memory_def invitation_result_def example_sent_def)
  from second_invitation_hides_the_first [OF this] show ?thesis by blast
qed

end
