(* ===== verification/Interaction_Loop.thy ===== *)
theory Interaction_Loop
  imports Instruction_Rules "HOL-Library.AList"
begin

text \<open>
  The interaction agent (app/agents/interaction/agent.py and state.py): what happens to a message from the loading of its context to
  the answer. The language model, the database and the sending are operations on a world; the executions of
  tasks are those of the execution agent, one after the other.
\<close>

section \<open>The profile\<close>

definition or_list :: "dict \<Rightarrow> string \<Rightarrow> json" where
  "or_list d k = (if json_truthy (map_of d k) then the (map_of d k) else JList [])"

definition valid_stages :: "string list" where
  "valid_stages = [''value_eval'', ''needs_eval'', ''rejected'', ''name'', ''school'', ''career_interest'', ''email_connect'', ''share_to_complete'', ''complete'']"

definition sub_object :: "json \<Rightarrow> string \<Rightarrow> json" where
  "sub_object j k = (case j of JObj d \<Rightarrow> get_or d k (JObj []) | _ \<Rightarrow> JObj [])"

definition object_field :: "json \<Rightarrow> string \<Rightarrow> json option" where
  "object_field j k = (case j of JObj d \<Rightarrow> map_of d k | _ \<Rightarrow> None)"

definition status_text :: "(json \<Rightarrow> string) \<Rightarrow> json \<Rightarrow> string" where
  "status_text pystr j = (case j of JObj d \<Rightarrow> py_lower (py_text pystr (get_or d ''status'' (JStr []))) | _ \<Rightarrow> [])"

text \<open>The stage of a user who is not onboarded. \<open>Inl j\<close>: a stored stage that is a list or an object cannot be looked up in the set
of stages, and a need evaluation that is no object has no \<open>get\<close>.\<close>

definition derived_stage :: "(json \<Rightarrow> string) \<Rightarrow> dict \<Rightarrow> json \<Rightarrow> json + string" where
  "derived_stage pystr profile pf =
     (let email_status = status_text pystr (sub_object pf ''email_connect''); need = sub_object pf ''frank_need_eval'';
          turns = json_truthy (object_field (sub_object pf ''frank_value_eval'') ''asked_questions'')
      in if turns \<or> status_text pystr need = ''accepted'' then Inr ''value_eval''
         else case need of
             JObj d \<Rightarrow> Inr (if json_truthy (map_of d ''asked_questions'') \<or> email_status = ''connected'' then ''needs_eval'' else ''email_connect'')
           | j \<Rightarrow> Inl j)"

definition onboarding_stage :: "(json \<Rightarrow> string) \<Rightarrow> dict \<Rightarrow> json + string" where
  "onboarding_stage pystr profile =
     (let pf = get_or profile ''personal_facts'' (JObj []); stored = (case object_field pf ''onboarding_stage'' of Some s \<Rightarrow> s | None \<Rightarrow> JNull) in
      if json_truthy (map_of profile ''is_onboarded'') then Inr ''complete''
      else case stored of
          JList _ \<Rightarrow> Inl stored
        | JObj _ \<Rightarrow> Inl stored
        | _ \<Rightarrow>
            (if stored \<in> JStr ` set valid_stages then Inr (py_text pystr stored)
             else if \<not> json_truthy (map_of profile ''name'') then Inr ''name''
             else if \<not> json_truthy (map_of profile ''university'') then Inr ''school''
             else if \<not> json_truthy (map_of profile ''career_interests'') then Inr ''career_interest''
             else derived_stage pystr profile pf))"

definition profile_fields :: "dict \<Rightarrow> dict" where
  "profile_fields user =
     [(''phone_number'', get_or user ''phone_number'' (JStr [])), (''user_id'', get_or user ''id'' (JStr [])), (''name'', get_or user ''name'' JNull),
      (''email'', get_or user ''email'' JNull), (''linkedin_url'', get_or user ''linkedin_url'' JNull), (''demand_history'', or_list user ''demand_history''),
      (''value_history'', or_list user ''value_history''), (''latest_demand'', get_or user ''latest_demand'' JNull), (''all_demand'', get_or user ''all_demand'' JNull),
      (''all_value'', get_or user ''all_value'' JNull), (''intro_fee_cents'', get_or user ''intro_fee_cents'' JNull), (''university'', get_or user ''university'' JNull),
      (''major'', get_or user ''major'' JNull), (''year'', get_or user ''year'' JNull), (''career_interests'', get_or user ''career_interests'' (JList [])),
      (''needs'', get_or user ''needs'' (JList [])), (''career_goals'', get_or user ''career_goals'' JNull),
      (''personal_facts'', if json_truthy (map_of user ''personal_facts'') then the (map_of user ''personal_facts'') else JObj []),
      (''networking_clarification'', get_or user ''networking_clarification'' JNull), (''networking_limitation'', get_or user ''networking_limitation'' JNull),
      (''is_onboarded'', get_or user ''is_onboarded'' (JBool False)), (''seeking_skills'', or_list user ''seeking_skills''),
      (''offering_skills'', or_list user ''offering_skills''), (''seeking_relationship_types'', or_list user ''seeking_relationship_types''),
      (''offering_relationship_types'', or_list user ''offering_relationship_types'')]"

definition populate_user_profile :: "(json \<Rightarrow> string) \<Rightarrow> dict \<Rightarrow> dict \<Rightarrow> json + dict" where
  "populate_user_profile pystr profile user =
     (let p = put_all (profile_fields user) profile in
      case onboarding_stage pystr p of Inl j \<Rightarrow> Inl j | Inr stage \<Rightarrow> Inr (put_key ''onboarding_stage'' (JStr stage) p))"

definition requires_onboarding :: "dict \<Rightarrow> bool" where
  "requires_onboarding profile \<longleftrightarrow>
     \<not> json_truthy (map_of profile ''is_onboarded'') \<and> get_or profile ''onboarding_stage'' (JStr ''name'') \<notin> {JStr ''complete'', JStr ''rejected''}"

section \<open>Open requests and invitations\<close>

text \<open>The first two reasons; None when they cannot be sliced or joined.\<close>

definition two_reasons :: "dict \<Rightarrow> string option" where
  "two_reasons row =
     (case get_or row ''matching_reasons'' (JList []) of
        JList xs \<Rightarrow> (if list_all (\<lambda>x. case x of JStr _ \<Rightarrow> True | _ \<Rightarrow> False) (take 2 xs)
          then Some (join_str '', '' (map (py_text (\<lambda>j. [])) (take 2 xs))) else None)
      | JStr s \<Rightarrow> Some (join_str '', '' (map (\<lambda>c. [c]) (take 2 s)))
      | _ \<Rightarrow> None)"

text \<open>\<open>side\<close> is the role of the other user: \<open>target\<close> or \<open>initiator\<close>.\<close>

definition open_entry :: "string \<Rightarrow> (string \<Rightarrow> dict option) \<Rightarrow> dict \<Rightarrow> dict option" where
  "open_entry side user_of row =
     (let u = (case map_of row (side @ ''_user_id'') of Some (JStr i) \<Rightarrow> (case user_of i of Some u \<Rightarrow> u | None \<Rightarrow> []) | _ \<Rightarrow> []) in
      map_option (\<lambda>reasons.
        [(''request_id'', get_or row ''id'' JNull), (''status'', get_or row ''status'' JNull), (side @ ''_name'', get_or u ''name'' (JStr ''Unknown'')),
         (side @ ''_school'', get_or u ''university'' (JStr [])), (''match_reason'', JStr reasons), (''group_chat_guid'', get_or row ''group_chat_guid'' JNull)])
        (two_reasons row))"

definition recent_entry :: "dict \<Rightarrow> dict option" where
  "recent_entry row = map_option (\<lambda>reasons. [(''connected_with_name'', get_or row ''connected_with_name'' (JStr ''Unknown'')), (''match_reason'', JStr reasons)]) (two_reasons row)"

text \<open>The entries up to the first that raises, and whether all were made\<close>

fun entries_until :: "(dict \<Rightarrow> dict option) \<Rightarrow> dict list \<Rightarrow> dict list \<times> bool" where
  "entries_until f [] = ([], True)"
| "entries_until f (x # xs) = (case f x of None \<Rightarrow> ([], False) | Some y \<Rightarrow> (let (ys, ok) = entries_until f xs in (y # ys, ok)))"

definition connection_lists :: "(string \<Rightarrow> dict option) \<Rightarrow> dict list \<Rightarrow> dict list \<Rightarrow> dict list \<Rightarrow> connection_context" where
  "connection_lists user_of initiator target recent =
     (let (a, ok) = entries_until (open_entry ''target'' user_of) initiator;
          (b, ok') = (if ok then entries_until (open_entry ''initiator'' user_of) target else ([], False));
          (c, _) = (if ok' then entries_until recent_entry recent else ([], False))
      in \<lparr>cc_initiator = a, cc_target = b, cc_recent = c\<rparr>)"

definition empty_context :: connection_context where
  "empty_context = \<lparr>cc_initiator = [], cc_target = [], cc_recent = []\<rparr>"

section \<open>Tasks of a message\<close>

record istate =
  st_profile :: dict
  st_content :: string
  st_message_id :: json
  st_chat :: json
  st_from :: string
  st_history :: "dict list"
  st_recent :: string
  st_cc :: connection_context
  st_group :: bool
  st_participants :: "json list"
  st_group_history :: "dict list"
  st_cannot :: "json option"
  st_instructions :: instructions

text \<open>\<open>rsplit("_", 1)\<close>: what stands before and after the last underscore\<close>

definition split_last :: "string \<Rightarrow> (string \<times> string) option" where
  "split_last key =
     (if CHR ''_'' \<in> set key
      then Some (butlast (rev (dropWhile (\<lambda>c. c \<noteq> CHR ''_'') (rev key))), rev (takeWhile (\<lambda>c. c \<noteq> CHR ''_'') (rev key)))
      else None)"

definition instruction_for :: "instructions \<Rightarrow> string \<Rightarrow> string option \<Rightarrow> dict" where
  "instruction_for ins key base =
     (case map_of ins key of
        Some (x # d) \<Rightarrow> x # d
      | _ \<Rightarrow> (case base of None \<Rightarrow> [] | Some b \<Rightarrow> (case map_of ins b of Some d \<Rightarrow> d | None \<Rightarrow> [])))"

definition build_task_context :: "istate \<Rightarrow> string \<Rightarrow> dict" where
  "build_task_context st key =
     [(''user_profile'', JObj (st_profile st)), (''task_instruction'', JObj (instruction_for (st_instructions st) key (map_option fst (split_last key)))),
      (''user_message'', JStr (st_content st)), (''message_id'', st_message_id st), (''chat_guid'', st_chat st), (''from_number'', JStr (st_from st))]"

text \<open>Tasks that occur more than once get numbered keys.\<close>

definition task_pairs :: "string list \<Rightarrow> (string \<times> string) list" where
  "task_pairs names = map (\<lambda>i. let n = names ! i in
     (if 1 < count_list names n then n @ ''_'' @ str_nat (count_list (take i names) n) else n, n)) [0..<length names]"

record task_state =
  ts_status :: string
  ts_result :: "xresult option"
  ts_waiting :: json

definition failed_state :: task_state where
  "failed_state = \<lparr>ts_status = ''failed'', ts_result = None, ts_waiting = JNull\<rparr>"

type_synonym states = "(string \<times> task_state) list"

definition ts_terminal :: "task_state \<Rightarrow> bool" where
  "ts_terminal t \<longleftrightarrow> ts_status t \<in> {''complete'', ''failed'', ''waiting''}"

definition needs_more_work :: "task_state \<Rightarrow> bool" where
  "needs_more_work t \<longleftrightarrow> ts_status t \<in> {''pending'', ''running''}"

definition all_complete :: "states \<Rightarrow> bool" where
  "all_complete ss \<longleftrightarrow> ss \<noteq> [] \<and> list_all (\<lambda>x. ts_status (snd x) \<in> {''complete'', ''waiting''}) ss"

definition any_with :: "string \<Rightarrow> states \<Rightarrow> bool" where
  "any_with status ss \<longleftrightarrow> list_ex (\<lambda>x. ts_status (snd x) = status) ss"

definition keys_with :: "string \<Rightarrow> states \<Rightarrow> string list" where
  "keys_with status ss = map fst (filter (\<lambda>(k, t). ts_status t = status) ss)"

definition states_with :: "string \<Rightarrow> states \<Rightarrow> task_state list" where
  "states_with status ss = map snd (filter (\<lambda>(k, t). ts_status t = status) ss)"

definition incomplete_tasks :: "states \<Rightarrow> string list" where
  "incomplete_tasks ss = map fst (filter (\<lambda>(k, t). needs_more_work t) ss)"

section \<open>The record of a task\<close>

definition copy_keys :: "string list \<Rightarrow> (json option \<Rightarrow> bool) \<Rightarrow> dict \<Rightarrow> dict" where
  "copy_keys ks wanted d = List.map_filter (\<lambda>k. if wanted (map_of d k) then Some (k, the (map_of d k)) else None) ks"

definition pending_task :: "dict \<Rightarrow> dict \<Rightarrow> dict" where
  "pending_task instr collected =
     (let task = copy_keys [''case'', ''instruction'', ''chat_guid'', ''target_chat_identifier'', ''time'', ''meeting_purpose'', ''message''] json_truthy instr;
          clarification = copy_keys [''clarification_type'', ''original_text'', ''missing_attendees'', ''parsed_so_far'', ''message'', ''needs_clarification'']
            (\<lambda>v. v \<noteq> None) collected
      in if clarification = [] then task else task @ [(''clarification'', JObj clarification)])"

definition waiting_data :: "string \<Rightarrow> dict \<Rightarrow> dict \<Rightarrow> json \<Rightarrow> dict" where
  "waiting_data base instr collected waiting =
     (if \<not> json_truthy (Some waiting) then []
      else (''waiting_for'', waiting) #
        (if base = ''groupchat_maintenance'' \<and> pending_task instr collected \<noteq> [] then [(''pending_task'', JObj (pending_task instr collected))] else []))"

definition important_keys :: "string list" where
  "important_keys = [''match_found'', ''match_name'', ''field_updated'', ''clarification_question'', ''request_id'', ''request_ids'',
     ''connection_request_id'', ''signals'', ''suggestions'', ''selected_purpose'', ''group_name'']"

text \<open>\<open>Inl j\<close>: \<open>j\<close> is asked for a key and is no object.\<close>

definition add_match_details :: "dict \<Rightarrow> dict \<Rightarrow> json + dict" where
  "add_match_details collected kd =
     (let details = get_or collected ''match_details'' (JObj []) in
      if \<not> json_truthy (Some details) then Inr kd
      else case details of
          JObj d \<Rightarrow>
            (let kd1 = (if json_truthy (map_of d ''request_id'') \<and> map_of kd ''request_id'' = None then put_key ''request_id'' (the (map_of d ''request_id'')) kd else kd) in
             Inr (if json_truthy (map_of d ''target_name'') then put_key ''match_name'' (the (map_of d ''target_name'')) kd1 else kd1))
        | j \<Rightarrow> Inl j)"

definition add_match_names :: "dict \<Rightarrow> dict \<Rightarrow> json + dict" where
  "add_match_names collected kd =
     (case find (\<lambda>m. case m of JObj _ \<Rightarrow> False | _ \<Rightarrow> True) (list_at collected ''matches'') of
        Some j \<Rightarrow> Inl j
      | None \<Rightarrow>
          (let names = filter (\<lambda>n. json_truthy (Some n)) (map name_of (list_at collected ''matches'')) in
           Inr (if names = [] then kd else put_key ''match_names'' (JList names) kd)))"

definition outcome_of :: "dict \<Rightarrow> xresult \<Rightarrow> json" where
  "outcome_of collected r =
     (let summary = get_or collected ''summary'' (JStr []) in
      if json_truthy (Some summary) then summary
      else if truthy_str (r_error r) then JStr (''Error: '' @ take 100 (the (r_error r)))
      else JStr (if r_status r = ''waiting'' then ''Waiting for user'' else if r_status r = ''complete'' then ''Completed'' else ''Failed''))"

definition base_of :: "string \<Rightarrow> string" where
  "base_of key = (case split_last key of Some (b, n) \<Rightarrow> if all_isdigit n then b else key | None \<Rightarrow> key)"

definition key_data_of :: "string \<Rightarrow> dict \<Rightarrow> dict \<Rightarrow> xresult \<Rightarrow> json + dict" where
  "key_data_of base instr collected r =
     (let kd = waiting_data base instr collected (r_waiting r) @ copy_keys important_keys (\<lambda>v. v \<noteq> None) collected in
      case add_match_details collected kd of Inl j \<Rightarrow> Inl j | Inr kd1 \<Rightarrow> add_match_names collected kd1)"

text \<open>\<open>x[:500] if x else ""\<close>; None: it raises, and nothing is saved.\<close>

definition trim_json :: "json \<Rightarrow> json option" where
  "trim_json j =
     (if \<not> json_truthy (Some j) then Some (JStr [])
      else case j of JStr s \<Rightarrow> Some (JStr (take 500 s)) | JList xs \<Rightarrow> Some (JList (take 500 xs)) | _ \<Rightarrow> None)"

definition task_row :: "json \<Rightarrow> string \<Rightarrow> json \<Rightarrow> json \<Rightarrow> string \<Rightarrow> dict \<Rightarrow> dict option" where
  "task_row uid base instruction outcome status kd =
     (case (trim_json instruction, trim_json outcome) of
        (Some i, Some out) \<Rightarrow> Some [(''user_id'', uid), (''task_name'', JStr base), (''instruction'', i), (''outcome'', out), (''status'', JStr status), (''key_data'', JObj kd)]
      | _ \<Rightarrow> None)"

text \<open>What is saved of an execution: nothing without a user.\<close>

definition history_row :: "istate \<Rightarrow> string \<Rightarrow> xresult \<Rightarrow> json + dict option" where
  "history_row st key r =
     (let uid = get_or (st_profile st) ''user_id'' JNull; base = base_of key; instr = instruction_for (st_instructions st) key (Some base) in
      if \<not> json_truthy (Some uid) then Inr None
      else case (if json_truthy (Some (r_collected r)) then r_collected r else JObj []) of
          JObj collected \<Rightarrow>
            (case key_data_of base instr collected r of
               Inl j \<Rightarrow> Inl j
             | Inr kd \<Rightarrow> Inr (task_row uid base (get_or instr ''instruction'' (JStr [])) (outcome_of collected r) (r_status r) kd))
        | j \<Rightarrow> Inl j)"

section \<open>What the agent stands on\<close>

text \<open>Asking the language model fails when the prompt is built, which nobody catches on the spot, or when the model is called.\<close>

datatype lfail = PromptFails string | ModelFails string

datatype answer_kind = Boundary | InGroup | InPrivate

record 'w ienv =
  i_pystr :: "json \<Rightarrow> string"
  i_loads :: "string \<Rightarrow> json option"
  i_no_get :: "json \<Rightarrow> string"
  i_tasks :: "(string \<times> 'w xenv) list"
  i_history :: "string \<Rightarrow> ('w, string, dict list) io"
  i_recent :: "string \<Rightarrow> 'w \<Rightarrow> string \<times> 'w"
  i_pending :: "string \<Rightarrow> string \<Rightarrow> ('w, string, dict list) io"
  i_connected :: "string \<Rightarrow> ('w, string, dict list) io"
  i_user :: "string \<Rightarrow> ('w, string, dict option) io"
  i_location :: "string \<Rightarrow> ('w, string, json) io"
  i_group_history :: "json \<Rightarrow> ('w, string, dict list) io"
  i_cancelled :: "'w \<Rightarrow> bool \<times> 'w"
  i_decide :: "istate \<Rightarrow> ('w, lfail, string) io"
  i_direct :: "answer_kind \<Rightarrow> istate \<Rightarrow> string \<Rightarrow> ('w, lfail, string) io"
  i_reassign :: "string \<Rightarrow> nat \<Rightarrow> states \<Rightarrow> istate \<Rightarrow> ('w, lfail, string) io"
  i_complete :: "string \<Rightarrow> (string \<times> xresult) list \<Rightarrow> istate \<Rightarrow> ('w, lfail, string) io"
  i_synthesize :: "string \<Rightarrow> string \<Rightarrow> dict \<Rightarrow> string \<Rightarrow> json \<Rightarrow> istate \<Rightarrow> ('w, lfail, string) io"
  i_send :: "json \<Rightarrow> acknowledgement \<Rightarrow> ('w, string, unit) io"
  i_store :: "json \<Rightarrow> acknowledgement \<Rightarrow> string list \<Rightarrow> ('w, string, unit) io"
  i_save :: "dict \<Rightarrow> 'w \<Rightarrow> 'w"
  i_classify :: "string \<Rightarrow> dict \<Rightarrow> ('w, string, dict) io"
  i_onboard :: "istate \<Rightarrow> string \<Rightarrow> ('w, string, dict) io"

definition ask_model :: "('w, lfail, string) io \<Rightarrow> (string \<Rightarrow> ('w, string, 'a) io) \<Rightarrow> (string \<Rightarrow> ('w, string, 'a) io) \<Rightarrow> ('w, string, 'a) io" where
  "ask_model m answered failed w =
     (case m w of
        (Inl (PromptFails e), w') \<Rightarrow> (Inl e, w')
      | (Inl (ModelFails e), w') \<Rightarrow> failed e w'
      | (Inr t, w') \<Rightarrow> answered t w')"

text \<open>\<open>j.get\<close>\<close>

definition object_of :: "'w ienv \<Rightarrow> json \<Rightarrow> ('w, string, dict) io" where
  "object_of v j = (case j of JObj d \<Rightarrow> io_return d | _ \<Rightarrow> io_raise (i_no_get v j))"

definition lift_json :: "'w ienv \<Rightarrow> json + 'a \<Rightarrow> ('w, string, 'a) io" where
  "lift_json v x = (case x of Inl j \<Rightarrow> io_raise (i_no_get v j) | Inr y \<Rightarrow> io_return y)"

fun fetch_users :: "'w ienv \<Rightarrow> string list \<Rightarrow> ('w, string, (string \<times> dict) list) io" where
  "fetch_users v [] = io_return []"
| "fetch_users v (i # ids) = io_bind (i_user v i) (\<lambda>u. io_bind (fetch_users v ids) (\<lambda>us.
     io_return ((case u of Some d \<Rightarrow> (case map_of d ''id'' of Some (JStr k) \<Rightarrow> if k \<noteq> [] then [(k, d)] else [] | _ \<Rightarrow> []) | None \<Rightarrow> []) @ us)))"

definition ids_of :: "string \<Rightarrow> dict list \<Rightarrow> string list" where
  "ids_of k rows = List.map_filter (\<lambda>r. or_null (get_str r k)) rows"

text \<open>The users are fetched in some order, here that of the requests.\<close>

definition load_active_connection_context :: "'w ienv \<Rightarrow> string \<Rightarrow> ('w, string, connection_context) io" where
  "load_active_connection_context v uid =
     io_catch
       (io_bind (i_pending v ''initiator'' uid) (\<lambda>a. io_bind (i_pending v ''target'' uid) (\<lambda>b. io_bind (i_connected v uid) (\<lambda>c.
        io_bind (fetch_users v (remdups (ids_of ''target_user_id'' a @ ids_of ''initiator_user_id'' b))) (\<lambda>us.
          io_return (connection_lists (map_of (rev us)) a b c))))))
       (\<lambda>e. io_return empty_context)"

definition no_location :: json where
  "no_location = JObj [(''has_location'', JBool False), (''area_summary'', JStr ''location not shared yet'')]"

definition or_value :: "'a \<Rightarrow> ('w, string, 'a) io \<Rightarrow> ('w, string, 'a) io" where
  "or_value x m = io_catch m (\<lambda>e. io_return x)"

definition load_conversation_history :: "'w ienv \<Rightarrow> string \<Rightarrow> ('w, string, dict list) io" where
  "load_conversation_history v uid = or_value [] (i_history v uid)"

definition load_group_chat_history :: "'w ienv \<Rightarrow> json \<Rightarrow> ('w, string, dict list) io" where
  "load_group_chat_history v chat = or_value [] (i_group_history v chat)"

definition load_location_context :: "'w ienv \<Rightarrow> string \<Rightarrow> ('w, string, json) io" where
  "load_location_context v uid = or_value no_location (i_location v uid)"

section \<open>Running tasks\<close>

text \<open>\<open>Inl\<close>: the execution raised before its loop.\<close>

definition execute_single :: "'w ienv \<Rightarrow> istate \<Rightarrow> string \<times> string \<Rightarrow> 'w \<Rightarrow> task_state \<times> 'w" where
  "execute_single v st pair w =
     (case map_of (i_tasks v) (snd pair) of
        None \<Rightarrow> (failed_state, w)
      | Some x \<Rightarrow>
          (case execute_task x (build_task_context st (fst pair)) w of
             (Inl j, w') \<Rightarrow> (failed_state, w')
           | (Inr r, w') \<Rightarrow> (\<lparr>ts_status = r_status r, ts_result = Some r, ts_waiting = r_waiting r\<rparr>, w')))"

fun execute_pairs :: "'w ienv \<Rightarrow> istate \<Rightarrow> (string \<times> string) list \<Rightarrow> 'w \<Rightarrow> states \<times> 'w" where
  "execute_pairs v st [] w = ([], w)"
| "execute_pairs v st (p # ps) w =
     (let (t, w1) = execute_single v st p w; (ts, w2) = execute_pairs v st ps w1 in ((fst p, t) # ts, w2))"

definition execute_tasks :: "'w ienv \<Rightarrow> istate \<Rightarrow> string list \<Rightarrow> 'w \<Rightarrow> states \<times> 'w" where
  "execute_tasks v st names = execute_pairs v st (task_pairs names)"

definition put_states :: "states \<Rightarrow> states \<Rightarrow> states" where
  "put_states new old = foldl (\<lambda>ss (k, t). AList.update k t ss) old new"

fun save_states :: "'w ienv \<Rightarrow> istate \<Rightarrow> states \<Rightarrow> ('w, string, (string \<times> xresult) list) io" where
  "save_states v st [] = io_return []"
| "save_states v st ((k, t) # ts) =
     (case ts_result t of
        None \<Rightarrow> save_states v st ts
      | Some r \<Rightarrow>
          io_bind (lift_json v (history_row st k r)) (\<lambda>row.
          io_bind (\<lambda>w. (Inr (), case row of None \<Rightarrow> w | Some d \<Rightarrow> i_save v d w)) (\<lambda>_.
          io_bind (save_states v st ts) (\<lambda>rs. io_return ((k, r) # rs)))))"

text \<open>The names in a list. (Names that are no texts are not considered.)\<close>

definition list_names :: "json \<Rightarrow> string list option" where
  "list_names j = (case j of
      JList xs \<Rightarrow> if list_all (\<lambda>x. case x of JStr _ \<Rightarrow> True | _ \<Rightarrow> False) xs then Some (map (py_text (\<lambda>j. [])) xs) else None
    | _ \<Rightarrow> None)"

definition rerun_names :: "'w ienv \<Rightarrow> dict \<Rightarrow> ('w, string, string list) io" where
  "rerun_names v d =
     (case (list_names (get_or d ''tasks_to_rerun'' (JList [])), list_names (get_or d ''new_tasks'' (JList []))) of
        (Some a, Some b) \<Rightarrow> io_return (a @ b)
      | _ \<Rightarrow> io_raise (i_no_get v (JObj d)))"

definition no_reassignment :: dict where
  "no_reassignment = [(''tasks_to_rerun'', JList []), (''new_tasks'', JList []), (''reasoning'', JStr ''Evaluation failed''), (''should_continue'', JBool False)]"

text \<open>\<open>elif\<close> in the reader of fences: a fence that is left stays.\<close>

definition strip_code_fences :: "string \<Rightarrow> string" where
  "strip_code_fences t =
     (let a = py_strip t;
          b = (if starts_with ''```json'' a then drop 7 a else if starts_with ''```'' a then drop 3 a else a);
          c = (if ends_with_str ''```'' b then take (length b - 3) b else b)
      in py_strip c)"

definition evaluate_for_reassignment :: "'w ienv \<Rightarrow> string \<Rightarrow> nat \<Rightarrow> states \<Rightarrow> istate \<Rightarrow> ('w, string, json) io" where
  "evaluate_for_reassignment v message n ss st =
     ask_model (i_reassign v message n ss st)
       (\<lambda>t. io_return (case i_loads v (strip_code_fences t) of Some j \<Rightarrow> j | None \<Rightarrow> JObj no_reassignment))
       (\<lambda>e. io_return (JObj no_reassignment))"

definition parse_llm_json :: "(string \<Rightarrow> json option) \<Rightarrow> string \<Rightarrow> json \<Rightarrow> json" where
  "parse_llm_json loads response x =
     (if response = [] then x else case loads (strip_code_fences response) of Some j \<Rightarrow> j | None \<Rightarrow> x)"

definition assumed_complete :: "string \<Rightarrow> json" where
  "assumed_complete why = JObj [(''is_complete'', JBool True), (''reasoning'', JStr (why @ '' failed, assuming complete''))]"

definition evaluate_completeness :: "'w ienv \<Rightarrow> string \<Rightarrow> (string \<times> xresult) list \<Rightarrow> istate \<Rightarrow> ('w, string, json) io" where
  "evaluate_completeness v message results st =
     ask_model (i_complete v message results st)
       (\<lambda>t. io_return (parse_llm_json (i_loads v) t (assumed_complete ''Parse'')))
       (\<lambda>e. io_return (assumed_complete ''Evaluation''))"

text \<open>The rounds of one message: whether the last failed for good, the states and the results. A round whose tasks all
completed or wait is the last; so is one in which a task waits.\<close>

fun rounds :: "'w ienv \<Rightarrow> istate \<Rightarrow> string \<Rightarrow> nat \<Rightarrow> nat \<Rightarrow> string list \<Rightarrow> states \<Rightarrow> (string \<times> xresult) list
    \<Rightarrow> ('w, string, bool \<times> states \<times> (string \<times> xresult) list) io" where
  "rounds v st message 0 n names ss acc = io_return (False, ss, acc)"
| "rounds v st message (Suc left) n names ss acc =
     (if names = [] then io_return (False, ss, acc)
      else io_bind (\<lambda>w. let (new, w') = execute_tasks v st names w in (Inr new, w')) (\<lambda>new.
        io_bind (save_states v st new) (\<lambda>rs.
        (let ss' = put_states new ss; acc' = acc @ rs in
         if all_complete ss' \<or> any_with ''waiting'' ss' then io_return (False, ss', acc')
         else if any_with ''failed'' ss'
         then (if left = 0 then io_return (True, ss', acc')
           else io_bind (evaluate_for_reassignment v message (Suc n) ss' st) (\<lambda>j.
             io_bind (object_of v j) (\<lambda>d.
               if \<not> json_truthy (map_of d ''should_continue'') then io_return (True, ss', acc')
               else io_bind (rerun_names v d) (\<lambda>again.
                 if again = [] then io_return (True, ss', acc') else rounds v st message left (Suc n) again ss' acc'))))
         else io_bind (evaluate_completeness v message acc' st) (\<lambda>j.
           io_bind (object_of v j) (\<lambda>d.
             if json_truthy (Some (get_or d ''is_complete'' (JBool True))) \<or> left = 0 then io_return (False, ss', acc')
             else io_bind (evaluate_for_reassignment v message (Suc n) ss' st) (\<lambda>j.
               io_bind (object_of v j) (\<lambda>d.
                 if \<not> json_truthy (map_of d ''should_continue'') then io_return (False, ss', acc')
                 else io_bind (rerun_names v d) (\<lambda>again. rounds v st message left (Suc n) again ss' acc')))))))))"

definition went_wrong :: string where
  "went_wrong = ''hey, something went wrong on my end. can you try that again''"

definition waiting_for :: "(string \<times> xresult) list \<Rightarrow> json" where
  "waiting_for results = (case find (\<lambda>(k, r). json_truthy (Some (r_waiting r))) results of Some (k, r) \<Rightarrow> r_waiting r | None \<Rightarrow> JNull)"

definition synthesize_response :: "'w ienv \<Rightarrow> string \<Rightarrow> (string \<times> xresult) list \<Rightarrow> istate \<Rightarrow> string \<Rightarrow> ('w, string, string) io" where
  "synthesize_response v message results st status =
     (case aggregate_data (map snd results) of
        None \<Rightarrow> io_raise (i_no_get v JNull)
      | Some d \<Rightarrow>
          ask_model (i_synthesize v message (build_actions_summary (i_pystr v) results) d status (if st_group st then JNull else waiting_for results) st)
            (\<lambda>t. io_return (py_strip t)) (\<lambda>e. io_return went_wrong))"

definition build_final_response :: "string \<Rightarrow> (string \<times> xresult) list \<Rightarrow> string list \<Rightarrow> string \<Rightarrow> dict" where
  "build_final_response t results tasks status =
     [(''success'', JBool (status \<noteq> ''failed'')), (''response_text'', JStr t), (''task'', if tasks = [] then JNull else JStr (last tasks)),
      (''status'', JStr status), (''error'', if results = [] then JNull else json_opt_str (r_error (snd (last results))))]"

definition send_early_acknowledgment :: "'w ienv \<Rightarrow> istate \<Rightarrow> string list \<Rightarrow> ('w, string, unit) io" where
  "send_early_acknowledgment v st tasks =
     (if \<not> list_ex (\<lambda>t. t \<in> {''networking'', ''groupchat_networking''}) tasks then io_return ()
      else let phone = get_or (st_profile st) ''phone_number'' JNull; uid = get_or (st_profile st) ''user_id'' JNull in
        if \<not> json_truthy (Some phone) then io_return ()
        else case acknowledgement_of (networking_instruction (st_instructions st)) (st_content st) of
            None \<Rightarrow> io_return ()
          | Some a \<Rightarrow> or_value () (io_bind (i_send v phone a) (\<lambda>_. if json_truthy (Some uid) then i_store v uid a tasks else io_return ())))"

definition final_status :: "bool \<Rightarrow> states \<Rightarrow> string" where
  "final_status failed ss = (if failed then ''failed'' else if any_with ''waiting'' ss then ''waiting'' else ''complete'')"

definition interaction_loop :: "'w ienv \<Rightarrow> istate \<Rightarrow> string \<Rightarrow> string list \<Rightarrow> ('w, string, dict) io" where
  "interaction_loop v st message tasks =
     io_bind (send_early_acknowledgment v st tasks) (\<lambda>_.
     io_bind (rounds v st message 2 0 tasks [] []) (\<lambda>(failed, ss, results).
     io_bind (synthesize_response v message results st (final_status failed ss)) (\<lambda>t.
       io_return (build_final_response t results tasks (final_status failed ss)))))"

section \<open>The decision\<close>

function split_fence :: "string \<Rightarrow> string \<Rightarrow> string list" where
  "split_fence acc [] = [rev acc]"
| "split_fence acc (c # s) =
     (if starts_with ''```'' (c # s) then rev acc # split_fence [] (drop 2 s) else split_fence (c # acc) s)"
  by pat_completeness auto
termination by (relation "measure (\<lambda>(acc, s). length s)") auto

definition fenced_part :: "string \<Rightarrow> string" where
  "fenced_part p = (let q = py_strip p in if starts_with ''json'' q then py_strip (drop 4 q) else q)"

definition out_of_fences :: "string \<Rightarrow> string" where
  "out_of_fences t =
     (if contains_str ''```'' t
      then (case find (\<lambda>p. starts_with ''{'' p) (map fenced_part (split_fence [] t)) of Some p \<Rightarrow> p | None \<Rightarrow> t) else t)"

definition braced :: "string \<Rightarrow> string" where
  "braced t =
     (let a = dropWhile (\<lambda>c. c \<noteq> CHR ''{'') t in
      if CHR ''}'' \<in> set a then rev (dropWhile (\<lambda>c. c \<noteq> CHR ''}'') (rev a)) else t)"

fun drop_commas :: "string \<Rightarrow> string" where
  "drop_commas [] = []"
| "drop_commas (c # s) =
     (if c = CHR '','' \<and> dropWhile py_space s \<noteq> [] \<and> hd (dropWhile py_space s) \<in> {CHR ''}'', CHR '']''} then drop_commas s else c # drop_commas s)"

definition clean_decision :: "string \<Rightarrow> string" where
  "clean_decision response = drop_commas (braced (out_of_fences (py_strip response)))"

definition direct_decision :: dict where
  "direct_decision = [(''can_handle_directly'', JBool True), (''reasoning'', JStr ''decision failed, defaulting to direct'')]"

definition decision_failed :: "'w ienv \<Rightarrow> istate \<Rightarrow> json" where
  "decision_failed v st = JObj (case networking_fallback (i_pystr v) (st_content st) (st_cc st) of Some d \<Rightarrow> d | None \<Rightarrow> direct_decision)"

definition should_handle_directly :: "'w ienv \<Rightarrow> istate \<Rightarrow> ('w, string, json) io" where
  "should_handle_directly v st =
     ask_model (i_decide v st)
       (\<lambda>t. io_return (case i_loads v (clean_decision t) of Some j \<Rightarrow> j | None \<Rightarrow> decision_failed v st))
       (\<lambda>e. io_return (decision_failed v st))"

section \<open>Answers without a task\<close>

definition build_error_response :: "string \<Rightarrow> string \<Rightarrow> dict" where
  "build_error_response error t =
     [(''success'', JBool False), (''error'', JStr error), (''response_text'', JStr t), (''intent'', JStr ''error''), (''status'', JStr ''failed'')]"

text \<open>\<open>cannot_fulfill and cannot_fulfill.get("all_unfulfillable")\<close>\<close>

definition boundary_flag :: "'w ienv \<Rightarrow> json \<Rightarrow> ('w, string, json) io" where
  "boundary_flag v cannot =
     (if \<not> json_truthy (Some cannot) then io_return cannot
      else io_bind (object_of v cannot) (\<lambda>d. io_return (get_or d ''all_unfulfillable'' JNull)))"

definition handle_direct_response :: "'w ienv \<Rightarrow> istate \<Rightarrow> string \<Rightarrow> dict \<Rightarrow> ('w, string, dict) io" where
  "handle_direct_response v st message d =
     io_bind (boundary_flag v (get_or d ''cannot_fulfill'' JNull)) (\<lambda>flag.
       let boundary = json_truthy (Some flag) in
       ask_model (i_direct v (if boundary then Boundary else if st_group st then InGroup else InPrivate) st message)
         (\<lambda>t. io_return [(''success'', JBool True), (''response_text'', JStr (py_strip t)),
            (''intent'', JStr (if boundary then ''capability_boundary'' else ''direct'')), (''status'', JStr ''complete''),
            (''handled_directly'', JBool True), (''capability_boundary'', flag)])
         (\<lambda>e. io_return (build_error_response e went_wrong)))"

text \<open>The question for the location. The state has no user id of its own, and the profile has its id under another key.\<close>

definition last_bot_message :: "dict list \<Rightarrow> json" where
  "last_bot_message history =
     (case find (\<lambda>m. map_of m ''role'' = Some (JStr ''assistant'') \<or> map_of m ''message_type'' = Some (JStr ''bot'')) (rev (drop (length history - 5) history)) of
        Some m \<Rightarrow> get_or m ''content'' (JStr []) | None \<Rightarrow> JNull)"

definition asks_location :: "string \<Rightarrow> bool" where
  "asks_location t \<longleftrightarrow> contains_str ''share your location'' (py_lower t) \<or> contains_str ''find my'' (py_lower t)"

definition lower_name :: "'w ienv \<Rightarrow> dict \<Rightarrow> ('w, string, string) io" where
  "lower_name v profile =
     (let name = get_or profile ''name'' (JStr []) in
      if \<not> json_truthy (Some name) then io_return []
      else case name of JStr s \<Rightarrow> io_return ('' '' @ py_lower s) | j \<Rightarrow> io_raise (i_no_get v j))"

definition location_answer :: "string \<Rightarrow> dict" where
  "location_answer t =
     [(''success'', JBool True), (''response_text'', JStr t), (''intent'', JStr ''location_sharing''), (''status'', JStr ''complete''),
      (''responses'', JList [JObj [(''response_text'', JStr t), (''intent'', JStr ''location_sharing''), (''task'', JStr ''location_sharing'')]])]"

definition truthy_or :: "json option \<Rightarrow> json \<Rightarrow> json" where
  "truthy_or a b = (if json_truthy a then the a else b)"

text \<open>The profile is updated by \<open>update_user_profile(user_id=..., personal_facts=...)\<close>, but the method takes the user and one argument
\<open>profile_data\<close>: the call raises before it does anything.\<close>

definition update_facts :: "'w ienv \<Rightarrow> json \<Rightarrow> dict \<Rightarrow> ('w, string, unit) io" where
  "update_facts v uid facts = io_raise ''update_user_profile() got an unexpected keyword argument personal_facts''"

definition answer_location :: "'w ienv \<Rightarrow> dict \<Rightarrow> dict \<Rightarrow> string \<Rightarrow> ('w, string, dict option) io" where
  "answer_location v profile facts decision =
     (let uid = truthy_or (map_of profile ''id'') JNull in
      if decision = ''yes''
      then io_bind (lower_name v profile) (\<lambda>name.
        io_bind (update_facts v uid (put_key ''location_sharing_response'' (JStr ''yes'') facts)) (\<lambda>_.
          io_return (Some (location_answer (''bet'' @ name @ '', tap the + button on the left of the typing box, then tap '' @ quoted ''location'' @ '' and send it to me'')))))
      else if decision = ''skip''
      then io_bind (lower_name v profile) (\<lambda>name.
        io_bind (update_facts v uid (put_key ''location_sharing_response'' (JStr ''declined'') facts)) (\<lambda>_.
          io_return (Some (location_answer (''no worries'' @ name @ '', totally get it. you can always share later if you change your mind. anyway, what can i help you with'')))))
      else if decision = ''question''
      then io_return (Some (location_answer (''totally fair to ask. basically i use your location to find people near you '' @
        ''for in-person meetups - coffee chats, study sessions, events, that kind of thing. '' @
        ''local connections often lead to the best opportunities because you can actually meet face to face. '' @
        ''i don'' @ [CHR 0x27] @ ''t share your exact location with anyone, just use it to match you with nearby people. '' @ ''want to set it up?'')))
      else io_return None)"

definition check_location_sharing_response :: "'w ienv \<Rightarrow> istate \<Rightarrow> string \<Rightarrow> ('w, string, dict option) io" where
  "check_location_sharing_response v st message =
     io_bind (object_of v (truthy_or (map_of (st_profile st) ''personal_facts'') (JObj []))) (\<lambda>facts.
       if \<not> json_truthy (map_of facts ''location_sharing_prompted'') \<or> json_truthy (map_of facts ''location_sharing_response'') then io_return None
       else let said = last_bot_message (st_history st) in
         if \<not> json_truthy (Some said) then io_return None
         else case said of
             JStr t \<Rightarrow>
               if \<not> asks_location t then io_return None
               else io_bind (i_classify v message (st_profile st)) (\<lambda>c.
                 case get_or c ''decision'' (JStr ''unclear'') of JStr decision \<Rightarrow> answer_location v (st_profile st) facts decision | _ \<Rightarrow> io_return None)
           | j \<Rightarrow> io_raise (i_no_get v j))"

text \<open>The answer of the onboarding; the state it carries along is left out.\<close>

definition onboarding_item :: "json \<Rightarrow> json" where
  "onboarding_item t = JObj [(''response_text'', t), (''intent'', JStr ''onboarding''), (''task'', JStr ''onboarding'')]"

definition handle_onboarding :: "'w ienv \<Rightarrow> istate \<Rightarrow> string \<Rightarrow> ('w, string, dict) io" where
  "handle_onboarding v st message =
     io_bind (i_onboard v st message) (\<lambda>r.
       let first = (if json_truthy (map_of r ''response_text'') then [the (map_of r ''response_text'')] else []);
           items = map onboarding_item (first @ list_at r ''additional_messages'')
       in io_return [(''success'', get_or r ''success'' (JBool True)), (''responses'', if items = [] then JNull else JList items),
            (''response_text'', get_or r ''response_text'' JNull), (''intent'', JStr ''onboarding''), (''waiting_for'', get_or r ''waiting_for'' JNull)])"

section \<open>A message\<close>

record webhook =
  wh_chat :: "string option"
  wh_message_id :: "string option"
  wh_group :: bool
  wh_participants :: "json list"

text \<open>The engagement rate, a float, and two time stamps are left out.\<close>

definition initial_profile :: "string \<Rightarrow> string \<Rightarrow> dict" where
  "initial_profile phone uid =
     [(''phone_number'', JStr phone), (''user_id'', JStr uid), (''name'', JNull), (''email'', JNull), (''linkedin_url'', JNull),
      (''demand_history'', JList []), (''value_history'', JList []), (''latest_demand'', JNull), (''all_demand'', JNull), (''all_value'', JNull),
      (''intro_fee_cents'', JNull), (''university'', JNull), (''major'', JNull), (''year'', JNull), (''career_interests'', JList []),
      (''needs'', JList []), (''career_goals'', JNull), (''personal_facts'', JObj []), (''networking_clarification'', JNull),
      (''networking_limitation'', JNull), (''is_onboarded'', JBool False), (''onboarding_stage'', JStr ''name''), (''subscription_tier'', JStr ''free''),
      (''subscription_status'', JStr ''active''), (''stripe_customer_id'', JNull), (''stripe_subscription_id'', JNull),
      (''subscription_started_at'', JNull), (''subscription_ends_at'', JNull), (''consecutive_no_responses'', JInt 0), (''total_interactions'', JInt 0),
      (''last_check_in'', JNull)]"

definition cancelled_response :: dict where
  "cancelled_response = [(''success'', JBool False), (''cancelled'', JBool True), (''responses'', JList [])]"

definition group_tasks :: "string list" where
  "group_tasks = [''groupchat_maintenance'', ''groupchat_networking'']"

text \<open>The instructions of the two tasks for groups get the chat; those with numbered keys do not.\<close>

definition put_chat :: "json \<Rightarrow> string \<Rightarrow> dict \<Rightarrow> dict" where
  "put_chat chat k raw =
     (case map_of raw k of
        Some (JObj d) \<Rightarrow> (if map_of d ''chat_guid'' = None then put_key k (JObj (put_key ''chat_guid'' chat d)) raw else raw)
      | _ \<Rightarrow> raw)"

definition instructions_with_chat :: "'w ienv \<Rightarrow> istate \<Rightarrow> json \<Rightarrow> ('w, string, json) io" where
  "instructions_with_chat v st raw =
     (if \<not> st_group st then io_return raw
      else case raw of
          JObj d \<Rightarrow> io_return (JObj (foldl (\<lambda>d k. put_chat (st_chat st) k d) d group_tasks))
        | JList xs \<Rightarrow> if list_ex (\<lambda>x. x \<in> JStr ` set group_tasks) xs then io_raise (i_no_get v raw) else io_return raw
        | JStr s \<Rightarrow> if list_ex (\<lambda>k. contains_str k s) group_tasks then io_raise (i_no_get v raw) else io_return raw
        | _ \<Rightarrow> io_raise (i_no_get v raw))"

definition delegate :: "'w ienv \<Rightarrow> istate \<Rightarrow> string \<Rightarrow> dict \<Rightarrow> string list \<Rightarrow> ('w, string, dict) io" where
  "delegate v st message d tasks =
     io_bind (instructions_with_chat v st (get_or d ''task_instructions'' (JObj []))) (\<lambda>raw.
       interaction_loop v
         (st\<lparr>st_instructions := reconcile_task_instructions (i_pystr v) (sanitize_all_task_instructions raw) message (st_history st) (st_cc st)\<rparr>)
         message tasks)"

definition carry_out :: "'w ienv \<Rightarrow> istate \<Rightarrow> string \<Rightarrow> dict \<Rightarrow> ('w, string, dict) io" where
  "carry_out v st message d =
     (let st' = (if json_truthy (map_of d ''cannot_fulfill'') then st\<lparr>st_cannot := map_of d ''cannot_fulfill''\<rparr> else st) in
      io_bind (object_of v (get_or d ''cannot_fulfill'' (JObj []))) (\<lambda>c.
        if json_truthy (map_of c ''all_unfulfillable'') \<or> json_truthy (map_of d ''can_handle_directly'')
        then handle_direct_response v st' message d
        else if \<not> json_truthy (Some (get_or d ''tasks'' (JList []))) then handle_direct_response v st' message d
        else case list_names (get_or d ''tasks'' (JList [])) of
            None \<Rightarrow> io_raise (i_no_get v (get_or d ''tasks'' (JList [])))
          | Some tasks \<Rightarrow> delegate v st' message d tasks))"

definition if_cancelled :: "'w ienv \<Rightarrow> ('w, string, dict) io \<Rightarrow> ('w, string, dict) io" where
  "if_cancelled v m w = (case i_cancelled v w of (c, w') \<Rightarrow> if c then (Inr cancelled_response, w') else m w')"

definition answer_message :: "'w ienv \<Rightarrow> istate \<Rightarrow> string \<Rightarrow> ('w, string, dict) io" where
  "answer_message v st message =
     io_bind (check_location_sharing_response v st message) (\<lambda>located.
       case located of
         Some response \<Rightarrow> io_return response
       | None \<Rightarrow>
           if requires_onboarding (st_profile st) then handle_onboarding v st message
           else if_cancelled v (io_bind (should_handle_directly v st) (\<lambda>j. io_bind (object_of v j) (carry_out v st message))))"

definition snag :: string where
  "snag = ''sorry, i hit a snag processing that. mind trying again''"

definition answer_or_apologise :: "'w ienv \<Rightarrow> istate \<Rightarrow> string \<Rightarrow> ('w, string, dict) io" where
  "answer_or_apologise v st message = io_catch (answer_message v st message) (\<lambda>e. io_return (build_error_response e snag))"

definition load_state :: "'w ienv \<Rightarrow> dict \<Rightarrow> string \<Rightarrow> string \<Rightarrow> string \<Rightarrow> webhook \<Rightarrow> ('w, string, istate) io" where
  "load_state v profile uid phone message wh =
     io_bind (load_conversation_history v uid) (\<lambda>history.
     io_bind (\<lambda>w. case i_recent v uid w of (t, w') \<Rightarrow> (Inr t, w')) (\<lambda>recent.
     io_bind (load_active_connection_context v uid) (\<lambda>cc.
     io_bind (load_location_context v uid) (\<lambda>location.
       io_return \<lparr>st_profile = put_key ''location'' location profile, st_content = message, st_message_id = json_opt_str (wh_message_id wh),
         st_chat = json_opt_str (wh_chat wh), st_from = phone, st_history = history, st_recent = recent, st_cc = cc, st_group = wh_group wh,
         st_participants = wh_participants wh, st_group_history = [], st_cannot = None, st_instructions = []\<rparr>))))"

definition with_group_history :: "'w ienv \<Rightarrow> istate \<Rightarrow> ('w, string, istate) io" where
  "with_group_history v st =
     (if st_group st \<and> json_truthy (Some (st_chat st))
      then io_bind (load_group_chat_history v (st_chat st)) (\<lambda>h. io_return (st\<lparr>st_group_history := h\<rparr>)) else io_return st)"

text \<open>A user without an id, or whose stored facts have the wrong shape, raises before anything is caught.\<close>

definition process_message :: "'w ienv \<Rightarrow> string \<Rightarrow> string \<Rightarrow> dict \<Rightarrow> webhook \<Rightarrow> ('w, string, dict) io" where
  "process_message v phone message user wh =
     (case map_of user ''id'' of
        Some (JStr uid) \<Rightarrow>
          io_bind (lift_json v (populate_user_profile (i_pystr v) (initial_profile phone uid) user)) (\<lambda>profile.
          io_bind (load_state v profile uid phone message wh) (\<lambda>st.
            if_cancelled v (io_bind (with_group_history v st) (\<lambda>st'. answer_or_apologise v st' message))))
      | _ \<Rightarrow> io_raise (i_no_get v (JObj user)))"

section \<open>States of a round\<close>

definition terminal :: "states \<Rightarrow> bool" where
  "terminal ss \<longleftrightarrow> (\<forall>x \<in> set ss. ts_terminal (snd x))"

lemma execute_single_terminal: "execute_single v st p w = (t, w') \<Longrightarrow> ts_terminal t"
  using execution_frame
  by (fastforce simp: execute_single_def ts_terminal_def failed_state_def split: option.splits prod.splits sum.splits)

lemma execute_pairs_terminal: "execute_pairs v st ps w = (ss, w') \<Longrightarrow> terminal ss \<and> map fst ss = map fst ps"
proof (induction ps arbitrary: w ss w')
  case (Cons p ps)
  obtain t w1 where t: "execute_single v st p w = (t, w1)" by force
  obtain ts w2 where ts: "execute_pairs v st ps w1 = (ts, w2)" by force
  show ?case using Cons.prems t ts Cons.IH [OF ts] execute_single_terminal [OF t] by (auto simp: terminal_def)
qed (simp add: terminal_def)

lemma execute_tasks_terminal:
  assumes "execute_tasks v st names w = (ss, w')"
  shows "terminal ss \<and> map fst ss = map fst (task_pairs names)"
  using execute_pairs_terminal [of v st "task_pairs names" w ss w'] assms by (simp add: execute_tasks_def)

lemma update_set: "set (AList.update k t ss) \<subseteq> insert (k, t) (set ss)"
  by (induction ss) auto

lemma put_states_set: "set (put_states new old) \<subseteq> set new \<union> set old"
proof (induction new arbitrary: old)
  case (Cons x new)
  obtain k t where x: "x = (k, t)" by force
  have "set (put_states new (AList.update k t old)) \<subseteq> set new \<union> set (AList.update k t old)" by (rule Cons)
  then show ?case using update_set [of k t old] by (auto simp: put_states_def x)
qed (simp add: put_states_def)

lemma put_states_terminal: "terminal new \<Longrightarrow> terminal old \<Longrightarrow> terminal (put_states new old)"
  using put_states_set [of new old] by (auto simp: terminal_def)

lemma put_states_Nil [simp]: "put_states [] old = old" and put_states_Cons [simp]: "put_states ((k, t) # new) old = put_states new (AList.update k t old)"
  by (simp_all add: put_states_def)

lemma update_not_Nil: "AList.update k t ss \<noteq> []"
  by (cases ss) auto

lemma put_states_not_Nil: "new \<noteq> [] \<or> old \<noteq> [] \<Longrightarrow> put_states new old \<noteq> []"
proof (induction new arbitrary: old)
  case (Cons x new)
  then show ?case by (cases x) (simp add: update_not_Nil)
qed simp

lemma put_states_other: "k \<notin> fst ` set new \<Longrightarrow> map_of (put_states new old) k = map_of old k"
  by (induction new arbitrary: old) (auto simp: update_conv)

lemma task_pairs_Nil: "task_pairs names = [] \<longleftrightarrow> names = []"
  by (simp add: task_pairs_def)

text \<open>After a round every state is terminal, so the round is complete, waits or has failed.\<close>

lemma round_is_decided:
  assumes "terminal ss" "ss \<noteq> []"
  shows "all_complete ss \<or> any_with ''waiting'' ss \<or> any_with ''failed'' ss"
  using assms by (auto simp: terminal_def ts_terminal_def all_complete_def any_with_def list_all_iff list_ex_iff split: prod.splits)

lemma after_round:
  assumes "execute_tasks v st names w = (new, w1)" "names \<noteq> []" "terminal ss"
  shows "terminal (put_states new ss) \<and> put_states new ss \<noteq> []"
proof -
  have "terminal new" "map fst new = map fst (task_pairs names)" using execute_tasks_terminal [OF assms(1)] by auto
  moreover then have "new \<noteq> []" using assms(2) task_pairs_Nil by (metis map_is_Nil_conv)
  ultimately show ?thesis using put_states_terminal [OF _ assms(3)] put_states_not_Nil by blast
qed

text \<open>One round, without the evaluation that is never reached\<close>

lemma rounds_step:
  assumes "execute_tasks v st names w = (new, w1)" "names \<noteq> []" "terminal ss"
  shows "rounds v st message (Suc left) n names ss acc w =
    io_bind (save_states v st new) (\<lambda>rs.
      (let ss' = put_states new ss; acc' = acc @ rs in
       if all_complete ss' \<or> any_with ''waiting'' ss' then io_return (False, ss', acc')
       else if left = 0 then io_return (True, ss', acc')
       else io_bind (evaluate_for_reassignment v message (Suc n) ss' st) (\<lambda>j.
         io_bind (object_of v j) (\<lambda>d.
           if \<not> json_truthy (map_of d ''should_continue'') then io_return (True, ss', acc')
           else io_bind (rerun_names v d) (\<lambda>again.
             if again = [] then io_return (True, ss', acc') else rounds v st message left (Suc n) again ss' acc'))))) w1"
proof -
  have d: "all_complete (put_states new ss) \<or> any_with ''waiting'' (put_states new ss) \<or> any_with ''failed'' (put_states new ss)"
    using after_round [OF assms] round_is_decided by blast
  show ?thesis
    using assms(1, 2) d by (auto simp: io_bind_def [of "\<lambda>w. case execute_tasks v st names w of (new, w') \<Rightarrow> (Inr new, w')"] Let_def intro!: arg_cong [of _ _ "\<lambda>f. io_bind (save_states v st new) f w1"])
qed

lemma rounds_end:
  "rounds v st message (Suc left) n names ss acc w = (Inr (failed, ss', acc'), w') \<Longrightarrow> names \<noteq> [] \<Longrightarrow> terminal ss \<Longrightarrow>
     terminal ss' \<and> ss' \<noteq> [] \<and> failed = (\<not> all_complete ss' \<and> \<not> any_with ''waiting'' ss')"
proof (induction left arbitrary: n names ss acc w)
  case 0
  obtain new w1 where new: "execute_tasks v st names w = (new, w1)" by force
  show ?case
    using 0(1) after_round [OF new 0(2, 3)] unfolding rounds_step [OF new 0(2, 3)]
    by (auto simp: io_bind_eq_Inr Let_def split: if_splits)
next
  case (Suc left)
  obtain new w1 where new: "execute_tasks v st names w = (new, w1)" by force
  note t = after_round [OF new Suc.prems(2, 3)]
  from Suc.prems(1) obtain rs w2 where rs: "save_states v st new w1 = (Inr rs, w2)"
    and rest: "(let ss'' = put_states new ss; acc'' = acc @ rs in
       if all_complete ss'' \<or> any_with ''waiting'' ss'' then io_return (False, ss'', acc'')
       else if Suc left = 0 then io_return (True, ss'', acc'')
       else io_bind (evaluate_for_reassignment v message (Suc n) ss'' st) (\<lambda>j.
         io_bind (object_of v j) (\<lambda>d.
           if \<not> json_truthy (map_of d ''should_continue'') then io_return (True, ss'', acc'')
           else io_bind (rerun_names v d) (\<lambda>again.
             if again = [] then io_return (True, ss'', acc'') else rounds v st message (Suc left) (Suc n) again ss'' acc'')))) w2 = (Inr (failed, ss', acc'), w')"
    unfolding rounds_step [OF new Suc.prems(2, 3)] io_bind_eq_Inr by blast
  show ?case
  proof (cases "all_complete (put_states new ss) \<or> any_with ''waiting'' (put_states new ss)")
    case True
    then show ?thesis using rest t by (auto simp: Let_def)
  next
    case False
    then have "failed \<and> ss' = put_states new ss \<or> (\<exists>again w3. again \<noteq> []
        \<and> rounds v st message (Suc left) (Suc n) again (put_states new ss) (acc @ rs) w3 = (Inr (failed, ss', acc'), w'))"
      using rest by (auto simp: Let_def io_bind_eq_Inr simp del: rounds.simps split: if_splits)
    then show ?thesis
    proof (elim disjE exE conjE)
      assume "failed" "ss' = put_states new ss"
      then show ?thesis using False t by simp
    next
      fix again w3
      assume "again \<noteq> []" and r: "rounds v st message (Suc left) (Suc n) again (put_states new ss) (acc @ rs) w3 = (Inr (failed, ss', acc'), w')"
      with t show ?thesis by (intro Suc.IH [OF r]) simp_all
    qed
  qed
qed

section \<open>Properties\<close>

lemma loop_result:
  assumes "interaction_loop v st message tasks w = (Inr d, w')"
  shows "\<exists>failed ss results w1 w2. rounds v st message 2 0 tasks [] [] w1 = (Inr (failed, ss, results), w2)
    \<and> map_of d ''status'' = Some (JStr (final_status failed ss)) \<and> map_of d ''success'' = Some (JBool (final_status failed ss \<noteq> ''failed''))"
  using assms
  by (auto simp: interaction_loop_def io_bind_eq_Inr build_final_response_def simp del: rounds.simps) blast

text \<open>C36: an answer that reports success and completion comes from tasks that all completed; one that waits has a task that waits, and
a failed one has a failed task and none that waits.\<close>

theorem answers_report_the_states:
  assumes "interaction_loop v st message tasks w = (Inr d, w')" "tasks \<noteq> []"
  shows "\<exists>failed ss results w1 w2. rounds v st message 2 0 tasks [] [] w1 = (Inr (failed, ss, results), w2) \<and> ss \<noteq> []
    \<and> (map_of d ''status'' = Some (JStr ''complete'') \<longrightarrow> (\<forall>(k, t) \<in> set ss. ts_status t = ''complete''))
    \<and> (map_of d ''status'' = Some (JStr ''waiting'') \<longrightarrow> any_with ''waiting'' ss)
    \<and> (map_of d ''success'' = Some (JBool False) \<longrightarrow> any_with ''failed'' ss \<and> \<not> any_with ''waiting'' ss)"
proof -
  obtain failed ss results w1 w2 where r: "rounds v st message 2 0 tasks [] [] w1 = (Inr (failed, ss, results), w2)"
    and d: "map_of d ''status'' = Some (JStr (final_status failed ss))" "map_of d ''success'' = Some (JBool (final_status failed ss \<noteq> ''failed''))"
    using loop_result [OF assms(1)] by blast
  have "rounds v st message (Suc 1) 0 tasks [] [] w1 = (Inr (failed, ss, results), w2)" using r by (simp only: numeral_2_eq_2 One_nat_def)
  from rounds_end [OF this assms(2)] have e: "terminal ss" "ss \<noteq> []" "failed = (\<not> all_complete ss \<and> \<not> any_with ''waiting'' ss)"
    by (simp_all add: terminal_def)
  have "\<forall>(k, t) \<in> set ss. ts_status t = ''complete''" if "all_complete ss" "\<not> any_with ''waiting'' ss"
    using that by (auto simp: all_complete_def any_with_def list_all_iff list_ex_iff)
  moreover have "any_with ''failed'' ss" if "\<not> all_complete ss" "\<not> any_with ''waiting'' ss"
    using that e round_is_decided by blast
  ultimately have "(map_of d ''status'' = Some (JStr ''complete'') \<longrightarrow> (\<forall>(k, t) \<in> set ss. ts_status t = ''complete''))"
    "(map_of d ''status'' = Some (JStr ''waiting'') \<longrightarrow> any_with ''waiting'' ss)"
    "(map_of d ''success'' = Some (JBool False) \<longrightarrow> any_with ''failed'' ss \<and> \<not> any_with ''waiting'' ss)"
    using d e(3) by (auto simp: final_status_def split: if_splits)
  then show ?thesis using r e(2) by blast
qed

lemma execute_pairs_same [simp]: "execute_pairs (v\<lparr>i_complete := f\<rparr>) st ps w = execute_pairs v st ps w"
  by (induction ps arbitrary: w) (auto simp: execute_single_def)

lemma save_states_same [simp]: "save_states (v\<lparr>i_complete := f\<rparr>) st ss = save_states v st ss"
  by (induction ss) (auto simp: lift_json_def cong: option.case_cong sum.case_cong split: option.split)

lemma reassignment_same [simp]: "evaluate_for_reassignment (v\<lparr>i_complete := f\<rparr>) = evaluate_for_reassignment v"
  "object_of (v\<lparr>i_complete := f\<rparr>) = object_of v" "rerun_names (v\<lparr>i_complete := f\<rparr>) = rerun_names v"
  by (simp_all add: fun_eq_iff evaluate_for_reassignment_def object_of_def rerun_names_def cong: option.case_cong json.case_cong)

lemma rounds_same:
  "terminal ss \<Longrightarrow> rounds (v\<lparr>i_complete := f\<rparr>) st message left n names ss acc w = rounds v st message left n names ss acc w"
proof (induction left arbitrary: n names ss acc w)
  case (Suc left)
  show ?case
  proof (cases "names = []")
    case False
    obtain new w1 where new: "execute_tasks v st names w = (new, w1)" by force
    then have new': "execute_tasks (v\<lparr>i_complete := f\<rparr>) st names w = (new, w1)" by (simp add: execute_tasks_def)
    have "terminal (put_states new ss)" using after_round [OF new False Suc.prems] by simp
    then show ?thesis
      unfolding rounds_step [OF new False Suc.prems] rounds_step [OF new' False Suc.prems] save_states_same reassignment_same
      by (auto simp: Let_def io_bind_def Suc.IH simp del: rounds.simps intro!: arg_cong [of _ _ "\<lambda>f. case save_states v st new w1 of (Inl e, s') \<Rightarrow> (Inl e, s') | (Inr x, s') \<Rightarrow> f x s'"] split: sum.splits prod.splits)
  qed simp
qed simp

lemma ends_same: "send_early_acknowledgment (v\<lparr>i_complete := f\<rparr>) = send_early_acknowledgment v"
  "synthesize_response (v\<lparr>i_complete := f\<rparr>) = synthesize_response v"
  by (simp_all add: fun_eq_iff send_early_acknowledgment_def synthesize_response_def Let_def cong: option.case_cong if_cong)

text \<open>C37: the evaluation of completeness has no influence: every execution ends complete, failed or waiting, and a round with such
states never asks for it.\<close>

theorem completeness_is_never_asked:
  "interaction_loop (v\<lparr>i_complete := f\<rparr>) st message tasks = interaction_loop v st message tasks"
proof -
  have "rounds (v\<lparr>i_complete := f\<rparr>) st message 2 0 tasks [] [] = rounds v st message 2 0 tasks [] []"
    by (simp add: fun_eq_iff rounds_same terminal_def del: rounds.simps)
  then show ?thesis by (simp add: interaction_loop_def ends_same del: rounds.simps)
qed

text \<open>a task that failed under a key keeps the message from being complete, unless a later round runs the same key again:
what is done under other keys does not make up for it.\<close>

theorem retry_under_another_key_fails:
  assumes "rounds v st message (Suc 0) n names ss acc w = (Inr (failed, ss', acc'), w')" "names \<noteq> []" "terminal ss"
    "map_of ss key = Some t" "ts_status t = ''failed''" "key \<notin> fst ` set (task_pairs names)"
  shows "final_status failed ss' \<noteq> ''complete''"
proof -
  obtain new w1 where new: "execute_tasks v st names w = (new, w1)" by force
  have "fst ` set new = fst ` set (task_pairs names)" using execute_tasks_terminal [OF new] by (metis list.set_map)
  then have "map_of (put_states new ss) key = Some t" using put_states_other [of key new ss] assms(4, 6) by simp
  then have bad: "\<not> all_complete (put_states new ss)"
    using assms(5) by (fastforce simp: all_complete_def list_all_iff dest!: map_of_SomeD)
  have "ss' = put_states new ss"
    using assms(1) unfolding rounds_step [OF new assms(2, 3)] by (auto simp: io_bind_eq_Inr Let_def split: if_splits)
  moreover have "failed = (\<not> all_complete ss' \<and> \<not> any_with ''waiting'' ss')"
    using rounds_end [OF assms(1-3)] by simp
  ultimately show ?thesis using bad by (auto simp: final_status_def)
qed

text \<open>Numbered keys are never the name of a task, so running them again by their key finds no task.\<close>

lemma numbered_key_is_no_task:
  "map_of (i_tasks v) key = None \<Longrightarrow> execute_single v st (key, key) w = (failed_state, w)"
  by (simp add: execute_single_def)

text \<open>whoever answers the question for the location with yes or no gets the apology, and nothing is stored.\<close>

theorem location_answer_is_lost:
  assumes "map_of (st_profile st) ''personal_facts'' = Some (JObj facts)" "json_truthy (map_of facts ''location_sharing_prompted'')"
    "\<not> json_truthy (map_of facts ''location_sharing_response'')" "last_bot_message (st_history st) = JStr t" "asks_location t"
    "i_classify v message (st_profile st) w = (Inr c, w1)" "map_of c ''decision'' \<in> {Some (JStr ''yes''), Some (JStr ''skip'')}"
    "map_of (st_profile st) ''name'' = Some (JStr name)"
  shows "\<exists>e. answer_or_apologise v st message w = (Inr (build_error_response e snag), w1)"
proof -
  have t: "t \<noteq> []" using assms(5) by (auto simp: asks_location_def py_lower_def)
  have f: "facts \<noteq> []" using assms(2) by auto
  have "\<exists>e. check_location_sharing_response v st message w = (Inl e, w1)"
    using assms t f
    by (auto simp: check_location_sharing_response_def truthy_or_def object_of_def io_bind_def answer_location_def lower_name_def update_facts_def
        get_or_def Let_def)
  then show ?thesis by (auto simp: answer_or_apologise_def answer_message_def io_bind_def io_catch_def)
qed

text \<open>a decision whose \<open>cannot_fulfill\<close> is null ends in the apology, whatever else it says.\<close>

theorem null_boundary_is_an_error:
  assumes "check_location_sharing_response v st message w = (Inr None, w1)" "\<not> requires_onboarding (st_profile st)"
    "i_cancelled v w1 = (False, w2)" "i_decide v st w2 = (Inr t, w3)" "i_loads v (clean_decision t) = Some (JObj d)"
    "map_of d ''cannot_fulfill'' = Some JNull"
  shows "\<exists>e. answer_or_apologise v st message w = (Inr (build_error_response e snag), w3)"
  using assms
  by (auto simp: answer_or_apologise_def answer_message_def io_bind_def io_catch_def if_cancelled_def should_handle_directly_def ask_model_def
      object_of_def carry_out_def get_or_def Let_def)

lemma load_never_raises: "\<exists>x w'. load_state v profile uid phone message wh w = (Inr x, w')"
  by (simp add: load_state_def io_bind_def load_conversation_history_def load_active_connection_context_def load_location_context_def
      or_value_def io_catch_def split: prod.splits sum.splits)


section \<open>A conversation to try\<close>

text \<open>The world is again the list of the answers of the language model.\<close>

definition told :: "(string list, lfail, string) io" where
  "told w = (case w of [] \<Rightarrow> (Inl (ModelFails ''no answer''), []) | x # xs \<Rightarrow> (Inr x, xs))"

definition example_ienv :: "string list ienv" where
  "example_ienv = \<lparr>i_pystr = (\<lambda>j. ''?''),
     i_loads = (\<lambda>s. if s = ''b'' then Some (JObj [(''cannot_fulfill'', JNull), (''can_handle_directly'', JBool True)]) else None),
     i_no_get = (\<lambda>j. ''no get''), i_tasks = [(''networking'', xagent_env)], i_history = (\<lambda>u. io_return []), i_recent = (\<lambda>u w. ([], w)),
     i_pending = (\<lambda>s u. io_return []), i_connected = (\<lambda>u. io_return []), i_user = (\<lambda>u. io_return None), i_location = (\<lambda>u. io_return (JObj [])),
     i_group_history = (\<lambda>c. io_return []), i_cancelled = (\<lambda>w. (False, w)), i_decide = (\<lambda>st. told), i_direct = (\<lambda>k st m. told),
     i_reassign = (\<lambda>m n ss st. told), i_complete = (\<lambda>m rs st. told), i_synthesize = (\<lambda>m s d t wf st. told), i_send = (\<lambda>p a. io_return ()),
     i_store = (\<lambda>u a ts. io_return ()), i_save = (\<lambda>d w. w), i_classify = (\<lambda>m p. io_return [(''decision'', JStr ''yes'')]),
     i_onboard = (\<lambda>st m. io_return [])\<rparr>"

definition example_istate :: "dict \<Rightarrow> dict list \<Rightarrow> istate" where
  "example_istate profile history = \<lparr>st_profile = profile, st_content = ''yes'', st_message_id = JNull, st_chat = JNull, st_from = ''+1'', st_history = history,
     st_recent = [], st_cc = empty_context, st_group = False, st_participants = [], st_group_history = [], st_cannot = None,
     st_instructions = [(''networking'', [(''case'', JStr ''B''), (''instruction'', JStr ''yes'')])]\<rparr>"

lemma answers_report_the_states_witness:
  "\<exists>d w' ss. interaction_loop example_ienv (example_istate [(''name'', JStr ''Ann'')] []) ''yes'' [''networking''] [''i'', ''w'', ''sent''] = (Inr d, w')
     \<and> map_of d ''status'' = Some (JStr ''waiting'') \<and> any_with ''waiting'' ss"
proof -
  have e: "map_option (\<lambda>x. x) (case fst (interaction_loop example_ienv (example_istate [(''name'', JStr ''Ann'')] []) ''yes'' [''networking''] [''i'', ''w'', ''sent'']) of
      Inr d \<Rightarrow> map_of d ''status'' | _ \<Rightarrow> None) = Some (JStr ''waiting'')"
    by code_simp
  then obtain d w' where d: "interaction_loop example_ienv (example_istate [(''name'', JStr ''Ann'')] []) ''yes'' [''networking''] [''i'', ''w'', ''sent''] = (Inr d, w')"
    "map_of d ''status'' = Some (JStr ''waiting'')"
    by (cases "interaction_loop example_ienv (example_istate [(''name'', JStr ''Ann'')] []) ''yes'' [''networking''] [''i'', ''w'', ''sent'']")
      (auto split: sum.splits)
  from answers_report_the_states [OF d(1)] d show ?thesis by auto
qed

lemma retry_under_another_key_fails_witness:
  "\<exists>failed ss' acc' w'. rounds example_ienv (example_istate [] []) ''yes'' (Suc 0) 1 [''update''] [(''networking_0'', failed_state)] [] [] = (Inr (failed, ss', acc'), w')
     \<and> final_status failed ss' \<noteq> ''complete''"
proof -
  have a: "rounds example_ienv (example_istate [] []) ''yes'' (Suc 0) 1 [''update''] [(''networking_0'', failed_state)] [] []
      = (Inr (True, [(''networking_0'', failed_state), (''update'', failed_state)], []), [])"
    by code_simp
  have "final_status True [(''networking_0'', failed_state), (''update'', failed_state)] \<noteq> ''complete''"
  proof (rule retry_under_another_key_fails [OF a, where t = failed_state and key = "''networking_0''"])
    show "''networking_0'' \<notin> fst ` set (task_pairs [''update''])" by code_simp
  qed (simp_all add: terminal_def ts_terminal_def failed_state_def)
  with a show ?thesis by blast
qed

definition example_asked :: istate where
  "example_asked = example_istate [(''name'', JStr ''Ann''), (''personal_facts'', JObj [(''location_sharing_prompted'', JBool True)])]
     [[(''role'', JStr ''assistant''), (''content'', JStr ''share your location'')]]"

lemma location_answer_is_lost_witness:
  "\<exists>e. answer_or_apologise example_ienv example_asked ''yes'' [] = (Inr (build_error_response e snag), [])"
proof (rule location_answer_is_lost)
  show "map_of (st_profile example_asked) ''personal_facts'' = Some (JObj [(''location_sharing_prompted'', JBool True)])"
    "json_truthy (map_of [(''location_sharing_prompted'', JBool True)] ''location_sharing_prompted'')"
    "\<not> json_truthy (map_of [(''location_sharing_prompted'', JBool True)] ''location_sharing_response'')"
    "map_of (st_profile example_asked) ''name'' = Some (JStr ''Ann'')"
    by (simp_all add: example_asked_def example_istate_def)
  show "last_bot_message (st_history example_asked) = JStr ''share your location''" by code_simp
  show "asks_location ''share your location''" by code_simp
  show "i_classify example_ienv ''yes'' (st_profile example_asked) [] = (Inr [(''decision'', JStr ''yes'')], [])" by (simp add: example_ienv_def)
  show "map_of [(''decision'', JStr ''yes'')] ''decision'' \<in> {Some (JStr ''yes''), Some (JStr ''skip'')}" by simp
qed

lemma null_boundary_is_an_error_witness:
  "\<exists>e. answer_or_apologise example_ienv (example_istate [(''is_onboarded'', JBool True)] []) ''hi'' [''b''] = (Inr (build_error_response e snag), [])"
proof (rule null_boundary_is_an_error)
  show "check_location_sharing_response example_ienv (example_istate [(''is_onboarded'', JBool True)] []) ''hi'' [''b''] = (Inr None, [''b''])"
    by code_simp
  show "\<not> requires_onboarding (st_profile (example_istate [(''is_onboarded'', JBool True)] []))"
    by (simp add: requires_onboarding_def example_istate_def)
  show "i_cancelled example_ienv [''b''] = (False, [''b''])" by (simp add: example_ienv_def)
  show "i_decide example_ienv (example_istate [(''is_onboarded'', JBool True)] []) [''b''] = (Inr ''b'', [])" by (simp add: example_ienv_def told_def)
  show "i_loads example_ienv (clean_decision ''b'') = Some (JObj [(''cannot_fulfill'', JNull), (''can_handle_directly'', JBool True)])" by code_simp
  show "map_of [(''cannot_fulfill'', JNull), (''can_handle_directly'', JBool True)] ''cannot_fulfill'' = Some JNull" by simp
qed


end
